(* ===== verification/Prelude.thy ===== *)
theory Prelude
  imports Main "HOL-Library.Char_ord" "HOL-Library.List_Lexorder" "HOL-Library.Product_Lexorder"
begin

text \<open>
  The shared vocabulary of the development: the errors of \<open>src/common/errors.ts\<close>, the
  state-and-exception actions in which the stateful operations of the controller are
  written (a failed action still returns the state it reached; \<open>transaction\<close> is the
  BEGIN IMMEDIATE / COMMIT / ROLLBACK bracket of the store), the JavaScript list idioms the
  code uses, and the rules by which the component proofs are run.
\<close>

section \<open>Errors\<close>

datatype security_error_code =
    TARGET_UNAVAILABLE | PERMISSION_DENIED | TOOL_TIMEOUT | UNSUPPORTED_ENVIRONMENT
  | INVALID_TARGET | INVALID_ARGUMENT | EVIDENCE_COLLECTION | APPROVAL_REQUIRED
  | APPROVAL_MISMATCH | BUDGET_EXCEEDED | INTERNAL_ERROR | RECOVERY_UNCERTAIN

text \<open>
  What a call may throw: a \<open>SecurityError\<close> with its code (\<open>InvalidArgumentError\<close> is the
  one with code \<open>INVALID_ARGUMENT\<close>), a plain \<open>Error\<close>, a JavaScript \<open>TypeError\<close>, or the
  error of SQLite for a violated constraint. The message texts are not modelled.
\<close>

datatype err = Security_error security_error_code | Plain_error | Type_error | Constraint_error

abbreviation Invalid_argument :: err where
  "Invalid_argument \<equiv> Security_error INVALID_ARGUMENT"

section \<open>Actions\<close>

type_synonym ('s, 'a) act = "'s \<Rightarrow> (err + 'a) \<times> 's"

definition return_act :: "'a \<Rightarrow> ('s, 'a) act" where
  "return_act x = (\<lambda>s. (Inr x, s))"

definition throw_act :: "err \<Rightarrow> ('s, 'a) act" where
  "throw_act e = (\<lambda>s. (Inl e, s))"

definition bind_act :: "('s, 'a) act \<Rightarrow> ('a \<Rightarrow> ('s, 'b) act) \<Rightarrow> ('s, 'b) act" where
  "bind_act m f = (\<lambda>s. case m s of (Inl e, s') \<Rightarrow> (Inl e, s') | (Inr x, s') \<Rightarrow> f x s')"

definition seq_act :: "('s, 'a) act \<Rightarrow> ('s, 'b) act \<Rightarrow> ('s, 'b) act" where
  "seq_act m k = bind_act m (\<lambda>_. k)"

definition read_act :: "('s \<Rightarrow> 'a) \<Rightarrow> ('s, 'a) act" where
  "read_act f = (\<lambda>s. (Inr (f s), s))"

definition write_act :: "('s \<Rightarrow> 's) \<Rightarrow> ('s, unit) act" where
  "write_act g = (\<lambda>s. (Inr (), g s))"

definition require :: "bool \<Rightarrow> err \<Rightarrow> ('s, unit) act" where
  "require b e = (if b then return_act () else throw_act e)"

fun each_act :: "('a \<Rightarrow> ('s, unit) act) \<Rightarrow> 'a list \<Rightarrow> ('s, unit) act" where
  "each_act f [] = return_act ()"
| "each_act f (x # xs) = seq_act (f x) (each_act f xs)"

fun map_act :: "('a \<Rightarrow> ('s, 'b) act) \<Rightarrow> 'a list \<Rightarrow> ('s, 'b list) act" where
  "map_act f [] = return_act []"
| "map_act f (x # xs) = bind_act (f x) (\<lambda>y. bind_act (map_act f xs) (\<lambda>ys. return_act (y # ys)))"

text \<open>
  \<open>db.exec("BEGIN IMMEDIATE"); try { ...; db.exec("COMMIT") } catch (error) {
  db.exec("ROLLBACK"); throw error }\<close>: an error undoes the statements of the block.
\<close>

definition transaction :: "('s, 'a) act \<Rightarrow> ('s, 'a) act" where
  "transaction m = (\<lambda>s. case m s of (Inl e, s') \<Rightarrow> (Inl e, s) | (Inr x, s') \<Rightarrow> (Inr x, s'))"

named_theorems act_simps \<open>how an action succeeds or fails\<close>

lemma return_act_eq [simp]: "return_act x s = (Inr x, s)"
  by (simp add: return_act_def)

lemma throw_act_eq [simp]: "throw_act e s = (Inl e, s)"
  by (simp add: throw_act_def)

lemma read_act_eq [simp]: "read_act f s = (Inr (f s), s)"
  by (simp add: read_act_def)

lemma write_act_eq [simp]: "write_act g s = (Inr (), g s)"
  by (simp add: write_act_def)

lemma require_True [simp]: "require True e s = (Inr (), s)"
  by (simp add: require_def)

lemma require_False [simp]: "require False e s = (Inl e, s)"
  by (simp add: require_def)

lemma require_Inr [act_simps]: "require b e s = (Inr x, s') \<longleftrightarrow> b \<and> s' = s"
  by (auto simp: require_def)

lemma require_Inl [act_simps]: "require b e s = (Inl e', s') \<longleftrightarrow> \<not> b \<and> e' = e \<and> s' = s"
  by (auto simp: require_def)

lemma bind_act_Inr [act_simps]:
  "bind_act m f s = (Inr y, s'') \<longleftrightarrow> (\<exists>x s'. m s = (Inr x, s') \<and> f x s' = (Inr y, s''))"
  by (auto simp: bind_act_def split: prod.splits sum.splits)

lemma bind_act_Inl [act_simps]:
  "bind_act m f s = (Inl e, s'') \<longleftrightarrow>
     m s = (Inl e, s'') \<or> (\<exists>x s'. m s = (Inr x, s') \<and> f x s' = (Inl e, s''))"
  by (auto simp: bind_act_def split: prod.splits sum.splits)

lemma seq_act_Inr [act_simps]:
  "seq_act m k s = (Inr y, s'') \<longleftrightarrow> (\<exists>x s'. m s = (Inr x, s') \<and> k s' = (Inr y, s''))"
  by (simp add: seq_act_def bind_act_Inr)

lemma seq_act_Inl [act_simps]:
  "seq_act m k s = (Inl e, s'') \<longleftrightarrow>
     m s = (Inl e, s'') \<or> (\<exists>x s'. m s = (Inr x, s') \<and> k s' = (Inl e, s''))"
  by (simp add: seq_act_def bind_act_Inl)

lemma transaction_Inr [act_simps]: "transaction m s = (Inr x, s') \<longleftrightarrow> m s = (Inr x, s')"
  by (auto simp: transaction_def split: prod.splits sum.splits)

lemma transaction_Inl [act_simps]:
  "transaction m s = (Inl e, s') \<longleftrightarrow> s' = s \<and> (\<exists>t. m s = (Inl e, t))"
  by (auto simp: transaction_def split: prod.splits sum.splits)

text \<open>The statements of a transaction that fails leave no trace.\<close>

lemma transaction_rollback: "fst (transaction m s) = Inl e \<Longrightarrow> snd (transaction m s) = s"
  by (auto simp: transaction_def split: prod.splits sum.splits)

lemma act_step_bind: "m s = (Inr x, s') \<Longrightarrow> bind_act m f s = f x s'"
  by (simp add: bind_act_def)

lemma act_step_seq: "m s = (Inr x, s') \<Longrightarrow> seq_act m k s = k s'"
  by (simp add: seq_act_def bind_act_def)

lemma act_fail_bind: "m s = (Inl e, s') \<Longrightarrow> bind_act m f s = (Inl e, s')"
  by (simp add: bind_act_def)

lemma act_fail_seq: "m s = (Inl e, s') \<Longrightarrow> seq_act m k s = (Inl e, s')"
  by (simp add: seq_act_def bind_act_def)

lemma act_result: "fst (m s) = r \<Longrightarrow> m s = (r, snd (m s))"
  by (simp add: prod_eq_iff)

lemmas act_unfold = bind_act_def seq_act_def transaction_def require_def return_act_def
  throw_act_def read_act_def write_act_def

section \<open>Preservation of an invariant\<close>

text \<open>
  \<open>keeps I m\<close>: whatever \<open>m\<close> does, the state it leaves satisfies \<open>I\<close> if the one it found did,
  whether it returns or throws.
\<close>

definition keeps :: "('s \<Rightarrow> bool) \<Rightarrow> ('s, 'a) act \<Rightarrow> bool" where
  "keeps I m \<longleftrightarrow> (\<forall>s. I s \<longrightarrow> I (snd (m s)))"

named_theorems keeps_intros \<open>the invariant-preservation rules\<close>

lemma keepsI: "(\<And>s. I s \<Longrightarrow> I (snd (m s))) \<Longrightarrow> keeps I m"
  by (simp add: keeps_def)

lemma keepsD: "keeps I m \<Longrightarrow> I s \<Longrightarrow> m s = (r, s') \<Longrightarrow> I s'"
  by (auto simp: keeps_def dest: spec [of _ s])

lemma keeps_return [keeps_intros]: "keeps I (return_act x)"
  by (simp add: keeps_def)

lemma keeps_throw [keeps_intros]: "keeps I (throw_act e)"
  by (simp add: keeps_def)

lemma keeps_read [keeps_intros]: "keeps I (read_act f)"
  by (simp add: keeps_def)

lemma keeps_require [keeps_intros]: "keeps I (require b e)"
  by (simp add: keeps_def require_def)

lemma keeps_write [keeps_intros]: "(\<And>s. I s \<Longrightarrow> I (g s)) \<Longrightarrow> keeps I (write_act g)"
  by (simp add: keeps_def)

lemma keeps_bind [keeps_intros]:
  "keeps I m \<Longrightarrow> (\<And>x. keeps I (f x)) \<Longrightarrow> keeps I (bind_act m f)"
  by (fastforce simp: keeps_def bind_act_def split: prod.splits sum.splits)

lemma keeps_seq [keeps_intros]: "keeps I m \<Longrightarrow> keeps I k \<Longrightarrow> keeps I (seq_act m k)"
  by (simp add: seq_act_def keeps_bind)

lemma keeps_transaction [keeps_intros]: "keeps I m \<Longrightarrow> keeps I (transaction m)"
  by (fastforce simp: keeps_def transaction_def split: prod.splits sum.splits)

text \<open>In a transaction only the successful runs matter.\<close>

lemma keeps_transactionI:
  "(\<And>s x s'. I s \<Longrightarrow> m s = (Inr x, s') \<Longrightarrow> I s') \<Longrightarrow> keeps I (transaction m)"
  by (fastforce simp: keeps_def transaction_def split: prod.splits sum.splits)

text \<open>An action that leaves no trace when it throws.\<close>

definition atomic :: "('s, 'a) act \<Rightarrow> bool" where
  "atomic m \<longleftrightarrow> (\<forall>s e s'. m s = (Inl e, s') \<longrightarrow> s' = s)"

lemma atomic_transaction [simp]: "atomic (transaction m)"
  by (simp add: atomic_def transaction_Inl)

lemma atomicD: "atomic m \<Longrightarrow> m s = (Inl e, s') \<Longrightarrow> s' = s"
  by (simp add: atomic_def)

lemma atomic_keeps:
  assumes "atomic m" and "I s" and "\<And>x s'. m s = (Inr x, s') \<Longrightarrow> I s'"
  shows "I (snd (m s))"
proof (cases "m s")
  case (Pair r s')
  with assms show ?thesis by (cases r) (auto simp: atomic_def)
qed

lemma keeps_each [keeps_intros]: "(\<And>x. keeps I (f x)) \<Longrightarrow> keeps I (each_act f xs)"
  by (induction xs) (auto intro: keeps_intros)

lemma keeps_map [keeps_intros]: "(\<And>x. keeps I (f x)) \<Longrightarrow> keeps I (map_act f xs)"
  by (induction xs) (auto intro: keeps_intros)

lemma keeps_if [keeps_intros]: "keeps I m \<Longrightarrow> keeps I k \<Longrightarrow> keeps I (if b then m else k)"
  by simp

lemma keeps_option [keeps_intros]:
  "keeps I m \<Longrightarrow> (\<And>x. keeps I (f x)) \<Longrightarrow> keeps I (case v of None \<Rightarrow> m | Some x \<Rightarrow> f x)"
  by (simp split: option.split)

section \<open>Actions that cannot fail\<close>

text \<open>\<open>succeeds I m\<close>: from a state that satisfies \<open>I\<close>, \<open>m\<close> returns and leaves \<open>I\<close> true.\<close>

definition succeeds :: "('s \<Rightarrow> bool) \<Rightarrow> ('s, 'a) act \<Rightarrow> bool" where
  "succeeds I m \<longleftrightarrow> (\<forall>s. I s \<longrightarrow> (\<exists>x s'. m s = (Inr x, s') \<and> I s'))"

named_theorems succeeds_intros \<open>the rules for actions that cannot fail\<close>

lemma succeedsD: "succeeds I m \<Longrightarrow> I s \<Longrightarrow> \<exists>x s'. m s = (Inr x, s') \<and> I s'"
  by (simp add: succeeds_def)

lemma succeedsI: "keeps I m \<Longrightarrow> (\<And>s. I s \<Longrightarrow> \<exists>x s'. m s = (Inr x, s')) \<Longrightarrow> succeeds I m"
  unfolding succeeds_def by (blast dest: keepsD)

lemma succeeds_return [succeeds_intros]: "succeeds I (return_act x)"
  by (simp add: succeeds_def)

lemma succeeds_read [succeeds_intros]: "succeeds I (read_act f)"
  by (simp add: succeeds_def)

lemma succeeds_write [succeeds_intros]: "(\<And>s. I s \<Longrightarrow> I (g s)) \<Longrightarrow> succeeds I (write_act g)"
  by (simp add: succeeds_def)

lemma succeeds_bind [succeeds_intros]:
  "succeeds I m \<Longrightarrow> (\<And>x. succeeds I (f x)) \<Longrightarrow> succeeds I (bind_act m f)"
  unfolding succeeds_def by (metis act_step_bind)

lemma succeeds_seq [succeeds_intros]: "succeeds I m \<Longrightarrow> succeeds I k \<Longrightarrow> succeeds I (seq_act m k)"
  by (simp add: seq_act_def succeeds_bind)

lemma succeeds_transaction [succeeds_intros]: "succeeds I m \<Longrightarrow> succeeds I (transaction m)"
  unfolding succeeds_def by (metis transaction_Inr)

lemma succeeds_if [succeeds_intros]:
  "succeeds I m \<Longrightarrow> succeeds I k \<Longrightarrow> succeeds I (if b then m else k)"
  by simp

lemma succeeds_option [succeeds_intros]:
  "succeeds I m \<Longrightarrow> (\<And>x. succeeds I (f x)) \<Longrightarrow> succeeds I (case v of None \<Rightarrow> m | Some x \<Rightarrow> f x)"
  by (simp split: option.split)

lemma succeeds_each [succeeds_intros]: "(\<And>x. succeeds I (f x)) \<Longrightarrow> succeeds I (each_act f xs)"
  by (induction xs) (auto intro: succeeds_intros)

lemma succeeds_map [succeeds_intros]: "(\<And>x. succeeds I (f x)) \<Longrightarrow> succeeds I (map_act f xs)"
  by (induction xs) (auto intro!: succeeds_intros)

lemma map_eq_member: "map f xs = ys \<Longrightarrow> y \<in> set ys \<Longrightarrow> \<exists>x\<in>set xs. f x = y"
  by auto

lemma find_snoc: "List.find p xs = None \<Longrightarrow> List.find p (xs @ [x]) = (if p x then Some x else None)"
  by (induction xs) (auto split: if_splits)

section \<open>Steps that respect a relation\<close>

text \<open>
  \<open>obeys R m\<close>: whatever \<open>m\<close> does, the state it leaves is related by \<open>R\<close> to the one it found.
  For a preorder \<open>R\<close> it is enough that the parts of \<open>m\<close> do; \<open>same f\<close> is the preorder of the
  actions that do not touch the component \<open>f\<close> of the state.
\<close>

definition obeys :: "('s \<Rightarrow> 's \<Rightarrow> bool) \<Rightarrow> ('s, 'a) act \<Rightarrow> bool" where
  "obeys R m \<longleftrightarrow> (\<forall>s. R s (snd (m s)))"

definition same :: "('s \<Rightarrow> 'c) \<Rightarrow> 's \<Rightarrow> 's \<Rightarrow> bool" where
  "same f s s' \<longleftrightarrow> f s' = f s"

named_theorems obeys_intros \<open>the rules for actions that respect a relation\<close>

lemma reflp_same [obeys_intros]: "reflp (same f)"
  by (simp add: reflp_def same_def)

lemma transp_same [obeys_intros]: "transp (same f)"
  by (simp add: transp_def same_def)

lemma obeysD: "obeys R m \<Longrightarrow> m s = (r, s') \<Longrightarrow> R s s'"
  by (auto simp: obeys_def dest: spec [of _ s])

lemma obeys_sameD: "obeys (same f) m \<Longrightarrow> m s = (r, s') \<Longrightarrow> f s' = f s"
  by (auto simp: same_def dest: obeysD)

lemma obeys_snd: "obeys (same f) m \<Longrightarrow> f (snd (m s)) = f s"
  by (simp add: obeys_def same_def)

lemma obeys_return [obeys_intros]: "reflp R \<Longrightarrow> obeys R (return_act x)"
  by (simp add: obeys_def reflp_def)

lemma obeys_throw [obeys_intros]: "reflp R \<Longrightarrow> obeys R (throw_act e)"
  by (simp add: obeys_def reflp_def)

lemma obeys_read [obeys_intros]: "reflp R \<Longrightarrow> obeys R (read_act f)"
  by (simp add: obeys_def reflp_def)

lemma obeys_require [obeys_intros]: "reflp R \<Longrightarrow> obeys R (require b e)"
  by (simp add: obeys_def reflp_def require_def)

lemma obeys_write [obeys_intros]: "(\<And>s. R s (g s)) \<Longrightarrow> obeys R (write_act g)"
  by (simp add: obeys_def)

lemma obeys_bind [obeys_intros]:
  assumes "transp R" and "obeys R m" and "\<And>x. obeys R (f x)"
  shows "obeys R (bind_act m f)"
  unfolding obeys_def
proof
  fix s
  show "R s (snd (bind_act m f s))"
  proof (cases "m s")
    case (Pair r s')
    then have "R s s'" using assms(2) by (rule obeysD [rotated])
    then show ?thesis using Pair assms(1,3)
      by (auto simp: bind_act_def obeys_def split: sum.split dest: transpD)
  qed
qed

lemma obeys_seq [obeys_intros]:
  "transp R \<Longrightarrow> obeys R m \<Longrightarrow> obeys R k \<Longrightarrow> obeys R (seq_act m k)"
  by (simp add: seq_act_def obeys_bind)

lemma obeys_transaction [obeys_intros]:
  "reflp R \<Longrightarrow> obeys R m \<Longrightarrow> obeys R (transaction m)"
  unfolding obeys_def
  by (metis fst_conv old.sum.exhaust prod.collapse reflpD snd_conv transaction_Inl transaction_Inr)

lemma obeys_each [obeys_intros]:
  "reflp R \<Longrightarrow> transp R \<Longrightarrow> (\<And>x. obeys R (f x)) \<Longrightarrow> obeys R (each_act f xs)"
  by (induction xs) (auto intro: obeys_intros)

lemma obeys_map [obeys_intros]:
  "reflp R \<Longrightarrow> transp R \<Longrightarrow> (\<And>x. obeys R (f x)) \<Longrightarrow> obeys R (map_act f xs)"
  by (induction xs) (auto intro!: obeys_intros)

lemma obeys_if [obeys_intros]:
  "obeys R m \<Longrightarrow> obeys R k \<Longrightarrow> obeys R (if b then m else k)"
  by simp

lemma obeys_option [obeys_intros]:
  "obeys R m \<Longrightarrow> (\<And>x. obeys R (f x)) \<Longrightarrow> obeys R (case v of None \<Rightarrow> m | Some x \<Rightarrow> f x)"
  by (simp split: option.split)

lemma obeys_prod [obeys_intros]:
  "(\<And>x y. obeys R (f x y)) \<Longrightarrow> obeys R (case v of (x, y) \<Rightarrow> f x y)"
  by (simp split: prod.split)

lemma obeys_let [obeys_intros]: "(\<And>x. obeys R (f x)) \<Longrightarrow> obeys R (let x = v in f x)"
  by simp

lemma each_act_filter:
  "each_act (\<lambda>x. if p x then return_act () else f x) xs = each_act f (filter (\<lambda>x. \<not> p x) xs)"
  by (induction xs) (auto simp: seq_act_def bind_act_def)

section \<open>Actions whose success establishes an invariant\<close>

text \<open>
  \<open>maintains I m\<close>: a run of \<open>m\<close> that returns leaves \<open>I\<close> true; one that throws may stop half-way.
  It is what the body of a transaction has to do for the transaction to keep \<open>I\<close>.
\<close>

definition maintains :: "('s \<Rightarrow> bool) \<Rightarrow> ('s, 'a) act \<Rightarrow> bool" where
  "maintains I m \<longleftrightarrow> (\<forall>s x s'. I s \<longrightarrow> m s = (Inr x, s') \<longrightarrow> I s')"

named_theorems maintains_intros \<open>the rules for actions whose success establishes an invariant\<close>

lemma maintainsI: "(\<And>s x s'. I s \<Longrightarrow> m s = (Inr x, s') \<Longrightarrow> I s') \<Longrightarrow> maintains I m"
  by (simp add: maintains_def)

lemma maintainsD: "maintains I m \<Longrightarrow> I s \<Longrightarrow> m s = (Inr x, s') \<Longrightarrow> I s'"
  by (simp add: maintains_def)

lemma keeps_maintains: "keeps I m \<Longrightarrow> maintains I m"
  by (blast intro: maintainsI dest: keepsD)

lemma maintains_keeps: "maintains I m \<Longrightarrow> keeps I (transaction m)"
  by (blast intro: keeps_transactionI dest: maintainsD)

lemma maintains_return [maintains_intros]: "maintains I (return_act x)"
  by (simp add: maintains_def)

lemma maintains_read [maintains_intros]: "maintains I (read_act f)"
  by (simp add: maintains_def)

lemma maintains_require [maintains_intros]: "maintains I (require b e)"
  by (simp add: maintains_def act_simps)

lemma maintains_throw [maintains_intros]: "maintains I (throw_act e)"
  by (simp add: maintains_def)

lemma maintains_write [maintains_intros]: "(\<And>s. I s \<Longrightarrow> I (g s)) \<Longrightarrow> maintains I (write_act g)"
  by (simp add: maintains_def)

lemma maintains_bind [maintains_intros]:
  "maintains I m \<Longrightarrow> (\<And>x. maintains I (f x)) \<Longrightarrow> maintains I (bind_act m f)"
  unfolding maintains_def by (meson bind_act_Inr)

lemma maintains_seq [maintains_intros]:
  "maintains I m \<Longrightarrow> maintains I k \<Longrightarrow> maintains I (seq_act m k)"
  by (simp add: seq_act_def maintains_bind)

lemma maintains_if [maintains_intros]:
  "maintains I m \<Longrightarrow> maintains I k \<Longrightarrow> maintains I (if b then m else k)"
  by simp

lemma maintains_option [maintains_intros]:
  "maintains I m \<Longrightarrow> (\<And>x. maintains I (f x)) \<Longrightarrow> maintains I (case v of None \<Rightarrow> m | Some x \<Rightarrow> f x)"
  by (simp split: option.split)

lemma maintains_each [maintains_intros]:
  "(\<And>x. maintains I (f x)) \<Longrightarrow> maintains I (each_act f xs)"
  by (induction xs) (auto intro: maintains_intros)

lemma maintains_let [maintains_intros]: "(\<And>x. maintains I (f x)) \<Longrightarrow> maintains I (let x = v in f x)"
  by simp

section \<open>Runs\<close>

text \<open>
  A component is driven by requests, each a call of one of its operations. \<open>run_ops\<close> issues a
  list of them one after the other; a request that throws is answered with its error and the
  next one starts from the state it left.
\<close>

fun run_ops :: "('op \<Rightarrow> 's \<Rightarrow> (err + 'r) \<times> 's) \<Rightarrow> 'op list \<Rightarrow> 's \<Rightarrow> 's" where
  "run_ops exec [] s = s"
| "run_ops exec (q # qs) s = run_ops exec qs (snd (exec q s))"

lemma run_ops_append: "run_ops exec (qs @ rs) s = run_ops exec rs (run_ops exec qs s)"
  by (induction qs arbitrary: s) simp_all

text \<open>
  The interface of a component with an invariant: which requests are admissible, and that each
  of them keeps the invariant. Everything a run establishes follows from it once.
\<close>

locale invariant_system =
  fixes exec :: "'op \<Rightarrow> 's \<Rightarrow> (err + 'r) \<times> 's"
    and admissible :: "'op \<Rightarrow> bool"
    and invar :: "'s \<Rightarrow> bool"
  assumes exec_keeps: "admissible q \<Longrightarrow> invar s \<Longrightarrow> invar (snd (exec q s))"
begin

lemma run_keeps: "list_all admissible qs \<Longrightarrow> invar s \<Longrightarrow> invar (run_ops exec qs s)"
  by (induction qs arbitrary: s) (simp_all add: exec_keeps)

lemma run_split:
  assumes "list_all admissible (qs @ rs)" and "invar s"
  shows "invar (run_ops exec qs s) \<and> invar (run_ops exec rs (run_ops exec qs s))"
  using assms by (simp add: run_keeps)

end

text \<open>
  A component whose entities also carry a measure of progress that no request undoes: a
  relation on states, reflexive and transitive, that every admissible request obeys.
\<close>

locale monotone_system = invariant_system exec admissible invar
  for exec :: "'op \<Rightarrow> 's \<Rightarrow> (err + 'r) \<times> 's" and admissible invar +
  fixes progress :: "'s \<Rightarrow> 's \<Rightarrow> bool"
  assumes progress_refl: "progress s s"
    and progress_trans: "progress s t \<Longrightarrow> progress t u \<Longrightarrow> progress s u"
    and exec_progress: "admissible q \<Longrightarrow> invar s \<Longrightarrow> progress s (snd (exec q s))"
begin

lemma run_progress:
  "list_all admissible qs \<Longrightarrow> invar s \<Longrightarrow> progress s (run_ops exec qs s)"
proof (induction qs arbitrary: s)
  case (Cons q qs)
  then have "progress s (snd (exec q s))" and "invar (snd (exec q s))"
    by (simp_all add: exec_progress exec_keeps)
  with Cons show ?case by (auto intro: progress_trans)
qed (simp add: progress_refl)

lemma run_progress_between:
  assumes "list_all admissible (qs @ rs)" and "invar s"
  shows "progress (run_ops exec qs s) (run_ops exec (qs @ rs) s)"
  using assms by (simp add: run_ops_append run_progress run_keeps)

end

section \<open>JavaScript list idioms\<close>

text \<open>\<open>[...new Set(xs)]\<close>: the distinct elements in the order of their first occurrence.\<close>

fun unique_from :: "'a list \<Rightarrow> 'a list \<Rightarrow> 'a list" where
  "unique_from seen [] = []"
| "unique_from seen (x # xs) =
     (if x \<in> set seen then unique_from seen xs else x # unique_from (x # seen) xs)"

definition unique :: "'a list \<Rightarrow> 'a list" where
  "unique xs = unique_from [] xs"

lemma set_unique_from: "set (unique_from seen xs) = set xs - set seen"
  by (induction seen xs rule: unique_from.induct) auto

lemma distinct_unique_from: "distinct (unique_from seen xs)"
  by (induction seen xs rule: unique_from.induct) (auto simp: set_unique_from)

lemma set_unique [simp]: "set (unique xs) = set xs"
  by (simp add: unique_def set_unique_from)

lemma distinct_unique [simp]: "distinct (unique xs)"
  by (simp add: unique_def distinct_unique_from)

lemma unique_from_distinct: "distinct xs \<Longrightarrow> set xs \<inter> set seen = {} \<Longrightarrow> unique_from seen xs = xs"
  by (induction seen xs rule: unique_from.induct) auto

lemma unique_distinct: "distinct xs \<Longrightarrow> unique xs = xs"
  by (simp add: unique_def unique_from_distinct)

text \<open>\<open>xs.find(p)\<close> is the library's \<open>find\<close>; what its result satisfies.\<close>

lemma find_SomeD: "List.find p xs = Some x \<Longrightarrow> x \<in> set xs \<and> p x"
  by (induction xs) (auto split: if_splits)

lemma find_None_iff': "List.find p xs = None \<longleftrightarrow> (\<forall>x\<in>set xs. \<not> p x)"
  by (induction xs) auto

lemma find_unique:
  "distinct (map key xs) \<Longrightarrow> x \<in> set xs \<Longrightarrow> List.find (\<lambda>r. key r = key x) xs = Some x"
  by (induction xs) (auto simp: image_iff)

text \<open>Stable sorting by a key keeps the elements.\<close>

lemma set_sort_key' [simp]: "set (sort_key f xs) = set xs"
  by simp

definition option_or :: "'a option \<Rightarrow> 'a \<Rightarrow> 'a" where
  "option_or v d = (case v of None \<Rightarrow> d | Some x \<Rightarrow> x)"

lemma option_or_simps [simp]: "option_or None d = d" "option_or (Some x) d = x"
  by (simp_all add: option_or_def)

section \<open>Ordered reads\<close>

text \<open>\<open>ORDER BY f\<close> and \<open>ORDER BY f DESC\<close>; rows with equal keys stay in rowid order.\<close>

definition order_by :: "('r \<Rightarrow> 'k::linorder) \<Rightarrow> 'r list \<Rightarrow> 'r list" where
  "order_by f rows = sort_key f rows"

definition order_by_desc :: "('r \<Rightarrow> 'k::linorder) \<Rightarrow> 'r list \<Rightarrow> 'r list" where
  "order_by_desc f rows = rev (sort_key f (rev rows))"

lemma set_order_by [simp]: "set (order_by f rows) = set rows"
  by (simp add: order_by_def)

lemma set_order_by_desc [simp]: "set (order_by_desc f rows) = set rows"
  by (simp add: order_by_desc_def)

lemma order_by_Nil_iff [simp]: "order_by f rows = [] \<longleftrightarrow> rows = []"
  by (metis set_empty set_order_by)

lemma distinct_order_by [simp]: "distinct (order_by f rows) = distinct rows"
  by (simp add: order_by_def)

lemma distinct_order_by_desc [simp]: "distinct (order_by_desc f rows) = distinct rows"
  by (simp add: order_by_desc_def)

lemma sorted_order_by [simp]: "sorted (map f (order_by f rows))"
  by (simp add: order_by_def)

lemma hd_order_by_desc:
  "order_by_desc f rows = x # xs \<Longrightarrow> x \<in> set rows \<and> (\<forall>y\<in>set rows. f y \<le> f x)"
proof -
  assume eq: "order_by_desc f rows = x # xs"
  then have "sort_key f (rev rows) = rev xs @ [x]" by (simp add: order_by_desc_def rev_swap)
  then have "sorted (map f (rev xs @ [x]))" by (metis sorted_sort_key)
  moreover have "set rows = set (x # xs)" by (metis eq set_order_by_desc)
  ultimately show ?thesis by (auto simp: sorted_append)
qed

section \<open>Tables\<close>

text \<open>
  A table of the store is the list of its rows in rowid order. \<open>key\<close> reads a row's primary
  key. \<open>INSERT\<close> appends and fails on a taken key; \<open>INSERT OR IGNORE\<close> then changes nothing;
  \<open>INSERT OR REPLACE\<close> deletes the row with that key and appends the new one (SQLite deletes
  the conflicting row, so the new one gets the next rowid); \<open>UPDATE ... WHERE\<close> rewrites the
  rows in place.
\<close>

definition has_key :: "('r \<Rightarrow> 'k) \<Rightarrow> 'k \<Rightarrow> 'r list \<Rightarrow> bool" where
  "has_key key k t \<longleftrightarrow> k \<in> key ` set t"

definition replace_row :: "('r \<Rightarrow> 'k) \<Rightarrow> 'r \<Rightarrow> 'r list \<Rightarrow> 'r list" where
  "replace_row key r t = filter (\<lambda>x. key x \<noteq> key r) t @ [r]"

definition update_rows :: "('r \<Rightarrow> bool) \<Rightarrow> ('r \<Rightarrow> 'r) \<Rightarrow> 'r list \<Rightarrow> 'r list" where
  "update_rows p f t = map (\<lambda>r. if p r then f r else r) t"

definition changes :: "('r \<Rightarrow> bool) \<Rightarrow> 'r list \<Rightarrow> nat" where
  "changes p t = length (filter p t)"

lemma has_key_iff: "has_key key k t \<longleftrightarrow> (\<exists>r\<in>set t. key r = k)"
  by (auto simp: has_key_def)

lemma replace_row_keys:
  "key ` set (replace_row key r t) = insert (key r) (key ` set t)"
  by (auto simp: replace_row_def image_iff)

lemma replace_row_set: "set (replace_row key r t) = insert r {x \<in> set t. key x \<noteq> key r}"
  by (auto simp: replace_row_def)

lemma replace_row_distinct: "distinct (map key t) \<Longrightarrow> distinct (map key (replace_row key r t))"
  by (auto simp: replace_row_def distinct_map_filter)

lemma update_rows_keys:
  "(\<And>r. p r \<Longrightarrow> key (f r) = key r) \<Longrightarrow> map key (update_rows p f t) = map key t"
  by (simp add: update_rows_def)

lemma update_rows_set: "set (update_rows p f t) = (\<lambda>r. if p r then f r else r) ` set t"
  by (simp add: update_rows_def)

lemma update_rows_related:
  "(\<And>r. R r (if p r then f r else r)) \<Longrightarrow> r \<in> set t \<Longrightarrow> \<exists>r'\<in>set (update_rows p f t). R r r'"
  unfolding update_rows_set by (blast intro: image_eqI [OF refl])

lemma changes_one_iff:
  assumes "distinct (map key t)" and "\<And>r. p r \<Longrightarrow> key r = k"
  shows "changes p t = 1 \<longleftrightarrow> (\<exists>r\<in>set t. p r)"
proof -
  from assms have "length (filter p t) \<le> 1"
  proof (induction t)
    case (Cons r t)
    show ?case
    proof (cases "p r")
      case True
      with Cons.prems have "\<forall>x\<in>set t. \<not> p x" by (auto simp: image_iff)
      then show ?thesis by simp
    next
      case False
      with Cons show ?thesis by simp
    qed
  qed simp
  moreover have "(\<exists>r\<in>set t. p r) \<longleftrightarrow> length (filter p t) \<noteq> 0"
    by (simp add: filter_empty_conv)
  ultimately show ?thesis unfolding changes_def by linarith
qed

end
