(* ===== verification/JsValue.thy ===== *)
theory JsValue
  imports Prelude Complex_Main
begin

text \<open>
  The JavaScript values the controller handles as \<open>unknown\<close>: parsed JSON, fact payloads, tool
  arguments and results, and \<open>undefined\<close> for an absent property. Numbers are exact rationals
  with the three special values (the rounding of doubles is not modelled); a string is the
  list of its code units, for the code units below 256; an object is the list of its own
  properties in insertion order.
\<close>

datatype jsnum = NaN | PosInf | NegInf | Fin rat

datatype js =
    Undefined | Null | Bool bool | Num jsnum | Str string
  | Arr "js list" | Obj "(string \<times> js) list"

section \<open>Reading values\<close>

definition get_prop :: "(string \<times> js) list \<Rightarrow> string \<Rightarrow> js" where
  "get_prop kvs k = (case map_of kvs k of None \<Rightarrow> Undefined | Some v \<Rightarrow> v)"

text \<open>Property access on an arbitrary value that the code has checked to be an object.\<close>

fun member :: "js \<Rightarrow> string \<Rightarrow> js" where
  "member (Obj kvs) k = get_prop kvs k"
| "member _ k = Undefined"

fun is_record :: "js \<Rightarrow> bool" where
  "is_record (Obj _) = True"
| "is_record _ = False"

fun is_array :: "js \<Rightarrow> bool" where
  "is_array (Arr _) = True"
| "is_array _ = False"

fun is_string :: "js \<Rightarrow> bool" where
  "is_string (Str _) = True"
| "is_string _ = False"

fun is_bool :: "js \<Rightarrow> bool" where
  "is_bool (Bool _) = True"
| "is_bool _ = False"

fun is_number :: "js \<Rightarrow> bool" where
  "is_number (Num _) = True"
| "is_number _ = False"

fun items :: "js \<Rightarrow> js list" where
  "items (Arr xs) = xs"
| "items _ = []"

fun string_of :: "js \<Rightarrow> string" where
  "string_of (Str s) = s"
| "string_of _ = []"

text \<open>\<open>Number.isFinite\<close> and \<open>Number.isSafeInteger\<close>.\<close>

fun is_finite_number :: "js \<Rightarrow> bool" where
  "is_finite_number (Num (Fin _)) = True"
| "is_finite_number _ = False"

definition is_integral :: "rat \<Rightarrow> bool" where
  "is_integral q \<longleftrightarrow> of_int \<lfloor>q\<rfloor> = q"

definition max_safe_integer :: rat where
  "max_safe_integer = 9007199254740991"

definition is_safe :: "rat \<Rightarrow> bool" where
  "is_safe q \<longleftrightarrow> is_integral q \<and> - max_safe_integer \<le> q \<and> q \<le> max_safe_integer"

fun is_safe_integer :: "js \<Rightarrow> bool" where
  "is_safe_integer (Num (Fin q)) = is_safe q"
| "is_safe_integer _ = False"

fun fin_of :: "js \<Rightarrow> rat" where
  "fin_of (Num (Fin q)) = q"
| "fin_of _ = 0"

text \<open>The truth value of a value in a condition.\<close>

fun truthy :: "js \<Rightarrow> bool" where
  "truthy Undefined = False"
| "truthy Null = False"
| "truthy (Bool b) = b"
| "truthy (Num n) = (n \<noteq> NaN \<and> n \<noteq> Fin 0)"
| "truthy (Str s) = (s \<noteq> [])"
| "truthy (Arr _) = True"
| "truthy (Obj _) = True"

definition nullish :: "js \<Rightarrow> bool" where
  "nullish v \<longleftrightarrow> v = Undefined \<or> v = Null"

section \<open>Equality and order\<close>

text \<open>
  \<open>===\<close>: NaN differs from itself; arrays and objects are compared by identity, and two values
  that come from different parses are never the same object.
\<close>

fun strict_eq :: "js \<Rightarrow> js \<Rightarrow> bool" where
  "strict_eq Undefined Undefined = True"
| "strict_eq Null Null = True"
| "strict_eq (Bool a) (Bool b) = (a = b)"
| "strict_eq (Num a) (Num b) = (a = b \<and> a \<noteq> NaN)"
| "strict_eq (Str a) (Str b) = (a = b)"
| "strict_eq _ _ = False"

text \<open>\<open>Array.prototype.includes\<close> compares with SameValueZero: as \<open>===\<close>, but NaN is found.\<close>

fun same_value_zero :: "js \<Rightarrow> js \<Rightarrow> bool" where
  "same_value_zero (Num a) (Num b) = (a = b)"
| "same_value_zero a b = strict_eq a b"

definition array_includes :: "js list \<Rightarrow> js \<Rightarrow> bool" where
  "array_includes xs v \<longleftrightarrow> list_ex (\<lambda>x. same_value_zero x v) xs"

fun num_lt :: "jsnum \<Rightarrow> jsnum \<Rightarrow> bool" where
  "num_lt (Fin a) (Fin b) = (a < b)"
| "num_lt NegInf (Fin _) = True"
| "num_lt NegInf PosInf = True"
| "num_lt (Fin _) PosInf = True"
| "num_lt _ _ = False"

definition num_le :: "jsnum \<Rightarrow> jsnum \<Rightarrow> bool" where
  "num_le a b \<longleftrightarrow> num_lt a b \<or> (a = b \<and> a \<noteq> NaN)"

subsection \<open>Numbers written as strings\<close>

text \<open>
  \<open>Number(s)\<close> of a string, which \<open><\<close> and its kin apply when a string meets a number: white
  space around the literal, the empty literal (0), the prefixes 0x, 0o and 0b, Infinity, and
  the decimal literals with fraction and exponent; anything else is NaN.
\<close>

definition js_space :: "char \<Rightarrow> bool" where
  "js_space c \<longleftrightarrow> of_char c \<in> {9, 10, 11, 12, 13, 32, 160 :: nat}"

definition js_trim :: "string \<Rightarrow> string" where
  "js_trim s = rev (dropWhile js_space (rev (dropWhile js_space s)))"

definition digit_value :: "char \<Rightarrow> nat option" where
  "digit_value c = (let n = of_char c :: nat in
     if 48 \<le> n \<and> n \<le> 57 then Some (n - 48)
     else if 97 \<le> n \<and> n \<le> 122 then Some (n - 87)
     else if 65 \<le> n \<and> n \<le> 90 then Some (n - 55) else None)"

fun digits_value :: "nat \<Rightarrow> nat \<Rightarrow> string \<Rightarrow> nat option" where
  "digits_value b acc [] = Some acc"
| "digits_value b acc (c # cs) =
     (case digit_value c of None \<Rightarrow> None
      | Some d \<Rightarrow> if d < b then digits_value b (acc * b + d) cs else None)"

definition is_digit :: "char \<Rightarrow> bool" where
  "is_digit c \<longleftrightarrow> (48 :: nat) \<le> of_char c \<and> of_char c \<le> (57 :: nat)"

definition dec_value :: "string \<Rightarrow> nat" where
  "dec_value ds = option_or (digits_value 10 0 ds) 0"

text \<open>The exponent part: empty, or e/E, an optional sign and at least one digit.\<close>

definition exponent_value :: "string \<Rightarrow> int option" where
  "exponent_value s = (case s of [] \<Rightarrow> Some 0
     | c # r \<Rightarrow> if c \<noteq> CHR ''e'' \<and> c \<noteq> CHR ''E'' then None
        else (let neg = (r \<noteq> [] \<and> hd r = CHR ''-'');
                  ds = (if r \<noteq> [] \<and> (hd r = CHR ''-'' \<or> hd r = CHR ''+'') then tl r else r)
              in if ds = [] \<or> \<not> list_all is_digit ds then None
                 else Some (if neg then - int (dec_value ds) else int (dec_value ds))))"

definition scale10 :: "rat \<Rightarrow> int \<Rightarrow> rat" where
  "scale10 q e = (if 0 \<le> e then q * 10 ^ nat e else q / 10 ^ nat (- e))"

definition unsigned_value :: "string \<Rightarrow> jsnum" where
  "unsigned_value s =
     (if s = ''Infinity'' then PosInf
      else let ip = takeWhile is_digit s; r = dropWhile is_digit s;
               dot = (r \<noteq> [] \<and> hd r = CHR ''.'');
               fp = (if dot then takeWhile is_digit (tl r) else []);
               r' = (if dot then dropWhile is_digit (tl r) else r)
           in if ip = [] \<and> fp = [] then NaN
              else (case exponent_value r' of None \<Rightarrow> NaN
                    | Some e \<Rightarrow> Fin (scale10 (of_nat (dec_value (ip @ fp))) (e - int (length fp)))))"

fun negate_num :: "jsnum \<Rightarrow> jsnum" where
  "negate_num (Fin q) = Fin (- q)"
| "negate_num PosInf = NegInf"
| "negate_num NegInf = PosInf"
| "negate_num NaN = NaN"

definition radix_value :: "nat \<Rightarrow> string \<Rightarrow> jsnum" where
  "radix_value b ds = (if ds = [] then NaN
     else case digits_value b 0 ds of None \<Rightarrow> NaN | Some n \<Rightarrow> Fin (of_nat n))"

definition number_of_string :: "string \<Rightarrow> jsnum" where
  "number_of_string s0 = (let s = js_trim s0 in
     if s = [] then Fin 0
     else if take 2 s \<in> {''0x'', ''0X''} then radix_value 16 (drop 2 s)
     else if take 2 s \<in> {''0o'', ''0O''} then radix_value 8 (drop 2 s)
     else if take 2 s \<in> {''0b'', ''0B''} then radix_value 2 (drop 2 s)
     else if hd s = CHR ''-'' then negate_num (unsigned_value (tl s))
     else if hd s = CHR ''+'' then unsigned_value (tl s)
     else unsigned_value s)"

text \<open>
  \<open>a < b\<close> and \<open>a <= b\<close> of two values that are numbers or strings: two strings compare by code
  units, otherwise both are read as numbers.
\<close>

fun as_number :: "js \<Rightarrow> jsnum" where
  "as_number (Num n) = n"
| "as_number (Str s) = number_of_string s"
| "as_number _ = NaN"

fun js_lt :: "js \<Rightarrow> js \<Rightarrow> bool" where
  "js_lt (Str a) (Str b) = (a < b)"
| "js_lt a b = num_lt (as_number a) (as_number b)"

fun js_le :: "js \<Rightarrow> js \<Rightarrow> bool" where
  "js_le (Str a) (Str b) = (a \<le> b)"
| "js_le a b = num_le (as_number a) (as_number b)"

section \<open>Strings\<close>

text \<open>\<open>s.startsWith(p)\<close>, \<open>s.includes(p)\<close> and \<open>Buffer.byteLength(s, "utf8")\<close>.\<close>

definition starts_with :: "string \<Rightarrow> string \<Rightarrow> bool" where
  "starts_with p s \<longleftrightarrow> take (length p) s = p"

fun includes_string :: "string \<Rightarrow> string \<Rightarrow> bool" where
  "includes_string p [] = (p = [])"
| "includes_string p (c # cs) = (starts_with p (c # cs) \<or> includes_string p cs)"

definition utf8_length :: "string \<Rightarrow> nat" where
  "utf8_length s = sum_list (map (\<lambda>c. if (of_char c :: nat) < 128 then 1 else 2) s)"

lemma includes_string_iff: "includes_string p s \<longleftrightarrow> (\<exists>u v. s = u @ p @ v)"
proof (induction s)
  case (Cons c cs)
  have "starts_with p (c # cs) \<longleftrightarrow> (\<exists>v. c # cs = p @ v)"
    unfolding starts_with_def by (metis append_eq_conv_conj append_take_drop_id)
  moreover have "(\<exists>u v. c # cs = u @ p @ v) \<longleftrightarrow>
      (\<exists>v. c # cs = p @ v) \<or> (\<exists>u v. cs = u @ p @ v)"
    by (metis append_Cons append_Nil list.exhaust list.inject)
  ultimately show ?case using Cons.IH by simp
qed simp

end
