(* ===== verification/Domain.thy ===== *)
theory Domain
  imports JsValue
begin

text \<open>
  The domain model: the types of \<open>src/domain/types.ts\<close>, the target validation of
  \<open>src/domain/validation.ts\<close> and the tool-run record of the store. A time is the ISO string
  the code stores; an optional property is an \<open>option\<close>.
\<close>

type_synonym time = string
type_synonym id = string

section \<open>Tasks\<close>

datatype task_mode = SCAN | REMEDIATE

datatype task_status =
    TS_CREATED | TS_RUNNING | TS_PAUSED | TS_WAITING_APPROVAL | TS_RECOVERING
  | TS_REPORTING | TS_COMPLETED | TS_FAILED | TS_ABORTED

datatype check_category =
    Webshell | Java_memory_shell | Backdoor_account | Linux_persistence | Linux_intrusion_triage

datatype scan_profile = QUICK | STANDARD | DEEP

datatype severity = CRITICAL | HIGH | MEDIUM | LOW | INFO

datatype tool_risk = Risk_LOCAL | Risk_READ | Risk_INTRUSIVE_READ | Risk_COLLECT | Risk_WRITE

record target_config =
  tg_host :: string
  tg_port :: rat
  tg_username :: string
  tg_hostFingerprint :: string
  tg_privateKeyPath :: string
  tg_knownHostsPath :: string

record task_interruption =
  ti_previousStatus :: task_status
  ti_detectedAt :: time
  ti_recoveryRequired :: bool

record task_context =
  tc_taskId :: id
  tc_request :: string
  tc_target :: target_config
  tc_mode :: task_mode
  tc_status :: task_status
  tc_modelProvider :: string
  tc_modelId :: string
  tc_promptVersion :: string
  tc_checks :: "check_category list"
  tc_profile :: "scan_profile option"
  tc_createdAt :: time
  tc_updatedAt :: time
  tc_archivedAt :: "time option"
  tc_turnCount :: nat
  tc_toolCallCount :: nat
  tc_protocolVersion :: "nat option"
  tc_activeEpochId :: "id option"
  tc_interruption :: "task_interruption option"

section \<open>Evidence, approvals, receipts, audit\<close>

record evidence =
  ev_evidenceId :: id
  ev_taskId :: id
  ev_host :: string
  ev_type :: string
  ev_source :: string
  ev_sha256 :: "string option"
  ev_collectedAt :: time
  ev_tool :: string
  ev_toolCallId :: "id option"
  ev_storagePath :: "string option"
  ev_metadata :: js

datatype approval_status = AP_PENDING | AP_APPROVED | AP_DENIED | AP_CONSUMED | AP_EXPIRED

record approval_ticket =
  ap_approvalId :: id
  ap_taskId :: id
  ap_epochId :: "id option"
  ap_targetFingerprint :: string
  ap_tool :: string
  ap_argsDigest :: string
  ap_actionId :: id
  ap_actionSummary :: string
  ap_status :: approval_status
  ap_createdAt :: time
  ap_decidedAt :: "time option"
  ap_consumedAt :: "time option"

datatype receipt_status = RC_STARTED | RC_SUCCEEDED | RC_FAILED | RC_UNKNOWN

record action_receipt =
  rc_actionId :: id
  rc_taskId :: id
  rc_epochId :: "id option"
  rc_tool :: string
  rc_targetFingerprint :: string
  rc_status :: receipt_status
  rc_result :: js
  rc_startedAt :: time
  rc_finishedAt :: "time option"

datatype audit_level = Debug | Info | Warn | Error_level

record audit_event =
  au_eventId :: id
  au_taskId :: "id option"
  au_event :: string
  au_level :: audit_level
  au_data :: js
  au_createdAt :: time

section \<open>Tool runs\<close>

datatype tool_run_status = TR_STARTED | TR_SUCCEEDED | TR_FAILED | TR_BLOCKED

record tool_run =
  tr_toolCallId :: id
  tr_taskId :: id
  tr_epochId :: "id option"
  tr_toolName :: string
  tr_risk :: string
  tr_replayPolicy :: string
  tr_args :: js
  tr_status :: tool_run_status
  tr_result :: js
  tr_error :: "string option"
  tr_startedAt :: time
  tr_finishedAt :: "time option"

section \<open>Target validation\<close>

definition is_alpha :: "char \<Rightarrow> bool" where
  "is_alpha c \<longleftrightarrow> (let n = of_char c :: nat in (65 \<le> n \<and> n \<le> 90) \<or> (97 \<le> n \<and> n \<le> 122))"

definition username_ok :: "string \<Rightarrow> bool" where
  "username_ok s \<longleftrightarrow> (case s of [] \<Rightarrow> False
     | c # r \<Rightarrow> (is_alpha c \<or> c = CHR ''_'') \<and> length r \<le> 31
         \<and> list_all (\<lambda>x. is_alpha x \<or> is_digit x \<or> x = CHR ''_'' \<or> x = CHR ''-'') r)"

definition host_ok :: "string \<Rightarrow> bool" where
  "host_ok s \<longleftrightarrow> 1 \<le> length s \<and> length s \<le> 253
     \<and> list_all (\<lambda>c. \<not> js_space c \<and> (of_char c :: nat) \<noteq> 0) s"

definition fingerprint_ok :: "string \<Rightarrow> bool" where
  "fingerprint_ok s \<longleftrightarrow> take 7 s = ''SHA256:'' \<and> 20 \<le> length (drop 7 s)
     \<and> list_all (\<lambda>c. is_alpha c \<or> is_digit c \<or> c = CHR ''+'' \<or> c = CHR ''/'') (drop 7 s)"

text \<open>\<open>path.isAbsolute\<close> on POSIX.\<close>

definition is_absolute :: "string \<Rightarrow> bool" where
  "is_absolute p \<longleftrightarrow> p \<noteq> [] \<and> hd p = CHR ''/''"

definition validateTargetConfig :: "target_config \<Rightarrow> err + unit" where
  "validateTargetConfig t =
     (if \<not> host_ok (tg_host t) then Inl Invalid_argument
      else if \<not> is_integral (tg_port t) \<or> tg_port t < 1 \<or> 65535 < tg_port t then Inl Invalid_argument
      else if \<not> username_ok (tg_username t) then Inl Invalid_argument
      else if \<not> fingerprint_ok (tg_hostFingerprint t) then Inl Invalid_argument
      else if \<not> is_absolute (tg_privateKeyPath t) \<or> \<not> is_absolute (tg_knownHostsPath t)
        then Inl Invalid_argument
      else Inr ())"

end
