(* ===== verification/Protocol.thy ===== *)
theory Protocol
  imports Domain
begin

text \<open>
  Tool Protocol v2: the types of \<open>src/protocol-v2/types.ts\<close>, the wire envelope check of
  \<open>src/protocol-v2/wire.ts\<close> and the page-completeness rule of
  \<open>src/protocol-v2/completeness.ts\<close>.
\<close>

section \<open>Types\<close>

definition PROTOCOL_VERSION :: nat where
  "PROTOCOL_VERSION = 2"

definition MANIFEST_VERSION :: string where
  "MANIFEST_VERSION = ''3.0.0''"

datatype namespace_name =
    NS_host | NS_process | NS_socket | NS_file | NS_account | NS_ssh_key | NS_delegation_rule
  | NS_ssh_trust_config | NS_cron_entry | NS_unit | NS_persistence | NS_module | NS_log_source
  | NS_log_event | NS_auth_event | NS_exec_event | NS_web_stack | NS_web_root | NS_jvm
  | NS_java_component | NS_class | NS_package | NS_task_ioc

datatype consistency = OBJECT_STABLE | CURSOR_BEST_EFFORT | POINT_IN_TIME | EXTERNAL_BASELINE
datatype fact_source_kind = SK_PRESET | SK_MODEL | SK_SYSTEM | SK_EXTERNAL
datatype sensitivity = PUBLIC | SENSITIVE | SECRET | EVIDENCE_ONLY
datatype model_exposure = VALUE | HASH_ONLY | PRESENCE_ONLY | DENY

datatype predicate_operator =
    Op_eq | Op_neq | Op_lt | Op_lte | Op_gt | Op_gte | Op_in | Op_contains | Op_starts_with | Op_exists

datatype predicate =
    P_and "predicate list"
  | P_or "predicate list"
  | P_not predicate
  | P_leaf predicate_operator string js

datatype coverage_gap_code =
    GAP_PERMISSION_DENIED | GAP_CAPABILITY_UNAVAILABLE | GAP_DEADLINE | GAP_NODE_LIMIT
  | GAP_BYTE_LIMIT | GAP_OUTPUT_LIMIT | GAP_SOURCE_CHANGED | GAP_FIELD_UNAVAILABLE
  | GAP_COLLECTOR_ERROR

record coverage_gap =
  cg_code :: coverage_gap_code
  cg_detail :: "string option"
  cg_field :: "string option"
  cg_resumable :: bool

datatype investigation_gap_code =
    GRANT_DENIED | GRANT_EXPIRED | BUDGET_DENIED | MODEL_DID_NOT_INVESTIGATE | QUEUE_CAPACITY

record investigation_gap =
  ig_gapId :: id
  ig_taskId :: id
  ig_epochId :: id
  ig_category :: "check_category option"
  ig_code :: investigation_gap_code
  ig_reasonCode :: string
  ig_createdAt :: time

datatype epoch_reason = INITIAL | RESCAN | RECOVERY_REOBSERVE
datatype epoch_status = EP_RUNNING | EP_COMPLETED | EP_PARTIAL | EP_ABORTED

record scan_epoch =
  ep_epochId :: id
  ep_taskId :: id
  ep_targetFingerprint :: string
  ep_protocolVersion :: nat
  ep_manifestVersion :: string
  ep_helperVersion :: string
  ep_controllerCommit :: "string option"
  ep_controllerTreeClean :: "bool option"
  ep_controllerCommitAtFinish :: "string option"
  ep_controllerTreeCleanAtFinish :: "bool option"
  ep_helperSha256 :: "string option"
  ep_reason :: epoch_reason
  ep_status :: epoch_status
  ep_startedAt :: time
  ep_finishedAt :: "time option"

datatype evidence_origin = TARGET_OBSERVATION | CONTROL_PLANE_INPUT | EXTERNAL_INTELLIGENCE

record fact_source =
  fs_kind :: fact_source_kind
  fs_evidenceOrigin :: "evidence_origin option"
  fs_presetRunId :: "string option"
  fs_presetId :: "string option"
  fs_presetVersion :: "string option"
  fs_stepId :: "string option"
  fs_externalProvider :: "string option"

record provenance =
  pv_targetFingerprint :: string
  pv_requestId :: string
  pv_wireDigest :: string
  pv_stableIdentityDigest :: string

datatype completeness = COMPLETE | PARTIAL

record unavailable_field =
  uf_field :: string
  uf_reasonCode :: string

record collector =
  co_name :: string
  co_version :: string

record fact_record =
  fr_factId :: id
  fr_factSeq :: nat
  fr_taskId :: id
  fr_epochId :: id
  fr_namespace :: namespace_name
  fr_subjectRef :: id
  fr_schemaVersion :: string
  fr_observedAt :: time
  fr_sourceRunId :: string
  fr_source :: fact_source
  fr_collector :: collector
  fr_consistency :: consistency
  fr_completeness :: completeness
  fr_gaps :: "coverage_gap list"
  fr_privatePayload :: "(string \<times> js) list"
  fr_modelPayload :: "(string \<times> js) list"
  fr_redactedFields :: "string list"
  fr_unavailableFields :: "unavailable_field list"
  fr_payloadDigest :: string
  fr_provenance :: provenance

record object_reference =
  or_ref :: id
  or_taskId :: id
  or_epochId :: id
  or_targetFingerprint :: string
  or_namespace :: namespace_name
  or_stableIdentityDigest :: string
  or_stableIdentity :: "(string \<times> js) list"
  or_createdAt :: time

record edge_record =
  eg_edgeId :: id
  eg_taskId :: id
  eg_epochId :: id
  eg_relation :: string
  eg_fromRef :: id
  eg_toRef :: id
  eg_sourceRunId :: string
  eg_observedAt :: time

record wire_observation =
  wo_namespace :: namespace_name
  wo_identity :: "(string \<times> js) list"
  wo_fields :: "(string \<times> js) list"
  wo_unavailableFields :: "unavailable_field list option"
  wo_observedAt :: time
  wo_consistency :: consistency

record wire_endpoint =
  we_namespace :: namespace_name
  we_identity :: "(string \<times> js) list"

record wire_edge =
  wg_relation :: string
  wg_from :: wire_endpoint
  wg_to :: wire_endpoint
  wg_observedAt :: time

section \<open>Costs\<close>

text \<open>
  The five cost dimensions. \<open>probeCalls\<close> is optional on the wire; every comparison and sum of
  the controller reads it as 0 when it is absent.
\<close>

record wire_cost =
  wc_remoteCalls :: rat
  wc_nodes :: rat
  wc_bytes :: rat
  wc_wallTimeMs :: rat
  wc_probeCalls :: "rat option"

datatype budget_key = K_remoteCalls | K_nodes | K_bytes | K_wallTimeMs | K_probeCalls

definition budgetKeys :: "budget_key list" where
  "budgetKeys = [K_remoteCalls, K_nodes, K_bytes, K_wallTimeMs, K_probeCalls]"

text \<open>\<open>cost[key] ?? 0\<close>.\<close>

fun cost_at :: "wire_cost \<Rightarrow> budget_key \<Rightarrow> rat" where
  "cost_at c K_remoteCalls = wc_remoteCalls c"
| "cost_at c K_nodes = wc_nodes c"
| "cost_at c K_bytes = wc_bytes c"
| "cost_at c K_wallTimeMs = wc_wallTimeMs c"
| "cost_at c K_probeCalls = option_or (wc_probeCalls c) 0"

lemma set_budgetKeys [simp]: "set budgetKeys = UNIV"
proof -
  have "k \<in> set budgetKeys" for k by (cases k) (simp_all add: budgetKeys_def)
  then show ?thesis by blast
qed

text \<open>The costs a reservation or a settlement may carry: none of them negative.\<close>

definition cost_nonneg :: "wire_cost \<Rightarrow> bool" where
  "cost_nonneg c \<longleftrightarrow> list_all (\<lambda>k. 0 \<le> cost_at c k) budgetKeys"

lemma cost_nonneg_iff: "cost_nonneg c \<longleftrightarrow> (\<forall>k. 0 \<le> cost_at c k)"
  by (simp add: cost_nonneg_def list_all_iff)

definition assertCostWithinReservation :: "wire_cost \<Rightarrow> wire_cost \<Rightarrow> err + unit" where
  "assertCostWithinReservation actual reserved =
     (if list_ex (\<lambda>k. cost_at reserved k < cost_at actual k) budgetKeys
      then Inl (Security_error INTERNAL_ERROR) else Inr ())"

section \<open>Coverage, assessments, grants\<close>

datatype coverage_status = CV_COMPLETE | CV_PARTIAL | CV_ERROR | CV_NOT_RUN
datatype applicability = APPLICABLE | NOT_APPLICABLE | UNKNOWN

record coverage_run =
  cr_coverageId :: id
  cr_taskId :: id
  cr_epochId :: id
  cr_category :: check_category
  cr_presetId :: string
  cr_presetVersion :: string
  cr_status :: coverage_status
  cr_applicability :: applicability
  cr_completedCriteria :: "string list"
  cr_missingCriteria :: "(string \<times> string \<times> string option) list"
  cr_createdAt :: time

datatype assessment_verdict =
    CONFIRMED_MALICIOUS | HIGHLY_SUSPICIOUS | SUSPICIOUS | BENIGN | NO_OBSERVED_FINDING | INCONCLUSIVE

datatype author_type = AU_RULE | AU_MODEL | AU_HUMAN | AU_SYSTEM
datatype assessment_scope = SC_SUBJECT | SC_OBSERVED_CATEGORY

record assessment =
  as_assessmentId :: id
  as_taskId :: id
  as_epochId :: id
  as_authorType :: author_type
  as_category :: check_category
  as_subjectRef :: "id option"
  as_scope :: assessment_scope
  as_verdict :: assessment_verdict
  as_severity :: severity
  as_confidence :: jsnum
  as_rationale :: string
  as_evidenceRefs :: "id list"
  as_factRefs :: "id list"
  as_queryRefs :: "id list"
  as_createdAt :: time

datatype relation_kind = SUPPORTS | CONTRADICTS | ADJUDICATES | SUPERSEDES

record assessment_relation =
  ar_relationId :: id
  ar_taskId :: id
  ar_epochId :: id
  ar_kind :: relation_kind
  ar_fromAssessmentId :: id
  ar_toAssessmentId :: id
  ar_createdAt :: time

datatype grant_kind = GK_CATEGORY | GK_SCOPE | GK_SENSITIVE_READ | GK_PROBE | GK_BUDGET_EXTENSION
datatype grant_status = GS_ACTIVE | GS_REVOKED | GS_EXPIRED

record task_grant =
  gr_grantId :: id
  gr_taskId :: id
  gr_targetFingerprint :: string
  gr_kind :: grant_kind
  gr_status :: grant_status
  gr_binding :: "(string \<times> js) list"
  gr_createdAt :: time
  gr_expiresAt :: "time option"
  gr_revokedAt :: "time option"
  gr_revocationReason :: "string option"

datatype request_status = GQ_PENDING | GQ_APPROVED | GQ_DENIED | GQ_CANCELLED | GQ_EXPIRED

record grant_request =
  gq_requestId :: id
  gq_taskId :: id
  gq_targetFingerprint :: string
  gq_kind :: grant_kind
  gq_status :: request_status
  gq_bindingDigest :: string
  gq_binding :: "(string \<times> js) list"
  gq_createdAt :: time
  gq_decidedAt :: "time option"

datatype query_view = V_facts | V_edges | V_evidence_meta | V_assessments | V_coverage

record query_snapshot =
  qs_queryRef :: id
  qs_taskId :: id
  qs_epochId :: id
  qs_view :: query_view
  qs_astDigest :: string
  qs_maxFactSeq :: nat
  qs_rowCount :: nat
  qs_rowRefs :: "id list"
  qs_createdAt :: time

section \<open>The wire envelope\<close>

definition error_codes :: "string list" where
  "error_codes = [''INVALID_ARGUMENT'', ''PERMISSION_DENIED'', ''UNSUPPORTED_CAPABILITY'',
     ''STALE_REF'', ''EPOCH_MISMATCH'', ''SOURCE_CHANGED'', ''BUDGET_EXHAUSTED'',
     ''DEADLINE_EXCEEDED'', ''OUTPUT_LIMIT_EXCEEDED'', ''EVIDENCE_COLLECTION_FAILED'',
     ''PROBE_FAILED'', ''TARGET_UNAVAILABLE'', ''INTERNAL_ERROR'']"

definition COVERAGE_GAP_CODES :: "string list" where
  "COVERAGE_GAP_CODES = [''PERMISSION_DENIED'', ''CAPABILITY_UNAVAILABLE'', ''DEADLINE'',
     ''NODE_LIMIT'', ''BYTE_LIMIT'', ''OUTPUT_LIMIT'', ''SOURCE_CHANGED'', ''FIELD_UNAVAILABLE'',
     ''COLLECTOR_ERROR'']"

text \<open>
  \<open>Number.isFinite(v) && Number(v) >= 0\<close> for the four mandatory dimensions; \<open>probeCalls\<close> is
  not looked at.
\<close>

definition isCost :: "js \<Rightarrow> bool" where
  "isCost v \<longleftrightarrow> is_record v \<and>
     list_all (\<lambda>k. is_finite_number (member v k) \<and> 0 \<le> fin_of (member v k))
       [''remoteCalls'', ''nodes'', ''bytes'', ''wallTimeMs'']"

definition gap_ok :: "js \<Rightarrow> bool" where
  "gap_ok g \<longleftrightarrow> is_record g \<and> is_string (member g ''code'')
     \<and> string_of (member g ''code'') \<in> set COVERAGE_GAP_CODES \<and> is_bool (member g ''resumable'')"

definition scan_ok :: "js \<Rightarrow> bool" where
  "scan_ok v \<longleftrightarrow> (let scan = member v ''scan'' in
     scan = Undefined \<or>
     (is_record scan \<and> is_string (member scan ''sourceGeneration'')
      \<and> list_all (\<lambda>k. is_safe_integer (member scan k) \<and> 0 \<le> fin_of (member scan k))
          [''scannedCount'', ''matchedCount'', ''returnedCount'', ''nextOffset'']
      \<and> (member scan ''upperBound'' = Undefined
         \<or> (is_safe_integer (member scan ''upperBound'')
            \<and> fin_of (member scan ''nextOffset'') \<le> fin_of (member scan ''upperBound'')))
      \<and> is_bool (member scan ''complete'')
      \<and> fin_of (member scan ''returnedCount'') = of_nat (length (items (member v ''objects'')))
      \<and> member scan ''complete'' = Bool (member v ''cursor'' = Undefined)))"

text \<open>
  \<open>parse\<close> is \<open>JSON.parse\<close> on the raw text, \<open>None\<close> when it throws. The result is the parsed
  envelope itself, as in the code.
\<close>

definition parseWireResponse :: "(string \<Rightarrow> js option) \<Rightarrow> string \<Rightarrow> string \<Rightarrow> err + js" where
  "parseWireResponse parse raw expectedRequestId = (
     let bad = Inl (Security_error UNSUPPORTED_ENVIRONMENT) in
     case parse raw of None \<Rightarrow> bad
     | Some v \<Rightarrow>
       if \<not> is_record v \<or> member v ''protocolVersion'' \<noteq> Num (Fin (of_nat PROTOCOL_VERSION))
          \<or> member v ''requestId'' \<noteq> Str expectedRequestId then bad
       else if \<not> isCost (member v ''cost'') then bad
       else if member v ''status'' = Str ''ERROR'' then
         (let e = member v ''error'' in
          if \<not> is_record e \<or> \<not> is_string (member e ''code'')
             \<or> string_of (member e ''code'') \<notin> set error_codes then bad else Inr v)
       else if member v ''status'' \<noteq> Str ''SUCCESS'' \<and> member v ''status'' \<noteq> Str ''PARTIAL'' then bad
       else if \<not> is_array (member v ''objects'') \<or> \<not> is_array (member v ''edges'')
          \<or> \<not> is_array (member v ''gaps'') then bad
       else if \<not> list_all gap_ok (items (member v ''gaps'')) then bad
       else if \<not> scan_ok v then bad
       else if member v ''status'' = Str ''PARTIAL'' \<and> items (member v ''gaps'') = [] then bad
       else Inr v)"

section \<open>Page completeness\<close>

definition resumable_page_gap :: "js \<Rightarrow> bool" where
  "resumable_page_gap g \<longleftrightarrow>
     (is_record g \<and> member g ''code'' = Str ''NODE_LIMIT'' \<and> member g ''resumable'' = Bool True)"

text \<open>
  A page that stopped at its node limit and can be resumed from its cursor is complete as a
  page; any other partial page is a coverage gap.
\<close>

definition isIncompleteRemotePage :: "js \<Rightarrow> bool" where
  "isIncompleteRemotePage details =
     (if member details ''status'' \<noteq> Str ''partial'' then False
      else (let gaps = items (member details ''gaps'') in
        \<not> (is_string (member details ''cursorRef'') \<and> 0 < length gaps
           \<and> list_all resumable_page_gap gaps)))"

section \<open>Lemmas\<close>

lemma assertCostWithinReservation_Inr:
  "assertCostWithinReservation a r = Inr u \<longleftrightarrow> (\<forall>k. cost_at a k \<le> cost_at r k)"
  by (simp add: assertCostWithinReservation_def list_ex_iff) (meson not_less)

end
