(* ===== verification/InvestigationTypes.thy ===== *)
theory InvestigationTypes
  imports Protocol
begin

text \<open>
  The investigation state of \<open>src/investigation/types.ts\<close>: sessions, entity versions, relation
  provenance, leads, hypotheses, obligations, actions with their attempts, the event log,
  discovery checkpoints and completion snapshots.
\<close>

datatype execution_status = STARTING | EX_RUNNING | EX_PAUSED | CANCELLING | STOPPED | EX_FAILED

datatype investigation_status =
    IS_OPEN | IS_LIMITED | CLOSED_WITH_FINDINGS | CLOSED_NO_OBSERVED_FINDING | IS_CANCELLED

record authorization_envelope =
  ae_version :: string
  ae_targetFingerprint :: string
  ae_namespaces :: "namespace_name list"
  ae_scopeRefs :: "id list"
  ae_derivedRelations :: "string list"
  ae_sensitiveRead :: bool
  ae_collectEvidence :: bool
  ae_probes :: "string list"
  ae_expiresAt :: "time option"
  ae_budget :: wire_cost

record investigation_session =
  ss_sessionId :: id
  ss_taskId :: id
  ss_epochId :: id
  ss_engineVersion :: string
  ss_playbookRegistryDigest :: string
  ss_ruleRegistryDigest :: string
  ss_authorizationVersion :: string
  ss_authorizationEnvelope :: "authorization_envelope option"
  ss_executionStatus :: execution_status
  ss_investigationStatus :: investigation_status
  ss_revision :: nat
  ss_completionSnapshotRef :: "id option"
  ss_createdAt :: time
  ss_updatedAt :: time

record entity_version =
  vn_versionRef :: id
  vn_entityRef :: id
  vn_taskId :: id
  vn_epochId :: id
  vn_namespace :: namespace_name
  vn_identityDigest :: string
  vn_contentDigest :: "string option"
  vn_sourceFactRef :: id
  vn_validFrom :: time
  vn_validTo :: "time option"
  vn_assertions :: "(string \<times> string) list"

datatype relation_derivation = OBSERVED | DERIVED | INFERRED

record relation_provenance =
  rv_edgeRef :: id
  rv_taskId :: id
  rv_epochId :: id
  rv_fromVersionRef :: "id option"
  rv_toVersionRef :: "id option"
  rv_derivation :: relation_derivation
  rv_sourceRefs :: "id list"
  rv_resolverVersion :: string
  rv_timeErrorMs :: rat

datatype lead_status = LD_OPEN | LD_INVESTIGATING | LD_RESOLVED | LD_DISMISSED | LD_LIMITED

record investigation_lead =
  ld_leadId :: id
  ld_taskId :: id
  ld_epochId :: id
  ld_subjectRef :: id
  ld_triggerKind :: string
  ld_triggerVersion :: string
  ld_triggerFactRefs :: "id list"
  ld_observationRound :: string
  ld_priority :: int
  ld_status :: lead_status
  ld_createdAt :: time
  ld_updatedAt :: time

datatype hypothesis_status = HY_OPEN | HY_SUPPORTED | HY_REFUTED | HY_LIMITED | HY_SUPERSEDED
datatype proposer = DISCOVERY | PLAYBOOK | MODEL | ANALYST

record investigation_hypothesis =
  hy_hypothesisId :: id
  hy_taskId :: id
  hy_epochId :: id
  hy_subjectRef :: id
  hy_claim :: string
  hy_proposedBy :: proposer
  hy_supportRefs :: "id list"
  hy_counterEvidenceRefs :: "id list"
  hy_alternativeExplanations :: "string list"
  hy_status :: hypothesis_status
  hy_revision :: nat
  hy_createdAt :: time
  hy_updatedAt :: time

datatype obligation_status = OB_OPEN | OB_QUEUED | OB_SATISFIED | OB_LIMITED | OB_CANCELLED

record investigation_obligation =
  ob_obligationId :: id
  ob_taskId :: id
  ob_epochId :: id
  ob_hypothesisId :: "id option"
  ob_obligationKind :: string
  ob_dedupeKey :: string
  ob_subjectRefs :: "id list"
  ob_required :: bool
  ob_status :: obligation_status
  ob_resultRefs :: "id list"
  ob_gapRefs :: "string list"
  ob_createdAt :: time
  ob_updatedAt :: time

datatype action_kind = REMOTE_PRIMITIVE | LOCAL_QUERY | DERIVE | MODEL_REVIEW
datatype action_status =
    AC_READY | AC_RUNNING | AC_BLOCKED | AC_SUCCEEDED | AC_PARTIAL | AC_FAILED | AC_CANCELLED
datatype replay_policy = SAFE_REOBSERVE | RESUME_OR_RECOLLECT | NEVER

record investigation_action =
  ac_actionId :: id
  ac_taskId :: id
  ac_epochId :: id
  ac_kind :: action_kind
  ac_requestedBy :: proposer
  ac_obligationIds :: "id list"
  ac_subjectRefs :: "id list"
  ac_entityVersionRefs :: "id list"
  ac_operationRef :: string
  ac_replayPolicy :: replay_policy
  ac_args :: js
  ac_argsDigest :: string
  ac_dependsOn :: "id list"
  ac_authorizationVersion :: string
  ac_observationRound :: string
  ac_idempotencyKey :: string
  ac_priority :: int
  ac_status :: action_status
  ac_revision :: nat
  ac_workerId :: "string option"
  ac_resultRefs :: "id list option"
  ac_error :: "string option"
  ac_createdAt :: time
  ac_updatedAt :: time

datatype attempt_status = AT_RUNNING | AT_SUCCEEDED | AT_PARTIAL | AT_FAILED | AT_BLOCKED | AT_CANCELLED

record action_attempt =
  at_attemptId :: id
  at_actionId :: id
  at_taskId :: id
  at_epochId :: id
  at_attempt :: nat
  at_toolCallId :: "id option"
  at_status :: attempt_status
  at_error :: "string option"
  at_startedAt :: time
  at_finishedAt :: "time option"

text \<open>An event's type and payload; the payload is kept as the object the code writes.\<close>

record investigation_event =
  ie_eventSeq :: nat
  ie_eventId :: id
  ie_taskId :: id
  ie_epochId :: id
  ie_sourceBatchRef :: "id option"
  ie_eventType :: string
  ie_payload :: "(string \<times> js) list"
  ie_createdAt :: time

datatype checkpoint_status = CK_RUNNING | CK_COMPLETE | CK_LIMITED | CK_FAILED

record discovery_checkpoint =
  ck_checkpointId :: id
  ck_taskId :: id
  ck_epochId :: id
  ck_namespace :: namespace_name
  ck_requestDigest :: string
  ck_status :: checkpoint_status
  ck_sourceGeneration :: "string option"
  ck_cursorRef :: "id option"
  ck_scannedCount :: nat
  ck_matchedCount :: nat
  ck_returnedCount :: nat
  ck_remainingDescription :: "string option"
  ck_createdAt :: time
  ck_updatedAt :: time

record completion_snapshot =
  cs_snapshotRef :: id
  cs_taskId :: id
  cs_epochId :: id
  cs_investigationStatus :: investigation_status
  cs_maxEventSeq :: nat
  cs_openRequiredObligationIds :: "id list"
  cs_runningActionIds :: "id list"
  cs_limitedObligationIds :: "id list"
  cs_findingAssessmentIds :: "id list"
  cs_createdAt :: time

section \<open>Terminal and active states\<close>

fun action_active :: "action_status \<Rightarrow> bool" where
  "action_active AC_READY = True"
| "action_active AC_RUNNING = True"
| "action_active _ = False"

fun action_terminal :: "action_status \<Rightarrow> bool" where
  "action_terminal AC_READY = False"
| "action_terminal AC_RUNNING = False"
| "action_terminal _ = True"

lemma action_terminal_iff: "action_terminal st \<longleftrightarrow> \<not> action_active st"
  by (cases st) simp_all

text \<open>An attempt ends with the status of its action.\<close>

fun attempt_of_action :: "action_status \<Rightarrow> attempt_status" where
  "attempt_of_action AC_SUCCEEDED = AT_SUCCEEDED"
| "attempt_of_action AC_PARTIAL = AT_PARTIAL"
| "attempt_of_action AC_FAILED = AT_FAILED"
| "attempt_of_action AC_BLOCKED = AT_BLOCKED"
| "attempt_of_action AC_CANCELLED = AT_CANCELLED"
| "attempt_of_action _ = AT_RUNNING"

end
