(* ===== verification/Store.thy ===== *)
theory Store
  imports InvestigationTypes
begin

text \<open>
  The state of \<open>RuntimeStore\<close> (\<open>src/storage/runtime-store.ts\<close>): one field per SQLite table
  that the modelled operations touch, each the list of its rows in rowid order, and the two
  sources of non-determinism the operations read, \<open>crypto.randomUUID\<close> and the clock, as tapes.
\<close>

section \<open>Rows that are not a stored payload\<close>

datatype budget_owner = OWN_PRESET | OWN_MODEL | OWN_DISCOVERY

record budget_account =
  ba_taskId :: id
  ba_epochId :: id
  ba_owner :: budget_owner
  ba_limits :: wire_cost
  ba_used :: wire_cost
  ba_reserved :: wire_cost

datatype reservation_status = RESERVED | SETTLED

record budget_reservation =
  br_reservationId :: id
  br_taskId :: id
  br_epochId :: id
  br_owner :: budget_owner
  br_status :: reservation_status
  br_estimate :: wire_cost
  br_actual :: "wire_cost option"
  br_createdAt :: time
  br_settledAt :: "time option"

record usage_counter =
  uc_taskId :: id
  uc_epochId :: id
  uc_kind :: string
  uc_limit :: rat
  uc_used :: rat

record event_consumer =
  ec_consumer :: string
  ec_version :: string
  ec_taskId :: id
  ec_epochId :: id
  ec_lastEventSeq :: nat

text \<open>
  An obligation row keeps the columns its queries read beside the payload: an update rewrites
  the payload and the status but not \<open>dedupe_key\<close>, \<open>required\<close> and \<open>created_at\<close>.
\<close>

record obligation_row =
  ow_dedupeKey :: string
  ow_required :: bool
  ow_createdAt :: time
  ow_payload :: investigation_obligation

text \<open>The conversation of a task, the analyst's queued inputs, reports and imported hash sets.\<close>

record message_row =
  mg_messageId :: string
  mg_taskId :: id
  mg_epochId :: "id option"
  mg_seq :: nat
  mg_payload :: js
  mg_createdAt :: time

datatype input_status = QI_PENDING | QI_DELIVERED

record queued_input =
  qi_inputId :: id
  qi_taskId :: id
  qi_epochId :: "id option"
  qi_status :: input_status
  qi_payload :: js
  qi_createdAt :: time
  qi_deliveredAt :: "time option"

record report_record =
  rp_reportId :: id
  rp_taskId :: id
  rp_epochId :: "id option"
  rp_version :: nat
  rp_path :: string
  rp_sha256 :: string
  rp_generationMode :: string
  rp_validationErrors :: "string list"
  rp_createdAt :: time

record known_hash_data_set =
  kd_dataSetRef :: id
  kd_name :: string
  kd_version :: string
  kd_description :: "string option"
  kd_digest :: string
  kd_sha256 :: "string list"
  kd_importedAt :: time

text \<open>The committed batches of facts, and the cursors handed to the model.\<close>

record fact_batch =
  fb_batchId :: id
  fb_taskId :: id
  fb_epochId :: id
  fb_sourceRunId :: string
  fb_firstFactSeq :: "nat option"
  fb_lastFactSeq :: "nat option"
  fb_factCount :: nat
  fb_edgeCount :: nat
  fb_committedAt :: time

datatype cursor_position =
    After_seq nat
  | Remaining_seqs "nat list"
  | Remaining_keys query_view "id list"

record cursor_value =
  cv_taskId :: id
  cv_epochId :: id
  cv_astDigest :: string
  cv_position :: cursor_position
  cv_snapshotMaxFactSeq :: nat

record query_cursor =
  qc_cursorRef :: id
  qc_taskId :: id
  qc_epochId :: id
  qc_value :: cursor_value
  qc_createdAt :: time

record remote_cursor =
  rm_cursorRef :: id
  rm_taskId :: id
  rm_epochId :: id
  rm_namespace :: namespace_name
  rm_requestDigest :: string
  rm_helperCursor :: string
  rm_scopeIdentityDigest :: "string option"

section \<open>The store\<close>

record tapes =
  uuid_tape :: "nat \<Rightarrow> string"
  uuid_pos :: nat
  clock_tape :: "nat \<Rightarrow> time"
  clock_pos :: nat

record control_db = tapes +
  db_tasks :: "task_context list"
  db_epochs :: "scan_epoch list"
  db_approvals :: "approval_ticket list"
  db_receipts :: "action_receipt list"
  db_audit :: "audit_event list"
  db_tool_runs :: "tool_run list"
  db_evidence :: "evidence list"
  db_grants :: "task_grant list"
  db_grant_requests :: "grant_request list"
  db_accounts :: "budget_account list"
  db_reservations :: "budget_reservation list"
  db_counters :: "usage_counter list"
  db_messages :: "message_row list"
  db_inputs :: "queued_input list"
  db_reports :: "report_record list"
  db_datasets :: "known_hash_data_set list"

record fact_db = control_db +
  db_objects :: "object_reference list"
  db_facts :: "fact_record list"
  db_edges :: "edge_record list"
  db_coverage :: "coverage_run list"
  db_gaps :: "investigation_gap list"
  db_assessments :: "assessment list"
  db_assessment_relations :: "assessment_relation list"
  db_query_snapshots :: "query_snapshot list"
  db_batches :: "fact_batch list"
  db_query_cursors :: "query_cursor list"
  db_remote_cursors :: "remote_cursor list"

record db = fact_db +
  db_sessions :: "investigation_session list"
  db_versions :: "entity_version list"
  db_provenance :: "relation_provenance list"
  db_leads :: "investigation_lead list"
  db_hypotheses :: "investigation_hypothesis list"
  db_obligations :: "obligation_row list"
  db_actions :: "investigation_action list"
  db_attempts :: "action_attempt list"
  db_events :: "investigation_event list"
  db_event_seq :: nat
  db_consumers :: "event_consumer list"
  db_checkpoints :: "discovery_checkpoint list"
  db_snapshots :: "completion_snapshot list"

section \<open>Identifiers and times\<close>

definition next_uuid :: "('a tapes_scheme, string) act" where
  "next_uuid = (\<lambda>s. (Inr (uuid_tape s (uuid_pos s)), s\<lparr>uuid_pos := Suc (uuid_pos s)\<rparr>))"

definition now :: "('a tapes_scheme, time) act" where
  "now = (\<lambda>s. (Inr (clock_tape s (clock_pos s)), s\<lparr>clock_pos := Suc (clock_pos s)\<rparr>))"

definition create_id :: "string \<Rightarrow> ('a tapes_scheme, id) act" where
  "create_id prefix = bind_act next_uuid (\<lambda>u. return_act (prefix @ ''-'' @ u))"

section \<open>A new store\<close>

definition empty_control :: control_db where
  "empty_control = \<lparr>uuid_tape = (\<lambda>n. replicate n CHR ''x''), uuid_pos = 0,
     clock_tape = (\<lambda>n. replicate n CHR ''t''), clock_pos = 0, db_tasks = [], db_epochs = [],
     db_approvals = [], db_receipts = [], db_audit = [], db_tool_runs = [], db_evidence = [],
     db_grants = [], db_grant_requests = [], db_accounts = [], db_reservations = [], db_counters = [],
     db_messages = [], db_inputs = [], db_reports = [], db_datasets = []\<rparr>"

definition empty_facts :: fact_db where
  "empty_facts = control_db.extend empty_control \<lparr>db_objects = [], db_facts = [], db_edges = [],
     db_coverage = [], db_gaps = [], db_assessments = [], db_assessment_relations = [],
     db_query_snapshots = [], db_batches = [], db_query_cursors = [], db_remote_cursors = []\<rparr>"

definition empty_db :: db where
  "empty_db = fact_db.extend empty_facts \<lparr>db_sessions = [], db_versions = [], db_provenance = [],
     db_leads = [], db_hypotheses = [], db_obligations = [], db_actions = [], db_attempts = [],
     db_events = [], db_event_seq = 0, db_consumers = [], db_checkpoints = [], db_snapshots = []\<rparr>"

lemmas empty_defs = empty_control_def empty_facts_def empty_db_def
  control_db.extend_def fact_db.extend_def

end
