(* ===== verification/Budget.thy ===== *)
theory Budget
  imports Store
begin

text \<open>
  Budget accounts and usage counters of \<open>RuntimeStore\<close>: \<open>initializeBudget\<close>,
  \<open>getBudgetAccount\<close>, \<open>reserveBudget\<close>, \<open>settleBudget\<close>, \<open>initializeUsageCounter\<close>,
  \<open>remainingUsage\<close>, \<open>consumeUsage\<close> and \<open>refundUsage\<close>. The invariant ties every account to
  its reservations, so no sequence of operations overspends a limit.
\<close>

section \<open>Operations\<close>

definition addCost :: "wire_cost \<Rightarrow> wire_cost \<Rightarrow> wire_cost" where
  "addCost l r = \<lparr>wc_remoteCalls = wc_remoteCalls l + wc_remoteCalls r,
     wc_nodes = wc_nodes l + wc_nodes r, wc_bytes = wc_bytes l + wc_bytes r,
     wc_wallTimeMs = wc_wallTimeMs l + wc_wallTimeMs r,
     wc_probeCalls = Some (option_or (wc_probeCalls l) 0 + option_or (wc_probeCalls r) 0)\<rparr>"

definition subtractCost :: "wire_cost \<Rightarrow> wire_cost \<Rightarrow> wire_cost" where
  "subtractCost l r = \<lparr>wc_remoteCalls = max 0 (wc_remoteCalls l - wc_remoteCalls r),
     wc_nodes = max 0 (wc_nodes l - wc_nodes r), wc_bytes = max 0 (wc_bytes l - wc_bytes r),
     wc_wallTimeMs = max 0 (wc_wallTimeMs l - wc_wallTimeMs r),
     wc_probeCalls = Some (max 0 (option_or (wc_probeCalls l) 0 - option_or (wc_probeCalls r) 0))\<rparr>"

definition zero_cost :: wire_cost where
  "zero_cost = \<lparr>wc_remoteCalls = 0, wc_nodes = 0, wc_bytes = 0, wc_wallTimeMs = 0,
     wc_probeCalls = Some 0\<rparr>"

type_synonym account_key = "id \<times> id \<times> budget_owner"

definition account_key :: "budget_account \<Rightarrow> account_key" where
  "account_key a = (ba_taskId a, ba_epochId a, ba_owner a)"

definition reservation_key :: "budget_reservation \<Rightarrow> account_key" where
  "reservation_key r = (br_taskId r, br_epochId r, br_owner r)"

definition find_account :: "account_key \<Rightarrow> 'a control_db_scheme \<Rightarrow> budget_account option" where
  "find_account k s = List.find (\<lambda>a. account_key a = k) (db_accounts s)"

definition initializeBudget :: "account_key \<Rightarrow> wire_cost \<Rightarrow> ('a control_db_scheme, unit) act" where
  "initializeBudget k limits = write_act (\<lambda>s.
     if has_key account_key k (db_accounts s) then s
     else s\<lparr>db_accounts := db_accounts s @ [\<lparr>ba_taskId = fst k, ba_epochId = fst (snd k),
       ba_owner = snd (snd k), ba_limits = limits, ba_used = zero_cost, ba_reserved = zero_cost\<rparr>]\<rparr>)"

record budget_snapshot =
  bs_owner :: budget_owner
  bs_limits :: wire_cost
  bs_used :: wire_cost
  bs_reserved :: wire_cost
  bs_remaining :: wire_cost

definition getBudgetAccount :: "account_key \<Rightarrow> 'a control_db_scheme \<Rightarrow> budget_snapshot option" where
  "getBudgetAccount k s = (case find_account k s of None \<Rightarrow> None
     | Some a \<Rightarrow> Some \<lparr>bs_owner = snd (snd k), bs_limits = ba_limits a, bs_used = ba_used a,
         bs_reserved = ba_reserved a,
         bs_remaining = subtractCost (ba_limits a) (addCost (ba_used a) (ba_reserved a))\<rparr>)"

definition set_account ::
  "account_key \<Rightarrow> (budget_account \<Rightarrow> budget_account) \<Rightarrow> ('a control_db_scheme, unit) act" where
  "set_account k f = write_act (\<lambda>s.
     s\<lparr>db_accounts := update_rows (\<lambda>a. account_key a = k) f (db_accounts s)\<rparr>)"

definition exceeds_limit :: "budget_account \<Rightarrow> wire_cost \<Rightarrow> bool" where
  "exceeds_limit a e \<longleftrightarrow> list_ex (\<lambda>k. cost_at (ba_limits a) k
     < cost_at (ba_used a) k + cost_at (ba_reserved a) k + cost_at e k) budgetKeys"

definition insert_reservation :: "budget_reservation \<Rightarrow> ('a control_db_scheme, unit) act" where
  "insert_reservation r = bind_act (read_act db_reservations) (\<lambda>t.
     seq_act (require (\<not> has_key br_reservationId (br_reservationId r) t) Constraint_error)
       (write_act (\<lambda>s. s\<lparr>db_reservations := db_reservations s @ [r]\<rparr>)))"

definition reserveBudget ::
  "id \<Rightarrow> account_key \<Rightarrow> wire_cost \<Rightarrow> ('a control_db_scheme, unit) act" where
  "reserveBudget rid k estimate = transaction (
     bind_act (read_act (find_account k)) (\<lambda>row. case row of
       None \<Rightarrow> throw_act (Security_error BUDGET_EXCEEDED)
     | Some a \<Rightarrow>
         seq_act (require (\<not> exceeds_limit a estimate) (Security_error BUDGET_EXCEEDED))
        (seq_act (set_account k (\<lambda>a'. a'\<lparr>ba_reserved := addCost (ba_reserved a) estimate\<rparr>))
        (bind_act now (\<lambda>t. insert_reservation
           \<lparr>br_reservationId = rid, br_taskId = fst k, br_epochId = fst (snd k),
            br_owner = snd (snd k), br_status = RESERVED, br_estimate = estimate,
            br_actual = None, br_createdAt = t, br_settledAt = None\<rparr>)))))"

definition find_reservation :: "id \<Rightarrow> 'a control_db_scheme \<Rightarrow> budget_reservation option" where
  "find_reservation rid s = List.find (\<lambda>r. br_reservationId r = rid) (db_reservations s)"

definition settleBudget :: "id \<Rightarrow> wire_cost \<Rightarrow> ('a control_db_scheme, unit) act" where
  "settleBudget rid actual = transaction (
     bind_act (read_act (find_reservation rid)) (\<lambda>found. case found of
       None \<Rightarrow> throw_act Invalid_argument
     | Some r \<Rightarrow>
         seq_act (require (br_status r = RESERVED) Invalid_argument)
        (seq_act (require (list_all (\<lambda>key. cost_at actual key \<le> cost_at (br_estimate r) key) budgetKeys)
            (Security_error INTERNAL_ERROR))
        (bind_act (read_act (find_account (reservation_key r))) (\<lambda>row. case row of
          None \<Rightarrow> throw_act Type_error
        | Some a \<Rightarrow>
            seq_act (set_account (reservation_key r) (\<lambda>a'. a'\<lparr>
                ba_used := addCost (ba_used a) actual,
                ba_reserved := subtractCost (ba_reserved a) (br_estimate r)\<rparr>))
           (bind_act now (\<lambda>t. write_act (\<lambda>s. s\<lparr>db_reservations :=
              update_rows (\<lambda>x. br_reservationId x = rid)
                (\<lambda>x. x\<lparr>br_status := SETTLED, br_actual := Some actual, br_settledAt := Some t\<rparr>)
                (db_reservations s)\<rparr>))))))))"

section \<open>The invariant\<close>

text \<open>
  Per account and dimension: what is reserved is the sum of the open estimates, what is used
  is the sum of the settled actual costs, and the two together stay within the limit.
\<close>

definition open_total :: "account_key \<Rightarrow> budget_key \<Rightarrow> budget_reservation list \<Rightarrow> rat" where
  "open_total k d rs = sum_list (map (\<lambda>r. cost_at (br_estimate r) d)
     (filter (\<lambda>r. br_status r = RESERVED \<and> reservation_key r = k) rs))"

definition settled_total :: "account_key \<Rightarrow> budget_key \<Rightarrow> budget_reservation list \<Rightarrow> rat" where
  "settled_total k d rs = sum_list (map (\<lambda>r. case br_actual r of None \<Rightarrow> 0 | Some c \<Rightarrow> cost_at c d)
     (filter (\<lambda>r. br_status r = SETTLED \<and> reservation_key r = k) rs))"

definition account_ok :: "budget_reservation list \<Rightarrow> budget_account \<Rightarrow> bool" where
  "account_ok rs a \<longleftrightarrow> (\<forall>d.
     cost_at (ba_reserved a) d = open_total (account_key a) d rs
   \<and> cost_at (ba_used a) d = settled_total (account_key a) d rs
   \<and> cost_at (ba_used a) d + cost_at (ba_reserved a) d \<le> cost_at (ba_limits a) d)"

definition budget_inv :: "'a control_db_scheme \<Rightarrow> bool" where
  "budget_inv s \<longleftrightarrow> distinct (map account_key (db_accounts s))
     \<and> distinct (map br_reservationId (db_reservations s))
     \<and> (\<forall>r\<in>set (db_reservations s). cost_nonneg (br_estimate r)
          \<and> has_key account_key (reservation_key r) (db_accounts s))
     \<and> (\<forall>a\<in>set (db_accounts s). account_ok (db_reservations s) a)"

section \<open>Cost arithmetic\<close>

lemma cost_at_addCost [simp]: "cost_at (addCost l r) d = cost_at l d + cost_at r d"
  by (cases d) (simp_all add: addCost_def)

lemma cost_at_subtractCost [simp]:
  "cost_at (subtractCost l r) d = max 0 (cost_at l d - cost_at r d)"
  by (cases d) (simp_all add: subtractCost_def)

lemma cost_at_zero [simp]: "cost_at zero_cost d = 0"
  by (cases d) (simp_all add: zero_cost_def)

lemma exceeds_limit_iff: "\<not> exceeds_limit a e \<longleftrightarrow>
    (\<forall>d. cost_at (ba_used a) d + cost_at (ba_reserved a) d + cost_at e d \<le> cost_at (ba_limits a) d)"
  by (simp add: exceeds_limit_def list_ex_iff) (meson not_less)

lemma open_total_nonneg:
  "\<forall>r\<in>set rs. cost_nonneg (br_estimate r) \<Longrightarrow> 0 \<le> open_total k d rs"
  by (auto simp: open_total_def cost_nonneg_iff intro!: sum_list_nonneg)

lemma open_total_append: "open_total k d (rs @ rs') = open_total k d rs + open_total k d rs'"
  by (simp add: open_total_def)

lemma settled_total_append: "settled_total k d (rs @ rs') = settled_total k d rs + settled_total k d rs'"
  by (simp add: settled_total_def)


text \<open>Settling one reservation of a table with distinct ids moves its estimate out of the open total.\<close>

definition settle_rows :: "id \<Rightarrow> wire_cost \<Rightarrow> time \<Rightarrow> budget_reservation list \<Rightarrow> budget_reservation list" where
  "settle_rows rid actual t = update_rows (\<lambda>x. br_reservationId x = rid)
     (\<lambda>x. x\<lparr>br_status := SETTLED, br_actual := Some actual, br_settledAt := Some t\<rparr>)"

lemma settle_rows_Nil [simp]: "settle_rows rid actual t [] = []"
  by (simp add: settle_rows_def update_rows_def)

lemma settle_rows_Cons [simp]: "settle_rows rid actual t (x # xs) =
    (if br_reservationId x = rid
     then x\<lparr>br_status := SETTLED, br_actual := Some actual, br_settledAt := Some t\<rparr> else x)
    # settle_rows rid actual t xs"
  by (simp add: settle_rows_def update_rows_def)

lemma settle_rows_other: "\<forall>x\<in>set rs. br_reservationId x \<noteq> rid \<Longrightarrow> settle_rows rid actual t rs = rs"
  by (induction rs) simp_all

lemma reservation_key_settle [simp]:
  "reservation_key (x\<lparr>br_status := st, br_actual := v, br_settledAt := w\<rparr>) = reservation_key x"
  by (simp add: reservation_key_def)

lemma settle_rows_keys [simp]:
  "map br_reservationId (settle_rows rid actual t rs) = map br_reservationId rs"
  by (induction rs) simp_all

lemma settle_rows_set: "x \<in> set (settle_rows rid actual t rs) \<Longrightarrow>
    \<exists>y\<in>set rs. br_estimate x = br_estimate y \<and> reservation_key x = reservation_key y"
  by (induction rs) (auto split: if_splits)

lemma open_total_settle:
  assumes "distinct (map br_reservationId rs)" and "r \<in> set rs" and "br_status r = RESERVED"
  shows "open_total k d (settle_rows (br_reservationId r) actual t rs) =
    open_total k d rs - (if reservation_key r = k then cost_at (br_estimate r) d else 0)"
  using assms
proof (induction rs)
  case (Cons x xs)
  show ?case
  proof (cases "x = r")
    case True
    with Cons.prems have "\<forall>y\<in>set xs. br_reservationId y \<noteq> br_reservationId r"
      by (auto simp: image_iff)
    with True Cons.prems show ?thesis by (simp add: open_total_def settle_rows_other)
  next
    case False
    with Cons.prems have "br_reservationId x \<noteq> br_reservationId r" by (auto simp: image_iff)
    with False Cons show ?thesis by (simp add: open_total_def)
  qed
qed simp

lemma settled_total_settle:
  assumes "distinct (map br_reservationId rs)" and "r \<in> set rs" and "br_status r = RESERVED"
  shows "settled_total k d (settle_rows (br_reservationId r) actual t rs) =
    settled_total k d rs + (if reservation_key r = k then cost_at actual d else 0)"
  using assms
proof (induction rs)
  case (Cons x xs)
  show ?case
  proof (cases "x = r")
    case True
    with Cons.prems have "\<forall>y\<in>set xs. br_reservationId y \<noteq> br_reservationId r"
      by (auto simp: image_iff)
    with True Cons.prems show ?thesis by (simp add: settled_total_def settle_rows_other)
  next
    case False
    with Cons.prems have "br_reservationId x \<noteq> br_reservationId r" by (auto simp: image_iff)
    with False Cons show ?thesis by (simp add: settled_total_def)
  qed
qed simp

lemma open_total_member:
  assumes "\<forall>x\<in>set rs. cost_nonneg (br_estimate x)" and "r \<in> set rs" and "br_status r = RESERVED"
  shows "cost_at (br_estimate r) d \<le> open_total (reservation_key r) d rs"
  using assms
proof (induction rs)
  case (Cons x xs)
  have "0 \<le> open_total (reservation_key r) d xs"
    using Cons.prems by (intro open_total_nonneg) simp
  with Cons show ?case by (auto simp: open_total_def cost_nonneg_iff intro: add_increasing)
qed simp

section \<open>How the operations succeed\<close>

lemma find_account_SomeD: "find_account k s = Some a \<Longrightarrow> a \<in> set (db_accounts s) \<and> account_key a = k"
  by (auto simp: find_account_def dest: find_SomeD)

lemma find_reservation_SomeD:
  "find_reservation rid s = Some r \<Longrightarrow> r \<in> set (db_reservations s) \<and> br_reservationId r = rid"
  by (auto simp: find_reservation_def dest: find_SomeD)

lemma now_eq [simp]: "now s = (Inr (clock_tape s (clock_pos s)), s\<lparr>clock_pos := Suc (clock_pos s)\<rparr>)"
  by (simp add: now_def)

lemma reserveBudget_Inr:
  assumes "reserveBudget rid k e s = (Inr u, s')"
  obtains a t where "find_account k s = Some a" "\<not> exceeds_limit a e"
    "\<not> has_key br_reservationId rid (db_reservations s)"
    "db_accounts s' = update_rows (\<lambda>x. account_key x = k)
       (\<lambda>x. x\<lparr>ba_reserved := addCost (ba_reserved a) e\<rparr>) (db_accounts s)"
    "db_reservations s' = db_reservations s @ [\<lparr>br_reservationId = rid, br_taskId = fst k,
       br_epochId = fst (snd k), br_owner = snd (snd k), br_status = RESERVED, br_estimate = e,
       br_actual = None, br_createdAt = t, br_settledAt = None\<rparr>]"
  using assms
  by (auto simp: reserveBudget_def act_simps set_account_def insert_reservation_def split: option.splits)

lemma settleBudget_Inr:
  assumes "settleBudget rid c s = (Inr u, s')"
  obtains r a t where "find_reservation rid s = Some r" "br_status r = RESERVED"
    "\<forall>d. cost_at c d \<le> cost_at (br_estimate r) d"
    "find_account (reservation_key r) s = Some a"
    "db_accounts s' = update_rows (\<lambda>x. account_key x = reservation_key r)
       (\<lambda>x. x\<lparr>ba_used := addCost (ba_used a) c,
              ba_reserved := subtractCost (ba_reserved a) (br_estimate r)\<rparr>) (db_accounts s)"
    "db_reservations s' = settle_rows rid c t (db_reservations s)"
  using assms
  by (auto simp: settleBudget_def act_simps set_account_def settle_rows_def list_all_iff split: option.splits)

lemma account_okI:
  assumes "\<And>d. cost_at (ba_reserved a) d = open_total (account_key a) d rs"
    and "\<And>d. cost_at (ba_used a) d = settled_total (account_key a) d rs"
    and "\<And>d. cost_at (ba_used a) d + cost_at (ba_reserved a) d \<le> cost_at (ba_limits a) d"
  shows "account_ok rs a"
  using assms by (simp only: account_ok_def) blast

lemma account_okD:
  assumes "account_ok rs a"
  shows "cost_at (ba_reserved a) d = open_total (account_key a) d rs"
    and "cost_at (ba_used a) d = settled_total (account_key a) d rs"
    and "cost_at (ba_used a) d + cost_at (ba_reserved a) d \<le> cost_at (ba_limits a) d"
  using assms unfolding account_ok_def by blast+

text \<open>An account is as good after a change of the table that leaves its own totals.\<close>

lemma account_ok_cong:
  assumes "account_ok rs a"
    and "\<And>d. open_total (account_key a) d rs' = open_total (account_key a) d rs"
    and "\<And>d. settled_total (account_key a) d rs' = settled_total (account_key a) d rs"
  shows "account_ok rs' a"
  using account_okD [OF assms(1)] assms(2,3) by (intro account_okI) simp_all

lemma account_unique:
  assumes "distinct (map account_key t)" and "a \<in> set t" and "b \<in> set t"
    and "account_key a = account_key b"
  shows "a = b"
  using assms by (metis distinct_map inj_onD)

section \<open>Preservation\<close>

lemma initializeBudget_inv:
  assumes "budget_inv s" and "\<forall>d. 0 \<le> cost_at limits d"
  shows "budget_inv (snd (initializeBudget k limits s))"
proof (cases "has_key account_key k (db_accounts s)")
  case True
  with assms show ?thesis by (simp add: initializeBudget_def)
next
  case False
  from assms False have none: "\<forall>r\<in>set (db_reservations s). reservation_key r \<noteq> k"
    by (auto simp: budget_inv_def)
  have "open_total k d (db_reservations s) = 0" "settled_total k d (db_reservations s) = 0" for d
    using none by (simp_all add: open_total_def settled_total_def filter_False)
  then have new: "account_ok (db_reservations s) \<lparr>ba_taskId = fst k, ba_epochId = fst (snd k),
      ba_owner = snd (snd k), ba_limits = limits, ba_used = zero_cost, ba_reserved = zero_cost\<rparr>"
    using assms(2) by (intro account_okI) (simp_all add: account_key_def)
  have "map account_key (db_accounts (snd (initializeBudget k limits s))) =
      map account_key (db_accounts s) @ [k]"
    using False by (simp add: initializeBudget_def account_key_def)
  with assms(1) False new show ?thesis
    by (auto simp: initializeBudget_def budget_inv_def has_key_def)
qed

lemma reserveBudget_inv:
  assumes inv: "budget_inv s" and pos: "cost_nonneg e"
    and ok: "reserveBudget rid k e s = (Inr u, s')"
  shows "budget_inv s'"
proof -
  obtain a t where fa: "find_account k s = Some a" and lim: "\<not> exceeds_limit a e"
    and fresh: "\<not> has_key br_reservationId rid (db_reservations s)"
    and acc: "db_accounts s' = update_rows (\<lambda>x. account_key x = k)
       (\<lambda>x. x\<lparr>ba_reserved := addCost (ba_reserved a) e\<rparr>) (db_accounts s)"
    and res: "db_reservations s' = db_reservations s @ [\<lparr>br_reservationId = rid, br_taskId = fst k,
       br_epochId = fst (snd k), br_owner = snd (snd k), br_status = RESERVED, br_estimate = e,
       br_actual = None, br_createdAt = t, br_settledAt = None\<rparr>]"
    by (rule reserveBudget_Inr [OF ok])
  note a = find_account_SomeD [OF fa]
  have keys: "map account_key (db_accounts s') = map account_key (db_accounts s)"
    unfolding acc by (rule update_rows_keys) (simp add: account_key_def)
  have "account_ok (db_reservations s') b'" if "b' \<in> set (db_accounts s')" for b'
  proof -
    from that acc obtain b where b: "b \<in> set (db_accounts s)"
      and b': "b' = (if account_key b = k then b\<lparr>ba_reserved := addCost (ba_reserved a) e\<rparr> else b)"
      by (auto simp: update_rows_set)
    have okb: "account_ok (db_reservations s) b" using inv b by (simp add: budget_inv_def)
    have same: "open_total q d (db_reservations s') = open_total q d (db_reservations s)
          + (if q = k then cost_at e d else 0)"
      "settled_total q d (db_reservations s') = settled_total q d (db_reservations s)" for q d
      by (auto simp: res open_total_def settled_total_def reservation_key_def)
    show ?thesis
    proof (cases "account_key b = k")
      case True
      with inv a b have ba: "b = a" by (auto simp: budget_inv_def intro: account_unique)
      have ak: "account_key (b\<lparr>ba_reserved := v\<rparr>) = k" for v
        using True by (simp add: account_key_def)
      show ?thesis
        using account_okD [OF okb] lim True b' ba ak
        by (intro account_okI) (simp_all add: same exceeds_limit_iff add.assoc)
    next
      case False
      with b' show ?thesis by (auto intro: account_ok_cong [OF okb] simp: same)
    qed
  qed
  moreover have "has_key account_key (reservation_key r) (db_accounts s')"
    if "r \<in> set (db_reservations s')" for r
  proof -
    have "reservation_key r \<in> set (map account_key (db_accounts s))"
      using that inv a by (auto simp: res budget_inv_def has_key_def reservation_key_def)
    then have "reservation_key r \<in> set (map account_key (db_accounts s'))" by (simp only: keys)
    then show ?thesis by (simp add: has_key_def)
  qed
  moreover have "distinct (map account_key (db_accounts s'))"
    using inv by (simp add: keys budget_inv_def)
  moreover have "distinct (map br_reservationId (db_reservations s'))"
    using inv fresh by (auto simp: res budget_inv_def has_key_def)
  moreover have "\<forall>r\<in>set (db_reservations s'). cost_nonneg (br_estimate r)"
    using inv pos by (auto simp: res budget_inv_def)
  ultimately show ?thesis by (simp add: budget_inv_def)
qed

lemma settleBudget_inv:
  assumes inv: "budget_inv s" and ok: "settleBudget rid c s = (Inr u, s')"
  shows "budget_inv s'"
proof -
  obtain r a t where fr: "find_reservation rid s = Some r" and open_r: "br_status r = RESERVED"
    and le: "\<forall>d. cost_at c d \<le> cost_at (br_estimate r) d"
    and fa: "find_account (reservation_key r) s = Some a"
    and acc: "db_accounts s' = update_rows (\<lambda>x. account_key x = reservation_key r)
       (\<lambda>x. x\<lparr>ba_used := addCost (ba_used a) c,
              ba_reserved := subtractCost (ba_reserved a) (br_estimate r)\<rparr>) (db_accounts s)"
    and res: "db_reservations s' = settle_rows rid c t (db_reservations s)"
    by (rule settleBudget_Inr [OF ok])
  note a = find_account_SomeD [OF fa] and r = find_reservation_SomeD [OF fr]
  from inv have dist: "distinct (map br_reservationId (db_reservations s))"
    and nn: "\<forall>x\<in>set (db_reservations s). cost_nonneg (br_estimate x)"
    by (simp_all add: budget_inv_def)
  have res': "db_reservations s' = settle_rows (br_reservationId r) c t (db_reservations s)"
    using r by (simp add: res)
  note tot = open_total_settle [OF dist _ open_r] settled_total_settle [OF dist _ open_r]
  have keys: "map account_key (db_accounts s') = map account_key (db_accounts s)"
    unfolding acc by (rule update_rows_keys) (simp add: account_key_def)
  have "account_ok (db_reservations s') b'" if "b' \<in> set (db_accounts s')" for b'
  proof -
    from that acc obtain b where b: "b \<in> set (db_accounts s)"
      and b': "b' = (if account_key b = reservation_key r then b\<lparr>ba_used := addCost (ba_used a) c,
              ba_reserved := subtractCost (ba_reserved a) (br_estimate r)\<rparr> else b)"
      by (auto simp: update_rows_set)
    have okb: "account_ok (db_reservations s) b" using inv b by (simp add: budget_inv_def)
    show ?thesis
    proof (cases "account_key b = reservation_key r")
      case True
      with inv a b have ba: "b = a" by (auto simp: budget_inv_def intro: account_unique)
      have m: "cost_at (br_estimate r) d \<le> cost_at (ba_reserved a) d" for d
        using open_total_member [OF nn _ open_r, of d] r okb ba True by (simp add: account_ok_def)
      have ak: "account_key b' = reservation_key r"
        using True b' by (simp add: account_key_def)
      have b'_eq: "b' = b\<lparr>ba_used := addCost (ba_used a) c,
          ba_reserved := subtractCost (ba_reserved a) (br_estimate r)\<rparr>"
        using True b' by simp
      from r have rin: "r \<in> set (db_reservations s)" ..
      have up: "cost_at (ba_used b) d + cost_at (ba_reserved b) d \<le> cost_at (ba_limits b) d"
        "cost_at c d \<le> cost_at (br_estimate r) d" for d
        using account_okD(3) [OF okb] le by simp_all
      show ?thesis
      proof (rule account_okI)
        fix d
        show "cost_at (ba_reserved b') d = open_total (account_key b') d (db_reservations s')"
          using account_okD(1) [OF okb, of d] m [of d] True ba
          unfolding ak res' tot(1) [OF rin] by (simp add: b'_eq)
        show "cost_at (ba_used b') d = settled_total (account_key b') d (db_reservations s')"
          using account_okD(2) [OF okb, of d] True ba
          unfolding ak res' tot(2) [OF rin] by (simp add: b'_eq)
        show "cost_at (ba_used b') d + cost_at (ba_reserved b') d \<le> cost_at (ba_limits b') d"
          using up [of d] m [of d] True ba by (simp add: b'_eq)
      qed
    next
      case False
      with b' r show ?thesis by (auto intro: account_ok_cong [OF okb] simp: res' tot)
    qed
  qed
  moreover have "has_key account_key (reservation_key x) (db_accounts s')"
    if x: "x \<in> set (db_reservations s')" for x
  proof -
    from settle_rows_set [OF x [unfolded res]] obtain y where "y \<in> set (db_reservations s)"
      and "reservation_key x = reservation_key y" by auto
    with inv have "reservation_key x \<in> set (map account_key (db_accounts s))"
      by (auto simp: budget_inv_def has_key_def)
    then have "reservation_key x \<in> set (map account_key (db_accounts s'))" by (simp only: keys)
    then show ?thesis by (simp add: has_key_def)
  qed
  moreover have "\<forall>x\<in>set (db_reservations s'). cost_nonneg (br_estimate x)"
    using nn settle_rows_set unfolding res by fastforce
  ultimately show ?thesis using inv by (simp add: budget_inv_def keys res dist)
qed

section \<open>Usage counters\<close>

type_synonym counter_key = "id \<times> id \<times> string"

definition counter_key :: "usage_counter \<Rightarrow> counter_key" where
  "counter_key c = (uc_taskId c, uc_epochId c, uc_kind c)"

definition find_counter :: "counter_key \<Rightarrow> 'a control_db_scheme \<Rightarrow> usage_counter option" where
  "find_counter k s = List.find (\<lambda>c. counter_key c = k) (db_counters s)"

definition initializeUsageCounter :: "counter_key \<Rightarrow> rat \<Rightarrow> ('a control_db_scheme, unit) act" where
  "initializeUsageCounter k limit =
     seq_act (require (is_safe limit \<and> 0 \<le> limit) Invalid_argument)
       (write_act (\<lambda>s. if has_key counter_key k (db_counters s) then s
          else s\<lparr>db_counters := db_counters s @ [\<lparr>uc_taskId = fst k, uc_epochId = fst (snd k),
            uc_kind = snd (snd k), uc_limit = limit, uc_used = 0\<rparr>]\<rparr>))"

definition remainingUsage :: "counter_key \<Rightarrow> 'a control_db_scheme \<Rightarrow> err + rat" where
  "remainingUsage k s = (case find_counter k s of
     None \<Rightarrow> Inl (Security_error BUDGET_EXCEEDED)
   | Some c \<Rightarrow> Inr (max 0 (uc_limit c - uc_used c)))"

text \<open>
  \<open>UPDATE ... SET used_value = ... WHERE ...\<close> and the check that exactly one row changed.
\<close>

definition update_counter ::
  "(usage_counter \<Rightarrow> bool) \<Rightarrow> (usage_counter \<Rightarrow> usage_counter) \<Rightarrow> err \<Rightarrow> ('a control_db_scheme, unit) act"
where
  "update_counter p f e = bind_act (read_act (\<lambda>s. changes p (db_counters s))) (\<lambda>n.
     seq_act (write_act (\<lambda>s. s\<lparr>db_counters := update_rows p f (db_counters s)\<rparr>))
       (require (n = 1) e))"

definition consumeUsage :: "counter_key \<Rightarrow> rat \<Rightarrow> ('a control_db_scheme, unit) act" where
  "consumeUsage k amount =
     seq_act (require (is_safe amount \<and> 0 \<le> amount) Invalid_argument)
       (update_counter (\<lambda>c. counter_key c = k \<and> uc_used c + amount \<le> uc_limit c)
          (\<lambda>c. c\<lparr>uc_used := uc_used c + amount\<rparr>) (Security_error BUDGET_EXCEEDED))"

definition refundUsage :: "counter_key \<Rightarrow> rat \<Rightarrow> ('a control_db_scheme, unit) act" where
  "refundUsage k amount =
     seq_act (require (is_safe amount \<and> 0 \<le> amount) Invalid_argument)
       (update_counter (\<lambda>c. counter_key c = k) (\<lambda>c. c\<lparr>uc_used := max 0 (uc_used c - amount)\<rparr>)
          (Security_error INTERNAL_ERROR))"

definition counters_inv :: "'a control_db_scheme \<Rightarrow> bool" where
  "counters_inv s \<longleftrightarrow> distinct (map counter_key (db_counters s))
     \<and> (\<forall>c\<in>set (db_counters s). 0 \<le> uc_used c \<and> uc_used c \<le> uc_limit c)"

lemma counter_key_used [simp]: "counter_key (c\<lparr>uc_used := v\<rparr>) = counter_key c"
  by (simp add: counter_key_def)

lemma update_counter_inv:
  assumes inv: "counters_inv s"
    and keep: "\<And>c. p c \<Longrightarrow> 0 \<le> uc_used c \<Longrightarrow> uc_used c \<le> uc_limit c \<Longrightarrow>
      counter_key (f c) = counter_key c \<and> 0 \<le> uc_used (f c) \<and> uc_used (f c) \<le> uc_limit (f c)"
  shows "counters_inv (snd (update_counter p f e s))"
proof -
  have "map counter_key (update_rows p f (db_counters s)) = map counter_key (db_counters s)"
    using inv keep by (auto simp: update_rows_def counters_inv_def)
  with inv keep show ?thesis
    by (auto simp: update_counter_def act_unfold counters_inv_def update_rows_set)
qed

lemma consumeUsage_inv: "counters_inv s \<Longrightarrow> counters_inv (snd (consumeUsage k amount s))"
  by (auto simp: consumeUsage_def seq_act_def bind_act_def require_def
      intro!: update_counter_inv split: prod.splits sum.splits)


lemma refundUsage_inv: "counters_inv s \<Longrightarrow> counters_inv (snd (refundUsage k amount s))"
  by (auto simp: refundUsage_def seq_act_def bind_act_def require_def
      intro!: update_counter_inv split: prod.splits sum.splits)

lemma initializeUsageCounter_inv:
  "counters_inv s \<Longrightarrow> counters_inv (snd (initializeUsageCounter k limit s))"
  by (auto simp: initializeUsageCounter_def act_unfold counters_inv_def counter_key_def has_key_def)

lemma find_counter_SomeD: "find_counter k s = Some c \<Longrightarrow> c \<in> set (db_counters s) \<and> counter_key c = k"
  by (auto simp: find_counter_def dest: find_SomeD)

lemma find_counter_update:
  assumes "\<And>c. counter_key (f c) = counter_key c"
  shows "List.find (\<lambda>c. counter_key c = k) (update_rows p f t) =
    map_option (\<lambda>c. if p c then f c else c) (List.find (\<lambda>c. counter_key c = k) t)"
  using assms by (induction t) (auto simp: update_rows_def)

lemma counter_changes:
  assumes inv: "counters_inv s" and fc: "find_counter k s = Some c"
    and p: "\<And>x. p x \<Longrightarrow> counter_key x = k"
  shows "changes p (db_counters s) = 1 \<longleftrightarrow> p c"
proof -
  have dist: "distinct (map counter_key (db_counters s))" using inv by (simp add: counters_inv_def)
  note c = find_counter_SomeD [OF fc]
  have "changes p (db_counters s) = 1 \<longleftrightarrow> (\<exists>r\<in>set (db_counters s). p r)"
    by (rule changes_one_iff [OF dist p])
  also have "\<dots> \<longleftrightarrow> p c"
  proof
    assume "\<exists>r\<in>set (db_counters s). p r"
    then obtain r where r: "r \<in> set (db_counters s)" "p r" by blast
    with p c dist have "r = c" by (metis distinct_map inj_onD)
    with r show "p c" by simp
  qed (use c in blast)
  finally show ?thesis .
qed

text \<open>Consumption either takes the whole amount or is refused and takes nothing.\<close>

lemma consumeUsage_result:
  assumes inv: "counters_inv s" and fc: "find_counter k s = Some c"
    and safe: "is_safe amount" "0 \<le> amount"
  shows "if uc_used c + amount \<le> uc_limit c
     then fst (consumeUsage k amount s) = Inr ()
       \<and> find_counter k (snd (consumeUsage k amount s)) = Some (c\<lparr>uc_used := uc_used c + amount\<rparr>)
     else fst (consumeUsage k amount s) = Inl (Security_error BUDGET_EXCEEDED)
       \<and> find_counter k (snd (consumeUsage k amount s)) = Some c"
proof -
  let ?p = "\<lambda>x. counter_key x = k \<and> uc_used x + amount \<le> uc_limit x"
  have n: "changes ?p (db_counters s) = 1 \<longleftrightarrow> ?p c"
    by (rule counter_changes [OF inv fc]) simp
  show ?thesis
    using n fc find_counter_SomeD [OF fc] safe
    by (auto simp: consumeUsage_def update_counter_def act_unfold find_counter_def find_counter_update)
qed

lemma refundUsage_result:
  assumes inv: "counters_inv s" and fc: "find_counter k s = Some c"
    and safe: "is_safe amount" "0 \<le> amount"
  shows "fst (refundUsage k amount s) = Inr ()
       \<and> find_counter k (snd (refundUsage k amount s)) = Some (c\<lparr>uc_used := max 0 (uc_used c - amount)\<rparr>)"
proof -
  have n: "changes (\<lambda>x. counter_key x = k) (db_counters s) = 1"
    using counter_changes [OF inv fc, of "\<lambda>x. counter_key x = k"] find_counter_SomeD [OF fc] by simp
  show ?thesis
    using n fc find_counter_SomeD [OF fc] safe
    by (auto simp: refundUsage_def update_counter_def act_unfold find_counter_def find_counter_update)
qed

subsection \<open>The meter interface\<close>

text \<open>
  What a caller of the counters relies on: a take of an amount that is left succeeds and
  lowers what is left by it, any other take is refused and changes nothing that is left.
\<close>

locale meter =
  fixes left_of :: "'s \<Rightarrow> rat"
    and take_from :: "rat \<Rightarrow> 's \<Rightarrow> (err + unit) \<times> 's"
    and unit_ok :: "rat \<Rightarrow> bool"
    and good :: "'s \<Rightarrow> bool"
  assumes good_take: "good s \<Longrightarrow> unit_ok a \<Longrightarrow> good (snd (take_from a s))"
    and take_ok: "good s \<Longrightarrow> unit_ok a \<Longrightarrow> a \<le> left_of s \<Longrightarrow>
      fst (take_from a s) = Inr () \<and> left_of (snd (take_from a s)) = left_of s - a"
    and take_refused: "good s \<Longrightarrow> unit_ok a \<Longrightarrow> left_of s < a \<Longrightarrow>
      (\<exists>e. fst (take_from a s) = Inl e) \<and> left_of (snd (take_from a s)) = left_of s"
    and left_nonneg: "good s \<Longrightarrow> 0 \<le> left_of s"
begin

text \<open>The amounts that a sequence of requests was granted.\<close>

fun granted :: "rat list \<Rightarrow> 's \<Rightarrow> rat" where
  "granted [] s = 0"
| "granted (a # as) s =
     (case take_from a s of (Inr _, s') \<Rightarrow> a + granted as s' | (Inl _, s') \<Rightarrow> granted as s')"

lemma granted_plus_left:
  "good s \<Longrightarrow> list_all unit_ok as \<Longrightarrow> granted as s + left_of (run_ops take_from as s) = left_of s"
proof (induction as arbitrary: s)
  case (Cons a as)
  then have good': "good (snd (take_from a s))" by (simp add: good_take)
  from Cons have IH: "granted as (snd (take_from a s)) +
      left_of (run_ops take_from as (snd (take_from a s))) = left_of (snd (take_from a s))"
    using good' by simp
  show ?case
  proof (cases "a \<le> left_of s")
    case True
    with Cons.prems take_ok [of s a] IH show ?thesis by (auto split: prod.splits sum.splits)
  next
    case False
    with Cons.prems take_refused [of s a] IH show ?thesis by (auto split: prod.splits sum.splits)
  qed
qed simp

lemma good_run: "good s \<Longrightarrow> list_all unit_ok as \<Longrightarrow> good (run_ops take_from as s)"
  by (induction as arbitrary: s) (simp_all add: good_take)

lemma granted_bound: "good s \<Longrightarrow> list_all unit_ok as \<Longrightarrow> granted as s \<le> left_of s"
  using granted_plus_left [of s as] left_nonneg [OF good_run, of s as] by linarith

end

definition usage_left :: "counter_key \<Rightarrow> 'a control_db_scheme \<Rightarrow> rat" where
  "usage_left k s = (case remainingUsage k s of Inl _ \<Rightarrow> 0 | Inr n \<Rightarrow> n)"

definition counter_good :: "counter_key \<Rightarrow> 'a control_db_scheme \<Rightarrow> bool" where
  "counter_good k s \<longleftrightarrow> counters_inv s \<and> (\<exists>c. find_counter k s = Some c)"

lemma usage_left_eq: "counters_inv s \<Longrightarrow> find_counter k s = Some c \<Longrightarrow> usage_left k s = uc_limit c - uc_used c"
  using find_counter_SomeD [of k s c]
  by (auto simp: usage_left_def remainingUsage_def counters_inv_def max_def)

interpretation usage: meter "usage_left k" "consumeUsage k"
    "\<lambda>a. is_safe a \<and> 0 \<le> a" "counter_good k" for k
proof
  fix s :: "'a control_db_scheme" and a :: rat
  assume good: "counter_good k s"
  then obtain c where inv: "counters_inv s" and fc: "find_counter k s = Some c"
    by (auto simp: counter_good_def)
  note inv' = consumeUsage_inv [OF inv, of k a]
  show "0 \<le> usage_left k s"
    using inv find_counter_SomeD [OF fc] by (simp add: usage_left_eq [OF inv fc] counters_inv_def)
  assume a: "is_safe a \<and> 0 \<le> a"
  note res = consumeUsage_result [OF inv fc, of a]
  show "counter_good k (snd (consumeUsage k a s))"
    using res a inv' by (auto simp: counter_good_def split: if_splits)
  show "fst (consumeUsage k a s) = Inr () \<and>
      usage_left k (snd (consumeUsage k a s)) = usage_left k s - a" if "a \<le> usage_left k s"
    using res a that inv' by (auto simp: usage_left_eq [OF inv fc] usage_left_eq [OF inv'] split: if_splits)
  show "(\<exists>e. fst (consumeUsage k a s) = Inl e) \<and>
      usage_left k (snd (consumeUsage k a s)) = usage_left k s" if "usage_left k s < a"
    using res a that inv' by (auto simp: usage_left_eq [OF inv fc] usage_left_eq [OF inv'] split: if_splits)
qed

section \<open>Runs of the budget operations\<close>

datatype budget_op =
    InitBudget account_key wire_cost
  | Reserve id account_key wire_cost
  | Settle id wire_cost
  | InitCounter counter_key rat
  | Consume counter_key rat
  | Refund counter_key rat

fun budget_exec :: "budget_op \<Rightarrow> ('a control_db_scheme, unit) act" where
  "budget_exec (InitBudget k l) = initializeBudget k l"
| "budget_exec (Reserve rid k e) = reserveBudget rid k e"
| "budget_exec (Settle rid c) = settleBudget rid c"
| "budget_exec (InitCounter k l) = initializeUsageCounter k l"
| "budget_exec (Consume k a) = consumeUsage k a"
| "budget_exec (Refund k a) = refundUsage k a"

text \<open>The configured limits and the estimates are not negative; an actual cost may be anything.\<close>

fun budget_op_ok :: "budget_op \<Rightarrow> bool" where
  "budget_op_ok (InitBudget k l) = cost_nonneg l"
| "budget_op_ok (Reserve rid k e) = cost_nonneg e"
| "budget_op_ok _ = True"

definition metering_inv :: "'a control_db_scheme \<Rightarrow> bool" where
  "metering_inv s \<longleftrightarrow> budget_inv s \<and> counters_inv s"

lemma counters_inv_cong: "db_counters s' = db_counters s \<Longrightarrow> counters_inv s' = counters_inv s"
  by (simp add: counters_inv_def)

lemma budget_inv_cong:
  "db_accounts s' = db_accounts s \<Longrightarrow> db_reservations s' = db_reservations s \<Longrightarrow> budget_inv s' = budget_inv s"
  by (simp add: budget_inv_def)

lemma counters_untouched:
  "db_counters (snd (initializeBudget k l s)) = db_counters s"
  "db_counters (snd (reserveBudget rid k e s)) = db_counters s"
  "db_counters (snd (settleBudget rid c s)) = db_counters s"
  by (auto simp: initializeBudget_def reserveBudget_def settleBudget_def insert_reservation_def
      set_account_def act_unfold split: option.splits prod.splits sum.splits)

lemma accounts_untouched:
  "db_accounts (snd (update_counter p f er s)) = db_accounts s"
  "db_reservations (snd (update_counter p f er s)) = db_reservations s"
  by (simp_all add: update_counter_def act_unfold)

lemma reserveBudget_atomic [simp]: "atomic (reserveBudget rid k e)"
  by (simp add: reserveBudget_def)

lemma settleBudget_atomic [simp]: "atomic (settleBudget rid c)"
  by (simp add: settleBudget_def)

lemma reserveBudget_keeps:
  "budget_inv s \<Longrightarrow> cost_nonneg e \<Longrightarrow> budget_inv (snd (reserveBudget rid k e s))"
  by (rule atomic_keeps) (auto intro: reserveBudget_inv)

lemma settleBudget_keeps: "budget_inv s \<Longrightarrow> budget_inv (snd (settleBudget rid c s))"
  by (rule atomic_keeps) (auto intro: settleBudget_inv)

lemma accounts_untouched_by_counters:
  "budget_inv (snd (initializeUsageCounter k l s)) = budget_inv s"
  "budget_inv (snd (consumeUsage k a s)) = budget_inv s"
  "budget_inv (snd (refundUsage k a s)) = budget_inv s"
  by (simp_all add: budget_inv_def initializeUsageCounter_def consumeUsage_def refundUsage_def
      seq_act_def bind_act_def require_def accounts_untouched split: prod.splits sum.splits)

interpretation budgets: invariant_system budget_exec budget_op_ok metering_inv
proof
  fix q and s :: "'a control_db_scheme"
  assume "budget_op_ok q" and "metering_inv s"
  then show "metering_inv (snd (budget_exec q s))"
    by (cases q)
      (simp_all add: metering_inv_def cost_nonneg_iff initializeBudget_inv reserveBudget_keeps
        settleBudget_keeps accounts_untouched_by_counters consumeUsage_inv refundUsage_inv
        initializeUsageCounter_inv counters_inv_cong [OF counters_untouched(1)]
        counters_inv_cong [OF counters_untouched(2)] counters_inv_cong [OF counters_untouched(3)])
qed


lemma find_account_initialized:
  assumes "find_account k s = Some a"
  shows "getBudgetAccount k s = Some \<lparr>bs_owner = snd (snd k), bs_limits = ba_limits a,
     bs_used = ba_used a, bs_reserved = ba_reserved a,
     bs_remaining = subtractCost (ba_limits a) (addCost (ba_used a) (ba_reserved a))\<rparr>"
  using assms by (simp add: getBudgetAccount_def)

lemma metering_empty:
  "db_accounts s = [] \<Longrightarrow> db_reservations s = [] \<Longrightarrow> db_counters s = [] \<Longrightarrow> metering_inv s"
  by (simp add: metering_inv_def budget_inv_def counters_inv_def)

text \<open>
  C1. Whatever sequence of budget requests runs from a store whose accounts agree with their
  reservations, such as a new one (accounts opened, costs reserved and settled in any order,
  refused requests included), every account
  reports a usage that is exactly the sum of the settled actual costs, reserved costs that are
  exactly the sum of the open estimates, together within the limit in each of the five
  dimensions, and a remainder that is the rest of the limit.
\<close>

theorem budget_never_overspent:
  assumes "list_all budget_op_ok qs" and "metering_inv s0"
    and "s = run_ops budget_exec qs s0" and "getBudgetAccount k s = Some b"
  shows "cost_at (bs_used b) d = settled_total k d (db_reservations s)
    \<and> cost_at (bs_reserved b) d = open_total k d (db_reservations s)
    \<and> cost_at (bs_used b) d + cost_at (bs_reserved b) d \<le> cost_at (bs_limits b) d
    \<and> cost_at (bs_remaining b) d = cost_at (bs_limits b) d - cost_at (bs_used b) d - cost_at (bs_reserved b) d"
proof -
  have inv: "budget_inv s" using budgets.run_keeps [OF assms(1,2)] assms(3) by (simp add: metering_inv_def)
  from assms(4) obtain a where fa: "find_account k s = Some a"
    by (auto simp: getBudgetAccount_def split: option.splits)
  with inv have "account_ok (db_reservations s) a" and "account_key a = k"
    by (auto simp: budget_inv_def dest: find_account_SomeD)
  from account_okD [OF this(1), of d] this(2) assms(4) show ?thesis
    by (auto simp: find_account_initialized [OF fa] max_def)
qed

definition sample_cost :: "rat \<Rightarrow> wire_cost" where
  "sample_cost n = \<lparr>wc_remoteCalls = n, wc_nodes = 10 * n, wc_bytes = 100 * n, wc_wallTimeMs = n,
     wc_probeCalls = None\<rparr>"

definition sample_budget_run :: "budget_op list" where
  "sample_budget_run = (let k = (''T'', ''E'', OWN_MODEL) in
     [InitBudget k (sample_cost 5), Reserve ''r1'' k (sample_cost 3), Reserve ''r2'' k (sample_cost 3),
      Settle ''r1'' (sample_cost 2), Reserve ''r3'' k (sample_cost 1)])"

theorem budget_never_overspent_witness:
  "\<exists>b. getBudgetAccount (''T'', ''E'', OWN_MODEL)
         (run_ops budget_exec sample_budget_run empty_control) = Some b
     \<and> cost_at (bs_used b) K_nodes = 20 \<and> cost_at (bs_reserved b) K_nodes = 10
     \<and> cost_at (bs_used b) K_nodes + cost_at (bs_reserved b) K_nodes \<le> cost_at (bs_limits b) K_nodes"
proof -
  have run: "getBudgetAccount (''T'', ''E'', OWN_MODEL) (run_ops budget_exec sample_budget_run empty_control)
      = Some \<lparr>bs_owner = OWN_MODEL, bs_limits = sample_cost 5,
          bs_used = addCost zero_cost (sample_cost 2),
          bs_reserved = addCost (subtractCost (addCost zero_cost (sample_cost 3)) (sample_cost 3)) (sample_cost 1),
          bs_remaining = subtractCost (sample_cost 5) (addCost (addCost zero_cost (sample_cost 2))
            (addCost (subtractCost (addCost zero_cost (sample_cost 3)) (sample_cost 3)) (sample_cost 1)))\<rparr>"
    by code_simp
  have ok: "list_all budget_op_ok sample_budget_run" by code_simp
  have init: "metering_inv empty_control" by (rule metering_empty) (simp_all add: empty_control_def)
  note fact = budget_never_overspent [OF ok init refl run, of K_nodes]
  have used: "cost_at (addCost zero_cost (sample_cost 2)) K_nodes = 20" by code_simp
  have res: "cost_at (addCost (subtractCost (addCost zero_cost (sample_cost 3)) (sample_cost 3)) (sample_cost 1)) K_nodes = 10"
    by code_simp
  show ?thesis using run fact used res by simp
qed


text \<open>
  \<open>reserveBudget\<close> accepts an estimate exactly when the account exists, the estimate fits
  beside what is used and reserved in every dimension, and the reservation id is new; a refused
  reservation changes nothing.
\<close>

theorem reserveBudget_accepts_iff:
  "(fst (reserveBudget rid k e s) = Inr () \<longleftrightarrow>
      (\<exists>a. find_account k s = Some a
         \<and> list_all (\<lambda>d. cost_at (ba_used a) d + cost_at (ba_reserved a) d + cost_at e d
              \<le> cost_at (ba_limits a) d) budgetKeys)
      \<and> \<not> has_key br_reservationId rid (db_reservations s))
   \<and> (fst (reserveBudget rid k e s) = Inr () \<or> snd (reserveBudget rid k e s) = s)"
proof -
  have fits: "list_all (\<lambda>d. cost_at (ba_used a) d + cost_at (ba_reserved a) d + cost_at e d
      \<le> cost_at (ba_limits a) d) budgetKeys \<longleftrightarrow> \<not> exceeds_limit a e" for a
    by (simp only: exceeds_limit_iff list_all_iff set_budgetKeys) simp
  show ?thesis unfolding fits
    by (auto simp: reserveBudget_def insert_reservation_def set_account_def act_unfold
        split: option.splits prod.splits sum.splits)
qed

text \<open>
  A reservation is settled at most once: after a settlement has succeeded, a second one
  under the same id is refused, whatever cost it claims, and changes nothing.
\<close>

theorem settleBudget_once:
  assumes "budget_inv s" and "settleBudget rid c s = (Inr u, s')"
  shows "settleBudget rid c' s' = (Inl Invalid_argument, s')"
proof -
  obtain r a t where fr: "find_reservation rid s = Some r"
    and res: "db_reservations s' = settle_rows rid c t (db_reservations s)"
    by (rule settleBudget_Inr [OF assms(2)])
  have "List.find (\<lambda>x. br_reservationId x = rid) (settle_rows rid c t rs) =
      map_option (\<lambda>x. x\<lparr>br_status := SETTLED, br_actual := Some c, br_settledAt := Some t\<rparr>)
        (List.find (\<lambda>x. br_reservationId x = rid) rs)" for rs
    by (induction rs) simp_all
  with fr res have "find_reservation rid s' =
      Some (r\<lparr>br_status := SETTLED, br_actual := Some c, br_settledAt := Some t\<rparr>)"
    by (simp add: find_reservation_def)
  then show ?thesis by (simp add: settleBudget_def act_unfold)
qed

theorem settleBudget_once_witness:
  "fst (settleBudget ''r3'' (sample_cost 1) (run_ops budget_exec sample_budget_run empty_control)) = Inr ()
   \<and> fst (settleBudget ''r3'' (sample_cost 1)
        (snd (settleBudget ''r3'' (sample_cost 1) (run_ops budget_exec sample_budget_run empty_control))))
      = Inl Invalid_argument"
proof -
  let ?s = "run_ops budget_exec sample_budget_run empty_control"
  have "list_all budget_op_ok sample_budget_run" by code_simp
  then have "metering_inv ?s"
    by (rule budgets.run_keeps) (simp add: metering_empty empty_control_def)
  then have inv: "budget_inv ?s" by (simp add: metering_inv_def)
  have ok: "fst (settleBudget ''r3'' (sample_cost 1) ?s) = Inr ()" by code_simp
  then have "settleBudget ''r3'' (sample_cost 1) ?s =
      (Inr (), snd (settleBudget ''r3'' (sample_cost 1) ?s))"
    by (metis prod.collapse)
  from settleBudget_once [OF inv this, of "sample_cost 1"] ok show ?thesis by (metis fst_conv)
qed

text \<open>
  A usage counter never grants more than it has left: over any sequence of \<open>consumeUsage\<close>
  requests for safe amounts, some granted and some refused, the amounts granted add up to what
  the counter lost, and so to at most what \<open>remainingUsage\<close> reported at the start.
\<close>

theorem consumeUsage_grants_bounded:
  assumes "counters_inv s" and "find_counter k s = Some c"
    and "list_all (\<lambda>a. is_safe a \<and> 0 \<le> a) as"
  shows "usage.granted k as s + usage_left k (run_ops (consumeUsage k) as s) = usage_left k s
    \<and> usage.granted k as s \<le> uc_limit c - uc_used c"
proof -
  have good: "counter_good k s" using assms by (auto simp: counter_good_def)
  show ?thesis
    using usage.granted_plus_left [OF good assms(3)] usage.granted_bound [OF good assms(3)]
    by (simp add: usage_left_eq [OF assms(1,2)])
qed

definition sample_counter_state :: control_db where
  "sample_counter_state = empty_control\<lparr>db_counters := [\<lparr>uc_taskId = ''T'', uc_epochId = ''E'',
     uc_kind = ''INTEL'', uc_limit = 10, uc_used = 1\<rparr>]\<rparr>"

theorem consumeUsage_grants_bounded_witness:
  "usage_left (''T'', ''E'', ''INTEL'') sample_counter_state = 9
   \<and> usage_left (''T'', ''E'', ''INTEL'')
       (run_ops (consumeUsage (''T'', ''E'', ''INTEL'')) [4, 7, 3] sample_counter_state) = 2
   \<and> usage.granted (''T'', ''E'', ''INTEL'') [4, 7, 3] sample_counter_state = 7"
proof -
  let ?k = "(''T'', ''E'', ''INTEL'')"
  have inv: "counters_inv sample_counter_state"
    by (simp add: counters_inv_def sample_counter_state_def)
  have fc: "find_counter ?k sample_counter_state = Some \<lparr>uc_taskId = ''T'', uc_epochId = ''E'',
      uc_kind = ''INTEL'', uc_limit = 10, uc_used = 1\<rparr>" by code_simp
  have safe: "list_all (\<lambda>a. is_safe a \<and> 0 \<le> a) [4, 7, 3]" by code_simp
  have start: "usage_left ?k sample_counter_state = 9" by code_simp
  have stop: "usage_left ?k (run_ops (consumeUsage ?k) [4, 7, 3] sample_counter_state) = 2" by code_simp
  from consumeUsage_grants_bounded [OF inv fc safe]
  have "usage.granted ?k [4, 7, 3] sample_counter_state + 2 = 9" by (simp only: start stop)
  with start stop show ?thesis by linarith
qed

end
