(* ===== verification/Tasks.thy ===== *)
theory Tasks
  imports Store
begin

text \<open>
  Tasks, scan epochs, approval tickets, grants, grant requests and the audit log of
  \<open>RuntimeStore\<close> (\<open>src/storage/runtime-store.ts\<close>), with the reconciliation that runs when the
  controller starts. A payload column and the columns beside it are written together, so a row
  is its payload. Foreign keys are on: an insert whose task is missing is refused.
\<close>

section \<open>Tasks\<close>

definition getTask :: "id \<Rightarrow> 'a control_db_scheme \<Rightarrow> task_context option" where
  "getTask tid s = List.find (\<lambda>t. tc_taskId t = tid) (db_tasks s)"

definition requireTask :: "id \<Rightarrow> ('a control_db_scheme, task_context) act" where
  "requireTask tid = bind_act (read_act (getTask tid)) (\<lambda>r. case r of
     None \<Rightarrow> throw_act Plain_error | Some t \<Rightarrow> return_act t)"

definition listTasks :: "'a control_db_scheme \<Rightarrow> task_context list" where
  "listTasks s = order_by_desc tc_updatedAt (db_tasks s)"

definition createTask :: "task_context \<Rightarrow> ('a control_db_scheme, unit) act" where
  "createTask t = bind_act (read_act db_tasks) (\<lambda>rows.
     seq_act (require (\<not> has_key tc_taskId (tc_taskId t) rows) Constraint_error)
       (write_act (\<lambda>s. s\<lparr>db_tasks := db_tasks s @ [t]\<rparr>)))"

text \<open>The caller's object gets the new \<open>updatedAt\<close>, so the saved task is the result.\<close>

definition saveTask :: "task_context \<Rightarrow> ('a control_db_scheme, task_context) act" where
  "saveTask t = bind_act now (\<lambda>u. let t' = t\<lparr>tc_updatedAt := u\<rparr> in
     seq_act (write_act (\<lambda>s. s\<lparr>db_tasks :=
         update_rows (\<lambda>r. tc_taskId r = tc_taskId t) (\<lambda>_. t') (db_tasks s)\<rparr>))
       (return_act t'))"

definition active_statuses :: "task_status list" where
  "active_statuses = [TS_RUNNING, TS_PAUSED, TS_WAITING_APPROVAL, TS_RECOVERING, TS_REPORTING]"

text \<open>\<open>if (excludingTaskId)\<close>: an empty id excludes nothing.\<close>

definition hasActiveTask :: "id option \<Rightarrow> 'a control_db_scheme \<Rightarrow> bool" where
  "hasActiveTask excluding s = (0 < changes (\<lambda>t. tc_status t \<in> set active_statuses
     \<and> (case excluding of None \<Rightarrow> True | Some x \<Rightarrow> x = [] \<or> tc_taskId t \<noteq> x)) (db_tasks s))"

section \<open>Audit log\<close>

definition appendAudit ::
  "id option \<Rightarrow> string \<Rightarrow> audit_level \<Rightarrow> js \<Rightarrow> ('a control_db_scheme, audit_event) act" where
  "appendAudit tid event level data =
     bind_act (create_id ''ACT'') (\<lambda>eid. bind_act now (\<lambda>t.
     let stored = \<lparr>au_eventId = eid, au_taskId = tid, au_event = event, au_level = level,
                   au_data = data, au_createdAt = t\<rparr> in
     bind_act (read_act db_audit) (\<lambda>rows.
     seq_act (require (\<not> has_key au_eventId eid rows) Constraint_error)
    (seq_act (write_act (\<lambda>s. s\<lparr>db_audit := db_audit s @ [stored]\<rparr>)) (return_act stored)))))"

text \<open>The newest \<open>limit\<close> events of a task, oldest first; \<open>seq\<close> is the position in the table.\<close>

definition listAudit :: "id \<Rightarrow> nat \<Rightarrow> 'a control_db_scheme \<Rightarrow> audit_event list" where
  "listAudit tid limit s =
     rev (take limit (rev (filter (\<lambda>e. au_taskId e = Some tid) (db_audit s))))"

section \<open>Approval tickets\<close>

text \<open>
  \<open>INSERT OR REPLACE\<close> on a table with two unique columns deletes every row that conflicts on
  either; a missing task violates the foreign key, which \<open>OR REPLACE\<close> does not resolve.
\<close>

definition putApproval :: "approval_ticket \<Rightarrow> ('a control_db_scheme, unit) act" where
  "putApproval t = bind_act (read_act db_tasks) (\<lambda>tasks.
     seq_act (require (has_key tc_taskId (ap_taskId t) tasks) Constraint_error)
       (write_act (\<lambda>s. s\<lparr>db_approvals := filter (\<lambda>r. ap_approvalId r \<noteq> ap_approvalId t
           \<and> ap_actionId r \<noteq> ap_actionId t) (db_approvals s) @ [t]\<rparr>)))"

definition find_ticket :: "id \<Rightarrow> 'a control_db_scheme \<Rightarrow> approval_ticket option" where
  "find_ticket aid s = List.find (\<lambda>t. ap_approvalId t = aid) (db_approvals s)"

definition updateApproval ::
  "id \<Rightarrow> approval_status \<Rightarrow> ('a control_db_scheme, approval_ticket) act" where
  "updateApproval aid status = bind_act (read_act (find_ticket aid)) (\<lambda>row. case row of
     None \<Rightarrow> throw_act Plain_error
   | Some t \<Rightarrow> bind_act now (\<lambda>when.
       let t1 = t\<lparr>ap_status := status\<rparr>;
           t2 = (if status = AP_APPROVED \<or> status = AP_DENIED then t1\<lparr>ap_decidedAt := Some when\<rparr> else t1);
           t3 = (if status = AP_CONSUMED then t2\<lparr>ap_consumedAt := Some when\<rparr> else t2)
       in seq_act (putApproval t3) (return_act t3)))"

definition in_epoch :: "id option \<Rightarrow> approval_ticket \<Rightarrow> bool" where
  "in_epoch eid t = (eid = None \<or> ap_epochId t = eid)"

definition findApproval ::
  "id \<Rightarrow> string \<Rightarrow> string \<Rightarrow> id option \<Rightarrow> 'a control_db_scheme \<Rightarrow> approval_ticket option" where
  "findApproval tid tool digest eid s = List.find (in_epoch eid)
     (order_by_desc ap_createdAt (filter (\<lambda>t. ap_taskId t = tid \<and> ap_tool t = tool
        \<and> ap_argsDigest t = digest \<and> ap_status t = AP_APPROVED) (db_approvals s)))"

definition findLatestApproval ::
  "id \<Rightarrow> string \<Rightarrow> string \<Rightarrow> id option \<Rightarrow> 'a control_db_scheme \<Rightarrow> approval_ticket option" where
  "findLatestApproval tid tool digest eid s = List.find (in_epoch eid)
     (order_by_desc ap_createdAt (filter (\<lambda>t. ap_taskId t = tid \<and> ap_tool t = tool
        \<and> ap_argsDigest t = digest) (db_approvals s)))"

definition listPendingApprovals :: "id option \<Rightarrow> 'a control_db_scheme \<Rightarrow> approval_ticket list" where
  "listPendingApprovals tid s = order_by ap_createdAt (filter (\<lambda>t. ap_status t = AP_PENDING
     \<and> (case tid of None \<Rightarrow> True | Some x \<Rightarrow> x = [] \<or> ap_taskId t = x)) (db_approvals s))"

definition listApprovals :: "id \<Rightarrow> 'a control_db_scheme \<Rightarrow> approval_ticket list" where
  "listApprovals tid s = order_by ap_createdAt (filter (\<lambda>t. ap_taskId t = tid) (db_approvals s))"

text \<open>The loop over the open tickets of a task that both \<open>createScanEpoch\<close> and
  \<open>reconcileInterruptedTasks\<close> run; the first skips the tickets of the new epoch.\<close>

definition open_tickets :: "id \<Rightarrow> 'a control_db_scheme \<Rightarrow> approval_ticket list" where
  "open_tickets tid s = filter (\<lambda>t. ap_taskId t = tid
     \<and> ap_status t \<in> {AP_PENDING, AP_APPROVED}) (db_approvals s)"

definition expire_ticket :: "approval_ticket \<Rightarrow> ('a control_db_scheme, unit) act" where
  "expire_ticket t = putApproval (t\<lparr>ap_status := AP_EXPIRED\<rparr>)"

section \<open>Scan epochs\<close>

definition getScanEpoch :: "id \<Rightarrow> id \<Rightarrow> 'a control_db_scheme \<Rightarrow> scan_epoch option" where
  "getScanEpoch tid eid s = List.find (\<lambda>e. ep_taskId e = tid \<and> ep_epochId e = eid) (db_epochs s)"

definition listScanEpochs :: "id \<Rightarrow> 'a control_db_scheme \<Rightarrow> scan_epoch list" where
  "listScanEpochs tid s = order_by ep_startedAt (filter (\<lambda>e. ep_taskId e = tid) (db_epochs s))"

definition insert_epoch :: "scan_epoch \<Rightarrow> ('a control_db_scheme, unit) act" where
  "insert_epoch e = bind_act (read_act (\<lambda>s. (db_epochs s, db_tasks s))) (\<lambda>(epochs, tasks).
     seq_act (require (\<not> has_key ep_epochId (ep_epochId e) epochs
         \<and> has_key tc_taskId (ep_taskId e) tasks) Constraint_error)
       (write_act (\<lambda>s. s\<lparr>db_epochs := db_epochs s @ [e]\<rparr>)))"

definition createScanEpoch :: "scan_epoch \<Rightarrow> ('a control_db_scheme, unit) act" where
  "createScanEpoch e = bind_act (requireTask (ep_taskId e)) (\<lambda>task.
     seq_act (require (tc_protocolVersion task = Some 2) (Security_error RECOVERY_UNCERTAIN))
    (seq_act (require (ep_protocolVersion e = 2
         \<and> ep_targetFingerprint e = tg_hostFingerprint (tc_target task)) Invalid_argument)
    (transaction (
       bind_act (read_act (open_tickets (ep_taskId e))) (\<lambda>stale.
       seq_act (each_act (\<lambda>t. if ap_epochId t = Some (ep_epochId e) then return_act ()
                              else expire_ticket t) stale)
      (seq_act (insert_epoch e)
      (bind_act (saveTask (task\<lparr>tc_activeEpochId := Some (ep_epochId e)\<rparr>))
        (\<lambda>_. return_act ()))))))))"

definition finishScanEpoch ::
  "id \<Rightarrow> id \<Rightarrow> epoch_status \<Rightarrow> (string \<times> bool) option \<Rightarrow> ('a control_db_scheme, scan_epoch) act" where
  "finishScanEpoch tid eid status identity = bind_act (read_act (getScanEpoch tid eid)) (\<lambda>found.
     case found of None \<Rightarrow> throw_act Invalid_argument
     | Some e \<Rightarrow>
       if ep_status e \<noteq> EP_RUNNING then return_act e
       else bind_act now (\<lambda>t.
         let e1 = e\<lparr>ep_status := status, ep_finishedAt := Some t\<rparr>;
             e2 = (case identity of None \<Rightarrow> e1 | Some (commit, clean) \<Rightarrow>
               e1\<lparr>ep_controllerCommitAtFinish := Some commit, ep_controllerTreeCleanAtFinish := Some clean\<rparr>)
         in seq_act (write_act (\<lambda>s. s\<lparr>db_epochs := update_rows
                (\<lambda>r. ep_taskId r = tid \<and> ep_epochId r = eid) (\<lambda>_. e2) (db_epochs s)\<rparr>))
              (return_act e2)))"

section \<open>Grants and grant requests\<close>

definition putTaskGrant :: "task_grant \<Rightarrow> ('a control_db_scheme, unit) act" where
  "putTaskGrant g = seq_act
     (require (\<not> (gr_kind g = GK_BUDGET_EXTENSION \<and> gr_binding g = [])) Invalid_argument)
     (bind_act (read_act db_grants) (\<lambda>rows.
        seq_act (require (\<not> has_key gr_grantId (gr_grantId g) rows) Constraint_error)
          (write_act (\<lambda>s. s\<lparr>db_grants := db_grants s @ [g]\<rparr>))))"

definition listTaskGrants :: "id \<Rightarrow> 'a control_db_scheme \<Rightarrow> task_grant list" where
  "listTaskGrants tid s = order_by gr_createdAt (filter (\<lambda>g. gr_taskId g = tid) (db_grants s))"

definition revokeTaskGrant :: "id \<Rightarrow> id \<Rightarrow> string \<Rightarrow> ('a control_db_scheme, task_grant) act" where
  "revokeTaskGrant tid gid reason = bind_act
     (read_act (\<lambda>s. List.find (\<lambda>g. gr_grantId g = gid) (listTaskGrants tid s))) (\<lambda>found.
     case found of None \<Rightarrow> throw_act Invalid_argument
     | Some g \<Rightarrow>
       seq_act (require (gr_status g = GS_ACTIVE) Invalid_argument)
      (seq_act (require (\<not> (length (js_trim reason) < 1 \<or> 1000 < length reason)) Invalid_argument)
      (bind_act now (\<lambda>t.
         let g' = g\<lparr>gr_status := GS_REVOKED, gr_revokedAt := Some t,
                    gr_revocationReason := Some (js_trim reason)\<rparr>
         in seq_act (write_act (\<lambda>s. s\<lparr>db_grants := update_rows
                (\<lambda>r. gr_grantId r = gid \<and> gr_taskId r = tid) (\<lambda>_. g') (db_grants s)\<rparr>))
              (return_act g')))))"

definition putGrantRequest :: "grant_request \<Rightarrow> ('a control_db_scheme, unit) act" where
  "putGrantRequest r = write_act (\<lambda>s. s\<lparr>db_grant_requests :=
     replace_row gq_requestId r (db_grant_requests s)\<rparr>)"

definition getGrantRequest :: "id \<Rightarrow> 'a control_db_scheme \<Rightarrow> grant_request option" where
  "getGrantRequest rid s = List.find (\<lambda>r. gq_requestId r = rid) (db_grant_requests s)"

definition listGrantRequests :: "id \<Rightarrow> 'a control_db_scheme \<Rightarrow> grant_request list" where
  "listGrantRequests tid s =
     order_by gq_createdAt (filter (\<lambda>r. gq_taskId r = tid) (db_grant_requests s))"

definition updateGrantRequest ::
  "id \<Rightarrow> request_status \<Rightarrow> ('a control_db_scheme, grant_request) act" where
  "updateGrantRequest rid status = bind_act (read_act (getGrantRequest rid)) (\<lambda>found.
     case found of None \<Rightarrow> throw_act Invalid_argument
     | Some r \<Rightarrow>
       seq_act (require (gq_status r = GQ_PENDING) Invalid_argument)
      (bind_act now (\<lambda>t.
         let r' = r\<lparr>gq_status := status, gq_decidedAt := Some t\<rparr>
         in seq_act (putGrantRequest r') (return_act r'))))"

definition expirePendingGrantRequests :: "id \<Rightarrow> ('a control_db_scheme, nat) act" where
  "expirePendingGrantRequests tid = bind_act (read_act (\<lambda>s.
       filter (\<lambda>r. gq_taskId r = tid \<and> gq_status r = GQ_PENDING) (db_grant_requests s))) (\<lambda>rows.
     seq_act (each_act (\<lambda>r. putGrantRequest (r\<lparr>gq_status := GQ_EXPIRED\<rparr>)) rows)
       (return_act (length rows)))"

section \<open>Reconciliation at start\<close>

definition interrupted_statuses :: "task_status list" where
  "interrupted_statuses = [TS_RUNNING, TS_WAITING_APPROVAL, TS_RECOVERING, TS_REPORTING]"

definition task_status_name :: "task_status \<Rightarrow> string" where
  "task_status_name st = (case st of TS_CREATED \<Rightarrow> ''CREATED'' | TS_RUNNING \<Rightarrow> ''RUNNING''
     | TS_PAUSED \<Rightarrow> ''PAUSED'' | TS_WAITING_APPROVAL \<Rightarrow> ''WAITING_APPROVAL''
     | TS_RECOVERING \<Rightarrow> ''RECOVERING'' | TS_REPORTING \<Rightarrow> ''REPORTING''
     | TS_COMPLETED \<Rightarrow> ''COMPLETED'' | TS_FAILED \<Rightarrow> ''FAILED'' | TS_ABORTED \<Rightarrow> ''ABORTED'')"

definition js_count :: "nat \<Rightarrow> js" where
  "js_count n = Num (Fin (of_nat n))"

definition js_id :: "id option \<Rightarrow> js" where
  "js_id i = (case i of None \<Rightarrow> Undefined | Some x \<Rightarrow> Str x)"

definition reconcile_task :: "task_context \<Rightarrow> ('a control_db_scheme, task_context) act" where
  "reconcile_task task = bind_act now (\<lambda>detectedAt.
     bind_act (saveTask (task\<lparr>tc_status := TS_ABORTED,
         tc_interruption := Some \<lparr>ti_previousStatus = tc_status task, ti_detectedAt = detectedAt,
                                  ti_recoveryRequired = True\<rparr>\<rparr>)) (\<lambda>saved.
     bind_act (read_act (open_tickets (tc_taskId task))) (\<lambda>approvals.
     seq_act (each_act expire_ticket approvals)
    (bind_act (expirePendingGrantRequests (tc_taskId task)) (\<lambda>expiredGrantRequests.
     bind_act (appendAudit (Some (tc_taskId task)) ''task_interrupted_detected'' Warn
        (Obj [(''epochId'', js_id (tc_activeEpochId task)),
              (''previousStatus'', Str (task_status_name (tc_status task))),
              (''expiredApprovals'', js_count (length approvals)),
              (''expiredGrantRequests'', js_count expiredGrantRequests),
              (''detectedAt'', Str detectedAt)])) (\<lambda>_. return_act saved))))))"

definition reconcileInterruptedTasks :: "('a control_db_scheme, task_context list) act" where
  "reconcileInterruptedTasks = bind_act (read_act (\<lambda>s.
       filter (\<lambda>t. tc_status t \<in> set interrupted_statuses) (listTasks s))) (\<lambda>tasks.
     if tasks = [] then return_act [] else transaction (map_act reconcile_task tasks))"

section \<open>What the operations leave alone\<close>

text \<open>The tapes only ever move on.\<close>

definition tapes_forward :: "'a tapes_scheme \<Rightarrow> 'a tapes_scheme \<Rightarrow> bool" where
  "tapes_forward s s' \<longleftrightarrow> uuid_tape s' = uuid_tape s \<and> clock_tape s' = clock_tape s
     \<and> uuid_pos s \<le> uuid_pos s' \<and> clock_pos s \<le> clock_pos s'"

lemma reflp_tapes_forward [obeys_intros]: "reflp tapes_forward"
  by (simp add: reflp_def tapes_forward_def)

lemma transp_tapes_forward [obeys_intros]: "transp tapes_forward"
  by (auto simp: transp_def tapes_forward_def)

lemma tapes_forward_now [obeys_intros]: "obeys tapes_forward now"
  by (simp add: obeys_def now_def tapes_forward_def)

lemma tapes_forward_uuid [obeys_intros]: "obeys tapes_forward next_uuid"
  by (simp add: obeys_def next_uuid_def tapes_forward_def)

lemma tapes_forward_create_id [obeys_intros]: "obeys tapes_forward (create_id p)"
  unfolding create_id_def by (intro obeys_intros)

lemma same_now: "(\<And>s n. f (s\<lparr>clock_pos := n\<rparr>) = f s) \<Longrightarrow> obeys (same f) now"
  by (simp add: obeys_def same_def now_def)

lemma same_create_id: "(\<And>s n. f (s\<lparr>uuid_pos := n\<rparr>) = f s) \<Longrightarrow> obeys (same f) (create_id p)"
  by (simp add: obeys_def same_def create_id_def next_uuid_def bind_act_def)

text \<open>Facts of the form "this operation does not touch that table".\<close>

lemmas leaves_defs = saveTask_def createTask_def appendAudit_def putApproval_def
  expire_ticket_def insert_epoch_def finishScanEpoch_def putTaskGrant_def revokeTaskGrant_def
  putGrantRequest_def updateGrantRequest_def expirePendingGrantRequests_def Let_def

lemma saveTask_leaves [obeys_intros]:
  "obeys (same db_approvals) (saveTask t)" "obeys tapes_forward (saveTask t)"
  by (auto simp: leaves_defs same_def tapes_forward_def intro!: obeys_intros same_now)

lemma appendAudit_leaves [obeys_intros]:
  "obeys (same db_approvals) (appendAudit tid ev lv d)" "obeys tapes_forward (appendAudit tid ev lv d)"
  "obeys (same db_tasks) (appendAudit tid ev lv d)"
  by (auto simp: leaves_defs same_def tapes_forward_def intro!: obeys_intros same_now same_create_id)

lemma insert_epoch_leaves [obeys_intros]:
  "obeys (same db_approvals) (insert_epoch e)" "obeys tapes_forward (insert_epoch e)"
  "obeys (same db_tasks) (insert_epoch e)"
  by (auto simp: leaves_defs same_def tapes_forward_def intro!: obeys_intros)

lemma putApproval_leaves [obeys_intros]:
  "obeys tapes_forward (putApproval t)" "obeys (same db_tasks) (putApproval t)"
  by (auto simp: leaves_defs same_def tapes_forward_def intro!: obeys_intros)

lemma expire_ticket_leaves [obeys_intros]:
  "obeys tapes_forward (expire_ticket t)" "obeys (same db_tasks) (expire_ticket t)"
  unfolding expire_ticket_def by (intro obeys_intros)+

lemma expirePendingGrantRequests_leaves [obeys_intros]:
  "obeys (same db_approvals) (expirePendingGrantRequests tid)"
  "obeys (same db_tasks) (expirePendingGrantRequests tid)"
  "obeys tapes_forward (expirePendingGrantRequests tid)"
  by (auto simp: leaves_defs same_def tapes_forward_def intro!: obeys_intros)

end
