(* ===== verification/Approvals.thy ===== *)
theory Approvals
  imports Tasks
begin

text \<open>
  \<open>ApprovalService\<close> (\<open>src/agent/approval-service.ts\<close>) over the store, as a state machine on
  approval tickets: \<open>ticket_step\<close> says which changes of a ticket are allowed to which request,
  and every operation that touches the table refines it. From that follow the properties a
  write operation relies on: one-shot tickets, bound to task, epoch, target, tool and
  arguments, that only an analyst can approve. Event listeners (\<open>emit\<close>, \<open>waitForDecision\<close>) and
  the text of \<open>actionSummary\<close> are not modelled; the summary is an argument.
\<close>

section \<open>Operations\<close>

definition ticket_js :: "approval_ticket \<Rightarrow> js" where
  "ticket_js t = Obj [(''approvalId'', Str (ap_approvalId t)), (''taskId'', Str (ap_taskId t)),
     (''epochId'', js_id (ap_epochId t)), (''targetFingerprint'', Str (ap_targetFingerprint t)),
     (''tool'', Str (ap_tool t)), (''argsDigest'', Str (ap_argsDigest t)),
     (''actionId'', Str (ap_actionId t)), (''actionSummary'', Str (ap_actionSummary t)),
     (''status'', Str ''PENDING''), (''createdAt'', Str (ap_createdAt t))]"

text \<open>\<open>task.activeEpochId\<close> is a set, non-empty id.\<close>

definition active_epoch :: "task_context \<Rightarrow> id option" where
  "active_epoch task = (case tc_activeEpochId task of
     Some e \<Rightarrow> if e = [] then None else Some e | None \<Rightarrow> None)"

text \<open>
  \<open>digest\<close> is \<open>digestObject\<close>, the SHA-256 of the canonical form. The result is the ticket and
  the caller's task, whose status the operation changed.
\<close>

definition approval_request ::
  "(js \<Rightarrow> string) \<Rightarrow> task_context \<Rightarrow> string \<Rightarrow> js \<Rightarrow> string \<Rightarrow>
   ('a control_db_scheme, approval_ticket \<times> task_context) act" where
  "approval_request digest task tool args summary =
     (if tc_protocolVersion task \<noteq> Some 2 \<or> active_epoch task = None then throw_act Plain_error
      else bind_act (read_act (\<lambda>s. List.find (\<lambda>t. ap_epochId t = tc_activeEpochId task
             \<and> ap_tool t = tool \<and> ap_argsDigest t = digest args
             \<and> ap_targetFingerprint t = tg_hostFingerprint (tc_target task))
             (listPendingApprovals (Some (tc_taskId task)) s))) (\<lambda>pending.
        case pending of Some t \<Rightarrow> return_act (t, task)
        | None \<Rightarrow>
            bind_act (create_id ''APR'') (\<lambda>aid. bind_act (create_id ''ACT'') (\<lambda>act.
            bind_act now (\<lambda>created.
            let t = \<lparr>ap_approvalId = aid, ap_taskId = tc_taskId task,
                 ap_epochId = tc_activeEpochId task,
                 ap_targetFingerprint = tg_hostFingerprint (tc_target task), ap_tool = tool,
                 ap_argsDigest = digest args, ap_actionId = act, ap_actionSummary = summary,
                 ap_status = AP_PENDING, ap_createdAt = created, ap_decidedAt = None,
                 ap_consumedAt = None\<rparr> in
            seq_act (putApproval t)
           (bind_act (saveTask (task\<lparr>tc_status := TS_WAITING_APPROVAL\<rparr>)) (\<lambda>task'.
            seq_act (appendAudit (Some (tc_taskId task)) ''write_tool_requested'' Warn (ticket_js t))
              (return_act (t, task')))))))))"

text \<open>What follows the update of the ticket: the audit entry, and the task runs again when
  nothing is left to decide.\<close>

definition decide_followup ::
  "id \<Rightarrow> bool \<Rightarrow> approval_ticket \<Rightarrow> ('a control_db_scheme, approval_ticket) act" where
  "decide_followup aid approved ticket =
     seq_act (appendAudit (Some (ap_taskId ticket))
        (if approved then ''write_tool_approved'' else ''write_tool_denied'')
        (if approved then Warn else Info)
        (Obj [(''approvalId'', Str aid), (''actionId'', Str (ap_actionId ticket)),
              (''tool'', Str (ap_tool ticket))]))
    (bind_act (read_act (\<lambda>s. (getTask (ap_taskId ticket) s,
         listPendingApprovals (Some (ap_taskId ticket)) s))) (\<lambda>(task, pending).
     seq_act (case task of None \<Rightarrow> return_act ()
        | Some t \<Rightarrow> if tc_status t = TS_WAITING_APPROVAL \<and> pending = []
            then bind_act (saveTask (t\<lparr>tc_status := TS_RUNNING\<rparr>)) (\<lambda>_. return_act ())
            else return_act ())
       (return_act ticket)))"

definition approval_decide :: "id \<Rightarrow> bool \<Rightarrow> ('a control_db_scheme, approval_ticket) act" where
  "approval_decide aid approved =
     bind_act (read_act (\<lambda>s. List.find (\<lambda>t. ap_approvalId t = aid) (listPendingApprovals None s)))
       (\<lambda>current. case current of None \<Rightarrow> throw_act Plain_error
        | Some _ \<Rightarrow> bind_act (updateApproval aid (if approved then AP_APPROVED else AP_DENIED))
            (decide_followup aid approved))"

definition approval_consume ::
  "(js \<Rightarrow> string) \<Rightarrow> task_context \<Rightarrow> string \<Rightarrow> js \<Rightarrow>
   ('a control_db_scheme, approval_ticket option) act" where
  "approval_consume digest task tool args =
     (if tc_protocolVersion task \<noteq> Some 2 \<or> active_epoch task = None then return_act None
      else bind_act (read_act (findApproval (tc_taskId task) tool (digest args) (tc_activeEpochId task)))
       (\<lambda>found. case found of None \<Rightarrow> return_act None
        | Some t \<Rightarrow>
            if ap_targetFingerprint t \<noteq> tg_hostFingerprint (tc_target task)
               \<or> ap_epochId t \<noteq> tc_activeEpochId task then return_act None
            else bind_act (updateApproval (ap_approvalId t) AP_CONSUMED) (\<lambda>c. return_act (Some c))))"

text \<open>The requests that reach the approval table while the controller runs and when it starts.\<close>

datatype approval_op =
    Create_task task_context
  | Save_task task_context
  | Start_epoch scan_epoch
  | Request task_context string js string
  | Decide id bool
  | Consume task_context string js
  | Restart

definition approval_exec ::
  "(js \<Rightarrow> string) \<Rightarrow> approval_op \<Rightarrow> ('a control_db_scheme, approval_ticket option) act" where
  "approval_exec digest q = (case q of
     Create_task t \<Rightarrow> seq_act (createTask t) (return_act None)
   | Save_task t \<Rightarrow> seq_act (saveTask t) (return_act None)
   | Start_epoch e \<Rightarrow> seq_act (createScanEpoch e) (return_act None)
   | Request task tool args summary \<Rightarrow>
       bind_act (approval_request digest task tool args summary) (\<lambda>(t, _). return_act (Some t))
   | Decide aid b \<Rightarrow> bind_act (approval_decide aid b) (\<lambda>t. return_act (Some t))
   | Consume task tool args \<Rightarrow> approval_consume digest task tool args
   | Restart \<Rightarrow> seq_act reconcileInterruptedTasks (return_act None))"

section \<open>The ticket machine\<close>

text \<open>What identifies a ticket and what it is bound to; no operation changes it.\<close>

definition same_ticket :: "approval_ticket \<Rightarrow> approval_ticket \<Rightarrow> bool" where
  "same_ticket t t' \<longleftrightarrow> ap_approvalId t' = ap_approvalId t \<and> ap_actionId t' = ap_actionId t
     \<and> ap_taskId t' = ap_taskId t \<and> ap_epochId t' = ap_epochId t
     \<and> ap_targetFingerprint t' = ap_targetFingerprint t \<and> ap_tool t' = ap_tool t
     \<and> ap_argsDigest t' = ap_argsDigest t \<and> ap_actionSummary t' = ap_actionSummary t
     \<and> ap_createdAt t' = ap_createdAt t"

inductive status_step :: "approval_op \<Rightarrow> id \<Rightarrow> approval_status \<Rightarrow> approval_status \<Rightarrow> bool" where
  stay: "status_step q aid st st"
| approve: "status_step (Decide aid True) aid AP_PENDING AP_APPROVED"
| deny: "status_step (Decide aid False) aid AP_PENDING AP_DENIED"
| use: "status_step (Consume task tool args) aid AP_APPROVED AP_CONSUMED"
| new_epoch: "st \<in> {AP_PENDING, AP_APPROVED} \<Longrightarrow> status_step (Start_epoch e) aid st AP_EXPIRED"
| restart: "st \<in> {AP_PENDING, AP_APPROVED} \<Longrightarrow> status_step Restart aid st AP_EXPIRED"

inductive_simps status_step_restart: "status_step Restart aid st st'"
inductive_cases status_step_to_approved: "status_step q aid st AP_APPROVED"
inductive_cases status_step_to_consumed: "status_step q aid st AP_CONSUMED"
inductive_cases status_step_to_pending: "status_step q aid st AP_PENDING"
inductive_cases status_step_from_final: "status_step q aid AP_CONSUMED st"
  "status_step q aid AP_DENIED st" "status_step q aid AP_EXPIRED st"

definition ticket_step :: "approval_op \<Rightarrow> approval_ticket \<Rightarrow> approval_ticket \<Rightarrow> bool" where
  "ticket_step q t t' \<longleftrightarrow> same_ticket t t' \<and> status_step q (ap_approvalId t) (ap_status t) (ap_status t')
     \<and> (ap_status t' = ap_status t \<longrightarrow> t' = t)"

lemma ticket_step_refl [simp]: "ticket_step q t t"
  by (simp add: ticket_step_def same_ticket_def status_step.stay)

text \<open>A step of the whole table: every ticket takes a step, and only a request adds one, pending.\<close>

definition is_request :: "approval_op \<Rightarrow> bool" where
  "is_request q = (case q of Request _ _ _ _ \<Rightarrow> True | _ \<Rightarrow> False)"

definition table_step :: "approval_op \<Rightarrow> approval_ticket list \<Rightarrow> approval_ticket list \<Rightarrow> bool" where
  "table_step q rows rows' \<longleftrightarrow>
     (\<forall>t\<in>set rows. \<exists>t'\<in>set rows'. ticket_step q t t')
   \<and> (\<forall>t'\<in>set rows'. (\<exists>t\<in>set rows. ticket_step q t t') \<or> is_request q \<and> ap_status t' = AP_PENDING)"

text \<open>Ids come from \<open>createId\<close>: those of the table were issued by it.\<close>

definition issued :: "string \<Rightarrow> 'a tapes_scheme \<Rightarrow> id set" where
  "issued prefix s = {prefix @ ''-'' @ uuid_tape s i | i. i < uuid_pos s}"

definition approval_inv :: "'a control_db_scheme \<Rightarrow> bool" where
  "approval_inv s \<longleftrightarrow> inj (uuid_tape s)
     \<and> distinct (map ap_approvalId (db_approvals s)) \<and> distinct (map ap_actionId (db_approvals s))
     \<and> (\<forall>t\<in>set (db_approvals s). ap_approvalId t \<in> issued ''APR'' s \<and> ap_actionId t \<in> issued ''ACT'' s)"

section \<open>Rewriting rows of the ticket table\<close>

definition retable :: "approval_ticket \<Rightarrow> approval_ticket list \<Rightarrow> approval_ticket list" where
  "retable t rows = filter (\<lambda>r. ap_approvalId r \<noteq> ap_approvalId t \<and> ap_actionId r \<noteq> ap_actionId t) rows @ [t]"

definition keys_ok :: "approval_ticket list \<Rightarrow> bool" where
  "keys_ok rows \<longleftrightarrow> distinct (map ap_approvalId rows) \<and> distinct (map ap_actionId rows)"

lemma keys_ok_eq: "keys_ok rows \<Longrightarrow> x \<in> set rows \<Longrightarrow> y \<in> set rows \<Longrightarrow>
    ap_approvalId x = ap_approvalId y \<or> ap_actionId x = ap_actionId y \<Longrightarrow> x = y"
  by (auto simp: keys_ok_def distinct_map inj_on_def)

lemma keys_ok_retable: "keys_ok rows \<Longrightarrow> keys_ok (retable t rows)"
  by (auto simp: keys_ok_def retable_def distinct_map_filter)

lemma retable_set:
  assumes "keys_ok rows" and "r \<in> set rows"
    and "ap_approvalId t = ap_approvalId r" and "ap_actionId t = ap_actionId r"
  shows "set (retable t rows) = insert t (set rows - {r})"
  using assms keys_ok_eq [OF assms(1) _ assms(2)] by (auto simp: retable_def)

lemma retable_new:
  assumes "\<forall>r\<in>set rows. ap_approvalId r \<noteq> ap_approvalId t \<and> ap_actionId r \<noteq> ap_actionId t"
  shows "retable t rows = rows @ [t]"
  using assms by (simp add: retable_def)

lemma putApproval_eq: "putApproval t s =
    (if has_key tc_taskId (ap_taskId t) (db_tasks s)
     then (Inr (), s\<lparr>db_approvals := retable t (db_approvals s)\<rparr>) else (Inl Constraint_error, s))"
  by (simp add: putApproval_def retable_def act_unfold)

lemma expire_ticket_Inr: "expire_ticket t s = (Inr u, s') \<longleftrightarrow> has_key tc_taskId (ap_taskId t) (db_tasks s)
    \<and> s' = s\<lparr>db_approvals := retable (t\<lparr>ap_status := AP_EXPIRED\<rparr>) (db_approvals s)\<rparr>"
  by (auto simp: expire_ticket_def putApproval_eq)

lemma expire_ticket_eq: "expire_ticket t s =
    (if has_key tc_taskId (ap_taskId t) (db_tasks s)
     then (Inr (), s\<lparr>db_approvals := retable (t\<lparr>ap_status := AP_EXPIRED\<rparr>) (db_approvals s)\<rparr>)
     else (Inl Constraint_error, s))"
  by (simp add: expire_ticket_def putApproval_eq)

lemma expire_tickets:
  assumes "keys_ok (db_approvals s)" and "distinct ts" and "set ts \<subseteq> set (db_approvals s)"
    and "each_act expire_ticket ts s = (Inr u, s')"
  shows "keys_ok (db_approvals s') \<and> set (db_approvals s') =
    (set (db_approvals s) - set ts) \<union> (\<lambda>t. t\<lparr>ap_status := AP_EXPIRED\<rparr>) ` set ts"
  using assms
proof (induction ts arbitrary: s)
  case (Cons t ts)
  let ?t = "t\<lparr>ap_status := AP_EXPIRED\<rparr>" and ?s = "s\<lparr>db_approvals := retable (t\<lparr>ap_status := AP_EXPIRED\<rparr>) (db_approvals s)\<rparr>"
  from Cons.prems(4) have rest: "each_act expire_ticket ts ?s = (Inr u, s')"
    by (auto simp: act_simps expire_ticket_Inr)
  have rows: "set (retable ?t (db_approvals s)) = insert ?t (set (db_approvals s) - {t})"
    using retable_set [OF Cons.prems(1), of t ?t] Cons.prems(3) by simp
  have keys: "keys_ok (db_approvals ?s)" using Cons.prems(1) by (simp add: keys_ok_retable)
  have "?t \<notin> set ts"
  proof
    assume "?t \<in> set ts"
    then have "?t = t" using Cons.prems(1,3) by (intro keys_ok_eq [OF Cons.prems(1)]) auto
    with \<open>?t \<in> set ts\<close> Cons.prems(2) show False by simp
  qed
  have "set ts \<subseteq> set (db_approvals ?s)" using Cons.prems(2,3) by (auto simp: rows)
  with Cons.IH [OF keys _ this rest] Cons.prems(2)
  have "keys_ok (db_approvals s')" and "set (db_approvals s') =
      (insert ?t (set (db_approvals s) - {t}) - set ts) \<union> (\<lambda>t. t\<lparr>ap_status := AP_EXPIRED\<rparr>) ` set ts"
    by (simp_all add: rows)
  with \<open>?t \<notin> set ts\<close> show ?case by auto
qed simp

lemma table_step_expired:
  assumes "set rows' = (set rows - set ts) \<union> (\<lambda>t. t\<lparr>ap_status := AP_EXPIRED\<rparr>) ` set ts"
    and "\<And>t. t \<in> set ts \<Longrightarrow> t \<in> set rows \<and> ap_status t \<in> {AP_PENDING, AP_APPROVED}"
    and "\<And>aid st. st \<in> {AP_PENDING, AP_APPROVED} \<Longrightarrow> status_step q aid st AP_EXPIRED"
  shows "table_step q rows rows'"
proof -
  have exp: "ticket_step q t (t\<lparr>ap_status := AP_EXPIRED\<rparr>)" if "t \<in> set ts" for t
    using assms(2) [OF that] assms(3) by (auto simp: ticket_step_def same_ticket_def)
  show ?thesis unfolding table_step_def
  proof (intro conjI ballI)
    fix t assume "t \<in> set rows"
    with assms(1) exp show "\<exists>t'\<in>set rows'. ticket_step q t t'"
      by (cases "t \<in> set ts") (auto intro: bexI [of _ t])
  next
    fix t' assume "t' \<in> set rows'"
    with assms(1,2) exp show "(\<exists>t\<in>set rows. ticket_step q t t') \<or> is_request q \<and> ap_status t' = AP_PENDING"
      by (auto intro: bexI [of _ t'])
  qed
qed

lemma table_step_refl [simp]: "table_step q rows rows"
  unfolding table_step_def by (meson ticket_step_refl)

lemma table_step_retable:
  assumes "keys_ok rows" and "r \<in> set rows" and "ticket_step q r t"
  shows "table_step q rows (retable t rows)"
proof -
  from assms(3) have ids: "ap_approvalId t = ap_approvalId r" "ap_actionId t = ap_actionId r"
    by (simp_all add: ticket_step_def same_ticket_def)
  note rows = retable_set [OF assms(1,2) ids]
  show ?thesis unfolding table_step_def
  proof (intro conjI ballI)
    fix x assume "x \<in> set rows"
    with rows assms(3) show "\<exists>t'\<in>set (retable t rows). ticket_step q x t'"
      by (cases "x = r") (auto intro: bexI [of _ x])
  next
    fix x assume "x \<in> set (retable t rows)"
    with rows assms(2,3) show "(\<exists>y\<in>set rows. ticket_step q y x) \<or> is_request q \<and> ap_status x = AP_PENDING"
      by (cases "x = t") (auto intro: bexI [of _ x])
  qed
qed

lemma table_step_append: "is_request q \<Longrightarrow> ap_status t = AP_PENDING \<Longrightarrow> table_step q rows (rows @ [t])"
  unfolding table_step_def by simp (meson ticket_step_refl)

section \<open>The invariant along the operations\<close>

lemma issued_mono: "tapes_forward s s' \<Longrightarrow> issued p s \<subseteq> issued p s'"
  by (auto simp: issued_def tapes_forward_def)

lemma issued_fresh: "inj (uuid_tape s) \<Longrightarrow> p @ ''-'' @ uuid_tape s (uuid_pos s) \<notin> issued p s"
  by (auto simp: issued_def dest: injD)

lemma approval_inv_keys: "approval_inv s \<Longrightarrow> keys_ok (db_approvals s)"
  by (simp add: approval_inv_def keys_ok_def)

lemma approval_inv_keep:
  assumes "approval_inv s" and "tapes_forward s s'" and "keys_ok (db_approvals s')"
    and "\<And>t'. t' \<in> set (db_approvals s') \<Longrightarrow>
      \<exists>t\<in>set (db_approvals s). ap_approvalId t' = ap_approvalId t \<and> ap_actionId t' = ap_actionId t"
  shows "approval_inv s'"
proof -
  have "ap_approvalId t' \<in> issued ''APR'' s' \<and> ap_actionId t' \<in> issued ''ACT'' s'"
    if "t' \<in> set (db_approvals s')" for t'
    using assms(4) [OF that] assms(1) issued_mono [OF assms(2)] by (auto simp: approval_inv_def subset_iff)
  with assms show ?thesis by (simp add: approval_inv_def keys_ok_def tapes_forward_def)
qed

lemma approval_inv_same:
  "approval_inv s \<Longrightarrow> tapes_forward s s' \<Longrightarrow> db_approvals s' = db_approvals s \<Longrightarrow> approval_inv s'"
  by (rule approval_inv_keep) (auto simp: approval_inv_keys)

text \<open>The outcome of a request: the invariant holds again and the table took a step.\<close>

definition advances :: "approval_op \<Rightarrow> 'a control_db_scheme \<Rightarrow> 'a control_db_scheme \<Rightarrow> bool" where
  "advances q s s' \<longleftrightarrow> approval_inv s' \<and> table_step q (db_approvals s) (db_approvals s')"

lemma advances_same:
  "approval_inv s \<Longrightarrow> tapes_forward s s' \<Longrightarrow> db_approvals s' = db_approvals s \<Longrightarrow> advances q s s'"
  by (simp add: advances_def approval_inv_same)

lemma advances_then:
  "advances q s s1 \<Longrightarrow> tapes_forward s1 s2 \<Longrightarrow> db_approvals s2 = db_approvals s1 \<Longrightarrow> advances q s s2"
  by (auto simp: advances_def dest: approval_inv_same)

lemma advances_leaves:
  assumes "advances q s s1" and "obeys tapes_forward m" and "obeys (same db_approvals) m"
    and "m s1 = (r, s2)"
  shows "advances q s s2"
  using assms by (auto intro: advances_then dest: obeysD obeys_sameD)

lemma advances_bind:
  assumes "advances q s (snd (m s1))" and "\<And>x. obeys tapes_forward (f x)"
    and "\<And>x. obeys (same db_approvals) (f x)"
  shows "advances q s (snd (bind_act m f s1))"
proof (cases "m s1")
  case (Pair r s2)
  show ?thesis
  proof (cases r)
    case (Inr x)
    from assms(1) Pair have "advances q s s2" by simp
    then have "advances q s (snd (f x s2))"
      by (rule advances_leaves [OF _ assms(2) assms(3)]) (rule surjective_pairing)
    with Inr Pair show ?thesis by (simp add: bind_act_def)
  next
    case (Inl e)
    with assms(1) Pair show ?thesis by (simp add: bind_act_def)
  qed
qed

lemma leaves_advances:
  assumes "approval_inv s" and "obeys tapes_forward m" and "obeys (same db_approvals) m"
  shows "advances q s (snd (m s))"
  using assms by (cases "m s") (auto intro: advances_same dest: obeysD obeys_sameD)

lemma find_ticket_member:
  "keys_ok (db_approvals s) \<Longrightarrow> t \<in> set (db_approvals s) \<Longrightarrow> find_ticket (ap_approvalId t) s = Some t"
  by (simp add: find_ticket_def find_unique keys_ok_def)

lemma find_ticket_SomeD: "find_ticket aid s = Some t \<Longrightarrow> t \<in> set (db_approvals s) \<and> ap_approvalId t = aid"
  by (auto simp: find_ticket_def dest: find_SomeD)

lemma updateApproval_result:
  assumes "updateApproval aid st s = (Inr t', s')"
  obtains t where "find_ticket aid s = Some t" "same_ticket t t'" "ap_status t' = st"
    "db_approvals s' = retable t' (db_approvals s)"
  using assms
  by (auto simp: updateApproval_def act_simps now_def putApproval_eq Let_def same_ticket_def
      split: option.splits if_splits)

lemma updateApproval_advances:
  assumes inv: "approval_inv s" and t: "find_ticket aid s = Some t"
    and step: "status_step q aid (ap_status t) st" "st \<noteq> ap_status t"
  shows "advances q s (snd (updateApproval aid st s))"
proof -
  have forward: "obeys tapes_forward (updateApproval aid st)"
    unfolding updateApproval_def Let_def by (intro obeys_intros)
  show ?thesis
  proof (cases "updateApproval aid st s")
    case (Pair r s')
    with forward have fw: "tapes_forward s s'" by (auto dest: obeysD)
    show ?thesis
    proof (cases r)
      case (Inl e)
      with Pair have "db_approvals s' = db_approvals s"
        by (auto simp: updateApproval_def act_simps now_def putApproval_eq Let_def split: option.splits if_splits)
      with Pair fw inv show ?thesis by (simp add: advances_same)
    next
      case (Inr t')
      with Pair t obtain "same_ticket t t'" "ap_status t' = st"
        "db_approvals s' = retable t' (db_approvals s)"
        by (auto elim: updateApproval_result)
      moreover from t have mem: "t \<in> set (db_approvals s)" "ap_approvalId t = aid"
        by (auto dest: find_ticket_SomeD)
      moreover note keys = approval_inv_keys [OF inv]
      ultimately have "ticket_step q t t'" and rows: "set (db_approvals s') = insert t' (set (db_approvals s) - {t})"
        using step by (auto simp: ticket_step_def retable_set [OF keys mem(1)] same_ticket_def)
      then have "table_step q (db_approvals s) (db_approvals s')"
        using \<open>db_approvals s' = _\<close> keys mem(1) by (simp add: table_step_retable)
      moreover have "approval_inv s'"
        by (rule approval_inv_keep [OF inv fw])
          (use \<open>db_approvals s' = _\<close> \<open>same_ticket t t'\<close> keys mem(1) rows in
            \<open>auto simp: keys_ok_retable same_ticket_def\<close>)
      ultimately show ?thesis using Pair by (simp add: advances_def)
    qed
  qed
qed

lemma createTask_leaves [obeys_intros]:
  "obeys (same db_approvals) (createTask t)" "obeys tapes_forward (createTask t)"
  by (auto simp: leaves_defs same_def tapes_forward_def intro!: obeys_intros)

lemma pending_find:
  assumes "approval_inv s" and "List.find (\<lambda>t. ap_approvalId t = aid) (listPendingApprovals tid s) = Some t"
  shows "find_ticket aid s = Some t \<and> ap_status t = AP_PENDING"
  using find_SomeD [OF assms(2)] find_ticket_member [OF approval_inv_keys [OF assms(1)], of t]
  by (auto simp: listPendingApprovals_def)

lemma decide_advances:
  assumes "approval_inv s"
  shows "advances (Decide aid b) s (snd (approval_decide aid b s))"
proof (cases "List.find (\<lambda>t. ap_approvalId t = aid) (listPendingApprovals None s)")
  case None
  with assms show ?thesis by (simp add: approval_decide_def act_unfold advances_def)
next
  case (Some t)
  let ?st = "if b then AP_APPROVED else AP_DENIED"
  from pending_find [OF assms Some] have t: "find_ticket aid s = Some t" "ap_status t = AP_PENDING" by auto
  have "status_step (Decide aid b) aid (ap_status t) ?st"
    using t(2) by (cases b) (auto intro: status_step.intros)
  from updateApproval_advances [OF assms t(1) this] t(2)
  have upd: "advances (Decide aid b) s (snd (updateApproval aid ?st s))" by (auto split: if_splits)
  have rest: "obeys tapes_forward (decide_followup aid b tk)"
    "obeys (same db_approvals) (decide_followup aid b tk)" for tk :: approval_ticket
    unfolding decide_followup_def by (intro obeys_intros)+
  have "advances (Decide aid b) s (snd (bind_act (updateApproval aid ?st) (decide_followup aid b) s))"
    using upd rest by (rule advances_bind)
  with Some show ?thesis
    by (simp add: approval_decide_def bind_act_def [of "read_act _"])
qed

lemma findApproval_SomeD:
  assumes "findApproval tid tool dg eid s = Some t"
  shows "t \<in> set (db_approvals s) \<and> ap_taskId t = tid \<and> ap_tool t = tool \<and> ap_argsDigest t = dg
    \<and> ap_status t = AP_APPROVED \<and> in_epoch eid t"
  using find_SomeD [OF assms [unfolded findApproval_def]] by auto

lemma consume_advances:
  assumes "approval_inv s"
  shows "advances (Consume task tool args) s (snd (approval_consume digest task tool args s))"
proof (cases "findApproval (tc_taskId task) tool (digest args) (tc_activeEpochId task) s")
  case None
  with assms show ?thesis by (simp add: approval_consume_def act_unfold advances_def)
next
  case (Some t)
  then have t: "t \<in> set (db_approvals s)" "ap_status t = AP_APPROVED" by (auto dest: findApproval_SomeD)
  then have "find_ticket (ap_approvalId t) s = Some t"
    by (simp add: find_ticket_member approval_inv_keys [OF assms])
  from updateApproval_advances [OF assms this, of "Consume task tool args" AP_CONSUMED] t(2)
  have "advances (Consume task tool args) s (snd (updateApproval (ap_approvalId t) AP_CONSUMED s))"
    by (simp add: status_step.use)
  then have "advances (Consume task tool args) s
      (snd (bind_act (updateApproval (ap_approvalId t) AP_CONSUMED) (\<lambda>c. return_act (Some c)) s))"
    by (rule advances_bind) (intro obeys_intros)+
  with Some assms show ?thesis
    by (auto simp: approval_consume_def bind_act_def [of "read_act _"] advances_def)
qed

lemma request_advances:
  assumes "approval_inv s"
  shows "advances (Request task tool args summary) s
    (snd (approval_request digest task tool args summary s))"
proof -
  let ?q = "Request task tool args summary"
  let ?aid = "''APR'' @ ''-'' @ uuid_tape s (uuid_pos s)"
  let ?act = "''ACT'' @ ''-'' @ uuid_tape s (Suc (uuid_pos s))"
  let ?s1 = "s\<lparr>uuid_pos := Suc (Suc (uuid_pos s)), clock_pos := Suc (clock_pos s)\<rparr>"
  have inj: "inj (uuid_tape s)" using assms by (simp add: approval_inv_def)
  have put: "advances ?q s (snd (putApproval t ?s1))"
    if t: "ap_approvalId t = ?aid" "ap_actionId t = ?act" "ap_status t = AP_PENDING" for t
  proof (cases "has_key tc_taskId (ap_taskId t) (db_tasks s)")
    case False
    with assms show ?thesis
      by (auto simp: putApproval_eq intro!: advances_same simp: tapes_forward_def)
  next
    case True
    have new: "\<forall>r\<in>set (db_approvals s). ap_approvalId r \<noteq> ap_approvalId t \<and> ap_actionId r \<noteq> ap_actionId t"
      using assms inj t by (fastforce simp: approval_inv_def issued_def dest: injD)
    have "approval_inv (?s1\<lparr>db_approvals := db_approvals s @ [t]\<rparr>)"
      using assms new t by (fastforce simp: approval_inv_def issued_def)
    with True new t show ?thesis
      by (simp add: putApproval_eq retable_new advances_def table_step_append is_request_def)
  qed
  have tail: "advances ?q s (snd (seq_act (putApproval t) (bind_act (saveTask tk) (\<lambda>task'.
       seq_act (appendAudit a b c d) (return_act (t, task')))) ?s1))"
    if "ap_approvalId t = ?aid" "ap_actionId t = ?act" "ap_status t = AP_PENDING" for t tk a b c d
    unfolding seq_act_def [of "putApproval t"]
    using put [OF that] by (rule advances_bind) (intro obeys_intros)+
  show ?thesis
    using tail [simplified]
    by (auto simp: approval_request_def bind_act_def [of "read_act _"] advances_def assms
        create_id_def next_uuid_def now_def act_step_bind Let_def
        split: option.split)
qed

lemma open_tickets_rows:
  assumes "keys_ok (db_approvals s)"
  shows "distinct (open_tickets tid s)" "set (open_tickets tid s) \<subseteq> set (db_approvals s)"
    "t \<in> set (open_tickets tid s) \<Longrightarrow> ap_status t \<in> {AP_PENDING, AP_APPROVED}"
  using assms by (auto simp: open_tickets_def keys_ok_def distinct_map)

text \<open>Expiring some of the open tickets of a task, as the two loops do.\<close>

lemma expire_advances:
  assumes inv: "approval_inv s" and sub: "set ts \<subseteq> set (open_tickets tid s)" and "distinct ts"
    and run: "each_act expire_ticket ts s = (Inr u, s')"
    and step: "\<And>aid st. st \<in> {AP_PENDING, AP_APPROVED} \<Longrightarrow> status_step q aid st AP_EXPIRED"
  shows "advances q s s' \<and> set (db_approvals s') =
    (set (db_approvals s) - set ts) \<union> (\<lambda>t. t\<lparr>ap_status := AP_EXPIRED\<rparr>) ` set ts"
proof -
  note keys = approval_inv_keys [OF inv]
  from sub open_tickets_rows [where tid = tid, OF keys] have rows: "set ts \<subseteq> set (db_approvals s)"
    "\<And>t. t \<in> set ts \<Longrightarrow> ap_status t \<in> {AP_PENDING, AP_APPROVED}" by blast+
  from expire_tickets [OF keys assms(3) rows(1) run]
  have new: "keys_ok (db_approvals s')" "set (db_approvals s') =
      (set (db_approvals s) - set ts) \<union> (\<lambda>t. t\<lparr>ap_status := AP_EXPIRED\<rparr>) ` set ts" by auto
  have "obeys tapes_forward (each_act expire_ticket ts)" by (intro obeys_intros)
  with run have "tapes_forward s s'" by (rule obeysD [rotated])
  then have "approval_inv s'"
    by (rule approval_inv_keep [OF inv]) (use new rows(1) in auto)
  moreover have "table_step q (db_approvals s) (db_approvals s')"
    by (rule table_step_expired [OF new(2) _ step]) (use rows in auto)
  ultimately show ?thesis using new(2) by (simp add: advances_def)
qed

lemma requireTask_Inr: "requireTask tid s = (Inr t, s') \<longleftrightarrow> getTask tid s = Some t \<and> s' = s"
  by (auto simp: requireTask_def act_unfold split: option.splits)

lemma requireTask_state: "requireTask tid s = (r, s') \<Longrightarrow> s' = s"
  by (auto simp: requireTask_def act_unfold split: option.splits)

lemma createScanEpoch_Inr:
  assumes "approval_inv s" and "createScanEpoch e s = (Inr u, s')"
  shows "advances (Start_epoch e) s s' \<and> set (db_approvals s') =
    (\<lambda>t. if ap_taskId t = ep_taskId e \<and> ap_status t \<in> {AP_PENDING, AP_APPROVED}
           \<and> ap_epochId t \<noteq> Some (ep_epochId e) then t\<lparr>ap_status := AP_EXPIRED\<rparr> else t)
      ` set (db_approvals s)"
proof -
  let ?ts = "filter (\<lambda>t. ap_epochId t \<noteq> Some (ep_epochId e)) (open_tickets (ep_taskId e) s)"
  from assms(2) obtain s1 s2 task v where run: "each_act expire_ticket ?ts s = (Inr (), s1)"
    and ins: "insert_epoch e s1 = (Inr (), s2)"
    and save: "saveTask (task\<lparr>tc_activeEpochId := Some (ep_epochId e)\<rparr>) s2 = (Inr v, s')"
    by (auto simp: createScanEpoch_def act_simps requireTask_Inr each_act_filter)
  from expire_advances [OF assms(1) _ _ run, of "ep_taskId e" "Start_epoch e"]
    open_tickets_rows [OF approval_inv_keys [OF assms(1)]]
  have adv: "advances (Start_epoch e) s s1" and rows: "set (db_approvals s1) =
      (set (db_approvals s) - set ?ts) \<union> (\<lambda>t. t\<lparr>ap_status := AP_EXPIRED\<rparr>) ` set ?ts"
    by (auto simp: status_step.new_epoch)
  from advances_leaves [where m = "insert_epoch e", OF adv _ _ ins] have "advances (Start_epoch e) s s2"
    by (blast intro: obeys_intros)
  from advances_leaves [where m = "saveTask (task\<lparr>tc_activeEpochId := Some (ep_epochId e)\<rparr>)", OF this _ _ save] have "advances (Start_epoch e) s s'"
    by (blast intro: obeys_intros)
  moreover have "db_approvals s' = db_approvals s1"
    using obeys_sameD [OF insert_epoch_leaves(1) ins] obeys_sameD [OF saveTask_leaves(1) save] by simp
  ultimately show ?thesis using rows by (auto simp: open_tickets_def)
qed

lemma reconcile_task_Inr:
  assumes "approval_inv s" and "reconcile_task task s = (Inr v, s')"
  shows "advances Restart s s' \<and> set (db_approvals s') =
    (\<lambda>t. if ap_taskId t = tc_taskId task \<and> ap_status t \<in> {AP_PENDING, AP_APPROVED}
         then t\<lparr>ap_status := AP_EXPIRED\<rparr> else t) ` set (db_approvals s)"
proof -
  from assms(2) obtain s0 s1 s2 s3 w n au tk tid ev lv d where now: "now s = (Inr w, s0)"
    and save: "saveTask tk s0 = (Inr v, s1)"
    and run: "each_act expire_ticket (open_tickets (tc_taskId task) s1) s1 = (Inr (), s2)"
    and gr: "expirePendingGrantRequests (tc_taskId task) s2 = (Inr n, s3)"
    and aud: "appendAudit tid ev lv d s3 = (Inr au, s')"
    unfolding reconcile_task_def by (simp only: act_simps read_act_eq return_act_eq) auto
  have same: "tapes_forward s s1" "db_approvals s1 = db_approvals s"
    using now obeysD [OF saveTask_leaves(2) save] obeys_sameD [OF saveTask_leaves(1) save]
    by (auto simp: now_def tapes_forward_def)
  with assms(1) have inv1: "approval_inv s1" by (rule approval_inv_same)
  from expire_advances [OF inv1 subset_refl _ run, of Restart]
    open_tickets_rows [OF approval_inv_keys [OF inv1]]
  have adv: "advances Restart s1 s2" and rows: "set (db_approvals s2) =
      (set (db_approvals s1) - set (open_tickets (tc_taskId task) s1))
      \<union> (\<lambda>t. t\<lparr>ap_status := AP_EXPIRED\<rparr>) ` set (open_tickets (tc_taskId task) s1)"
    by (auto simp: status_step.restart)
  from adv same have "advances Restart s s2" by (simp add: advances_def)
  from advances_leaves [where m = "expirePendingGrantRequests (tc_taskId task)", OF this _ _ gr] have "advances Restart s s3" by (blast intro: obeys_intros)
  from advances_leaves [where m = "appendAudit tid ev lv d", OF this _ _ aud] have "advances Restart s s'" by (blast intro: obeys_intros)
  moreover have "db_approvals s' = db_approvals s2"
    using obeys_sameD [OF expirePendingGrantRequests_leaves(1) gr] obeys_sameD [OF appendAudit_leaves(1) aud]
    by simp
  ultimately show ?thesis using rows same(2) by (auto simp: open_tickets_def)
qed

lemma ticket_step_restart_trans:
  assumes "ticket_step Restart t u" and "ticket_step Restart u v"
  shows "ticket_step Restart t v"
proof -
  have "ap_status u = AP_EXPIRED \<or> u = t"
    using assms(1) by (cases "ap_status u = ap_status t") (simp_all add: ticket_step_def status_step_restart)
  moreover have "v = u" if "ap_status u = AP_EXPIRED"
    using assms(2) that by (simp add: ticket_step_def status_step_restart)
  ultimately show ?thesis using assms by blast
qed

lemma advances_restart_trans: "advances Restart s t \<Longrightarrow> advances Restart t u \<Longrightarrow> advances Restart s u"
  unfolding advances_def table_step_def is_request_def
  by (simp, meson ticket_step_restart_trans)

definition expire_for :: "id set \<Rightarrow> approval_ticket \<Rightarrow> approval_ticket" where
  "expire_for ids t = (if ap_taskId t \<in> ids \<and> ap_status t \<in> {AP_PENDING, AP_APPROVED}
     then t\<lparr>ap_status := AP_EXPIRED\<rparr> else t)"

lemma expire_for_twice: "expire_for ids (expire_for ids' t) = expire_for (ids' \<union> ids) t"
  by (auto simp: expire_for_def)

lemma reconcile_tasks_Inr:
  assumes "approval_inv s" and "map_act reconcile_task tasks s = (Inr vs, s')"
  shows "advances Restart s s' \<and> set (db_approvals s') = expire_for (tc_taskId ` set tasks) ` set (db_approvals s)"
  using assms
proof (induction tasks arbitrary: s vs)
  case Nil
  then show ?case by (simp add: advances_def expire_for_def)
next
  case (Cons task tasks)
  from Cons.prems(2) obtain v s1 vs' where one: "reconcile_task task s = (Inr v, s1)"
    and rest: "map_act reconcile_task tasks s1 = (Inr vs', s')"
    by (auto simp: act_simps)
  from reconcile_task_Inr [OF Cons.prems(1) one] have adv: "advances Restart s s1"
    and rows: "set (db_approvals s1) = expire_for {tc_taskId task} ` set (db_approvals s)"
    by (auto simp: expire_for_def)
  with Cons.IH [OF _ rest] have "advances Restart s1 s'"
    and "set (db_approvals s') = expire_for (tc_taskId ` set tasks) ` set (db_approvals s1)"
    by (auto simp: advances_def)
  with adv rows show ?case
    by (auto simp: image_image expire_for_twice intro: advances_restart_trans)
qed

definition interrupted :: "'a control_db_scheme \<Rightarrow> task_context list" where
  "interrupted s = filter (\<lambda>t. tc_status t \<in> set interrupted_statuses) (listTasks s)"

lemma set_interrupted:
  "set (interrupted s) = {t \<in> set (db_tasks s). tc_status t \<in> set interrupted_statuses}"
  by (auto simp: interrupted_def listTasks_def)

lemma reconcile_Inr_iff: "reconcileInterruptedTasks s = (Inr vs, s') \<longleftrightarrow>
    map_act reconcile_task (interrupted s) s = (Inr vs, s')"
  by (auto simp: reconcileInterruptedTasks_def interrupted_def act_simps)

lemma atomic_reconcile: "atomic reconcileInterruptedTasks"
  by (auto simp: atomic_def reconcileInterruptedTasks_def act_simps split: if_splits)

lemma atomic_createScanEpoch: "atomic (createScanEpoch e)"
  by (auto simp: atomic_def createScanEpoch_def act_simps requireTask_Inr dest: requireTask_state)

text \<open>Every request keeps the invariant and moves the table by a legal step.\<close>

theorem exec_advances:
  assumes "approval_inv s"
  shows "advances q s (snd (approval_exec digest q s))"
proof (cases q)
  case (Create_task t)
  have "obeys tapes_forward (seq_act (createTask t) (return_act None))"
    "obeys (same db_approvals) (seq_act (createTask t) (return_act None))"
    by (intro obeys_intros)+
  from leaves_advances [OF assms this] show ?thesis by (simp add: approval_exec_def Create_task)
next
  case (Save_task t)
  have "obeys tapes_forward (seq_act (saveTask t) (return_act None))"
    "obeys (same db_approvals) (seq_act (saveTask t) (return_act None))"
    by (intro obeys_intros)+
  from leaves_advances [OF assms this] show ?thesis by (simp add: approval_exec_def Save_task)
next
  case (Start_epoch e)
  have "advances (Start_epoch e) s (snd (createScanEpoch e s))"
    by (rule atomic_keeps [OF atomic_createScanEpoch])
      (use assms createScanEpoch_Inr [OF assms] in \<open>auto simp: advances_def\<close>)
  then show ?thesis by (simp add: approval_exec_def Start_epoch seq_act_def advances_bind obeys_intros)
next
  case (Request task tool args summary)
  have "advances (Request task tool args summary) s (snd (bind_act
      (approval_request digest task tool args summary) (\<lambda>(t, _). return_act (Some t)) s))"
    using request_advances [OF assms] by (rule advances_bind) (intro obeys_intros)+
  then show ?thesis by (simp add: approval_exec_def Request)
next
  case (Decide aid b)
  have "advances (Decide aid b) s (snd (bind_act (approval_decide aid b) (\<lambda>t. return_act (Some t)) s))"
    using decide_advances [OF assms] by (rule advances_bind) (intro obeys_intros)+
  then show ?thesis by (simp add: approval_exec_def Decide)
next
  case (Consume task tool args)
  then show ?thesis by (simp add: approval_exec_def consume_advances [OF assms])
next
  case Restart
  have "advances Restart s (snd (reconcileInterruptedTasks s))"
    by (rule atomic_keeps [OF atomic_reconcile])
      (use assms reconcile_tasks_Inr [OF assms] in \<open>auto simp: advances_def reconcile_Inr_iff\<close>)
  then show ?thesis by (simp add: approval_exec_def Restart seq_act_def advances_bind obeys_intros)
qed

section \<open>Tickets only move forward\<close>

definition final :: "approval_status \<Rightarrow> bool" where
  "final st \<longleftrightarrow> st \<in> {AP_DENIED, AP_CONSUMED, AP_EXPIRED}"

definition status_le :: "approval_status \<Rightarrow> approval_status \<Rightarrow> bool" where
  "status_le st st' \<longleftrightarrow> st' = st \<or> st = AP_PENDING \<or> (st = AP_APPROVED \<and> st' \<in> {AP_CONSUMED, AP_EXPIRED})"

definition ticket_le :: "approval_ticket \<Rightarrow> approval_ticket \<Rightarrow> bool" where
  "ticket_le t t' \<longleftrightarrow> same_ticket t t' \<and> status_le (ap_status t) (ap_status t')
     \<and> (final (ap_status t) \<longrightarrow> t' = t)"

definition ticket_progress :: "'a control_db_scheme \<Rightarrow> 'a control_db_scheme \<Rightarrow> bool" where
  "ticket_progress s s' \<longleftrightarrow> (\<forall>t\<in>set (db_approvals s). \<exists>t'\<in>set (db_approvals s'). ticket_le t t')"

lemma ticket_le_refl: "ticket_le t t"
  by (simp add: ticket_le_def same_ticket_def status_le_def)

lemma ticket_le_trans:
  assumes "ticket_le t u" and "ticket_le u v" shows "ticket_le t v"
proof (cases "final (ap_status t)")
  case True
  with assms show ?thesis by (metis ticket_le_def)
next
  case False
  with assms show ?thesis
    by (cases "ap_status t") (auto simp: ticket_le_def same_ticket_def status_le_def final_def)
qed

lemma ticket_step_le: "ticket_step q t t' \<Longrightarrow> ticket_le t t'"
proof (cases "ap_status t' = ap_status t")
  case False
  assume "ticket_step q t t'"
  then have "status_step q (ap_approvalId t) (ap_status t) (ap_status t')" and "same_ticket t t'"
    by (simp_all add: ticket_step_def)
  then show ?thesis
    using False by (cases rule: status_step.cases) (auto simp: ticket_le_def status_le_def final_def)
qed (simp add: ticket_step_def ticket_le_refl)

lemma advances_progress: "advances q s s' \<Longrightarrow> ticket_progress s s'"
  unfolding advances_def table_step_def ticket_progress_def by (blast intro: ticket_step_le)

interpretation tickets: monotone_system "approval_exec digest" "\<lambda>_. True" approval_inv ticket_progress
  for digest :: "js \<Rightarrow> string"
proof unfold_locales
  fix s t u :: "'a control_db_scheme" and q
  assume inv: "approval_inv s"
  show "approval_inv (snd (approval_exec digest q s))"
    using exec_advances [OF inv] by (simp add: advances_def)
  show "ticket_progress s (snd (approval_exec digest q s))"
    using exec_advances [OF inv] by (rule advances_progress)
next
  fix s t u :: "'a control_db_scheme"
  show "ticket_progress s s" by (auto simp: ticket_progress_def intro: ticket_le_refl)
  assume "ticket_progress s t" and "ticket_progress t u"
  then show "ticket_progress s u"
    unfolding ticket_progress_def by (meson ticket_le_trans)
qed

section \<open>Consumption\<close>

lemma consume_Some:
  assumes inv: "approval_inv s" and run: "approval_consume digest task tool args s = (Inr (Some t'), s')"
  shows "\<exists>t. findApproval (tc_taskId task) tool (digest args) (tc_activeEpochId task) s = Some t
    \<and> find_ticket (ap_approvalId t) s = Some t \<and> same_ticket t t' \<and> ap_status t' = AP_CONSUMED
    \<and> ap_targetFingerprint t = tg_hostFingerprint (tc_target task) \<and> ap_epochId t = tc_activeEpochId task
    \<and> t' \<in> set (db_approvals s')"
proof -
  from run obtain t where t: "findApproval (tc_taskId task) tool (digest args) (tc_activeEpochId task) s = Some t"
    "ap_targetFingerprint t = tg_hostFingerprint (tc_target task)" "ap_epochId t = tc_activeEpochId task"
    and upd: "updateApproval (ap_approvalId t) AP_CONSUMED s = (Inr t', s')"
    by (auto simp: approval_consume_def act_simps split: if_splits option.splits)
  from t(1) have "find_ticket (ap_approvalId t) s = Some t"
    by (auto dest!: findApproval_SomeD intro: find_ticket_member approval_inv_keys [OF inv])
  with upd t show ?thesis by (auto elim!: updateApproval_result simp: retable_def)
qed

text \<open>The tickets that may be consumed are those the analyst approved.\<close>

definition authorised :: "id set \<Rightarrow> 'a control_db_scheme \<Rightarrow> bool" where
  "authorised ids s \<longleftrightarrow> (\<forall>t\<in>set (db_approvals s).
     ap_status t \<in> {AP_APPROVED, AP_CONSUMED} \<longrightarrow> ap_approvalId t \<in> ids)"

lemma advances_authorised:
  assumes "advances q s s'" and "authorised ids s"
  shows "authorised (ids \<union> {aid. q = Decide aid True}) s'"
  unfolding authorised_def
proof (intro ballI impI)
  fix t' assume t': "t' \<in> set (db_approvals s')" and st: "ap_status t' \<in> {AP_APPROVED, AP_CONSUMED}"
  with assms(1) obtain t where t: "t \<in> set (db_approvals s)" "ticket_step q t t'"
    by (auto simp: advances_def table_step_def)
  then have id: "ap_approvalId t' = ap_approvalId t"
    and step: "status_step q (ap_approvalId t) (ap_status t) (ap_status t')"
    by (auto simp: ticket_step_def same_ticket_def)
  show "ap_approvalId t' \<in> ids \<union> {aid. q = Decide aid True}"
  proof (cases "ap_status t \<in> {AP_APPROVED, AP_CONSUMED}")
    case True
    with assms(2) t(1) id show ?thesis by (auto simp: authorised_def)
  next
    case False
    from step st False have "q = Decide (ap_approvalId t) True"
      by (cases rule: status_step.cases) auto
    with id show ?thesis by simp
  qed
qed

lemma run_authorised:
  assumes "approval_inv s" and "authorised ids s"
  shows "authorised (ids \<union> {aid. Decide aid True \<in> set qs}) (run_ops (approval_exec digest) qs s)"
  using assms
proof (induction qs arbitrary: s ids)
  case (Cons q qs)
  from exec_advances [OF Cons.prems(1)] have adv: "advances q s (snd (approval_exec digest q s))" .
  then have "approval_inv (snd (approval_exec digest q s))" by (simp add: advances_def)
  from Cons.IH [OF this advances_authorised [OF adv Cons.prems(2)]]
  have "authorised (ids \<union> {aid. q = Decide aid True} \<union> {aid. Decide aid True \<in> set qs})
      (run_ops (approval_exec digest) (q # qs) s)" by simp
  moreover have "ids \<union> {aid. q = Decide aid True} \<union> {aid. Decide aid True \<in> set qs}
      = ids \<union> {aid. Decide aid True \<in> set (q # qs)}" by auto
  ultimately show ?case by metis
qed simp

section \<open>The restart succeeds\<close>

definition audit_inv :: "'a control_db_scheme \<Rightarrow> bool" where
  "audit_inv s \<longleftrightarrow> inj (uuid_tape s) \<and> (\<forall>e\<in>set (db_audit s). au_eventId e \<in> issued ''ACT'' s)"

lemma audit_inv_fresh: "audit_inv s \<Longrightarrow>
    \<not> has_key au_eventId (''ACT'' @ ''-'' @ uuid_tape s (uuid_pos s)) (db_audit s)"
  using issued_fresh [of s "''ACT''"] by (auto simp: audit_inv_def has_key_iff)

lemma appendAudit_total: "audit_inv s \<Longrightarrow>
    \<exists>v. appendAudit tid ev lv d s = (Inr v, s\<lparr>uuid_pos := Suc (uuid_pos s),
      clock_pos := Suc (clock_pos s), db_audit := db_audit s @ [v]\<rparr>)
      \<and> au_eventId v = ''ACT'' @ ''-'' @ uuid_tape s (uuid_pos s)"
  using audit_inv_fresh [of s]
  by (simp add: appendAudit_def act_unfold create_id_def next_uuid_def now_def Let_def)

lemma issued_Suc: "issued p (s\<lparr>uuid_pos := Suc (uuid_pos s), clock_pos := c\<rparr>)
    = insert (p @ ''-'' @ uuid_tape s (uuid_pos s)) (issued p s)"
  by (auto simp: issued_def less_Suc_eq)

lemma keeps_audit_append [keeps_intros]: "keeps audit_inv (appendAudit tid ev lv d)"
proof (rule keepsI)
  fix s :: "'a control_db_scheme" assume inv: "audit_inv s"
  from appendAudit_total [OF inv, of tid ev lv d] obtain v where
    "snd (appendAudit tid ev lv d s) = s\<lparr>uuid_pos := Suc (uuid_pos s),
      clock_pos := Suc (clock_pos s), db_audit := db_audit s @ [v]\<rparr>"
    "au_eventId v = ''ACT'' @ ''-'' @ uuid_tape s (uuid_pos s)" by auto
  with inv show "audit_inv (snd (appendAudit tid ev lv d s))"
    by (auto simp: audit_inv_def issued_def less_Suc_eq)
qed

lemma audit_inv_later: "audit_inv s \<Longrightarrow> tapes_forward s s' \<Longrightarrow> db_audit s' = db_audit s \<Longrightarrow> audit_inv s'"
  using issued_mono [of s s' "''ACT''"] by (auto simp: audit_inv_def tapes_forward_def)

lemma keeps_audit_leaves:
  assumes "obeys tapes_forward m" and "obeys (same db_audit) m"
  shows "keeps audit_inv m"
  by (rule keepsI, rule audit_inv_later) (use assms in \<open>auto simp: obeys_def same_def\<close>)

lemma saveTask_audit [obeys_intros]: "obeys (same db_audit) (saveTask t)"
  by (auto simp: leaves_defs same_def intro!: obeys_intros same_now)

lemma expire_ticket_audit [obeys_intros]: "obeys (same db_audit) (expire_ticket t)"
  by (auto simp: leaves_defs same_def intro!: obeys_intros)

lemma expirePending_audit [obeys_intros]: "obeys (same db_audit) (expirePendingGrantRequests tid)"
  by (auto simp: leaves_defs same_def intro!: obeys_intros)

lemma now_audit [obeys_intros]: "obeys (same db_audit) now" "obeys (same db_tasks) now"
  by (auto intro: same_now)

lemma keeps_audit_reconcile_task: "keeps audit_inv (reconcile_task task)"
  unfolding reconcile_task_def
  by (intro keeps_intros keeps_audit_leaves obeys_intros)

definition has_task :: "id \<Rightarrow> 'a control_db_scheme \<Rightarrow> bool" where
  "has_task tid s = has_key tc_taskId tid (db_tasks s)"

lemma saveTask_eq: "saveTask t s = (let t' = t\<lparr>tc_updatedAt := clock_tape s (clock_pos s)\<rparr> in
    (Inr t', s\<lparr>clock_pos := Suc (clock_pos s),
       db_tasks := update_rows (\<lambda>r. tc_taskId r = tc_taskId t) (\<lambda>_. t') (db_tasks s)\<rparr>))"
  by (simp add: saveTask_def act_unfold now_def Let_def)

lemma has_key_saved: "has_key tc_taskId tid
    (update_rows (\<lambda>r. tc_taskId r = tc_taskId t) (\<lambda>_. t) rows) = has_key tc_taskId tid rows"
proof -
  have "map tc_taskId (update_rows (\<lambda>r. tc_taskId r = tc_taskId t) (\<lambda>_. t) rows) = map tc_taskId rows"
    by (rule update_rows_keys) simp
  then show ?thesis by (metis has_key_def set_map)
qed

lemma expire_all_total:
  assumes "\<forall>t\<in>set ts. has_task (ap_taskId t) s"
  shows "\<exists>s'. each_act expire_ticket ts s = (Inr (), s') \<and> db_tasks s' = db_tasks s"
  using assms
proof (induction ts arbitrary: s)
  case (Cons t ts)
  have "\<exists>s'. each_act expire_ticket ts (s\<lparr>db_approvals := x\<rparr>) = (Inr (), s') \<and> db_tasks s' = db_tasks s" for x
    using Cons.IH [of "s\<lparr>db_approvals := x\<rparr>"] Cons.prems by (simp add: has_task_def)
  moreover have "expire_ticket t s = (Inr (), s\<lparr>db_approvals := retable (t\<lparr>ap_status := AP_EXPIRED\<rparr>) (db_approvals s)\<rparr>)"
    using Cons.prems by (simp add: expire_ticket_eq has_task_def)
  ultimately show ?case by (simp add: act_step_seq)
qed simp

lemma expirePending_total: "\<exists>n s'. expirePendingGrantRequests tid s = (Inr n, s')"
proof -
  have all: "\<exists>s'. each_act (\<lambda>r. putGrantRequest (f r)) rows s = (Inr (), s')" for f :: "grant_request \<Rightarrow> grant_request" and rows
    by (induction rows arbitrary: s) (simp_all add: putGrantRequest_def seq_act_def bind_act_def)
  obtain s' where "each_act (\<lambda>r. putGrantRequest (r\<lparr>gq_status := GQ_EXPIRED\<rparr>))
      (filter (\<lambda>r. gq_taskId r = tid \<and> gq_status r = GQ_PENDING) (db_grant_requests s)) s = (Inr (), s')"
    using all by blast
  then show ?thesis by (simp add: expirePendingGrantRequests_def bind_act_def seq_act_def)
qed

lemma reconcile_task_total:
  assumes inv: "audit_inv s" and task: "has_task (tc_taskId task) s"
  shows "\<exists>v s'. reconcile_task task s = (Inr v, s') \<and> tc_status v = TS_ABORTED
    \<and> tc_taskId v = tc_taskId task
    \<and> db_tasks s' = update_rows (\<lambda>r. tc_taskId r = tc_taskId task) (\<lambda>_. v) (db_tasks s)"
proof -
  define s0 where "s0 = s\<lparr>clock_pos := Suc (clock_pos s)\<rparr>"
  define tk where "tk = task\<lparr>tc_status := TS_ABORTED, tc_interruption := Some
    \<lparr>ti_previousStatus = tc_status task, ti_detectedAt = clock_tape s (clock_pos s),
     ti_recoveryRequired = True\<rparr>\<rparr>"
  define v where "v = tk\<lparr>tc_updatedAt := clock_tape s0 (clock_pos s0)\<rparr>"
  define s1 where "s1 = s0\<lparr>clock_pos := Suc (clock_pos s0),
    db_tasks := update_rows (\<lambda>r. tc_taskId r = tc_taskId task) (\<lambda>_. v) (db_tasks s)\<rparr>"
  have save: "saveTask tk s0 = (Inr v, s1)"
    by (simp add: saveTask_eq s1_def v_def s0_def tk_def Let_def)
  have v: "tc_status v = TS_ABORTED" "tc_taskId v = tc_taskId task" by (simp_all add: v_def tk_def)
  have "has_key tc_taskId tid (db_tasks s1) = has_key tc_taskId tid (db_tasks s)" for tid
    using has_key_saved [of tid v "db_tasks s"] by (simp add: s1_def v)
  with task have "\<forall>t\<in>set (open_tickets (tc_taskId task) s1). has_task (ap_taskId t) s1"
    by (auto simp: open_tickets_def has_task_def)
  from expire_all_total [OF this] obtain s2 where
    exp: "each_act expire_ticket (open_tickets (tc_taskId task) s1) s1 = (Inr (), s2)"
    and t2: "db_tasks s2 = db_tasks s1" by blast
  obtain n s3 where gr: "expirePendingGrantRequests (tc_taskId task) s2 = (Inr n, s3)"
    using expirePending_total by blast
  have "audit_inv s1" using inv by (simp add: s1_def s0_def audit_inv_def issued_def)
  moreover have "keeps audit_inv (each_act expire_ticket ts)"
    "keeps audit_inv (expirePendingGrantRequests tid)" for ts tid
    by (intro keeps_audit_leaves obeys_intros)+
  ultimately have "audit_inv s3" using exp gr by (meson keepsD)
  from appendAudit_total [OF this] obtain au where
    aud: "appendAudit tid ev lv d s3 = (Inr (au tid ev lv d), s3\<lparr>uuid_pos := Suc (uuid_pos s3),
      clock_pos := Suc (clock_pos s3), db_audit := db_audit s3 @ [au tid ev lv d]\<rparr>)" for tid ev lv d
    by metis
  have "now s = (Inr (clock_tape s (clock_pos s)), s0)" by (simp add: now_def s0_def)
  moreover have "db_tasks s3 = db_tasks s1"
    using obeys_sameD [OF expirePendingGrantRequests_leaves(2) gr] t2 by simp
  ultimately show ?thesis using v
    by (simp add: reconcile_task_def bind_act_def seq_act_def save [unfolded tk_def] exp gr aud)
       (simp add: s1_def)
qed

lemma keeps_audit_reconcile_tasks: "keeps audit_inv (map_act reconcile_task tasks)"
  by (intro keeps_intros keeps_audit_reconcile_task)

lemma reconcile_tasks_total:
  assumes "audit_inv s" and "\<forall>t\<in>set tasks. has_task (tc_taskId t) s"
  shows "\<exists>vs s'. map_act reconcile_task tasks s = (Inr vs, s')
    \<and> (\<forall>r\<in>set (db_tasks s'). (tc_taskId r \<in> tc_taskId ` set tasks \<and> tc_status r = TS_ABORTED)
         \<or> (tc_taskId r \<notin> tc_taskId ` set tasks \<and> r \<in> set (db_tasks s)))"
  using assms
proof (induction tasks arbitrary: s)
  case (Cons task tasks)
  from Cons.prems(2) have "has_task (tc_taskId task) s" by simp
  from reconcile_task_total [OF Cons.prems(1) this] obtain v s1 where
    one: "reconcile_task task s = (Inr v, s1)" and v: "tc_status v = TS_ABORTED" "tc_taskId v = tc_taskId task"
    and tasks: "db_tasks s1 = update_rows (\<lambda>r. tc_taskId r = tc_taskId task) (\<lambda>_. v) (db_tasks s)"
    by blast
  have "audit_inv s1" using keepsD [OF keeps_audit_reconcile_task Cons.prems(1) one] .
  moreover have "\<forall>t\<in>set tasks. has_task (tc_taskId t) s1"
    using Cons.prems(2) has_key_saved [of _ v "db_tasks s"] by (simp add: has_task_def tasks v)
  ultimately obtain vs s' where rest: "map_act reconcile_task tasks s1 = (Inr vs, s')"
    and post: "\<forall>r\<in>set (db_tasks s'). (tc_taskId r \<in> tc_taskId ` set tasks \<and> tc_status r = TS_ABORTED)
         \<or> (tc_taskId r \<notin> tc_taskId ` set tasks \<and> r \<in> set (db_tasks s1))"
    using Cons.IH by blast
  have "map_act reconcile_task (task # tasks) s = (Inr (v # vs), s')"
    using one rest by (auto simp: act_simps)
  moreover have "\<forall>r\<in>set (db_tasks s1). (tc_taskId r = tc_taskId task \<and> tc_status r = TS_ABORTED)
         \<or> (tc_taskId r \<noteq> tc_taskId task \<and> r \<in> set (db_tasks s))"
    using v by (auto simp: tasks update_rows_set)
  ultimately show ?case using post by fastforce
qed simp

section \<open>A sample run\<close>

fun sample_digest :: "js \<Rightarrow> string" where
  "sample_digest (Str x) = x"
| "sample_digest _ = ''none''"

definition sample_task :: task_context where
  "sample_task = \<lparr>tc_taskId = ''T1'', tc_request = ''r'',
     tc_target = \<lparr>tg_host = ''h'', tg_port = 22, tg_username = ''u'', tg_hostFingerprint = ''FP'',
       tg_privateKeyPath = ''/k'', tg_knownHostsPath = ''/n''\<rparr>,
     tc_mode = REMEDIATE, tc_status = TS_RUNNING, tc_modelProvider = ''p'', tc_modelId = ''m'',
     tc_promptVersion = ''1'', tc_checks = [], tc_profile = None, tc_createdAt = ''t'',
     tc_updatedAt = ''t'', tc_archivedAt = None, tc_turnCount = 0, tc_toolCallCount = 0,
     tc_protocolVersion = Some 2, tc_activeEpochId = Some ''E1'', tc_interruption = None\<rparr>"

definition sample_epoch :: "id \<Rightarrow> scan_epoch" where
  "sample_epoch eid = \<lparr>ep_epochId = eid, ep_taskId = ''T1'', ep_targetFingerprint = ''FP'',
     ep_protocolVersion = 2, ep_manifestVersion = ''m'', ep_helperVersion = ''h'',
     ep_controllerCommit = None, ep_controllerTreeClean = None, ep_controllerCommitAtFinish = None,
     ep_controllerTreeCleanAtFinish = None, ep_helperSha256 = None, ep_reason = INITIAL,
     ep_status = EP_RUNNING, ep_startedAt = ''t'', ep_finishedAt = None\<rparr>"

text \<open>A task with an epoch and one ticket, which the analyst approves.\<close>

definition sample_requests :: "approval_op list" where
  "sample_requests = [Create_task sample_task, Start_epoch (sample_epoch ''E1''),
     Request sample_task ''quarantine_file'' (Str ''f'') ''s'', Decide ''APR-'' True]"

definition sample_approved :: control_db where
  "sample_approved = run_ops (approval_exec sample_digest) sample_requests empty_control"

lemma approval_inv_empty: "approval_inv empty_control" "db_approvals empty_control = []"
  "audit_inv empty_control"
  by (auto simp: approval_inv_def audit_inv_def empty_control_def inj_def)

lemma approval_inv_sample: "approval_inv sample_approved"
  unfolding sample_approved_def
  by (rule tickets.run_keeps) (simp_all add: list_all_iff approval_inv_empty)

definition consumed_sample :: "(err + approval_ticket option) \<times> control_db" where
  "consumed_sample = approval_consume sample_digest sample_task ''quarantine_file'' (Str ''f'') sample_approved"

definition sample_ticket :: approval_ticket where
  "sample_ticket = \<lparr>ap_approvalId = ''APR-'', ap_taskId = ''T1'', ap_epochId = Some ''E1'',
     ap_targetFingerprint = ''FP'', ap_tool = ''quarantine_file'', ap_argsDigest = ''f'',
     ap_actionId = ''ACT-x'', ap_actionSummary = ''s'', ap_status = AP_CONSUMED, ap_createdAt = ''t'',
     ap_decidedAt = Some ''tttt'', ap_consumedAt = Some ''ttttttt''\<rparr>"

lemma consumed_sample_run: "approval_consume sample_digest sample_task ''quarantine_file'' (Str ''f'') sample_approved
    = (Inr (Some sample_ticket), snd consumed_sample)"
proof -
  have "fst consumed_sample = Inr (Some sample_ticket)" by code_simp
  then show ?thesis unfolding consumed_sample_def by (rule act_result)
qed

section \<open>Properties\<close>



text \<open>
  C3. A ticket is good for one action: once \<open>consume\<close> has handed it out, no later \<open>consume\<close>,
  for any task, tool and arguments and after any further requests, hands it out again.
\<close>

theorem ticket_consumed_once:
  assumes "approval_inv s" and "approval_consume digest task tool args s = (Inr (Some t), s1)"
    and "s2 = run_ops (approval_exec digest) qs s1"
    and "approval_consume digest task' tool' args' s2 = (Inr (Some t'), s3)"
  shows "ap_approvalId t' \<noteq> ap_approvalId t"
proof -
  have inv1: "approval_inv s1"
    using consume_advances [OF assms(1), of task tool args digest] assms(2) by (simp add: advances_def)
  have t: "t \<in> set (db_approvals s1)" "ap_status t = AP_CONSUMED"
    using consume_Some [OF assms(1,2)] by auto
  have inv2: "approval_inv s2" and prog: "ticket_progress s1 s2"
    using tickets.run_keeps [of qs s1 digest] tickets.run_progress [of qs s1 digest] inv1 assms(3)
    by (simp_all add: list_all_iff)
  from prog t(1) obtain v where v: "v \<in> set (db_approvals s2)" "ticket_le t v"
    unfolding ticket_progress_def by blast
  from v(2) t(2) have "v = t" by (simp add: ticket_le_def final_def)
  with v have t2: "t \<in> set (db_approvals s2)" by simp
  from consume_Some [OF inv2 assms(4)] obtain u where
    "findApproval (tc_taskId task') tool' (digest args') (tc_activeEpochId task') s2 = Some u" "same_ticket u t'"
    by blast
  then have u: "u \<in> set (db_approvals s2)" "ap_status u = AP_APPROVED" "ap_approvalId t' = ap_approvalId u"
    by (auto simp: same_ticket_def dest: findApproval_SomeD)
  show ?thesis
  proof
    assume "ap_approvalId t' = ap_approvalId t"
    with u(3) keys_ok_eq [OF approval_inv_keys [OF inv2] t2 u(1)] have "t = u" by simp
    with u(2) t(2) show False by simp
  qed
qed

text \<open>A second ticket for the same action, requested and approved after the first was used.\<close>

definition sample_second :: "approval_op list" where
  "sample_second = [Request sample_task ''quarantine_file'' (Str ''f'') ''s'', Decide ''APR-xxxx'' True]"

definition second_consumed :: "(err + approval_ticket option) \<times> control_db" where
  "second_consumed = approval_consume sample_digest sample_task ''quarantine_file'' (Str ''f'')
     (run_ops (approval_exec sample_digest) sample_second (snd consumed_sample))"

theorem ticket_consumed_once_witness:
  "\<exists>t'. fst second_consumed = Inr (Some t') \<and> ap_approvalId t' \<noteq> ''APR-''"
proof -
  have "case fst second_consumed of Inr (Some t') \<Rightarrow> True | _ \<Rightarrow> False" by code_simp
  then obtain t' where "fst second_consumed = Inr (Some t')" by (auto split: sum.splits option.splits)
  then have "approval_consume sample_digest sample_task ''quarantine_file'' (Str ''f'')
      (run_ops (approval_exec sample_digest) sample_second (snd consumed_sample))
    = (Inr (Some t'), snd second_consumed)"
    unfolding second_consumed_def by (rule act_result)
  from ticket_consumed_once [OF approval_inv_sample consumed_sample_run refl this]
  have "ap_approvalId t' \<noteq> ap_approvalId sample_ticket" .
  with \<open>fst second_consumed = Inr (Some t')\<close> show ?thesis by (simp add: sample_ticket_def)
qed

text \<open>
  What \<open>consume\<close> hands out is bound to the call: the ticket carries the task, its active
  epoch, the fingerprint of its target, the tool and the digest of the arguments; it was
  approved until then and the store now holds it as consumed.
\<close>

theorem consumed_ticket_is_bound:
  assumes "approval_inv s" and "approval_consume digest task tool args s = (Inr (Some t), s')"
  shows "ap_taskId t = tc_taskId task \<and> ap_epochId t = tc_activeEpochId task
    \<and> ap_targetFingerprint t = tg_hostFingerprint (tc_target task) \<and> ap_tool t = tool
    \<and> ap_argsDigest t = digest args
    \<and> map_option ap_status (find_ticket (ap_approvalId t) s) = Some AP_APPROVED
    \<and> find_ticket (ap_approvalId t) s' = Some t \<and> ap_status t = AP_CONSUMED"
proof -
  from consume_Some [OF assms] obtain u where
    u: "findApproval (tc_taskId task) tool (digest args) (tc_activeEpochId task) s = Some u"
    "find_ticket (ap_approvalId u) s = Some u" "same_ticket u t" "ap_status t = AP_CONSUMED"
    "ap_targetFingerprint u = tg_hostFingerprint (tc_target task)" "ap_epochId u = tc_activeEpochId task"
    "t \<in> set (db_approvals s')" by blast
  have "approval_inv s'"
    using consume_advances [OF assms(1), of task tool args digest] assms(2) by (simp add: advances_def)
  then have "find_ticket (ap_approvalId t) s' = Some t"
    using u(7) by (simp add: approval_inv_keys find_ticket_member)
  with u findApproval_SomeD [OF u(1)] show ?thesis by (simp add: same_ticket_def)
qed

theorem consumed_ticket_is_bound_witness:
  "find_ticket ''APR-'' (snd consumed_sample) = Some sample_ticket
   \<and> ap_argsDigest sample_ticket = sample_digest (Str ''f'')"
  using consumed_ticket_is_bound [OF approval_inv_sample consumed_sample_run]
  by (simp add: sample_ticket_def)

text \<open>
  C4. Starting an epoch closes the tickets of the task's other epochs and no others: each open
  ticket of the task that is not bound to the new epoch is expired, every other row is kept.
\<close>

theorem createScanEpoch_expires_tickets:
  assumes "approval_inv s" and "createScanEpoch e s = (Inr u, s')"
  shows "set (db_approvals s') =
    (\<lambda>t. if ap_taskId t = ep_taskId e \<and> ap_status t \<in> {AP_PENDING, AP_APPROVED}
           \<and> ap_epochId t \<noteq> Some (ep_epochId e) then t\<lparr>ap_status := AP_EXPIRED\<rparr> else t)
      ` set (db_approvals s)"
  using createScanEpoch_Inr [OF assms] by blast

theorem createScanEpoch_expires_tickets_witness:
  "ap_status ` set (db_approvals (snd (createScanEpoch (sample_epoch ''E2'') sample_approved))) = {AP_EXPIRED}"
proof -
  let ?m = "createScanEpoch (sample_epoch ''E2'')"
  have "fst (?m sample_approved) = Inr ()" by code_simp
  then have "?m sample_approved = (Inr (), snd (?m sample_approved))" by (rule act_result)
  note rows = createScanEpoch_expires_tickets [OF approval_inv_sample this]
  have "map (\<lambda>t. (ap_taskId t, ap_status t, ap_epochId t)) (db_approvals sample_approved)
      = [(''T1'', AP_APPROVED, Some ''E1'')]" by code_simp
  then obtain t where "db_approvals sample_approved = [t]" "ap_taskId t = ''T1''"
    "ap_status t = AP_APPROVED" "ap_epochId t = Some ''E1''" by (auto simp: map_eq_Cons_conv)
  with rows show ?thesis by (simp add: sample_epoch_def)
qed

text \<open>
  The reconciliation at start succeeds and leaves no interrupted work behind: no task is
  running, waiting, recovering or reporting, the tasks that were are aborted, their open tickets
  are expired, and the tickets of every other task are untouched.
\<close>

theorem restart_closes_interrupted_tasks:
  assumes "approval_inv s" and "audit_inv s"
  shows "\<exists>vs s'. reconcileInterruptedTasks s = (Inr vs, s')
    \<and> (\<forall>r\<in>set (db_tasks s'). tc_status r \<notin> set interrupted_statuses)
    \<and> (\<forall>r\<in>set (db_tasks s'). tc_taskId r \<in> tc_taskId ` set (interrupted s) \<longrightarrow> tc_status r = TS_ABORTED)
    \<and> (\<forall>t\<in>set (db_approvals s'). ap_taskId t \<in> tc_taskId ` set (interrupted s) \<longrightarrow>
          ap_status t \<notin> {AP_PENDING, AP_APPROVED})
    \<and> (\<forall>t\<in>set (db_approvals s). ap_taskId t \<notin> tc_taskId ` set (interrupted s) \<longrightarrow>
          t \<in> set (db_approvals s'))"
proof -
  have "\<forall>t\<in>set (interrupted s). has_task (tc_taskId t) s"
    by (auto simp: set_interrupted has_task_def has_key_def)
  from reconcile_tasks_total [OF assms(2) this] obtain vs s' where
    run: "map_act reconcile_task (interrupted s) s = (Inr vs, s')"
    and tasks: "\<forall>r\<in>set (db_tasks s'). (tc_taskId r \<in> tc_taskId ` set (interrupted s) \<and> tc_status r = TS_ABORTED)
         \<or> (tc_taskId r \<notin> tc_taskId ` set (interrupted s) \<and> r \<in> set (db_tasks s))" by blast
  from reconcile_tasks_Inr [OF assms(1) run] have tickets:
    "set (db_approvals s') = expire_for (tc_taskId ` set (interrupted s)) ` set (db_approvals s)" by simp
  have "tc_status r \<notin> set interrupted_statuses" if "r \<in> set (db_tasks s')" for r
    using tasks that by (auto simp: set_interrupted interrupted_statuses_def)
  moreover have "ap_status t \<notin> {AP_PENDING, AP_APPROVED}"
    if "t \<in> set (db_approvals s')" "ap_taskId t \<in> tc_taskId ` set (interrupted s)" for t
    using that by (auto simp: tickets expire_for_def split: if_splits)
  moreover have "t \<in> set (db_approvals s')"
    if "t \<in> set (db_approvals s)" "ap_taskId t \<notin> tc_taskId ` set (interrupted s)" for t
    using that by (auto simp: tickets expire_for_def intro: image_eqI [where x = t])
  moreover have "reconcileInterruptedTasks s = (Inr vs, s')" using run by (simp add: reconcile_Inr_iff)
  ultimately show ?thesis using tasks by blast
qed

theorem restart_closes_interrupted_tasks_witness:
  "\<exists>vs s'. reconcileInterruptedTasks (empty_control\<lparr>db_tasks := [sample_task]\<rparr>) = (Inr vs, s')
     \<and> (\<forall>r\<in>set (db_tasks s'). tc_status r \<notin> set interrupted_statuses)"
proof -
  let ?s = "empty_control\<lparr>db_tasks := [sample_task]\<rparr>"
  have "approval_inv ?s" "audit_inv ?s"
    using approval_inv_empty by (auto simp: approval_inv_def audit_inv_def issued_def)
  from restart_closes_interrupted_tasks [OF this] show ?thesis by blast
qed

text \<open>
  A ticket of a paused task outlives a restart of the controller: the reconciliation does
  not look at paused tasks, so their open tickets stay as they are.
\<close>

theorem restart_keeps_paused_tickets:
  assumes "approval_inv s" and "reconcileInterruptedTasks s = (Inr vs, s')"
    and "t \<in> set (db_approvals s)"
    and "\<forall>r\<in>set (db_tasks s). tc_taskId r = ap_taskId t \<longrightarrow> tc_status r = TS_PAUSED"
  shows "t \<in> set (db_approvals s')"
proof -
  have run: "map_act reconcile_task (interrupted s) s = (Inr vs, s')" using assms(2) by (simp add: reconcile_Inr_iff)
  have "ap_taskId t \<notin> tc_taskId ` set (interrupted s)"
    using assms(4) by (auto simp: set_interrupted interrupted_statuses_def)
  with assms(3) reconcile_tasks_Inr [OF assms(1) run] show ?thesis
    by (auto simp: expire_for_def intro: image_eqI [where x = t])
qed

definition sample_paused :: control_db where
  "sample_paused = run_ops (approval_exec sample_digest)
     [Save_task (sample_task\<lparr>tc_status := TS_PAUSED\<rparr>)] sample_approved"

theorem restart_keeps_paused_tickets_witness:
  "fst (reconcileInterruptedTasks sample_paused) = Inr []
   \<and> ap_status ` set (db_approvals (snd (reconcileInterruptedTasks sample_paused))) \<supseteq> {AP_APPROVED}"
proof -
  have inv: "approval_inv sample_paused" unfolding sample_paused_def
    by (rule tickets.run_keeps) (simp_all add: list_all_iff approval_inv_sample)
  have run: "fst (reconcileInterruptedTasks sample_paused) = Inr []" by code_simp
  have "map (\<lambda>t. (ap_taskId t, ap_status t)) (db_approvals sample_paused) = [(''T1'', AP_APPROVED)]"
    by code_simp
  then obtain t where t: "t \<in> set (db_approvals sample_paused)" "ap_status t = AP_APPROVED"
    by (auto simp: map_eq_Cons_conv)
  have "map tc_status (db_tasks sample_paused) = [TS_PAUSED]" by code_simp
  then have "\<forall>r\<in>set (db_tasks sample_paused). tc_taskId r = ap_taskId t \<longrightarrow> tc_status r = TS_PAUSED"
    by (auto simp: map_eq_Cons_conv)
  moreover have "reconcileInterruptedTasks sample_paused = (Inr [], snd (reconcileInterruptedTasks sample_paused))"
    using run by (rule act_result)
  ultimately have "t \<in> set (db_approvals (snd (reconcileInterruptedTasks sample_paused)))"
    using restart_keeps_paused_tickets [OF inv _ t(1)] by blast
  with t(2) run
  show ?thesis by force
qed

end
