(* ===== verification/Records.thy ===== *)
theory Records
  imports Tasks
begin

text \<open>
  The remaining task records of \<open>RuntimeStore\<close>: tool runs, evidence, action receipts, the
  conversation, queued inputs, reports and known-hash data sets. A JSON payload is read back
  as it was written; \<open>digest\<close> is \<open>digestObject\<close>.
\<close>

section \<open>Tool runs\<close>

text \<open>\<open>if (row.x)\<close> of \<open>decodeToolRun\<close>: an empty text column is an absent property.\<close>

definition nonempty :: "string option \<Rightarrow> string option" where
  "nonempty v = (case v of Some x \<Rightarrow> if x = [] then None else Some x | None \<Rightarrow> None)"

definition getToolRun :: "id \<Rightarrow> 'a control_db_scheme \<Rightarrow> tool_run option" where
  "getToolRun cid s = List.find (\<lambda>r. tr_toolCallId r = cid) (db_tool_runs s)"

definition same_binding :: "(js \<Rightarrow> string) \<Rightarrow> tool_run \<Rightarrow> tool_run \<Rightarrow> bool" where
  "same_binding digest existing r \<longleftrightarrow> tr_taskId existing = tr_taskId r
     \<and> tr_epochId existing = tr_epochId r \<and> tr_toolName existing = tr_toolName r
     \<and> tr_risk existing = tr_risk r \<and> tr_replayPolicy existing = tr_replayPolicy r
     \<and> digest (tr_args existing) = digest (tr_args r)"

text \<open>The record passed in has no status, result and times yet; those of \<open>r\<close> are not read.\<close>

definition startToolRun :: "(js \<Rightarrow> string) \<Rightarrow> tool_run \<Rightarrow> ('a control_db_scheme, tool_run) act" where
  "startToolRun digest r = bind_act (read_act (getToolRun (tr_toolCallId r))) (\<lambda>existing.
     case existing of Some e \<Rightarrow>
       seq_act (require (same_binding digest e r) (Security_error RECOVERY_UNCERTAIN)) (return_act e)
     | None \<Rightarrow> bind_act now (\<lambda>t.
       let run = r\<lparr>tr_status := TR_STARTED, tr_result := Undefined, tr_error := None,
                   tr_startedAt := t, tr_finishedAt := None\<rparr> in
       bind_act (read_act db_tasks) (\<lambda>tasks.
       seq_act (require (has_key tc_taskId (tr_taskId r) tasks) Constraint_error)
      (seq_act (write_act (\<lambda>s. s\<lparr>db_tool_runs := db_tool_runs s
            @ [run\<lparr>tr_epochId := nonempty (tr_epochId r)\<rparr>]\<rparr>))
         (return_act run)))))"

definition finishToolRun ::
  "id \<Rightarrow> tool_run_status \<Rightarrow> js \<Rightarrow> string option \<Rightarrow> ('a control_db_scheme, unit) act" where
  "finishToolRun cid status result error = bind_act now (\<lambda>t.
     write_act (\<lambda>s. s\<lparr>db_tool_runs := update_rows (\<lambda>r. tr_toolCallId r = cid)
       (\<lambda>r. r\<lparr>tr_status := status, tr_result := result, tr_error := nonempty error,
             tr_finishedAt := Some t\<rparr>) (db_tool_runs s)\<rparr>))"

definition getToolRunForTask :: "id \<Rightarrow> id \<Rightarrow> 'a control_db_scheme \<Rightarrow> tool_run option" where
  "getToolRunForTask tid cid s = (case getToolRun cid s of
     Some r \<Rightarrow> if tr_taskId r = tid then Some r else None | None \<Rightarrow> None)"

definition getToolRunForScope :: "id \<Rightarrow> id \<Rightarrow> id \<Rightarrow> 'a control_db_scheme \<Rightarrow> tool_run option" where
  "getToolRunForScope tid eid cid s = (case getToolRun cid s of
     Some r \<Rightarrow> if tr_taskId r = tid \<and> tr_epochId r = Some eid then Some r else None | None \<Rightarrow> None)"

definition listIncompleteToolRuns :: "id \<Rightarrow> 'a control_db_scheme \<Rightarrow> tool_run list" where
  "listIncompleteToolRuns tid s = order_by tr_startedAt
     (filter (\<lambda>r. tr_taskId r = tid \<and> tr_status r = TR_STARTED) (db_tool_runs s))"

definition listToolRuns :: "id \<Rightarrow> nat \<Rightarrow> 'a control_db_scheme \<Rightarrow> tool_run list" where
  "listToolRuns tid limit s = rev (take limit (order_by_desc tr_startedAt
     (filter (\<lambda>r. tr_taskId r = tid) (db_tool_runs s))))"

section \<open>Evidence and receipts\<close>

definition putEvidence :: "evidence \<Rightarrow> ('a control_db_scheme, unit) act" where
  "putEvidence e = bind_act (read_act db_tasks) (\<lambda>tasks.
     seq_act (require (has_key tc_taskId (ev_taskId e) tasks) Constraint_error)
       (write_act (\<lambda>s. s\<lparr>db_evidence := replace_row ev_evidenceId e (db_evidence s)\<rparr>)))"

definition getEvidence :: "id \<Rightarrow> id \<Rightarrow> 'a control_db_scheme \<Rightarrow> evidence option" where
  "getEvidence tid eid s = List.find (\<lambda>e. ev_taskId e = tid \<and> ev_evidenceId e = eid) (db_evidence s)"

definition listEvidence :: "id \<Rightarrow> 'a control_db_scheme \<Rightarrow> evidence list" where
  "listEvidence tid s = order_by ev_collectedAt (filter (\<lambda>e. ev_taskId e = tid) (db_evidence s))"

definition putActionReceipt :: "action_receipt \<Rightarrow> ('a control_db_scheme, unit) act" where
  "putActionReceipt r = bind_act now (\<lambda>_. bind_act (read_act db_tasks) (\<lambda>tasks.
     seq_act (require (has_key tc_taskId (rc_taskId r) tasks) Constraint_error)
       (write_act (\<lambda>s. s\<lparr>db_receipts := replace_row rc_actionId r (db_receipts s)\<rparr>))))"

definition getActionReceipt :: "id \<Rightarrow> 'a control_db_scheme \<Rightarrow> action_receipt option" where
  "getActionReceipt aid s = List.find (\<lambda>r. rc_actionId r = aid) (db_receipts s)"

section \<open>Conversation and queued inputs\<close>

definition message_digest :: "(js \<Rightarrow> string) \<Rightarrow> id \<Rightarrow> id option \<Rightarrow> nat \<Rightarrow> js \<Rightarrow> string" where
  "message_digest digest tid eid seq message = digest (Obj [(''taskId'', Str tid),
     (''epochId'', js_id eid), (''seq'', js_count seq), (''message'', message)])"

text \<open>\<open>OR IGNORE\<close> skips a row whose id or \<open>(task_id, seq)\<close> is taken; the sequence number is returned anyway.\<close>

definition appendMessage ::
  "(js \<Rightarrow> string) \<Rightarrow> id \<Rightarrow> js \<Rightarrow> id option \<Rightarrow> ('a control_db_scheme, nat) act" where
  "appendMessage digest tid message eid =
     bind_act (read_act (\<lambda>s. Suc (changes (\<lambda>m. mg_taskId m = tid) (db_messages s)))) (\<lambda>seq.
     bind_act now (\<lambda>t.
     let row = \<lparr>mg_messageId = message_digest digest tid eid seq message, mg_taskId = tid,
                mg_epochId = eid, mg_seq = seq, mg_payload = message, mg_createdAt = t\<rparr> in
     bind_act (read_act (\<lambda>s. (db_messages s, db_tasks s))) (\<lambda>(rows, tasks).
     if has_key mg_messageId (mg_messageId row) rows
        \<or> has_key (\<lambda>m. (mg_taskId m, mg_seq m)) (tid, seq) rows then return_act seq
     else seq_act (require (has_key tc_taskId tid tasks) Constraint_error)
         (seq_act (write_act (\<lambda>s. s\<lparr>db_messages := db_messages s @ [row]\<rparr>)) (return_act seq)))))"

definition loadMessages :: "id \<Rightarrow> id option \<Rightarrow> 'a control_db_scheme \<Rightarrow> js list" where
  "loadMessages tid eid s = map mg_payload (order_by mg_seq (filter (\<lambda>m. mg_taskId m = tid
     \<and> (case eid of None \<Rightarrow> True | Some e \<Rightarrow> mg_epochId m = Some e)) (db_messages s)))"

definition enqueueInput :: "id \<Rightarrow> js \<Rightarrow> id option \<Rightarrow> ('a control_db_scheme, id) act" where
  "enqueueInput tid message eid = bind_act (create_id ''ACT'') (\<lambda>iid. bind_act now (\<lambda>t.
     bind_act (read_act (\<lambda>s. (db_inputs s, db_tasks s))) (\<lambda>(rows, tasks).
     seq_act (require (\<not> has_key qi_inputId iid rows \<and> has_key tc_taskId tid tasks) Constraint_error)
    (seq_act (write_act (\<lambda>s. s\<lparr>db_inputs := db_inputs s @ [\<lparr>qi_inputId = iid, qi_taskId = tid,
         qi_epochId = eid, qi_status = QI_PENDING, qi_payload = message, qi_createdAt = t,
         qi_deliveredAt = None\<rparr>]\<rparr>)) (return_act iid)))))"

definition listPendingInputs :: "id \<Rightarrow> id option \<Rightarrow> 'a control_db_scheme \<Rightarrow> (id \<times> js) list" where
  "listPendingInputs tid eid s = map (\<lambda>r. (qi_inputId r, qi_payload r)) (order_by qi_createdAt
     (filter (\<lambda>r. qi_taskId r = tid \<and> qi_status r = QI_PENDING
        \<and> (case eid of None \<Rightarrow> True | Some e \<Rightarrow> qi_epochId r = Some e)) (db_inputs s)))"

definition markInputDelivered :: "id \<Rightarrow> ('a control_db_scheme, unit) act" where
  "markInputDelivered iid = bind_act now (\<lambda>t. write_act (\<lambda>s. s\<lparr>db_inputs :=
     update_rows (\<lambda>r. qi_inputId r = iid) (\<lambda>r. r\<lparr>qi_status := QI_DELIVERED, qi_deliveredAt := Some t\<rparr>)
       (db_inputs s)\<rparr>))"

section \<open>Reports and data sets\<close>

definition putReport :: "report_record \<Rightarrow> ('a control_db_scheme, unit) act" where
  "putReport r = bind_act (read_act (\<lambda>s. (db_reports s, db_tasks s))) (\<lambda>(rows, tasks).
     seq_act (require (\<not> has_key rp_reportId (rp_reportId r) rows
         \<and> \<not> has_key (\<lambda>x. (rp_taskId x, rp_version x)) (rp_taskId r, rp_version r) rows
         \<and> has_key tc_taskId (rp_taskId r) tasks) Constraint_error)
       (write_act (\<lambda>s. s\<lparr>db_reports := db_reports s @ [r]\<rparr>)))"

definition listReports :: "id \<Rightarrow> 'a control_db_scheme \<Rightarrow> report_record list" where
  "listReports tid s = order_by rp_version (filter (\<lambda>r. rp_taskId r = tid) (db_reports s))"

definition latestReport :: "id \<Rightarrow> 'a control_db_scheme \<Rightarrow> report_record option" where
  "latestReport tid s = (case order_by_desc rp_version (filter (\<lambda>r. rp_taskId r = tid) (db_reports s))
     of [] \<Rightarrow> None | r # _ \<Rightarrow> Some r)"

definition find_data_set :: "string \<Rightarrow> string \<Rightarrow> 'a control_db_scheme \<Rightarrow> known_hash_data_set option" where
  "find_data_set name version s =
     List.find (\<lambda>d. kd_name d = name \<and> kd_version d = version) (db_datasets s)"

definition putKnownHashDataSet ::
  "known_hash_data_set \<Rightarrow> ('a control_db_scheme, known_hash_data_set) act" where
  "putKnownHashDataSet v = bind_act (read_act (find_data_set (kd_name v) (kd_version v))) (\<lambda>byVersion.
     case byVersion of Some existing \<Rightarrow>
       seq_act (require (kd_digest existing = kd_digest v) Invalid_argument) (return_act existing)
     | None \<Rightarrow>
       bind_act (read_act (\<lambda>s. List.find (\<lambda>d. kd_digest d = kd_digest v) (db_datasets s))) (\<lambda>byDigest.
       case byDigest of Some d \<Rightarrow> return_act d
       | None \<Rightarrow> bind_act (read_act db_datasets) (\<lambda>rows.
           seq_act (require (\<not> has_key kd_dataSetRef (kd_dataSetRef v) rows) Constraint_error)
          (seq_act (write_act (\<lambda>s. s\<lparr>db_datasets := db_datasets s @ [v]\<rparr>)) (return_act v)))))"

definition getKnownHashDataSet :: "id \<Rightarrow> 'a control_db_scheme \<Rightarrow> known_hash_data_set option" where
  "getKnownHashDataSet ref s = List.find (\<lambda>d. kd_dataSetRef d = ref) (db_datasets s)"

section \<open>A tool call id keeps its binding\<close>

datatype tool_op =
    Start_run tool_run
  | Finish_run id tool_run_status js "string option"

definition tool_exec :: "(js \<Rightarrow> string) \<Rightarrow> tool_op \<Rightarrow> ('a control_db_scheme, tool_run option) act" where
  "tool_exec digest q = (case q of
     Start_run r \<Rightarrow> bind_act (startToolRun digest r) (\<lambda>x. return_act (Some x))
   | Finish_run cid st res e \<Rightarrow> seq_act (finishToolRun cid st res e) (return_act None))"

definition tools_inv :: "'a control_db_scheme \<Rightarrow> bool" where
  "tools_inv s \<longleftrightarrow> distinct (map tr_toolCallId (db_tool_runs s))
     \<and> (\<forall>r\<in>set (db_tool_runs s). tr_epochId r \<noteq> Some [])"

definition same_call :: "tool_run \<Rightarrow> tool_run \<Rightarrow> bool" where
  "same_call r r' \<longleftrightarrow> tr_toolCallId r' = tr_toolCallId r \<and> tr_taskId r' = tr_taskId r
     \<and> tr_epochId r' = tr_epochId r \<and> tr_toolName r' = tr_toolName r \<and> tr_risk r' = tr_risk r
     \<and> tr_replayPolicy r' = tr_replayPolicy r \<and> tr_args r' = tr_args r"

definition tools_progress :: "'a control_db_scheme \<Rightarrow> 'a control_db_scheme \<Rightarrow> bool" where
  "tools_progress s s' \<longleftrightarrow> (\<forall>r\<in>set (db_tool_runs s). \<exists>r'\<in>set (db_tool_runs s'). same_call r r')"

lemma startToolRun_eq: "startToolRun digest r s = (case getToolRun (tr_toolCallId r) s of
    Some e \<Rightarrow> if same_binding digest e r then (Inr e, s) else (Inl (Security_error RECOVERY_UNCERTAIN), s)
  | None \<Rightarrow> let t = clock_tape s (clock_pos s);
        run = r\<lparr>tr_status := TR_STARTED, tr_result := Undefined, tr_error := None,
                tr_startedAt := t, tr_finishedAt := None\<rparr>;
        s1 = s\<lparr>clock_pos := Suc (clock_pos s)\<rparr> in
      if has_key tc_taskId (tr_taskId r) (db_tasks s)
      then (Inr run, s1\<lparr>db_tool_runs := db_tool_runs s @ [run\<lparr>tr_epochId := nonempty (tr_epochId r)\<rparr>]\<rparr>)
      else (Inl Constraint_error, s1))"
  by (simp add: startToolRun_def act_unfold now_def Let_def split: option.split)

lemma finishToolRun_eq: "finishToolRun cid st res e s = (Inr (), s\<lparr>clock_pos := Suc (clock_pos s),
    db_tool_runs := update_rows (\<lambda>r. tr_toolCallId r = cid) (\<lambda>r. r\<lparr>tr_status := st, tr_result := res,
      tr_error := nonempty e, tr_finishedAt := Some (clock_tape s (clock_pos s))\<rparr>) (db_tool_runs s)\<rparr>)"
  by (simp add: finishToolRun_def act_unfold now_def)

lemma getToolRun_SomeD: "getToolRun cid s = Some r \<Longrightarrow> r \<in> set (db_tool_runs s) \<and> tr_toolCallId r = cid"
  by (auto simp: getToolRun_def dest: find_SomeD)

lemma getToolRun_member:
  "tools_inv s \<Longrightarrow> r \<in> set (db_tool_runs s) \<Longrightarrow> getToolRun (tr_toolCallId r) s = Some r"
  by (simp add: tools_inv_def getToolRun_def find_unique)

lemma nonempty_not_empty [simp]: "nonempty v \<noteq> Some []"
  by (cases v) (simp_all add: nonempty_def)

lemma tool_step:
  assumes "tools_inv s"
  shows "tools_inv (snd (tool_exec digest q s)) \<and> tools_progress s (snd (tool_exec digest q s))"
proof (cases q)
  case (Start_run r)
  have refl: "tools_progress s s'" if "set (db_tool_runs s) \<subseteq> set (db_tool_runs s')" for s'
    using that by (auto simp: tools_progress_def same_call_def)
  show ?thesis
  proof (cases "getToolRun (tr_toolCallId r) s")
    case None
    then have "\<forall>x\<in>set (db_tool_runs s). tr_toolCallId x \<noteq> tr_toolCallId r"
      by (simp add: getToolRun_def find_None_iff')
    with assms Start_run None show ?thesis
      by (auto simp: tool_exec_def bind_act_def startToolRun_eq Let_def tools_inv_def intro!: refl)
  next
    case (Some e)
    with assms Start_run show ?thesis
      by (auto simp: tool_exec_def bind_act_def startToolRun_eq intro!: refl)
  qed
next
  case (Finish_run cid st res e)
  let ?f = "\<lambda>r. r\<lparr>tr_status := st, tr_result := res, tr_error := nonempty e,
    tr_finishedAt := Some (clock_tape s (clock_pos s))\<rparr>"
  have rows: "db_tool_runs (snd (tool_exec digest q s)) = update_rows (\<lambda>r. tr_toolCallId r = cid) ?f (db_tool_runs s)"
    by (simp add: Finish_run tool_exec_def seq_act_def bind_act_def finishToolRun_eq)
  have "map tr_toolCallId (update_rows (\<lambda>r. tr_toolCallId r = cid) ?f (db_tool_runs s))
      = map tr_toolCallId (db_tool_runs s)"
    by (rule update_rows_keys) simp
  moreover have "same_call r (if tr_toolCallId r = cid then ?f r else r)" for r
    by (simp add: same_call_def)
  then have "tools_progress s (snd (tool_exec digest q s))"
    unfolding tools_progress_def rows by (blast intro: update_rows_related)
  ultimately show ?thesis using assms unfolding tools_inv_def rows
    by (auto simp: update_rows_set)
qed

interpretation calls: monotone_system "tool_exec digest" "\<lambda>_. True" tools_inv tools_progress
  for digest :: "js \<Rightarrow> string"
proof unfold_locales
  fix s t u :: "'a control_db_scheme"
  show "tools_progress s s" by (auto simp: tools_progress_def same_call_def)
  assume "tools_progress s t" and "tools_progress t u"
  then show "tools_progress s u" by (fastforce simp: tools_progress_def same_call_def)
qed (simp_all add: tool_step)

lemma startToolRun_stored:
  assumes "tools_inv s" and "startToolRun digest r s = (Inr run, s')"
  shows "\<exists>x\<in>set (db_tool_runs s'). tr_toolCallId x = tr_toolCallId r \<and> tr_taskId x = tr_taskId r
    \<and> tr_epochId x = nonempty (tr_epochId r) \<and> tr_toolName x = tr_toolName r \<and> tr_risk x = tr_risk r
    \<and> tr_replayPolicy x = tr_replayPolicy r \<and> digest (tr_args x) = digest (tr_args r)"
proof (cases "getToolRun (tr_toolCallId r) s")
  case None
  with assms(2) show ?thesis by (auto simp: startToolRun_eq Let_def split: if_splits)
next
  case (Some e)
  then have e: "e \<in> set (db_tool_runs s)" "tr_toolCallId e = tr_toolCallId r"
    by (auto dest: getToolRun_SomeD)
  from Some assms(2) have "same_binding digest e r" "s' = s" by (auto simp: startToolRun_eq split: if_splits)
  moreover have "tr_epochId e \<noteq> Some []" using assms(1) e(1) by (simp add: tools_inv_def)
  ultimately show ?thesis using e
    by (auto simp: same_binding_def nonempty_def split: option.splits)
qed

text \<open>
  C5. A tool call id is good for one call: once a run was started under it, then whatever runs
  were started and finished since, a start that the store accepts under the same id has the
  same task, epoch, tool, risk class, replay policy and argument digest; and reading it back by
  task and epoch yields a record of that task and epoch only.
\<close>

theorem tool_call_id_is_bound:
  assumes "tools_inv s" and "startToolRun digest r s = (Inr run, s1)"
    and "s2 = run_ops (tool_exec digest) qs s1"
    and "startToolRun digest r' s2 = (Inr run', s3)" and "tr_toolCallId r' = tr_toolCallId r"
  shows "tr_taskId r' = tr_taskId r \<and> tr_epochId r' = nonempty (tr_epochId r)
    \<and> tr_toolName r' = tr_toolName r \<and> tr_risk r' = tr_risk r
    \<and> tr_replayPolicy r' = tr_replayPolicy r \<and> digest (tr_args r') = digest (tr_args r)
    \<and> (getToolRunForScope tid eid (tr_toolCallId r) s2 \<noteq> None \<longrightarrow>
        tid = tr_taskId r \<and> Some eid = tr_epochId r)"
proof -
  have "tools_inv (snd (tool_exec digest (Start_run r) s))" using tool_step [OF assms(1)] by blast
  then have inv1: "tools_inv s1" by (simp add: tool_exec_def bind_act_def assms(2))
  from assms(3) have inv2: "tools_inv s2" and prog: "tools_progress s1 s2"
    using calls.run_keeps [of qs s1 digest] calls.run_progress [of qs s1 digest] inv1
    by (simp_all add: list_all_iff)
  obtain x where x: "x \<in> set (db_tool_runs s1)" "tr_toolCallId x = tr_toolCallId r"
    "tr_taskId x = tr_taskId r" "tr_epochId x = nonempty (tr_epochId r)" "tr_toolName x = tr_toolName r"
    "tr_risk x = tr_risk r" "tr_replayPolicy x = tr_replayPolicy r" "digest (tr_args x) = digest (tr_args r)"
    using startToolRun_stored [OF assms(1,2)] by blast
  with prog obtain y where y: "y \<in> set (db_tool_runs s2)" "same_call x y"
    unfolding tools_progress_def by blast
  with x(2) inv2 have "getToolRun (tr_toolCallId r) s2 = Some y"
    by (auto simp: same_call_def dest: getToolRun_member)
  with assms(4,5) x y(2) show ?thesis
    by (auto simp: startToolRun_eq same_binding_def same_call_def getToolRunForScope_def nonempty_def
        split: if_splits option.splits)
qed

definition sample_run :: tool_run where
  "sample_run = \<lparr>tr_toolCallId = ''c1'', tr_taskId = ''T1'', tr_epochId = Some ''E1'',
     tr_toolName = ''enumerate'', tr_risk = ''READ'', tr_replayPolicy = ''SAFE_REOBSERVE'',
     tr_args = Str ''a'', tr_status = TR_STARTED, tr_result = Undefined, tr_error = None,
     tr_startedAt = [], tr_finishedAt = None\<rparr>"

definition sample_task_row :: task_context where
  "sample_task_row = \<lparr>tc_taskId = ''T1'', tc_request = ''r'',
     tc_target = \<lparr>tg_host = ''h'', tg_port = 22, tg_username = ''u'', tg_hostFingerprint = ''FP'',
       tg_privateKeyPath = ''/k'', tg_knownHostsPath = ''/n''\<rparr>,
     tc_mode = SCAN, tc_status = TS_RUNNING, tc_modelProvider = ''p'', tc_modelId = ''m'',
     tc_promptVersion = ''1'', tc_checks = [], tc_profile = None, tc_createdAt = ''t'',
     tc_updatedAt = ''t'', tc_archivedAt = None, tc_turnCount = 0, tc_toolCallCount = 0,
     tc_protocolVersion = Some 2, tc_activeEpochId = Some ''E1'', tc_interruption = None\<rparr>"

definition tool_sample :: control_db where
  "tool_sample = empty_control\<lparr>db_tasks := [sample_task_row]\<rparr>"

fun args_digest :: "js \<Rightarrow> string" where
  "args_digest (Str x) = x"
| "args_digest _ = ''none''"

definition tool_sample_run :: control_db where
  "tool_sample_run = snd (startToolRun args_digest sample_run tool_sample)"

definition tool_sample_done :: control_db where
  "tool_sample_done = run_ops (tool_exec args_digest)
     [Finish_run ''c1'' TR_SUCCEEDED (Num (Fin 1)) None] tool_sample_run"

theorem tool_call_id_is_bound_witness:
  "getToolRunForScope ''T2'' ''E1'' ''c1'' tool_sample_done = None
   \<and> map_option tr_status (getToolRunForScope ''T1'' ''E1'' ''c1'' tool_sample_done) = Some TR_SUCCEEDED"
proof -
  let ?m = "startToolRun args_digest sample_run"
  have inv: "tools_inv tool_sample" by (simp add: tools_inv_def tool_sample_def empty_control_def)
  have "fst (?m tool_sample) = Inr sample_run" by code_simp
  then have one: "?m tool_sample = (Inr sample_run, tool_sample_run)"
    unfolding tool_sample_run_def by (rule act_result)
  have status: "map_option tr_status (getToolRunForScope ''T1'' ''E1'' ''c1'' tool_sample_done) = Some TR_SUCCEEDED"
    by code_simp
  have "case fst (?m tool_sample_done) of Inr x \<Rightarrow> True | _ \<Rightarrow> False" by code_simp
  then obtain x where "fst (?m tool_sample_done) = Inr x" by (auto split: sum.splits)
  then have two: "?m tool_sample_done = (Inr x, snd (?m tool_sample_done))" by (rule act_result)
  have "getToolRunForScope ''T2'' ''E1'' (tr_toolCallId sample_run) tool_sample_done \<noteq> None \<longrightarrow>
      ''T2'' = tr_taskId sample_run \<and> Some ''E1'' = tr_epochId sample_run"
    using tool_call_id_is_bound [OF inv one tool_sample_done_def two refl] by blast
  then have "getToolRunForScope ''T2'' ''E1'' ''c1'' tool_sample_done = None"
    by (simp add: sample_run_def)
  with status show ?thesis by blast
qed

section \<open>The conversation has no gaps\<close>

definition messages_ok :: "'a control_db_scheme \<Rightarrow> bool" where
  "messages_ok s \<longleftrightarrow> (\<forall>tid. let ms = filter (\<lambda>m. mg_taskId m = tid) (db_messages s)
     in map mg_seq ms = [1..<Suc (length ms)])"

lemma order_by_sorted: "sorted (map f xs) \<Longrightarrow> order_by f xs = xs"
  by (simp add: order_by_def sorted_sort_id sort_key_id_if_sorted)

lemma messages_in_order:
  assumes "messages_ok s"
  shows "loadMessages tid None s = map mg_payload (filter (\<lambda>m. mg_taskId m = tid) (db_messages s))"
proof -
  let ?ms = "filter (\<lambda>m. mg_taskId m = tid) (db_messages s)"
  have "map mg_seq ?ms = [1..<Suc (length ?ms)]" using assms by (simp add: messages_ok_def Let_def)
  then have "sorted (map mg_seq ?ms)" by (metis sorted_upt)
  then show ?thesis by (simp add: loadMessages_def order_by_sorted)
qed

text \<open>
  The conversation of a task is numbered 1, 2, 3, ... without a gap: a message for a known
  task whose id is new is stored under the next number and read back last, after all earlier
  messages in their order, and the other tasks' conversations do not change.
\<close>

theorem appendMessage_extends_conversation:
  assumes "messages_ok s" and "has_key tc_taskId tid (db_tasks s)"
    and "n = changes (\<lambda>m. mg_taskId m = tid) (db_messages s)"
    and "\<not> has_key mg_messageId (message_digest digest tid eid (Suc n) msg) (db_messages s)"
  shows "\<exists>s'. appendMessage digest tid msg eid s = (Inr (Suc n), s') \<and> messages_ok s'
    \<and> loadMessages tid None s' = loadMessages tid None s @ [msg]
    \<and> (\<forall>tid'. tid' \<noteq> tid \<longrightarrow> loadMessages tid' None s' = loadMessages tid' None s)"
proof -
  let ?ms = "\<lambda>t. filter (\<lambda>m. mg_taskId m = t) (db_messages s)"
  define row where "row = \<lparr>mg_messageId = message_digest digest tid eid (Suc n) msg, mg_taskId = tid,
    mg_epochId = eid, mg_seq = Suc n, mg_payload = msg, mg_createdAt = clock_tape s (clock_pos s)\<rparr>"
  define s' where "s' = s\<lparr>clock_pos := Suc (clock_pos s), db_messages := db_messages s @ [row]\<rparr>"
  have seqs: "map mg_seq (?ms t) = [1..<Suc (length (?ms t))]" for t
    using assms(1) by (simp add: messages_ok_def Let_def)
  have n: "n = length (?ms tid)" using assms(3) by (simp add: changes_def)
  have "mg_seq m \<le> n" if "m \<in> set (?ms tid)" for m
  proof -
    from that have "mg_seq m \<in> set (map mg_seq (?ms tid))" by simp
    then show ?thesis unfolding seqs n by auto
  qed
  then have new: "\<not> has_key (\<lambda>m. (mg_taskId m, mg_seq m)) (tid, Suc n) (db_messages s)"
    by (fastforce simp: has_key_def)
  have run: "appendMessage digest tid msg eid s = (Inr (Suc n), s')"
    using assms(2,4) new
    by (simp add: appendMessage_def act_unfold now_def Let_def assms(3) [symmetric] row_def s'_def)
  have "messages_ok s'"
    using seqs by (auto simp: messages_ok_def s'_def row_def Let_def n)
  with run assms(1) show ?thesis
    by (auto simp: messages_in_order s'_def row_def)
qed

definition message_sample :: control_db where
  "message_sample = tool_sample\<lparr>db_messages := [\<lparr>mg_messageId = ''m1'', mg_taskId = ''T1'',
     mg_epochId = None, mg_seq = 1, mg_payload = Str ''a'', mg_createdAt = ''t''\<rparr>]\<rparr>"

theorem appendMessage_extends_conversation_witness:
  "\<exists>s'. appendMessage args_digest ''T1'' (Str ''b'') None message_sample = (Inr 2, s')
     \<and> loadMessages ''T1'' None s' = [Str ''a'', Str ''b'']"
proof -
  have ok: "messages_ok message_sample" by (simp add: messages_ok_def message_sample_def Let_def)
  have task: "has_key tc_taskId ''T1'' (db_tasks message_sample)"
    by (simp add: message_sample_def tool_sample_def sample_task_row_def has_key_def)
  have one: "1 = changes (\<lambda>m. mg_taskId m = ''T1'') (db_messages message_sample)"
    by (simp add: changes_def message_sample_def)
  have new: "\<not> has_key mg_messageId (message_digest args_digest ''T1'' None (Suc 1) (Str ''b'')) (db_messages message_sample)"
    by (simp add: has_key_def message_sample_def message_digest_def)
  have start: "loadMessages ''T1'' None message_sample = [Str ''a'']" by code_simp
  from appendMessage_extends_conversation [OF ok task one new] start show ?thesis
    by (auto simp: numeral_2_eq_2)
qed

end
