(* ===== verification/FactStore.thy ===== *)
theory FactStore
  imports Records
begin

text \<open>
  The fact side of \<open>RuntimeStore\<close>: object references, facts, edges, coverage runs, gaps,
  assessment rows, query snapshots and remote cursors, as far as they need nothing but their
  own tables.
\<close>

section \<open>Objects, facts, edges\<close>

definition getObjectReference ::
  "id \<Rightarrow> id \<Rightarrow> id \<Rightarrow> namespace_name option \<Rightarrow> 'a fact_db_scheme \<Rightarrow> object_reference option" where
  "getObjectReference tid eid ref ns s =
     (case List.find (\<lambda>o'. or_taskId o' = tid \<and> or_epochId o' = eid \<and> or_ref o' = ref) (db_objects s) of
        None \<Rightarrow> None
      | Some o' \<Rightarrow> if ns \<noteq> None \<and> ns \<noteq> Some (or_namespace o') then None else Some o')"

definition listObjectReferences ::
  "id \<Rightarrow> id \<Rightarrow> namespace_name option \<Rightarrow> 'a fact_db_scheme \<Rightarrow> object_reference list" where
  "listObjectReferences tid eid ns s = order_by or_createdAt (filter (\<lambda>o'. or_taskId o' = tid
     \<and> or_epochId o' = eid \<and> (ns = None \<or> ns = Some (or_namespace o'))) (db_objects s))"

definition findObjectReferenceByIdentity ::
  "id \<Rightarrow> id \<Rightarrow> namespace_name \<Rightarrow> string \<Rightarrow> 'a fact_db_scheme \<Rightarrow> object_reference option" where
  "findObjectReferenceByIdentity tid eid ns dg s = List.find (\<lambda>o'. or_taskId o' = tid
     \<and> or_epochId o' = eid \<and> or_namespace o' = ns \<and> or_stableIdentityDigest o' = dg) (db_objects s)"

record fact_filter =
  ff_namespace :: "namespace_name option"
  ff_sourceRunId :: "string option"
  ff_sourceKind :: "fact_source_kind option"
  ff_subjectRef :: "id option"
  ff_completeness :: "completeness option"
  ff_minFactSeqExclusive :: "nat option"
  ff_maxFactSeq :: "nat option"
  ff_limit :: "nat option"

definition no_filter :: fact_filter where
  "no_filter = \<lparr>ff_namespace = None, ff_sourceRunId = None, ff_sourceKind = None,
     ff_subjectRef = None, ff_completeness = None, ff_minFactSeqExclusive = None,
     ff_maxFactSeq = None, ff_limit = None\<rparr>"

text \<open>\<open>if (options.x)\<close>: an empty string or an absent option adds no clause.\<close>

definition fact_matches :: "fact_filter \<Rightarrow> fact_record \<Rightarrow> bool" where
  "fact_matches opt f \<longleftrightarrow>
     (ff_namespace opt = None \<or> ff_namespace opt = Some (fr_namespace f))
   \<and> (nonempty (ff_sourceRunId opt) = None \<or> ff_sourceRunId opt = Some (fr_sourceRunId f))
   \<and> (ff_sourceKind opt = None \<or> ff_sourceKind opt = Some (fs_kind (fr_source f)))
   \<and> (nonempty (ff_subjectRef opt) = None \<or> ff_subjectRef opt = Some (fr_subjectRef f))
   \<and> (ff_completeness opt = None \<or> ff_completeness opt = Some (fr_completeness f))
   \<and> (case ff_minFactSeqExclusive opt of None \<Rightarrow> True | Some m \<Rightarrow> m < fr_factSeq f)
   \<and> (case ff_maxFactSeq opt of None \<Rightarrow> True | Some m \<Rightarrow> fr_factSeq f \<le> m)"

definition listFacts :: "id \<Rightarrow> id \<Rightarrow> fact_filter \<Rightarrow> 'a fact_db_scheme \<Rightarrow> err + fact_record list" where
  "listFacts tid eid opt s =
     (if ff_limit opt = Some 0 then Inl Invalid_argument
      else let rows = order_by fr_factSeq (filter (\<lambda>f. fr_taskId f = tid \<and> fr_epochId f = eid
             \<and> fact_matches opt f) (db_facts s))
           in Inr (case ff_limit opt of None \<Rightarrow> rows | Some n \<Rightarrow> take n rows))"

definition all_facts :: "id \<Rightarrow> id \<Rightarrow> 'a fact_db_scheme \<Rightarrow> fact_record list" where
  "all_facts tid eid s =
     order_by fr_factSeq (filter (\<lambda>f. fr_taskId f = tid \<and> fr_epochId f = eid) (db_facts s))"

lemma listFacts_no_filter: "listFacts tid eid no_filter s = Inr (all_facts tid eid s)"
  by (simp add: listFacts_def no_filter_def fact_matches_def nonempty_def all_facts_def Let_def)

definition getFact :: "id \<Rightarrow> id \<Rightarrow> id \<Rightarrow> 'a fact_db_scheme \<Rightarrow> fact_record option" where
  "getFact tid eid fid s =
     List.find (\<lambda>f. fr_taskId f = tid \<and> fr_epochId f = eid \<and> fr_factId f = fid) (db_facts s)"

definition listEdges :: "id \<Rightarrow> id \<Rightarrow> 'a fact_db_scheme \<Rightarrow> edge_record list" where
  "listEdges tid eid s =
     order_by eg_edgeId (filter (\<lambda>e. eg_taskId e = tid \<and> eg_epochId e = eid) (db_edges s))"

definition max_nat :: "nat list \<Rightarrow> nat" where
  "max_nat ns = foldr max ns 0"

definition maxFactSeq :: "id \<Rightarrow> id \<Rightarrow> 'a fact_db_scheme \<Rightarrow> nat" where
  "maxFactSeq tid eid s = max_nat (map fr_factSeq
     (filter (\<lambda>f. fr_taskId f = tid \<and> fr_epochId f = eid) (db_facts s)))"

lemma max_nat_ge: "n \<in> set ns \<Longrightarrow> n \<le> max_nat ns"
  by (induction ns) (auto simp: max_nat_def)

lemma max_nat_in: "ns \<noteq> [] \<Longrightarrow> max_nat ns \<in> set ns"
proof (induction ns)
  case (Cons n ns)
  then show ?case by (cases "ns = []") (auto simp: max_nat_def max_def)
qed simp

section \<open>Coverage, gaps, assessments\<close>

definition known_epoch :: "id \<Rightarrow> id \<Rightarrow> ('a control_db_scheme, unit) act" where
  "known_epoch tid eid = bind_act (read_act (getScanEpoch tid eid)) (\<lambda>e.
     require (e \<noteq> None) Invalid_argument)"

definition putCoverageRun :: "coverage_run \<Rightarrow> ('a fact_db_scheme, unit) act" where
  "putCoverageRun r = seq_act (known_epoch (cr_taskId r) (cr_epochId r))
    (seq_act (require (\<not> (cr_applicability r = NOT_APPLICABLE \<and> cr_status r \<noteq> CV_COMPLETE)) Invalid_argument)
    (bind_act (read_act db_coverage) (\<lambda>rows.
     seq_act (require (\<not> has_key cr_coverageId (cr_coverageId r) rows) Constraint_error)
       (write_act (\<lambda>s. s\<lparr>db_coverage := db_coverage s @ [r]\<rparr>)))))"

definition listCoverageRuns :: "id \<Rightarrow> id \<Rightarrow> 'a fact_db_scheme \<Rightarrow> coverage_run list" where
  "listCoverageRuns tid eid s =
     order_by cr_createdAt (filter (\<lambda>r. cr_taskId r = tid \<and> cr_epochId r = eid) (db_coverage s))"

text \<open>
  The unique index \<open>idx_investigation_gaps_semantic\<close>: one gap per scope, code, category and
  reason; \<open>INSERT OR IGNORE\<close> drops a second one.
\<close>

definition gap_meaning :: "investigation_gap \<Rightarrow>
    id \<times> id \<times> investigation_gap_code \<times> check_category option \<times> string" where
  "gap_meaning g = (ig_taskId g, ig_epochId g, ig_code g, ig_category g, ig_reasonCode g)"

definition insert_gap :: "investigation_gap \<Rightarrow> ('a fact_db_scheme, unit) act" where
  "insert_gap g = write_act (\<lambda>s.
     if has_key ig_gapId (ig_gapId g) (db_gaps s) \<or> has_key gap_meaning (gap_meaning g) (db_gaps s) then s
     else s\<lparr>db_gaps := db_gaps s @ [g]\<rparr>)"

definition putInvestigationGap :: "investigation_gap \<Rightarrow> ('a fact_db_scheme, unit) act" where
  "putInvestigationGap g = seq_act (known_epoch (ig_taskId g) (ig_epochId g)) (insert_gap g)"

definition listInvestigationGaps :: "id \<Rightarrow> id \<Rightarrow> 'a fact_db_scheme \<Rightarrow> investigation_gap list" where
  "listInvestigationGaps tid eid s =
     order_by ig_createdAt (filter (\<lambda>g. ig_taskId g = tid \<and> ig_epochId g = eid) (db_gaps s))"

definition listAssessments :: "id \<Rightarrow> id \<Rightarrow> 'a fact_db_scheme \<Rightarrow> assessment list" where
  "listAssessments tid eid s =
     order_by as_createdAt (filter (\<lambda>a. as_taskId a = tid \<and> as_epochId a = eid) (db_assessments s))"

definition insert_assessment :: "assessment \<Rightarrow> ('a fact_db_scheme, unit) act" where
  "insert_assessment a = bind_act (read_act db_assessments) (\<lambda>rows.
     seq_act (require (\<not> has_key as_assessmentId (as_assessmentId a) rows) Constraint_error)
       (write_act (\<lambda>s. s\<lparr>db_assessments := db_assessments s @ [a]\<rparr>)))"

definition putAssessmentRelation :: "assessment_relation \<Rightarrow> ('a fact_db_scheme, unit) act" where
  "putAssessmentRelation r = bind_act
     (read_act (\<lambda>s. map as_assessmentId (listAssessments (ar_taskId r) (ar_epochId r) s))) (\<lambda>ids.
     seq_act (require (ar_fromAssessmentId r \<in> set ids \<and> ar_toAssessmentId r \<in> set ids) Invalid_argument)
    (bind_act (read_act db_assessment_relations) (\<lambda>rows.
     seq_act (require (\<not> has_key ar_relationId (ar_relationId r) rows) Constraint_error)
       (write_act (\<lambda>s. s\<lparr>db_assessment_relations := db_assessment_relations s @ [r]\<rparr>)))))"

definition listAssessmentRelations :: "id \<Rightarrow> id \<Rightarrow> 'a fact_db_scheme \<Rightarrow> assessment_relation list" where
  "listAssessmentRelations tid eid s = order_by ar_createdAt
     (filter (\<lambda>r. ar_taskId r = tid \<and> ar_epochId r = eid) (db_assessment_relations s))"

section \<open>Query snapshots and remote cursors\<close>

definition listQuerySnapshots :: "id \<Rightarrow> id \<Rightarrow> 'a fact_db_scheme \<Rightarrow> query_snapshot list" where
  "listQuerySnapshots tid eid s =
     order_by qs_createdAt (filter (\<lambda>q. qs_taskId q = tid \<and> qs_epochId q = eid) (db_query_snapshots s))"

definition putRemoteCursor :: "remote_cursor \<Rightarrow> ('a fact_db_scheme, unit) act" where
  "putRemoteCursor c = bind_act now (\<lambda>_. bind_act (read_act db_remote_cursors) (\<lambda>rows.
     seq_act (require (\<not> has_key rm_cursorRef (rm_cursorRef c) rows) Constraint_error)
       (write_act (\<lambda>s. s\<lparr>db_remote_cursors := db_remote_cursors s @ [c]\<rparr>))))"

definition getRemoteCursor :: "id \<Rightarrow> id \<Rightarrow> id \<Rightarrow> 'a fact_db_scheme \<Rightarrow> remote_cursor option" where
  "getRemoteCursor tid eid ref s = List.find
     (\<lambda>c. rm_cursorRef c = ref \<and> rm_taskId c = tid \<and> rm_epochId c = eid) (db_remote_cursors s)"

end
