(* ===== verification/Investigation.thy ===== *)
theory Investigation
  imports FactStore
begin

text \<open>
  The investigation state of \<open>RuntimeStore\<close>: the event log, sessions, leads, hypotheses,
  obligations, the action queue with its attempts, consumer watermarks, discovery checkpoints
  and completion snapshots. Reasons written for people are represented by short codes.
\<close>

section \<open>The event log\<close>

definition assertInvestigationScope :: "id \<Rightarrow> id \<Rightarrow> ('a db_scheme, unit) act" where
  "assertInvestigationScope tid eid = bind_act (read_act (getScanEpoch tid eid)) (\<lambda>e.
     require (case e of None \<Rightarrow> False | Some x \<Rightarrow> ep_taskId x = tid) Invalid_argument)"

text \<open>\<open>event_seq\<close> is AUTOINCREMENT: one more than any number used before.\<close>

definition appendInvestigationEvent ::
  "id \<Rightarrow> id \<Rightarrow> id \<Rightarrow> id option \<Rightarrow> string \<Rightarrow> (string \<times> js) list \<Rightarrow> time \<Rightarrow>
   ('a db_scheme, investigation_event) act" where
  "appendInvestigationEvent evid tid eid batch type payload created =
     bind_act (read_act (\<lambda>s. (db_events s, Suc (db_event_seq s)))) (\<lambda>(rows, seq).
     let ev = \<lparr>ie_eventSeq = seq, ie_eventId = evid, ie_taskId = tid, ie_epochId = eid,
               ie_sourceBatchRef = batch, ie_eventType = type, ie_payload = payload,
               ie_createdAt = created\<rparr> in
     seq_act (require (\<not> has_key ie_eventId evid rows) Constraint_error)
    (seq_act (write_act (\<lambda>s. s\<lparr>db_events := db_events s @ [ev], db_event_seq := seq\<rparr>))
       (return_act ev)))"

text \<open>\<open>this.appendInvestigationEvent({ eventId: createId("action"), ... })\<close>.\<close>

definition log_event ::
  "id \<Rightarrow> id \<Rightarrow> string \<Rightarrow> (string \<times> js) list \<Rightarrow> time \<Rightarrow> ('a db_scheme, unit) act" where
  "log_event tid eid type payload created = bind_act (create_id ''ACT'') (\<lambda>evid.
     bind_act (appendInvestigationEvent evid tid eid None type payload created) (\<lambda>_. return_act ()))"

definition js_ids :: "string list \<Rightarrow> js" where
  "js_ids xs = Arr (map Str xs)"

definition page_arguments_ok :: "rat \<Rightarrow> rat \<Rightarrow> bool" where
  "page_arguments_ok after limit \<longleftrightarrow> is_safe after \<and> 0 \<le> after \<and> is_safe limit \<and> 1 \<le> limit \<and> limit \<le> 5000"

definition listInvestigationEvents ::
  "id \<Rightarrow> id \<Rightarrow> rat \<Rightarrow> rat \<Rightarrow> 'a db_scheme \<Rightarrow> err + investigation_event list" where
  "listInvestigationEvents tid eid after limit s =
     (if \<not> page_arguments_ok after limit then Inl Invalid_argument
      else Inr (take (nat \<lfloor>limit\<rfloor>) (order_by ie_eventSeq (filter (\<lambda>e. ie_taskId e = tid
        \<and> ie_epochId e = eid \<and> after < of_nat (ie_eventSeq e)) (db_events s)))))"

definition maxInvestigationEventSeq :: "id \<Rightarrow> id \<Rightarrow> 'a db_scheme \<Rightarrow> nat" where
  "maxInvestigationEventSeq tid eid s = max_nat (map ie_eventSeq
     (filter (\<lambda>e. ie_taskId e = tid \<and> ie_epochId e = eid) (db_events s)))"

section \<open>Consumers\<close>

definition consumer_key :: "event_consumer \<Rightarrow> string \<times> string \<times> id \<times> id" where
  "consumer_key c = (ec_consumer c, ec_version c, ec_taskId c, ec_epochId c)"

definition getInvestigationConsumerWatermark ::
  "string \<times> string \<times> id \<times> id \<Rightarrow> 'a db_scheme \<Rightarrow> nat" where
  "getInvestigationConsumerWatermark k s =
     (case List.find (\<lambda>c. consumer_key c = k) (db_consumers s) of None \<Rightarrow> 0 | Some c \<Rightarrow> ec_lastEventSeq c)"

text \<open>\<open>INSERT ... ON CONFLICT DO UPDATE ... WHERE last_event_seq = expected\<close>.\<close>

definition advanceInvestigationConsumerWatermark ::
  "string \<times> string \<times> id \<times> id \<Rightarrow> nat \<Rightarrow> nat \<Rightarrow> ('a db_scheme, unit) act" where
  "advanceInvestigationConsumerWatermark k expected new =
     seq_act (require (expected \<le> new) Invalid_argument)
    (bind_act (read_act (getInvestigationConsumerWatermark k)) (\<lambda>current.
     seq_act (require (current = expected) Invalid_argument)
    (bind_act now (\<lambda>_. bind_act (read_act db_consumers) (\<lambda>rows.
     if has_key consumer_key k rows
     then seq_act (require (changes (\<lambda>c. consumer_key c = k \<and> ec_lastEventSeq c = expected) rows = 1)
             Invalid_argument)
           (write_act (\<lambda>s. s\<lparr>db_consumers := update_rows
              (\<lambda>c. consumer_key c = k \<and> ec_lastEventSeq c = expected)
              (\<lambda>c. c\<lparr>ec_lastEventSeq := new\<rparr>) (db_consumers s)\<rparr>))
     else write_act (\<lambda>s. s\<lparr>db_consumers := db_consumers s @ [\<lparr>ec_consumer = fst k,
            ec_version = fst (snd k), ec_taskId = fst (snd (snd k)), ec_epochId = snd (snd (snd k)),
            ec_lastEventSeq = new\<rparr>]\<rparr>))))))"

section \<open>Sessions\<close>

definition execution_name :: "execution_status \<Rightarrow> string" where
  "execution_name st = (case st of STARTING \<Rightarrow> ''STARTING'' | EX_RUNNING \<Rightarrow> ''RUNNING''
     | EX_PAUSED \<Rightarrow> ''PAUSED'' | CANCELLING \<Rightarrow> ''CANCELLING'' | STOPPED \<Rightarrow> ''STOPPED'' | EX_FAILED \<Rightarrow> ''FAILED'')"

definition investigation_name :: "investigation_status \<Rightarrow> string" where
  "investigation_name st = (case st of IS_OPEN \<Rightarrow> ''OPEN'' | IS_LIMITED \<Rightarrow> ''LIMITED''
     | CLOSED_WITH_FINDINGS \<Rightarrow> ''CLOSED_WITH_FINDINGS''
     | CLOSED_NO_OBSERVED_FINDING \<Rightarrow> ''CLOSED_NO_OBSERVED_FINDING'' | IS_CANCELLED \<Rightarrow> ''CANCELLED'')"

definition session_scope :: "investigation_session \<Rightarrow> id \<times> id" where
  "session_scope x = (ss_taskId x, ss_epochId x)"

definition createInvestigationSession :: "investigation_session \<Rightarrow> ('a db_scheme, unit) act" where
  "createInvestigationSession x = seq_act (assertInvestigationScope (ss_taskId x) (ss_epochId x))
     (transaction (bind_act (read_act (\<lambda>s. (db_sessions s, db_tasks s))) (\<lambda>(rows, tasks).
        seq_act (require (\<not> has_key ss_sessionId (ss_sessionId x) rows
            \<and> \<not> has_key session_scope (session_scope x) rows
            \<and> has_key tc_taskId (ss_taskId x) tasks) Constraint_error)
       (seq_act (write_act (\<lambda>s. s\<lparr>db_sessions := db_sessions s @ [x]\<rparr>))
          (log_event (ss_taskId x) (ss_epochId x) ''SESSION_CREATED''
             [(''sessionId'', Str (ss_sessionId x))] (ss_createdAt x))))))"

definition getInvestigationSession :: "id \<Rightarrow> id \<Rightarrow> 'a db_scheme \<Rightarrow> investigation_session option" where
  "getInvestigationSession tid eid s =
     List.find (\<lambda>x. ss_taskId x = tid \<and> ss_epochId x = eid) (db_sessions s)"

definition updateInvestigationSession ::
  "investigation_session \<Rightarrow> nat \<Rightarrow> ('a db_scheme, unit) act" where
  "updateInvestigationSession x expected =
     seq_act (require (ss_revision x = expected + 1) Invalid_argument)
     (transaction (
        let hit = (\<lambda>r. ss_sessionId r = ss_sessionId x \<and> ss_taskId r = ss_taskId x
                     \<and> ss_epochId r = ss_epochId x \<and> ss_revision r = expected) in
        bind_act (read_act (\<lambda>s. changes hit (db_sessions s))) (\<lambda>n.
        seq_act (require (n = 1) Invalid_argument)
       (seq_act (write_act (\<lambda>s. s\<lparr>db_sessions := update_rows hit (\<lambda>_. x) (db_sessions s)\<rparr>))
          (log_event (ss_taskId x) (ss_epochId x) ''SESSION_UPDATED''
             [(''sessionId'', Str (ss_sessionId x)), (''revision'', js_count (ss_revision x)),
              (''executionStatus'', Str (execution_name (ss_executionStatus x))),
              (''investigationStatus'', Str (investigation_name (ss_investigationStatus x)))]
             (ss_updatedAt x))))))"

section \<open>Leads and hypotheses\<close>

definition knows_object :: "id \<Rightarrow> id \<Rightarrow> id \<Rightarrow> 'a fact_db_scheme \<Rightarrow> bool" where
  "knows_object tid eid ref s \<longleftrightarrow>
     list_ex (\<lambda>o'. or_ref o' = ref) (listObjectReferences tid eid None s)"

definition lead_key :: "investigation_lead \<Rightarrow> id \<times> id \<times> id \<times> string \<times> string \<times> string" where
  "lead_key l = (ld_taskId l, ld_epochId l, ld_subjectRef l, ld_triggerKind l,
     ld_triggerVersion l, ld_observationRound l)"

definition putInvestigationLead ::
  "investigation_lead \<Rightarrow> ('a db_scheme, investigation_lead) act" where
  "putInvestigationLead l = (let tid = ld_taskId l; eid = ld_epochId l in
     seq_act (assertInvestigationScope tid eid)
    (bind_act (read_act (knows_object tid eid (ld_subjectRef l))) (\<lambda>known.
     seq_act (require known Invalid_argument)
    (transaction (
       bind_act (read_act (\<lambda>s. \<not> has_key ld_leadId (ld_leadId l) (db_leads s)
            \<and> \<not> has_key lead_key (lead_key l) (db_leads s))) (\<lambda>inserted.
       seq_act (if inserted then write_act (\<lambda>s. s\<lparr>db_leads := db_leads s @ [l]\<rparr>) else return_act ())
      (bind_act (read_act (\<lambda>s. List.find (\<lambda>x. lead_key x = lead_key l) (db_leads s))) (\<lambda>found.
       case found of None \<Rightarrow> throw_act Type_error
       | Some stored \<Rightarrow>
         if inserted then
           seq_act (log_event tid eid ''LEAD_CREATED'' [(''leadId'', Str (ld_leadId stored)),
               (''subjectRef'', Str (ld_subjectRef stored))] (ld_createdAt stored)) (return_act stored)
         else
           let refs = unique (ld_triggerFactRefs stored @ ld_triggerFactRefs l) in
           if length refs \<noteq> length (ld_triggerFactRefs stored) \<or> ld_priority stored < ld_priority l then
             let merged = stored\<lparr>ld_triggerFactRefs := refs,
                   ld_priority := max (ld_priority stored) (ld_priority l),
                   ld_updatedAt := ld_updatedAt l\<rparr> in
             seq_act (write_act (\<lambda>s. s\<lparr>db_leads := update_rows
                 (\<lambda>x. ld_leadId x = ld_leadId merged) (\<lambda>_. merged) (db_leads s)\<rparr>))
            (seq_act (log_event tid eid ''LEAD_UPDATED'' [(''leadId'', Str (ld_leadId merged)),
                 (''triggerFactRefs'', js_ids (ld_triggerFactRefs merged))] (ld_updatedAt merged))
               (return_act merged))
           else return_act stored))))))))"

definition listInvestigationLeads :: "id \<Rightarrow> id \<Rightarrow> 'a db_scheme \<Rightarrow> investigation_lead list" where
  "listInvestigationLeads tid eid s = order_by (\<lambda>l. (- ld_priority l, ld_createdAt l))
     (filter (\<lambda>l. ld_taskId l = tid \<and> ld_epochId l = eid) (db_leads s))"

definition putInvestigationHypothesis :: "investigation_hypothesis \<Rightarrow> ('a db_scheme, unit) act" where
  "putInvestigationHypothesis h = (let tid = hy_taskId h; eid = hy_epochId h in
     bind_act (read_act (knows_object tid eid (hy_subjectRef h))) (\<lambda>known.
     seq_act (require known Invalid_argument)
    (transaction (bind_act (read_act db_hypotheses) (\<lambda>rows.
       seq_act (require (\<not> has_key hy_hypothesisId (hy_hypothesisId h) rows) Constraint_error)
      (seq_act (write_act (\<lambda>s. s\<lparr>db_hypotheses := db_hypotheses s @ [h]\<rparr>))
         (log_event tid eid ''HYPOTHESIS_CREATED'' [(''hypothesisId'', Str (hy_hypothesisId h)),
            (''subjectRef'', Str (hy_subjectRef h))] (hy_createdAt h))))))))"

definition listInvestigationHypotheses :: "id \<Rightarrow> id \<Rightarrow> 'a db_scheme \<Rightarrow> investigation_hypothesis list" where
  "listInvestigationHypotheses tid eid s =
     order_by hy_createdAt (filter (\<lambda>h. hy_taskId h = tid \<and> hy_epochId h = eid) (db_hypotheses s))"

section \<open>Obligations\<close>

definition ow_id :: "obligation_row \<Rightarrow> id" where
  "ow_id r = ob_obligationId (ow_payload r)"

definition ow_scope :: "obligation_row \<Rightarrow> id \<times> id" where
  "ow_scope r = (ob_taskId (ow_payload r), ob_epochId (ow_payload r))"

definition ow_status :: "obligation_row \<Rightarrow> obligation_status" where
  "ow_status r = ob_status (ow_payload r)"

definition obligation_key :: "obligation_row \<Rightarrow> (id \<times> id) \<times> string" where
  "obligation_key r = (ow_scope r, ow_dedupeKey r)"

text \<open>\<open>ORDER BY required DESC, created_at\<close> on the columns.\<close>

definition listInvestigationObligations ::
  "id \<Rightarrow> id \<Rightarrow> 'a db_scheme \<Rightarrow> investigation_obligation list" where
  "listInvestigationObligations tid eid s = map ow_payload
     (order_by (\<lambda>r. (if ow_required r then 0 else 1 :: nat, ow_createdAt r))
        (filter (\<lambda>r. ow_scope r = (tid, eid)) (db_obligations s)))"

definition js_bool :: "bool \<Rightarrow> js" where
  "js_bool b = Bool b"

definition putInvestigationObligation ::
  "investigation_obligation \<Rightarrow> ('a db_scheme, investigation_obligation) act" where
  "putInvestigationObligation v = (let tid = ob_taskId v; eid = ob_epochId v;
       row = \<lparr>ow_dedupeKey = ob_dedupeKey v, ow_required = ob_required v,
              ow_createdAt = ob_createdAt v, ow_payload = v\<rparr> in
     seq_act (assertInvestigationScope tid eid)
    (bind_act (read_act (\<lambda>s. map hy_hypothesisId (listInvestigationHypotheses tid eid s))) (\<lambda>hyps.
     seq_act (require (case nonempty (ob_hypothesisId v) of None \<Rightarrow> True | Some h \<Rightarrow> h \<in> set hyps)
        Invalid_argument)
    (transaction (
       bind_act (read_act (\<lambda>s. (\<not> has_key ow_id (ob_obligationId v) (db_obligations s)
           \<and> \<not> has_key obligation_key ((tid, eid), ob_dedupeKey v) (db_obligations s),
           ob_hypothesisId v = None \<or> has_key Some (ob_hypothesisId v) (map hy_hypothesisId (db_hypotheses s)))))
         (\<lambda>(inserted, parent).
       seq_act (require (ob_dedupeKey v \<noteq> []) Constraint_error)
      (seq_act (require (inserted \<longrightarrow> parent) Constraint_error)
      (seq_act (if inserted then write_act (\<lambda>s. s\<lparr>db_obligations := db_obligations s @ [row]\<rparr>)
                else return_act ())
      (bind_act (read_act (\<lambda>s. List.find (\<lambda>r. obligation_key r = ((tid, eid), ob_dedupeKey v))
           (db_obligations s))) (\<lambda>found. case found of None \<Rightarrow> throw_act Type_error
        | Some r \<Rightarrow> let stored = ow_payload r in
          seq_act (if inserted then log_event tid eid ''OBLIGATION_CREATED''
                [(''obligationId'', Str (ob_obligationId stored)), (''hypothesisId'', js_id (ob_hypothesisId stored)),
                 (''required'', js_bool (ob_required stored))] (ob_createdAt stored)
              else return_act ())
            (return_act stored)))))))))))"

text \<open>The obligation rows that an update with an expected status hits.\<close>

definition obligation_hit :: "investigation_obligation \<Rightarrow> obligation_status \<Rightarrow> obligation_row \<Rightarrow> bool" where
  "obligation_hit v expected r \<longleftrightarrow> ow_id r = ob_obligationId v
     \<and> ow_scope r = (ob_taskId v, ob_epochId v) \<and> ow_status r = expected"

definition log_obligation :: "investigation_obligation \<Rightarrow> time \<Rightarrow> ('a db_scheme, unit) act" where
  "log_obligation v t = log_event (ob_taskId v) (ob_epochId v) ''OBLIGATION_UPDATED''
     [(''obligationId'', Str (ob_obligationId v)),
      (''status'', Str (case ob_status v of OB_OPEN \<Rightarrow> ''OPEN'' | OB_QUEUED \<Rightarrow> ''QUEUED''
         | OB_SATISFIED \<Rightarrow> ''SATISFIED'' | OB_LIMITED \<Rightarrow> ''LIMITED'' | OB_CANCELLED \<Rightarrow> ''CANCELLED'')),
      (''resultRefs'', js_ids (ob_resultRefs v)), (''gapRefs'', js_ids (ob_gapRefs v))] t"

definition updateInvestigationObligation ::
  "investigation_obligation \<Rightarrow> obligation_status \<Rightarrow> ('a db_scheme, unit) act" where
  "updateInvestigationObligation v expected = transaction (
     bind_act (read_act (\<lambda>s. changes (obligation_hit v expected) (db_obligations s))) (\<lambda>n.
     seq_act (require (n = 1) Invalid_argument)
    (seq_act (write_act (\<lambda>s. s\<lparr>db_obligations := update_rows (obligation_hit v expected)
         (\<lambda>r. r\<lparr>ow_payload := v\<rparr>) (db_obligations s)\<rparr>))
       (log_obligation v (ob_updatedAt v)))))"

text \<open>
  An obligation that is still open takes a new status from an action that settled; any other
  is left as it is. \<open>f\<close> is the update the caller makes.
\<close>

definition resolve_open_obligation ::
  "id \<times> id \<Rightarrow> time \<Rightarrow> (investigation_obligation \<Rightarrow> investigation_obligation) \<Rightarrow> id \<Rightarrow>
   ('a db_scheme, unit) act" where
  "resolve_open_obligation scope t f oid =
     bind_act (read_act (\<lambda>s. List.find (\<lambda>r. ow_id r = oid \<and> ow_scope r = scope) (db_obligations s))) (\<lambda>found.
     case found of None \<Rightarrow> return_act ()
     | Some r \<Rightarrow> let ob = ow_payload r; u = f ob in
         if ob_status ob \<notin> {OB_OPEN, OB_QUEUED} then return_act ()
         else seq_act (write_act (\<lambda>s. s\<lparr>db_obligations := update_rows
                  (\<lambda>x. ow_id x = oid \<and> ow_status x = ob_status ob) (\<lambda>x. x\<lparr>ow_payload := u\<rparr>)
                  (db_obligations s)\<rparr>))
             (log_obligation u t))"

section \<open>Actions\<close>

definition MAX_ACTIVE_INVESTIGATION_ACTIONS :: nat where
  "MAX_ACTIVE_INVESTIGATION_ACTIONS = 1000"

definition action_status_name :: "action_status \<Rightarrow> string" where
  "action_status_name st = (case st of AC_READY \<Rightarrow> ''READY'' | AC_RUNNING \<Rightarrow> ''RUNNING''
     | AC_BLOCKED \<Rightarrow> ''BLOCKED'' | AC_SUCCEEDED \<Rightarrow> ''SUCCEEDED'' | AC_PARTIAL \<Rightarrow> ''PARTIAL''
     | AC_FAILED \<Rightarrow> ''FAILED'' | AC_CANCELLED \<Rightarrow> ''CANCELLED'')"

definition replay_name :: "replay_policy \<Rightarrow> string" where
  "replay_name p = (case p of SAFE_REOBSERVE \<Rightarrow> ''SAFE_REOBSERVE''
     | RESUME_OR_RECOLLECT \<Rightarrow> ''RESUME_OR_RECOLLECT'' | NEVER \<Rightarrow> ''NEVER'')"

definition ac_scope :: "investigation_action \<Rightarrow> id \<times> id" where
  "ac_scope a = (ac_taskId a, ac_epochId a)"

definition listInvestigationActions :: "id \<Rightarrow> id \<Rightarrow> 'a db_scheme \<Rightarrow> investigation_action list" where
  "listInvestigationActions tid eid s = order_by (\<lambda>a. (- ac_priority a, ac_createdAt a))
     (filter (\<lambda>a. ac_scope a = (tid, eid)) (db_actions s))"

definition find_action :: "id \<Rightarrow> 'a db_scheme \<Rightarrow> investigation_action option" where
  "find_action aid s = List.find (\<lambda>a. ac_actionId a = aid) (db_actions s)"

definition active_count :: "id \<times> id \<Rightarrow> 'a db_scheme \<Rightarrow> nat" where
  "active_count scope s =
     changes (\<lambda>a. ac_scope a = scope \<and> action_active (ac_status a)) (db_actions s)"

definition set_action :: "(investigation_action \<Rightarrow> bool) \<Rightarrow> investigation_action \<Rightarrow> ('a db_scheme, unit) act" where
  "set_action hit a = write_act (\<lambda>s. s\<lparr>db_actions := update_rows hit (\<lambda>_. a) (db_actions s)\<rparr>)"

definition capacity_error :: string where
  "capacity_error = ''ACTION_QUEUE_CAPACITY:1000''"

definition capacity_reason :: string where
  "capacity_reason = ''ACTIVE_ACTION_LIMIT:1000''"

text \<open>The sentence the obligations get (\<open>reason\<close>), by a code.\<close>

definition capacity_text :: string where
  "capacity_text = ''ACTION_LIMIT_REACHED''"

text \<open>What an action that was not admitted leaves behind: a gap, its obligations limited, an event.\<close>

definition report_capacity :: "investigation_action \<Rightarrow> nat \<Rightarrow> ('a db_scheme, unit) act" where
  "report_capacity stored active = (let tid = ac_taskId stored; eid = ac_epochId stored in
     bind_act now (\<lambda>t. bind_act (create_id ''ACT'') (\<lambda>gid.
     seq_act (insert_gap \<lparr>ig_gapId = ''IGAP-'' @ gid, ig_taskId = tid, ig_epochId = eid, ig_category = None,
        ig_code = QUEUE_CAPACITY, ig_reasonCode = capacity_reason, ig_createdAt = t\<rparr>)
    (seq_act (each_act (resolve_open_obligation (tid, eid) t (\<lambda>ob. ob\<lparr>ob_status := OB_LIMITED,
        ob_gapRefs := unique (ob_gapRefs ob @ [capacity_text]), ob_updatedAt := t\<rparr>))
        (ac_obligationIds stored))
       (log_event tid eid ''ACTION_QUEUE_CAPACITY_REACHED'' [(''actionId'', Str (ac_actionId stored)),
          (''activeCount'', js_count active), (''maximum'', js_count MAX_ACTIVE_INVESTIGATION_ACTIONS)] t)))))"

text \<open>
  A second action with the same idempotency key: its obligations join the stored action, and
  when that one has ended they take over its outcome at once.
\<close>

definition settled_obligation ::
  "investigation_action \<Rightarrow> time \<Rightarrow> investigation_obligation \<Rightarrow> investigation_obligation" where
  "settled_obligation stored t ob = ob\<lparr>
     ob_status := (if ac_status stored = AC_SUCCEEDED then OB_SATISFIED else OB_LIMITED),
     ob_resultRefs := unique (ob_resultRefs ob @ option_or (ac_resultRefs stored) []),
     ob_gapRefs := (if ac_status stored = AC_SUCCEEDED then ob_gapRefs ob
        else unique (ob_gapRefs ob @ [option_or (ac_error stored)
          (''REUSED_ACTION:'' @ action_status_name (ac_status stored))])),
     ob_updatedAt := t\<rparr>"

definition merge_action ::
  "investigation_action \<Rightarrow> investigation_action \<Rightarrow> ('a db_scheme, investigation_action) act" where
  "merge_action stored v = (let tid = ac_taskId v; eid = ac_epochId v;
       ids = unique (ac_obligationIds stored @ ac_obligationIds v) in
     if length ids = length (ac_obligationIds stored) then return_act stored
     else bind_act now (\<lambda>t.
       let merged = stored\<lparr>ac_obligationIds := ids,
             ac_priority := max (ac_priority stored) (ac_priority v), ac_updatedAt := t\<rparr> in
       seq_act (set_action (\<lambda>a. ac_actionId a = ac_actionId merged) merged)
      (seq_act (log_event tid eid ''ACTION_OBLIGATIONS_MERGED''
          [(''actionId'', Str (ac_actionId merged)), (''obligationIds'', js_ids ids)] t)
      (seq_act (if action_terminal (ac_status merged)
          then each_act (resolve_open_obligation (tid, eid) t (settled_obligation merged t)) (ac_obligationIds v)
          else return_act ())
         (return_act merged)))))"

text \<open>
  Admission. A READY action that would exceed the bound is stored BLOCKED; \<open>existing\<close> is whether
  its idempotency key is taken and \<open>active\<close> how many actions of the scope are READY or RUNNING.
\<close>

definition queue_full :: "investigation_action \<Rightarrow> bool \<Rightarrow> nat \<Rightarrow> bool" where
  "queue_full v existing active \<longleftrightarrow>
     \<not> existing \<and> ac_status v = AC_READY \<and> MAX_ACTIVE_INVESTIGATION_ACTIONS \<le> active"

definition candidate_action :: "investigation_action \<Rightarrow> bool \<Rightarrow> investigation_action" where
  "candidate_action v exceeded = (if exceeded then v\<lparr>ac_status := AC_BLOCKED,
     ac_error := Some capacity_error, ac_revision := ac_revision v + 1\<rparr> else v)"

definition report_created ::
  "investigation_action \<Rightarrow> bool \<Rightarrow> nat \<Rightarrow> ('a db_scheme, investigation_action) act" where
  "report_created stored exceeded active =
     seq_act (log_event (ac_taskId stored) (ac_epochId stored) ''ACTION_CREATED''
        [(''actionId'', Str (ac_actionId stored)), (''operationRef'', Str (ac_operationRef stored)),
         (''status'', Str (action_status_name (ac_status stored)))] (ac_createdAt stored))
    (seq_act (if exceeded then report_capacity stored active else return_act ())
       (return_act stored))"

definition store_action ::
  "investigation_action \<Rightarrow> bool \<Rightarrow> nat \<Rightarrow> ('a db_scheme, investigation_action) act" where
  "store_action v existing active = (let exceeded = queue_full v existing active in transaction (
     bind_act (read_act (\<lambda>s. \<not> has_key ac_actionId (ac_actionId v) (db_actions s) \<and> \<not> existing)) (\<lambda>inserted.
     seq_act (if inserted then write_act (\<lambda>s. s\<lparr>db_actions := db_actions s @ [candidate_action v exceeded]\<rparr>)
              else return_act ())
    (bind_act (read_act (\<lambda>s. List.find (\<lambda>a. ac_idempotencyKey a = ac_idempotencyKey v) (db_actions s)))
       (\<lambda>found. case found of None \<Rightarrow> throw_act Type_error
      | Some stored \<Rightarrow>
        seq_act (require (ac_scope stored = (ac_taskId v, ac_epochId v)) Invalid_argument)
          (if inserted then report_created stored exceeded active else merge_action stored v))))))"

definition putInvestigationAction ::
  "investigation_action \<Rightarrow> ('a db_scheme, investigation_action) act" where
  "putInvestigationAction v = (let tid = ac_taskId v; eid = ac_epochId v in
     seq_act (assertInvestigationScope tid eid)
    (seq_act (require (ac_actionId v \<notin> set (ac_dependsOn v)) Invalid_argument)
    (bind_act (read_act (\<lambda>s. map ac_actionId (listInvestigationActions tid eid s))) (\<lambda>scoped.
     seq_act (require (set (ac_dependsOn v) \<subseteq> set scoped) Invalid_argument)
    (bind_act (read_act (\<lambda>s. map ob_obligationId (listInvestigationObligations tid eid s))) (\<lambda>obligations.
     seq_act (require (set (ac_obligationIds v) \<subseteq> set obligations) Invalid_argument)
    (bind_act (read_act (\<lambda>s. has_key ac_idempotencyKey (ac_idempotencyKey v) (db_actions s))) (\<lambda>existing.
     bind_act (read_act (\<lambda>s. if existing then 0 else active_count (tid, eid) s)) (\<lambda>active.
     store_action v existing active)))))))))"

text \<open>
  The claim: the first READY candidate, highest priority first, that carries the authorization
  version in force and whose dependencies have all succeeded (partially or not).
\<close>

definition dependencies_met :: "id \<times> id \<Rightarrow> investigation_action \<Rightarrow> 'a db_scheme \<Rightarrow> bool" where
  "dependencies_met scope a s \<longleftrightarrow> list_all (\<lambda>d.
     case List.find (\<lambda>x. ac_actionId x = d \<and> ac_scope x = scope) (db_actions s) of
       None \<Rightarrow> False | Some x \<Rightarrow> ac_status x \<in> {AC_SUCCEEDED, AC_PARTIAL}) (ac_dependsOn a)"

definition insert_attempt :: "action_attempt \<Rightarrow> ('a db_scheme, unit) act" where
  "insert_attempt t = bind_act (read_act (\<lambda>s. (db_attempts s, db_actions s))) (\<lambda>(rows, actions).
     seq_act (require (\<not> has_key at_attemptId (at_attemptId t) rows
         \<and> \<not> has_key (\<lambda>x. (at_actionId x, at_attempt x)) (at_actionId t, at_attempt t) rows
         \<and> has_key ac_actionId (at_actionId t) actions) Constraint_error)
       (write_act (\<lambda>s. s\<lparr>db_attempts := db_attempts s @ [t]\<rparr>)))"

definition claim_hit :: "investigation_action \<Rightarrow> investigation_action \<Rightarrow> bool" where
  "claim_hit c a \<longleftrightarrow> ac_actionId a = ac_actionId c \<and> ac_status a = AC_READY \<and> ac_revision a = ac_revision c"

definition start_attempt ::
  "id \<times> id \<Rightarrow> string \<Rightarrow> investigation_action \<Rightarrow> time \<Rightarrow>
   ('a db_scheme, (investigation_action \<times> action_attempt) option) act" where
  "start_attempt scope worker action t =
     bind_act (read_act (\<lambda>s. Suc (changes (\<lambda>x. at_actionId x = ac_actionId action) (db_attempts s)))) (\<lambda>n.
     bind_act (create_id ''ACT'') (\<lambda>attemptId.
     let attempt = \<lparr>at_attemptId = attemptId, at_actionId = ac_actionId action, at_taskId = fst scope,
           at_epochId = snd scope, at_attempt = n, at_toolCallId = None, at_status = AT_RUNNING,
           at_error = None, at_startedAt = t, at_finishedAt = None\<rparr> in
     seq_act (insert_attempt attempt)
    (seq_act (log_event (fst scope) (snd scope) ''ACTION_CLAIMED'' [(''actionId'', Str (ac_actionId action)),
        (''attemptId'', Str attemptId), (''workerId'', Str worker)] t)
       (return_act (Some (action, attempt))))))"

fun claim_first ::
  "id \<times> id \<Rightarrow> string \<Rightarrow> string \<Rightarrow> investigation_action list \<Rightarrow>
   ('a db_scheme, (investigation_action \<times> action_attempt) option) act" where
  "claim_first scope worker auth [] = return_act None"
| "claim_first scope worker auth (c # cs) =
     (if ac_authorizationVersion c \<noteq> auth then claim_first scope worker auth cs
      else bind_act (read_act (dependencies_met scope c)) (\<lambda>met.
        if \<not> met then claim_first scope worker auth cs
        else bind_act now (\<lambda>t.
          let action = c\<lparr>ac_status := AC_RUNNING, ac_workerId := Some worker,
                ac_revision := ac_revision c + 1, ac_updatedAt := t\<rparr> in
          bind_act (read_act (\<lambda>s. changes (claim_hit c) (db_actions s))) (\<lambda>n.
          seq_act (set_action (claim_hit c) action)
            (if n \<noteq> 1 then claim_first scope worker auth cs
             else start_attempt scope worker action t)))))"

definition ready_candidates ::
  "id \<Rightarrow> id \<Rightarrow> id set option \<Rightarrow> 'a db_scheme \<Rightarrow> investigation_action list" where
  "ready_candidates tid eid eligible s = filter (\<lambda>a. ac_status a = AC_READY
     \<and> (case eligible of None \<Rightarrow> True | Some ids \<Rightarrow> ac_actionId a \<in> ids)) (listInvestigationActions tid eid s)"

definition claimNextInvestigationAction ::
  "id \<Rightarrow> id \<Rightarrow> string \<Rightarrow> string \<Rightarrow> id set option \<Rightarrow>
   ('a db_scheme, (investigation_action \<times> action_attempt) option) act" where
  "claimNextInvestigationAction tid eid worker auth eligible =
     seq_act (assertInvestigationScope tid eid)
       (transaction (bind_act (read_act (ready_candidates tid eid eligible))
          (claim_first (tid, eid) worker auth)))"

section \<open>Finishing, blocking, recovering\<close>

text \<open>\<open>SELECT ... WHERE action_id=? AND status='RUNNING' ORDER BY attempt DESC LIMIT 1\<close>.\<close>

definition running_attempt :: "id \<Rightarrow> 'a db_scheme \<Rightarrow> action_attempt option" where
  "running_attempt aid s = (case order_by_desc at_attempt
       (filter (\<lambda>t. at_actionId t = aid \<and> at_status t = AT_RUNNING) (db_attempts s)) of
     [] \<Rightarrow> None | t # _ \<Rightarrow> Some t)"

definition close_attempt ::
  "action_attempt \<Rightarrow> attempt_status \<Rightarrow> string option \<Rightarrow> time \<Rightarrow> ('a db_scheme, unit) act" where
  "close_attempt attempt st error t = write_act (\<lambda>s. s\<lparr>db_attempts := update_rows
     (\<lambda>x. at_attemptId x = at_attemptId attempt \<and> at_status x = AT_RUNNING)
     (\<lambda>_. attempt\<lparr>at_status := st, at_error := (if error = None then at_error attempt else error),
            at_finishedAt := Some t\<rparr>) (db_attempts s)\<rparr>)"

definition finishInvestigationAction ::
  "id \<Rightarrow> nat \<Rightarrow> action_status \<Rightarrow> id list \<Rightarrow> string option \<Rightarrow> ('a db_scheme, investigation_action) act" where
  "finishInvestigationAction aid expected status refs error = transaction (
     bind_act (read_act (find_action aid)) (\<lambda>row. case row of None \<Rightarrow> throw_act Invalid_argument
     | Some current \<Rightarrow>
       seq_act (require (ac_status current = AC_RUNNING \<and> ac_revision current = expected) Invalid_argument)
      (bind_act now (\<lambda>t.
       let action = current\<lparr>ac_status := status, ac_resultRefs := Some refs,
             ac_error := (if nonempty error = None then ac_error current else error),
             ac_revision := ac_revision current + 1, ac_updatedAt := t\<rparr> in
       seq_act (set_action (\<lambda>a. ac_actionId a = aid \<and> ac_revision a = expected) action)
      (bind_act (read_act (running_attempt aid)) (\<lambda>attempt. case attempt of
         None \<Rightarrow> throw_act Invalid_argument
       | Some x \<Rightarrow>
         seq_act (close_attempt x (attempt_of_action status) (nonempty error) t)
        (seq_act (log_event (ac_taskId action) (ac_epochId action) ''ACTION_FINISHED''
           [(''actionId'', Str aid), (''status'', Str (action_status_name status)),
            (''resultRefs'', js_ids refs)] t)
           (return_act action))))))))"

definition blockReadyInvestigationAction ::
  "id \<Rightarrow> string \<Rightarrow> ('a db_scheme, investigation_action) act" where
  "blockReadyInvestigationAction aid reason = transaction (
     bind_act (read_act (find_action aid)) (\<lambda>row. case row of None \<Rightarrow> throw_act Invalid_argument
     | Some current \<Rightarrow>
       seq_act (require (ac_status current = AC_READY) Invalid_argument)
      (bind_act now (\<lambda>t.
       let blocked = current\<lparr>ac_status := AC_BLOCKED, ac_error := Some reason,
             ac_revision := ac_revision current + 1, ac_updatedAt := t\<rparr> in
       bind_act (read_act (\<lambda>s. changes (claim_hit current) (db_actions s))) (\<lambda>n.
       seq_act (set_action (claim_hit current) blocked)
      (seq_act (require (n = 1) Invalid_argument)
      (seq_act (log_event (ac_taskId blocked) (ac_epochId blocked) ''ACTION_BLOCKED''
          [(''actionId'', Str aid), (''reason'', Str reason)] t)
         (return_act blocked))))))))"

definition interrupted_error :: "replay_policy \<Rightarrow> string" where
  "interrupted_error p = (if p = SAFE_REOBSERVE then ''INTERRUPTED_REQUEUED'' else ''INTERRUPTED_UNCERTAIN'')"

definition recover_action ::
  "id \<times> id \<Rightarrow> investigation_action \<Rightarrow> ('a db_scheme, investigation_action) act" where
  "recover_action scope current = bind_act now (\<lambda>t.
     let status = (if ac_replayPolicy current = SAFE_REOBSERVE then AC_READY else AC_BLOCKED);
         error = Some (interrupted_error (ac_replayPolicy current));
         action = current\<lparr>ac_workerId := None, ac_status := status, ac_error := error,
           ac_revision := ac_revision current + 1, ac_updatedAt := t\<rparr> in
     seq_act (set_action (\<lambda>a. ac_actionId a = ac_actionId action \<and> ac_status a = AC_RUNNING
          \<and> ac_revision a = ac_revision current) action)
    (bind_act (read_act (running_attempt (ac_actionId action))) (\<lambda>attempt.
     seq_act (case attempt of None \<Rightarrow> return_act ()
         | Some x \<Rightarrow> close_attempt x (if status = AC_READY then AT_FAILED else AT_BLOCKED) error t)
    (seq_act (log_event (fst scope) (snd scope) ''ACTION_RECOVERED''
        [(''actionId'', Str (ac_actionId action)), (''status'', Str (action_status_name status)),
         (''replayPolicy'', Str (replay_name (ac_replayPolicy action)))] t)
       (return_act action)))))"

definition recoverInterruptedInvestigationActions ::
  "id \<Rightarrow> id \<Rightarrow> ('a db_scheme, investigation_action list) act" where
  "recoverInterruptedInvestigationActions tid eid =
     bind_act (read_act (\<lambda>s. filter (\<lambda>a. ac_status a = AC_RUNNING) (listInvestigationActions tid eid s)))
       (\<lambda>running. if running = [] then return_act []
          else transaction (map_act (recover_action (tid, eid)) running))"

definition listInvestigationActionAttempts ::
  "id \<Rightarrow> id \<Rightarrow> id option \<Rightarrow> 'a db_scheme \<Rightarrow> action_attempt list" where
  "listInvestigationActionAttempts tid eid aid s = (case nonempty aid of
     Some x \<Rightarrow> order_by at_attempt (filter (\<lambda>t. at_taskId t = tid \<and> at_epochId t = eid
        \<and> at_actionId t = x) (db_attempts s))
   | None \<Rightarrow> order_by at_startedAt (filter (\<lambda>t. at_taskId t = tid \<and> at_epochId t = eid) (db_attempts s)))"

section \<open>Checkpoints and snapshots\<close>

definition checkpoint_key :: "discovery_checkpoint \<Rightarrow> id \<times> id \<times> namespace_name \<times> string" where
  "checkpoint_key c = (ck_taskId c, ck_epochId c, ck_namespace c, ck_requestDigest c)"

text \<open>The first checkpoint of a request keeps its id and creation time; later ones update it in place.\<close>

definition putDiscoveryCheckpoint ::
  "discovery_checkpoint \<Rightarrow> ('a db_scheme, discovery_checkpoint) act" where
  "putDiscoveryCheckpoint v = seq_act (assertInvestigationScope (ck_taskId v) (ck_epochId v))
     (bind_act (read_act (\<lambda>s. List.find (\<lambda>c. checkpoint_key c = checkpoint_key v) (db_checkpoints s))) (\<lambda>existing.
      case existing of
        Some p \<Rightarrow> let stored = v\<lparr>ck_checkpointId := ck_checkpointId p, ck_createdAt := ck_createdAt p\<rparr> in
          seq_act (write_act (\<lambda>s. s\<lparr>db_checkpoints := update_rows
              (\<lambda>c. checkpoint_key c = checkpoint_key v) (\<lambda>_. stored) (db_checkpoints s)\<rparr>))
            (return_act stored)
      | None \<Rightarrow> bind_act (read_act db_checkpoints) (\<lambda>rows.
          seq_act (require (\<not> has_key ck_checkpointId (ck_checkpointId v) rows) Constraint_error)
         (seq_act (write_act (\<lambda>s. s\<lparr>db_checkpoints := db_checkpoints s @ [v]\<rparr>)) (return_act v)))))"

definition listDiscoveryCheckpoints :: "id \<Rightarrow> id \<Rightarrow> 'a db_scheme \<Rightarrow> discovery_checkpoint list" where
  "listDiscoveryCheckpoints tid eid s =
     order_by ck_createdAt (filter (\<lambda>c. ck_taskId c = tid \<and> ck_epochId c = eid) (db_checkpoints s))"

definition putCompletionSnapshot :: "completion_snapshot \<Rightarrow> ('a db_scheme, unit) act" where
  "putCompletionSnapshot v = seq_act (assertInvestigationScope (cs_taskId v) (cs_epochId v))
     (bind_act (read_act db_snapshots) (\<lambda>rows.
        seq_act (require (\<not> has_key cs_snapshotRef (cs_snapshotRef v) rows) Constraint_error)
          (write_act (\<lambda>s. s\<lparr>db_snapshots := db_snapshots s @ [v]\<rparr>))))"

definition getCompletionSnapshot :: "id \<Rightarrow> id \<Rightarrow> id \<Rightarrow> 'a db_scheme \<Rightarrow> completion_snapshot option" where
  "getCompletionSnapshot tid eid ref s = List.find
     (\<lambda>c. cs_snapshotRef c = ref \<and> cs_taskId c = tid \<and> cs_epochId c = eid) (db_snapshots s)"

end
