(* ===== verification/ActionQueue.thy ===== *)
theory ActionQueue
  imports Investigation Approvals
begin

text \<open>
  The action queue as a state machine. \<open>queue_step\<close> is the abstract machine on the two tables
  of actions and attempts: an action is added, merged, claimed, left (finished or recovered)
  or blocked. Every queue operation of the store refines a sequence of its steps, and the
  invariant and the progress of the queue are proved once on the machine.
\<close>

section \<open>The abstract machine\<close>

type_synonym queue = "investigation_action list \<times> action_attempt list"

definition tables :: "'a db_scheme \<Rightarrow> queue" where
  "tables s = (db_actions s, db_attempts s)"

text \<open>What no operation changes in an action.\<close>

definition same_action :: "investigation_action \<Rightarrow> investigation_action \<Rightarrow> bool" where
  "same_action a b \<longleftrightarrow> ac_actionId b = ac_actionId a \<and> ac_scope b = ac_scope a
     \<and> ac_idempotencyKey b = ac_idempotencyKey a \<and> ac_dependsOn b = ac_dependsOn a
     \<and> ac_operationRef b = ac_operationRef a \<and> ac_args b = ac_args a \<and> ac_argsDigest b = ac_argsDigest a
     \<and> ac_replayPolicy b = ac_replayPolicy a \<and> ac_authorizationVersion b = ac_authorizationVersion a
     \<and> ac_kind b = ac_kind a \<and> ac_requestedBy b = ac_requestedBy a \<and> ac_createdAt b = ac_createdAt a"

definition put_action :: "investigation_action \<Rightarrow> investigation_action list \<Rightarrow> investigation_action list" where
  "put_action a A = update_rows (\<lambda>x. ac_actionId x = ac_actionId a) (\<lambda>_. a) A"

definition active_in :: "id \<times> id \<Rightarrow> investigation_action list \<Rightarrow> nat" where
  "active_in scope A = changes (\<lambda>a. ac_scope a = scope \<and> action_active (ac_status a)) A"

definition attempts_of :: "id \<Rightarrow> action_attempt list \<Rightarrow> action_attempt list" where
  "attempts_of aid T = filter (\<lambda>t. at_actionId t = aid) T"

definition running_of :: "id \<Rightarrow> action_attempt list \<Rightarrow> action_attempt list" where
  "running_of aid T = filter (\<lambda>t. at_actionId t = aid \<and> at_status t = AT_RUNNING) T"

definition close_row :: "action_attempt \<Rightarrow> action_attempt list \<Rightarrow> action_attempt list" where
  "close_row t T = update_rows (\<lambda>x. at_attemptId x = at_attemptId t \<and> at_status x = AT_RUNNING) (\<lambda>_. t) T"

inductive queue_step :: "queue \<Rightarrow> queue \<Rightarrow> bool" where
  add: "ac_actionId a \<notin> ac_actionId ` set A \<Longrightarrow> ac_idempotencyKey a \<notin> ac_idempotencyKey ` set A \<Longrightarrow>
    ac_status a \<noteq> AC_RUNNING \<Longrightarrow> set (ac_dependsOn a) \<subseteq> ac_actionId ` {x \<in> set A. ac_scope x = ac_scope a} \<Longrightarrow>
    (ac_status a = AC_READY \<longrightarrow> active_in (ac_scope a) A < MAX_ACTIVE_INVESTIGATION_ACTIONS) \<Longrightarrow>
    queue_step (A, T) (A @ [a], T)"
| merge: "c \<in> set A \<Longrightarrow> same_action c a \<Longrightarrow> ac_status a = ac_status c \<Longrightarrow> ac_revision a = ac_revision c \<Longrightarrow>
    ac_resultRefs a = ac_resultRefs c \<Longrightarrow> ac_error a = ac_error c \<Longrightarrow>
    queue_step (A, T) (put_action a A, T)"
| claim: "c \<in> set A \<Longrightarrow> same_action c a \<Longrightarrow> ac_status c = AC_READY \<Longrightarrow> ac_status a = AC_RUNNING \<Longrightarrow>
    ac_revision a = ac_revision c + 1 \<Longrightarrow> at_attemptId t \<notin> at_attemptId ` set T \<Longrightarrow>
    at_actionId t = ac_actionId c \<Longrightarrow> at_status t = AT_RUNNING \<Longrightarrow>
    at_attempt t = Suc (length (attempts_of (ac_actionId c) T)) \<Longrightarrow>
    queue_step (A, T) (put_action a A, T @ [t])"
| leave: "c \<in> set A \<Longrightarrow> same_action c a \<Longrightarrow> ac_status c = AC_RUNNING \<Longrightarrow> ac_status a \<noteq> AC_RUNNING \<Longrightarrow>
    (ac_status a = AC_READY \<longrightarrow> ac_replayPolicy c = SAFE_REOBSERVE) \<Longrightarrow>
    ac_revision a = ac_revision c + 1 \<Longrightarrow> x \<in> set T \<Longrightarrow> at_actionId x = ac_actionId c \<Longrightarrow>
    at_status x = AT_RUNNING \<Longrightarrow> at_attemptId t = at_attemptId x \<Longrightarrow> at_actionId t = at_actionId x \<Longrightarrow>
    at_attempt t = at_attempt x \<Longrightarrow> at_status t \<noteq> AT_RUNNING \<Longrightarrow>
    queue_step (A, T) (put_action a A, close_row t T)"
| block: "c \<in> set A \<Longrightarrow> same_action c a \<Longrightarrow> ac_status c = AC_READY \<Longrightarrow> ac_status a = AC_BLOCKED \<Longrightarrow>
    ac_revision a = ac_revision c + 1 \<Longrightarrow> queue_step (A, T) (put_action a A, T)"

section \<open>The invariant of the machine\<close>

fun deps_before :: "id set \<Rightarrow> investigation_action list \<Rightarrow> bool" where
  "deps_before seen [] = True"
| "deps_before seen (a # A) = (set (ac_dependsOn a) \<subseteq> seen \<and> deps_before (insert (ac_actionId a) seen) A)"

definition machine_inv :: "queue \<Rightarrow> bool" where
  "machine_inv q = (case q of (A, T) \<Rightarrow>
     distinct (map ac_actionId A) \<and> distinct (map ac_idempotencyKey A) \<and> distinct (map at_attemptId T)
   \<and> (\<forall>t\<in>set T. at_actionId t \<in> ac_actionId ` set A)
   \<and> (\<forall>a\<in>set A. length (running_of (ac_actionId a) T) = (if ac_status a = AC_RUNNING then 1 else 0))
   \<and> (\<forall>aid. map at_attempt (attempts_of aid T) = [1..<Suc (length (attempts_of aid T))])
   \<and> (\<forall>scope. active_in scope A \<le> MAX_ACTIVE_INVESTIGATION_ACTIONS)
   \<and> deps_before {} A)"

lemma put_action_map:
  assumes "\<And>x. x \<in> set A \<Longrightarrow> ac_actionId x = ac_actionId a \<Longrightarrow> f a = f x"
  shows "map f (put_action a A) = map f A"
  using assms by (induction A) (auto simp: put_action_def update_rows_def)

lemma unique_action: "distinct (map ac_actionId A) \<Longrightarrow> x \<in> set A \<Longrightarrow> y \<in> set A \<Longrightarrow>
    ac_actionId x = ac_actionId y \<Longrightarrow> x = y"
  by (auto simp: distinct_map inj_on_def)

lemma put_action_set:
  assumes "distinct (map ac_actionId A)" and "c \<in> set A" and "ac_actionId a = ac_actionId c"
  shows "set (put_action a A) = insert a (set A - {c})"
proof -
  have "\<And>x. x \<in> set A \<Longrightarrow> (ac_actionId x = ac_actionId a) = (x = c)"
    using assms by (metis unique_action)
  then have "set (put_action a A) = (\<lambda>x. if x = c then a else x) ` set A"
    unfolding put_action_def update_rows_set by (auto intro!: image_cong)
  with assms(2) show ?thesis by auto
qed

lemma put_action_other: "ac_actionId a \<notin> ac_actionId ` set A \<Longrightarrow> put_action a A = A"
  by (auto simp: put_action_def update_rows_def image_iff intro!: map_idI)

lemma put_action_Cons: "put_action a (x # A) = (if ac_actionId x = ac_actionId a then a else x) # put_action a A"
  by (simp add: put_action_def update_rows_def)

lemma deps_before_put:
  assumes "\<And>x. x \<in> set A \<Longrightarrow> ac_actionId x = ac_actionId a \<Longrightarrow> ac_dependsOn a = ac_dependsOn x"
  shows "deps_before seen (put_action a A) = deps_before seen A"
  using assms
proof (induction A arbitrary: seen)
  case Nil
  then show ?case by (simp add: put_action_def update_rows_def)
next
  case (Cons x A)
  have eq: "ac_actionId x = ac_actionId a \<Longrightarrow> ac_dependsOn a = ac_dependsOn x"
    using Cons.prems by simp
  have "deps_before seen' (put_action a A) = deps_before seen' A" for seen'
    using Cons by simp
  then show ?case using eq by (cases "ac_actionId x = ac_actionId a") (simp_all add: put_action_Cons)
qed

lemma deps_before_append:
  "deps_before seen (A @ [a]) \<longleftrightarrow> deps_before seen A \<and> set (ac_dependsOn a) \<subseteq> seen \<union> ac_actionId ` set A"
  by (induction A arbitrary: seen) auto

lemma active_in_put:
  assumes "distinct (map ac_actionId A)" and "c \<in> set A" and "same_action c a"
    and "action_active (ac_status a) \<longrightarrow> action_active (ac_status c)"
  shows "active_in scope (put_action a A) \<le> active_in scope A"
  using assms
proof (induction A)
  case (Cons x A)
  show ?case
  proof (cases "x = c")
    case True
    with Cons.prems(1,3) have "put_action a A = A"
      by (intro put_action_other) (simp add: same_action_def)
    with True Cons.prems(3,4) show ?thesis
      by (auto simp: active_in_def changes_def put_action_Cons same_action_def)
  next
    case False
    with Cons.prems have "ac_actionId x \<noteq> ac_actionId a" by (auto simp: same_action_def)
    with False Cons show ?thesis
      by (auto simp: active_in_def changes_def put_action_Cons)
  qed
qed simp

lemma close_row_Cons: "close_row t (y # T) =
    (if at_attemptId y = at_attemptId t \<and> at_status y = AT_RUNNING then t else y) # close_row t T"
  by (simp add: close_row_def update_rows_def)

lemma close_row_other: "at_attemptId t \<notin> at_attemptId ` set T \<Longrightarrow> close_row t T = T"
  by (auto simp: close_row_def update_rows_def image_iff intro!: map_idI)

text \<open>Closing the running attempt \<open>x\<close> takes exactly it from the running ones and keeps the rest.\<close>

lemma close_row_effect:
  assumes "distinct (map at_attemptId T)" and "x \<in> set T" and "at_status x = AT_RUNNING"
    and "at_attemptId t = at_attemptId x" "at_actionId t = at_actionId x" "at_attempt t = at_attempt x"
    and "at_status t \<noteq> AT_RUNNING"
  shows "map at_attemptId (close_row t T) = map at_attemptId T"
    and "map at_actionId (close_row t T) = map at_actionId T"
    and "map at_attempt (attempts_of aid (close_row t T)) = map at_attempt (attempts_of aid T)"
    and "length (running_of aid (close_row t T)) =
      length (running_of aid T) - (if aid = at_actionId x then 1 else 0)"
    and "aid = at_actionId x \<Longrightarrow> 0 < length (running_of aid T)"
  using assms(1,2)
proof (induction T)
  case (Cons y T)
  { case 1 then show ?case using Cons assms(3-) by (cases "y = x") (auto simp: close_row_Cons close_row_other) }
  { case 2 then show ?case using Cons assms(3-) by (cases "y = x") (auto simp: close_row_Cons close_row_other) }
  { case 3 then show ?case using Cons assms(3-)
      by (cases "y = x") (auto simp: close_row_Cons close_row_other attempts_of_def) }
  { case 4 then show ?case using Cons assms(3-)
      by (cases "y = x") (auto simp: close_row_Cons close_row_other running_of_def) }
  { case 5 then show ?case using Cons assms(3-) by (cases "y = x") (auto simp: running_of_def) }
qed simp_all

lemma machine_invD:
  assumes "machine_inv (A, T)"
  shows "distinct (map ac_actionId A)" "distinct (map ac_idempotencyKey A)" "distinct (map at_attemptId T)"
    "t \<in> set T \<Longrightarrow> at_actionId t \<in> ac_actionId ` set A"
    "a \<in> set A \<Longrightarrow> length (running_of (ac_actionId a) T) = (if ac_status a = AC_RUNNING then 1 else 0)"
    "map at_attempt (attempts_of aid T) = [1..<Suc (length (attempts_of aid T))]"
    "active_in scope A \<le> MAX_ACTIVE_INVESTIGATION_ACTIONS" "deps_before {} A"
  using assms unfolding machine_inv_def prod.case by blast+

lemma machine_invI:
  assumes "distinct (map ac_actionId A)" "distinct (map ac_idempotencyKey A)" "distinct (map at_attemptId T)"
    "\<And>t. t \<in> set T \<Longrightarrow> at_actionId t \<in> ac_actionId ` set A"
    "\<And>a. a \<in> set A \<Longrightarrow> length (running_of (ac_actionId a) T) = (if ac_status a = AC_RUNNING then 1 else 0)"
    "\<And>aid. map at_attempt (attempts_of aid T) = [1..<Suc (length (attempts_of aid T))]"
    "\<And>scope. active_in scope A \<le> MAX_ACTIVE_INVESTIGATION_ACTIONS" "deps_before {} A"
  shows "machine_inv (A, T)"
  using assms unfolding machine_inv_def prod.case by blast

text \<open>Rewriting one action, with what then has to hold of the attempts.\<close>

lemma machine_inv_put:
  assumes inv: "machine_inv (A, T)" and c: "c \<in> set A" and a: "same_action c a"
    and act: "action_active (ac_status a) \<longrightarrow> action_active (ac_status c)"
    and T': "distinct (map at_attemptId T')" "\<And>t. t \<in> set T' \<Longrightarrow> at_actionId t \<in> ac_actionId ` set A"
      "\<And>aid. map at_attempt (attempts_of aid T') = [1..<Suc (length (attempts_of aid T'))]"
    and run: "length (running_of (ac_actionId c) T') = (if ac_status a = AC_RUNNING then 1 else 0)"
      "\<And>aid. aid \<noteq> ac_actionId c \<Longrightarrow> length (running_of aid T') = length (running_of aid T)"
  shows "machine_inv (put_action a A, T')"
proof -
  note D = machine_invD [OF inv]
  have same: "ac_actionId a = ac_actionId c" "ac_idempotencyKey a = ac_idempotencyKey c"
    "ac_dependsOn a = ac_dependsOn c" using a by (simp_all add: same_action_def)
  have is_c: "x = c" if "x \<in> set A" "ac_actionId x = ac_actionId a" for x
    using unique_action [OF D(1) that(1) c] that(2) same(1) by simp
  have ids: "map ac_actionId (put_action a A) = map ac_actionId A"
    "map ac_idempotencyKey (put_action a A) = map ac_idempotencyKey A"
    by (rule put_action_map; use is_c same in auto)+
  have ids': "ac_actionId ` set (put_action a A) = ac_actionId ` set A"
    by (metis ids(1) set_map)
  show ?thesis
  proof (rule machine_invI)
    fix y assume "y \<in> set (put_action a A)"
    then have cases: "y = a \<or> (y \<in> set A \<and> y \<noteq> c)" by (auto simp: put_action_set [OF D(1) c same(1)])
    show "length (running_of (ac_actionId y) T') = (if ac_status y = AC_RUNNING then 1 else 0)"
    proof (cases "y = a")
      case True
      with run(1) same show ?thesis by simp
    next
      case False
      with cases have y: "y \<in> set A" "y \<noteq> c" by auto
      then have "ac_actionId y \<noteq> ac_actionId c" using unique_action [OF D(1) _ c] by blast
      with run(2) D(5) [OF y(1)] show ?thesis by simp
    qed
  next
    fix scope
    show "active_in scope (put_action a A) \<le> MAX_ACTIVE_INVESTIGATION_ACTIONS"
      using active_in_put [OF D(1) c a act, of scope] D(7) [of scope] by simp
  next
    have "ac_dependsOn a = ac_dependsOn x" if "x \<in> set A" "ac_actionId x = ac_actionId a" for x
      using is_c [OF that] same(3) by simp
    then show "deps_before {} (put_action a A)" using D(8) by (simp add: deps_before_put)
  next
    show "distinct (map ac_actionId (put_action a A))" "distinct (map ac_idempotencyKey (put_action a A))"
      unfolding ids by (fact D(1), fact D(2))
  next
    fix t assume "t \<in> set T'"
    then show "at_actionId t \<in> ac_actionId ` set (put_action a A)" unfolding ids' by (rule T'(2))
  next
    show "distinct (map at_attemptId T')" by (fact T'(1))
  next
    fix aid
    show "map at_attempt (attempts_of aid T') = [1..<Suc (length (attempts_of aid T'))]" by (fact T'(3))
  qed
qed

lemma same_action_id: "same_action c a \<Longrightarrow> ac_actionId a = ac_actionId c"
  by (simp add: same_action_def)

lemma attempts_of_append: "attempts_of aid (T @ [t]) = attempts_of aid T @ (if at_actionId t = aid then [t] else [])"
  by (simp add: attempts_of_def)

lemma running_of_append: "running_of aid (T @ [t]) =
    running_of aid T @ (if at_actionId t = aid \<and> at_status t = AT_RUNNING then [t] else [])"
  by (simp add: running_of_def)

theorem queue_step_inv: "queue_step q q' \<Longrightarrow> machine_inv q \<Longrightarrow> machine_inv q'"
proof (induction rule: queue_step.induct)
  case (add a A T)
  note D = machine_invD [OF add.prems]
  have none: "at_actionId t \<noteq> ac_actionId a" if "t \<in> set T" for t
    using D(4) [OF that] add.hyps(1) by metis
  then have none: "running_of (ac_actionId a) T = []" by (simp add: running_of_def filter_empty_conv)
  have deps: "set (ac_dependsOn a) \<subseteq> ac_actionId ` set A" using add.hyps(4) by auto
  have active: "active_in scope (A @ [a]) \<le> MAX_ACTIVE_INVESTIGATION_ACTIONS" for scope
    using D(7) [of scope] add.hyps(3,5)
    by (cases "ac_status a") (auto simp: active_in_def changes_def)
  show ?case
  proof (rule machine_invI)
    fix x assume "x \<in> set (A @ [a])"
    then show "length (running_of (ac_actionId x) T) = (if ac_status x = AC_RUNNING then 1 else 0)"
      using D(5) [of x] none add.hyps(3) by auto
  next
    fix t assume "t \<in> set T"
    then show "at_actionId t \<in> ac_actionId ` set (A @ [a])" using D(4) by auto
  qed (use D add.hyps deps active in \<open>simp_all add: deps_before_append\<close>)
next
  case (merge c A a T)
  note D = machine_invD [OF merge.prems]
  show ?case
    by (rule machine_inv_put [OF merge.prems merge.hyps(1,2)])
      (use merge.hyps D(3,4,6) D(5) [OF merge.hyps(1)] in simp_all)
next
  case (claim c A a t T)
  note D = machine_invD [OF claim.prems]
  have none: "running_of (ac_actionId c) T = []" using D(5) [OF claim.hyps(1)] claim.hyps(3) by simp
  have nums: "map at_attempt (attempts_of aid (T @ [t])) = [1..<Suc (length (attempts_of aid (T @ [t])))]" for aid
    using D(6) [of aid] claim.hyps(7,9) by (simp add: attempts_of_append)
  show ?case
    by (rule machine_inv_put [OF claim.prems claim.hyps(1,2)])
      (use claim.hyps D(3,4) none nums in \<open>auto simp: running_of_append\<close>)
next
  case (leave c A a x T t)
  note D = machine_invD [OF leave.prems]
  note eff = close_row_effect [OF D(3) leave.hyps(7,9) leave.hyps(10,11,12,13)]
  have len: "length (attempts_of aid (close_row t T)) = length (attempts_of aid T)" for aid
    using arg_cong [OF eff(3) [of aid], of length] by simp
  have owner: "at_actionId y \<in> ac_actionId ` set A" if "y \<in> set (close_row t T)" for y
  proof -
    from that have "at_actionId y \<in> set (map at_actionId (close_row t T))" by simp
    then show ?thesis unfolding eff(2) using D(4) by auto
  qed
  show ?case
    by (rule machine_inv_put [OF leave.prems leave.hyps(1,2)])
      (use leave.hyps D(3,6) D(5) [OF leave.hyps(1)] eff owner len in simp_all)
next
  case (block c A a T)
  note D = machine_invD [OF block.prems]
  show ?case
    by (rule machine_inv_put [OF block.prems block.hyps(1,2)])
      (use block.hyps D(3,4,6) D(5) [OF block.hyps(1)] in simp_all)
qed

section \<open>Progress of the machine\<close>

definition action_le :: "investigation_action \<Rightarrow> investigation_action \<Rightarrow> bool" where
  "action_le a b \<longleftrightarrow> same_action a b \<and> ac_revision a \<le> ac_revision b
     \<and> (action_terminal (ac_status a) \<longrightarrow> ac_status b = ac_status a \<and> ac_revision b = ac_revision a
          \<and> ac_resultRefs b = ac_resultRefs a \<and> ac_error b = ac_error a)"

definition queue_le :: "queue \<Rightarrow> queue \<Rightarrow> bool" where
  "queue_le q q' \<longleftrightarrow> (\<forall>a\<in>set (fst q). \<exists>b\<in>set (fst q'). action_le a b)"

lemma same_action_refl [simp]: "same_action a a"
  by (simp add: same_action_def)

lemma action_le_refl [simp]: "action_le a a"
  by (simp add: action_le_def)

lemma action_le_trans: "action_le a b \<Longrightarrow> action_le b c \<Longrightarrow> action_le a c"
  by (auto simp: action_le_def same_action_def)

lemma queue_le_refl [simp]: "queue_le q q"
  unfolding queue_le_def by (meson action_le_refl)

lemma queue_le_trans: "queue_le q r \<Longrightarrow> queue_le r t \<Longrightarrow> queue_le q t"
  unfolding queue_le_def by (meson action_le_trans)

lemma queue_le_put:
  assumes "distinct (map ac_actionId A)" and "c \<in> set A" and "action_le c a"
  shows "queue_le (A, T) (put_action a A, T')"
proof -
  have "set (put_action a A) = insert a (set A - {c})"
    by (rule put_action_set) (use assms in \<open>auto simp: action_le_def same_action_def\<close>)
  moreover have "\<exists>b\<in>insert a (set A - {c}). action_le x b" if "x \<in> set A" for x
    using assms(3) that by (cases "x = c") (auto intro: bexI [of _ x])
  ultimately show ?thesis by (simp add: queue_le_def)
qed

theorem queue_step_le: "queue_step q q' \<Longrightarrow> machine_inv q \<Longrightarrow> queue_le q q'"
proof (induction rule: queue_step.induct)
  case (add a A T)
  show ?case unfolding queue_le_def by (auto intro: bexI [of _ x for x] action_le_refl)
next
  case (merge c A a T)
  then show ?case by (intro queue_le_put [of _ c]) (auto simp: action_le_def dest: machine_invD(1))
next
  case (claim c A a t T)
  then show ?case by (intro queue_le_put [of _ c]) (auto simp: action_le_def dest: machine_invD(1))
next
  case (leave c A a x T t)
  then show ?case by (intro queue_le_put [of _ c]) (auto simp: action_le_def dest: machine_invD(1))
next
  case (block c A a T)
  then show ?case by (intro queue_le_put [of _ c]) (auto simp: action_le_def dest: machine_invD(1))
qed

abbreviation queue_steps :: "queue \<Rightarrow> queue \<Rightarrow> bool" where
  "queue_steps \<equiv> rtranclp queue_step"

lemma queue_steps_inv: "queue_steps q q' \<Longrightarrow> machine_inv q \<Longrightarrow> machine_inv q' \<and> queue_le q q'"
proof (induction rule: rtranclp_induct)
  case (step q r)
  then show ?case using queue_step_inv queue_step_le queue_le_trans by blast
qed simp

section \<open>What the helpers leave alone\<close>

lemma tables_event [obeys_intros]:
  "obeys (same tables) (appendInvestigationEvent a b c d e f g)"
  by (auto simp: appendInvestigationEvent_def Let_def same_def tables_def intro!: obeys_intros)

lemma tables_now [obeys_intros]: "obeys (same tables) now" "obeys (same tables) (create_id p)"
  by (auto simp: tables_def intro: same_now same_create_id)

lemma tables_log [obeys_intros]: "obeys (same tables) (log_event a b c d e)"
  unfolding log_event_def by (intro obeys_intros)

lemma tables_resolve [obeys_intros]: "obeys (same tables) (resolve_open_obligation a b c d)"
  by (auto simp: resolve_open_obligation_def log_obligation_def Let_def same_def tables_def intro!: obeys_intros)

lemma tables_gap [obeys_intros]: "obeys (same tables) (insert_gap g)"
  by (auto simp: insert_gap_def same_def tables_def intro!: obeys_intros)

lemma tables_capacity [obeys_intros]: "obeys (same tables) (report_capacity a n)"
  unfolding report_capacity_def Let_def by (intro obeys_intros)

lemma tables_scope: "assertInvestigationScope tid eid s = (r, s') \<Longrightarrow> s' = s"
  by (auto simp: assertInvestigationScope_def act_unfold split: if_splits option.splits)

lemma set_action_eq: "set_action hit a s = (Inr (), s\<lparr>db_actions := update_rows hit (\<lambda>_. a) (db_actions s)\<rparr>)"
  by (simp add: set_action_def)

lemma update_put:
  assumes "distinct (map ac_actionId A)" and "c \<in> set A" and "ac_actionId a = ac_actionId c"
    and "\<And>x. x \<in> set A \<Longrightarrow> hit x \<longleftrightarrow> x = c"
  shows "update_rows hit (\<lambda>_. a) A = put_action a A"
  unfolding put_action_def update_rows_def
  using assms by (auto intro!: map_cong dest: unique_action)

lemma find_action_SomeD: "find_action aid s = Some a \<Longrightarrow> a \<in> set (db_actions s) \<and> ac_actionId a = aid"
  by (auto simp: find_action_def dest: find_SomeD)

lemma running_attempt_SomeD: "running_attempt aid s = Some t \<Longrightarrow>
    t \<in> set (db_attempts s) \<and> at_actionId t = aid \<and> at_status t = AT_RUNNING"
  by (auto simp: running_attempt_def split: list.splits dest!: hd_order_by_desc)

lemma running_attempt_None: "running_attempt aid s = None \<longleftrightarrow> running_of aid (db_attempts s) = []"
proof -
  have "running_attempt aid s = None \<longleftrightarrow> order_by_desc at_attempt (running_of aid (db_attempts s)) = []"
    by (simp add: running_attempt_def running_of_def split: list.split)
  also have "\<dots> \<longleftrightarrow> set (running_of aid (db_attempts s)) = {}"
    by (metis set_empty set_order_by_desc)
  finally show ?thesis by simp
qed

section \<open>The store refines the machine\<close>

lemma tables_each_resolve [obeys_intros]:
  "obeys (same tables) (if b then each_act (resolve_open_obligation x y f) ids else return_act ())"
  "obeys (same tables) (if b then report_capacity a n else return_act ())"
  by (intro obeys_intros)+

lemma merge_tables:
  assumes "merge_action stored v s = (Inr r, s')"
  shows "tables s' = tables s \<or> (\<exists>t ids p. tables s' = (put_action (stored\<lparr>ac_obligationIds := ids,
      ac_priority := p, ac_updatedAt := t\<rparr>) (db_actions s), db_attempts s))"
proof -
  define ids where "ids = unique (ac_obligationIds stored @ ac_obligationIds v)"
  show ?thesis
  proof (cases "length ids = length (ac_obligationIds stored)")
    case True
    with assms show ?thesis by (simp add: merge_action_def Let_def ids_def)
  next
    case False
    from assms False obtain t m s1 s2 s3 u where
      m: "m = stored\<lparr>ac_obligationIds := ids, ac_priority := max (ac_priority stored) (ac_priority v),
        ac_updatedAt := t\<rparr>"
      and now: "now s = (Inr t, s1)" and set: "set_action (\<lambda>a. ac_actionId a = ac_actionId m) m s1 = (Inr (), s2)"
      and log: "log_event (ac_taskId v) (ac_epochId v) ''ACTION_OBLIGATIONS_MERGED''
          [(''actionId'', Str (ac_actionId m)), (''obligationIds'', js_ids ids)] t s2 = (Inr (), s3)"
      and rest: "(if action_terminal (ac_status m)
          then each_act (resolve_open_obligation (ac_taskId v, ac_epochId v) t (settled_obligation m t)) (ac_obligationIds v)
          else return_act ()) s3 = (Inr u, s')"
      unfolding merge_action_def Let_def ids_def [symmetric]
      by (simp only: act_simps if_False return_act_eq) auto
    have "tables s' = tables s2"
      using obeys_sameD [OF tables_log log] obeys_sameD [OF tables_each_resolve(1) rest] by simp
    moreover have "tables s2 = (put_action m (db_actions s), db_attempts s)"
      using now set by (auto simp: now_def set_action_eq tables_def put_action_def)
    ultimately have "tables s' = (put_action (stored\<lparr>ac_obligationIds := ids,
        ac_priority := max (ac_priority stored) (ac_priority v), ac_updatedAt := t\<rparr>) (db_actions s), db_attempts s)"
      using m by simp
    then show ?thesis by blast
  qed
qed

lemma merge_refines:
  assumes c: "stored \<in> set (db_actions s)" and run: "merge_action stored v s = (Inr r, s')"
  shows "queue_steps (tables s) (tables s')"
proof -
  have "queue_step (db_actions s, db_attempts s) (put_action (stored\<lparr>ac_obligationIds := ids,
      ac_priority := p, ac_updatedAt := t\<rparr>) (db_actions s), db_attempts s)" for ids p t
    by (rule queue_step.merge [OF c]) (simp_all add: same_action_def ac_scope_def)
  with merge_tables [OF run] show ?thesis by (auto simp: tables_def)
qed

lemma tables_created [obeys_intros]: "obeys (same tables) (report_created a b n)"
  unfolding report_created_def by (intro obeys_intros)

lemma changes_active: "active_count scope s = active_in scope (db_actions s)"
  by (simp add: active_count_def active_in_def)

lemma store_refines:
  assumes st: "ac_status v \<noteq> AC_RUNNING"
    and existing: "existing \<longleftrightarrow> has_key ac_idempotencyKey (ac_idempotencyKey v) (db_actions s)"
    and active: "active = (if existing then 0 else active_in (ac_scope v) (db_actions s))"
    and deps: "set (ac_dependsOn v) \<subseteq> ac_actionId ` {x \<in> set (db_actions s). ac_scope x = ac_scope v}"
    and run: "store_action v existing active s = (Inr r, s')"
  shows "queue_steps (tables s) (tables s')"
proof (cases "\<not> has_key ac_actionId (ac_actionId v) (db_actions s) \<and> \<not> existing")
  case True
  let ?c = "candidate_action v (queue_full v existing active)"
  let ?s1 = "s\<lparr>db_actions := db_actions s @ [?c]\<rparr>"
  from run True obtain stored where "report_created stored (queue_full v existing active) active ?s1 = (Inr r, s')"
    by (auto simp: store_action_def Let_def act_simps split: option.splits)
  then have "tables s' = tables ?s1" by (rule obeys_sameD [OF tables_created])
  moreover have "queue_step (db_actions s, db_attempts s) (db_actions s @ [?c], db_attempts s)"
  proof (rule queue_step.add)
    show "ac_actionId ?c \<notin> ac_actionId ` set (db_actions s)"
      "ac_idempotencyKey ?c \<notin> ac_idempotencyKey ` set (db_actions s)"
      using True existing by (simp_all add: candidate_action_def has_key_def)
    show "ac_status ?c \<noteq> AC_RUNNING" using st by (simp add: candidate_action_def)
    show "set (ac_dependsOn ?c) \<subseteq> ac_actionId ` {x \<in> set (db_actions s). ac_scope x = ac_scope ?c}"
      using deps by (simp add: candidate_action_def ac_scope_def)
    show "ac_status ?c = AC_READY \<longrightarrow> active_in (ac_scope ?c) (db_actions s) < MAX_ACTIVE_INVESTIGATION_ACTIONS"
      using True active by (auto simp: candidate_action_def queue_full_def ac_scope_def)
  qed
  ultimately show ?thesis by (simp add: tables_def r_into_rtranclp)
next
  case False
  with run obtain stored where found: "List.find (\<lambda>a. ac_idempotencyKey a = ac_idempotencyKey v) (db_actions s) = Some stored"
    and merge: "merge_action stored v s = (Inr r, s')"
    by (auto simp: store_action_def Let_def act_simps split: option.splits if_splits)
  from find_SomeD [OF found] have "stored \<in> set (db_actions s)" by blast
  from merge_refines [OF this merge] show ?thesis .
qed

lemma put_refines:
  assumes st: "ac_status v \<noteq> AC_RUNNING" and run: "putInvestigationAction v s = (Inr r, s')"
  shows "queue_steps (tables s) (tables s')"
proof -
  let ?existing = "has_key ac_idempotencyKey (ac_idempotencyKey v) (db_actions s)"
  have "set (ac_dependsOn v) \<subseteq> ac_actionId ` set (listInvestigationActions (ac_taskId v) (ac_epochId v) s)
      \<and> store_action v ?existing (if ?existing then 0 else active_count (ac_taskId v, ac_epochId v) s) s = (Inr r, s')"
    using run unfolding putInvestigationAction_def Let_def
    by (auto simp: act_simps dest!: tables_scope)
  then show ?thesis
    by (intro store_refines [OF st refl refl])
      (auto simp: listInvestigationActions_def ac_scope_def changes_active)
qed

text \<open>The loop of the claim is a search for the first claimable candidate.\<close>

definition claimable :: "id \<times> id \<Rightarrow> string \<Rightarrow> 'a db_scheme \<Rightarrow> investigation_action \<Rightarrow> bool" where
  "claimable scope auth s c \<longleftrightarrow> ac_authorizationVersion c = auth \<and> dependencies_met scope c s"

definition claimed :: "string \<Rightarrow> time \<Rightarrow> investigation_action \<Rightarrow> investigation_action" where
  "claimed worker t c = c\<lparr>ac_status := AC_RUNNING, ac_workerId := Some worker,
     ac_revision := ac_revision c + 1, ac_updatedAt := t\<rparr>"

lemma claim_hit_only:
  assumes "distinct (map ac_actionId (db_actions s))" and "c \<in> set (db_actions s)" and "ac_status c = AC_READY"
  shows "changes (claim_hit c) (db_actions s) = 1"
    and "ac_actionId a = ac_actionId c \<Longrightarrow>
      update_rows (claim_hit c) (\<lambda>_. a) (db_actions s) = put_action a (db_actions s)"
proof -
  have hit: "claim_hit c x \<longleftrightarrow> x = c" if "x \<in> set (db_actions s)" for x
    using unique_action [OF assms(1) that assms(2)] assms(3) by (auto simp: claim_hit_def)
  have "changes (claim_hit c) (db_actions s) = 1 \<longleftrightarrow> (\<exists>r\<in>set (db_actions s). claim_hit c r)"
    by (rule changes_one_iff [OF assms(1)]) (simp add: claim_hit_def)
  then show "changes (claim_hit c) (db_actions s) = 1" using assms(2) hit by blast
  show "ac_actionId a = ac_actionId c \<Longrightarrow>
      update_rows (claim_hit c) (\<lambda>_. a) (db_actions s) = put_action a (db_actions s)"
    by (rule update_put [OF assms(1,2)]) (use hit in auto)
qed

lemma claim_first_eq:
  assumes "distinct (map ac_actionId (db_actions s))"
    and "\<forall>c\<in>set cs. c \<in> set (db_actions s) \<and> ac_status c = AC_READY"
  shows "claim_first scope worker auth cs s = (case List.find (claimable scope auth s) cs of
      None \<Rightarrow> (Inr None, s)
    | Some c \<Rightarrow> let t = clock_tape s (clock_pos s) in
        start_attempt scope worker (claimed worker t c) t
          (s\<lparr>clock_pos := Suc (clock_pos s), db_actions := put_action (claimed worker t c) (db_actions s)\<rparr>))"
  using assms(2)
proof (induction cs)
  case (Cons c cs)
  then have c: "c \<in> set (db_actions s)" "ac_status c = AC_READY" by auto
  note hit = claim_hit_only [OF assms(1) c]
  have "changes (claim_hit c) (db_actions s) = Suc 0" using hit(1) by simp
  with Cons hit(2) show ?case
    by (auto simp: claimable_def bind_act_def now_def seq_act_def set_action_eq claimed_def Let_def)
qed simp

lemma ready_candidates_rows: "\<forall>c\<in>set (ready_candidates tid eid el s). c \<in> set (db_actions s)
    \<and> ac_status c = AC_READY \<and> ac_scope c = (tid, eid)"
  by (auto simp: ready_candidates_def listInvestigationActions_def)

lemma start_attempt_Inr:
  assumes "start_attempt scope worker a t s = (Inr r, s')"
  shows "\<exists>x. r = Some (a, x) \<and> tables s' = (db_actions s, db_attempts s @ [x])
    \<and> at_attemptId x \<notin> at_attemptId ` set (db_attempts s) \<and> at_actionId x = ac_actionId a
    \<and> at_status x = AT_RUNNING \<and> at_attempt x = Suc (length (attempts_of (ac_actionId a) (db_attempts s)))"
proof -
  from assms obtain aid x s1 s2 where id: "create_id ''ACT'' s = (Inr aid, s1)"
    and x: "x = \<lparr>at_attemptId = aid, at_actionId = ac_actionId a, at_taskId = fst scope,
           at_epochId = snd scope, at_attempt = Suc (changes (\<lambda>x. at_actionId x = ac_actionId a) (db_attempts s)),
           at_toolCallId = None, at_status = AT_RUNNING,
           at_error = None, at_startedAt = t, at_finishedAt = None\<rparr>"
    and ins: "insert_attempt x s1 = (Inr (), s2)" and r: "r = Some (a, x)"
    and log: "log_event (fst scope) (snd scope) ''ACTION_CLAIMED'' [(''actionId'', Str (ac_actionId a)),
        (''attemptId'', Str aid), (''workerId'', Str worker)] t s2 = (Inr (), s')"
    unfolding start_attempt_def Let_def by (simp only: act_simps read_act_eq return_act_eq) auto
  have "db_actions s1 = db_actions s" "db_attempts s1 = db_attempts s"
    using obeys_sameD [OF tables_now(2) id] by (simp_all add: tables_def)
  with ins have "tables s2 = (db_actions s, db_attempts s @ [x])"
    and "at_attemptId x \<notin> at_attemptId ` set (db_attempts s)"
    by (auto simp: insert_attempt_def act_simps tables_def has_key_def)
  with obeys_sameD [OF tables_log log] r show ?thesis
    by (auto simp: x attempts_of_def changes_def)
qed

lemma claim_refines:
  assumes inv: "machine_inv (tables s)"
    and run: "claimNextInvestigationAction tid eid worker auth el s = (Inr r, s')"
  shows "(r = None \<and> tables s' = tables s \<and> (\<forall>c\<in>set (ready_candidates tid eid el s). \<not> claimable (tid, eid) auth s c))
    \<or> (\<exists>c x t. r = Some (claimed worker t c, x)
         \<and> List.find (claimable (tid, eid) auth s) (ready_candidates tid eid el s) = Some c
         \<and> db_actions s' = put_action (claimed worker t c) (db_actions s) \<and> queue_step (tables s) (tables s'))"
proof -
  have dist: "distinct (map ac_actionId (db_actions s))" using inv by (simp add: tables_def machine_invD(1))
  note rows = ready_candidates_rows [of tid eid el s]
  from rows have "\<forall>c\<in>set (ready_candidates tid eid el s). c \<in> set (db_actions s) \<and> ac_status c = AC_READY"
    by blast
  note eq = claim_first_eq [OF dist this, of "(tid, eid)" worker auth]
  have run1: "claim_first (tid, eid) worker auth (ready_candidates tid eid el s) s = (Inr r, s')"
    using run by (auto simp: claimNextInvestigationAction_def act_simps dest: tables_scope)
  show ?thesis
  proof (cases "List.find (claimable (tid, eid) auth s) (ready_candidates tid eid el s)")
    case None
    with run1 eq have "r = None" "s' = s" by simp_all
    with find_None_iff' [THEN iffD1, OF None] show ?thesis by blast
  next
    case (Some c)
    from find_SomeD [OF Some] rows have c: "c \<in> set (db_actions s)" "ac_status c = AC_READY" by auto
    define t where "t = clock_tape s (clock_pos s)"
    let ?a = "claimed worker t c"
    from run1 eq Some have "start_attempt (tid, eid) worker ?a t
        (s\<lparr>clock_pos := Suc (clock_pos s), db_actions := put_action ?a (db_actions s)\<rparr>) = (Inr r, s')"
      by (simp add: t_def Let_def)
    from start_attempt_Inr [OF this] obtain x where x: "r = Some (?a, x)"
      "tables s' = (put_action ?a (db_actions s), db_attempts s @ [x])"
      "at_attemptId x \<notin> at_attemptId ` set (db_attempts s)" "at_actionId x = ac_actionId c"
      "at_status x = AT_RUNNING" "at_attempt x = Suc (length (attempts_of (ac_actionId c) (db_attempts s)))"
      by (auto simp: claimed_def)
    have "queue_step (db_actions s, db_attempts s) (put_action ?a (db_actions s), db_attempts s @ [x])"
      by (rule queue_step.claim [OF c(1) _ c(2)]) (use x in \<open>simp_all add: claimed_def same_action_def ac_scope_def\<close>)
    with x(1,2) Some show ?thesis by (auto simp: tables_def)
  qed
qed

lemma finish_refines:
  assumes inv: "machine_inv (tables s)" and st: "action_terminal status"
    and run: "finishInvestigationAction aid expected status refs error s = (Inr a, s')"
  shows "queue_step (tables s) (tables s') \<and> ac_actionId a = aid \<and> ac_status a = status
    \<and> ac_revision a = expected + 1 \<and> db_actions s' = put_action a (db_actions s)"
proof -
  have dist: "distinct (map ac_actionId (db_actions s))" using inv by (simp add: tables_def machine_invD(1))
  from run obtain c t x s1 s2 s3 where c: "find_action aid s = Some c" "ac_status c = AC_RUNNING" "ac_revision c = expected"
    and now: "now s = (Inr t, s1)"
    and a: "a = c\<lparr>ac_status := status, ac_resultRefs := Some refs,
             ac_error := (if nonempty error = None then ac_error c else error),
             ac_revision := ac_revision c + 1, ac_updatedAt := t\<rparr>"
    and set: "set_action (\<lambda>a. ac_actionId a = aid \<and> ac_revision a = expected) a s1 = (Inr (), s2)"
    and x: "running_attempt aid s2 = Some x"
    and close: "close_attempt x (attempt_of_action status) (nonempty error) t s2 = (Inr (), s3)"
    and log: "log_event (ac_taskId a) (ac_epochId a) ''ACTION_FINISHED''
           [(''actionId'', Str aid), (''status'', Str (action_status_name status)),
            (''resultRefs'', js_ids refs)] t s3 = (Inr (), s')"
    unfolding finishInvestigationAction_def Let_def
    by (auto simp: act_simps split: option.splits)
  from c(1) have mem: "c \<in> set (db_actions s)" "ac_actionId c = aid" by (auto dest: find_action_SomeD)
  have hit: "(ac_actionId y = aid \<and> ac_revision y = expected) \<longleftrightarrow> y = c" if "y \<in> set (db_actions s)" for y
    using unique_action [OF dist that mem(1)] mem(2) c(3) by auto
  have "update_rows (\<lambda>a. ac_actionId a = aid \<and> ac_revision a = expected) (\<lambda>_. a) (db_actions s) = put_action a (db_actions s)"
    by (rule update_put [OF dist mem(1)]) (use hit in \<open>auto simp: a\<close>)
  with now set have s2: "db_actions s2 = put_action a (db_actions s)" "db_attempts s2 = db_attempts s"
    by (auto simp: now_def set_action_eq)
  define t' where "t' = x\<lparr>at_status := attempt_of_action status,
    at_error := (if nonempty error = None then at_error x else nonempty error), at_finishedAt := Some t\<rparr>"
  from close have "tables s3 = (db_actions s2, close_row t' (db_attempts s2))"
    by (auto simp: close_attempt_def close_row_def tables_def t'_def)
  with obeys_sameD [OF tables_log log] s2 have tab: "tables s' = (put_action a (db_actions s), close_row t' (db_attempts s))"
    by simp
  from running_attempt_SomeD [OF x] s2(2) have xm: "x \<in> set (db_attempts s)" "at_actionId x = aid" "at_status x = AT_RUNNING"
    by auto
  have "queue_step (db_actions s, db_attempts s) (put_action a (db_actions s), close_row t' (db_attempts s))"
    by (rule queue_step.leave [OF mem(1) _ c(2) _ _ _ xm(1)])
      (use st xm mem in \<open>(cases status; simp add: a t'_def same_action_def ac_scope_def)+\<close>)
  with tab a mem c show ?thesis by (simp add: tables_def)
qed

lemma block_refines:
  assumes inv: "machine_inv (tables s)"
    and run: "blockReadyInvestigationAction aid reason s = (Inr a, s')"
  shows "queue_step (tables s) (tables s') \<and> ac_actionId a = aid \<and> ac_status a = AC_BLOCKED
    \<and> db_actions s' = put_action a (db_actions s)"
proof -
  have dist: "distinct (map ac_actionId (db_actions s))" using inv by (simp add: tables_def machine_invD(1))
  from run obtain c t s1 s2 where c: "find_action aid s = Some c" "ac_status c = AC_READY"
    and now: "now s = (Inr t, s1)"
    and a: "a = c\<lparr>ac_status := AC_BLOCKED, ac_error := Some reason,
             ac_revision := ac_revision c + 1, ac_updatedAt := t\<rparr>"
    and set: "set_action (claim_hit c) a s1 = (Inr (), s2)"
    and log: "log_event (ac_taskId a) (ac_epochId a) ''ACTION_BLOCKED''
          [(''actionId'', Str aid), (''reason'', Str reason)] t s2 = (Inr (), s')"
    unfolding blockReadyInvestigationAction_def Let_def
    by (auto simp: act_simps split: option.splits)
  from c(1) have mem: "c \<in> set (db_actions s)" "ac_actionId c = aid" by (auto dest: find_action_SomeD)
  have "update_rows (claim_hit c) (\<lambda>_. a) (db_actions s) = put_action a (db_actions s)"
    by (rule claim_hit_only(2) [OF dist mem(1) c(2)]) (simp add: a)
  with now set have "tables s2 = (put_action a (db_actions s), db_attempts s)"
    by (auto simp: now_def set_action_eq tables_def)
  with obeys_sameD [OF tables_log log] have tab: "tables s' = (put_action a (db_actions s), db_attempts s)" by simp
  have "queue_step (db_actions s, db_attempts s) (put_action a (db_actions s), db_attempts s)"
    by (rule queue_step.block [OF mem(1) _ c(2)]) (simp_all add: a same_action_def ac_scope_def)
  with tab a mem show ?thesis by (simp add: tables_def)
qed

lemma recover_one_refines:
  assumes inv: "machine_inv (tables s)" and c: "c \<in> set (db_actions s)" "ac_status c = AC_RUNNING"
    and run: "recover_action scope c s = (Inr a, s')"
  shows "queue_step (tables s) (tables s') \<and> same_action c a
    \<and> ac_status a = (if ac_replayPolicy c = SAFE_REOBSERVE then AC_READY else AC_BLOCKED)
    \<and> db_actions s' = put_action a (db_actions s)"
proof -
  note D = machine_invD [OF inv [unfolded tables_def]]
  define st where "st = (if ac_replayPolicy c = SAFE_REOBSERVE then AC_READY else AC_BLOCKED)"
  from run obtain t s1 s2 att s3 where now: "now s = (Inr t, s1)"
    and a: "a = c\<lparr>ac_workerId := None, ac_status := st, ac_error := Some (interrupted_error (ac_replayPolicy c)),
           ac_revision := ac_revision c + 1, ac_updatedAt := t\<rparr>"
    and set: "set_action (\<lambda>x. ac_actionId x = ac_actionId a \<and> ac_status x = AC_RUNNING
          \<and> ac_revision x = ac_revision c) a s1 = (Inr (), s2)"
    and att: "running_attempt (ac_actionId a) s2 = att"
    and close: "(case att of None \<Rightarrow> return_act ()
         | Some x \<Rightarrow> close_attempt x (if st = AC_READY then AT_FAILED else AT_BLOCKED)
            (Some (interrupted_error (ac_replayPolicy c))) t) s2 = (Inr (), s3)"
    and log: "log_event (fst scope) (snd scope) ''ACTION_RECOVERED''
        [(''actionId'', Str (ac_actionId a)), (''status'', Str (action_status_name st)),
         (''replayPolicy'', Str (replay_name (ac_replayPolicy a)))] t s3 = (Inr (), s')"
    unfolding recover_action_def Let_def st_def [symmetric]
    by (simp only: act_simps read_act_eq return_act_eq) auto
  have id: "ac_actionId a = ac_actionId c" by (simp add: a)
  have hit: "(ac_actionId y = ac_actionId a \<and> ac_status y = AC_RUNNING \<and> ac_revision y = ac_revision c) \<longleftrightarrow> y = c"
    if "y \<in> set (db_actions s)" for y
    using unique_action [OF D(1) that c(1)] c(2) by (auto simp: a)
  have "update_rows (\<lambda>x. ac_actionId x = ac_actionId a \<and> ac_status x = AC_RUNNING
      \<and> ac_revision x = ac_revision c) (\<lambda>_. a) (db_actions s) = put_action a (db_actions s)"
    by (rule update_put [OF D(1) c(1) id]) (use hit in blast)
  with now set have s2: "db_actions s2 = put_action a (db_actions s)" "db_attempts s2 = db_attempts s"
    by (auto simp: now_def set_action_eq)
  have "running_of (ac_actionId c) (db_attempts s) \<noteq> []" using D(5) [OF c(1)] c(2) by auto
  with att id s2(2) obtain x where x: "att = Some x" by (cases att) (auto simp: running_attempt_None)
  from att x s2(2) id have xm: "x \<in> set (db_attempts s)" "at_actionId x = ac_actionId c" "at_status x = AT_RUNNING"
    by (auto dest: running_attempt_SomeD)
  define t' where "t' = x\<lparr>at_status := (if st = AC_READY then AT_FAILED else AT_BLOCKED),
    at_error := Some (interrupted_error (ac_replayPolicy c)), at_finishedAt := Some t\<rparr>"
  from close x have "tables s3 = (db_actions s2, close_row t' (db_attempts s2))"
    by (auto simp: close_attempt_def close_row_def tables_def t'_def)
  with obeys_sameD [OF tables_log log] s2 have tab: "tables s' = (put_action a (db_actions s), close_row t' (db_attempts s))"
    by simp
  have "queue_step (db_actions s, db_attempts s) (put_action a (db_actions s), close_row t' (db_attempts s))"
    by (rule queue_step.leave [OF c(1) _ c(2) _ _ _ xm(1)])
      (use xm in \<open>simp_all add: a t'_def same_action_def ac_scope_def st_def\<close>)
  with tab show ?thesis by (simp add: tables_def a same_action_def ac_scope_def st_def)
qed

definition recovered :: "investigation_action \<Rightarrow> investigation_action \<Rightarrow> bool" where
  "recovered c a \<longleftrightarrow> same_action c a
     \<and> ac_status a = (if ac_replayPolicy c = SAFE_REOBSERVE then AC_READY else AC_BLOCKED)"

lemma recover_all_refines:
  assumes "machine_inv (tables s)" and "distinct cs"
    and "\<forall>c\<in>set cs. c \<in> set (db_actions s) \<and> ac_status c = AC_RUNNING"
    and "map_act (recover_action scope) cs s = (Inr rs, s')"
  shows "queue_steps (tables s) (tables s') \<and> list_all2 recovered cs rs
    \<and> set (db_actions s') = (set (db_actions s) - set cs) \<union> set rs"
  using assms
proof (induction cs arbitrary: s rs)
  case Nil
  then show ?case by simp
next
  case (Cons c cs)
  from Cons.prems(4) obtain a s1 rs' where one: "recover_action scope c s = (Inr a, s1)"
    and rest: "map_act (recover_action scope) cs s1 = (Inr rs', s')" and rs: "rs = a # rs'"
    by (auto simp: act_simps)
  have c: "c \<in> set (db_actions s)" "ac_status c = AC_RUNNING" using Cons.prems(3) by auto
  note D = machine_invD [OF Cons.prems(1) [unfolded tables_def]]
  from recover_one_refines [OF Cons.prems(1) c one] have step: "queue_step (tables s) (tables s1)"
    and a: "recovered c a" "ac_actionId a = ac_actionId c" and rows: "db_actions s1 = put_action a (db_actions s)"
    by (auto simp: recovered_def same_action_def)
  note set1 = put_action_set [OF D(1) c(1) a(2)]
  have inv1: "machine_inv (tables s1)" using queue_step_inv [OF step Cons.prems(1)] .
  have "\<forall>d\<in>set cs. d \<in> set (db_actions s1) \<and> ac_status d = AC_RUNNING"
    using Cons.prems(2,3) by (auto simp: rows set1)
  with Cons.IH [OF inv1 _ _ rest] Cons.prems(2) have IH: "queue_steps (tables s1) (tables s')"
    "list_all2 recovered cs rs'" "set (db_actions s') = (set (db_actions s1) - set cs) \<union> set rs'" by auto
  have "a \<notin> set cs"
  proof
    assume "a \<in> set cs"
    with Cons.prems(3) have "a \<in> set (db_actions s)" "ac_status a = AC_RUNNING" by auto
    with a(1) show False by (simp add: recovered_def split: if_splits)
  qed
  with IH(3) have "set (db_actions s') = (set (db_actions s) - set (c # cs)) \<union> set rs"
    by (auto simp: rows set1 rs)
  moreover have "queue_steps (tables s) (tables s')" using step IH(1) by (rule converse_rtranclp_into_rtranclp)
  ultimately show ?case using a(1) IH(2) rs by simp
qed

definition running_in :: "id \<times> id \<Rightarrow> 'a db_scheme \<Rightarrow> investigation_action list" where
  "running_in scope s = filter (\<lambda>a. ac_status a = AC_RUNNING) (listInvestigationActions (fst scope) (snd scope) s)"

lemma running_in_rows: "set (running_in scope s) = {a \<in> set (db_actions s). ac_scope a = scope \<and> ac_status a = AC_RUNNING}"
  by (cases scope) (auto simp: running_in_def listInvestigationActions_def)

lemma recover_Inr:
  assumes "recoverInterruptedInvestigationActions tid eid s = (Inr rs, s')"
  shows "map_act (recover_action (tid, eid)) (running_in (tid, eid) s) s = (Inr rs, s')"
  using assms by (auto simp: recoverInterruptedInvestigationActions_def running_in_def act_simps split: if_splits)

lemma recover_refines:
  assumes "machine_inv (tables s)" and "recoverInterruptedInvestigationActions tid eid s = (Inr rs, s')"
  shows "queue_steps (tables s) (tables s') \<and> list_all2 recovered (running_in (tid, eid) s) rs
    \<and> set (db_actions s') = (set (db_actions s) - set (running_in (tid, eid) s)) \<union> set rs"
proof (rule recover_all_refines [OF assms(1) _ _ recover_Inr [OF assms(2)]])
  have "distinct (map ac_actionId (db_actions s))" using assms(1) by (simp add: tables_def machine_invD(1))
  then have "distinct (db_actions s)" by (simp add: distinct_map)
  then show "distinct (running_in (tid, eid) s)" by (simp add: running_in_def listInvestigationActions_def)
  show "\<forall>c\<in>set (running_in (tid, eid) s). c \<in> set (db_actions s) \<and> ac_status c = AC_RUNNING"
    by (simp add: running_in_rows)
qed

section \<open>The queue as a system\<close>

datatype queue_op =
    Put_action investigation_action
  | Claim_next id id string string "id set option"
  | Finish_action id nat action_status "id list" "string option"
  | Block_action id string
  | Recover_actions id id

definition queue_exec :: "queue_op \<Rightarrow> ('a db_scheme, investigation_action list) act" where
  "queue_exec q = (case q of
     Put_action v \<Rightarrow> bind_act (putInvestigationAction v) (\<lambda>a. return_act [a])
   | Claim_next tid eid w auth el \<Rightarrow> bind_act (claimNextInvestigationAction tid eid w auth el)
       (\<lambda>r. return_act (case r of None \<Rightarrow> [] | Some (a, _) \<Rightarrow> [a]))
   | Finish_action aid n st refs e \<Rightarrow> bind_act (finishInvestigationAction aid n st refs e) (\<lambda>a. return_act [a])
   | Block_action aid reason \<Rightarrow> bind_act (blockReadyInvestigationAction aid reason) (\<lambda>a. return_act [a])
   | Recover_actions tid eid \<Rightarrow> recoverInterruptedInvestigationActions tid eid)"

text \<open>
  The requests the callers' types allow: an action is not submitted as running, and it is
  finished with a terminal status.
\<close>

fun queue_op_ok :: "queue_op \<Rightarrow> bool" where
  "queue_op_ok (Put_action v) = (ac_status v \<noteq> AC_RUNNING)"
| "queue_op_ok (Finish_action aid n st refs e) = action_terminal st"
| "queue_op_ok _ = True"

lemma atomic_queue:
  "atomic (store_action v existing active)"
  "atomic (finishInvestigationAction aid expected status refs error)"
  "atomic (blockReadyInvestigationAction aid reason)"
  "atomic (recoverInterruptedInvestigationActions tid eid)"
  by (auto simp: store_action_def Let_def finishInvestigationAction_def blockReadyInvestigationAction_def
      recoverInterruptedInvestigationActions_def atomic_def act_simps split: if_splits)

lemma atomic_put: "atomic (putInvestigationAction v)"
  unfolding atomic_def putInvestigationAction_def Let_def
  by (auto simp: act_simps dest: tables_scope atomicD [OF atomic_queue(1)])

lemma atomic_claim: "atomic (claimNextInvestigationAction tid eid w auth el)"
  unfolding atomic_def claimNextInvestigationAction_def by (auto simp: act_simps dest: tables_scope)

lemma exec_refines:
  assumes inv: "machine_inv (tables s)" and ok: "queue_op_ok q"
  shows "queue_steps (tables s) (tables (snd (queue_exec q s)))"
proof (cases "queue_exec q s")
  case (Pair r s')
  show ?thesis
  proof (cases r)
    case (Inl e)
    with Pair have "s' = s"
      by (cases q) (auto simp: queue_exec_def act_simps dest: atomicD [OF atomic_put] atomicD [OF atomic_claim]
          atomicD [OF atomic_queue(2)] atomicD [OF atomic_queue(3)] atomicD [OF atomic_queue(4)])
    with Pair show ?thesis by simp
  next
    case (Inr x)
    have "queue_steps (tables s) (tables s')"
    proof (cases q)
      case (Put_action v)
      with Pair Inr obtain a where "putInvestigationAction v s = (Inr a, s')"
        by (auto simp: queue_exec_def act_simps)
      then show ?thesis using Put_action ok by (auto intro: put_refines)
    next
      case (Claim_next tid eid w auth el)
      with Pair Inr obtain r' where "claimNextInvestigationAction tid eid w auth el s = (Inr r', s')"
        by (auto simp: queue_exec_def act_simps)
      from claim_refines [OF inv this] show ?thesis by auto
    next
      case (Finish_action aid n st refs e)
      with Pair Inr obtain a where "finishInvestigationAction aid n st refs e s = (Inr a, s')"
        by (auto simp: queue_exec_def act_simps)
      with Finish_action ok show ?thesis by (auto dest: finish_refines [OF inv, rotated])
    next
      case (Block_action aid reason)
      with Pair Inr obtain a where "blockReadyInvestigationAction aid reason s = (Inr a, s')"
        by (auto simp: queue_exec_def act_simps)
      from block_refines [OF inv this] show ?thesis by auto
    next
      case (Recover_actions tid eid)
      with Pair Inr have "recoverInterruptedInvestigationActions tid eid s = (Inr x, s')"
        by (simp add: queue_exec_def)
      from recover_refines [OF inv this] show ?thesis by auto
    qed
    with Pair show ?thesis by simp
  qed
qed

interpretation queue: monotone_system queue_exec queue_op_ok "\<lambda>s. machine_inv (tables s)"
  "\<lambda>s s'. queue_le (tables s) (tables s')"
proof unfold_locales
  fix q and s :: "'a db_scheme"
  assume "queue_op_ok q" and inv: "machine_inv (tables s)"
  from exec_refines [OF inv this(1)] inv
  show "machine_inv (tables (snd (queue_exec q s)))" "queue_le (tables s) (tables (snd (queue_exec q s)))"
    using queue_steps_inv by blast+
qed (auto intro: queue_le_trans)

lemma find_sorted_least:
  "sorted (map f ys) \<Longrightarrow> List.find p ys = Some x \<Longrightarrow> y \<in> set ys \<Longrightarrow> p y \<Longrightarrow> f x \<le> f y"
  by (induction ys) (auto split: if_splits)

lemma order_by_find_first:
  assumes "List.find p (order_by f xs) = Some x" and "y \<in> set xs" and "p y"
  shows "f x \<le> f y"
  using find_sorted_least [OF sorted_order_by assms(1), of y] assms(2,3) by simp

section \<open>A claim does not fail\<close>

definition log_inv :: "'a db_scheme \<Rightarrow> bool" where
  "log_inv s \<longleftrightarrow> inj (uuid_tape s) \<and> ie_eventId ` set (db_events s) \<subseteq> issued ''ACT'' s
     \<and> at_attemptId ` set (db_attempts s) \<subseteq> issued ''ACT'' s"

lemma log_event_total:
  assumes "inj (uuid_tape s)" and "ie_eventId ` set (db_events s) \<subseteq> issued ''ACT'' s"
  shows "\<exists>s'. log_event a b c d e s = (Inr (), s')"
proof -
  have "''ACT'' @ ''-'' @ uuid_tape s (uuid_pos s) \<notin> ie_eventId ` set (db_events s)"
    using assms issued_fresh [of s "''ACT''"] by blast
  then show ?thesis
    by (auto simp: log_event_def create_id_def next_uuid_def appendInvestigationEvent_def
        act_unfold Let_def has_key_def)
qed

lemma start_attempt_total:
  assumes log: "log_inv s" and a: "ac_actionId a \<in> ac_actionId ` set (db_actions s)"
    and nums: "map at_attempt (attempts_of (ac_actionId a) (db_attempts s))
      = [1..<Suc (length (attempts_of (ac_actionId a) (db_attempts s)))]"
  shows "\<exists>x s'. start_attempt scope worker a t s = (Inr (Some (a, x)), s')"
proof -
  let ?aid = "''ACT'' @ ''-'' @ uuid_tape s (uuid_pos s)"
  let ?n = "Suc (changes (\<lambda>x. at_actionId x = ac_actionId a) (db_attempts s))"
  define x where "x = \<lparr>at_attemptId = ?aid, at_actionId = ac_actionId a, at_taskId = fst scope,
    at_epochId = snd scope, at_attempt = ?n, at_toolCallId = None, at_status = AT_RUNNING,
    at_error = None, at_startedAt = t, at_finishedAt = None\<rparr>"
  let ?s2 = "s\<lparr>uuid_pos := Suc (uuid_pos s), db_attempts := db_attempts s @ [x]\<rparr>"
  have fresh: "?aid \<notin> at_attemptId ` set (db_attempts s)"
    using log issued_fresh [of s "''ACT''"] by (auto simp: log_inv_def)
  have le: "at_attempt y \<noteq> ?n" if "y \<in> set (db_attempts s)" "at_actionId y = ac_actionId a" for y
  proof -
    from that have "at_attempt y \<in> set (map at_attempt (attempts_of (ac_actionId a) (db_attempts s)))"
      by (auto simp: attempts_of_def)
    then show ?thesis unfolding nums by (auto simp: changes_def attempts_of_def)
  qed
  have "\<exists>s'. log_event (fst scope) (snd scope) ''ACTION_CLAIMED'' [(''actionId'', Str (ac_actionId a)),
        (''attemptId'', Str ?aid), (''workerId'', Str worker)] t ?s2 = (Inr (), s')"
    by (rule log_event_total) (use log in \<open>auto simp: log_inv_def issued_def less_Suc_eq\<close>)
  then obtain s' where lg: "log_event (fst scope) (snd scope) ''ACTION_CLAIMED'' [(''actionId'', Str (ac_actionId a)),
        (''attemptId'', Str ?aid), (''workerId'', Str worker)] t ?s2 = (Inr (), s')" by blast
  have "insert_attempt x (s\<lparr>uuid_pos := Suc (uuid_pos s)\<rparr>) = (Inr (), ?s2)"
    using fresh a by (auto simp: insert_attempt_def act_unfold has_key_def x_def dest: le)
  with lg have "start_attempt scope worker a t s = (Inr (Some (a, x)), s')"
    by (simp add: start_attempt_def create_id_def next_uuid_def bind_act_def seq_act_def Let_def x_def)
  then show ?thesis by blast
qed

text \<open>Every queue request keeps the ids of the log and the attempts issued.\<close>

lemma log_inv_later:
  assumes "log_inv s" and "tapes_forward s s'" and "ie_eventId ` set (db_events s') \<subseteq> ie_eventId ` set (db_events s)"
    and "at_attemptId ` set (db_attempts s') \<subseteq> at_attemptId ` set (db_attempts s)"
  shows "log_inv s'"
  using assms issued_mono [OF assms(2), of "''ACT''"] by (simp add: log_inv_def tapes_forward_def subset_iff)

lemma keeps_log_write:
  "(\<And>s :: 'a db_scheme. uuid_tape (g s) = uuid_tape s \<and> uuid_pos (g s) = uuid_pos s \<and> db_events (g s) = db_events s
     \<and> at_attemptId ` set (db_attempts (g s)) \<subseteq> at_attemptId ` set (db_attempts s))
   \<Longrightarrow> keeps log_inv (write_act g)"
proof (rule keeps_write)
  fix s :: "'a db_scheme" assume *: "\<And>s :: 'a db_scheme. uuid_tape (g s) = uuid_tape s \<and> uuid_pos (g s) = uuid_pos s \<and> db_events (g s) = db_events s
     \<and> at_attemptId ` set (db_attempts (g s)) \<subseteq> at_attemptId ` set (db_attempts s)" and "log_inv s"
  from * have "uuid_tape (g s) = uuid_tape s" "uuid_pos (g s) = uuid_pos s" "db_events (g s) = db_events s"
    and sub: "at_attemptId ` set (db_attempts (g s)) \<subseteq> at_attemptId ` set (db_attempts s)" by blast+
  with \<open>log_inv s\<close> show "log_inv (g s)" unfolding log_inv_def issued_def by (simp add: subset_trans [OF sub])
qed

text \<open>An action that is run from a state where more is known than the invariant.\<close>

lemma log_inv_then:
  assumes "log_inv (snd (m s))" and "\<And>x. keeps log_inv (k x)"
  shows "log_inv (snd (bind_act m k s))"
  using assms by (auto simp: bind_act_def keeps_def split: prod.split sum.split)

lemma keeps_log_now [keeps_intros]: "keeps log_inv now"
  by (rule keepsI) (simp add: now_def log_inv_def issued_def)

lemma keeps_log_create_id [keeps_intros]: "keeps log_inv (create_id p)"
  by (rule keepsI) (auto simp: create_id_def next_uuid_def bind_act_def log_inv_def issued_def less_Suc_eq)

lemma create_id_issued: "create_id p s = (Inr i, s') \<Longrightarrow> i \<in> issued p s'"
  by (auto simp: create_id_def next_uuid_def bind_act_def issued_def)

lemma log_inv_append:
  assumes "log_inv s" and "evid \<in> issued ''ACT'' s"
  shows "log_inv (snd (appendInvestigationEvent evid a b c d e f s))"
  using assms by (auto simp: appendInvestigationEvent_def act_unfold Let_def log_inv_def issued_def)

lemma keeps_log_event [keeps_intros]: "keeps log_inv (log_event a b c d e)"
proof (rule keepsI)
  fix s :: "'a db_scheme" assume inv: "log_inv s"
  obtain i s1 where id: "create_id ''ACT'' s = (Inr i, s1)"
    by (auto simp: create_id_def next_uuid_def bind_act_def)
  have "log_inv s1" using keepsD [OF keeps_log_create_id inv id] .
  then have "log_inv (snd (appendInvestigationEvent i a b None c d e s1))"
    by (rule log_inv_append) (rule create_id_issued [OF id])
  then have "log_inv (snd (bind_act (appendInvestigationEvent i a b None c d e) (\<lambda>_. return_act ()) s1))"
    by (rule log_inv_then) (rule keeps_return)
  then show "log_inv (snd (log_event a b c d e s))"
    by (simp only: log_event_def id act_step_bind [where m = "create_id ''ACT''", of s i s1])
qed

lemma keeps_log_set_action [keeps_intros]: "keeps log_inv (set_action hit a)"
  unfolding set_action_def by (rule keeps_log_write) simp

lemma keeps_log_resolve [keeps_intros]: "keeps log_inv (resolve_open_obligation x y f i)"
  by (auto simp: resolve_open_obligation_def log_obligation_def Let_def
      intro!: keeps_intros keeps_log_write split: option.split)

lemma keeps_log_gap [keeps_intros]: "keeps log_inv (insert_gap g)"
  unfolding insert_gap_def by (rule keeps_log_write) simp

lemma keeps_log_scope [keeps_intros]: "keeps log_inv (assertInvestigationScope a b)"
  unfolding assertInvestigationScope_def by (intro keeps_intros)

lemma keeps_log_capacity [keeps_intros]: "keeps log_inv (report_capacity a n)"
  unfolding report_capacity_def Let_def by (intro keeps_intros)

lemma keeps_log_created [keeps_intros]: "keeps log_inv (report_created a b n)"
  unfolding report_created_def by (intro keeps_intros)

lemma keeps_log_merge [keeps_intros]: "keeps log_inv (merge_action a b)"
  unfolding merge_action_def Let_def by (intro keeps_intros)

lemma keeps_log_put: "keeps log_inv (putInvestigationAction v)"
  unfolding putInvestigationAction_def store_action_def Let_def
  by (intro keeps_intros keeps_log_write) simp_all

lemma keeps_log_start [keeps_intros]: "keeps log_inv (start_attempt scope w a t)"
proof (rule keepsI)
  fix s :: "'a db_scheme" assume inv: "log_inv s"
  obtain i s1 where id: "create_id ''ACT'' s = (Inr i, s1)"
    by (auto simp: create_id_def next_uuid_def bind_act_def)
  have inv1: "log_inv s1" using keepsD [OF keeps_log_create_id inv id] .
  have "log_inv (snd (insert_attempt x s1))" if "at_attemptId x = i" for x
    using inv1 that create_id_issued [OF id] by (auto simp: insert_attempt_def act_unfold log_inv_def issued_def)
  then show "log_inv (snd (start_attempt scope w a t s))"
    by (simp add: start_attempt_def act_step_bind [where m = "read_act _"] id Let_def seq_act_def
        act_step_bind [where m = "create_id ''ACT''", of s i s1]) (intro log_inv_then keeps_intros; simp)
qed

lemma keeps_log_claim: "keeps log_inv (claimNextInvestigationAction tid eid w auth el)"
proof -
  have "keeps log_inv (claim_first scope w auth cs)" for scope and cs
  proof (induction cs)
    case Nil
    show ?case unfolding claim_first.simps by (rule keeps_return)
  next
    case (Cons c cs)
    then show ?case unfolding claim_first.simps Let_def by (intro keeps_intros)
  qed
  then show ?thesis unfolding claimNextInvestigationAction_def by (intro keeps_intros)
qed

lemma keeps_log_close [keeps_intros]: "keeps log_inv (close_attempt x st e t)"
proof -
  have "at_attemptId ` set (update_rows (\<lambda>y. at_attemptId y = at_attemptId x \<and> at_status y = AT_RUNNING)
      (\<lambda>_. x\<lparr>at_status := st, at_error := er, at_finishedAt := u\<rparr>) T) \<subseteq> at_attemptId ` set T" for T er u
    by (auto simp: update_rows_set) (metis imageI)
  then show ?thesis unfolding close_attempt_def by (intro keeps_log_write) simp
qed

lemma keeps_log_finish: "keeps log_inv (finishInvestigationAction a n st r e)"
  unfolding finishInvestigationAction_def Let_def by (intro keeps_intros)

lemma keeps_log_block: "keeps log_inv (blockReadyInvestigationAction a reason)"
  unfolding blockReadyInvestigationAction_def Let_def by (intro keeps_intros)

lemma keeps_log_recover: "keeps log_inv (recoverInterruptedInvestigationActions a b)"
  unfolding recoverInterruptedInvestigationActions_def recover_action_def Let_def by (intro keeps_intros)

lemma keeps_log_exec: "keeps log_inv (queue_exec q)"
  by (cases q) (simp_all add: queue_exec_def keeps_bind keeps_return keeps_log_put keeps_log_claim keeps_log_finish
      keeps_log_block keeps_log_recover)

interpretation queue_log: invariant_system queue_exec "\<lambda>_. True" log_inv
  using keeps_log_exec by unfold_locales (auto simp: keeps_def)

section \<open>A sample queue\<close>

definition sample_action :: "id \<Rightarrow> int \<Rightarrow> id list \<Rightarrow> replay_policy \<Rightarrow> investigation_action" where
  "sample_action aid prio deps policy = \<lparr>ac_actionId = aid, ac_taskId = ''T1'', ac_epochId = ''E1'',
     ac_kind = REMOTE_PRIMITIVE, ac_requestedBy = DISCOVERY, ac_obligationIds = [], ac_subjectRefs = [],
     ac_entityVersionRefs = [], ac_operationRef = ''enumerate'', ac_replayPolicy = policy,
     ac_args = Obj [], ac_argsDigest = ''d'', ac_dependsOn = deps, ac_authorizationVersion = ''v1'',
     ac_observationRound = ''1'', ac_idempotencyKey = ''k'' @ aid, ac_priority = prio,
     ac_status = AC_READY, ac_revision = 0, ac_workerId = None, ac_resultRefs = None, ac_error = None,
     ac_createdAt = ''t'', ac_updatedAt = ''t''\<rparr>"

definition queue_start :: db where
  "queue_start = empty_db\<lparr>db_epochs := [sample_epoch ''E1'']\<rparr>"

text \<open>Two actions and one that waits for the first; the one with the higher priority is claimed.\<close>

definition sample_queue_ops :: "queue_op list" where
  "sample_queue_ops = [Put_action (sample_action ''a'' 1 [] SAFE_REOBSERVE),
     Put_action (sample_action ''b'' 5 [] NEVER), Put_action (sample_action ''c'' 9 [''a''] NEVER),
     Claim_next ''T1'' ''E1'' ''w'' ''v1'' None]"

definition sample_queue :: db where
  "sample_queue = run_ops queue_exec sample_queue_ops queue_start"

lemma queue_start_inv: "machine_inv (tables queue_start)"
  by (simp add: tables_def queue_start_def empty_defs machine_inv_def attempts_of_def active_in_def changes_def)

lemma sample_queue_ok: "list_all queue_op_ok sample_queue_ops"
  by (simp add: sample_queue_ops_def sample_action_def)

lemma sample_queue_inv: "machine_inv (tables sample_queue)"
  unfolding sample_queue_def by (rule queue.run_keeps [OF sample_queue_ok queue_start_inv])

lemma sample_queue_rows: "map (\<lambda>a. (ac_actionId a, ac_status a, ac_revision a)) (db_actions sample_queue)
    = [(''a'', AC_READY, 0), (''b'', AC_RUNNING, 1), (''c'', AC_READY, 0)]"
  by code_simp

section \<open>Properties\<close>

text \<open>
  C7. Whatever sequence of queue requests runs (actions submitted, claimed, finished, blocked,
  recovered, refused requests included), an action is RUNNING exactly when it has one running
  attempt and never has two, at most 1000 actions of an epoch are READY or RUNNING, no two
  actions share an idempotency key, and an action depends only on actions submitted before it,
  so the dependencies have no cycle.
\<close>

theorem action_queue_safe:
  assumes "list_all queue_op_ok qs" and "machine_inv (tables s0)" and "s = run_ops queue_exec qs s0"
  shows "(\<forall>a\<in>set (db_actions s). length (running_of (ac_actionId a) (db_attempts s))
            = (if ac_status a = AC_RUNNING then 1 else 0))
    \<and> active_count scope s \<le> MAX_ACTIVE_INVESTIGATION_ACTIONS
    \<and> distinct (map ac_idempotencyKey (db_actions s)) \<and> deps_before {} (db_actions s)"
proof -
  have "machine_inv (db_actions s, db_attempts s)"
    using queue.run_keeps [OF assms(1,2)] assms(3) by (simp add: tables_def)
  from machine_invD [OF this] show ?thesis by (simp add: changes_active)
qed

theorem action_queue_safe_witness:
  "length (running_of ''b'' (db_attempts sample_queue)) = 1 \<and> active_count (''T1'', ''E1'') sample_queue = 3"
proof -
  note fact = action_queue_safe [OF sample_queue_ok queue_start_inv sample_queue_def, of "(''T1'', ''E1'')"]
  obtain b where "b \<in> set (db_actions sample_queue)" "ac_actionId b = ''b''" "ac_status b = AC_RUNNING"
    using map_eq_member [OF sample_queue_rows, of "(''b'', AC_RUNNING, 1)"] by auto
  with fact have "length (running_of ''b'' (db_attempts sample_queue)) = 1" by force
  moreover have "active_count (''T1'', ''E1'') sample_queue = 3" by code_simp
  ultimately show ?thesis by blast
qed

text \<open>
  An action that has ended stays as it ended: whatever queue requests follow, its status,
  revision, result references and error do not change.
\<close>

theorem ended_action_is_final:
  assumes "list_all queue_op_ok qs" and "machine_inv (tables s0)" and "s = run_ops queue_exec qs s0"
    and "a \<in> set (db_actions s0)" and "action_terminal (ac_status a)"
  shows "\<exists>b\<in>set (db_actions s). ac_actionId b = ac_actionId a \<and> ac_status b = ac_status a
    \<and> ac_revision b = ac_revision a \<and> ac_resultRefs b = ac_resultRefs a \<and> ac_error b = ac_error a"
proof -
  have "queue_le (tables s0) (tables s)" using queue.run_progress [OF assms(1,2)] assms(3) by simp
  with assms(4) obtain b where "b \<in> set (db_actions s)" "action_le a b"
    unfolding queue_le_def tables_def fst_conv by blast
  with assms(5) show ?thesis by (auto simp: action_le_def same_action_def)
qed

definition sample_finished :: db where
  "sample_finished = run_ops queue_exec [Finish_action ''b'' 1 AC_PARTIAL [''r''] None] sample_queue"

theorem ended_action_is_final_witness:
  "\<exists>b\<in>set (db_actions (run_ops queue_exec [Block_action ''b'' ''x'', Recover_actions ''T1'' ''E1''] sample_finished)).
     ac_actionId b = ''b'' \<and> ac_status b = AC_PARTIAL \<and> ac_resultRefs b = Some [''r'']"
proof -
  have inv: "machine_inv (tables sample_finished)" unfolding sample_finished_def
    by (rule queue.run_keeps) (simp_all add: sample_queue_inv)
  have rows: "map (\<lambda>a. (ac_actionId a, ac_status a, ac_resultRefs a)) (db_actions sample_finished)
      = [(''a'', AC_READY, None), (''b'', AC_PARTIAL, Some [''r'']), (''c'', AC_READY, None)]" by code_simp
  obtain b where b: "b \<in> set (db_actions sample_finished)" "ac_actionId b = ''b''"
    "ac_status b = AC_PARTIAL" "ac_resultRefs b = Some [''r'']"
    using map_eq_member [OF rows, of "(''b'', AC_PARTIAL, Some [''r''])"] by auto
  have ok: "list_all queue_op_ok [Block_action ''b'' ''x'', Recover_actions ''T1'' ''E1'']" by simp
  from ended_action_is_final [OF ok inv refl b(1)] b show ?thesis by force
qed

text \<open>
  The claim takes the right action and does not fail: when the epoch exists and some READY
  action of it that the caller may take carries the authorization version in force and has all
  its dependencies succeeded, \<open>claimNextInvestigationAction\<close> returns such an action with the
  highest priority among them, now RUNNING under a new attempt; when there is none it returns
  nothing and changes nothing.
\<close>

theorem claim_takes_best_ready_action:
  assumes "machine_inv (tables s)" and "log_inv s" and "getScanEpoch tid eid s \<noteq> None"
    and "ready = {c \<in> set (db_actions s). ac_scope c = (tid, eid) \<and> ac_status c = AC_READY
      \<and> (case eligible of None \<Rightarrow> True | Some ids \<Rightarrow> ac_actionId c \<in> ids)
      \<and> ac_authorizationVersion c = auth \<and> dependencies_met (tid, eid) c s}"
  shows "if ready = {} then claimNextInvestigationAction tid eid worker auth eligible s = (Inr None, s)
    else \<exists>c a x s'. claimNextInvestigationAction tid eid worker auth eligible s = (Inr (Some (a, x)), s')
      \<and> c \<in> ready \<and> (\<forall>d\<in>ready. ac_priority d \<le> ac_priority c)
      \<and> same_action c a \<and> ac_status a = AC_RUNNING \<and> ac_workerId a = Some worker
      \<and> a \<in> set (db_actions s') \<and> running_of (ac_actionId c) (db_attempts s') = [x]"
proof -
  let ?find = "List.find (claimable (tid, eid) auth s) (ready_candidates tid eid eligible s)"
  let ?p = "\<lambda>c. ac_status c = AC_READY
      \<and> (case eligible of None \<Rightarrow> True | Some ids \<Rightarrow> ac_actionId c \<in> ids) \<and> claimable (tid, eid) auth s c"
  let ?rows = "filter (\<lambda>a. ac_scope a = (tid, eid)) (db_actions s)"
  note D = machine_invD [OF assms(1) [unfolded tables_def]]
  have "List.find p (filter q xs) = List.find (\<lambda>x. q x \<and> p x) xs" for p q and xs :: "investigation_action list"
    by (induction xs) auto
  then have find: "?find = List.find ?p (order_by (\<lambda>a. (- ac_priority a, ac_createdAt a)) ?rows)"
    by (simp add: ready_candidates_def listInvestigationActions_def conj_assoc)
  have ready: "ready = {c \<in> set ?rows. ?p c}" using assms(4) by (auto simp: claimable_def)
  have scope: "assertInvestigationScope tid eid s = (Inr (), s)"
    using assms(3) by (auto simp: assertInvestigationScope_def act_unfold getScanEpoch_def dest: find_SomeD)
  have "\<forall>c\<in>set (ready_candidates tid eid eligible s). c \<in> set (db_actions s) \<and> ac_status c = AC_READY"
    using ready_candidates_rows by blast
  note eq = claim_first_eq [OF D(1) this, of "(tid, eid)" worker auth]
  have run: "claimNextInvestigationAction tid eid worker auth eligible s =
      transaction (claim_first (tid, eid) worker auth (ready_candidates tid eid eligible s)) s"
    by (simp add: claimNextInvestigationAction_def seq_act_def bind_act_def scope transaction_def)
  show ?thesis
  proof (cases ?find)
    case None
    then have "ready = {}" using find_None_iff' [THEN iffD1, OF None [unfolded find]] by (auto simp: ready)
    then show ?thesis using None by (simp add: run eq transaction_def)
  next
    case (Some c)
    note first = find_SomeD [OF Some [unfolded find]]
    then have c: "c \<in> ready" "c \<in> set (db_actions s)" "ac_status c = AC_READY" by (auto simp: ready)
    define t where "t = clock_tape s (clock_pos s)"
    define a where "a = claimed worker t c"
    let ?s1 = "s\<lparr>clock_pos := Suc (clock_pos s), db_actions := put_action a (db_actions s)\<rparr>"
    have id: "ac_actionId a = ac_actionId c" by (simp add: a_def claimed_def)
    have rows: "set (db_actions ?s1) = insert a (set (db_actions s) - {c})"
      using put_action_set [OF D(1) c(2) id] by simp
    have "log_inv ?s1" using assms(2) by (simp add: log_inv_def issued_def)
    moreover have "ac_actionId a \<in> ac_actionId ` set (db_actions ?s1)" unfolding rows by simp
    moreover have "map at_attempt (attempts_of (ac_actionId a) (db_attempts ?s1))
        = [1..<Suc (length (attempts_of (ac_actionId a) (db_attempts ?s1)))]" using D(6) by simp
    ultimately obtain x s' where st: "start_attempt (tid, eid) worker a t ?s1 = (Inr (Some (a, x)), s')"
      using start_attempt_total by blast
    from start_attempt_Inr [OF st] have tab: "db_actions s' = db_actions ?s1"
      "db_attempts s' = db_attempts s @ [x]" "at_actionId x = ac_actionId c" "at_status x = AT_RUNNING"
      by (auto simp: tables_def id)
    have "running_of (ac_actionId c) (db_attempts s) = []" using D(5) [OF c(2)] c(3) by simp
    then have "running_of (ac_actionId c) (db_attempts s') = [x]" using tab by (simp add: running_of_append)
    moreover have "ac_priority d \<le> ac_priority c" if "d \<in> ready" for d
      using order_by_find_first [OF Some [unfolded find], of d] that by (auto simp: ready less_eq_prod_def)
    moreover have "same_action c a" "ac_status a = AC_RUNNING" "ac_workerId a = Some worker"
      by (simp_all add: a_def claimed_def same_action_def ac_scope_def)
    moreover have "a \<in> set (db_actions s')" using tab(1) rows by simp
    moreover have "claimNextInvestigationAction tid eid worker auth eligible s = (Inr (Some (a, x)), s')"
      using Some st by (simp add: run eq transaction_def t_def [symmetric] a_def Let_def)
    ultimately show ?thesis using c(1) by auto
  qed
qed

lemma sample_queue_log: "log_inv sample_queue"
  unfolding sample_queue_def by (rule queue_log.run_keeps)
    (simp_all add: sample_queue_ops_def log_inv_def queue_start_def empty_defs inj_def)

theorem claim_takes_best_ready_action_witness:
  "\<exists>a x s'. claimNextInvestigationAction ''T1'' ''E1'' ''w2'' ''v1'' None sample_queue = (Inr (Some (a, x)), s')
     \<and> ac_actionId a = ''a'' \<and> ac_status a = AC_RUNNING \<and> running_of ''a'' (db_attempts s') = [x]"
proof -
  let ?ready = "{c \<in> set (db_actions sample_queue). ac_scope c = (''T1'', ''E1'') \<and> ac_status c = AC_READY
    \<and> (case None of None \<Rightarrow> True | Some ids \<Rightarrow> ac_actionId c \<in> ids)
    \<and> ac_authorizationVersion c = ''v1'' \<and> dependencies_met (''T1'', ''E1'') c sample_queue}"
  have epoch: "getScanEpoch ''T1'' ''E1'' sample_queue \<noteq> None" by code_simp
  have list: "map ac_actionId (filter (\<lambda>c. ac_scope c = (''T1'', ''E1'') \<and> ac_status c = AC_READY
      \<and> ac_authorizationVersion c = ''v1'' \<and> dependencies_met (''T1'', ''E1'') c sample_queue)
      (db_actions sample_queue)) = [''a'']" by code_simp
  then have "set (map ac_actionId (filter (\<lambda>c. ac_scope c = (''T1'', ''E1'') \<and> ac_status c = AC_READY
      \<and> ac_authorizationVersion c = ''v1'' \<and> dependencies_met (''T1'', ''E1'') c sample_queue)
      (db_actions sample_queue))) = {''a''}" by simp
  then have ready_ids: "ac_actionId ` ?ready = {''a''}" by simp
  then have "?ready \<noteq> {}" using ready_ids by (metis (no_types, lifting) insert_not_empty image_empty)
  with claim_takes_best_ready_action [OF sample_queue_inv sample_queue_log epoch refl, of None "''v1''" "''w2''"]
  obtain c a x s' where run: "claimNextInvestigationAction ''T1'' ''E1'' ''w2'' ''v1'' None sample_queue = (Inr (Some (a, x)), s')"
    and c: "c \<in> ?ready" "same_action c a" "ac_status a = AC_RUNNING"
      "running_of (ac_actionId c) (db_attempts s') = [x]" by (simp only: if_False) blast
  from c(1) ready_ids have "ac_actionId c = ''a''" by blast
  with run c show ?thesis by (auto simp: same_action_def)
qed

section \<open>Recovery\<close>

lemma succeeds_log_event [succeeds_intros]: "succeeds log_inv (log_event a b c d e)"
proof (rule succeedsI [OF keeps_log_event])
  fix s :: "'a db_scheme" assume "log_inv s"
  then obtain s' where "log_event a b c d e s = (Inr (), s')" using log_event_total by (metis log_inv_def)
  then show "\<exists>x s'. log_event a b c d e s = (Inr x, s')" by blast
qed

lemma succeeds_log_now [succeeds_intros]: "succeeds log_inv now"
  by (rule succeedsI [OF keeps_log_now]) (simp add: now_def)

lemma succeeds_log_set [succeeds_intros]: "succeeds log_inv (set_action hit x)"
  by (rule succeedsI [OF keeps_log_set_action]) (simp add: set_action_def)

lemma succeeds_log_close [succeeds_intros]: "succeeds log_inv (close_attempt y st e t)"
  by (rule succeedsI [OF keeps_log_close]) (simp add: close_attempt_def)

lemma succeeds_recover: "succeeds log_inv (recoverInterruptedInvestigationActions tid eid)"
  unfolding recoverInterruptedInvestigationActions_def recover_action_def Let_def by (intro succeeds_intros)

text \<open>
  C8. Recovery after an interruption returns, leaves no action of the epoch running, puts back
  to READY exactly the interrupted ones that are safe to observe again, blocks the others, and
  touches no other action.
\<close>

theorem recovery_requeues_only_safe_actions:
  assumes "machine_inv (tables s)" and "log_inv s"
  shows "\<exists>rs s'. recoverInterruptedInvestigationActions tid eid s = (Inr rs, s')
    \<and> list_all2 recovered (running_in (tid, eid) s) rs
    \<and> set (db_actions s') = (set (db_actions s) - set (running_in (tid, eid) s)) \<union> set rs
    \<and> running_in (tid, eid) s' = []"
proof -
  obtain rs s' where run: "recoverInterruptedInvestigationActions tid eid s = (Inr rs, s')"
    using succeedsD [OF succeeds_recover assms(2)] by blast
  note ref = recover_refines [OF assms(1) run]
  have "ac_status a \<noteq> AC_RUNNING" if "a \<in> set rs" for a
    using ref that by (auto simp: list_all2_conv_all_nth in_set_conv_nth recovered_def split: if_splits)
  then have "set (running_in (tid, eid) s') = {}"
    using ref by (auto simp: running_in_rows)
  with run ref show ?thesis by auto
qed

theorem recovery_requeues_only_safe_actions_witness:
  "\<exists>rs s'. recoverInterruptedInvestigationActions ''T1'' ''E1'' sample_queue = (Inr rs, s')
     \<and> running_in (''T1'', ''E1'') s' = [] \<and> (\<exists>a\<in>set (db_actions s'). ac_actionId a = ''b'' \<and> ac_status a = AC_BLOCKED)"
proof -
  from recovery_requeues_only_safe_actions [OF sample_queue_inv sample_queue_log, of "''T1''" "''E1''"]
  obtain rs s' where run: "recoverInterruptedInvestigationActions ''T1'' ''E1'' sample_queue = (Inr rs, s')"
    and all: "list_all2 recovered (running_in (''T1'', ''E1'') sample_queue) rs"
    and rows: "set rs \<subseteq> set (db_actions s')" and none: "running_in (''T1'', ''E1'') s' = []" by blast
  have "map (\<lambda>a. (ac_actionId a, ac_replayPolicy a)) (running_in (''T1'', ''E1'') sample_queue) = [(''b'', NEVER)]"
    by code_simp
  then obtain c where "running_in (''T1'', ''E1'') sample_queue = [c]" "ac_actionId c = ''b''" "ac_replayPolicy c = NEVER"
    by (auto simp: map_eq_Cons_conv)
  with all obtain a where "rs = [a]" "ac_actionId a = ''b''" "ac_status a = AC_BLOCKED"
    by (auto simp: list_all2_Cons1 recovered_def same_action_def)
  with run rows none show ?thesis by auto
qed

section \<open>Submission\<close>

lemma unique_absorbs:
  assumes "distinct xs" and "length (unique (xs @ ys)) = length xs"
  shows "set ys \<subseteq> set xs"
proof -
  have "card (set xs \<union> set ys) = card (set xs)"
    using assms by (metis distinct_card distinct_unique set_append set_unique)
  then have "set xs = set xs \<union> set ys" by (intro card_subset_eq) auto
  then show ?thesis by blast
qed

lemma put_action_self: "distinct (map ac_actionId A) \<Longrightarrow> c \<in> set A \<Longrightarrow> put_action c A = A"
  by (auto simp: put_action_def update_rows_def intro!: map_idI dest: unique_action)

lemma merge_result:
  assumes dist: "distinct (map ac_actionId (db_actions s))" and c: "stored \<in> set (db_actions s)"
    and run: "merge_action stored v s = (Inr a, s')"
  shows "same_action stored a \<and> ac_status a = ac_status stored \<and> ac_revision a = ac_revision stored
    \<and> (distinct (ac_obligationIds stored) \<longrightarrow>
        set (ac_obligationIds a) = set (ac_obligationIds stored) \<union> set (ac_obligationIds v))
    \<and> db_actions s' = put_action a (db_actions s)"
proof -
  define ids where "ids = unique (ac_obligationIds stored @ ac_obligationIds v)"
  show ?thesis
  proof (cases "length ids = length (ac_obligationIds stored)")
    case True
    with run have "a = stored" "s' = s" by (simp_all add: merge_action_def Let_def ids_def)
    moreover have "distinct (ac_obligationIds stored) \<Longrightarrow> set (ac_obligationIds v) \<subseteq> set (ac_obligationIds stored)"
      using True by (intro unique_absorbs) (simp_all add: ids_def)
    ultimately show ?thesis using put_action_self [OF dist c] by auto
  next
    case False
    from run False obtain t s1 s2 s3 u where
      a: "a = stored\<lparr>ac_obligationIds := ids, ac_priority := max (ac_priority stored) (ac_priority v),
        ac_updatedAt := t\<rparr>"
      and now: "now s = (Inr t, s1)" and set: "set_action (\<lambda>x. ac_actionId x = ac_actionId a) a s1 = (Inr (), s2)"
      and log: "log_event (ac_taskId v) (ac_epochId v) ''ACTION_OBLIGATIONS_MERGED''
          [(''actionId'', Str (ac_actionId a)), (''obligationIds'', js_ids ids)] t s2 = (Inr (), s3)"
      and rest: "(if action_terminal (ac_status a)
          then each_act (resolve_open_obligation (ac_taskId v, ac_epochId v) t (settled_obligation a t)) (ac_obligationIds v)
          else return_act ()) s3 = (Inr u, s')"
      unfolding merge_action_def Let_def ids_def [symmetric]
      by (simp only: act_simps if_False return_act_eq) auto
    have "tables s' = tables s2"
      using obeys_sameD [OF tables_log log] obeys_sameD [OF tables_each_resolve(1) rest] by simp
    moreover have "db_actions s2 = put_action a (db_actions s)"
      using now set by (auto simp: now_def set_action_eq put_action_def)
    moreover have "set ids = set (ac_obligationIds stored) \<union> set (ac_obligationIds v)" by (simp add: ids_def)
    ultimately show ?thesis by (simp add: a tables_def same_action_def ac_scope_def)
  qed
qed

text \<open>
  Submitting an action is idempotent in its key: a key that is taken never adds a second
  action but returns the stored one, unchanged except for its obligations (the union of both)
  and its priority; a fresh key appends exactly the submitted action, BLOCKED with the capacity
  error when 1000 actions of the epoch are already active.
\<close>

theorem submission_is_idempotent:
  assumes "machine_inv (tables s)" and "putInvestigationAction v s = (Inr a, s')"
  shows "ac_idempotencyKey a = ac_idempotencyKey v \<and> ac_scope a = ac_scope v
    \<and> (case List.find (\<lambda>c. ac_idempotencyKey c = ac_idempotencyKey v) (db_actions s) of
         None \<Rightarrow> a = candidate_action v (ac_status v = AC_READY
             \<and> MAX_ACTIVE_INVESTIGATION_ACTIONS \<le> active_count (ac_scope v) s)
           \<and> db_actions s' = db_actions s @ [a]
       | Some c \<Rightarrow> same_action c a \<and> ac_status a = ac_status c \<and> ac_revision a = ac_revision c
           \<and> (distinct (ac_obligationIds c) \<longrightarrow>
                set (ac_obligationIds a) = set (ac_obligationIds c) \<union> set (ac_obligationIds v))
           \<and> db_actions s' = put_action a (db_actions s))"
proof -
  let ?key = "\<lambda>c. ac_idempotencyKey c = ac_idempotencyKey v"
  let ?existing = "has_key ac_idempotencyKey (ac_idempotencyKey v) (db_actions s)"
  let ?active = "if ?existing then 0 else active_count (ac_taskId v, ac_epochId v) s"
  have dist: "distinct (map ac_actionId (db_actions s))" using assms(1) by (simp add: tables_def machine_invD(1))
  have run: "store_action v ?existing ?active s = (Inr a, s')"
    using assms(2) unfolding putInvestigationAction_def Let_def by (auto simp: act_simps dest!: tables_scope)
  show ?thesis
  proof (cases "List.find ?key (db_actions s)")
    case None
    then have new: "\<not> ?existing" by (auto simp: find_None_iff' has_key_def)
    let ?c = "candidate_action v (queue_full v False (active_count (ac_taskId v, ac_epochId v) s))"
    have key: "ac_idempotencyKey ?c = ac_idempotencyKey v" "ac_scope ?c = ac_scope v"
      by (simp_all add: candidate_action_def ac_scope_def)
    have "List.find ?key (db_actions s @ [?c]) = Some ?c"
      using None key(1) by (simp add: find_snoc)
    with run new None have "report_created ?c (queue_full v False (active_count (ac_taskId v, ac_epochId v) s))
        (active_count (ac_taskId v, ac_epochId v) s) (s\<lparr>db_actions := db_actions s @ [?c]\<rparr>) = (Inr a, s')"
      by (auto simp: store_action_def Let_def act_simps split: if_splits option.splits)
    moreover from this have "a = ?c" by (auto simp: report_created_def act_simps)
    ultimately have "tables s' = tables (s\<lparr>db_actions := db_actions s @ [?c]\<rparr>)" "a = ?c"
      by (auto dest: obeys_sameD [OF tables_created])
    with None key show ?thesis by (simp add: tables_def queue_full_def ac_scope_def)
  next
    case (Some c)
    then have c: "c \<in> set (db_actions s)" "?key c" by (auto dest: find_SomeD)
    then have "?existing" by (metis has_key_iff)
    with run Some have "ac_scope c = (ac_taskId v, ac_epochId v)" "merge_action c v s = (Inr a, s')"
      by (auto simp: store_action_def Let_def act_simps split: option.splits if_splits)
    with merge_result [OF dist c(1)] Some c(2) show ?thesis by (auto simp: same_action_def ac_scope_def)
  qed
qed

theorem submission_is_idempotent_witness:
  "\<exists>a s'. putInvestigationAction (sample_action ''a'' 7 [] SAFE_REOBSERVE) sample_queue = (Inr a, s')
     \<and> ac_status a = AC_READY \<and> length (db_actions s') = 3"
proof -
  let ?v = "sample_action ''a'' 7 [] SAFE_REOBSERVE"
  have "(case fst (putInvestigationAction ?v sample_queue) of Inr a \<Rightarrow> True | Inl _ \<Rightarrow> False)" by code_simp
  then obtain a s' where run: "putInvestigationAction ?v sample_queue = (Inr a, s')"
    by (cases "putInvestigationAction ?v sample_queue") (auto split: sum.splits)
  have found: "map_option (\<lambda>c. (ac_actionId c, ac_status c)) (List.find (\<lambda>c. ac_idempotencyKey c = ac_idempotencyKey ?v)
      (db_actions sample_queue)) = Some (''a'', AC_READY)" by code_simp
  have "length (map (\<lambda>a. (ac_actionId a, ac_status a, ac_revision a)) (db_actions sample_queue)) = 3"
    unfolding sample_queue_rows by simp
  then have len: "length (db_actions sample_queue) = 3" by simp
  from found submission_is_idempotent [OF sample_queue_inv run]
  have "ac_status a = AC_READY" "db_actions s' = put_action a (db_actions sample_queue)" by (auto split: option.splits)
  with run len show ?thesis by (simp add: put_action_def update_rows_def)
qed

end
