(* ===== verification/Manifest.thy ===== *)
theory Manifest
  imports Protocol
begin

text \<open>
  The protocol manifest of \<open>src/protocol-v2/manifest.ts\<close>: which namespaces, fields and
  relations exist, which fields identify an object, and what of a field the model may see.
\<close>

section \<open>Fields\<close>

datatype field_type =
    T_string | T_integer | T_number | T_boolean | T_timestamp | T_strings | T_object

datatype field_cost = CHEAP | MODERATE | EXPENSIVE

record manifest_field =
  mf_type :: field_type
  mf_identity :: bool
  mf_enumerable :: bool
  mf_projectable :: bool
  mf_filterable :: bool
  mf_sortable :: bool
  mf_cost :: field_cost
  mf_sensitivity :: sensitivity
  mf_modelExposure :: model_exposure

definition public_field :: "field_type \<Rightarrow> manifest_field" where
  "public_field ty = \<lparr>mf_type = ty, mf_identity = False, mf_enumerable = True, mf_projectable = True,
     mf_filterable = True, mf_sortable = (ty \<noteq> T_object \<and> ty \<noteq> T_strings), mf_cost = CHEAP,
     mf_sensitivity = PUBLIC, mf_modelExposure = VALUE\<rparr>"

definition sensitive_field :: "field_type \<Rightarrow> model_exposure \<Rightarrow> manifest_field" where
  "sensitive_field ty exposure =
     (public_field ty)\<lparr>mf_sensitivity := SENSITIVE, mf_modelExposure := exposure\<rparr>"

definition secret_field :: "field_type \<Rightarrow> manifest_field" where
  "secret_field ty = (public_field ty)\<lparr>mf_sensitivity := SECRET, mf_modelExposure := PRESENCE_ONLY,
     mf_filterable := False, mf_sortable := False\<rparr>"

lemmas field_defs = public_field_def sensitive_field_def secret_field_def

section \<open>The tables\<close>

fun declared_fields :: "namespace_name \<Rightarrow> (string \<times> manifest_field) list" where
  "declared_fields NS_host = [(''bootId'', public_field T_string), (''hostname'', public_field T_string),
     (''os'', public_field T_string), (''distribution'', public_field T_string),
     (''distributionVersion'', public_field T_string), (''release'', public_field T_string),
     (''architecture'', public_field T_string), (''timezone'', public_field T_string),
     (''initSystem'', public_field T_string), (''selinuxMode'', public_field T_string),
     (''observedAt'', public_field T_timestamp)]"
| "declared_fields NS_process = [(''bootId'', public_field T_string), (''pid'', public_field T_integer),
     (''startTicks'', public_field T_string), (''ppid'', public_field T_integer),
     (''uid'', public_field T_integer), (''username'', public_field T_string),
     (''comm'', public_field T_string), (''exe'', sensitive_field T_string VALUE),
     (''exeDeleted'', public_field T_boolean), (''exeSize'', public_field T_integer),
     (''exeInode'', public_field T_string),
     (''exeSha256'', (public_field T_string)\<lparr>mf_cost := EXPENSIVE, mf_enumerable := True\<rparr>),
     (''command'', sensitive_field T_string VALUE),
     (''launcherPath'', sensitive_field T_string VALUE),
     (''cwd'', sensitive_field T_string VALUE), (''root'', sensitive_field T_string VALUE),
     (''environment'', (sensitive_field T_object PRESENCE_ONLY)\<lparr>mf_sortable := False\<rparr>),
     (''namespaces'', (public_field T_object)\<lparr>mf_sortable := False\<rparr>),
     (''cgroups'', (sensitive_field T_strings HASH_ONLY)\<lparr>mf_sortable := False\<rparr>),
     (''cgroupsTruncated'', public_field T_boolean),
     (''mapsSummary'', (sensitive_field T_object VALUE)\<lparr>mf_sortable := False\<rparr>),
     (''state'', public_field T_string), (''startedAt'', public_field T_timestamp)]"
| "declared_fields NS_socket = [(''protocol'', public_field T_string), (''localAddress'', public_field T_string),
     (''localPort'', public_field T_integer), (''remoteAddress'', public_field T_string),
     (''remotePort'', public_field T_integer), (''state'', public_field T_string),
     (''inode'', public_field T_string), (''pid'', public_field T_integer),
     (''ownerBootId'', public_field T_string), (''ownerStartTicks'', public_field T_string),
     (''ownerPidNamespace'', public_field T_string),
     (''intelProvider'', (public_field T_string)\<lparr>mf_enumerable := False\<rparr>),
     (''intelMalicious'', (public_field T_boolean)\<lparr>mf_enumerable := False\<rparr>),
     (''intelRiskLevel'', (public_field T_string)\<lparr>mf_enumerable := False\<rparr>),
     (''intelConfidence'', (public_field T_number)\<lparr>mf_enumerable := False\<rparr>),
     (''intelThreatTypes'', (public_field T_strings)\<lparr>mf_enumerable := False, mf_sortable := False\<rparr>),
     (''intelQueriedAt'', (public_field T_timestamp)\<lparr>mf_enumerable := False\<rparr>)]"
| "declared_fields NS_file = [(''mountId'', public_field T_string), (''device'', public_field T_string),
     (''inode'', public_field T_string), (''path'', sensitive_field T_string VALUE),
     (''canonicalPath'', sensitive_field T_string HASH_ONLY), (''kind'', public_field T_string),
     (''size'', public_field T_integer), (''mode'', public_field T_integer),
     (''uid'', public_field T_integer), (''gid'', public_field T_integer),
     (''mtime'', public_field T_timestamp),
     (''sha256'', (public_field T_string)\<lparr>mf_cost := EXPENSIVE, mf_enumerable := False\<rparr>),
     (''contentClass'', public_field T_string),
     (''content'', (sensitive_field T_string VALUE)\<lparr>mf_enumerable := False, mf_projectable := False, mf_filterable := False, mf_sortable := False, mf_cost := EXPENSIVE\<rparr>),
     (''baseline'', (public_field T_string)\<lparr>mf_enumerable := False\<rparr>),
     (''baselineStatus'', (public_field T_string)\<lparr>mf_enumerable := False\<rparr>),
     (''intelProvider'', (public_field T_string)\<lparr>mf_enumerable := False\<rparr>),
     (''intelMalicious'', (public_field T_boolean)\<lparr>mf_enumerable := False\<rparr>),
     (''intelRiskLevel'', (public_field T_string)\<lparr>mf_enumerable := False\<rparr>),
     (''intelConfidence'', (public_field T_number)\<lparr>mf_enumerable := False\<rparr>),
     (''intelThreatTypes'', (public_field T_strings)\<lparr>mf_enumerable := False, mf_sortable := False\<rparr>),
     (''intelQueriedAt'', (public_field T_timestamp)\<lparr>mf_enumerable := False\<rparr>)]"
| "declared_fields NS_account = [(''uid'', public_field T_integer), (''username'', public_field T_string),
     (''gid'', public_field T_integer), (''home'', sensitive_field T_string VALUE),
     (''shell'', public_field T_string),
     (''groups'', (public_field T_strings)\<lparr>mf_sortable := False\<rparr>),
     (''locked'', public_field T_boolean), (''passwordHash'', secret_field T_string)]"
| "declared_fields NS_ssh_key = [(''fingerprint'', public_field T_string), (''ownerUid'', public_field T_integer),
     (''type'', public_field T_string), (''bits'', public_field T_integer),
     (''comment'', sensitive_field T_string VALUE),
     (''sourceFile'', sensitive_field T_string VALUE)]"
| "declared_fields NS_delegation_rule = [(''mechanism'', public_field T_string), (''sourceDigest'', public_field T_string),
     (''line'', public_field T_integer), (''ruleDigest'', public_field T_string),
     (''source'', sensitive_field T_string VALUE), (''effect'', public_field T_string),
     (''subject'', public_field T_string), (''runAs'', public_field T_string),
     (''statement'', sensitive_field T_string VALUE)]"
| "declared_fields NS_ssh_trust_config = [(''scope'', public_field T_string), (''directive'', public_field T_string),
     (''valueDigest'', public_field T_string), (''value'', sensitive_field T_string VALUE),
     (''source'', sensitive_field T_string VALUE), (''effective'', public_field T_boolean)]"
| "declared_fields NS_cron_entry = [(''source'', sensitive_field T_string VALUE), (''line'', public_field T_integer),
     (''digest'', public_field T_string), (''schedule'', public_field T_string),
     (''user'', public_field T_string), (''command'', sensitive_field T_string VALUE)]"
| "declared_fields NS_unit = [(''scope'', public_field T_string), (''ownerUid'', public_field T_integer),
     (''name'', public_field T_string), (''fragmentDigest'', public_field T_string),
     (''path'', sensitive_field T_string VALUE), (''enabled'', public_field T_boolean),
     (''active'', public_field T_boolean), (''generated'', public_field T_boolean),
     (''transient'', public_field T_boolean), (''execStart'', sensitive_field T_string VALUE),
     (''user'', public_field T_string)]"
| "declared_fields NS_persistence = [(''kind'', public_field T_string), (''sourceDigest'', public_field T_string),
     (''source'', sensitive_field T_string VALUE), (''user'', public_field T_string),
     (''command'', sensitive_field T_string VALUE), (''enabled'', public_field T_boolean)]"
| "declared_fields NS_module = [(''name'', public_field T_string), (''address'', public_field T_string),
     (''size'', public_field T_integer), (''path'', sensitive_field T_string VALUE),
     (''sha256'', (public_field T_string)\<lparr>mf_cost := EXPENSIVE, mf_enumerable := False\<rparr>)]"
| "declared_fields NS_log_source = [(''sourceId'', public_field T_string), (''generation'', public_field T_string),
     (''kind'', public_field T_string), (''path'', sensitive_field T_string VALUE),
     (''firstEventAt'', public_field T_timestamp), (''lastEventAt'', public_field T_timestamp)]"
| "declared_fields NS_log_event = [(''sourceId'', public_field T_string), (''cursor'', public_field T_string),
     (''timestamp'', public_field T_timestamp), (''program'', public_field T_string),
     (''message'', sensitive_field T_string VALUE),
     (''fields'', (sensitive_field T_object VALUE)\<lparr>mf_sortable := False\<rparr>)]"
| "declared_fields NS_auth_event = [(''sourceId'', public_field T_string), (''cursor'', public_field T_string),
     (''timestamp'', public_field T_timestamp), (''eventType'', public_field T_string),
     (''username'', public_field T_string), (''sourceAddress'', public_field T_string),
     (''program'', public_field T_string), (''success'', public_field T_boolean)]"
| "declared_fields NS_exec_event = [(''sourceId'', public_field T_string), (''cursor'', public_field T_string),
     (''timestamp'', public_field T_timestamp), (''pid'', public_field T_integer),
     (''uid'', public_field T_integer), (''executable'', sensitive_field T_string VALUE),
     (''arguments'', sensitive_field T_string VALUE), (''cwd'', sensitive_field T_string VALUE)]"
| "declared_fields NS_web_stack = [(''kind'', public_field T_string), (''instanceId'', public_field T_string),
     (''version'', public_field T_string), (''pid'', public_field T_integer),
     (''configPaths'', sensitive_field T_strings VALUE)]"
| "declared_fields NS_web_root = [(''mountId'', public_field T_string), (''device'', public_field T_string),
     (''inode'', public_field T_string), (''path'', sensitive_field T_string VALUE),
     (''server'', public_field T_string), (''effective'', public_field T_boolean)]"
| "declared_fields NS_jvm = [(''bootId'', public_field T_string), (''pid'', public_field T_integer),
     (''startTicks'', public_field T_string), (''version'', public_field T_string),
     (''command'', sensitive_field T_string VALUE),
     (''attachSupported'', public_field T_boolean), (''container'', public_field T_string)]"
| "declared_fields NS_java_component = [(''jvmDigest'', public_field T_string), (''context'', public_field T_string),
     (''componentKind'', public_field T_string), (''name'', public_field T_string),
     (''className'', public_field T_string), (''classLoaderId'', public_field T_string),
     (''mappings'', sensitive_field T_strings VALUE)]"
| "declared_fields NS_class = [(''jvmDigest'', public_field T_string), (''className'', public_field T_string),
     (''loaderId'', public_field T_string), (''codeSource'', sensitive_field T_string VALUE),
     (''bytecodeSha256'', public_field T_string), (''modifiable'', public_field T_boolean)]"
| "declared_fields NS_package = [(''manager'', public_field T_string), (''name'', public_field T_string),
     (''version'', public_field T_string), (''architecture'', public_field T_string),
     (''installedAt'', public_field T_timestamp), (''integrity'', public_field T_string)]"
| "declared_fields NS_task_ioc = [(''kind'', public_field T_string), (''valueDigest'', public_field T_string),
     (''value'', sensitive_field T_string VALUE), (''suppliedAt'', public_field T_timestamp),
     (''intelProvider'', (public_field T_string)\<lparr>mf_enumerable := False\<rparr>),
     (''intelMalicious'', (public_field T_boolean)\<lparr>mf_enumerable := False\<rparr>),
     (''intelRiskLevel'', (public_field T_string)\<lparr>mf_enumerable := False\<rparr>),
     (''intelConfidence'', (public_field T_number)\<lparr>mf_enumerable := False\<rparr>),
     (''intelThreatTypes'', (public_field T_strings)\<lparr>mf_enumerable := False, mf_sortable := False\<rparr>),
     (''intelQueriedAt'', (public_field T_timestamp)\<lparr>mf_enumerable := False\<rparr>)]"

fun declared_identity :: "namespace_name \<Rightarrow> string list" where
  "declared_identity NS_host = [''bootId'']"
| "declared_identity NS_process = [''bootId'', ''pid'', ''startTicks'']"
| "declared_identity NS_socket = [''protocol'', ''localAddress'', ''localPort'', ''remoteAddress'', ''remotePort'', ''inode'']"
| "declared_identity NS_file = [''mountId'', ''device'', ''inode'']"
| "declared_identity NS_account = [''uid'', ''username'']"
| "declared_identity NS_ssh_key = [''fingerprint'', ''ownerUid'']"
| "declared_identity NS_delegation_rule = [''mechanism'', ''sourceDigest'', ''line'', ''ruleDigest'']"
| "declared_identity NS_ssh_trust_config = [''scope'', ''directive'', ''valueDigest'']"
| "declared_identity NS_cron_entry = [''source'', ''line'', ''digest'']"
| "declared_identity NS_unit = [''scope'', ''ownerUid'', ''name'', ''fragmentDigest'']"
| "declared_identity NS_persistence = [''kind'', ''sourceDigest'']"
| "declared_identity NS_module = [''name'', ''address'']"
| "declared_identity NS_log_source = [''sourceId'', ''generation'']"
| "declared_identity NS_log_event = [''sourceId'', ''cursor'']"
| "declared_identity NS_auth_event = [''sourceId'', ''cursor'']"
| "declared_identity NS_exec_event = [''sourceId'', ''cursor'']"
| "declared_identity NS_web_stack = [''kind'', ''instanceId'']"
| "declared_identity NS_web_root = [''mountId'', ''device'', ''inode'']"
| "declared_identity NS_jvm = [''bootId'', ''pid'', ''startTicks'']"
| "declared_identity NS_java_component = [''jvmDigest'', ''context'', ''componentKind'', ''name'', ''classLoaderId'']"
| "declared_identity NS_class = [''jvmDigest'', ''className'', ''loaderId'']"
| "declared_identity NS_package = [''manager'', ''name'', ''version'', ''architecture'']"
| "declared_identity NS_task_ioc = [''kind'', ''valueDigest'']"

fun namespace_relations :: "namespace_name \<Rightarrow> string list" where
  "namespace_relations NS_host = []"
| "namespace_relations NS_process = [''parent'', ''children'', ''opens'', ''connects'', ''executable'', ''command_file'',
     ''started_by'']"
| "namespace_relations NS_socket = [''owned_by'']"
| "namespace_relations NS_file = [''same_inode'', ''same_sha256'', ''opened_by'', ''referenced_by_persistence'',
     ''requested_in'']"
| "namespace_relations NS_account = [''authorized_key'', ''login_event'']"
| "namespace_relations NS_ssh_key = [''owned_by'']"
| "namespace_relations NS_delegation_rule = []"
| "namespace_relations NS_ssh_trust_config = [''references'']"
| "namespace_relations NS_cron_entry = [''executes'']"
| "namespace_relations NS_unit = [''executes'']"
| "namespace_relations NS_persistence = [''executes'']"
| "namespace_relations NS_module = []"
| "namespace_relations NS_log_source = [''contains'']"
| "namespace_relations NS_log_event = []"
| "namespace_relations NS_auth_event = []"
| "namespace_relations NS_exec_event = []"
| "namespace_relations NS_web_stack = [''serves_root'']"
| "namespace_relations NS_web_root = [''served_by'']"
| "namespace_relations NS_jvm = [''hosts_component'', ''loads_class'']"
| "namespace_relations NS_java_component = [''implemented_by'']"
| "namespace_relations NS_class = [''loaded_by'', ''defined_in'']"
| "namespace_relations NS_package = [''owns_file'']"
| "namespace_relations NS_task_ioc = [''matches'']"

fun namespace_label :: "namespace_name \<Rightarrow> string" where
  "namespace_label NS_host = ''host''"
| "namespace_label NS_process = ''process''"
| "namespace_label NS_socket = ''socket''"
| "namespace_label NS_file = ''file''"
| "namespace_label NS_account = ''account''"
| "namespace_label NS_ssh_key = ''ssh_key''"
| "namespace_label NS_delegation_rule = ''delegation_rule''"
| "namespace_label NS_ssh_trust_config = ''ssh_trust_config''"
| "namespace_label NS_cron_entry = ''cron_entry''"
| "namespace_label NS_unit = ''unit''"
| "namespace_label NS_persistence = ''persistence''"
| "namespace_label NS_module = ''module''"
| "namespace_label NS_log_source = ''log_source''"
| "namespace_label NS_log_event = ''log_event''"
| "namespace_label NS_auth_event = ''auth_event''"
| "namespace_label NS_exec_event = ''exec_event''"
| "namespace_label NS_web_stack = ''web_stack''"
| "namespace_label NS_web_root = ''web_root''"
| "namespace_label NS_jvm = ''jvm''"
| "namespace_label NS_java_component = ''java_component''"
| "namespace_label NS_class = ''class''"
| "namespace_label NS_package = ''package''"
| "namespace_label NS_task_ioc = ''task_ioc''"

section \<open>Lookups\<close>

text \<open>The loop over the definitions marks the identity fields.\<close>

definition namespace_fields :: "namespace_name \<Rightarrow> (string \<times> manifest_field) list" where
  "namespace_fields ns = map (\<lambda>(n, f).
     (n, if n \<in> set (declared_identity ns) then f\<lparr>mf_identity := True\<rparr> else f)) (declared_fields ns)"

definition lookup_field :: "namespace_name \<Rightarrow> string \<Rightarrow> manifest_field option" where
  "lookup_field ns n = map_of (namespace_fields ns) n"

definition identityFields :: "namespace_name \<Rightarrow> string list" where
  "identityFields ns = map fst (filter (\<lambda>(_, f). mf_identity f) (namespace_fields ns))"

definition all_namespaces :: "namespace_name list" where
  "all_namespaces = [NS_host, NS_process, NS_socket, NS_file, NS_account, NS_ssh_key,
     NS_delegation_rule, NS_ssh_trust_config, NS_cron_entry, NS_unit, NS_persistence, NS_module,
     NS_log_source, NS_log_event, NS_auth_event, NS_exec_event, NS_web_stack, NS_web_root, NS_jvm,
     NS_java_component, NS_class, NS_package, NS_task_ioc]"

definition manifest_relations :: "string list" where
  "manifest_relations = unique (concat (map namespace_relations all_namespaces))"

text \<open>
  \<open>manifest.fields[name]\<close> on a plain object also finds the properties of its prototype. A
  caller that only tests the result for truth takes these names for declared fields.
\<close>

definition object_prototype_names :: "string list" where
  "object_prototype_names = [''constructor'', ''hasOwnProperty'', ''isPrototypeOf'',
     ''propertyIsEnumerable'', ''toLocaleString'', ''toString'', ''valueOf'', ''__proto__'',
     ''__defineGetter__'', ''__defineSetter__'', ''__lookupGetter__'', ''__lookupSetter__'']"

definition truthy_field :: "namespace_name \<Rightarrow> string \<Rightarrow> bool" where
  "truthy_field ns n \<longleftrightarrow> lookup_field ns n \<noteq> None \<or> n \<in> set object_prototype_names"

datatype field_capability = Cap_enumerable | Cap_projectable | Cap_filterable | Cap_sortable

fun has_capability :: "manifest_field \<Rightarrow> field_capability \<Rightarrow> bool" where
  "has_capability f Cap_enumerable = mf_enumerable f"
| "has_capability f Cap_projectable = mf_projectable f"
| "has_capability f Cap_filterable = mf_filterable f"
| "has_capability f Cap_sortable = mf_sortable f"

definition assertManifestField :: "namespace_name \<Rightarrow> string \<Rightarrow> field_capability \<Rightarrow> err + manifest_field" where
  "assertManifestField ns n cap = (case lookup_field ns n of
     None \<Rightarrow> Inl Invalid_argument
   | Some f \<Rightarrow> if has_capability f cap then Inr f else Inl Invalid_argument)"

section \<open>Hard limits\<close>

record predicate_limits =
  pl_depth :: nat
  pl_nodes :: nat

definition predicate_hard_limits :: predicate_limits where
  "predicate_hard_limits = \<lparr>pl_depth = 4, pl_nodes = 32\<rparr>"

definition query_predicate_limits :: predicate_limits where
  "query_predicate_limits = \<lparr>pl_depth = 6, pl_nodes = 64\<rparr>"

definition predicateStringBytes :: nat where "predicateStringBytes = 256"
definition predicateInItems :: nat where "predicateInItems = 64"
definition enumerateLimit :: nat where "enumerateLimit = 500"
definition readBytes :: nat where "readBytes = 65536"
definition collectBytes :: nat where "collectBytes = 104857600"
definition factBatchRows :: nat where "factBatchRows = 2048"

section \<open>What holds of every field of the manifest\<close>

lemma all_namespaces_complete: "ns \<in> set all_namespaces"
  by (cases ns) (simp_all add: all_namespaces_def)

lemma declared_identity_fields: "set (declared_identity ns) \<subseteq> fst ` set (declared_fields ns)"
  by (cases ns) simp_all

lemma declared_fields_distinct: "distinct (map fst (declared_fields ns))"
  by (cases ns) simp_all

lemma namespace_fields_names: "map fst (namespace_fields ns) = map fst (declared_fields ns)"
  by (auto simp: namespace_fields_def)

text \<open>A secret field is never a filter or a sort key, and only its presence is exposed.\<close>

lemma declared_secret:
  "\<forall>(n, f)\<in>set (declared_fields ns). mf_sensitivity f = SECRET \<longrightarrow>
     mf_modelExposure f = PRESENCE_ONLY \<and> \<not> mf_filterable f \<and> \<not> mf_sortable f"
  by (cases ns) (simp_all add: field_defs)

text \<open>No declared field carries raw evidence, and none is exposed less than by presence.\<close>

lemma declared_exposure:
  "\<forall>(n, f)\<in>set (declared_fields ns). mf_sensitivity f \<noteq> EVIDENCE_ONLY \<and> mf_modelExposure f \<noteq> DENY"
  by (cases ns) (simp_all add: field_defs)

lemma lookup_field_declared:
  "lookup_field ns n = Some f \<Longrightarrow> \<exists>g. (n, g) \<in> set (declared_fields ns)
     \<and> (f = g \<or> f = g\<lparr>mf_identity := True\<rparr>)"
  unfolding lookup_field_def namespace_fields_def by (force dest!: map_of_SomeD split: if_splits)

lemma secret_field_exposure:
  assumes "lookup_field ns n = Some f" and "mf_sensitivity f = SECRET"
  shows "mf_modelExposure f = PRESENCE_ONLY"
  using lookup_field_declared [OF assms(1)] declared_secret [of ns] assms(2) by fastforce

end
