(* ===== verification/Predicates.thy ===== *)
theory Predicates
  imports Manifest
begin

text \<open>
  Predicates on fact payloads, \<open>src/protocol-v2/predicate.ts\<close>. Both functions of the source
  take the raw object the model sent: \<open>visit\<close> checks it, \<open>evaluatePredicate\<close> runs it. The
  specification beside them is the boolean reading of the declared type \<open>Predicate\<close>.
\<close>

section \<open>The check\<close>

definition leaf_operators :: "string list" where
  "leaf_operators = [''eq'', ''neq'', ''lt'', ''lte'', ''gt'', ''gte'', ''in'', ''contains'',
     ''starts_with'', ''exists'']"

definition comparison_operators :: "string list" where
  "comparison_operators = [''lt'', ''lte'', ''gt'', ''gte'']"

definition string_operators :: "string list" where
  "string_operators = [''contains'', ''starts_with'']"

fun scalar_item :: "js \<Rightarrow> bool" where
  "scalar_item (Str _) = True"
| "scalar_item (Num _) = True"
| "scalar_item (Bool _) = True"
| "scalar_item _ = False"

definition value_ok :: "string \<Rightarrow> field_type \<Rightarrow> js \<Rightarrow> bool" where
  "value_ok op ty v =
     (if op = ''exists'' then v = Undefined \<or> is_bool v
      else v \<noteq> Undefined
        \<and> \<not> (is_string v \<and> predicateStringBytes < utf8_length (string_of v))
        \<and> (if op = ''in'' then is_array v \<and> 1 \<le> length (items v) \<and> length (items v) \<le> predicateInItems
             \<and> list_all scalar_item (items v)
           else \<not> is_array v \<and> \<not> is_record v
             \<and> \<not> (op \<in> set string_operators \<and> ty \<noteq> T_string)
             \<and> \<not> (op \<in> set comparison_operators \<and> ty \<notin> {T_integer, T_number, T_timestamp, T_string})))"

definition validateValue :: "string \<Rightarrow> field_type \<Rightarrow> js \<Rightarrow> err + unit" where
  "validateValue op ty v = (if value_ok op ty v then Inr () else Inl Invalid_argument)"

definition has_member :: "js \<Rightarrow> string \<Rightarrow> bool" where
  "has_member v k = (case v of Obj kvs \<Rightarrow> map_of kvs k \<noteq> None | _ \<Rightarrow> False)"

definition check_leaf :: "namespace_name \<Rightarrow> js \<Rightarrow> err + unit" where
  "check_leaf ns node = (let op = string_of (member node ''op''); field = member node ''field'' in
     if op \<notin> set leaf_operators then Inl Invalid_argument
     else if \<not> is_string field \<or> string_of field = [] then Inl Invalid_argument
     else case assertManifestField ns (string_of field) Cap_filterable of
       Inl e \<Rightarrow> Inl e
     | Inr f \<Rightarrow> validateValue op (mf_type f) (member node ''value''))"

lemma size_get_prop: "size (get_prop kvs k) < size (Obj kvs)"
proof (cases "map_of kvs k")
  case (Some v)
  have "size x < size (Obj kvs)" if "(k, x) \<in> set kvs" for x
    using that by (induction kvs) auto
  then show ?thesis using Some by (auto simp: get_prop_def dest: map_of_SomeD)
qed (simp add: get_prop_def)

lemma size_member: "is_record v \<Longrightarrow> size (member v k) < size v"
  by (cases v) (simp_all add: size_get_prop del: js.size)

lemma size_item: "x \<in> set (items v) \<Longrightarrow> size x < size v"
  by (cases v) (auto simp: less_Suc_eq_le intro: size_list_estimation')

lemma size_args:
  assumes "is_record node"
  shows "size_list size (items (member node ''args'')) < size node"
proof -
  have "size (member node ''args'') < size node" using assms by (rule size_member)
  then show ?thesis by (cases "member node ''args''") simp_all
qed

text \<open>\<open>visit\<close> threads the number of nodes seen so far.\<close>

function visit :: "predicate_limits \<Rightarrow> namespace_name \<Rightarrow> js \<Rightarrow> nat \<Rightarrow> nat \<Rightarrow> err + nat"
  and visit_all :: "predicate_limits \<Rightarrow> namespace_name \<Rightarrow> js list \<Rightarrow> nat \<Rightarrow> nat \<Rightarrow> err + nat" where
  "visit bnd ns node depth nodes =
     (if pl_nodes bnd < Suc nodes then Inl Invalid_argument
      else if pl_depth bnd < depth then Inl Invalid_argument
      else if \<not> is_record node \<or> \<not> is_string (member node ''op'') then Inl Invalid_argument
      else if string_of (member node ''op'') = ''and'' \<or> string_of (member node ''op'') = ''or'' then
        if \<not> is_array (member node ''args'') then Inl Invalid_argument
        else if length (items (member node ''args'')) < 1 \<or> 32 < length (items (member node ''args''))
        then Inl Invalid_argument
        else visit_all bnd ns (items (member node ''args'')) (Suc depth) (Suc nodes)
      else if string_of (member node ''op'') = ''not'' then
        if \<not> has_member node ''arg'' then Inl Invalid_argument
        else visit bnd ns (member node ''arg'') (Suc depth) (Suc nodes)
      else case check_leaf ns node of Inl e \<Rightarrow> Inl e | Inr _ \<Rightarrow> Inr (Suc nodes))"
| "visit_all bnd ns [] depth nodes = Inr nodes"
| "visit_all bnd ns (x # xs) depth nodes = (case visit bnd ns x depth nodes of
     Inl e \<Rightarrow> Inl e | Inr n \<Rightarrow> visit_all bnd ns xs depth n)"
  by pat_completeness auto

termination
  by (relation "measure (\<lambda>v. case v of Inl (_, _, node, _, _) \<Rightarrow> 2 * size node
      | Inr (_, _, nodes, _, _) \<Rightarrow> 2 * size_list size nodes + 1)")
    (auto simp: size_member dest: size_args)

definition validatePredicate ::
  "namespace_name \<Rightarrow> js \<Rightarrow> predicate_limits option \<Rightarrow> err + unit" where
  "validatePredicate ns v limits = (if v = Undefined then Inr ()
     else case visit (option_or limits predicate_hard_limits) ns v 1 0 of
       Inl e \<Rightarrow> Inl e | Inr _ \<Rightarrow> Inr ())"

section \<open>The evaluation\<close>

fun comparable :: "js \<Rightarrow> js" where
  "comparable (Num n) = Num n"
| "comparable (Str s) = Str s"
| "comparable _ = Str []"

definition leaf_holds :: "string \<Rightarrow> js \<Rightarrow> js \<Rightarrow> bool" where
  "leaf_holds op actual expected =
     (if op = ''exists'' then (if (if nullish expected then True else truthy expected)
          then \<not> nullish actual else nullish actual)
      else if op = ''eq'' then strict_eq actual expected
      else if op = ''neq'' then \<not> strict_eq actual expected
      else if op = ''lt'' then js_lt (comparable actual) (comparable expected)
      else if op = ''lte'' then js_le (comparable actual) (comparable expected)
      else if op = ''gt'' then js_lt (comparable expected) (comparable actual)
      else if op = ''gte'' then js_le (comparable expected) (comparable actual)
      else if op = ''in'' then is_array expected \<and> array_includes (items expected) actual
      else if op = ''contains'' then is_string actual \<and> is_string expected
        \<and> includes_string (string_of expected) (string_of actual)
      else if op = ''starts_with'' then is_string actual \<and> is_string expected
        \<and> starts_with (string_of expected) (string_of actual)
      else False)"

lemma has_member_record: "has_member v k \<Longrightarrow> is_record v"
  by (cases v) (simp_all add: has_member_def)

text \<open>
  The evaluation looks at the keys, not at \<open>op\<close>: a node with an \<open>args\<close> key is a conjunction
  when its \<open>op\<close> is "and" and a disjunction otherwise; a node with an \<open>arg\<close> key is a negation.
  A falsy predicate holds; \<open>in\<close> on another primitive and \<open>every\<close> of something that is not an
  array are a TypeError. \<open>every\<close> and \<open>some\<close> stop at the first child that decides.
\<close>

function evaluatePredicate :: "js \<Rightarrow> (string \<times> js) list \<Rightarrow> err + bool"
  and every_holds :: "js list \<Rightarrow> (string \<times> js) list \<Rightarrow> err + bool"
  and some_holds :: "js list \<Rightarrow> (string \<times> js) list \<Rightarrow> err + bool" where
  "evaluatePredicate p payload =
     (if \<not> truthy p then Inr True
      else if \<not> is_record p \<and> \<not> is_array p then Inl Type_error
      else if has_member p ''args'' then
        if \<not> is_array (member p ''args'') then Inl Type_error
        else if strict_eq (member p ''op'') (Str ''and'') then every_holds (items (member p ''args'')) payload
        else some_holds (items (member p ''args'')) payload
      else if has_member p ''arg'' then
        (case evaluatePredicate (member p ''arg'') payload of Inl e \<Rightarrow> Inl e | Inr b \<Rightarrow> Inr (\<not> b))
      else Inr (leaf_holds (string_of (member p ''op''))
             (get_prop payload (string_of (member p ''field''))) (member p ''value'')))"
| "every_holds [] payload = Inr True"
| "every_holds (x # xs) payload = (case evaluatePredicate x payload of
     Inl e \<Rightarrow> Inl e | Inr b \<Rightarrow> if b then every_holds xs payload else Inr False)"
| "some_holds [] payload = Inr False"
| "some_holds (x # xs) payload = (case evaluatePredicate x payload of
     Inl e \<Rightarrow> Inl e | Inr b \<Rightarrow> if b then Inr True else some_holds xs payload)"
  by pat_completeness auto

termination
  by (relation "measure (\<lambda>v. case v of Inl (node, _) \<Rightarrow> 2 * size node
      | Inr (Inl (nodes, _)) \<Rightarrow> 2 * size_list size nodes + 1
      | Inr (Inr (nodes, _)) \<Rightarrow> 2 * size_list size nodes + 1)")
    (auto simp: size_member dest!: has_member_record dest: size_args)

declare visit.simps [simp del] visit_all.simps [simp del] evaluatePredicate.simps [simp del]

section \<open>The specification\<close>

text \<open>The object that a value of the declared type \<open>Predicate\<close> is.\<close>

fun operator_name :: "predicate_operator \<Rightarrow> string" where
  "operator_name Op_eq = ''eq''"
| "operator_name Op_neq = ''neq''"
| "operator_name Op_lt = ''lt''"
| "operator_name Op_lte = ''lte''"
| "operator_name Op_gt = ''gt''"
| "operator_name Op_gte = ''gte''"
| "operator_name Op_in = ''in''"
| "operator_name Op_contains = ''contains''"
| "operator_name Op_starts_with = ''starts_with''"
| "operator_name Op_exists = ''exists''"

fun predicate_js :: "predicate \<Rightarrow> js" where
  "predicate_js (P_and ps) = Obj [(''op'', Str ''and''), (''args'', Arr (map predicate_js ps))]"
| "predicate_js (P_or ps) = Obj [(''op'', Str ''or''), (''args'', Arr (map predicate_js ps))]"
| "predicate_js (P_not p) = Obj [(''op'', Str ''not''), (''arg'', predicate_js p)]"
| "predicate_js (P_leaf op f v) =
     Obj [(''op'', Str (operator_name op)), (''field'', Str f), (''value'', v)]"

fun satisfies :: "predicate \<Rightarrow> (string \<times> js) list \<Rightarrow> bool" where
  "satisfies (P_and ps) payload = list_all (\<lambda>p. satisfies p payload) ps"
| "satisfies (P_or ps) payload = list_ex (\<lambda>p. satisfies p payload) ps"
| "satisfies (P_not p) payload = (\<not> satisfies p payload)"
| "satisfies (P_leaf op f v) payload = leaf_holds (operator_name op) (get_prop payload f) v"

fun node_count :: "predicate \<Rightarrow> nat" where
  "node_count (P_and ps) = Suc (sum_list (map node_count ps))"
| "node_count (P_or ps) = Suc (sum_list (map node_count ps))"
| "node_count (P_not p) = Suc (node_count p)"
| "node_count (P_leaf op f v) = 1"

fun nesting :: "predicate \<Rightarrow> nat" where
  "nesting (P_and ps) = Suc (foldr max (map nesting ps) 0)"
| "nesting (P_or ps) = Suc (foldr max (map nesting ps) 0)"
| "nesting (P_not p) = Suc (nesting p)"
| "nesting (P_leaf op f v) = 1"

text \<open>Every leaf names a filterable field of the namespace and carries a value its operator takes.\<close>

fun leaves_ok :: "namespace_name \<Rightarrow> predicate \<Rightarrow> bool" where
  "leaves_ok ns (P_and ps) = (1 \<le> length ps \<and> length ps \<le> 32 \<and> list_all (leaves_ok ns) ps)"
| "leaves_ok ns (P_or ps) = (1 \<le> length ps \<and> length ps \<le> 32 \<and> list_all (leaves_ok ns) ps)"
| "leaves_ok ns (P_not p) = leaves_ok ns p"
| "leaves_ok ns (P_leaf op f v) = (f \<noteq> [] \<and> (case lookup_field ns f of None \<Rightarrow> False
     | Some d \<Rightarrow> mf_filterable d \<and> value_ok (operator_name op) (mf_type d) v))"

lemma operator_name_leaf [simp]: "operator_name op \<in> set leaf_operators"
  "operator_name op \<noteq> ''and''" "operator_name op \<noteq> ''or''" "operator_name op \<noteq> ''not''"
  by (cases op; simp add: leaf_operators_def)+

lemma get_prop_simps [simp]:
  "get_prop [] k = Undefined"
  "get_prop ((a, v) # kvs) k = (if a = k then v else get_prop kvs k)"
  by (simp_all add: get_prop_def)

lemma check_leaf_js:
  "check_leaf ns (predicate_js (P_leaf op f v)) =
     (if leaves_ok ns (P_leaf op f v) then Inr () else Inl Invalid_argument)"
  by (auto simp: check_leaf_def Let_def assertManifestField_def validateValue_def split: option.splits)

lemma predicate_js_shape [simp]:
  "is_record (predicate_js p)" "truthy (predicate_js p)" "predicate_js p \<noteq> Undefined"
  by (cases p; simp)+

lemma members_js [simp]:
  "member (predicate_js (P_and ps)) ''op'' = Str ''and''"
  "member (predicate_js (P_or ps)) ''op'' = Str ''or''"
  "member (predicate_js (P_not p)) ''op'' = Str ''not''"
  "member (predicate_js (P_leaf op f v)) ''op'' = Str (operator_name op)"
  "member (predicate_js (P_and ps)) ''args'' = Arr (map predicate_js ps)"
  "member (predicate_js (P_or ps)) ''args'' = Arr (map predicate_js ps)"
  "member (predicate_js (P_not p)) ''arg'' = predicate_js p"
  "member (predicate_js (P_leaf op f v)) ''field'' = Str f"
  "member (predicate_js (P_leaf op f v)) ''value'' = v"
  by simp_all

lemma has_member_js [simp]:
  "has_member (predicate_js (P_and ps)) ''args''" "has_member (predicate_js (P_or ps)) ''args''"
  "\<not> has_member (predicate_js (P_not p)) ''args''" "has_member (predicate_js (P_not p)) ''arg''"
  "\<not> has_member (predicate_js (P_leaf op f v)) ''args''"
  "\<not> has_member (predicate_js (P_leaf op f v)) ''arg''"
  by (simp_all add: has_member_def)

declare predicate_js.simps [simp del]

lemma node_count_pos: "1 \<le> node_count p"
  by (cases p) simp_all

lemma fold_max_le: "d + foldr max ns 0 \<le> (m::nat) \<longleftrightarrow> d \<le> m \<and> (\<forall>n\<in>set ns. d + n \<le> m)"
  by (induction ns) auto

lemma one_le_length: "Suc 0 \<le> length xs \<longleftrightarrow> xs \<noteq> []"
  by (cases xs) simp_all

text \<open>What \<open>visit\<close> and \<open>visit_all\<close> answer on the objects of the declared type.\<close>

definition fits :: "predicate_limits \<Rightarrow> namespace_name \<Rightarrow> predicate \<Rightarrow> nat \<Rightarrow> nat \<Rightarrow> bool" where
  "fits bnd ns p depth n \<longleftrightarrow>
     n + node_count p \<le> pl_nodes bnd \<and> depth + nesting p \<le> Suc (pl_depth bnd) \<and> leaves_ok ns p"

definition answer :: "bool \<Rightarrow> nat \<Rightarrow> err + nat" where
  "answer b n = (if b then Inr n else Inl Invalid_argument)"

lemma visit_all_js:
  assumes "\<And>q depth n. q \<in> set ps \<Longrightarrow>
      visit bnd ns (predicate_js q) depth n = answer (fits bnd ns q depth n) (n + node_count q)"
  shows "visit_all bnd ns (map predicate_js ps) depth n =
    answer ((ps \<noteq> [] \<longrightarrow> n + sum_list (map node_count ps) \<le> pl_nodes bnd)
      \<and> (\<forall>q\<in>set ps. depth + nesting q \<le> Suc (pl_depth bnd) \<and> leaves_ok ns q))
      (n + sum_list (map node_count ps))"
  using assms
proof (induction ps arbitrary: n)
  case Nil
  then show ?case by (simp add: visit_all.simps answer_def)
next
  case (Cons q ps)
  have one: "visit bnd ns (predicate_js q) depth n = answer (fits bnd ns q depth n) (n + node_count q)"
    using Cons.prems by simp
  have rest: "visit_all bnd ns (map predicate_js ps) depth (n + node_count q) =
    answer ((ps \<noteq> [] \<longrightarrow> n + node_count q + sum_list (map node_count ps) \<le> pl_nodes bnd)
      \<and> (\<forall>q\<in>set ps. depth + nesting q \<le> Suc (pl_depth bnd) \<and> leaves_ok ns q))
      (n + node_count q + sum_list (map node_count ps))"
    using Cons.prems by (intro Cons.IH) auto
  show ?case
  proof (cases "fits bnd ns q depth n")
    case True
    then show ?thesis using rest
      by (cases ps) (auto simp: visit_all.simps one answer_def fits_def add.assoc)
  next
    case False
    then show ?thesis by (auto simp: visit_all.simps one answer_def fits_def)
  qed
qed

lemma visit_js:
  "visit bnd ns (predicate_js p) depth n = answer (fits bnd ns p depth n) (n + node_count p)"
proof (induction p arbitrary: depth n)
  case (P_and ps)
  show ?case
    by (subst visit.simps) (auto simp: visit_all_js [OF P_and] answer_def fits_def fold_max_le list_all_iff one_le_length)
next
  case (P_or ps)
  show ?case
    by (subst visit.simps) (auto simp: visit_all_js [OF P_or] answer_def fits_def fold_max_le list_all_iff one_le_length)
next
  case (P_not p)
  show ?case using node_count_pos [of p]
    by (subst visit.simps) (auto simp: P_not answer_def fits_def)
next
  case (P_leaf op f v)
  show ?case
    by (subst visit.simps) (auto simp: check_leaf_js answer_def fits_def)
qed

lemma evaluate_list_js:
  assumes "\<And>q. q \<in> set ps \<Longrightarrow> evaluatePredicate (predicate_js q) payload = Inr (satisfies q payload)"
  shows "every_holds (map predicate_js ps) payload = Inr (list_all (\<lambda>q. satisfies q payload) ps)"
    and "some_holds (map predicate_js ps) payload = Inr (list_ex (\<lambda>q. satisfies q payload) ps)"
  using assms by (induction ps) simp_all

lemma evaluate_js: "evaluatePredicate (predicate_js p) payload = Inr (satisfies p payload)"
proof (induction p)
  case (P_and ps)
  show ?case by (subst evaluatePredicate.simps) (simp add: evaluate_list_js [OF P_and])
next
  case (P_or ps)
  show ?case by (subst evaluatePredicate.simps) (simp add: evaluate_list_js [OF P_or])
next
  case (P_not p)
  then show ?case by (subst evaluatePredicate.simps) simp
next
  case (P_leaf op f v)
  show ?case by (subst evaluatePredicate.simps) simp
qed

section \<open>Properties\<close>

text \<open>
  The check of a predicate decides exactly the bounds and types it is meant to decide: an
  object of the declared type is accepted when it has at most the allowed number of nodes and
  nesting, 1 to 32 children at every and/or, and only leaves on filterable fields of the
  namespace with a value the operator takes; every other one is refused with INVALID_ARGUMENT.
\<close>

theorem validatePredicate_decides:
  "validatePredicate ns (predicate_js p) limits =
    (let bnd = option_or limits predicate_hard_limits in
     if node_count p \<le> pl_nodes bnd \<and> nesting p \<le> pl_depth bnd \<and> leaves_ok ns p
     then Inr () else Inl Invalid_argument)"
  by (simp add: validatePredicate_def visit_js answer_def fits_def Let_def)


text \<open>
  On other objects the check and the evaluation disagree: the check takes a node with
  \<open>op\<close> "not" for the negation of its \<open>arg\<close> and does not look at further keys, while the
  evaluation takes the same node for a disjunction because it has an \<open>args\<close> key. So a predicate
  that passes the check can answer false for a fact whose negated condition is false too, and
  can end the query with a TypeError.
\<close>

definition two_faced :: "js \<Rightarrow> js" where
  "two_faced args = Obj [(''op'', Str ''not''),
     (''arg'', predicate_js (P_leaf Op_eq ''pid'' (Num (Fin 1)))), (''args'', args)]"

theorem extra_key_changes_meaning:
  "validatePredicate NS_process (two_faced args) limits
      = validatePredicate NS_process (predicate_js (P_not (P_leaf Op_eq ''pid'' (Num (Fin 1))))) limits
   \<and> evaluatePredicate (two_faced (Arr [])) payload = Inr False
   \<and> evaluatePredicate (two_faced (Num (Fin 5))) payload = Inl Type_error"
proof -
  have "member (two_faced args) ''op'' = Str ''not''" "has_member (two_faced args) ''arg''"
    "member (two_faced args) ''arg'' = predicate_js (P_leaf Op_eq ''pid'' (Num (Fin 1)))"
    "is_record (two_faced args)" by (simp_all add: two_faced_def has_member_def)
  then have "visit bnd NS_process (two_faced args) 1 0
      = visit bnd NS_process (predicate_js (P_not (P_leaf Op_eq ''pid'' (Num (Fin 1))))) 1 0" for bnd
    by (subst (1 2) visit.simps) simp
  then have "validatePredicate NS_process (two_faced args) limits
      = validatePredicate NS_process (predicate_js (P_not (P_leaf Op_eq ''pid'' (Num (Fin 1))))) limits"
    by (simp add: validatePredicate_def two_faced_def)
  moreover have "evaluatePredicate (two_faced (Arr [])) payload = Inr False"
    "evaluatePredicate (two_faced (Num (Fin 5))) payload = Inl Type_error"
    by (subst evaluatePredicate.simps; simp add: two_faced_def has_member_def)+
  ultimately show ?thesis by blast
qed

end
