(* ===== verification/Capability.thy ===== *)
theory Capability
  imports Manifest Store "HOL-Library.Multiset"
begin

text \<open>
  What a task may ask of the helper: \<open>src/protocol-v2/capability.ts\<close> intersects what the helper
  advertises with the manifest and the active category grants, and
  \<open>src/investigation/version.ts\<close> condenses the grants into the authorization version that the
  action queue compares and the envelope a session carries. \<open>Date.parse\<close> and the digest of an
  object are parameters (\<open>parse\<close>, \<open>digest\<close>); a call reads the clock once (\<open>t\<close>). The digests are
  lower-case hexadecimal, on which \<open>localeCompare\<close> is the order of the code units.
\<close>

section \<open>Active grants\<close>

definition grant_active :: "(string \<Rightarrow> jsnum) \<Rightarrow> rat \<Rightarrow> task_grant \<Rightarrow> bool" where
  "grant_active parse t g \<longleftrightarrow> gr_status g = GS_ACTIVE
     \<and> (case gr_expiresAt g of None \<Rightarrow> True | Some e \<Rightarrow> e = [] \<or> num_lt (Fin t) (parse e))"

fun category_name :: "check_category \<Rightarrow> string" where
  "category_name Webshell = ''webshell''"
| "category_name Java_memory_shell = ''java_memory_shell''"
| "category_name Backdoor_account = ''backdoor_account''"
| "category_name Linux_persistence = ''linux_persistence''"
| "category_name Linux_intrusion_triage = ''linux_intrusion_triage''"

definition all_categories :: "check_category list" where
  "all_categories = [Webshell, Java_memory_shell, Backdoor_account, Linux_persistence, Linux_intrusion_triage]"

definition category_of :: "string \<Rightarrow> check_category option" where
  "category_of s = List.find (\<lambda>c. category_name c = s) all_categories"

fun categoryNamespaces :: "check_category \<Rightarrow> namespace_name list" where
  "categoryNamespaces Webshell =
     [NS_host, NS_process, NS_file, NS_log_source, NS_log_event, NS_web_stack, NS_web_root]"
| "categoryNamespaces Java_memory_shell =
     [NS_host, NS_process, NS_file, NS_module, NS_jvm, NS_java_component, NS_class]"
| "categoryNamespaces Backdoor_account =
     [NS_host, NS_account, NS_ssh_key, NS_delegation_rule, NS_ssh_trust_config, NS_file,
      NS_log_source, NS_auth_event]"
| "categoryNamespaces Linux_persistence =
     [NS_host, NS_process, NS_file, NS_ssh_key, NS_cron_entry, NS_unit, NS_persistence, NS_module]"
| "categoryNamespaces Linux_intrusion_triage =
     [NS_host, NS_process, NS_socket, NS_file, NS_account, NS_ssh_key, NS_cron_entry, NS_unit,
      NS_persistence, NS_module, NS_log_source, NS_log_event, NS_auth_event, NS_exec_event, NS_package]"

text \<open>A category the table does not know allows nothing (\<open>CATEGORY_NAMESPACES[c]?.has\<close>).\<close>

definition grant_allows :: "(string \<Rightarrow> jsnum) \<Rightarrow> rat \<Rightarrow> namespace_name \<Rightarrow> task_grant \<Rightarrow> bool" where
  "grant_allows parse t ns g \<longleftrightarrow> gr_kind g = GK_CATEGORY \<and> grant_active parse t g
     \<and> (case get_prop (gr_binding g) ''category'' of
          Str c \<Rightarrow> (case category_of c of None \<Rightarrow> False | Some cat \<Rightarrow> ns \<in> set (categoryNamespaces cat))
        | _ \<Rightarrow> False)"

definition categoryGrantAllowsNamespace ::
  "(string \<Rightarrow> jsnum) \<Rightarrow> rat \<Rightarrow> task_grant list \<Rightarrow> namespace_name \<Rightarrow> bool" where
  "categoryGrantAllowsNamespace parse t grants ns = list_ex (grant_allows parse t ns) grants"

section \<open>The gate\<close>

record advertised_namespace =
  av_fields :: "string list"
  av_relations :: "string list"
  av_verbs :: "string list option"

record helper_limits =
  hl_maxObjects :: rat
  hl_maxOutputBytes :: rat
  hl_maxReadBytes :: rat
  hl_maxCollectBytes :: rat

record helper_capabilities =
  hc_protocolVersion :: rat
  hc_manifestVersion :: string
  hc_namespaces :: "(string \<times> advertised_namespace) list"
  hc_matchers :: "string list"
  hc_probes :: "string list"
  hc_verbs :: "string list"
  hc_limits :: helper_limits

record effective_namespace =
  en_fields :: "string list"
  en_relations :: "string list"
  en_verbs :: "string list"

record effective_capabilities =
  ef_namespaces :: "(namespace_name \<times> effective_namespace) list"
  ef_matchers :: "string list"
  ef_probes :: "string list"
  ef_verbs :: "string list"
  ef_limits :: helper_limits
  ef_protocolAnomalies :: "string list"

definition known_verbs :: "string list" where
  "known_verbs = [''enumerate'', ''project'', ''read'', ''match'', ''relate'', ''verify'', ''collect'', ''probe'']"

definition known_matchers :: "string list" where
  "known_matchers = [''literal'', ''re2'', ''yara'']"

definition known_probes :: "string list" where
  "known_probes = [''jvm.tomcat.inventory'', ''jvm.class.inspect'', ''jvm.class.dump'']"

text \<open>\<open>new Set(xs.filter(keep))\<close>, with an anomaly for each value that is dropped.\<close>

definition keep_known :: "(string \<Rightarrow> bool) \<Rightarrow> string \<Rightarrow> string list \<Rightarrow> string list \<times> string list" where
  "keep_known keep prefix xs = (unique (filter keep xs), map (\<lambda>x. prefix @ x) (filter (\<lambda>x. \<not> keep x) xs))"

definition anomaly :: "string \<Rightarrow> string \<Rightarrow> string" where
  "anomaly what ns = ''helper_advertised_unknown_'' @ what @ '':'' @ ns"

definition gate_namespace ::
  "(string \<Rightarrow> jsnum) \<Rightarrow> rat \<Rightarrow> task_grant list \<Rightarrow> string list \<Rightarrow> string \<times> advertised_namespace \<Rightarrow>
   (namespace_name \<times> effective_namespace) option \<times> string list" where
  "gate_namespace parse t active verbs = (\<lambda>(raw, av).
     case List.find (\<lambda>ns. namespace_label ns = raw) all_namespaces of
       None \<Rightarrow> (None, if raw \<in> set object_prototype_names then [] else [anomaly ''namespace'' raw])
     | Some ns \<Rightarrow>
       if ns = NS_task_ioc then (None, [anomaly ''namespace'' raw])
       else if \<not> categoryGrantAllowsNamespace parse t active ns then (None, [])
       else let f = keep_known (truthy_field ns) (anomaly ''field'' raw @ ''.'') (av_fields av);
                r = keep_known (\<lambda>x. x \<in> set (namespace_relations ns)) (anomaly ''relation'' raw @ ''.'')
                      (av_relations av);
                v = keep_known (\<lambda>x. x \<in> set known_verbs \<and> x \<in> set verbs) (anomaly ''verb'' raw @ ''.'')
                      (option_or (av_verbs av) [])
            in (Some (ns, \<lparr>en_fields = fst f, en_relations = fst r, en_verbs = fst v\<rparr>),
                snd f @ snd r @ snd v))"

definition gateCapabilities ::
  "(string \<Rightarrow> jsnum) \<Rightarrow> rat \<Rightarrow> helper_capabilities \<Rightarrow> task_grant list \<Rightarrow> err + effective_capabilities" where
  "gateCapabilities parse t helper grants =
     (if hc_protocolVersion helper \<noteq> of_nat PROTOCOL_VERSION \<or> hc_manifestVersion helper \<noteq> MANIFEST_VERSION
      then Inl (Security_error UNSUPPORTED_ENVIRONMENT)
      else let active = filter (grant_active parse t) grants;
               gated = map (gate_namespace parse t active (hc_verbs helper)) (hc_namespaces helper);
               l = hc_limits helper
           in Inr \<lparr>ef_namespaces = List.map_filter fst gated,
                ef_matchers = unique (filter (\<lambda>x. x \<in> set known_matchers) (hc_matchers helper)),
                ef_probes = unique (filter (\<lambda>x. x \<in> set known_probes) (hc_probes helper)),
                ef_verbs = unique (filter (\<lambda>x. x \<in> set known_verbs) (hc_verbs helper)),
                ef_limits = \<lparr>hl_maxObjects = min (hl_maxObjects l) (of_nat enumerateLimit),
                  hl_maxOutputBytes = min (hl_maxOutputBytes l) 1572864,
                  hl_maxReadBytes = min (hl_maxReadBytes l) (of_nat readBytes),
                  hl_maxCollectBytes = min (hl_maxCollectBytes l) (of_nat collectBytes)\<rparr>,
                ef_protocolAnomalies = concat (map snd gated)\<rparr>)"

section \<open>The authorization version\<close>

definition INVESTIGATION_ENGINE_VERSION :: string where
  "INVESTIGATION_ENGINE_VERSION = ''1.0.0''"

definition AUTHORIZATION_ENVELOPE_VERSION :: string where
  "AUTHORIZATION_ENVELOPE_VERSION = ''1.0.0''"

fun grant_kind_name :: "grant_kind \<Rightarrow> string" where
  "grant_kind_name GK_CATEGORY = ''CATEGORY''"
| "grant_kind_name GK_SCOPE = ''SCOPE''"
| "grant_kind_name GK_SENSITIVE_READ = ''SENSITIVE_READ''"
| "grant_kind_name GK_PROBE = ''PROBE''"
| "grant_kind_name GK_BUDGET_EXTENSION = ''BUDGET_EXTENSION''"

definition grant_entry :: "task_grant \<Rightarrow> js" where
  "grant_entry g = Obj [(''kind'', Str (grant_kind_name (gr_kind g))), (''binding'', Obj (gr_binding g)),
     (''expiresAt'', case gr_expiresAt g of None \<Rightarrow> Undefined | Some e \<Rightarrow> Str e)]"

definition target_grants ::
  "(string \<Rightarrow> jsnum) \<Rightarrow> rat \<Rightarrow> string \<Rightarrow> task_grant list \<Rightarrow> task_grant list" where
  "target_grants parse t fp grants =
     filter (\<lambda>g. grant_active parse t g \<and> gr_targetFingerprint g = fp) grants"

definition active_entries ::
  "(js \<Rightarrow> string) \<Rightarrow> (string \<Rightarrow> jsnum) \<Rightarrow> rat \<Rightarrow> string \<Rightarrow> task_grant list \<Rightarrow> js list" where
  "active_entries digest parse t fp grants =
     sort_key digest (map grant_entry (target_grants parse t fp grants))"

definition version_content :: "string \<Rightarrow> js list \<Rightarrow> js" where
  "version_content fp entries = Obj [(''targetFingerprint'', Str fp), (''activeGrants'', Arr entries)]"

definition computeAuthorizationVersion ::
  "(js \<Rightarrow> string) \<Rightarrow> (string \<Rightarrow> jsnum) \<Rightarrow> rat \<Rightarrow> string \<Rightarrow> task_grant list \<Rightarrow> string" where
  "computeAuthorizationVersion digest parse t fp grants = AUTHORIZATION_ENVELOPE_VERSION @ '':'' @
     digest (version_content fp (active_entries digest parse t fp grants))"

section \<open>The authorization envelope\<close>

definition grant_categories :: "task_grant list \<Rightarrow> string list" where
  "grant_categories active = List.map_filter (\<lambda>g. if gr_kind g \<noteq> GK_CATEGORY then None
     else case get_prop (gr_binding g) ''category'' of Str c \<Rightarrow> Some c | _ \<Rightarrow> None) active"

definition grant_probes :: "task_grant list \<Rightarrow> string list" where
  "grant_probes active = List.map_filter (\<lambda>g. if gr_kind g \<noteq> GK_PROBE then None
     else case get_prop (gr_binding g) ''probeKind'' of Str c \<Rightarrow> Some c | _ \<Rightarrow> None) active"

definition grant_expiries :: "task_grant list \<Rightarrow> time list" where
  "grant_expiries active = sort (List.map_filter (\<lambda>g. case gr_expiresAt g of
     Some e \<Rightarrow> if e = [] then None else Some e | None \<Rightarrow> None) active)"

text \<open>A category outside the table ends in a TypeError (\<open>[...undefined]\<close>).\<close>

definition buildAuthorizationEnvelope ::
  "(js \<Rightarrow> string) \<Rightarrow> (string \<Rightarrow> jsnum) \<Rightarrow> rat \<Rightarrow> string \<Rightarrow> task_grant list \<Rightarrow> wire_cost \<Rightarrow>
   err + authorization_envelope" where
  "buildAuthorizationEnvelope digest parse t fp grants budget =
     (let active = target_grants parse t fp grants; cats = map category_of (grant_categories active) in
      if None \<in> set cats then Inl Type_error
      else let namespaces = unique (concat (map (\<lambda>c. case c of None \<Rightarrow> [] | Some x \<Rightarrow> categoryNamespaces x) cats))
           in Inr \<lparr>ae_version = computeAuthorizationVersion digest parse t fp grants,
                ae_targetFingerprint = fp, ae_namespaces = namespaces,
                ae_scopeRefs = sort (map gr_grantId (filter (\<lambda>g. gr_kind g = GK_SCOPE) active)),
                ae_derivedRelations = sort (unique (concat (map namespace_relations namespaces))),
                ae_sensitiveRead = list_ex (\<lambda>g. gr_kind g = GK_SENSITIVE_READ) active,
                ae_collectEvidence = list_ex (\<lambda>n. n \<in> {NS_file, NS_process, NS_jvm, NS_class}) namespaces,
                ae_probes = sort (grant_probes active),
                ae_expiresAt = (case grant_expiries active of [] \<Rightarrow> None | e # _ \<Rightarrow> Some e),
                ae_budget = budget\<rparr>)"

section \<open>Version compatibility\<close>

text \<open>\<open>Number.parseInt(part, 10)\<close>: leading white space, a sign, then the digits; None is NaN.\<close>

definition parse_int :: "string \<Rightarrow> int option" where
  "parse_int s = (let u = dropWhile js_space s;
       neg = (u \<noteq> [] \<and> hd u = CHR ''-'');
       ds = takeWhile is_digit (if u \<noteq> [] \<and> (hd u = CHR ''-'' \<or> hd u = CHR ''+'') then tl u else u) in
     if ds = [] then None else Some (if neg then - int (dec_value ds) else int (dec_value ds)))"

fun split_at_dots :: "string \<Rightarrow> string \<Rightarrow> string list" where
  "split_at_dots acc [] = [rev acc]"
| "split_at_dots acc (c # cs) = (if c = CHR ''.'' then rev acc # split_at_dots [] cs
     else split_at_dots (c # acc) cs)"

definition version_parts :: "string \<Rightarrow> int option list" where
  "version_parts s = map parse_int (take 3 (split_at_dots [] s))"

definition part_at :: "int option list \<Rightarrow> nat \<Rightarrow> int" where
  "part_at xs i = (if i < length xs then option_or (xs ! i) 0 else 0)"

definition compareVersion :: "string \<Rightarrow> string \<Rightarrow> int" where
  "compareVersion l r = (let a = version_parts l; b = version_parts r in
     if None \<in> set a \<or> None \<in> set b then - 1
     else case List.find (\<lambda>i. part_at a i - part_at b i \<noteq> 0) [0, 1, 2] of
       None \<Rightarrow> 0 | Some i \<Rightarrow> part_at a i - part_at b i)"

definition compatible :: "rat \<Rightarrow> string \<Rightarrow> string \<Rightarrow> string option \<Rightarrow> bool" where
  "compatible protocol manifest helper engine \<longleftrightarrow>
     protocol = of_nat PROTOCOL_VERSION \<and> manifest = MANIFEST_VERSION
     \<and> 0 \<le> compareVersion helper ''3.0.0''
     \<and> (case engine of None \<Rightarrow> True | Some e \<Rightarrow> e = [] \<or> e = INVESTIGATION_ENGINE_VERSION)"

definition assertInvestigationCompatibility ::
  "rat \<Rightarrow> string \<Rightarrow> string \<Rightarrow> string option \<Rightarrow> err + unit" where
  "assertInvestigationCompatibility protocol manifest helper engine =
     (if compatible protocol manifest helper engine then Inr () else Inl Plain_error)"

section \<open>Lemmas\<close>

lemma keep_known_fst: "set (fst (keep_known keep prefix xs)) = {x \<in> set xs. keep x}"
  by (simp add: keep_known_def)

lemma label_found:
  "List.find (\<lambda>ns. namespace_label ns = raw) all_namespaces = Some ns \<longleftrightarrow> namespace_label ns = raw"
proof
  assume "namespace_label ns = raw"
  moreover have "distinct (map namespace_label all_namespaces)" by (simp add: all_namespaces_def)
  ultimately show "List.find (\<lambda>ns. namespace_label ns = raw) all_namespaces = Some ns"
    using find_unique [of namespace_label, OF _ all_namespaces_complete] by blast
qed (auto dest: find_SomeD)

lemma gate_namespace_fst:
  "fst (gate_namespace parse t active verbs (raw, av)) = Some (ns, en) \<longleftrightarrow>
     namespace_label ns = raw \<and> ns \<noteq> NS_task_ioc \<and> categoryGrantAllowsNamespace parse t active ns
     \<and> en = \<lparr>en_fields = unique (filter (truthy_field ns) (av_fields av)),
          en_relations = unique (filter (\<lambda>x. x \<in> set (namespace_relations ns)) (av_relations av)),
          en_verbs = unique (filter (\<lambda>x. x \<in> set known_verbs \<and> x \<in> set verbs) (option_or (av_verbs av) []))\<rparr>"
  unfolding label_found [of raw ns, symmetric]
  by (auto simp: gate_namespace_def keep_known_def Let_def split: option.splits if_splits)

lemma allows_active:
  "categoryGrantAllowsNamespace parse t (filter (grant_active parse t) grants) ns
    = categoryGrantAllowsNamespace parse t grants ns"
  by (auto simp: categoryGrantAllowsNamespace_def list_ex_iff grant_allows_def)

section \<open>Properties\<close>


text \<open>
  A field name that a plain object inherits from its prototype passes the gate although the
  manifest does not declare it, and is not reported as an anomaly.
\<close>

definition sample_grant :: task_grant where
  "sample_grant = \<lparr>gr_grantId = ''G1'', gr_taskId = ''T1'', gr_targetFingerprint = ''fp'',
     gr_kind = GK_CATEGORY, gr_status = GS_ACTIVE, gr_binding = [(''category'', Str ''webshell'')],
     gr_createdAt = ''t'', gr_expiresAt = None, gr_revokedAt = None, gr_revocationReason = None\<rparr>"

definition sample_helper :: "string list \<Rightarrow> helper_capabilities" where
  "sample_helper names = \<lparr>hc_protocolVersion = 2, hc_manifestVersion = ''3.0.0'',
     hc_namespaces = [(''process'', \<lparr>av_fields = names, av_relations = [''parent''],
       av_verbs = Some [''enumerate'']\<rparr>)],
     hc_matchers = [], hc_probes = [], hc_verbs = [''enumerate''],
     hc_limits = \<lparr>hl_maxObjects = 900, hl_maxOutputBytes = 1, hl_maxReadBytes = 1, hl_maxCollectBytes = 1\<rparr>\<rparr>"

theorem gate_passes_prototype_name:
  "lookup_field NS_process ''constructor'' = None
   \<and> (\<exists>ef en. gateCapabilities parse t (sample_helper [''pid'', ''constructor'', ''nonsense'']) [sample_grant] = Inr ef
        \<and> ef_namespaces ef = [(NS_process, en)] \<and> en_fields en = [''pid'', ''constructor'']
        \<and> ef_protocolAnomalies ef = [''helper_advertised_unknown_field:process.nonsense''])"
proof -
  have undeclared: "lookup_field NS_process ''constructor'' = None"
    "lookup_field NS_process ''nonsense'' = None" "lookup_field NS_process ''pid'' \<noteq> None"
    by (simp_all add: lookup_field_def namespace_fields_def)
  have "truthy_field NS_process ''constructor''" "\<not> truthy_field NS_process ''nonsense''"
    "truthy_field NS_process ''pid''"
    using undeclared by (simp_all add: truthy_field_def object_prototype_names_def)
  moreover have "categoryGrantAllowsNamespace parse t [sample_grant] NS_process"
    by (simp add: categoryGrantAllowsNamespace_def grant_allows_def grant_active_def sample_grant_def
        get_prop_def category_of_def all_categories_def)
  moreover have "grant_active parse t sample_grant" by (simp add: grant_active_def sample_grant_def)
  moreover have "List.find (\<lambda>ns. namespace_label ns = ''process'') all_namespaces = Some NS_process"
    by (simp add: label_found)
  ultimately show ?thesis using undeclared(1)
    by (simp add: gateCapabilities_def sample_helper_def PROTOCOL_VERSION_def MANIFEST_VERSION_def
        gate_namespace_def keep_known_def anomaly_def known_verbs_def unique_def map_filter_def Let_def)
qed


definition version_objects ::
  "(js \<Rightarrow> string) \<Rightarrow> (string \<Rightarrow> jsnum) \<Rightarrow> rat \<Rightarrow> string \<Rightarrow> task_grant list \<Rightarrow> js set" where
  "version_objects digest parse t fp grants = grant_entry ` set grants
     \<union> {version_content fp (active_entries digest parse t fp grants)}"

lemma sort_key_mset_cong:
  assumes "mset xs = mset ys" and "inj_on f (set xs)"
  shows "sort_key f xs = sort_key f ys"
  by (rule sort_key_inj_key_eq) (use assms in \<open>simp_all\<close>)

text \<open>
  C11. The authorization version identifies the grants in force: as long as the digest tells the
  objects at hand apart, two lists of grants give the target the same version exactly when they
  hold the same active grants of the target (kind, binding, expiry), in whatever order.
\<close>

theorem authorization_version_identifies_grants:
  assumes "inj_on digest (version_objects digest parse t fp g1 \<union> version_objects digest parse t fp g2)"
  shows "computeAuthorizationVersion digest parse t fp g1 = computeAuthorizationVersion digest parse t fp g2
    \<longleftrightarrow> mset (map grant_entry (target_grants parse t fp g1))
        = mset (map grant_entry (target_grants parse t fp g2))"
proof -
  let ?e = "\<lambda>g. map grant_entry (target_grants parse t fp g)"
  have "inj_on digest (set (?e g1) \<union> set (?e g2))"
    by (rule inj_on_subset [OF assms]) (auto simp: version_objects_def target_grants_def)
  then have inj: "inj_on digest (set (?e g1))" by (rule inj_on_subset) simp
  have "computeAuthorizationVersion digest parse t fp g1 = computeAuthorizationVersion digest parse t fp g2
      \<longleftrightarrow> active_entries digest parse t fp g1 = active_entries digest parse t fp g2"
    using inj_onD [OF assms, of "version_content fp (active_entries digest parse t fp g1)"
        "version_content fp (active_entries digest parse t fp g2)"]
    by (auto simp: computeAuthorizationVersion_def version_objects_def version_content_def)
  also have "\<dots> \<longleftrightarrow> mset (?e g1) = mset (?e g2)"
  proof
    assume "active_entries digest parse t fp g1 = active_entries digest parse t fp g2"
    then show "mset (?e g1) = mset (?e g2)" unfolding active_entries_def by (metis mset_sort)
  next
    assume "mset (?e g1) = mset (?e g2)"
    then show "active_entries digest parse t fp g1 = active_entries digest parse t fp g2"
      unfolding active_entries_def using inj by (rule sort_key_mset_cong)
  qed
  finally show ?thesis .
qed

text \<open>A digest for the witness: it tells grants by their kind and contents by their length.\<close>

fun kind_digest :: "js \<Rightarrow> string" where
  "kind_digest (Obj kvs) = (case get_prop kvs ''activeGrants'' of
     Arr xs \<Rightarrow> CHR ''v'' # replicate (length xs) CHR ''x''
   | _ \<Rightarrow> string_of (get_prop kvs ''kind''))"
| "kind_digest _ = []"

theorem authorization_version_identifies_grants_witness:
  "computeAuthorizationVersion kind_digest (\<lambda>_. NaN) 0 ''fp'' [sample_grant, sample_grant\<lparr>gr_kind := GK_SCOPE\<rparr>]
     = computeAuthorizationVersion kind_digest (\<lambda>_. NaN) 0 ''fp'' [sample_grant\<lparr>gr_kind := GK_SCOPE\<rparr>, sample_grant]
   \<and> computeAuthorizationVersion kind_digest (\<lambda>_. NaN) 0 ''fp'' [sample_grant]
     \<noteq> computeAuthorizationVersion kind_digest (\<lambda>_. NaN) 0 ''fp'' [sample_grant\<lparr>gr_status := GS_REVOKED\<rparr>]"
proof -
  let ?v = "\<lambda>g. version_objects kind_digest (\<lambda>_. NaN) 0 ''fp'' g"
  let ?a = "[sample_grant, sample_grant\<lparr>gr_kind := GK_SCOPE\<rparr>]"
  let ?b = "[sample_grant\<lparr>gr_kind := GK_SCOPE\<rparr>, sample_grant]"
  let ?c = "[sample_grant]" and ?d = "[sample_grant\<lparr>gr_status := GS_REVOKED\<rparr>]"
  note ev = version_objects_def active_entries_def target_grants_def grant_active_def sample_grant_def
    grant_entry_def version_content_def get_prop_def
  have "inj_on kind_digest (?v ?a \<union> ?v ?b)" "inj_on kind_digest (?v ?c \<union> ?v ?d)"
    by (simp_all add: ev inj_on_def)
  from authorization_version_identifies_grants [OF this(1)] authorization_version_identifies_grants [OF this(2)]
  show ?thesis by (simp add: ev)
qed

lemma grant_categories_iff: "c \<in> set (grant_categories active) \<longleftrightarrow>
    (\<exists>g\<in>set active. gr_kind g = GK_CATEGORY \<and> get_prop (gr_binding g) ''category'' = Str c)"
proof -
  let ?f = "\<lambda>g :: task_grant. if gr_kind g \<noteq> GK_CATEGORY then None
     else case get_prop (gr_binding g) ''category'' of Str c \<Rightarrow> Some c | _ \<Rightarrow> None"
  have "c \<in> set (grant_categories active) \<longleftrightarrow> (\<exists>g\<in>set active. ?f g = Some c)"
    unfolding grant_categories_def map_filter_def by (force simp: image_iff)
  moreover have "?f g = Some c \<longleftrightarrow> gr_kind g = GK_CATEGORY \<and> get_prop (gr_binding g) ''category'' = Str c" for g
    by (cases "get_prop (gr_binding g) ''category''") auto
  ultimately show ?thesis by (simp only:)
qed

lemma hd_sort_le: "sort xs = e # es \<Longrightarrow> x \<in> set xs \<Longrightarrow> e \<le> (x :: string)"
  by (metis list.set_cases set_ConsD set_sort sorted_simps(2) sorted_sort order_refl)

lemma covered_namespaces:
  assumes "None \<notin> set (map category_of (grant_categories active))" and "\<forall>g\<in>set active. grant_active parse t g"
  shows "ns \<in> set (unique (concat (map (\<lambda>c. case c of None \<Rightarrow> [] | Some x \<Rightarrow> categoryNamespaces x)
      (map category_of (grant_categories active)))))
    \<longleftrightarrow> categoryGrantAllowsNamespace parse t active ns"
proof -
  have "ns \<in> set (unique (concat (map (\<lambda>c. case c of None \<Rightarrow> [] | Some x \<Rightarrow> categoryNamespaces x)
      (map category_of (grant_categories active)))))
    \<longleftrightarrow> (\<exists>c\<in>set (grant_categories active). case category_of c of None \<Rightarrow> False
          | Some x \<Rightarrow> ns \<in> set (categoryNamespaces x))"
  proof -
    have "ns \<in> set (case c of None \<Rightarrow> [] | Some x \<Rightarrow> categoryNamespaces x)
        \<longleftrightarrow> (case c of None \<Rightarrow> False | Some x \<Rightarrow> ns \<in> set (categoryNamespaces x))" for c
      by (simp split: option.split)
    then show ?thesis by simp
  qed
  also have "\<dots> \<longleftrightarrow> (\<exists>g\<in>set active. grant_allows parse t ns g)"
  proof -
    have "grant_allows parse t ns g \<longleftrightarrow> gr_kind g = GK_CATEGORY \<and> (\<exists>c.
        get_prop (gr_binding g) ''category'' = Str c
        \<and> (case category_of c of None \<Rightarrow> False | Some x \<Rightarrow> ns \<in> set (categoryNamespaces x)))"
      if "g \<in> set active" for g
      using that assms(2) by (cases "get_prop (gr_binding g) ''category''") (auto simp: grant_allows_def)
    then show ?thesis by (auto simp: Bex_def grant_categories_iff)
  qed
  finally show ?thesis by (simp add: categoryGrantAllowsNamespace_def list_ex_iff)
qed

text \<open>
  C12. The envelope of a session is what the active grants of the target cover and nothing more:
  a namespace is in it exactly when an active category grant of the target covers it, sensitive
  reads and scopes exactly when such a grant is active, and it expires no later than any active
  grant that expires.
\<close>

theorem envelope_is_what_grants_cover:
  assumes "buildAuthorizationEnvelope digest parse t fp grants budget = Inr env"
  shows "(ns \<in> set (ae_namespaces env)
        \<longleftrightarrow> categoryGrantAllowsNamespace parse t (target_grants parse t fp grants) ns)
    \<and> (ae_sensitiveRead env
        \<longleftrightarrow> (\<exists>g\<in>set (target_grants parse t fp grants). gr_kind g = GK_SENSITIVE_READ))
    \<and> set (ae_scopeRefs env) = {gr_grantId g | g. g \<in> set (target_grants parse t fp grants) \<and> gr_kind g = GK_SCOPE}
    \<and> (\<forall>g\<in>set (target_grants parse t fp grants). \<forall>e. gr_expiresAt g = Some e \<and> e \<noteq> []
        \<longrightarrow> (\<exists>m. ae_expiresAt env = Some m \<and> m \<le> e))"
proof -
  let ?active = "target_grants parse t fp grants"
  have active: "\<forall>g\<in>set ?active. grant_active parse t g" by (simp add: target_grants_def)
  from assms have known: "None \<notin> set (map category_of (grant_categories ?active))"
    and env: "ae_namespaces env = unique (concat (map (\<lambda>c. case c of None \<Rightarrow> [] | Some x \<Rightarrow> categoryNamespaces x)
        (map category_of (grant_categories ?active))))"
      "ae_sensitiveRead env = list_ex (\<lambda>g. gr_kind g = GK_SENSITIVE_READ) ?active"
      "ae_scopeRefs env = sort (map gr_grantId (filter (\<lambda>g. gr_kind g = GK_SCOPE) ?active))"
      "ae_expiresAt env = (case grant_expiries ?active of [] \<Rightarrow> None | e # _ \<Rightarrow> Some e)"
    by (auto simp: buildAuthorizationEnvelope_def Let_def split: if_splits)
  have "\<exists>m. ae_expiresAt env = Some m \<and> m \<le> e"
    if "g \<in> set ?active" "gr_expiresAt g = Some e" "e \<noteq> []" for g e
  proof -
    let ?es = "List.map_filter (\<lambda>g. case gr_expiresAt g of
      Some e \<Rightarrow> if e = [] then None else Some e | None \<Rightarrow> None) ?active"
    have mem: "e \<in> set ?es" using that by (force simp: map_filter_def)
    then have "e \<in> set (sort ?es)" by simp
    then obtain m ms where m: "sort ?es = m # ms" by (cases "sort ?es") auto
    with hd_sort_le [OF m mem] show ?thesis by (simp add: env(4) grant_expiries_def)
  qed
  moreover have "ns \<in> set (ae_namespaces env) \<longleftrightarrow> categoryGrantAllowsNamespace parse t ?active ns"
    unfolding env(1) by (rule covered_namespaces [OF known active])
  moreover have "set (ae_scopeRefs env) = {gr_grantId g | g. g \<in> set ?active \<and> gr_kind g = GK_SCOPE}"
    unfolding env(3) by auto
  ultimately show ?thesis by (auto simp: env(2) list_ex_iff)
qed

definition sample_limits :: wire_cost where
  "sample_limits = \<lparr>wc_remoteCalls = 1, wc_nodes = 1, wc_bytes = 1, wc_wallTimeMs = 1, wc_probeCalls = None\<rparr>"

theorem envelope_is_what_grants_cover_witness:
  "\<exists>env. buildAuthorizationEnvelope kind_digest (\<lambda>_. PosInf) 0 ''fp''
       [sample_grant\<lparr>gr_expiresAt := Some ''2030''\<rparr>, sample_grant\<lparr>gr_expiresAt := Some ''2031''\<rparr>] sample_limits = Inr env
     \<and> NS_web_root \<in> set (ae_namespaces env) \<and> NS_socket \<notin> set (ae_namespaces env)
     \<and> (\<exists>m. ae_expiresAt env = Some m \<and> m \<le> ''2030'')"
proof -
  let ?gs = "[sample_grant\<lparr>gr_expiresAt := Some ''2030''\<rparr>, sample_grant\<lparr>gr_expiresAt := Some ''2031''\<rparr>]"
  have cat: "category_of ''webshell'' = Some Webshell" by (simp add: category_of_def all_categories_def)
  have active: "target_grants (\<lambda>_. PosInf) 0 ''fp'' ?gs = ?gs"
    by (simp add: target_grants_def grant_active_def sample_grant_def)
  have "grant_categories ?gs = [''webshell'', ''webshell'']"
    by (simp add: grant_categories_def map_filter_def sample_grant_def get_prop_def)
  then have "\<exists>env. buildAuthorizationEnvelope kind_digest (\<lambda>_. PosInf) 0 ''fp'' ?gs sample_limits = Inr env"
    unfolding buildAuthorizationEnvelope_def Let_def active by (simp add: cat)
  then obtain env where env: "buildAuthorizationEnvelope kind_digest (\<lambda>_. PosInf) 0 ''fp'' ?gs sample_limits = Inr env" by blast
  note fact = envelope_is_what_grants_cover [OF env, unfolded active]
  have "categoryGrantAllowsNamespace (\<lambda>_. PosInf) 0 ?gs NS_web_root"
    "\<not> categoryGrantAllowsNamespace (\<lambda>_. PosInf) 0 ?gs NS_socket"
    by (simp_all add: categoryGrantAllowsNamespace_def grant_allows_def grant_active_def sample_grant_def
        get_prop_def cat)
  with env fact show ?thesis by auto
qed

end
