(* ===== verification/Normalizer.thy ===== *)
theory Normalizer
  imports Manifest Store Records
begin

text \<open>
  \<open>src/facts/normalizer.ts\<close>: a batch of wire observations becomes facts, object references and
  edges. The private payload keeps what the helper sent; the model payload is what the manifest
  lets the model see of it. \<open>digest\<close> is \<open>digestObject\<close>, \<open>parse\<close> is \<open>Date.parse\<close>, \<open>lookup\<close> finds a
  stored reference by its identity.
\<close>

section \<open>The input\<close>

record prepared_batch =
  pb_batchId :: id
  pb_facts :: "fact_record list"
  pb_refs :: "object_reference list"
  pb_edges :: "edge_record list"

record batch_tool_run =
  bt_toolCallId :: id
  bt_status :: tool_run_status
  bt_result :: js
  bt_resultFactory :: "(prepared_batch \<Rightarrow> js) option"
  bt_error :: "string option"

record fact_batch_input =
  fi_taskId :: id
  fi_epochId :: id
  fi_sourceRunId :: string
  fi_source :: fact_source
  fi_targetFingerprint :: string
  fi_requestId :: string
  fi_collector :: collector
  fi_observations :: "wire_observation list"
  fi_edges :: "wire_edge list"
  fi_gaps :: "coverage_gap list"
  fi_wireDigest :: string
  fi_toolRun :: "batch_tool_run option"

section \<open>Object references\<close>

type_synonym ref_lookup = "namespace_name \<Rightarrow> string \<Rightarrow> object_reference option"

definition missing_identity :: "js \<Rightarrow> bool" where
  "missing_identity v \<longleftrightarrow> v = Undefined \<or> v = Null \<or> v = Str []"

definition stable_identity :: "namespace_name \<Rightarrow> (string \<times> js) list \<Rightarrow> err + (string \<times> js) list" where
  "stable_identity ns identity =
     (if list_ex (\<lambda>f. missing_identity (get_prop identity f)) (identityFields ns) then Inl Invalid_argument
      else Inr (map (\<lambda>f. (f, get_prop identity f)) (identityFields ns)))"

definition identity_digest :: "(js \<Rightarrow> string) \<Rightarrow> namespace_name \<Rightarrow> (string \<times> js) list \<Rightarrow> string" where
  "identity_digest digest ns identity =
     digest (Obj [(''namespace'', Str (namespace_label ns)), (''stableIdentity'', Obj identity)])"

definition ref_key :: "object_reference \<Rightarrow> namespace_name \<times> string" where
  "ref_key r = (or_namespace r, or_stableIdentityDigest r)"

definition getRef ::
  "(js \<Rightarrow> string) \<Rightarrow> fact_batch_input \<Rightarrow> ref_lookup \<Rightarrow> namespace_name \<Rightarrow> (string \<times> js) list \<Rightarrow> time \<Rightarrow>
   object_reference list \<Rightarrow> ('a tapes_scheme, object_reference \<times> object_reference list) act" where
  "getRef digest input lookup ns identity observedAt refs = (case stable_identity ns identity of
     Inl e \<Rightarrow> throw_act e
   | Inr st \<Rightarrow> let dg = identity_digest digest ns st in
     (case (case List.find (\<lambda>r. ref_key r = (ns, dg)) refs of Some r \<Rightarrow> Some r | None \<Rightarrow> lookup ns dg) of
        Some r \<Rightarrow> return_act (r, refs)
      | None \<Rightarrow>
        if ns = NS_task_ioc \<and> fs_kind (fi_source input) \<noteq> SK_SYSTEM then throw_act Invalid_argument
        else bind_act next_uuid (\<lambda>u.
          let r = \<lparr>or_ref = ''OBJ-'' @ u, or_taskId = fi_taskId input, or_epochId = fi_epochId input,
                or_targetFingerprint = fi_targetFingerprint input, or_namespace = ns,
                or_stableIdentityDigest = dg, or_stableIdentity = st, or_createdAt = observedAt\<rparr>
          in return_act (r, refs @ [r]))))"

section \<open>Observations\<close>

text \<open>\<open>{ ...identity, ...fields }\<close>.\<close>

definition merge_props :: "(string \<times> js) list \<Rightarrow> (string \<times> js) list \<Rightarrow> (string \<times> js) list" where
  "merge_props a b = map (\<lambda>(k, v). (k, case map_of b k of Some w \<Rightarrow> w | None \<Rightarrow> v)) a
     @ filter (\<lambda>(k, _). k \<notin> fst ` set a) b"

fun field_value_ok :: "(string \<Rightarrow> jsnum) \<Rightarrow> field_type \<Rightarrow> js \<Rightarrow> bool" where
  "field_value_ok parse T_string v = is_string v"
| "field_value_ok parse T_integer v = is_safe_integer v"
| "field_value_ok parse T_number v = is_finite_number v"
| "field_value_ok parse T_boolean v = is_bool v"
| "field_value_ok parse T_timestamp v = (is_string v \<and> is_finite_number (Num (parse (string_of v))))"
| "field_value_ok parse T_strings v = (is_array v \<and> list_all is_string (items v))"
| "field_value_ok parse T_object v = is_record v"

definition entry_ok :: "(string \<Rightarrow> jsnum) \<Rightarrow> namespace_name \<Rightarrow> string \<times> js \<Rightarrow> bool" where
  "entry_ok parse ns kv = (case lookup_field ns (fst kv) of None \<Rightarrow> False
     | Some f \<Rightarrow> field_value_ok parse (mf_type f) (snd kv))"

text \<open>What the model sees of a field: the value, its digest, its presence, or nothing.\<close>

definition exposed :: "(js \<Rightarrow> string) \<Rightarrow> manifest_field \<Rightarrow> js \<Rightarrow> js option" where
  "exposed digest f v =
     (if mf_sensitivity f = SECRET
      then (if mf_modelExposure f = HASH_ONLY then Some (Str (digest v)) else Some (Bool (\<not> nullish v)))
      else if mf_sensitivity f = EVIDENCE_ONLY \<or> mf_modelExposure f = DENY then None
      else if mf_modelExposure f = HASH_ONLY then Some (Str (digest v))
      else if mf_modelExposure f = PRESENCE_ONLY then Some (Bool (\<not> nullish v))
      else Some v)"

definition redacted :: "manifest_field \<Rightarrow> bool" where
  "redacted f \<longleftrightarrow> mf_sensitivity f = SECRET \<or> mf_sensitivity f = EVIDENCE_ONLY \<or> mf_modelExposure f \<noteq> VALUE"

definition expose_entry ::
  "(js \<Rightarrow> string) \<Rightarrow> namespace_name \<Rightarrow> string \<times> js \<Rightarrow> (string \<times> js) option" where
  "expose_entry digest ns kv = (case lookup_field ns (fst kv) of None \<Rightarrow> None
     | Some f \<Rightarrow> map_option (Pair (fst kv)) (exposed digest f (snd kv)))"

definition model_payload ::
  "(js \<Rightarrow> string) \<Rightarrow> namespace_name \<Rightarrow> (string \<times> js) list \<Rightarrow> (string \<times> js) list" where
  "model_payload digest ns entries = List.map_filter (expose_entry digest ns) entries"

definition redacted_fields :: "namespace_name \<Rightarrow> (string \<times> js) list \<Rightarrow> string list" where
  "redacted_fields ns entries = filter (\<lambda>k. case lookup_field ns k of None \<Rightarrow> False
     | Some f \<Rightarrow> redacted f) (map fst entries)"

definition unavailable_js :: "unavailable_field \<Rightarrow> js" where
  "unavailable_js u = Obj [(''field'', Str (uf_field u)), (''reasonCode'', Str (uf_reasonCode u))]"

definition unavailable_gap :: "unavailable_field \<Rightarrow> coverage_gap" where
  "unavailable_gap u = \<lparr>cg_code = GAP_FIELD_UNAVAILABLE, cg_detail = Some (uf_reasonCode u),
     cg_field = Some (uf_field u), cg_resumable = False\<rparr>"

definition build_fact ::
  "(js \<Rightarrow> string) \<Rightarrow> fact_batch_input \<Rightarrow> wire_observation \<Rightarrow> object_reference \<Rightarrow> string \<Rightarrow> fact_record" where
  "build_fact digest input ob subject u =
     (let ns = wo_namespace ob; entries = merge_props (wo_identity ob) (wo_fields ob);
          missing = option_or (wo_unavailableFields ob) [];
          gaps = fi_gaps input @ map unavailable_gap missing in
      \<lparr>fr_factId = ''FACT-'' @ u, fr_factSeq = 0, fr_taskId = fi_taskId input,
       fr_epochId = fi_epochId input, fr_namespace = ns, fr_subjectRef = or_ref subject,
       fr_schemaVersion = MANIFEST_VERSION, fr_observedAt = wo_observedAt ob,
       fr_sourceRunId = fi_sourceRunId input, fr_source = fi_source input,
       fr_collector = fi_collector input, fr_consistency = wo_consistency ob,
       fr_completeness = (if gaps \<noteq> [] then PARTIAL else COMPLETE), fr_gaps = gaps,
       fr_privatePayload = entries, fr_modelPayload = model_payload digest ns entries,
       fr_redactedFields = redacted_fields ns entries, fr_unavailableFields = missing,
       fr_payloadDigest = digest (Obj [(''privatePayload'', Obj entries),
         (''unavailableFields'', Arr (map unavailable_js missing))]),
       fr_provenance = \<lparr>pv_targetFingerprint = fi_targetFingerprint input,
         pv_requestId = fi_requestId input, pv_wireDigest = fi_wireDigest input,
         pv_stableIdentityDigest = or_stableIdentityDigest subject\<rparr>\<rparr>)"

definition normalizeObservation ::
  "(js \<Rightarrow> string) \<Rightarrow> (string \<Rightarrow> jsnum) \<Rightarrow> fact_batch_input \<Rightarrow> ref_lookup \<Rightarrow> wire_observation \<Rightarrow>
   object_reference list \<Rightarrow> ('a tapes_scheme, fact_record \<times> object_reference list) act" where
  "normalizeObservation digest parse input lookup ob refs =
     bind_act (getRef digest input lookup (wo_namespace ob) (wo_identity ob) (wo_observedAt ob) refs)
       (\<lambda>(subject, refs').
     seq_act (require (list_all (entry_ok parse (wo_namespace ob)) (merge_props (wo_identity ob) (wo_fields ob)))
        Invalid_argument)
    (seq_act (require (list_all (\<lambda>u. truthy_field (wo_namespace ob) (uf_field u))
        (option_or (wo_unavailableFields ob) [])) Invalid_argument)
    (bind_act next_uuid (\<lambda>u. return_act (build_fact digest input ob subject u, refs')))))"

fun normalize_all ::
  "(js \<Rightarrow> string) \<Rightarrow> (string \<Rightarrow> jsnum) \<Rightarrow> fact_batch_input \<Rightarrow> ref_lookup \<Rightarrow> wire_observation list \<Rightarrow>
   object_reference list \<Rightarrow> ('a tapes_scheme, fact_record list \<times> object_reference list) act" where
  "normalize_all digest parse input lookup [] refs = return_act ([], refs)"
| "normalize_all digest parse input lookup (ob # obs) refs =
     bind_act (normalizeObservation digest parse input lookup ob refs) (\<lambda>(f, refs').
     bind_act (normalize_all digest parse input lookup obs refs') (\<lambda>(fs, refs'').
     return_act (f # fs, refs'')))"

section \<open>Edges\<close>

definition normalize_edge ::
  "(js \<Rightarrow> string) \<Rightarrow> fact_batch_input \<Rightarrow> ref_lookup \<Rightarrow> wire_edge \<Rightarrow>
   object_reference list \<Rightarrow> ('a tapes_scheme, edge_record \<times> object_reference list) act" where
  "normalize_edge digest input lookup edge refs =
     bind_act (getRef digest input lookup (we_namespace (wg_from edge)) (we_identity (wg_from edge))
        (wg_observedAt edge) refs) (\<lambda>(a, refs1).
     bind_act (getRef digest input lookup (we_namespace (wg_to edge)) (we_identity (wg_to edge))
        (wg_observedAt edge) refs1) (\<lambda>(b, refs2).
     seq_act (require (wg_relation edge \<in> set (namespace_relations (or_namespace a))) Invalid_argument)
    (bind_act next_uuid (\<lambda>u. return_act (\<lparr>eg_edgeId = ''EDGE-'' @ u, eg_taskId = fi_taskId input,
        eg_epochId = fi_epochId input, eg_relation = wg_relation edge, eg_fromRef = or_ref a,
        eg_toRef = or_ref b, eg_sourceRunId = fi_sourceRunId input,
        eg_observedAt = wg_observedAt edge\<rparr>, refs2)))))"

fun normalize_edges ::
  "(js \<Rightarrow> string) \<Rightarrow> fact_batch_input \<Rightarrow> ref_lookup \<Rightarrow> wire_edge list \<Rightarrow>
   object_reference list \<Rightarrow> ('a tapes_scheme, edge_record list \<times> object_reference list) act" where
  "normalize_edges digest input lookup [] refs = return_act ([], refs)"
| "normalize_edges digest input lookup (e # es) refs =
     bind_act (normalize_edge digest input lookup e refs) (\<lambda>(x, refs').
     bind_act (normalize_edges digest input lookup es refs') (\<lambda>(xs, refs'').
     return_act (x # xs, refs'')))"

section \<open>The batch\<close>

definition present :: "string option \<Rightarrow> bool" where
  "present v \<longleftrightarrow> nonempty v \<noteq> None"

definition source_ok :: "fact_source \<Rightarrow> bool" where
  "source_ok src \<longleftrightarrow>
     (if fs_kind src = SK_PRESET
      then present (fs_presetRunId src) \<and> present (fs_presetId src) \<and> present (fs_presetVersion src)
        \<and> present (fs_stepId src)
      else \<not> (present (fs_presetRunId src) \<or> present (fs_presetId src) \<or> present (fs_presetVersion src)
        \<or> present (fs_stepId src)))
   \<and> (fs_kind src = SK_EXTERNAL \<longrightarrow> present (fs_externalProvider src))"

definition assertSource :: "fact_source \<Rightarrow> ('s, unit) act" where
  "assertSource src = require (source_ok src) Invalid_argument"

definition prepareFactBatch ::
  "(js \<Rightarrow> string) \<Rightarrow> (string \<Rightarrow> jsnum) \<Rightarrow> fact_batch_input \<Rightarrow> ref_lookup \<Rightarrow>
   ('a tapes_scheme, prepared_batch) act" where
  "prepareFactBatch digest parse input lookup =
     seq_act (require (length (fi_observations input) \<le> factBatchRows) Invalid_argument)
    (seq_act (assertSource (fi_source input))
    (bind_act (normalize_all digest parse input lookup (fi_observations input) []) (\<lambda>(facts, refs).
     bind_act (normalize_edges digest input lookup (fi_edges input) refs) (\<lambda>(edges, refs').
     bind_act next_uuid (\<lambda>u. return_act \<lparr>pb_batchId = ''BATCH-'' @ u, pb_facts = facts,
        pb_refs = refs', pb_edges = edges\<rparr>)))))"

section \<open>What the model sees\<close>

lemma normalizeObservation_Inr:
  "normalizeObservation digest parse input lookup ob refs s = (Inr (f, refs'), s') \<Longrightarrow>
     (\<exists>subject u. f = build_fact digest input ob subject u)
     \<and> list_all (entry_ok parse (wo_namespace ob)) (merge_props (wo_identity ob) (wo_fields ob))"
  unfolding normalizeObservation_def by (auto simp: act_simps split: prod.splits)

lemma normalize_all_Inr:
  "normalize_all digest parse input lookup obs refs s = (Inr (fs, refs'), s') \<Longrightarrow>
     list_all2 (\<lambda>ob f. (\<exists>subject u. f = build_fact digest input ob subject u)
       \<and> list_all (entry_ok parse (wo_namespace ob)) (merge_props (wo_identity ob) (wo_fields ob))) obs fs"
proof (induction obs arbitrary: refs s fs)
  case (Cons ob obs)
  then show ?case by (fastforce simp: act_simps dest: normalizeObservation_Inr)
qed simp

lemma prepareFactBatch_facts:
  "prepareFactBatch digest parse input lookup s = (Inr b, s') \<Longrightarrow>
     list_all2 (\<lambda>ob f. (\<exists>subject u. f = build_fact digest input ob subject u)
       \<and> list_all (entry_ok parse (wo_namespace ob)) (merge_props (wo_identity ob) (wo_fields ob)))
       (fi_observations input) (pb_facts b)"
  unfolding prepareFactBatch_def by (auto simp: act_simps dest: normalize_all_Inr)

lemma model_payload_member:
  "(k, v) \<in> set (model_payload digest ns entries) \<longleftrightarrow>
     (\<exists>w d. (k, w) \<in> set entries \<and> lookup_field ns k = Some d \<and> exposed digest d w = Some v)"
proof -
  have "(k, v) \<in> set (model_payload digest ns entries) \<longleftrightarrow>
      (\<exists>e\<in>set entries. expose_entry digest ns e = Some (k, v))"
    unfolding model_payload_def map_filter_def by (force simp: image_iff)
  then show ?thesis by (force simp: expose_entry_def split: option.splits)
qed

text \<open>
  C13. What the model sees of a fact: each entry of the model payload belongs to a field of the
  private payload that the manifest declares; a field that is not listed as redacted is exposed
  as it is and is neither secret nor evidence, and of a redacted one the model sees its digest or
  whether it is present. In particular of a secret field it sees only the presence.
\<close>

theorem model_payload_hides:
  assumes "prepareFactBatch digest parse input lookup s = (Inr b, s')" and "f \<in> set (pb_facts b)"
    and "(k, v) \<in> set (fr_modelPayload f)"
  shows "\<exists>w d. (k, w) \<in> set (fr_privatePayload f) \<and> lookup_field (fr_namespace f) k = Some d
    \<and> (if k \<in> set (fr_redactedFields f)
       then v = Bool (\<not> nullish w) \<or> v = Str (digest w) \<and> mf_modelExposure d = HASH_ONLY
       else v = w \<and> mf_sensitivity d \<notin> {SECRET, EVIDENCE_ONLY} \<and> mf_modelExposure d = VALUE)
    \<and> (mf_sensitivity d = SECRET \<longrightarrow> v = Bool (\<not> nullish w))"
proof -
  from prepareFactBatch_facts [OF assms(1)] assms(2) obtain ob subject u
    where f: "f = build_fact digest input ob subject u"
    by (auto simp: list_all2_conv_all_nth in_set_conv_nth)
  let ?ns = "wo_namespace ob" and ?entries = "merge_props (wo_identity ob) (wo_fields ob)"
  have pay: "fr_namespace f = ?ns" "fr_privatePayload f = ?entries"
    "fr_modelPayload f = model_payload digest ?ns ?entries" "fr_redactedFields f = redacted_fields ?ns ?entries"
    by (simp_all add: f build_fact_def Let_def)
  from assms(3) pay obtain w d where w: "(k, w) \<in> set ?entries" "lookup_field ?ns k = Some d"
    "exposed digest d w = Some v" by (auto simp: model_payload_member)
  have "k \<in> set (redacted_fields ?ns ?entries) \<longleftrightarrow> redacted d"
    using w by (auto simp: redacted_fields_def intro!: image_eqI [of k fst "(k, w)"])
  moreover have "mf_sensitivity d = SECRET \<Longrightarrow> mf_modelExposure d = PRESENCE_ONLY"
    by (rule secret_field_exposure [OF w(2)])
  ultimately have "(if k \<in> set (redacted_fields ?ns ?entries)
       then v = Bool (\<not> nullish w) \<or> v = Str (digest w) \<and> mf_modelExposure d = HASH_ONLY
       else v = w \<and> mf_sensitivity d \<notin> {SECRET, EVIDENCE_ONLY} \<and> mf_modelExposure d = VALUE)
    \<and> (mf_sensitivity d = SECRET \<longrightarrow> v = Bool (\<not> nullish w))"
    using w(3) by (cases "mf_modelExposure d") (auto simp: exposed_def redacted_def split: if_splits)
  with w(1,2) show ?thesis unfolding pay by blast
qed

text \<open>The account of the witness has a password hash.\<close>

definition sample_observation :: wire_observation where
  "sample_observation = \<lparr>wo_namespace = NS_account,
     wo_identity = [(''uid'', Num (Fin 0)), (''username'', Str ''root'')],
     wo_fields = [(''shell'', Str ''/bin/sh''), (''passwordHash'', Str ''x'')],
     wo_unavailableFields = None, wo_observedAt = ''2024'', wo_consistency = POINT_IN_TIME\<rparr>"

definition sample_source :: fact_source where
  "sample_source = \<lparr>fs_kind = SK_MODEL, fs_evidenceOrigin = None, fs_presetRunId = None,
     fs_presetId = None, fs_presetVersion = None, fs_stepId = None, fs_externalProvider = None\<rparr>"

definition sample_batch :: "wire_observation list \<Rightarrow> fact_batch_input" where
  "sample_batch obs = \<lparr>fi_taskId = ''T1'', fi_epochId = ''E1'', fi_sourceRunId = ''R1'',
     fi_source = sample_source, fi_targetFingerprint = ''fp'', fi_requestId = ''q'',
     fi_collector = \<lparr>co_name = ''helper'', co_version = ''3.0.0''\<rparr>, fi_observations = obs,
     fi_edges = [], fi_gaps = [], fi_wireDigest = ''w'', fi_toolRun = None\<rparr>"

fun flat_digest :: "js \<Rightarrow> string" where
  "flat_digest (Str s) = CHR ''s'' # s"
| "flat_digest (Num (Fin q)) = CHR ''n'' # replicate (nat \<lfloor>q\<rfloor>) CHR ''1''"
| "flat_digest (Obj kvs) = CHR ''o'' # concat (map (\<lambda>(k, v). k @ flat_digest v) kvs)"
| "flat_digest (Arr vs) = CHR ''a'' # concat (map flat_digest vs)"
| "flat_digest _ = ''u''"

definition sample_prepared :: "(err + prepared_batch) \<times> control_db" where
  "sample_prepared = prepareFactBatch flat_digest (\<lambda>_. Fin 1) (sample_batch [sample_observation])
     (\<lambda>_ _. None) empty_control"

theorem model_payload_hides_witness:
  "\<exists>b. fst sample_prepared = Inr b \<and> (\<forall>f\<in>set (pb_facts b). (''passwordHash'', Bool True) \<in> set (fr_modelPayload f)
     \<and> (''passwordHash'', Str ''x'') \<notin> set (fr_modelPayload f))"
proof -
  have "(case fst sample_prepared of Inl _ \<Rightarrow> False | Inr b \<Rightarrow>
      list_all (\<lambda>f. fr_namespace f = NS_account \<and> (''passwordHash'', Bool True) \<in> set (fr_modelPayload f)
        \<and> (''passwordHash'', Str ''x'') \<in> set (fr_privatePayload f)) (pb_facts b))" by code_simp
  then obtain b where b: "fst sample_prepared = Inr b"
    "\<forall>f\<in>set (pb_facts b). fr_namespace f = NS_account \<and> (''passwordHash'', Bool True) \<in> set (fr_modelPayload f)"
    by (auto simp: list_all_iff split: sum.splits)
  have field: "\<exists>d. lookup_field NS_account ''passwordHash'' = Some d \<and> mf_sensitivity d = SECRET"
    by (simp add: lookup_field_def namespace_fields_def field_defs)
  have "prepareFactBatch flat_digest (\<lambda>_. Fin 1) (sample_batch [sample_observation]) (\<lambda>_ _. None) empty_control
      = (Inr b, snd sample_prepared)"
    using b(1) by (simp add: sample_prepared_def prod_eq_iff)
  note hides = model_payload_hides [OF this]
  have "(''passwordHash'', Str ''x'') \<notin> set (fr_modelPayload f)" if "f \<in> set (pb_facts b)" for f
    using hides [OF that, of "''passwordHash''" "Str ''x''"] b(2) that field by auto
  with b show ?thesis by blast
qed

end
