(* ===== verification/FactBatch.thy ===== *)
theory FactBatch
  imports Investigation Normalizer Approvals
begin

text \<open>
  The commit of a fact batch, \<open>RuntimeStore.commitFactBatch\<close>: references, facts, entity
  versions, edges with their provenance, the batch row, the end of the tool run and one event,
  all in one transaction; and the operations on entity versions, provenance and derived edges.
  The fact sequence, the history of versions and the log are what the queries and the
  investigation engine read.
\<close>

section \<open>Entity versions\<close>

definition version_scope :: "entity_version \<Rightarrow> id \<times> id \<times> id" where
  "version_scope v = (vn_taskId v, vn_epochId v, vn_entityRef v)"

definition version_source :: "entity_version \<Rightarrow> (id \<times> id \<times> id) \<times> id" where
  "version_source v = (version_scope v, vn_sourceFactRef v)"

definition fact_scope :: "fact_record \<Rightarrow> id \<times> id \<times> id" where
  "fact_scope f = (fr_taskId f, fr_epochId f, fr_subjectRef f)"

definition is_open :: "entity_version \<Rightarrow> bool" where
  "is_open v \<longleftrightarrow> vn_validTo v = None"

definition open_versions :: "id \<times> id \<times> id \<Rightarrow> 'a db_scheme \<Rightarrow> entity_version list" where
  "open_versions k s = filter (\<lambda>v. version_scope v = k \<and> is_open v) (db_versions s)"

text \<open>
  INSERT into \<open>entity_versions\<close>: the primary key, the unique source of a version, and the
  foreign keys to the object and the fact.
\<close>

definition insert_version :: "entity_version \<Rightarrow> ('a db_scheme, unit) act" where
  "insert_version v = bind_act (read_act (\<lambda>s. (db_versions s, db_objects s, db_facts s)))
     (\<lambda>(versions, objects, facts).
     seq_act (require (\<not> has_key vn_versionRef (vn_versionRef v) versions
         \<and> \<not> has_key version_source (version_source v) versions
         \<and> has_key or_ref (vn_entityRef v) objects
         \<and> has_key fr_factId (vn_sourceFactRef v) facts) Constraint_error)
       (write_act (\<lambda>s. s\<lparr>db_versions := db_versions s @ [v]\<rparr>)))"

definition putEntityVersion :: "entity_version \<Rightarrow> ('a db_scheme, entity_version) act" where
  "putEntityVersion v = seq_act (assertInvestigationScope (vn_taskId v) (vn_epochId v))
    (bind_act (read_act (\<lambda>s. (listObjectReferences (vn_taskId v) (vn_epochId v) None s,
        getFact (vn_taskId v) (vn_epochId v) (vn_sourceFactRef v) s))) (\<lambda>(objects, fact).
     seq_act (require (list_ex (\<lambda>r. or_ref r = vn_entityRef v \<and> or_namespace r = vn_namespace v) objects
         \<and> (case fact of None \<Rightarrow> False | Some f \<Rightarrow> fr_subjectRef f = vn_entityRef v)) Invalid_argument)
    (seq_act (insert_version v) (return_act v))))"

definition listEntityVersions :: "id \<Rightarrow> id \<Rightarrow> id option \<Rightarrow> 'a db_scheme \<Rightarrow> entity_version list" where
  "listEntityVersions tid eid ref s = order_by vn_validFrom (filter (\<lambda>v. vn_taskId v = tid
     \<and> vn_epochId v = eid \<and> (nonempty ref = None \<or> ref = Some (vn_entityRef v))) (db_versions s))"

text \<open>
  What a fact does to the history of its subject: nothing when the open version already has its
  content, otherwise it closes the open versions at its own time and opens a new one.
\<close>

definition fact_version :: "(js \<Rightarrow> string) \<Rightarrow> fact_record \<Rightarrow> entity_version" where
  "fact_version digest f = \<lparr>vn_versionRef = ''EVER-'' @ take 40 (digest (Obj
       [(''subjectRef'', Str (fr_subjectRef f)),
        (''identityDigest'', Str (pv_stableIdentityDigest (fr_provenance f))),
        (''contentDigest'', Str (fr_payloadDigest f)), (''sourceFactRef'', Str (fr_factId f))])),
     vn_entityRef = fr_subjectRef f, vn_taskId = fr_taskId f, vn_epochId = fr_epochId f,
     vn_namespace = fr_namespace f, vn_identityDigest = pv_stableIdentityDigest (fr_provenance f),
     vn_contentDigest = Some (fr_payloadDigest f), vn_sourceFactRef = fr_factId f,
     vn_validFrom = fr_observedAt f, vn_validTo = None,
     vn_assertions = [(''OBSERVATION_PAYLOAD'', fr_payloadDigest f)]\<rparr>"

definition close_versions :: "id list \<Rightarrow> time \<Rightarrow> entity_version list \<Rightarrow> entity_version list" where
  "close_versions refs t versions =
     update_rows (\<lambda>v. vn_versionRef v \<in> set refs) (\<lambda>v. v\<lparr>vn_validTo := Some t\<rparr>) versions"

definition record_version :: "(js \<Rightarrow> string) \<Rightarrow> fact_record \<Rightarrow> ('a db_scheme, unit) act" where
  "record_version digest f = bind_act (read_act (open_versions (fact_scope f))) (\<lambda>opened.
     if list_ex (\<lambda>v. option_or (vn_contentDigest v) [] = fr_payloadDigest f) opened then return_act ()
     else seq_act (write_act (\<lambda>s. s\<lparr>db_versions :=
            close_versions (map vn_versionRef opened) (fr_observedAt f) (db_versions s)\<rparr>))
          (insert_version (fact_version digest f)))"

section \<open>References, facts, edges\<close>

definition ref_identity :: "object_reference \<Rightarrow> id \<times> id \<times> namespace_name \<times> string" where
  "ref_identity r = (or_taskId r, or_epochId r, or_namespace r, or_stableIdentityDigest r)"

definition insert_ref :: "object_reference \<Rightarrow> ('a fact_db_scheme, unit) act" where
  "insert_ref r = write_act (\<lambda>s.
     if has_key or_ref (or_ref r) (db_objects s) \<or> has_key ref_identity (ref_identity r) (db_objects s)
     then s else s\<lparr>db_objects := db_objects s @ [r]\<rparr>)"

definition insert_fact :: "fact_record \<Rightarrow> ('a fact_db_scheme, unit) act" where
  "insert_fact f = bind_act (read_act (\<lambda>s. (db_facts s, db_objects s))) (\<lambda>(facts, objects).
     seq_act (require (\<not> has_key fr_factId (fr_factId f) facts \<and> \<not> has_key fr_factSeq (fr_factSeq f) facts
         \<and> has_key or_ref (fr_subjectRef f) objects) Constraint_error)
       (write_act (\<lambda>s. s\<lparr>db_facts := db_facts s @ [f]\<rparr>)))"

definition put_fact :: "(js \<Rightarrow> string) \<Rightarrow> fact_record \<Rightarrow> ('a db_scheme, unit) act" where
  "put_fact digest f = seq_act (insert_fact f) (record_version digest f)"

text \<open>\<open>fact.factSeq = nextSeq++\<close>.\<close>

fun number_facts :: "nat \<Rightarrow> fact_record list \<Rightarrow> fact_record list" where
  "number_facts n [] = []"
| "number_facts n (f # fs) = f\<lparr>fr_factSeq := n\<rparr> # number_facts (Suc n) fs"

text \<open>
  \<open>ORDER BY valid_from DESC LIMIT 1\<close> is a backward scan of \<open>idx_entity_versions_subject\<close>: among
  versions of the same time it meets the newest row first.
\<close>

definition latest_version :: "id \<times> id \<times> id \<Rightarrow> 'a db_scheme \<Rightarrow> id option" where
  "latest_version k s = (case filter (\<lambda>v. version_scope v = k) (db_versions s) of [] \<Rightarrow> None
     | v # vs \<Rightarrow> nonempty (Some (vn_versionRef (last (order_by vn_validFrom (v # vs))))))"

definition provenance_ok :: "relation_provenance \<Rightarrow> 'a db_scheme \<Rightarrow> bool" where
  "provenance_ok p s \<longleftrightarrow> \<not> has_key rv_edgeRef (rv_edgeRef p) (db_provenance s)
     \<and> 0 \<le> rv_timeErrorMs p \<and> has_key eg_edgeId (rv_edgeRef p) (db_edges s)
     \<and> (\<forall>v\<in>set_option (rv_fromVersionRef p). has_key vn_versionRef v (db_versions s))
     \<and> (\<forall>v\<in>set_option (rv_toVersionRef p). has_key vn_versionRef v (db_versions s))"

definition insert_provenance :: "relation_provenance \<Rightarrow> ('a db_scheme, unit) act" where
  "insert_provenance p = bind_act (read_act (provenance_ok p)) (\<lambda>fine.
     seq_act (require fine Constraint_error)
       (write_act (\<lambda>s. s\<lparr>db_provenance := db_provenance s @ [p]\<rparr>)))"

definition insert_edge :: "edge_record \<Rightarrow> ('a fact_db_scheme, unit) act" where
  "insert_edge e = bind_act (read_act db_edges) (\<lambda>edges.
     seq_act (require (\<not> has_key eg_edgeId (eg_edgeId e) edges) Constraint_error)
       (write_act (\<lambda>s. s\<lparr>db_edges := db_edges s @ [e]\<rparr>)))"

definition put_edge :: "edge_record \<Rightarrow> ('a db_scheme, unit) act" where
  "put_edge e = seq_act (insert_edge e)
    (bind_act (read_act (\<lambda>s. (latest_version (eg_taskId e, eg_epochId e, eg_fromRef e) s,
        latest_version (eg_taskId e, eg_epochId e, eg_toRef e) s))) (\<lambda>(source, dest).
     insert_provenance \<lparr>rv_edgeRef = eg_edgeId e, rv_taskId = eg_taskId e, rv_epochId = eg_epochId e,
       rv_fromVersionRef = source, rv_toVersionRef = dest, rv_derivation = OBSERVED,
       rv_sourceRefs = [eg_sourceRunId e], rv_resolverVersion = ''fact-normalizer@2.1.0'',
       rv_timeErrorMs = 0\<rparr>))"

section \<open>The commit\<close>

definition insert_batch :: "fact_batch \<Rightarrow> ('a fact_db_scheme, unit) act" where
  "insert_batch b = bind_act (read_act db_batches) (\<lambda>rows.
     seq_act (require (\<not> has_key fb_batchId (fb_batchId b) rows) Constraint_error)
       (write_act (\<lambda>s. s\<lparr>db_batches := db_batches s @ [b]\<rparr>)))"

definition batch_row :: "fact_batch_input \<Rightarrow> prepared_batch \<Rightarrow> time \<Rightarrow> fact_batch" where
  "batch_row input b t = (let seqs = map fr_factSeq (pb_facts b) in
     \<lparr>fb_batchId = pb_batchId b, fb_taskId = fi_taskId input, fb_epochId = fi_epochId input,
      fb_sourceRunId = fi_sourceRunId input,
      fb_firstFactSeq = (if seqs = [] then None else Some (hd seqs)),
      fb_lastFactSeq = (if seqs = [] then None else Some (last seqs)),
      fb_factCount = length (pb_facts b), fb_edgeCount = length (pb_edges b), fb_committedAt = t\<rparr>)"

definition batch_run_ok :: "fact_batch_input \<Rightarrow> batch_tool_run \<Rightarrow> 'a control_db_scheme \<Rightarrow> bool" where
  "batch_run_ok input r s = (case getToolRun (bt_toolCallId r) s of None \<Rightarrow> False
     | Some run \<Rightarrow> tr_taskId run = fi_taskId input \<and> tr_epochId run = Some (fi_epochId input)
         \<and> tr_status run = TR_STARTED \<and> bt_toolCallId r = fi_sourceRunId input)"

definition terminal_result :: "batch_tool_run \<Rightarrow> prepared_batch \<Rightarrow> js" where
  "terminal_result r b = (case bt_resultFactory r of None \<Rightarrow> bt_result r | Some mk \<Rightarrow> mk b)"

definition finish_batch_run ::
  "fact_batch_input \<Rightarrow> prepared_batch \<Rightarrow> ('a control_db_scheme, unit) act" where
  "finish_batch_run input b = (case fi_toolRun input of None \<Rightarrow> return_act ()
     | Some r \<Rightarrow> bind_act (read_act (batch_run_ok input r)) (\<lambda>fine.
         seq_act (require fine Invalid_argument)
           (finishToolRun (bt_toolCallId r) (bt_status r) (terminal_result r b) (bt_error r))))"

definition batch_event :: "fact_batch_input \<Rightarrow> prepared_batch \<Rightarrow> (string \<times> js) list" where
  "batch_event input b = [(''batchId'', Str (pb_batchId b)), (''sourceRunId'', Str (fi_sourceRunId input)),
     (''factRefs'', js_ids (map fr_factId (pb_facts b))), (''edgeRefs'', js_ids (map eg_edgeId (pb_edges b)))]"

definition log_batch_event ::
  "id \<Rightarrow> id \<Rightarrow> string \<Rightarrow> string \<Rightarrow> (string \<times> js) list \<Rightarrow> ('a db_scheme, unit) act" where
  "log_batch_event tid eid source type payload = bind_act (create_id ''ACT'') (\<lambda>evid. bind_act now (\<lambda>t.
     bind_act (appendInvestigationEvent evid tid eid (Some source) type payload t) (\<lambda>_. return_act ())))"

definition write_batch ::
  "(js \<Rightarrow> string) \<Rightarrow> fact_batch_input \<Rightarrow> prepared_batch \<Rightarrow> ('a db_scheme, prepared_batch) act" where
  "write_batch digest input prepared =
     bind_act (read_act (\<lambda>s. Suc (max_nat (map fr_factSeq (db_facts s))))) (\<lambda>n.
     let b = prepared\<lparr>pb_facts := number_facts n (pb_facts prepared)\<rparr> in
     seq_act (each_act insert_ref (pb_refs b))
    (seq_act (each_act (put_fact digest) (pb_facts b))
    (seq_act (each_act put_edge (pb_edges b))
    (bind_act now (\<lambda>t.
     seq_act (insert_batch (batch_row input b t))
    (seq_act (finish_batch_run input b)
    (seq_act (log_batch_event (fi_taskId input) (fi_epochId input) (pb_batchId b)
        ''FACT_BATCH_COMMITTED'' (batch_event input b))
       (return_act b))))))))"

definition commitFactBatch ::
  "(js \<Rightarrow> string) \<Rightarrow> (string \<Rightarrow> jsnum) \<Rightarrow> fact_batch_input \<Rightarrow> ('a db_scheme, prepared_batch) act" where
  "commitFactBatch digest parse input =
     bind_act (read_act (getScanEpoch (fi_taskId input) (fi_epochId input))) (\<lambda>epoch.
     seq_act (require (case epoch of None \<Rightarrow> False | Some e \<Rightarrow> ep_status e = EP_RUNNING)
        (Security_error RECOVERY_UNCERTAIN))
    (seq_act (require (map_option ep_targetFingerprint epoch = Some (fi_targetFingerprint input))
        (Security_error INVALID_TARGET))
    (bind_act (read_act (\<lambda>s ns dg. findObjectReferenceByIdentity (fi_taskId input) (fi_epochId input) ns dg s))
      (\<lambda>lookup.
     bind_act (prepareFactBatch digest parse input lookup) (\<lambda>prepared.
     transaction (write_batch digest input prepared))))))"

section \<open>Provenance and derived edges\<close>

definition listRelationProvenance :: "id \<Rightarrow> id \<Rightarrow> 'a db_scheme \<Rightarrow> relation_provenance list" where
  "listRelationProvenance tid eid s =
     order_by rv_edgeRef (filter (\<lambda>p. rv_taskId p = tid \<and> rv_epochId p = eid) (db_provenance s))"

definition versions_known :: "relation_provenance \<Rightarrow> id list \<Rightarrow> bool" where
  "versions_known p refs \<longleftrightarrow> (\<forall>v\<in>set_option (nonempty (rv_fromVersionRef p)). v \<in> set refs)
     \<and> (\<forall>v\<in>set_option (nonempty (rv_toVersionRef p)). v \<in> set refs)"

definition putRelationProvenance :: "relation_provenance \<Rightarrow> ('a db_scheme, unit) act" where
  "putRelationProvenance p = bind_act (read_act (\<lambda>s. (listEdges (rv_taskId p) (rv_epochId p) s,
       map vn_versionRef (listEntityVersions (rv_taskId p) (rv_epochId p) None s)))) (\<lambda>(edges, versions).
     seq_act (require (list_ex (\<lambda>e. eg_edgeId e = rv_edgeRef p) edges \<and> versions_known p versions)
        Invalid_argument)
       (insert_provenance p))"

text \<open>
  Both inserts of a derived edge are \<open>INSERT OR IGNORE\<close>: a row whose key is taken, or that the
  CHECK on the time error rejects, is dropped; a dangling foreign key is still an error.
\<close>

definition ignore_edge :: "edge_record \<Rightarrow> ('a fact_db_scheme, unit) act" where
  "ignore_edge e = write_act (\<lambda>s. if has_key eg_edgeId (eg_edgeId e) (db_edges s) then s
     else s\<lparr>db_edges := db_edges s @ [e]\<rparr>)"

definition ignore_provenance :: "relation_provenance \<Rightarrow> ('a db_scheme, unit) act" where
  "ignore_provenance p = bind_act (read_act (\<lambda>s. (has_key rv_edgeRef (rv_edgeRef p) (db_provenance s)
       \<or> rv_timeErrorMs p < 0, provenance_ok p s))) (\<lambda>(dropped, fine).
     if dropped then return_act () else seq_act (require fine Constraint_error)
       (write_act (\<lambda>s. s\<lparr>db_provenance := db_provenance s @ [p]\<rparr>)))"

definition derivation_matches :: "edge_record \<Rightarrow> relation_provenance \<Rightarrow> bool" where
  "derivation_matches e p \<longleftrightarrow> rv_edgeRef p = eg_edgeId e \<and> rv_taskId p = eg_taskId e
     \<and> rv_epochId p = eg_epochId e \<and> rv_derivation p = DERIVED"

definition derivation_grounded :: "edge_record \<Rightarrow> relation_provenance \<Rightarrow> 'a db_scheme \<Rightarrow> bool" where
  "derivation_grounded e p s \<longleftrightarrow> knows_object (eg_taskId e) (eg_epochId e) (eg_fromRef e) s
     \<and> knows_object (eg_taskId e) (eg_epochId e) (eg_toRef e) s
     \<and> versions_known p (map vn_versionRef (listEntityVersions (eg_taskId e) (eg_epochId e) None s))
     \<and> (\<forall>ref\<in>set (rv_sourceRefs p). getFact (eg_taskId e) (eg_epochId e) ref s \<noteq> None)"

definition putDerivedEdge ::
  "edge_record \<Rightarrow> relation_provenance \<Rightarrow> ('a db_scheme, edge_record option) act" where
  "putDerivedEdge e p = seq_act (assertInvestigationScope (eg_taskId e) (eg_epochId e))
    (seq_act (require (derivation_matches e p) Invalid_argument)
    (bind_act (read_act (derivation_grounded e p)) (\<lambda>grounded.
     seq_act (require grounded Invalid_argument)
     (transaction (seq_act (ignore_edge e) (seq_act (ignore_provenance p)
       (seq_act (log_batch_event (eg_taskId e) (eg_epochId e) (eg_sourceRunId e) ''DERIVED_EDGE_COMMITTED''
           [(''edgeRef'', Str (eg_edgeId e)), (''resolverVersion'', Str (rv_resolverVersion p)),
            (''sourceRefs'', js_ids (rv_sourceRefs p))])
          (read_act (\<lambda>s. List.find (\<lambda>x. eg_edgeId x = eg_edgeId e)
             (listEdges (eg_taskId e) (eg_epochId e) s))))))))))"

section \<open>What the commit writes\<close>

lemma insert_refs_result:
  "each_act insert_ref rs s = (Inr u, s') \<Longrightarrow> \<exists>os. s' = s\<lparr>db_objects := os\<rparr>"
proof (induction rs arbitrary: s)
  case Nil
  then show ?case by (auto intro: exI [of _ "db_objects s"])
next
  case (Cons r rs)
  then obtain s1 where "insert_ref r s = (Inr (), s1)" "each_act insert_ref rs s1 = (Inr u, s')"
    by (auto simp: act_simps)
  moreover from this(1) have "s1 = s \<or> s1 = s\<lparr>db_objects := db_objects s @ [r]\<rparr>"
    by (auto simp: insert_ref_def split: if_splits)
  ultimately show ?case using Cons.IH [of s1] by auto
qed

lemma put_fact_result:
  assumes "put_fact digest f s = (Inr u, s')"
  shows "\<exists>vs. s' = s\<lparr>db_facts := db_facts s @ [f], db_versions := vs\<rparr>"
  using assms unfolding put_fact_def insert_fact_def record_version_def insert_version_def
  by (auto simp: act_simps split: if_splits intro: exI [of _ "db_versions s"])

lemma put_facts_result:
  "each_act (put_fact digest) fs s = (Inr u, s') \<Longrightarrow>
     \<exists>vs. s' = s\<lparr>db_facts := db_facts s @ fs, db_versions := vs\<rparr>"
proof (induction fs arbitrary: s)
  case Nil
  then show ?case by (auto intro: exI [of _ "db_versions s"])
next
  case (Cons f fs)
  then obtain s1 where "put_fact digest f s = (Inr (), s1)" "each_act (put_fact digest) fs s1 = (Inr u, s')"
    by (auto simp: act_simps)
  with put_fact_result [OF this(1)] Cons.IH [of s1] show ?case by auto
qed

lemma put_edge_result:
  assumes "put_edge e s = (Inr u, s')"
  shows "\<exists>p. s' = s\<lparr>db_edges := db_edges s @ [e], db_provenance := db_provenance s @ [p]\<rparr>
    \<and> rv_edgeRef p = eg_edgeId e \<and> \<not> has_key eg_edgeId (eg_edgeId e) (db_edges s)
    \<and> provenance_ok p (s\<lparr>db_edges := db_edges s @ [e]\<rparr>)"
  using assms unfolding put_edge_def insert_edge_def insert_provenance_def
  by (auto simp: act_simps)

lemma put_edges_result:
  "each_act put_edge es s = (Inr u, s') \<Longrightarrow>
     \<exists>ps. s' = s\<lparr>db_edges := db_edges s @ es, db_provenance := ps\<rparr>"
proof (induction es arbitrary: s)
  case Nil
  then show ?case by (auto intro: exI [of _ "db_provenance s"])
next
  case (Cons e es)
  then obtain s1 where "put_edge e s = (Inr (), s1)" "each_act put_edge es s1 = (Inr u, s')"
    by (auto simp: act_simps)
  with put_edge_result [OF this(1)] Cons.IH [of s1] show ?case by auto
qed

lemma finish_batch_run_result:
  assumes "finish_batch_run input b s = (Inr u, s')"
  shows "\<exists>rs n. s' = s\<lparr>db_tool_runs := rs, clock_pos := n\<rparr>
    \<and> (\<forall>r. fi_toolRun input = Some r \<longrightarrow> batch_run_ok input r s
         \<and> (\<exists>run. getToolRun (bt_toolCallId r) s' = Some run \<and> tr_status run = bt_status r
              \<and> tr_result run = terminal_result r b))"
proof (cases "fi_toolRun input")
  case None
  with assms show ?thesis
    by (intro exI [of _ "db_tool_runs s"] exI [of _ "clock_pos s"]) (simp add: finish_batch_run_def)
next
  case (Some r)
  let ?run = "\<lambda>run. run\<lparr>tr_status := bt_status r, tr_result := terminal_result r b,
    tr_error := nonempty (bt_error r), tr_finishedAt := Some (clock_tape s (clock_pos s))\<rparr>"
  let ?rs = "update_rows (\<lambda>x. tr_toolCallId x = bt_toolCallId r) ?run (db_tool_runs s)"
  from assms Some have ok: "batch_run_ok input r s"
    and s': "s' = s\<lparr>db_tool_runs := ?rs, clock_pos := Suc (clock_pos s)\<rparr>"
    by (auto simp: finish_batch_run_def finishToolRun_def now_def act_simps)
  have found: "List.find (\<lambda>x. tr_toolCallId x = c) (update_rows (\<lambda>x. tr_toolCallId x = c) ?run xs)
      = map_option ?run (List.find (\<lambda>x. tr_toolCallId x = c) xs)" for c xs
    by (induction xs) (auto simp: update_rows_def)
  from ok have "\<exists>run. getToolRun (bt_toolCallId r) s' = Some run \<and> tr_status run = bt_status r
      \<and> tr_result run = terminal_result r b"
    by (auto simp: s' getToolRun_def batch_run_ok_def found split: option.splits)
  with s' ok Some show ?thesis by auto
qed

lemma log_batch_event_result:
  assumes "log_batch_event tid eid source type payload s = (Inr u, s')"
  shows "\<exists>ev up cp. s' = s\<lparr>db_events := db_events s @ [ev], db_event_seq := Suc (db_event_seq s),
      uuid_pos := up, clock_pos := cp\<rparr>
    \<and> ie_eventType ev = type \<and> ie_sourceBatchRef ev = Some source \<and> ie_payload ev = payload"
proof -
  let ?ev = "\<lparr>ie_eventSeq = Suc (db_event_seq s), ie_eventId = ''ACT'' @ ''-'' @ uuid_tape s (uuid_pos s),
    ie_taskId = tid, ie_epochId = eid, ie_sourceBatchRef = Some source, ie_eventType = type,
    ie_payload = payload, ie_createdAt = clock_tape s (clock_pos s)\<rparr>"
  from assms have "s' = s\<lparr>db_events := db_events s @ [?ev], db_event_seq := Suc (db_event_seq s),
      uuid_pos := Suc (uuid_pos s), clock_pos := Suc (clock_pos s)\<rparr>"
    unfolding log_batch_event_def appendInvestigationEvent_def
    by (auto simp: act_simps now_def create_id_def next_uuid_def Let_def)
  then show ?thesis
    by (intro exI [of _ ?ev] exI [of _ "Suc (uuid_pos s)"] exI [of _ "Suc (clock_pos s)"]) simp
qed

lemma insert_batch_result:
  "insert_batch b s = (Inr u, s') \<Longrightarrow> s' = s\<lparr>db_batches := db_batches s @ [b]\<rparr>"
  by (simp add: insert_batch_def act_simps)

lemma write_batch_result:
  assumes "write_batch digest input prepared s = (Inr b, s')"
  defines "n \<equiv> Suc (max_nat (map fr_factSeq (db_facts s)))"
  shows "\<exists>os vs ps rs t ev up cp. b = prepared\<lparr>pb_facts := number_facts n (pb_facts prepared)\<rparr>
    \<and> s' = s\<lparr>db_objects := os, db_facts := db_facts s @ pb_facts b, db_versions := vs,
        db_edges := db_edges s @ pb_edges b, db_provenance := ps,
        db_batches := db_batches s @ [batch_row input b t], db_tool_runs := rs,
        db_events := db_events s @ [ev], db_event_seq := Suc (db_event_seq s), uuid_pos := up, clock_pos := cp\<rparr>
    \<and> ie_eventType ev = ''FACT_BATCH_COMMITTED'' \<and> ie_sourceBatchRef ev = Some (pb_batchId b)
    \<and> ie_payload ev = batch_event input b
    \<and> (\<forall>r. fi_toolRun input = Some r \<longrightarrow> batch_run_ok input r s \<and> (\<exists>run. getToolRun (bt_toolCallId r) s' = Some run
         \<and> tr_status run = bt_status r \<and> tr_result run = terminal_result r b))"
proof -
  let ?b = "prepared\<lparr>pb_facts := number_facts n (pb_facts prepared)\<rparr>"
  from assms obtain s1 s2 s3 s4 s5 where
    1: "each_act insert_ref (pb_refs ?b) s = (Inr (), s1)" and
    2: "each_act (put_fact digest) (pb_facts ?b) s1 = (Inr (), s2)" and
    3: "each_act put_edge (pb_edges ?b) s2 = (Inr (), s3)" and
    row: "insert_batch (batch_row input ?b (clock_tape s3 (clock_pos s3)))
        (s3\<lparr>clock_pos := Suc (clock_pos s3)\<rparr>) = (Inr (), s5)" and
    run: "finish_batch_run input ?b s5 = (Inr (), s4)" and
    6: "log_batch_event (fi_taskId input) (fi_epochId input) (pb_batchId ?b)
        ''FACT_BATCH_COMMITTED'' (batch_event input ?b) s4 = (Inr (), s')" and
    5: "b = ?b"
    by (force simp: write_batch_def act_simps now_def Let_def)
  from run insert_batch_result [OF row]
  have 4: "finish_batch_run input ?b (s3\<lparr>clock_pos := Suc (clock_pos s3), db_batches := db_batches s3
          @ [batch_row input ?b (clock_tape s3 (clock_pos s3))]\<rparr>) = (Inr (), s4)" by simp
  from insert_refs_result [OF 1] obtain os where s1: "s1 = s\<lparr>db_objects := os\<rparr>" ..
  from put_facts_result [OF 2] obtain vs where
    s2: "s2 = s1\<lparr>db_facts := db_facts s1 @ pb_facts ?b, db_versions := vs\<rparr>" ..
  from put_edges_result [OF 3] obtain ps where
    s3: "s3 = s2\<lparr>db_edges := db_edges s2 @ pb_edges ?b, db_provenance := ps\<rparr>" ..
  have "batch_run_ok input r (s3\<lparr>clock_pos := cp, db_batches := bs\<rparr>) = batch_run_ok input r s" for r cp bs
    by (simp add: batch_run_ok_def getToolRun_def s1 s2 s3)
  with finish_batch_run_result [OF 4] obtain rs cp where
    s4: "s4 = s3\<lparr>db_batches := db_batches s3
          @ [batch_row input ?b (clock_tape s3 (clock_pos s3))], db_tool_runs := rs, clock_pos := cp\<rparr>" and
    run: "\<forall>r. fi_toolRun input = Some r \<longrightarrow> batch_run_ok input r s \<and> (\<exists>run. getToolRun (bt_toolCallId r) s4 = Some run
         \<and> tr_status run = bt_status r \<and> tr_result run = terminal_result r ?b)" by auto
  from log_batch_event_result [OF 6] obtain ev up cp' where
    s': "s' = s4\<lparr>db_events := db_events s4 @ [ev], db_event_seq := Suc (db_event_seq s4),
          uuid_pos := up, clock_pos := cp'\<rparr>" and ev: "ie_eventType ev = ''FACT_BATCH_COMMITTED''"
          "ie_sourceBatchRef ev = Some (pb_batchId ?b)" "ie_payload ev = batch_event input ?b" by blast
  have "getToolRun c s' = getToolRun c s4" for c by (simp add: s' getToolRun_def)
  with run ev 5 show ?thesis
    by (intro exI [of _ os] exI [of _ vs] exI [of _ ps] exI [of _ rs] exI [of _ ev] exI [of _ up]
      exI [of _ cp'] exI [of _ "clock_tape s3 (clock_pos s3)"]) (simp add: s' s4 s3 s2 s1)
qed

text \<open>The preparation draws identifiers and reads nothing else of the state.\<close>

definition draws :: "'a tapes_scheme \<Rightarrow> 'a tapes_scheme \<Rightarrow> bool" where
  "draws s s' \<longleftrightarrow> (\<exists>u c. s' = s\<lparr>uuid_pos := u, clock_pos := c\<rparr>)"

lemma drawsI: "s' = s\<lparr>uuid_pos := u, clock_pos := c\<rparr> \<Longrightarrow> draws s s'"
  by (auto simp: draws_def)

lemma reflp_draws [obeys_intros]: "reflp draws"
proof (rule reflpI)
  show "draws s s" for s by (rule drawsI [where u = "uuid_pos s" and c = "clock_pos s"]) simp
qed

lemma transp_draws [obeys_intros]: "transp draws"
proof (rule transpI)
  fix r s t assume "draws r s" "draws s t"
  then obtain u c u' c' where "s = r\<lparr>uuid_pos := u, clock_pos := c\<rparr>"
    "t = s\<lparr>uuid_pos := u', clock_pos := c'\<rparr>" unfolding draws_def by blast
  then show "draws r t" by (intro drawsI [where u = u' and c = c']) simp
qed

lemma draws_next_uuid [obeys_intros]: "obeys draws next_uuid"
  unfolding obeys_def
proof
  show "draws s (snd (next_uuid s))" for s
    by (rule drawsI [where u = "Suc (uuid_pos s)" and c = "clock_pos s"]) (simp add: next_uuid_def)
qed

lemma draws_getRef [obeys_intros]: "obeys draws (getRef digest input lookup ns identity t refs)"
  unfolding getRef_def Let_def by (auto split: sum.split option.split intro!: obeys_intros)

lemma draws_normalizeObservation [obeys_intros]:
  "obeys draws (normalizeObservation digest parse input lookup ob refs)"
  unfolding normalizeObservation_def by (intro obeys_intros)

lemma draws_normalize_all [obeys_intros]: "obeys draws (normalize_all digest parse input lookup obs refs)"
  by (induction obs arbitrary: refs) (auto intro!: obeys_intros)

lemma draws_normalize_edges [obeys_intros]: "obeys draws (normalize_edges digest input lookup es refs)"
  by (induction es arbitrary: refs) (auto simp: normalize_edge_def intro!: obeys_intros)

lemma draws_prepareFactBatch: "obeys draws (prepareFactBatch digest parse input lookup)"
  unfolding prepareFactBatch_def assertSource_def by (intro obeys_intros)

lemma normalize_edges_length:
  "normalize_edges digest input lookup es refs s = (Inr (xs, refs'), s') \<Longrightarrow> length xs = length es"
  by (induction es arbitrary: refs s xs) (fastforce simp: act_simps)+

lemma prepareFactBatch_lengths:
  assumes "prepareFactBatch digest parse input lookup s = (Inr b, s')"
  shows "length (pb_facts b) = length (fi_observations input) \<and> length (pb_edges b) = length (fi_edges input)"
  using prepareFactBatch_facts [OF assms] assms unfolding prepareFactBatch_def
  by (auto simp: act_simps dest: list_all2_lengthD normalize_edges_length)

lemma number_facts_seqs:
  "map fr_factSeq (number_facts n fs) = [n..<n + length fs]"
  by (induction n fs rule: number_facts.induct) (simp_all add: upt_conv_Cons del: upt_Suc)

lemma length_number_facts [simp]: "length (number_facts n fs) = length fs"
  by (induction n fs rule: number_facts.induct) simp_all

lemma commitFactBatch_Inr:
  assumes "commitFactBatch digest parse input s = (Inr b, s')"
  obtains prepared t lookup where "prepareFactBatch digest parse input lookup s = (Inr prepared, t)"
    and "draws s t" and "write_batch digest input prepared t = (Inr b, s')"
    and "\<exists>e. getScanEpoch (fi_taskId input) (fi_epochId input) s = Some e \<and> ep_status e = EP_RUNNING
      \<and> ep_targetFingerprint e = fi_targetFingerprint input"
  using assms unfolding commitFactBatch_def
  by (auto simp: act_simps split: option.splits dest: obeysD [OF draws_prepareFactBatch])

lemma commitFactBatch_Inl:
  assumes "commitFactBatch digest parse input s = (Inl e, s')"
  shows "draws s s'"
proof -
  have "draws s s" using reflp_draws by (rule reflpD)
  with assms show ?thesis unfolding commitFactBatch_def
    by (auto simp: act_simps dest: obeysD [OF draws_prepareFactBatch])
qed

text \<open>
  C14. A batch of facts is committed as a whole: if the commit fails, whatever the error, no
  table has changed; if it returns, the epoch is running and belongs to the target, every
  observation has become one fact with the next numbers of the global sequence, every edge one
  edge record, the batch row and one event naming the facts are written, and the tool run that
  produced the batch, still started before, is finished with its status and result.
\<close>

theorem batch_commits_together:
  assumes "commitFactBatch digest parse input s = (r, s')"
  shows "case r of Inl e \<Rightarrow> \<exists>u c. s' = s\<lparr>uuid_pos := u, clock_pos := c\<rparr>
    | Inr b \<Rightarrow> let n = Suc (max_nat (map fr_factSeq (db_facts s))) in
        (\<exists>e. getScanEpoch (fi_taskId input) (fi_epochId input) s = Some e \<and> ep_status e = EP_RUNNING
           \<and> ep_targetFingerprint e = fi_targetFingerprint input)
      \<and> db_facts s' = db_facts s @ pb_facts b \<and> length (pb_facts b) = length (fi_observations input)
      \<and> map fr_factSeq (pb_facts b) = [n..<n + length (pb_facts b)]
      \<and> db_edges s' = db_edges s @ pb_edges b \<and> length (pb_edges b) = length (fi_edges input)
      \<and> (\<exists>t. db_batches s' = db_batches s @ [batch_row input b t])
      \<and> (\<exists>ev. db_events s' = db_events s @ [ev] \<and> ie_eventType ev = ''FACT_BATCH_COMMITTED''
           \<and> ie_sourceBatchRef ev = Some (pb_batchId b) \<and> ie_payload ev = batch_event input b)
      \<and> (\<forall>q. fi_toolRun input = Some q \<longrightarrow> batch_run_ok input q s
           \<and> (\<exists>run. getToolRun (bt_toolCallId q) s' = Some run \<and> tr_status run = bt_status q
                \<and> tr_result run = terminal_result q b))"
proof (cases r)
  case (Inl e)
  with assms show ?thesis by (simp add: commitFactBatch_Inl draws_def [symmetric])
next
  case (Inr b)
  with assms have "commitFactBatch digest parse input s = (Inr b, s')" by simp
  from this obtain prepared t lookup where p: "prepareFactBatch digest parse input lookup s = (Inr prepared, t)"
    and t: "draws s t" and w: "write_batch digest input prepared t = (Inr b, s')"
    and e: "\<exists>e. getScanEpoch (fi_taskId input) (fi_epochId input) s = Some e \<and> ep_status e = EP_RUNNING
      \<and> ep_targetFingerprint e = fi_targetFingerprint input" by (rule commitFactBatch_Inr)
  from t have same: "db_facts t = db_facts s" "db_edges t = db_edges s" "db_batches t = db_batches s"
    "db_events t = db_events s" "batch_run_ok input q t = batch_run_ok input q s" for q
    by (auto simp: draws_def batch_run_ok_def getToolRun_def)
  from write_batch_result [OF w] obtain os vs ps rs ts ev up cp where
    b: "b = prepared\<lparr>pb_facts := number_facts (Suc (max_nat (map fr_factSeq (db_facts t)))) (pb_facts prepared)\<rparr>"
    and s': "s' = t\<lparr>db_objects := os, db_facts := db_facts t @ pb_facts b, db_versions := vs,
        db_edges := db_edges t @ pb_edges b, db_provenance := ps,
        db_batches := db_batches t @ [batch_row input b ts], db_tool_runs := rs,
        db_events := db_events t @ [ev], db_event_seq := Suc (db_event_seq t), uuid_pos := up, clock_pos := cp\<rparr>"
    and ev: "ie_eventType ev = ''FACT_BATCH_COMMITTED''" "ie_sourceBatchRef ev = Some (pb_batchId b)"
      "ie_payload ev = batch_event input b"
    and run: "\<forall>r. fi_toolRun input = Some r \<longrightarrow> batch_run_ok input r t \<and> (\<exists>run. getToolRun (bt_toolCallId r) s' = Some run
         \<and> tr_status run = bt_status r \<and> tr_result run = terminal_result r b)" by blast
  from s' have tables: "db_facts s' = db_facts s @ pb_facts b" "db_edges s' = db_edges s @ pb_edges b"
    "db_batches s' = db_batches s @ [batch_row input b ts]" "db_events s' = db_events s @ [ev]"
    by (simp_all add: same)
  have "length (pb_facts b) = length (fi_observations input)" "length (pb_edges b) = length (fi_edges input)"
    "map fr_factSeq (pb_facts b) = [Suc (max_nat (map fr_factSeq (db_facts s)))..<
       Suc (max_nat (map fr_factSeq (db_facts s))) + length (pb_facts b)]"
    using prepareFactBatch_lengths [OF p] unfolding b by (simp_all add: same number_facts_seqs del: upt_Suc)
  moreover from run have "\<forall>q. fi_toolRun input = Some q \<longrightarrow> batch_run_ok input q s \<and>
      (\<exists>run. getToolRun (bt_toolCallId q) s' = Some run \<and> tr_status run = bt_status q
         \<and> tr_result run = terminal_result q b)" by (simp add: same)
  ultimately show ?thesis using e ev unfolding Inr Let_def sum.case tables by blast
qed

section \<open>The invariant of the fact tables\<close>

text \<open>
  \<open>contents_of k\<close>: what the open versions of a subject should carry, the digest of the payload
  of the last fact about it, or nothing when there is none.
\<close>

definition contents_of :: "id \<times> id \<times> id \<Rightarrow> fact_record list \<Rightarrow> string option list" where
  "contents_of k facts = (let fs = filter (\<lambda>f. fact_scope f = k) facts in
     if fs = [] then [] else [Some (fr_payloadDigest (last fs))])"

definition versions_current :: "'a db_scheme \<Rightarrow> bool" where
  "versions_current s \<longleftrightarrow> (\<forall>k. map vn_contentDigest (open_versions k s) = contents_of k (db_facts s))"

definition version_from :: "entity_version \<Rightarrow> fact_record \<Rightarrow> bool" where
  "version_from v f \<longleftrightarrow> fr_factId f = vn_sourceFactRef v \<and> fact_scope f = version_scope v
     \<and> vn_contentDigest v = Some (fr_payloadDigest f)"

definition fact_graph :: "'a db_scheme \<Rightarrow> bool" where
  "fact_graph s \<longleftrightarrow> distinct (map or_ref (db_objects s)) \<and> distinct (map ref_identity (db_objects s))
     \<and> distinct (map vn_versionRef (db_versions s))
     \<and> distinct (map eg_edgeId (db_edges s)) \<and> distinct (map rv_edgeRef (db_provenance s))
     \<and> (\<forall>f\<in>set (db_facts s). fr_subjectRef f \<in> or_ref ` set (db_objects s))
     \<and> (\<forall>v\<in>set (db_versions s). \<exists>f\<in>set (db_facts s). version_from v f)
     \<and> rv_edgeRef ` set (db_provenance s) = eg_edgeId ` set (db_edges s)
     \<and> (\<forall>p\<in>set (db_provenance s). set_option (rv_fromVersionRef p) \<union> set_option (rv_toVersionRef p)
          \<subseteq> vn_versionRef ` set (db_versions s))"

definition batch_inv :: "'a db_scheme \<Rightarrow> bool" where
  "batch_inv s \<longleftrightarrow> fact_graph s \<and> versions_current s"

lemma batch_inv_same:
  "db_objects s' = db_objects s \<Longrightarrow> db_facts s' = db_facts s \<Longrightarrow> db_versions s' = db_versions s \<Longrightarrow>
   db_edges s' = db_edges s \<Longrightarrow> db_provenance s' = db_provenance s \<Longrightarrow> batch_inv s' = batch_inv s"
  by (simp add: batch_inv_def fact_graph_def versions_current_def open_versions_def)

lemma contents_of_snoc:
  "contents_of k (fs @ [f]) = (if fact_scope f = k then [Some (fr_payloadDigest f)] else contents_of k fs)"
  by (simp add: contents_of_def)

lemma close_versions_keys: "map vn_versionRef (close_versions refs t vs) = map vn_versionRef vs"
  unfolding close_versions_def by (rule update_rows_keys) simp

lemma close_versions_from:
  assumes "v \<in> set (close_versions refs t vs)"
  shows "\<exists>w\<in>set vs. version_from v = version_from w"
proof -
  from assms obtain w where "w \<in> set vs" "v = w \<or> v = w\<lparr>vn_validTo := Some t\<rparr>"
    by (auto simp: close_versions_def update_rows_def)
  then show ?thesis by (intro bexI [of _ w]) (auto simp: version_from_def version_scope_def fun_eq_iff)
qed

lemma open_close_versions:
  assumes "distinct (map vn_versionRef vs)"
    and refs_def: "refs = map vn_versionRef (filter (\<lambda>v. version_scope v = k \<and> is_open v) vs)"
  shows "filter (\<lambda>v. version_scope v = k' \<and> is_open v) (close_versions refs t vs)
    = (if k' = k then [] else filter (\<lambda>v. version_scope v = k' \<and> is_open v) vs)"
proof -
  have refs: "vn_versionRef v \<in> set refs \<longleftrightarrow> version_scope v = k \<and> is_open v" if "v \<in> set vs" for v
    using that assms by (auto simp: refs_def distinct_map inj_on_def)
  define cl where "cl v = (if version_scope v = k \<and> is_open v then v\<lparr>vn_validTo := Some t\<rparr> else v)" for v
  have "close_versions refs t vs = map cl vs"
    unfolding close_versions_def update_rows_def by (intro map_cong refl) (simp add: refs cl_def)
  moreover have cl: "version_scope (cl v) = version_scope v" "is_open (cl v) \<longleftrightarrow> is_open v \<and> version_scope v \<noteq> k" for v
    by (auto simp: cl_def version_scope_def is_open_def)
  have "filter (\<lambda>v. version_scope v = k' \<and> is_open v) (map cl ws)
      = (if k' = k then [] else filter (\<lambda>v. version_scope v = k' \<and> is_open v) ws)" for ws
    by (induction ws) (auto simp: cl, simp_all add: cl_def)
  ultimately show ?thesis by simp
qed

lemma fact_version_simps:
  "version_scope (fact_version digest f) = fact_scope f" "is_open (fact_version digest f)"
  "vn_contentDigest (fact_version digest f) = Some (fr_payloadDigest f)"
  "vn_sourceFactRef (fact_version digest f) = fr_factId f" "vn_entityRef (fact_version digest f) = fr_subjectRef f"
  by (simp_all add: fact_version_def version_scope_def fact_scope_def is_open_def)

lemma insert_fact_result:
  "insert_fact f s = (Inr u, s') \<Longrightarrow>
     s' = s\<lparr>db_facts := db_facts s @ [f]\<rparr> \<and> fr_subjectRef f \<in> or_ref ` set (db_objects s)"
  by (simp add: insert_fact_def act_simps has_key_def)

lemma record_version_result:
  fixes s :: "'a db_scheme"
  assumes "record_version digest f s = (Inr u, s')"
  defines "opened \<equiv> open_versions (fact_scope f) s"
  defines "vs \<equiv> close_versions (map vn_versionRef opened) (fr_observedAt f) (db_versions s)"
  shows "(\<exists>v\<in>set opened. option_or (vn_contentDigest v) [] = fr_payloadDigest f) \<and> s' = s
    \<or> s' = s\<lparr>db_versions := vs @ [fact_version digest f]\<rparr>
      \<and> vn_versionRef (fact_version digest f) \<notin> vn_versionRef ` set vs"
proof (cases "list_ex (\<lambda>v. option_or (vn_contentDigest v) [] = fr_payloadDigest f) opened")
  case True
  with assms(1) show ?thesis by (simp add: record_version_def act_simps opened_def list_ex_iff)
next
  case False
  with assms(1) show ?thesis
    by (simp add: record_version_def insert_version_def act_simps opened_def vs_def has_key_def)
qed

lemma put_fact_cases:
  assumes "put_fact digest f s = (Inr u, s')"
  obtains "s' = s\<lparr>db_facts := db_facts s @ [f]\<rparr>" and "fr_subjectRef f \<in> or_ref ` set (db_objects s)"
      and "\<exists>v\<in>set (open_versions (fact_scope f) s). option_or (vn_contentDigest v) [] = fr_payloadDigest f"
  | vs where "vs = close_versions (map vn_versionRef (open_versions (fact_scope f) s)) (fr_observedAt f) (db_versions s)"
      and "s' = s\<lparr>db_facts := db_facts s @ [f], db_versions := vs @ [fact_version digest f]\<rparr>"
      and "fr_subjectRef f \<in> or_ref ` set (db_objects s)"
      and "vn_versionRef (fact_version digest f) \<notin> vn_versionRef ` set vs"
proof -
  from assms obtain s1 where f: "insert_fact f s = (Inr (), s1)" and v: "record_version digest f s1 = (Inr u, s')"
    by (auto simp: put_fact_def act_simps)
  from insert_fact_result [OF f] have s1: "s1 = s\<lparr>db_facts := db_facts s @ [f]\<rparr>"
    and subject: "fr_subjectRef f \<in> or_ref ` set (db_objects s)" by simp_all
  have "open_versions k s1 = open_versions k s" for k by (simp add: s1 open_versions_def)
  with record_version_result [OF v] have
    "(\<exists>v\<in>set (open_versions (fact_scope f) s). option_or (vn_contentDigest v) [] = fr_payloadDigest f) \<and> s' = s1
    \<or> s' = s1\<lparr>db_versions := close_versions (map vn_versionRef (open_versions (fact_scope f) s)) (fr_observedAt f)
          (db_versions s) @ [fact_version digest f]\<rparr>
      \<and> vn_versionRef (fact_version digest f) \<notin> vn_versionRef ` set (close_versions
          (map vn_versionRef (open_versions (fact_scope f) s)) (fr_observedAt f) (db_versions s))"
    by (simp add: s1)
  then show ?thesis
  proof (elim disjE conjE)
    assume "\<exists>v\<in>set (open_versions (fact_scope f) s). option_or (vn_contentDigest v) [] = fr_payloadDigest f"
      and "s' = s1"
    with that(1) subject show ?thesis by (simp add: s1)
  qed (rule that(2) [OF refl], simp_all add: s1 subject)
qed

lemma maintains_put_fact: "maintains batch_inv (put_fact digest f)"
proof (rule maintainsI)
  fix s :: "'a db_scheme" and u s'
  assume inv: "batch_inv s" and "put_fact digest f s = (Inr u, s')"
  from this(2) show "batch_inv s'"
  proof (cases rule: put_fact_cases)
    case 1
    from 1(3) obtain v where v: "v \<in> set (open_versions (fact_scope f) s)"
      "option_or (vn_contentDigest v) [] = fr_payloadDigest f" by blast
    from inv have "map vn_contentDigest (open_versions (fact_scope f) s) = contents_of (fact_scope f) (db_facts s)"
      unfolding batch_inv_def versions_current_def by blast
    with v have "vn_contentDigest v \<in> set (contents_of (fact_scope f) (db_facts s))" by (metis image_eqI set_map)
    with v(2) have "contents_of (fact_scope f) (db_facts s) = [Some (fr_payloadDigest f)]"
      by (auto simp: contents_of_def Let_def split: if_splits)
    with inv 1 show ?thesis
      by (auto simp: batch_inv_def fact_graph_def versions_current_def open_versions_def contents_of_snoc)
  next
    case (2 vs)
    from inv have d: "distinct (map vn_versionRef (db_versions s))" by (simp add: batch_inv_def fact_graph_def)
    have "versions_current s'" unfolding versions_current_def
    proof
      fix k
      have "map vn_contentDigest (open_versions k s) = contents_of k (db_facts s)"
        using inv unfolding batch_inv_def versions_current_def by blast
      moreover have "open_versions k s' = (if k = fact_scope f then [] else open_versions k s)
          @ (if fact_scope f = k then [fact_version digest f] else [])"
        using open_close_versions [OF d refl, of k "fact_scope f"]
        by (simp add: 2(1,2) open_versions_def fact_version_simps)
      ultimately show "map vn_contentDigest (open_versions k s') = contents_of k (db_facts s')"
        by (simp add: 2(2) contents_of_snoc fact_version_simps)
    qed
    moreover have "fact_graph s'"
    proof -
      have keys: "map vn_versionRef vs = map vn_versionRef (db_versions s)"
        unfolding 2(1) by (rule close_versions_keys)
      then have refs: "vn_versionRef ` set vs = vn_versionRef ` set (db_versions s)" by (metis set_map)
      have src: "\<exists>g\<in>set (db_facts s). version_from v g" if "v \<in> set vs" for v
        using inv close_versions_from that unfolding 2(1) batch_inv_def fact_graph_def by metis
      have "version_from (fact_version digest f) f"
        by (simp add: version_from_def fact_version_simps)
      with inv 2(3,4) keys refs src show ?thesis
        unfolding 2(2) batch_inv_def fact_graph_def by auto
    qed
    ultimately show ?thesis by (simp add: batch_inv_def)
  qed
qed

lemma maintains_same:
  assumes "\<And>s x s'. m s = (Inr x, s') \<Longrightarrow> db_objects s' = db_objects s \<and> db_facts s' = db_facts s
    \<and> db_versions s' = db_versions s \<and> db_edges s' = db_edges s \<and> db_provenance s' = db_provenance s"
  shows "maintains batch_inv m"
proof (rule maintainsI)
  fix s x s' assume "batch_inv s" and "m s = (Inr x, s')"
  with assms [OF this(2)] show "batch_inv s'" by (metis batch_inv_same)
qed

lemma batch_inv_draws: "draws s s' \<Longrightarrow> batch_inv s' = batch_inv s"
  unfolding draws_def by (elim exE) (rule batch_inv_same, simp_all)

lemma maintains_insert_ref: "maintains batch_inv (insert_ref r)"
proof (rule maintainsI)
  fix s x s' assume inv: "batch_inv s" and "insert_ref r s = (Inr x, s')"
  show "batch_inv s'"
  proof (cases "has_key or_ref (or_ref r) (db_objects s) \<or> has_key ref_identity (ref_identity r) (db_objects s)")
    case True
    with \<open>insert_ref r s = (Inr x, s')\<close> inv show ?thesis by (simp add: insert_ref_def)
  next
    case False
    with \<open>insert_ref r s = (Inr x, s')\<close> have s': "s' = s\<lparr>db_objects := db_objects s @ [r]\<rparr>"
      by (simp add: insert_ref_def)
    from False inv have "fact_graph s'" by (simp add: s' batch_inv_def fact_graph_def has_key_def)
    with inv show ?thesis by (simp add: s' batch_inv_def versions_current_def open_versions_def)
  qed
qed

lemma add_edge_inv:
  assumes "batch_inv s" and "eg_edgeId e \<notin> eg_edgeId ` set (db_edges s)" and "rv_edgeRef p = eg_edgeId e"
    and "provenance_ok p (s\<lparr>db_edges := db_edges s @ [e]\<rparr>)"
  shows "batch_inv (s\<lparr>db_edges := db_edges s @ [e], db_provenance := db_provenance s @ [p]\<rparr>)"
proof -
  from assms(1) have v: "versions_current (s\<lparr>db_edges := db_edges s @ [e], db_provenance := db_provenance s @ [p]\<rparr>)"
    by (simp add: batch_inv_def versions_current_def open_versions_def)
  from assms(4) have "set_option (rv_fromVersionRef p) \<union> set_option (rv_toVersionRef p)
      \<subseteq> vn_versionRef ` set (db_versions s)"
    by (auto simp: provenance_ok_def has_key_def)
  moreover from assms(1) have g: "fact_graph s" by (simp add: batch_inv_def)
  then have "rv_edgeRef ` set (db_provenance s) = eg_edgeId ` set (db_edges s)" by (simp add: fact_graph_def)
  ultimately have "fact_graph (s\<lparr>db_edges := db_edges s @ [e], db_provenance := db_provenance s @ [p]\<rparr>)"
    using g assms(2,3) by (simp add: fact_graph_def ball_Un)
  with v show ?thesis by (simp add: batch_inv_def)
qed

lemma maintains_put_edge: "maintains batch_inv (put_edge e)"
proof (rule maintainsI)
  fix s :: "'a db_scheme" and u s'
  assume "batch_inv s" and "put_edge e s = (Inr u, s')"
  with put_edge_result [OF this(2)] show "batch_inv s'"
    by (auto simp: has_key_def intro: add_edge_inv)
qed

lemma maintains_batch_tail:
  "maintains batch_inv now" "maintains batch_inv (insert_batch row)"
  "maintains batch_inv (finish_batch_run input b)" "maintains batch_inv (log_batch_event tid eid src ty pl)"
proof -
  show "maintains batch_inv now" by (rule maintains_same) (auto simp: now_def)
  show "maintains batch_inv (insert_batch row)"
    by (rule maintains_same) (auto dest: insert_batch_result)
  show "maintains batch_inv (finish_batch_run input b)"
    by (rule maintains_same) (auto dest!: finish_batch_run_result)
  show "maintains batch_inv (log_batch_event tid eid src ty pl)"
    by (rule maintains_same) (auto dest!: log_batch_event_result)
qed

lemma maintains_write_batch: "maintains batch_inv (write_batch digest input prepared)"
  unfolding write_batch_def Let_def
  by (intro maintains_intros maintains_insert_ref maintains_put_fact maintains_put_edge maintains_batch_tail)

lemma keeps_commitFactBatch: "batch_inv s \<Longrightarrow> batch_inv (snd (commitFactBatch digest parse input s))"
proof (cases "commitFactBatch digest parse input s")
  case (Pair r s')
  assume inv: "batch_inv s"
  show ?thesis
  proof (cases r)
    case (Inl e)
    with Pair inv show ?thesis by (auto dest: commitFactBatch_Inl batch_inv_draws)
  next
    case (Inr b)
    with Pair have "commitFactBatch digest parse input s = (Inr b, s')" by simp
    then obtain prepared t where "draws s t" "write_batch digest input prepared t = (Inr b, s')"
      by (rule commitFactBatch_Inr)
    with inv show ?thesis unfolding Pair by (auto dest: batch_inv_draws maintainsD [OF maintains_write_batch])
  qed
qed

lemma derived_rows_result:
  assumes "ignore_edge e s = (Inr u, s1)" and "ignore_provenance p s1 = (Inr w, s')"
    and "rv_edgeRef p = eg_edgeId e" and "0 \<le> rv_timeErrorMs p" and inv: "batch_inv s"
  shows "batch_inv s'"
proof (cases "has_key eg_edgeId (eg_edgeId e) (db_edges s)")
  case True
  then have s1: "s1 = s" using assms(1) by (simp add: ignore_edge_def)
  have "rv_edgeRef ` set (db_provenance s) = eg_edgeId ` set (db_edges s)"
    using inv by (simp add: batch_inv_def fact_graph_def)
  with True assms(3) have "has_key rv_edgeRef (rv_edgeRef p) (db_provenance s)" by (simp add: has_key_def)
  with assms(2) inv show ?thesis by (simp add: s1 ignore_provenance_def act_simps)
next
  case False
  then have s1: "s1 = s\<lparr>db_edges := db_edges s @ [e]\<rparr>" using assms(1) by (auto simp: ignore_edge_def)
  have "rv_edgeRef ` set (db_provenance s) = eg_edgeId ` set (db_edges s)"
    using inv by (simp add: batch_inv_def fact_graph_def)
  with False assms(3) have "\<not> has_key rv_edgeRef (rv_edgeRef p) (db_provenance s)" by (simp add: has_key_def)
  with assms(2,4) have "provenance_ok p s1"
    and s': "s' = s1\<lparr>db_provenance := db_provenance s1 @ [p]\<rparr>"
    by (auto simp: s1 ignore_provenance_def act_simps)
  with add_edge_inv [OF inv _ assms(3)] False show ?thesis by (simp add: s1 has_key_def)
qed

lemma keeps_putDerivedEdge:
  assumes "0 \<le> rv_timeErrorMs p" and inv: "batch_inv s"
  shows "batch_inv (snd (putDerivedEdge e p s))"
proof (rule atomic_keeps [where I = batch_inv, OF _ inv])
  show "atomic (putDerivedEdge e p)"
    unfolding putDerivedEdge_def assertInvestigationScope_def atomic_def by (auto simp: act_simps)
next
  fix x s' assume "putDerivedEdge e p s = (Inr x, s')"
  then obtain s1 s2 s3 where m: "derivation_matches e p" and rows: "ignore_edge e s = (Inr (), s1)"
    "ignore_provenance p s1 = (Inr (), s2)" and log: "log_batch_event (eg_taskId e) (eg_epochId e) (eg_sourceRunId e)
       ''DERIVED_EDGE_COMMITTED'' [(''edgeRef'', Str (eg_edgeId e)),
         (''resolverVersion'', Str (rv_resolverVersion p)), (''sourceRefs'', js_ids (rv_sourceRefs p))] s2
       = (Inr (), s3)" and s': "s' = s3"
    unfolding putDerivedEdge_def assertInvestigationScope_def by (auto simp: act_simps)
  from derived_rows_result [OF rows _ assms] m have "batch_inv s2" by (simp add: derivation_matches_def)
  with log show "batch_inv s'" unfolding s' by (blast dest: maintainsD [OF maintains_batch_tail(4)])
qed

section \<open>Runs of commits\<close>

datatype batch_op = Commit fact_batch_input | Derive edge_record relation_provenance

definition batch_exec ::
  "(js \<Rightarrow> string) \<Rightarrow> (string \<Rightarrow> jsnum) \<Rightarrow> batch_op \<Rightarrow> 'a db_scheme \<Rightarrow> (err + unit) \<times> 'a db_scheme" where
  "batch_exec digest parse q = (case q of
     Commit input \<Rightarrow> bind_act (commitFactBatch digest parse input) (\<lambda>_. return_act ())
   | Derive e p \<Rightarrow> bind_act (putDerivedEdge e p) (\<lambda>_. return_act ()))"

text \<open>The resolvers of the code measure a time error that is not negative.\<close>

definition batch_op_ok :: "batch_op \<Rightarrow> bool" where
  "batch_op_ok q \<longleftrightarrow> (case q of Commit _ \<Rightarrow> True | Derive _ p \<Rightarrow> 0 \<le> rv_timeErrorMs p)"

lemma snd_bind_return: "snd (bind_act m (\<lambda>_. return_act y) s) = snd (m s)"
  by (simp add: bind_act_def split: prod.split sum.split)

interpretation batches: invariant_system "batch_exec digest parse" batch_op_ok batch_inv
proof unfold_locales
  fix q and s :: "'a db_scheme"
  assume "batch_op_ok q" and "batch_inv s"
  then show "batch_inv (snd (batch_exec digest parse q s))"
    by (cases q) (simp_all add: batch_exec_def batch_op_ok_def snd_bind_return keeps_commitFactBatch
        keeps_putDerivedEdge)
qed

lemma batch_inv_empty: "batch_inv empty_db"
  by (simp add: batch_inv_def fact_graph_def versions_current_def open_versions_def contents_of_def empty_defs)

definition batch_start :: db where
  "batch_start = empty_db\<lparr>db_epochs := [sample_epoch ''E1''\<lparr>ep_targetFingerprint := ''fp''\<rparr>]\<rparr>"

lemma batch_start_inv: "batch_inv batch_start"
  by (simp add: batch_start_def batch_inv_def fact_graph_def versions_current_def open_versions_def
      contents_of_def empty_defs)

definition tail_digest :: "js \<Rightarrow> string" where
  "tail_digest v = rev (flat_digest v)"

definition sample_commits :: "batch_op list" where
  "sample_commits = [Commit (sample_batch [sample_observation]),
     Commit (sample_batch [sample_observation\<lparr>wo_fields := [(''shell'', Str ''/bin/false'')]\<rparr>])]"

definition sample_history :: db where
  "sample_history = run_ops (batch_exec tail_digest (\<lambda>_. Fin 1)) sample_commits batch_start"

lemma sample_commits_ok: "list_all batch_op_ok sample_commits"
  by (simp add: sample_commits_def batch_op_ok_def)

lemma sample_history_rows:
  "map fr_factSeq (db_facts sample_history) = [1, 2] \<and> length (db_objects sample_history) = 1
   \<and> map is_open (db_versions sample_history) = [False, True]
   \<and> map fact_scope (db_facts sample_history) = map version_scope (db_versions sample_history)"
  by code_simp

theorem batch_commits_together_witness:
  "\<exists>b s'. commitFactBatch tail_digest (\<lambda>_. Fin 1) (sample_batch [sample_observation]) batch_start = (Inr b, s')
     \<and> map fr_factSeq (pb_facts b) = [1] \<and> db_facts s' = pb_facts b
     \<and> (\<exists>ev. db_events s' = [ev] \<and> ie_sourceBatchRef ev = Some (pb_batchId b))"
proof -
  let ?run = "commitFactBatch tail_digest (\<lambda>_. Fin 1) (sample_batch [sample_observation]) batch_start"
  have "case fst ?run of Inl _ \<Rightarrow> False | Inr _ \<Rightarrow> True" by code_simp
  then obtain b s' where run: "?run = (Inr b, s')" by (cases "?run") (auto split: sum.splits)
  have start: "db_facts batch_start = []" "db_events batch_start = []"
    by (simp_all add: batch_start_def empty_defs)
  have "length (fi_observations (sample_batch [sample_observation])) = 1" by (simp add: sample_batch_def)
  with batch_commits_together [OF run] show ?thesis
    unfolding run by (auto simp: start Let_def max_nat_def)
qed

section \<open>Properties of runs\<close>

text \<open>
  C15. Whatever batches and derived edges are committed or refused, an entity has no current
  version before the first fact about it and exactly one afterwards, and that one carries the
  payload digest of the last fact about the entity: a new observation closes the version it
  contradicts and an unchanged one does not open another.
\<close>

theorem current_version_is_latest_fact:
  fixes k :: "id \<times> id \<times> id"
  assumes "list_all batch_op_ok ops" and "batch_inv s0" and "s = run_ops (batch_exec digest parse) ops s0"
  defines "facts \<equiv> filter (\<lambda>f. fact_scope f = k) (db_facts s)"
  shows "if facts = [] then open_versions k s = []
    else \<exists>v. open_versions k s = [v] \<and> vn_contentDigest v = Some (fr_payloadDigest (last facts))"
proof -
  have "batch_inv s" unfolding assms(3) by (rule batches.run_keeps [OF assms(1,2)])
  then have "map vn_contentDigest (open_versions k s) = contents_of k (db_facts s)"
    unfolding batch_inv_def versions_current_def by blast
  then show ?thesis by (auto simp: contents_of_def facts_def Let_def)
qed

theorem current_version_is_latest_fact_witness:
  "\<exists>f g v. db_facts sample_history = [f, g] \<and> open_versions (fact_scope g) sample_history = [v]
     \<and> vn_contentDigest v = Some (fr_payloadDigest g)"
proof -
  have "case db_facts sample_history of [f, g] \<Rightarrow> fact_scope f = fact_scope g | _ \<Rightarrow> False" by code_simp
  then obtain f g where "db_facts sample_history = [f, g]" "fact_scope f = fact_scope g"
    by (auto split: list.splits)
  with current_version_is_latest_fact [OF sample_commits_ok batch_start_inv sample_history_def, of "fact_scope g"]
  show ?thesis by auto
qed



end
