(* ===== verification/JsSort.thy ===== *)
theory JsSort
  imports JsValue
begin

text \<open>
  \<open>xs.sort(cmp)\<close>: the stable sort by a comparison function, and the comparison functions the
  code builds from \<open>localeCompare\<close> and differences. The collation itself, which depends on the
  locale of the host, is a parameter of the definitions that use it.
\<close>

type_synonym 'a comparison = "'a \<Rightarrow> 'a \<Rightarrow> rat"

fun place :: "'a comparison \<Rightarrow> 'a \<Rightarrow> 'a list \<Rightarrow> 'a list" where
  "place cmp x [] = [x]"
| "place cmp x (y # ys) = (if cmp x y \<le> 0 then x # y # ys else y # place cmp x ys)"

definition js_sort :: "'a comparison \<Rightarrow> 'a list \<Rightarrow> 'a list" where
  "js_sort cmp xs = foldr (place cmp) xs []"

lemma js_sort_simps [simp]:
  "js_sort cmp [] = []" "js_sort cmp (x # xs) = place cmp x (js_sort cmp xs)"
  by (simp_all add: js_sort_def)

lemma set_place [simp]: "set (place cmp x xs) = insert x (set xs)"
  by (induction xs) auto

lemma set_js_sort [simp]: "set (js_sort cmp xs) = set xs"
  by (induction xs) simp_all

lemma length_place [simp]: "length (place cmp x xs) = Suc (length xs)"
  by (induction xs) simp_all

lemma length_js_sort [simp]: "length (js_sort cmp xs) = length xs"
  by (induction xs) simp_all

lemma js_sort_Nil_iff [simp]: "js_sort cmp xs = [] \<longleftrightarrow> xs = []"
  by (metis length_0_conv length_js_sort)

lemma distinct_place: "distinct (place cmp x xs) \<longleftrightarrow> x \<notin> set xs \<and> distinct xs"
  by (induction xs) auto

lemma distinct_js_sort [simp]: "distinct (js_sort cmp xs) = distinct xs"
  by (induction xs) (simp_all add: distinct_place)

lemma distinct_map_place: "distinct (map f (place cmp x xs)) \<longleftrightarrow> f x \<notin> f ` set xs \<and> distinct (map f xs)"
  by (induction xs) auto

lemma distinct_map_js_sort [simp]: "distinct (map f (js_sort cmp xs)) = distinct (map f xs)"
  by (induction xs) (simp_all add: distinct_map_place)

text \<open>A comparison function the sort can rely on: total, and transitive.\<close>

definition consistent :: "'a comparison \<Rightarrow> bool" where
  "consistent cmp \<longleftrightarrow> (\<forall>x y. cmp x y \<le> 0 \<or> cmp y x \<le> 0)
     \<and> (\<forall>x y z. cmp x y \<le> 0 \<longrightarrow> cmp y z \<le> 0 \<longrightarrow> cmp x z \<le> 0)"

lemma sorted_place:
  assumes "consistent cmp" and "sorted_wrt (\<lambda>x y. cmp x y \<le> 0) xs"
  shows "sorted_wrt (\<lambda>x y. cmp x y \<le> 0) (place cmp x xs)"
  using assms(2)
proof (induction xs)
  case (Cons y ys)
  show ?case
  proof (cases "cmp x y \<le> 0")
    case True
    with Cons.prems assms(1) show ?thesis by (auto simp: consistent_def)
  next
    case False
    with assms(1) have "cmp y x \<le> 0" by (auto simp: consistent_def)
    with False Cons show ?thesis by simp
  qed
qed simp

lemma sorted_js_sort: "consistent cmp \<Longrightarrow> sorted_wrt (\<lambda>x y. cmp x y \<le> 0) (js_sort cmp xs)"
  by (induction xs) (simp_all add: sorted_place)

text \<open>A list that is in order stays as it is.\<close>

lemma js_sort_sorted: "sorted_wrt (\<lambda>x y. cmp x y \<le> 0) xs \<Longrightarrow> js_sort cmp xs = xs"
proof (induction xs)
  case (Cons x xs)
  then have "js_sort cmp xs = xs" by simp
  with Cons.prems show ?case by (cases xs) simp_all
qed simp

text \<open>\<open>first || second\<close>.\<close>

definition then_by :: "rat \<Rightarrow> rat \<Rightarrow> rat" where
  "then_by a b = (if a \<noteq> 0 then a else b)"

text \<open>Sorting renamed rows, and sorting by a difference of numbers.\<close>

lemma place_map: "place cmp (g x) (map g xs) = map g (place (\<lambda>x y. cmp (g x) (g y)) x xs)"
  by (induction xs) simp_all

lemma js_sort_map: "js_sort cmp (map g xs) = map g (js_sort (\<lambda>x y. cmp (g x) (g y)) xs)"
  by (induction xs) (simp_all add: place_map)

lemma js_sort_difference:
  "js_sort (\<lambda>l r. of_nat (f l) - of_nat (f r) :: rat) xs = sort_key f xs"
proof -
  have "place (\<lambda>l r. of_nat (f l) - of_nat (f r) :: rat) x ys = insort_key f x ys" for x ys
    by (induction ys) simp_all
  then show ?thesis by (induction xs) simp_all
qed

end
