(* ===== verification/Projection.thy ===== *)
theory Projection
  imports FactStore Capability JsSort
begin

text \<open>
  \<open>src/assessments/projection.ts\<close>: the effective conclusions of an epoch, computed from the
  immutable ledger of assessments and the explicit relations between them. \<open>collate\<close> is
  \<open>localeCompare\<close>, \<open>parse\<close> is \<open>Date.parse\<close>. A \<open>Set\<close> is the list of its elements and a \<open>Map\<close> the
  list of its entries, in insertion order.
\<close>

section \<open>Keys and conclusions\<close>

datatype effective_conclusion = Verdict assessment_verdict | CONFLICT

record effective_projection =
  ef_projectionKey :: string
  ef_category :: check_category
  ef_scope :: assessment_scope
  ef_subjectRef :: "id option"
  ef_conclusion :: effective_conclusion
  ef_effectiveAssessmentIds :: "id list"
  ef_supersededAssessmentIds :: "id list"
  ef_conflictAssessmentIds :: "id list"
  ef_ignoredRelationIds :: "id list"

fun risk_rank :: "assessment_verdict \<Rightarrow> nat option" where
  "risk_rank SUSPICIOUS = Some 1"
| "risk_rank HIGHLY_SUSPICIOUS = Some 2"
| "risk_rank CONFIRMED_MALICIOUS = Some 3"
| "risk_rank _ = None"

fun author_authority :: "author_type \<Rightarrow> nat" where
  "author_authority AU_RULE = 1"
| "author_authority AU_MODEL = 2"
| "author_authority AU_SYSTEM = 3"
| "author_authority AU_HUMAN = 4"

fun scope_name :: "assessment_scope \<Rightarrow> string" where
  "scope_name SC_SUBJECT = ''SUBJECT''"
| "scope_name SC_OBSERVED_CATEGORY = ''OBSERVED_CATEGORY''"

definition keyOf :: "assessment \<Rightarrow> string" where
  "keyOf a = category_name (as_category a) @ ''::'' @ scope_name (as_scope a) @ ''::''
     @ option_or (as_subjectRef a) ''OBSERVED_CATEGORY''"

definition sameProjection :: "assessment \<Rightarrow> assessment \<Rightarrow> bool" where
  "sameProjection a b \<longleftrightarrow> keyOf a = keyOf b \<and> as_taskId a = as_taskId b \<and> as_epochId a = as_epochId b"

definition is_risk :: "assessment \<Rightarrow> bool" where
  "is_risk a \<longleftrightarrow> risk_rank (as_verdict a) \<noteq> None"

definition is_clearance :: "assessment \<Rightarrow> bool" where
  "is_clearance a \<longleftrightarrow> as_verdict a = BENIGN \<or> as_verdict a = NO_OBSERVED_FINDING"

definition rank_of :: "assessment_verdict \<Rightarrow> nat" where
  "rank_of v = option_or (risk_rank v) 0"

definition worse :: "assessment_verdict \<Rightarrow> assessment \<Rightarrow> assessment_verdict" where
  "worse best a = (if rank_of best < rank_of (as_verdict a) then as_verdict a else best)"

definition resolveConclusion :: "assessment list \<Rightarrow> effective_conclusion \<times> id list" where
  "resolveConclusion active = (let risks = filter is_risk active; clearances = filter is_clearance active in
     if risks \<noteq> [] \<and> clearances \<noteq> [] then (CONFLICT, sort (map as_assessmentId (risks @ clearances)))
     else if risks \<noteq> [] then (Verdict (foldl worse (as_verdict (hd risks)) risks), [])
     else if list_ex (\<lambda>a. as_verdict a = BENIGN) active then (Verdict BENIGN, [])
     else if list_ex (\<lambda>a. as_verdict a = NO_OBSERVED_FINDING) active then (Verdict NO_OBSERVED_FINDING, [])
     else (Verdict INCONCLUSIVE, []))"

section \<open>The replacement relation\<close>

type_synonym replacements = "(id \<times> id list) list"

definition targets :: "replacements \<Rightarrow> id \<Rightarrow> id list" where
  "targets repl x = option_or (map_of repl x) []"

definition set_add :: "'a \<Rightarrow> 'a list \<Rightarrow> 'a list" where
  "set_add x xs = (if x \<in> set xs then xs else xs @ [x])"

text \<open>\<open>const targets = m.get(k) ?? new Set(); targets.add(x); m.set(k, targets)\<close>.\<close>

fun map_add_to :: "'k \<Rightarrow> 'a \<Rightarrow> ('k \<times> 'a list) list \<Rightarrow> ('k \<times> 'a list) list" where
  "map_add_to k x [] = [(k, [x])]"
| "map_add_to k x ((j, ys) # m) = (if j = k then (j, set_add x ys) # m else (j, ys) # map_add_to k x m)"

text \<open>
  \<open>reaches\<close>: a depth-first search. \<open>pending\<close> is the stack, its top first: \<open>push(...xs)\<close> and
  \<open>pop()\<close> take the last element first.
\<close>

lemma targets_outside: "x \<notin> fst ` set repl \<Longrightarrow> targets repl x = []"
  by (simp add: targets_def map_of_eq_None_iff [THEN iffD2])

function reaches_from :: "replacements \<Rightarrow> id \<Rightarrow> id list \<Rightarrow> id list \<Rightarrow> bool" where
  "reaches_from repl goal [] seen = False"
| "reaches_from repl goal (c # pending) seen =
     (if c = goal then True
      else if c \<in> set seen then reaches_from repl goal pending seen
      else reaches_from repl goal (rev (targets repl c) @ pending) (c # seen))"
  by pat_completeness auto
termination
proof (relation "measures [\<lambda>(repl, _, _, seen). card (fst ` set repl - set seen), \<lambda>(_, _, pending, _). length pending]",
    goal_cases)
  case (3 repl goal c pending seen)
  have "fst ` set repl - set (c # seen) \<subseteq> fst ` set repl - set seen" by auto
  then have "card (fst ` set repl - set (c # seen)) \<le> card (fst ` set repl - set seen)"
    by (intro card_mono) auto
  moreover have "card (fst ` set repl - set (c # seen)) < card (fst ` set repl - set seen)" if "c \<in> fst ` set repl"
    using that 3 by (intro psubset_card_mono) auto
  ultimately show ?case by (cases "c \<in> fst ` set repl") (auto simp: targets_outside)
qed auto

definition reaches :: "replacements \<Rightarrow> id \<Rightarrow> id \<Rightarrow> bool" where
  "reaches repl start goal = reaches_from repl goal [start] []"

definition replaces :: "replacements \<Rightarrow> (id \<times> id) set" where
  "replaces repl = {(x, y). y \<in> set (targets repl x)}"

lemma path_leaves:
  assumes "(x, goal) \<in> R\<^sup>*" and "x \<in> S" and "goal \<notin> S" and "R `` S \<subseteq> S \<union> P"
  shows "\<exists>p\<in>P - S. (p, goal) \<in> R\<^sup>*"
  using assms(1,2)
proof (induction rule: converse_rtrancl_induct)
  case base
  with assms(3) show ?case by blast
next
  case (step y z)
  from step.hyps(1) step.prems assms(4) have "z \<in> S \<union> P" by blast
  with step show ?case by blast
qed

lemma reaches_from_iff:
  "replaces repl `` set seen \<subseteq> set seen \<union> set pending \<Longrightarrow> goal \<notin> set seen \<Longrightarrow>
   reaches_from repl goal pending seen \<longleftrightarrow> (\<exists>p\<in>set pending. (p, goal) \<in> (replaces repl)\<^sup>*)"
proof (induction repl goal pending seen rule: reaches_from.induct)
  case (2 repl goal c pending seen)
  let ?R = "replaces repl"
  consider "c = goal" | "c \<noteq> goal" "c \<in> set seen" | "c \<noteq> goal" "c \<notin> set seen" by blast
  then show ?case
  proof cases
    case 1
    then show ?thesis by auto
  next
    case 2
    then have closed: "?R `` set seen \<subseteq> set seen \<union> set pending" using "2.prems"(1) by auto
    have "\<exists>p\<in>set pending. (p, goal) \<in> ?R\<^sup>*" if "(c, goal) \<in> ?R\<^sup>*"
      using path_leaves [OF that 2(2) "2.prems"(2) closed] by blast
    with 2 "2.IH"(1) [OF _ _ closed "2.prems"(2)] show ?thesis by auto
  next
    case 3
    have next_c: "set (targets repl c) = ?R `` {c}" by (auto simp: replaces_def)
    then have "?R `` set (c # seen) \<subseteq> set (c # seen) \<union> set (rev (targets repl c) @ pending)"
      using "2.prems"(1) by auto
    with 3 "2.prems"(2) have IH: "reaches_from repl goal (rev (targets repl c) @ pending) (c # seen)
        \<longleftrightarrow> (\<exists>p\<in>set (rev (targets repl c) @ pending). (p, goal) \<in> ?R\<^sup>*)"
      by (intro "2.IH"(2)) auto
    have "(c, goal) \<in> ?R\<^sup>* \<longleftrightarrow> (\<exists>p\<in>set (targets repl c). (p, goal) \<in> ?R\<^sup>*)"
      unfolding next_c using 3(1) by (auto elim: converse_rtranclE intro: converse_rtrancl_into_rtrancl)
    with 3 IH show ?thesis by auto
  qed
qed simp

lemma reaches_iff: "reaches repl start goal \<longleftrightarrow> (start, goal) \<in> (replaces repl)\<^sup>*"
  using reaches_from_iff [of repl "[]" "[start]" goal] by (simp add: reaches_def del: reaches_from.simps)

section \<open>The ledger\<close>

record ledger_state =
  lg_superseded :: "id list"
  lg_ignored :: "(string \<times> id list) list"
  lg_replacements :: replacements

text \<open>\<open>new Map(assessments.map((item) => [item.assessmentId, item]))\<close>: the last one wins.\<close>

definition by_id :: "assessment list \<Rightarrow> id \<Rightarrow> assessment option" where
  "by_id assessments x = List.find (\<lambda>a. as_assessmentId a = x) (rev assessments)"

definition ignore_for :: "id \<Rightarrow> assessment option \<Rightarrow> (string \<times> id list) list \<Rightarrow> (string \<times> id list) list" where
  "ignore_for rid a ignored = (case a of None \<Rightarrow> ignored | Some x \<Rightarrow> map_add_to (keyOf x) rid ignored)"

definition relation_effective ::
  "(string \<Rightarrow> jsnum) \<Rightarrow> replacements \<Rightarrow> assessment_relation \<Rightarrow> assessment \<Rightarrow> assessment \<Rightarrow> bool" where
  "relation_effective parse repl r a b \<longleftrightarrow>
     (let relation_time = parse (ar_createdAt r); from_time = parse (as_createdAt a); to_time = parse (as_createdAt b) in
      as_assessmentId a \<noteq> as_assessmentId b \<and> sameProjection a b
      \<and> ar_taskId r = as_taskId a \<and> ar_epochId r = as_epochId a
      \<and> is_finite_number (Num relation_time) \<and> is_finite_number (Num from_time) \<and> is_finite_number (Num to_time)
      \<and> \<not> num_lt from_time to_time \<and> \<not> num_lt relation_time from_time
      \<and> author_authority (as_authorType b) \<le> author_authority (as_authorType a)
      \<and> \<not> reaches repl (as_assessmentId b) (as_assessmentId a))"

definition apply_relation ::
  "(string \<Rightarrow> jsnum) \<Rightarrow> assessment list \<Rightarrow> ledger_state \<Rightarrow> assessment_relation \<Rightarrow> ledger_state" where
  "apply_relation parse assessments st r =
     (if ar_kind r \<noteq> ADJUDICATES \<and> ar_kind r \<noteq> SUPERSEDES then st
      else let source = by_id assessments (ar_fromAssessmentId r);
               dest = by_id assessments (ar_toAssessmentId r) in
        if case (source, dest) of (Some a, Some b) \<Rightarrow> relation_effective parse (lg_replacements st) r a b | _ \<Rightarrow> False
        then st\<lparr>lg_replacements := map_add_to (ar_fromAssessmentId r) (ar_toAssessmentId r) (lg_replacements st),
                lg_superseded := set_add (ar_toAssessmentId r) (lg_superseded st)\<rparr>
        else st\<lparr>lg_ignored := ignore_for (ar_relationId r) dest
                  (ignore_for (ar_relationId r) source (lg_ignored st))\<rparr>)"

definition empty_ledger :: ledger_state where
  "empty_ledger = \<lparr>lg_superseded = [], lg_ignored = [], lg_replacements = []\<rparr>"

definition relation_order :: "(string \<Rightarrow> string \<Rightarrow> rat) \<Rightarrow> assessment_relation comparison" where
  "relation_order collate r q =
     then_by (collate (ar_createdAt r) (ar_createdAt q)) (collate (ar_relationId r) (ar_relationId q))"

definition assessment_order :: "(string \<Rightarrow> string \<Rightarrow> rat) \<Rightarrow> assessment comparison" where
  "assessment_order collate a b =
     then_by (collate (as_createdAt a) (as_createdAt b)) (collate (as_assessmentId a) (as_assessmentId b))"

definition apply_relations ::
  "(string \<Rightarrow> string \<Rightarrow> rat) \<Rightarrow> (string \<Rightarrow> jsnum) \<Rightarrow> assessment list \<Rightarrow> assessment_relation list \<Rightarrow> ledger_state" where
  "apply_relations collate parse assessments relations =
     foldl (apply_relation parse assessments) empty_ledger (js_sort (relation_order collate) relations)"

section \<open>The projection\<close>

definition group_of :: "string \<Rightarrow> assessment list \<Rightarrow> assessment list" where
  "group_of k assessments = filter (\<lambda>a. keyOf a = k) assessments"

definition effective_of :: "id list \<Rightarrow> assessment list \<Rightarrow> assessment list" where
  "effective_of superseded ordered = (let active = filter (\<lambda>a. as_assessmentId a \<notin> set superseded) ordered in
     if active \<noteq> [] then active else [last ordered])"

definition project_group ::
  "(string \<Rightarrow> string \<Rightarrow> rat) \<Rightarrow> ledger_state \<Rightarrow> string \<Rightarrow> assessment list \<Rightarrow> effective_projection" where
  "project_group collate st k assessments =
     (let ordered = js_sort (assessment_order collate) assessments;
          effective = effective_of (lg_superseded st) ordered;
          resolved = resolveConclusion effective in
      \<lparr>ef_projectionKey = k, ef_category = as_category (hd ordered), ef_scope = as_scope (hd ordered),
       ef_subjectRef = nonempty (as_subjectRef (hd ordered)), ef_conclusion = fst resolved,
       ef_effectiveAssessmentIds = map as_assessmentId effective,
       ef_supersededAssessmentIds = map as_assessmentId
         (filter (\<lambda>a. as_assessmentId a \<in> set (lg_superseded st)) ordered),
       ef_conflictAssessmentIds = snd resolved,
       ef_ignoredRelationIds = sort (option_or (map_of (lg_ignored st) k) [])\<rparr>)"

definition projectEffectiveAssessments ::
  "(string \<Rightarrow> string \<Rightarrow> rat) \<Rightarrow> (string \<Rightarrow> jsnum) \<Rightarrow> assessment list \<Rightarrow> assessment_relation list \<Rightarrow>
   effective_projection list" where
  "projectEffectiveAssessments collate parse assessments relations =
     (let st = apply_relations collate parse assessments relations in
      js_sort (\<lambda>p q. collate (ef_projectionKey p) (ef_projectionKey q))
        (map (\<lambda>k. project_group collate st k (group_of k assessments)) (unique (map keyOf assessments))))"

section \<open>What the relations do\<close>

definition not_older :: "(string \<Rightarrow> jsnum) \<Rightarrow> assessment \<Rightarrow> assessment \<Rightarrow> bool" where
  "not_older parse a b \<longleftrightarrow>
     (\<exists>ta tb. parse (as_createdAt a) = Fin ta \<and> parse (as_createdAt b) = Fin tb \<and> tb \<le> ta)"

lemma relation_effective_not_older:
  "relation_effective parse repl r a b \<Longrightarrow> not_older parse a b"
  unfolding relation_effective_def Let_def not_older_def
  by (cases "parse (as_createdAt a)"; cases "parse (as_createdAt b)") (simp_all add: not_less)

definition ledger_edge ::
  "(string \<Rightarrow> jsnum) \<Rightarrow> assessment list \<Rightarrow> assessment_relation list \<Rightarrow> id \<Rightarrow> id \<Rightarrow> bool" where
  "ledger_edge parse assessments relations x y \<longleftrightarrow>
     (\<exists>r\<in>set relations. \<exists>a\<in>set assessments. \<exists>b\<in>set assessments. ar_kind r \<in> {ADJUDICATES, SUPERSEDES}
        \<and> ar_fromAssessmentId r = x \<and> ar_toAssessmentId r = y \<and> as_assessmentId a = x \<and> as_assessmentId b = y
        \<and> sameProjection a b \<and> author_authority (as_authorType b) \<le> author_authority (as_authorType a)
        \<and> not_older parse a b)"

definition ledger_ok ::
  "(string \<Rightarrow> jsnum) \<Rightarrow> assessment list \<Rightarrow> assessment_relation list \<Rightarrow> ledger_state \<Rightarrow> bool" where
  "ledger_ok parse assessments relations st \<longleftrightarrow> acyclic (replaces (lg_replacements st))
     \<and> set (lg_superseded st) = Range (replaces (lg_replacements st))
     \<and> (\<forall>x y. (x, y) \<in> replaces (lg_replacements st) \<longrightarrow> ledger_edge parse assessments relations x y)"

lemma set_set_add [simp]: "set (set_add x xs) = insert x (set xs)"
  by (auto simp: set_add_def)

lemma map_of_map_add_to:
  "map_of (map_add_to k x m) j = (if j = k then Some (set_add x (option_or (map_of m k) [])) else map_of m j)"
proof (induction m)
  case (Cons e m)
  then show ?case by (cases e; cases "j = k") (auto simp: set_add_def)
qed (simp add: set_add_def)

lemma targets_map_add_to:
  "set (targets (map_add_to k x m) j) = (if j = k then insert x (set (targets m k)) else set (targets m j))"
  by (simp add: targets_def map_of_map_add_to)

lemma replaces_map_add_to: "replaces (map_add_to x y repl) = insert (x, y) (replaces repl)"
  by (auto simp: replaces_def targets_map_add_to split: if_splits)

lemma by_id_SomeD: "by_id assessments x = Some a \<Longrightarrow> a \<in> set assessments \<and> as_assessmentId a = x"
  unfolding by_id_def by (auto dest: find_SomeD)

lemma apply_relation_ok:
  assumes "ledger_ok parse assessments relations st" and "r \<in> set relations"
  shows "ledger_ok parse assessments relations (apply_relation parse assessments st r)"
proof (cases "ar_kind r \<in> {ADJUDICATES, SUPERSEDES} \<and> (\<exists>a b. by_id assessments (ar_fromAssessmentId r) = Some a
    \<and> by_id assessments (ar_toAssessmentId r) = Some b \<and> relation_effective parse (lg_replacements st) r a b)")
  case True
  then obtain a b where kind: "ar_kind r \<in> {ADJUDICATES, SUPERSEDES}"
    and ab: "by_id assessments (ar_fromAssessmentId r) = Some a" "by_id assessments (ar_toAssessmentId r) = Some b"
    and eff: "relation_effective parse (lg_replacements st) r a b" by blast
  note a = by_id_SomeD [OF ab(1)] and b = by_id_SomeD [OF ab(2)]
  have st': "apply_relation parse assessments st r =
      st\<lparr>lg_replacements := map_add_to (ar_fromAssessmentId r) (ar_toAssessmentId r) (lg_replacements st),
         lg_superseded := set_add (ar_toAssessmentId r) (lg_superseded st)\<rparr>"
    using kind ab eff by (auto simp: apply_relation_def)
  have "(ar_toAssessmentId r, ar_fromAssessmentId r) \<notin> (replaces (lg_replacements st))\<^sup>*"
    using eff a b by (simp add: relation_effective_def reaches_iff Let_def)
  moreover have "ledger_edge parse assessments relations (ar_fromAssessmentId r) (ar_toAssessmentId r)"
    unfolding ledger_edge_def using assms(2) kind a b eff relation_effective_not_older [OF eff]
    by (auto simp: relation_effective_def Let_def)
  ultimately show ?thesis using assms(1)
    by (auto simp: st' ledger_ok_def replaces_map_add_to)
next
  case False
  then have "lg_replacements (apply_relation parse assessments st r) = lg_replacements st"
    "lg_superseded (apply_relation parse assessments st r) = lg_superseded st"
    by (auto simp: apply_relation_def Let_def split: option.splits)
  with assms(1) show ?thesis by (simp add: ledger_ok_def)
qed

lemma apply_relations_ok: "ledger_ok parse assessments relations (apply_relations collate parse assessments relations)"
proof -
  have "ledger_ok parse assessments relations (foldl (apply_relation parse assessments) st rs)"
    if "set rs \<subseteq> set relations" "ledger_ok parse assessments relations st" for rs st
    using that by (induction rs arbitrary: st) (auto simp: apply_relation_ok)
  moreover have "ledger_ok parse assessments relations empty_ledger"
    by (simp add: ledger_ok_def empty_ledger_def replaces_def targets_def acyclic_def)
  ultimately show ?thesis by (simp add: apply_relations_def)
qed

lemma effective_replacement:
  assumes ok: "ledger_ok parse assessments relations st" and ids: "distinct (map as_assessmentId assessments)"
    and "b \<in> set assessments" and "as_assessmentId b \<in> set (lg_superseded st)"
  shows "\<exists>a\<in>set assessments. as_assessmentId a \<notin> set (lg_superseded st) \<and> keyOf a = keyOf b
    \<and> author_authority (as_authorType b) \<le> author_authority (as_authorType a) \<and> not_older parse a b"
proof -
  let ?R = "replaces (lg_replacements st)" and ?id = "as_assessmentId"
  have edges: "\<exists>a\<in>set assessments. \<exists>b\<in>set assessments. ?id a = x \<and> ?id b = y \<and> sameProjection a b
      \<and> author_authority (as_authorType b) \<le> author_authority (as_authorType a) \<and> not_older parse a b"
    if "(x, y) \<in> ?R" for x y
    using ok that unfolding ledger_ok_def ledger_edge_def by blast
  have "?R \<subseteq> ?id ` set assessments \<times> ?id ` set assessments"
  proof (rule subrelI)
    fix x y assume "(x, y) \<in> ?R"
    from edges [OF this] show "(x, y) \<in> ?id ` set assessments \<times> ?id ` set assessments" by auto
  qed
  then have "finite ?R" by (rule finite_subset) simp
  with ok have wf: "wf ?R" by (simp add: ledger_ok_def finite_acyclic_wf)
  have inj: "a = b" if "a \<in> set assessments" "b \<in> set assessments" "?id a = ?id b" for a b
    using ids that by (auto simp: distinct_map inj_on_def)
  have "?id b = y \<longrightarrow> b \<in> set assessments \<longrightarrow> y \<in> set (lg_superseded st) \<longrightarrow>
      (\<exists>a\<in>set assessments. ?id a \<notin> set (lg_superseded st) \<and> keyOf a = keyOf b
        \<and> author_authority (as_authorType b) \<le> author_authority (as_authorType a) \<and> not_older parse a b)" for y
  proof (induction y arbitrary: b rule: wf_induct_rule [OF wf])
    case (1 y)
    show ?case
    proof (intro impI)
      assume y: "?id b = y" "b \<in> set assessments" "y \<in> set (lg_superseded st)"
      with ok obtain x where x: "(x, y) \<in> ?R" by (auto simp: ledger_ok_def)
      from edges [OF x] y inj obtain a where a: "a \<in> set assessments" "?id a = x" "sameProjection a b"
        "author_authority (as_authorType b) \<le> author_authority (as_authorType a)" "not_older parse a b" by metis
      show "\<exists>a\<in>set assessments. ?id a \<notin> set (lg_superseded st) \<and> keyOf a = keyOf b
        \<and> author_authority (as_authorType b) \<le> author_authority (as_authorType a) \<and> not_older parse a b"
      proof (cases "x \<in> set (lg_superseded st)")
        case True
        from "1.IH" [OF x, of a] a True obtain c where "c \<in> set assessments" "?id c \<notin> set (lg_superseded st)"
          "keyOf c = keyOf a" "author_authority (as_authorType a) \<le> author_authority (as_authorType c)"
          "not_older parse c a" by blast
        moreover from this(5) a(5) have "not_older parse c b" by (auto simp: not_older_def)
        ultimately show ?thesis using a by (auto simp: sameProjection_def intro: order_trans)
      next
        case False
        with a show ?thesis by (auto simp: sameProjection_def)
      qed
    qed
  qed
  with assms(3,4) show ?thesis by blast
qed

text \<open>The rows of a group, and the ones in effect. The last resort of the code is never needed.\<close>

lemma project_group_ids:
  fixes collate :: "string \<Rightarrow> string \<Rightarrow> rat"
  assumes ok: "ledger_ok parse assessments relations st" and ids: "distinct (map as_assessmentId assessments)"
    and k: "k \<in> keyOf ` set assessments"
  defines "p \<equiv> project_group collate st k (group_of k assessments)"
  shows "set (effective_of (lg_superseded st) (js_sort (assessment_order collate) (group_of k assessments)))
      = {a \<in> set assessments. keyOf a = k \<and> as_assessmentId a \<notin> set (lg_superseded st)}"
    and "set (ef_effectiveAssessmentIds p) = as_assessmentId ` {a \<in> set assessments. keyOf a = k
      \<and> as_assessmentId a \<notin> set (lg_superseded st)}"
    and "set (ef_supersededAssessmentIds p) = as_assessmentId ` {a \<in> set assessments. keyOf a = k
      \<and> as_assessmentId a \<in> set (lg_superseded st)}"
proof -
  let ?E = "{a \<in> set assessments. keyOf a = k \<and> as_assessmentId a \<notin> set (lg_superseded st)}"
  from k obtain b where b: "b \<in> set assessments" "keyOf b = k" by blast
  have "?E \<noteq> {}"
  proof (cases "as_assessmentId b \<in> set (lg_superseded st)")
    case True
    from effective_replacement [OF ok ids b(1) True] b(2) show ?thesis by auto
  qed (use b in auto)
  then have "filter (\<lambda>a. as_assessmentId a \<notin> set (lg_superseded st))
      (js_sort (assessment_order collate) (group_of k assessments)) \<noteq> []"
    by (auto simp: filter_empty_conv group_of_def)
  then show E: "set (effective_of (lg_superseded st) (js_sort (assessment_order collate) (group_of k assessments))) = ?E"
    by (auto simp: effective_of_def Let_def group_of_def)
  then show "set (ef_effectiveAssessmentIds p) = as_assessmentId ` ?E"
    by (simp add: p_def project_group_def Let_def)
  show "set (ef_supersededAssessmentIds p) = as_assessmentId ` {a \<in> set assessments. keyOf a = k
      \<and> as_assessmentId a \<in> set (lg_superseded st)}"
    by (auto simp: p_def project_group_def Let_def group_of_def)
qed

lemma projection_member:
  assumes "p \<in> set (projectEffectiveAssessments collate parse assessments relations)"
  shows "ef_projectionKey p \<in> keyOf ` set assessments
    \<and> p = project_group collate (apply_relations collate parse assessments relations) (ef_projectionKey p)
          (group_of (ef_projectionKey p) assessments)"
  using assms by (auto simp: projectEffectiveAssessments_def Let_def project_group_def)

lemma foldl_worse:
  "foldl worse v as = v \<or> (\<exists>a\<in>set as. foldl worse v as = as_verdict a)"
  "rank_of v \<le> rank_of (foldl worse v as) \<and> (\<forall>a\<in>set as. rank_of (as_verdict a) \<le> rank_of (foldl worse v as))"
proof -
  show "foldl worse v as = v \<or> (\<exists>a\<in>set as. foldl worse v as = as_verdict a)"
  proof (induction as arbitrary: v)
    case (Cons a as)
    from Cons.IH [of "worse v a"] show ?case by (auto simp: worse_def split: if_splits)
  qed simp
  show "rank_of v \<le> rank_of (foldl worse v as) \<and> (\<forall>a\<in>set as. rank_of (as_verdict a) \<le> rank_of (foldl worse v as))"
  proof (induction as arbitrary: v)
    case (Cons a as)
    from Cons.IH [of "worse v a"] show ?case by (auto simp: worse_def split: if_splits)
  qed simp
qed

section \<open>Properties\<close>

text \<open>
  The search that keeps the replacements free of cycles is exact and always ends: whatever
  the replacements, cyclic ones included, it answers whether the goal can be reached from the
  start by following them.
\<close>

theorem reaches_decides_replacement:
  "reaches repl start goal = ((start, goal) \<in> {(x, y). y \<in> set (targets repl x)}\<^sup>*)"
  by (simp add: reaches_iff replaces_def)


lemma rank_of_risk: "is_risk a \<longleftrightarrow> 0 < rank_of (as_verdict a)"
  by (cases "as_verdict a") (simp_all add: is_risk_def rank_of_def)

lemma rank_of_inj: "risk_rank v \<noteq> None \<Longrightarrow> rank_of v = rank_of w \<Longrightarrow> v = w"
  by (cases v; cases w) (simp_all add: rank_of_def)

lemma resolve_risk:
  assumes "\<exists>a\<in>set E. is_risk a" and "\<not> (\<exists>a\<in>set E. is_clearance a)"
  shows "\<exists>w. fst (resolveConclusion E) = Verdict w \<and> risk_rank w \<noteq> None \<and> (\<exists>a\<in>set E. as_verdict a = w)
    \<and> (\<forall>a\<in>set E. rank_of (as_verdict a) \<le> rank_of w)"
proof -
  let ?risks = "filter is_risk E" and ?w = "foldl worse (as_verdict (hd (filter is_risk E))) (filter is_risk E)"
  from assms have ne: "?risks \<noteq> []" "filter is_clearance E = []" by (auto simp: filter_empty_conv)
  from hd_in_set [OF ne(1)] have hd: "hd ?risks \<in> set E" "is_risk (hd ?risks)"
    unfolding set_filter by blast+
  have "\<exists>a\<in>set E. is_risk a \<and> as_verdict a = ?w"
    using foldl_worse(1) [of "as_verdict (hd ?risks)" ?risks] hd by auto
  moreover have "rank_of (as_verdict a) \<le> rank_of ?w" if "a \<in> set E" for a
    using foldl_worse(2) [of "as_verdict (hd ?risks)" ?risks] that
    by (cases "is_risk a") (auto simp: rank_of_risk)
  ultimately show ?thesis using ne by (auto simp: resolveConclusion_def Let_def is_risk_def)
qed

lemma resolve_cases:
  "fst (resolveConclusion E) = CONFLICT \<longleftrightarrow> (\<exists>a\<in>set E. is_risk a) \<and> (\<exists>a\<in>set E. is_clearance a)"
  "\<not> (\<exists>a\<in>set E. is_risk a) \<Longrightarrow> fst (resolveConclusion E) = Verdict (if \<exists>a\<in>set E. as_verdict a = BENIGN then BENIGN
     else if \<exists>a\<in>set E. as_verdict a = NO_OBSERVED_FINDING then NO_OBSERVED_FINDING else INCONCLUSIVE)"
  by (auto simp: resolveConclusion_def Let_def filter_empty_conv list_ex_iff)

lemma resolve_spec:
  assumes "set E = S"
  defines "c \<equiv> fst (resolveConclusion E)"
  shows "c = CONFLICT \<longleftrightarrow> (\<exists>a\<in>S. is_risk a) \<and> (\<exists>a\<in>S. is_clearance a)"
    and "risk_rank v \<noteq> None \<Longrightarrow> c = Verdict v \<longleftrightarrow> (\<exists>a\<in>S. as_verdict a = v) \<and> \<not> (\<exists>a\<in>S. is_clearance a)
          \<and> (\<forall>a\<in>S. rank_of (as_verdict a) \<le> rank_of v)"
    and "c = Verdict BENIGN \<longleftrightarrow> \<not> (\<exists>a\<in>S. is_risk a) \<and> (\<exists>a\<in>S. as_verdict a = BENIGN)"
    and "c = Verdict NO_OBSERVED_FINDING \<longleftrightarrow> \<not> (\<exists>a\<in>S. is_risk a) \<and> \<not> (\<exists>a\<in>S. as_verdict a = BENIGN)
         \<and> (\<exists>a\<in>S. as_verdict a = NO_OBSERVED_FINDING)"
proof -
  note cases = resolve_cases [of E, folded c_def] and risk = resolve_risk [of E, folded c_def]
  show "c = CONFLICT \<longleftrightarrow> (\<exists>a\<in>S. is_risk a) \<and> (\<exists>a\<in>S. is_clearance a)"
    using cases(1) by (simp add: assms(1))
  have quiet: "risk_rank BENIGN = None" "risk_rank NO_OBSERVED_FINDING = None" "risk_rank INCONCLUSIVE = None" by simp_all
  have risky: "\<exists>w. c = Verdict w \<and> risk_rank w \<noteq> None \<and> (\<exists>a\<in>S. as_verdict a = w) \<and> (\<forall>a\<in>S. rank_of (as_verdict a) \<le> rank_of w)"
    if "\<exists>a\<in>S. is_risk a" "\<not> (\<exists>a\<in>S. is_clearance a)"
    using risk that by (simp add: assms(1))
  have conflict: "c = CONFLICT" if "\<exists>a\<in>S. is_risk a" "\<exists>a\<in>S. is_clearance a"
    using cases(1) that by (simp add: assms(1))
  show "c = Verdict v \<longleftrightarrow> (\<exists>a\<in>S. as_verdict a = v) \<and> \<not> (\<exists>a\<in>S. is_clearance a)
      \<and> (\<forall>a\<in>S. rank_of (as_verdict a) \<le> rank_of v)" if v: "risk_rank v \<noteq> None"
  proof (cases "\<exists>a\<in>S. is_risk a")
    case True
    show ?thesis
    proof (cases "\<exists>a\<in>S. is_clearance a")
      case False
      from risky [OF True False] obtain w where w: "c = Verdict w" "risk_rank w \<noteq> None"
        "\<exists>a\<in>S. as_verdict a = w" "\<forall>a\<in>S. rank_of (as_verdict a) \<le> rank_of w" by blast
      have "w = v" if "\<exists>a\<in>S. as_verdict a = v" "\<forall>a\<in>S. rank_of (as_verdict a) \<le> rank_of v"
        using w that by (intro rank_of_inj antisym) auto
      with w False show ?thesis by auto
    qed (simp add: conflict True)
  next
    case False
    then have "as_verdict a \<noteq> v" if "a \<in> S" for a using that v by (auto simp: is_risk_def)
    moreover from False have "c \<noteq> Verdict v" using v cases(2) by (auto simp: assms(1) quiet)
    ultimately show ?thesis by auto
  qed
  have not_quiet: "c \<noteq> Verdict BENIGN \<and> c \<noteq> Verdict NO_OBSERVED_FINDING" if "\<exists>a\<in>S. is_risk a"
  proof (cases "\<exists>a\<in>S. is_clearance a")
    case True
    with conflict [OF that] show ?thesis by simp
  next
    case False
    from risky [OF that this] obtain w where "c = Verdict w" "risk_rank w \<noteq> None" by blast
    then show ?thesis by auto
  qed
  note no_risk = cases(2) [unfolded assms(1)]
  show "c = Verdict BENIGN \<longleftrightarrow> \<not> (\<exists>a\<in>S. is_risk a) \<and> (\<exists>a\<in>S. as_verdict a = BENIGN)"
  proof (cases "\<exists>a\<in>S. is_risk a")
    case False
    then show ?thesis unfolding no_risk [OF False] by simp
  qed (simp add: not_quiet)
  show "c = Verdict NO_OBSERVED_FINDING \<longleftrightarrow> \<not> (\<exists>a\<in>S. is_risk a) \<and> \<not> (\<exists>a\<in>S. as_verdict a = BENIGN)
         \<and> (\<exists>a\<in>S. as_verdict a = NO_OBSERVED_FINDING)"
  proof (cases "\<exists>a\<in>S. is_risk a")
    case False
    then show ?thesis unfolding no_risk [OF False] by simp
  qed (simp add: not_quiet)
qed

text \<open>
  The conclusion of a projection reflects exactly its assessments in effect: a conflict iff
  both a risk and a clearance are in effect; a risk verdict iff it is in effect, no clearance is,
  and no risk in effect is worse; benign or nothing found only if no risk at all is in effect.
\<close>

theorem conclusion_reflects_effective:
  assumes "distinct (map as_assessmentId assessments)"
    and "p \<in> set (projectEffectiveAssessments collate parse assessments relations)"
  shows "let E = {a \<in> set assessments. keyOf a = ef_projectionKey p
             \<and> as_assessmentId a \<in> set (ef_effectiveAssessmentIds p)}; c = ef_conclusion p in
      (c = CONFLICT \<longleftrightarrow> (\<exists>a\<in>E. is_risk a) \<and> (\<exists>a\<in>E. is_clearance a))
    \<and> (\<forall>v. risk_rank v \<noteq> None \<longrightarrow> (c = Verdict v \<longleftrightarrow> (\<exists>a\<in>E. as_verdict a = v) \<and> \<not> (\<exists>a\<in>E. is_clearance a)
          \<and> (\<forall>a\<in>E. rank_of (as_verdict a) \<le> rank_of v)))
    \<and> (c = Verdict BENIGN \<longleftrightarrow> \<not> (\<exists>a\<in>E. is_risk a) \<and> (\<exists>a\<in>E. as_verdict a = BENIGN))
    \<and> (c = Verdict NO_OBSERVED_FINDING \<longleftrightarrow> \<not> (\<exists>a\<in>E. is_risk a) \<and> \<not> (\<exists>a\<in>E. as_verdict a = BENIGN)
         \<and> (\<exists>a\<in>E. as_verdict a = NO_OBSERVED_FINDING))"
proof -
  let ?st = "apply_relations collate parse assessments relations"
  let ?k = "ef_projectionKey p"
  let ?eff = "effective_of (lg_superseded ?st) (js_sort (assessment_order collate) (group_of ?k assessments))"
  let ?E = "{a \<in> set assessments. keyOf a = ?k \<and> as_assessmentId a \<in> set (ef_effectiveAssessmentIds p)}"
  note ok = apply_relations_ok [of parse assessments relations collate]
  from projection_member [OF assms(2)] have k: "?k \<in> keyOf ` set assessments"
    and p: "p = project_group collate ?st ?k (group_of ?k assessments)" by auto
  note ids = project_group_ids(1,2) [OF ok assms(1) k, of collate, folded p]
  have own: "as_assessmentId b \<in> as_assessmentId ` {a \<in> set assessments. Q a} \<longleftrightarrow> Q b" if "b \<in> set assessments" for Q b
    using assms(1) that by (auto simp: distinct_map inj_on_def)
  have "set ?eff = ?E" unfolding ids using own by auto
  moreover have "ef_conclusion p = fst (resolveConclusion ?eff)"
    by (subst p) (simp add: project_group_def Let_def)
  ultimately show ?thesis using resolve_spec [of ?eff ?E] unfolding Let_def by simp
qed

text \<open>
  The ledger of the witnesses: a rule finds a suspicious file, a human adjudicates it as benign,
  and the relation that would have the rule's finding supersede the human's is ignored.
\<close>

definition sample_assessment :: "id \<Rightarrow> author_type \<Rightarrow> assessment_verdict \<Rightarrow> time \<Rightarrow> assessment" where
  "sample_assessment i author verdict t = \<lparr>as_assessmentId = i, as_taskId = ''T1'', as_epochId = ''E1'',
     as_authorType = author, as_category = Webshell, as_subjectRef = Some ''OBJ-1'', as_scope = SC_SUBJECT,
     as_verdict = verdict, as_severity = HIGH, as_confidence = Fin 1, as_rationale = ''r'',
     as_evidenceRefs = [], as_factRefs = [], as_queryRefs = [], as_createdAt = t\<rparr>"

definition sample_relation :: "id \<Rightarrow> id \<Rightarrow> id \<Rightarrow> assessment_relation" where
  "sample_relation i source dest = \<lparr>ar_relationId = i, ar_taskId = ''T1'', ar_epochId = ''E1'',
     ar_kind = SUPERSEDES, ar_fromAssessmentId = source, ar_toAssessmentId = dest, ar_createdAt = ''ttt''\<rparr>"

definition sample_ledger :: "assessment list" where
  "sample_ledger = [sample_assessment ''rule'' AU_RULE SUSPICIOUS ''t'', sample_assessment ''human'' AU_HUMAN BENIGN ''tt'']"

definition by_string :: "string \<Rightarrow> string \<Rightarrow> rat" where
  "by_string a b = (if a = b then 0 else if a < b then -1 else 1)"

definition clock_length :: "string \<Rightarrow> jsnum" where
  "clock_length t = Fin (of_nat (length t))"

definition sample_projections :: "effective_projection list" where
  "sample_projections = projectEffectiveAssessments by_string clock_length sample_ledger
     [sample_relation ''r1'' ''human'' ''rule'', sample_relation ''r2'' ''rule'' ''human'']"

lemma sample_ledger_distinct: "distinct (map as_assessmentId sample_ledger)"
  by (simp add: sample_ledger_def sample_assessment_def)

lemma sample_projections_rows:
  "\<exists>p. sample_projections = [p] \<and> ef_effectiveAssessmentIds p = [''human'']
     \<and> ef_supersededAssessmentIds p = [''rule''] \<and> ef_ignoredRelationIds p = [''r2'']
     \<and> ef_projectionKey p = keyOf (sample_ledger ! 0)"
proof -
  have "map (\<lambda>p. (ef_effectiveAssessmentIds p, ef_supersededAssessmentIds p, ef_ignoredRelationIds p,
      ef_projectionKey p)) sample_projections = [([''human''], [''rule''], [''r2''], keyOf (sample_ledger ! 0))]"
    by code_simp
  then show ?thesis by auto
qed


theorem conclusion_reflects_effective_witness:
  "\<exists>p\<in>set sample_projections. ef_conclusion p = Verdict BENIGN"
proof -
  from sample_projections_rows obtain p where p: "sample_projections = [p]"
    "ef_effectiveAssessmentIds p = [''human'']" "ef_projectionKey p = keyOf (sample_ledger ! 0)"
    by blast
  have E: "{a \<in> set sample_ledger. keyOf a = ef_projectionKey p \<and> as_assessmentId a \<in> set (ef_effectiveAssessmentIds p)}
      = {sample_ledger ! 1}"
    unfolding p by (auto simp: sample_ledger_def sample_assessment_def keyOf_def)
  have "p \<in> set sample_projections" unfolding p(1) by simp
  from conclusion_reflects_effective [OF sample_ledger_distinct this [unfolded sample_projections_def]]
  show ?thesis unfolding Let_def E
    by (auto simp: p(1) sample_ledger_def sample_assessment_def is_risk_def)
qed

end
