(* ===== verification/Assessments.thy ===== *)
theory Assessments
  imports FactBatch Projection
begin

text \<open>
  \<open>src/assessments/validation.ts\<close> and \<open>RuntimeStore.putAssessment\<close>: what an assessment has to
  show before it enters the ledger, and the projection of a category's safety state.
\<close>

section \<open>The checks\<close>

record assessment_context =
  ax_taskId :: id
  ax_epochId :: id
  ax_refs :: "object_reference list"
  ax_facts :: "fact_record list"
  ax_edges :: "edge_record list"
  ax_relationProvenance :: "relation_provenance list"
  ax_evidence :: "evidence list"
  ax_queryRefs :: "id list"

definition is_count :: "js \<Rightarrow> bool" where
  "is_count v \<longleftrightarrow> is_safe_integer v \<and> 0 \<le> fin_of v"

definition hex_digest :: "string \<Rightarrow> bool" where
  "hex_digest s \<longleftrightarrow> length s = 64 \<and> list_all (\<lambda>c. c \<in> set ''0123456789abcdef'') s"

definition completeEvidenceMetadata :: "evidence \<Rightarrow> bool" where
  "completeEvidenceMetadata e = (let m = ev_metadata e; range = member m ''range'' in
     if \<not> strict_eq (member m ''complete'') (Bool True) \<or> strict_eq (member m ''integrityStatus'') (Str ''FAILED'')
     then False
     else if \<not> is_record range then False
     else if \<not> strict_eq (member range ''start'') (Num (Fin 0)) \<or> \<not> strict_eq (member range ''complete'') (Bool True)
        \<or> \<not> is_count (member range ''length'') then False
     else if \<not> is_safe_integer (member m ''artifactSize'')
        \<or> \<not> strict_eq (member m ''artifactSize'') (member range ''length'') then False
     else if \<not> is_string (member m ''artifactDigest'') \<or> \<not> hex_digest (string_of (member m ''artifactDigest''))
     then False
     else nonempty (ev_sha256 e) = None \<or> ev_sha256 e = Some (string_of (member m ''artifactDigest'')))"

text \<open>The edges that were observed, not derived, between the two objects.\<close>

definition observed_between ::
  "id \<Rightarrow> id \<Rightarrow> edge_record list \<Rightarrow> relation_provenance list \<Rightarrow> edge_record list" where
  "observed_between x y edges prov = filter (\<lambda>e. (eg_fromRef e = x \<and> eg_toRef e = y \<or> eg_toRef e = x \<and> eg_fromRef e = y)
     \<and> list_ex (\<lambda>p. rv_edgeRef p = eg_edgeId e \<and> rv_derivation p = OBSERVED) prov) edges"

definition class_fact_matches :: "js \<Rightarrow> id \<Rightarrow> fact_record \<Rightarrow> bool" where
  "class_fact_matches m subject f \<longleftrightarrow> fr_subjectRef f = subject \<and> fr_namespace f = NS_class
     \<and> strict_eq (get_prop (fr_privatePayload f) ''className'') (member m ''className'')
     \<and> strict_eq (get_prop (fr_privatePayload f) ''loaderId'') (member m ''classLoaderId'')"

definition evidenceSupportsSubject :: "js \<Rightarrow> id option \<Rightarrow> assessment_context \<Rightarrow> bool" where
  "evidenceSupportsSubject m subject ctx = (case nonempty subject of None \<Rightarrow> False | Some ref \<Rightarrow>
     if \<not> is_string (member m ''subjectRef'') then False
     else if string_of (member m ''subjectRef'') = ref then True
     else let observed = observed_between (string_of (member m ''subjectRef'')) ref (ax_edges ctx)
                (ax_relationProvenance ctx) in
       if observed = [] then False
       else if strict_eq (member m ''captureMethod'') (Str ''JVM_RETRANSFORM'')
       then list_ex (\<lambda>e. eg_relation e = ''loads_class'') observed
         \<and> list_ex (class_fact_matches m ref) (ax_facts ctx)
       else False)"

definition complete_evidence :: "assessment \<Rightarrow> assessment_context \<Rightarrow> bool" where
  "complete_evidence a ctx \<longleftrightarrow> list_ex (\<lambda>i. list_ex (\<lambda>e. ev_evidenceId e = i \<and> completeEvidenceMetadata e
       \<and> strict_eq (member (ev_metadata e) ''epochId'') (Str (ax_epochId ctx))
       \<and> evidenceSupportsSubject (ev_metadata e) (as_subjectRef a) ctx) (ax_evidence ctx)) (as_evidenceRefs a)"

definition host_facts :: "assessment \<Rightarrow> assessment_context \<Rightarrow> fact_record list" where
  "host_facts a ctx = filter (\<lambda>f. fr_factId f \<in> set (as_factRefs a) \<and> fs_kind (fr_source f) \<noteq> SK_EXTERNAL)
     (ax_facts ctx)"

definition strong_signal :: "fact_record \<Rightarrow> bool" where
  "strong_signal f \<longleftrightarrow> strict_eq (get_prop (fr_modelPayload f) ''signalStrength'') (Str ''STRONG'')"

definition signal_origin :: "fact_record \<Rightarrow> string" where
  "signal_origin f = co_name (fr_collector f) @ '':'' @ fr_subjectRef f"

definition enough_signals :: "assessment \<Rightarrow> assessment_context \<Rightarrow> bool" where
  "enough_signals a ctx \<longleftrightarrow> list_ex strong_signal (host_facts a ctx)
     \<or> \<not> length (unique (map signal_origin (host_facts a ctx))) < 2"

fun confidence_ok :: "jsnum \<Rightarrow> bool" where
  "confidence_ok (Fin q) = (0 \<le> q \<and> q \<le> 1)"
| "confidence_ok _ = False"

definition validateAssessment :: "assessment \<Rightarrow> assessment_context \<Rightarrow> err + unit" where
  "validateAssessment a ctx =
     (if as_taskId a \<noteq> ax_taskId ctx \<or> as_epochId a \<noteq> ax_epochId ctx then Inl Invalid_argument
      else if \<not> confidence_ok (as_confidence a) then Inl Invalid_argument
      else if length (js_trim (as_rationale a)) < 1 \<or> 8000 < length (as_rationale a) then Inl Invalid_argument
      else if as_scope a = SC_SUBJECT \<and> nonempty (as_subjectRef a) = None then Inl Invalid_argument
      else if as_scope a = SC_OBSERVED_CATEGORY \<and> nonempty (as_subjectRef a) \<noteq> None then Inl Invalid_argument
      else if as_verdict a \<in> {CONFIRMED_MALICIOUS, HIGHLY_SUSPICIOUS, SUSPICIOUS, BENIGN}
        \<and> nonempty (as_subjectRef a) = None then Inl Invalid_argument
      else if as_verdict a = NO_OBSERVED_FINDING \<and> as_scope a \<noteq> SC_OBSERVED_CATEGORY then Inl Invalid_argument
      else if (case nonempty (as_subjectRef a) of None \<Rightarrow> False | Some ref \<Rightarrow>
          \<not> list_ex (\<lambda>r. or_ref r = ref \<and> or_taskId r = ax_taskId ctx \<and> or_epochId r = ax_epochId ctx) (ax_refs ctx))
      then Inl Invalid_argument
      else if \<not> list_all (\<lambda>i. list_ex (\<lambda>f. fr_factId f = i \<and> fr_taskId f = ax_taskId ctx
          \<and> fr_epochId f = ax_epochId ctx) (ax_facts ctx)) (as_factRefs a) then Inl Invalid_argument
      else if \<not> list_all (\<lambda>i. list_ex (\<lambda>e. ev_evidenceId e = i \<and> ev_taskId e = ax_taskId ctx) (ax_evidence ctx))
          (as_evidenceRefs a) then Inl Invalid_argument
      else if \<not> list_all (\<lambda>q. q \<in> set (ax_queryRefs ctx)) (as_queryRefs a) then Inl Invalid_argument
      else if as_verdict a = CONFIRMED_MALICIOUS \<and> \<not> complete_evidence a ctx then Inl Invalid_argument
      else if as_verdict a = CONFIRMED_MALICIOUS \<and> \<not> enough_signals a ctx then Inl Invalid_argument
      else Inr ())"

definition assessment_view :: "id \<Rightarrow> id \<Rightarrow> 'a db_scheme \<Rightarrow> assessment_context" where
  "assessment_view tid eid s = \<lparr>ax_taskId = tid, ax_epochId = eid,
     ax_refs = listObjectReferences tid eid None s, ax_facts = all_facts tid eid s,
     ax_edges = listEdges tid eid s, ax_relationProvenance = listRelationProvenance tid eid s,
     ax_evidence = listEvidence tid s, ax_queryRefs = map qs_queryRef (listQuerySnapshots tid eid s)\<rparr>"

definition putAssessment :: "assessment \<Rightarrow> ('a db_scheme, unit) act" where
  "putAssessment a = bind_act (read_act (assessment_view (as_taskId a) (as_epochId a))) (\<lambda>ctx.
     case validateAssessment a ctx of Inl e \<Rightarrow> throw_act e | Inr _ \<Rightarrow> insert_assessment a)"

section \<open>The safety state of a category\<close>

datatype safety_state = SF_RISK | SF_NO_OBSERVED_FINDING | SF_INCOMPLETE | SF_NOT_APPLICABLE

definition safetyProjection :: "coverage_run option \<Rightarrow> assessment list \<Rightarrow> safety_state \<times> string" where
  "safetyProjection coverage assessments =
     (let risks = filter (\<lambda>a. as_verdict a \<in> {CONFIRMED_MALICIOUS, HIGHLY_SUSPICIOUS, SUSPICIOUS}) assessments;
          model = (if list_ex (\<lambda>a. as_authorType a = AU_MODEL) assessments then ''CONCLUDED'' else ''NOT_CONCLUDED'') in
      if 0 < length risks then (SF_RISK, model)
      else case coverage of None \<Rightarrow> (SF_INCOMPLETE, model)
      | Some c \<Rightarrow> if cr_status c \<noteq> CV_COMPLETE \<or> cr_applicability c = UNKNOWN then (SF_INCOMPLETE, model)
          else if cr_applicability c = NOT_APPLICABLE then (SF_NOT_APPLICABLE, model)
          else (if list_ex (\<lambda>a. as_verdict a = NO_OBSERVED_FINDING) assessments then SF_NO_OBSERVED_FINDING
                else SF_INCOMPLETE, model))"

section \<open>Properties\<close>

text \<open>
  What the ledger promises of a row: every reference resolves in the store, and a confirmed
  malicious verdict rests on complete evidence about its subject (or, for a class captured by
  retransformation, about the JVM observed to load it) and on enough signals of the host.
\<close>

definition references_resolve :: "assessment \<Rightarrow> 'a db_scheme \<Rightarrow> bool" where
  "references_resolve a s \<longleftrightarrow>
     (\<forall>ref. nonempty (as_subjectRef a) = Some ref \<longrightarrow> (\<exists>r\<in>set (db_objects s). or_ref r = ref
        \<and> or_taskId r = as_taskId a \<and> or_epochId r = as_epochId a))
   \<and> (\<forall>i\<in>set (as_factRefs a). \<exists>f\<in>set (db_facts s). fr_factId f = i \<and> fr_taskId f = as_taskId a
        \<and> fr_epochId f = as_epochId a)
   \<and> (\<forall>i\<in>set (as_evidenceRefs a). \<exists>e\<in>set (db_evidence s). ev_evidenceId e = i \<and> ev_taskId e = as_taskId a)
   \<and> (\<forall>q\<in>set (as_queryRefs a). \<exists>x\<in>set (db_query_snapshots s). qs_queryRef x = q \<and> qs_taskId x = as_taskId a
        \<and> qs_epochId x = as_epochId a)"

definition confirmed_by_evidence :: "assessment \<Rightarrow> 'a db_scheme \<Rightarrow> bool" where
  "confirmed_by_evidence a s \<longleftrightarrow> (\<exists>e\<in>set (db_evidence s). \<exists>x subject. ev_evidenceId e \<in> set (as_evidenceRefs a)
     \<and> ev_taskId e = as_taskId a \<and> completeEvidenceMetadata e
     \<and> member (ev_metadata e) ''epochId'' = Str (as_epochId a)
     \<and> as_subjectRef a = Some subject \<and> member (ev_metadata e) ''subjectRef'' = Str x
     \<and> (x = subject \<or> member (ev_metadata e) ''captureMethod'' = Str ''JVM_RETRANSFORM''
        \<and> (\<exists>g\<in>set (db_edges s). eg_relation g = ''loads_class'' \<and> {eg_fromRef g, eg_toRef g} = {x, subject}
             \<and> (\<exists>p\<in>set (db_provenance s). rv_edgeRef p = eg_edgeId g \<and> rv_derivation p = OBSERVED))
        \<and> (\<exists>f\<in>set (db_facts s). class_fact_matches (ev_metadata e) subject f)))"

definition confirmed_by_signals :: "assessment \<Rightarrow> 'a db_scheme \<Rightarrow> bool" where
  "confirmed_by_signals a s \<longleftrightarrow> (\<exists>f\<in>set (db_facts s). \<exists>g\<in>set (db_facts s).
     fr_factId f \<in> set (as_factRefs a) \<and> fr_factId g \<in> set (as_factRefs a)
     \<and> fs_kind (fr_source f) \<noteq> SK_EXTERNAL \<and> fs_kind (fr_source g) \<noteq> SK_EXTERNAL
     \<and> (strong_signal f \<or> co_name (fr_collector f) \<noteq> co_name (fr_collector g) \<or> fr_subjectRef f \<noteq> fr_subjectRef g))"

lemma strict_eq_Str: "strict_eq v (Str t) \<longleftrightarrow> v = Str t"
  by (cases v) auto

lemma is_string_iff: "is_string v \<longleftrightarrow> (\<exists>t. v = Str t)"
  by (cases v) auto

lemma nonempty_SomeD: "nonempty v = Some x \<Longrightarrow> v = Some x"
  by (auto simp: nonempty_def split: option.splits if_splits)

lemma two_distinct: "\<not> length (unique xs) < 2 \<Longrightarrow> \<exists>x\<in>set xs. \<exists>y\<in>set xs. x \<noteq> y"
proof -
  assume "\<not> length (unique xs) < 2"
  then obtain x y zs where "unique xs = x # y # zs" by (cases "unique xs"; cases "tl (unique xs)") auto
  then have "distinct (x # y # zs)" "set xs = set (x # y # zs)"
    by (metis distinct_unique, metis set_unique)
  then show ?thesis by (metis distinct_length_2_or_more list.set_intros)
qed

lemma validateAssessment_Inr:
  assumes "validateAssessment a ctx = Inr u"
  shows "as_taskId a = ax_taskId ctx \<and> as_epochId a = ax_epochId ctx
    \<and> (\<forall>ref. nonempty (as_subjectRef a) = Some ref \<longrightarrow> (\<exists>r\<in>set (ax_refs ctx). or_ref r = ref
        \<and> or_taskId r = as_taskId a \<and> or_epochId r = as_epochId a))
    \<and> (\<forall>i\<in>set (as_factRefs a). \<exists>f\<in>set (ax_facts ctx). fr_factId f = i \<and> fr_taskId f = as_taskId a
        \<and> fr_epochId f = as_epochId a)
    \<and> (\<forall>i\<in>set (as_evidenceRefs a). \<exists>e\<in>set (ax_evidence ctx). ev_evidenceId e = i \<and> ev_taskId e = as_taskId a)
    \<and> set (as_queryRefs a) \<subseteq> set (ax_queryRefs ctx)
    \<and> (as_verdict a = CONFIRMED_MALICIOUS \<longrightarrow> complete_evidence a ctx \<and> enough_signals a ctx)"
  using assms unfolding validateAssessment_def
  by (auto simp: list_all_iff list_ex_iff split: if_splits option.splits)

lemma confirmed_evidence:
  assumes "complete_evidence a (assessment_view (as_taskId a) (as_epochId a) s)"
  shows "confirmed_by_evidence a s"
proof -
  from assms obtain e where e: "e \<in> set (db_evidence s)" "ev_taskId e = as_taskId a"
    "ev_evidenceId e \<in> set (as_evidenceRefs a)" "completeEvidenceMetadata e"
    "member (ev_metadata e) ''epochId'' = Str (as_epochId a)"
    and sup: "evidenceSupportsSubject (ev_metadata e) (as_subjectRef a)
      (assessment_view (as_taskId a) (as_epochId a) s)"
    by (auto simp: complete_evidence_def list_ex_iff assessment_view_def listEvidence_def strict_eq_Str)
  from sup obtain subject x where subject: "as_subjectRef a = Some subject"
    and x: "member (ev_metadata e) ''subjectRef'' = Str x"
    unfolding evidenceSupportsSubject_def
    by (auto split: option.splits if_splits dest: nonempty_SomeD simp: is_string_iff)
  have "x = subject \<or> member (ev_metadata e) ''captureMethod'' = Str ''JVM_RETRANSFORM''
        \<and> (\<exists>g\<in>set (db_edges s). eg_relation g = ''loads_class'' \<and> {eg_fromRef g, eg_toRef g} = {x, subject}
             \<and> (\<exists>p\<in>set (db_provenance s). rv_edgeRef p = eg_edgeId g \<and> rv_derivation p = OBSERVED))
        \<and> (\<exists>f\<in>set (db_facts s). class_fact_matches (ev_metadata e) subject f)"
    using sup unfolding evidenceSupportsSubject_def subject x Let_def
    by (auto split: option.splits if_splits dest!: nonempty_SomeD
        simp: list_ex_iff observed_between_def assessment_view_def strict_eq_Str listEdges_def
          listRelationProvenance_def all_facts_def)
  with e subject x show ?thesis unfolding confirmed_by_evidence_def by blast
qed

lemma confirmed_signals:
  assumes "enough_signals a (assessment_view (as_taskId a) (as_epochId a) s)"
  shows "confirmed_by_signals a s"
proof -
  let ?F = "host_facts a (assessment_view (as_taskId a) (as_epochId a) s)"
  have F: "f \<in> set (db_facts s) \<and> fr_factId f \<in> set (as_factRefs a) \<and> fs_kind (fr_source f) \<noteq> SK_EXTERNAL"
    if "f \<in> set ?F" for f
    using that by (auto simp: host_facts_def assessment_view_def all_facts_def)
  from assms consider f where "f \<in> set ?F" "strong_signal f"
    | "\<exists>x\<in>set (map signal_origin ?F). \<exists>y\<in>set (map signal_origin ?F). x \<noteq> y"
    using two_distinct [of "map signal_origin ?F"] unfolding enough_signals_def list_ex_iff by blast
  then show ?thesis
  proof cases
    case (1 f)
    with F [OF 1(1)] show ?thesis unfolding confirmed_by_signals_def by blast
  next
    case 2
    then obtain f g where "f \<in> set ?F" "g \<in> set ?F" "signal_origin f \<noteq> signal_origin g" by auto
    with F show ?thesis unfolding confirmed_by_signals_def signal_origin_def by metis
  qed
qed

text \<open>
  C19. A row enters the ledger only grounded: storing an assessment either fails and changes
  nothing or appends exactly that assessment; then its subject, facts, evidence and queries are
  rows of its own task and epoch, and a confirmed malicious verdict has complete, undamaged
  evidence of the epoch about its subject, and a strong host signal or two host facts of
  different collectors or subjects, none of them from an external service.
\<close>

theorem ledger_rows_are_grounded:
  assumes "putAssessment a s = (r, s')"
  shows "case r of Inl e \<Rightarrow> s' = s
    | Inr _ \<Rightarrow> s' = s\<lparr>db_assessments := db_assessments s @ [a]\<rparr> \<and> references_resolve a s
        \<and> (as_verdict a = CONFIRMED_MALICIOUS \<longrightarrow> confirmed_by_evidence a s \<and> confirmed_by_signals a s)"
proof (cases r)
  case (Inl e)
  with assms show ?thesis
    by (auto simp: putAssessment_def insert_assessment_def act_simps split: sum.splits)
next
  case (Inr u)
  let ?ctx = "assessment_view (as_taskId a) (as_epochId a) s"
  from assms Inr have v: "validateAssessment a ?ctx = Inr ()"
    and s': "s' = s\<lparr>db_assessments := db_assessments s @ [a]\<rparr>"
    by (auto simp: putAssessment_def insert_assessment_def act_simps split: sum.splits)
  have "references_resolve a s"
    using validateAssessment_Inr [OF v] unfolding references_resolve_def
    by (fastforce simp: assessment_view_def listObjectReferences_def all_facts_def listEvidence_def listQuerySnapshots_def)
  with validateAssessment_Inr [OF v] s' Inr show ?thesis
    by (auto intro: confirmed_evidence confirmed_signals)
qed

text \<open>
  The safety state never hides a risk and never takes missing knowledge for safety: it is
  RISK exactly when some assessment is a risk verdict; "nothing found" needs a complete run of an
  applicable check and an assessment that says so; "not applicable" needs a complete run too;
  whatever is partial, failed, not run or of unknown applicability is INCOMPLETE.
\<close>

theorem safety_state_is_honest:
  "let st = fst (safetyProjection coverage assessments); risk = (\<exists>a\<in>set assessments. is_risk a) in
     (st = SF_RISK \<longleftrightarrow> risk)
   \<and> (st = SF_NO_OBSERVED_FINDING \<longleftrightarrow> \<not> risk \<and> (\<exists>a\<in>set assessments. as_verdict a = NO_OBSERVED_FINDING)
        \<and> (\<exists>c. coverage = Some c \<and> cr_status c = CV_COMPLETE \<and> cr_applicability c = APPLICABLE))
   \<and> (st = SF_NOT_APPLICABLE \<longleftrightarrow> \<not> risk
        \<and> (\<exists>c. coverage = Some c \<and> cr_status c = CV_COMPLETE \<and> cr_applicability c = NOT_APPLICABLE))"
proof -
  have risk: "0 < length (filter (\<lambda>a. as_verdict a \<in> {CONFIRMED_MALICIOUS, HIGHLY_SUSPICIOUS, SUSPICIOUS}) assessments)
      \<longleftrightarrow> (\<exists>a\<in>set assessments. is_risk a)"
  proof -
    have "is_risk a \<longleftrightarrow> as_verdict a \<in> {CONFIRMED_MALICIOUS, HIGHLY_SUSPICIOUS, SUSPICIOUS}" for a
      by (cases "as_verdict a") (simp_all add: is_risk_def)
    then show ?thesis by (simp add: filter_empty_conv)
  qed
  have applies: "cr_applicability c = APPLICABLE"
    if "cr_applicability c \<noteq> NOT_APPLICABLE" "cr_applicability c \<noteq> UNKNOWN" for c :: coverage_run
    using that by (cases "cr_applicability c") simp_all
  show ?thesis unfolding safetyProjection_def Let_def risk
    by (auto simp: list_ex_iff split: option.splits intro: applies)
qed

text \<open>A file with complete evidence and a strong signal of the helper.\<close>

definition sample_digest64 :: string where
  "sample_digest64 = replicate 64 CHR ''a''"

definition sample_evidence :: evidence where
  "sample_evidence = \<lparr>ev_evidenceId = ''EVI-1'', ev_taskId = ''T1'', ev_host = ''h'', ev_type = ''file'', ev_source = ''/x'',
     ev_sha256 = Some sample_digest64, ev_collectedAt = ''t'', ev_tool = ''collect'', ev_toolCallId = None,
     ev_storagePath = None, ev_metadata = Obj [(''complete'', Bool True), (''epochId'', Str ''E1''),
       (''subjectRef'', Str ''OBJ-1''), (''artifactSize'', Num (Fin 5)), (''artifactDigest'', Str sample_digest64),
       (''range'', Obj [(''start'', Num (Fin 0)), (''length'', Num (Fin 5)), (''complete'', Bool True)])]\<rparr>"

definition sample_fact :: fact_record where
  "sample_fact = \<lparr>fr_factId = ''FACT-1'', fr_factSeq = 1, fr_taskId = ''T1'', fr_epochId = ''E1'', fr_namespace = NS_file,
     fr_subjectRef = ''OBJ-1'', fr_schemaVersion = ''3.0.0'', fr_observedAt = ''t'', fr_sourceRunId = ''R1'',
     fr_source = sample_source, fr_collector = \<lparr>co_name = ''helper'', co_version = ''3''\<rparr>,
     fr_consistency = POINT_IN_TIME, fr_completeness = COMPLETE, fr_gaps = [], fr_privatePayload = [],
     fr_modelPayload = [(''signalStrength'', Str ''STRONG'')], fr_redactedFields = [], fr_unavailableFields = [],
     fr_payloadDigest = ''d'', fr_provenance = \<lparr>pv_targetFingerprint = ''fp'', pv_requestId = ''q'',
       pv_wireDigest = ''w'', pv_stableIdentityDigest = ''i''\<rparr>\<rparr>"

definition sample_object :: object_reference where
  "sample_object = \<lparr>or_ref = ''OBJ-1'', or_taskId = ''T1'', or_epochId = ''E1'', or_targetFingerprint = ''fp'',
     or_namespace = NS_file, or_stableIdentityDigest = ''i'', or_stableIdentity = [], or_createdAt = ''t''\<rparr>"

definition sample_case :: db where
  "sample_case = empty_db\<lparr>db_evidence := [sample_evidence], db_facts := [sample_fact], db_objects := [sample_object]\<rparr>"

definition confirmed_file :: assessment where
  "confirmed_file = (sample_assessment ''a1'' AU_MODEL CONFIRMED_MALICIOUS ''t'')
     \<lparr>as_evidenceRefs := [''EVI-1''], as_factRefs := [''FACT-1'']\<rparr>"

theorem ledger_rows_are_grounded_witness:
  "fst (putAssessment confirmed_file sample_case) = Inr ()
   \<and> confirmed_by_evidence confirmed_file sample_case
   \<and> fst (putAssessment (confirmed_file\<lparr>as_evidenceRefs := []\<rparr>) sample_case) = Inl Invalid_argument"
proof -
  have run: "fst (putAssessment confirmed_file sample_case) = Inr ()"
    "fst (putAssessment (confirmed_file\<lparr>as_evidenceRefs := []\<rparr>) sample_case) = Inl Invalid_argument" by code_simp+
  then have "putAssessment confirmed_file sample_case = (Inr (), snd (putAssessment confirmed_file sample_case))"
    by (simp add: prod_eq_iff)
  from ledger_rows_are_grounded [OF this] run show ?thesis
    by (simp add: confirmed_file_def sample_assessment_def)
qed

end
