(* ===== verification/Completion.thy ===== *)
theory Completion
  imports Assessments ActionQueue
begin

text \<open>
  \<open>src/investigation/completion-validator.ts\<close>: when an investigation may be closed and as what,
  and the three ways to freeze it. The rationale and the reasons written for people are
  represented by codes; \<open>collate\<close> and \<open>parse\<close> are those of the projection.
\<close>

section \<open>The evaluation\<close>

datatype completion_reason =
    ACTIONS_UNFINISHED | OBLIGATIONS_UNFINISHED | DISCOVERY_UNFINISHED | NO_OBLIGATIONS
  | CONFLICT_UNRESOLVED | COVERAGE_INSUFFICIENT

record completion_evaluation =
  ce_canClose :: bool
  ce_status :: investigation_status
  ce_reasons :: "completion_reason list"
  ce_openRequiredObligationIds :: "id list"
  ce_limitedObligationIds :: "id list"
  ce_runningActionIds :: "id list"
  ce_findingAssessmentIds :: "id list"

text \<open>\<open>/(?:^|_)(?:EVIDENCE|CAPTURE|PRESERVE|PRESERVATION)(?:_|$)/\<close>: one of the words between underscores.\<close>

fun segments :: "string \<Rightarrow> string \<Rightarrow> string list" where
  "segments word [] = [rev word]"
| "segments word (c # cs) = (if c = CHR ''_'' then rev word # segments [] cs else segments (c # word) cs)"

definition evidence_obligation :: "string \<Rightarrow> bool" where
  "evidence_obligation kind \<longleftrightarrow>
     list_ex (\<lambda>w. w \<in> {''EVIDENCE'', ''CAPTURE'', ''PRESERVE'', ''PRESERVATION''}) (segments [] kind)"

definition evidence_subjects :: "js \<Rightarrow> id list" where
  "evidence_subjects m = map string_of (filter is_string [member m ''subjectRef'', member m ''artifactSubjectRef''])"

definition touches :: "edge_record \<Rightarrow> id list \<Rightarrow> bool" where
  "touches e refs \<longleftrightarrow> list_ex (\<lambda>r. eg_fromRef e = r \<or> eg_toRef e = r) refs"

text \<open>\<open>evidence.get(ref)\<close> of a map built from the rows: the last row with the key.\<close>

definition evidence_of :: "evidence list \<Rightarrow> id \<Rightarrow> evidence option" where
  "evidence_of rows ref = List.find (\<lambda>e. ev_evidenceId e = ref) (rev rows)"

definition result_valid ::
  "id \<Rightarrow> evidence list \<Rightarrow> edge_record list \<Rightarrow> investigation_obligation \<Rightarrow> id \<Rightarrow> bool" where
  "result_valid eid evidence trusted ob ref = (case evidence_of evidence ref of None \<Rightarrow> False
     | Some e \<Rightarrow> let m = ev_metadata e; subjects = evidence_subjects m in
         if \<not> strict_eq (member m ''complete'') (Bool True) \<or> \<not> strict_eq (member m ''epochId'') (Str eid) then False
         else if list_ex (\<lambda>r. r \<in> set (ob_subjectRefs ob)) subjects then True
         else list_ex (\<lambda>g. touches g subjects \<and> touches g (ob_subjectRefs ob)) trusted)"

definition trusted_edges :: "edge_record list \<Rightarrow> relation_provenance list \<Rightarrow> edge_record list" where
  "trusted_edges edges prov = filter (\<lambda>e. list_ex (\<lambda>p. rv_edgeRef p = eg_edgeId e
     \<and> (rv_derivation p = OBSERVED \<or> rv_derivation p = DERIVED)) prov) edges"

definition evidence_missing ::
  "id \<Rightarrow> evidence list \<Rightarrow> edge_record list \<Rightarrow> investigation_obligation \<Rightarrow> bool" where
  "evidence_missing eid evidence trusted ob \<longleftrightarrow> ob_required ob \<and> ob_status ob = OB_SATISFIED
     \<and> evidence_obligation (ob_obligationKind ob)
     \<and> \<not> list_ex (result_valid eid evidence trusted ob) (ob_resultRefs ob)"

definition open_required :: "investigation_obligation \<Rightarrow> bool" where
  "open_required ob \<longleftrightarrow> ob_required ob \<and> (ob_status ob = OB_OPEN \<or> ob_status ob = OB_QUEUED)"

definition limited_required :: "investigation_obligation \<Rightarrow> bool" where
  "limited_required ob \<longleftrightarrow> ob_required ob \<and> (ob_status ob = OB_LIMITED \<or> ob_status ob = OB_CANCELLED)"

definition finding :: "effective_projection \<Rightarrow> bool" where
  "finding p \<longleftrightarrow> ef_conclusion p \<in> {Verdict CONFIRMED_MALICIOUS, Verdict HIGHLY_SUSPICIOUS, Verdict SUSPICIOUS}"

definition category_concluded :: "effective_projection list \<Rightarrow> coverage_run \<Rightarrow> bool" where
  "category_concluded effective run \<longleftrightarrow> cr_applicability run = NOT_APPLICABLE
     \<or> list_ex (\<lambda>p. ef_category p = cr_category run \<and> ef_scope p = SC_OBSERVED_CATEGORY
          \<and> ef_conclusion p = Verdict NO_OBSERVED_FINDING) effective"

definition categories_concluded :: "effective_projection list \<Rightarrow> coverage_run list \<Rightarrow> bool" where
  "categories_concluded effective coverage \<longleftrightarrow> coverage \<noteq> []
     \<and> list_all (\<lambda>r. cr_status r = CV_COMPLETE) coverage \<and> list_all (category_concluded effective) coverage"

definition effective_now ::
  "(string \<Rightarrow> string \<Rightarrow> rat) \<Rightarrow> (string \<Rightarrow> jsnum) \<Rightarrow> id \<Rightarrow> id \<Rightarrow> 'a db_scheme \<Rightarrow> effective_projection list" where
  "effective_now collate parse tid eid s =
     projectEffectiveAssessments collate parse (listAssessments tid eid s) (listAssessmentRelations tid eid s)"

definition limited_ids :: "id \<Rightarrow> id \<Rightarrow> 'a db_scheme \<Rightarrow> id list" where
  "limited_ids tid eid s = (let obs = listInvestigationObligations tid eid s;
       trusted = trusted_edges (listEdges tid eid s) (listRelationProvenance tid eid s) in
     unique (map ob_obligationId (filter limited_required obs)
       @ map ob_obligationId (filter (evidence_missing eid (listEvidence tid s) trusted) obs)))"

definition failed_required :: "investigation_obligation list \<Rightarrow> investigation_action \<Rightarrow> bool" where
  "failed_required obs a \<longleftrightarrow> ac_status a \<in> {AC_FAILED, AC_BLOCKED, AC_CANCELLED}
     \<and> list_ex (\<lambda>i. i \<in> set (map ob_obligationId (filter ob_required obs))) (ac_obligationIds a)"

definition evaluate ::
  "(string \<Rightarrow> string \<Rightarrow> rat) \<Rightarrow> (string \<Rightarrow> jsnum) \<Rightarrow> id \<Rightarrow> id \<Rightarrow> 'a db_scheme \<Rightarrow> completion_evaluation" where
  "evaluate collate parse tid eid s =
     (let obs = listInvestigationObligations tid eid s; actions = listInvestigationActions tid eid s;
          checkpoints = listDiscoveryCheckpoints tid eid s;
          effective = effective_now collate parse tid eid s;
          running = map ac_actionId (filter (\<lambda>a. \<not> action_terminal (ac_status a)) actions);
          opened = map ob_obligationId (filter open_required obs);
          limited = limited_ids tid eid s;
          unfinished = filter (\<lambda>c. ck_status c = CK_RUNNING) checkpoints;
          limited_discovery = filter (\<lambda>c. ck_status c = CK_LIMITED \<or> ck_status c = CK_FAILED) checkpoints;
          findings = concat (map ef_effectiveAssessmentIds (filter finding effective));
          conflicts = filter (\<lambda>p. ef_conclusion p = CONFLICT) effective;
          reasons = (if running \<noteq> [] then [ACTIONS_UNFINISHED] else [])
            @ (if opened \<noteq> [] then [OBLIGATIONS_UNFINISHED] else [])
            @ (if unfinished \<noteq> [] then [DISCOVERY_UNFINISHED] else [])
            @ (if obs = [] then [NO_OBLIGATIONS] else [])
            @ (if conflicts \<noteq> [] then [CONFLICT_UNRESOLVED] else []);
          can_close = (running = [] \<and> opened = [] \<and> unfinished = [] \<and> obs \<noteq> []);
          limits = (limited \<noteq> [] \<or> limited_discovery \<noteq> [] \<or> conflicts \<noteq> [] \<or> list_ex (failed_required obs) actions);
          concluded = categories_concluded effective (listCoverageRuns tid eid s);
          quiet = (can_close \<and> \<not> limits \<and> findings = []) in
      \<lparr>ce_canClose = can_close,
       ce_status = (if can_close \<and> limits then IS_LIMITED
         else if can_close \<and> findings \<noteq> [] then CLOSED_WITH_FINDINGS
         else if can_close then (if concluded then CLOSED_NO_OBSERVED_FINDING else IS_LIMITED)
         else IS_OPEN),
       ce_reasons = reasons @ (if quiet \<and> \<not> concluded then [COVERAGE_INSUFFICIENT] else []),
       ce_openRequiredObligationIds = opened, ce_limitedObligationIds = limited,
       ce_runningActionIds = running, ce_findingAssessmentIds = findings\<rparr>)"

section \<open>Freezing\<close>

definition system_conclusion :: "id \<Rightarrow> id \<Rightarrow> coverage_run \<Rightarrow> string \<Rightarrow> time \<Rightarrow> assessment" where
  "system_conclusion tid eid run u t = \<lparr>as_assessmentId = ''ASM-'' @ u, as_taskId = tid, as_epochId = eid,
     as_authorType = AU_SYSTEM, as_category = cr_category run, as_subjectRef = None,
     as_scope = SC_OBSERVED_CATEGORY, as_verdict = NO_OBSERVED_FINDING, as_severity = INFO,
     as_confidence = Fin 1, as_rationale = ''COVERAGE_COMPLETE:'' @ cr_coverageId run, as_evidenceRefs = [],
     as_factRefs = [], as_queryRefs = [], as_createdAt = t\<rparr>"

definition already_concluded :: "effective_projection list \<Rightarrow> coverage_run \<Rightarrow> bool" where
  "already_concluded effective run \<longleftrightarrow> list_ex (\<lambda>p. ef_category p = cr_category run
     \<and> (ef_scope p = SC_OBSERVED_CATEGORY \<or> finding p \<or> ef_conclusion p = CONFLICT)) effective"

definition conclude_run ::
  "id \<Rightarrow> id \<Rightarrow> effective_projection list \<Rightarrow> coverage_run \<Rightarrow> ('a db_scheme, unit) act" where
  "conclude_run tid eid effective run =
     (if cr_status run \<noteq> CV_COMPLETE \<or> cr_applicability run \<noteq> APPLICABLE then return_act ()
      else if already_concluded effective run then return_act ()
      else bind_act next_uuid (\<lambda>u. bind_act now (\<lambda>t. putAssessment (system_conclusion tid eid run u t))))"

definition deterministic_scope_done :: "id \<Rightarrow> id \<Rightarrow> 'a db_scheme \<Rightarrow> bool" where
  "deterministic_scope_done tid eid s \<longleftrightarrow>
     (let obs = listInvestigationObligations tid eid s in
      \<not> (obs = [] \<or> list_ex (\<lambda>ob. ob_required ob \<and> ob_status ob \<noteq> OB_SATISFIED) obs))
   \<and> \<not> list_ex (\<lambda>a. ac_status a \<noteq> AC_SUCCEEDED \<and> ac_status a \<noteq> AC_PARTIAL) (listInvestigationActions tid eid s)
   \<and> \<not> list_ex (\<lambda>c. ck_status c \<noteq> CK_COMPLETE) (listDiscoveryCheckpoints tid eid s)"

definition materializeDeterministicCategoryConclusions ::
  "(string \<Rightarrow> string \<Rightarrow> rat) \<Rightarrow> (string \<Rightarrow> jsnum) \<Rightarrow> id \<Rightarrow> id \<Rightarrow> ('a db_scheme, unit) act" where
  "materializeDeterministicCategoryConclusions collate parse tid eid =
     bind_act (read_act (deterministic_scope_done tid eid)) (\<lambda>scope_done.
     if \<not> scope_done then return_act ()
     else bind_act (read_act (\<lambda>s. (effective_now collate parse tid eid s, listCoverageRuns tid eid s)))
       (\<lambda>(effective, coverage). each_act (conclude_run tid eid effective) coverage))"

definition stop_session ::
  "id \<Rightarrow> id \<Rightarrow> investigation_status \<Rightarrow> completion_snapshot \<Rightarrow> ('a db_scheme, unit) act" where
  "stop_session tid eid status snap = bind_act (read_act (getInvestigationSession tid eid)) (\<lambda>session.
     case session of None \<Rightarrow> return_act ()
     | Some x \<Rightarrow> updateInvestigationSession (x\<lparr>ss_investigationStatus := status, ss_executionStatus := STOPPED,
         ss_completionSnapshotRef := Some (cs_snapshotRef snap), ss_revision := ss_revision x + 1,
         ss_updatedAt := cs_createdAt snap\<rparr>) (ss_revision x))"

definition evaluation_snapshot ::
  "id \<Rightarrow> id \<Rightarrow> completion_evaluation \<Rightarrow> string \<Rightarrow> nat \<Rightarrow> time \<Rightarrow> completion_snapshot" where
  "evaluation_snapshot tid eid ev u seq t = \<lparr>cs_snapshotRef = ''CSNAP-'' @ u, cs_taskId = tid, cs_epochId = eid,
     cs_investigationStatus = ce_status ev, cs_maxEventSeq = seq,
     cs_openRequiredObligationIds = ce_openRequiredObligationIds ev,
     cs_runningActionIds = ce_runningActionIds ev, cs_limitedObligationIds = ce_limitedObligationIds ev,
     cs_findingAssessmentIds = ce_findingAssessmentIds ev, cs_createdAt = t\<rparr>"

definition freeze ::
  "(string \<Rightarrow> string \<Rightarrow> rat) \<Rightarrow> (string \<Rightarrow> jsnum) \<Rightarrow> id \<Rightarrow> id \<Rightarrow> ('a db_scheme, completion_snapshot) act" where
  "freeze collate parse tid eid =
     seq_act (materializeDeterministicCategoryConclusions collate parse tid eid)
    (bind_act (read_act (evaluate collate parse tid eid)) (\<lambda>ev.
     seq_act (require (ce_canClose ev) Plain_error)
    (bind_act next_uuid (\<lambda>u. bind_act (read_act (maxInvestigationEventSeq tid eid)) (\<lambda>seq. bind_act now (\<lambda>t.
     let snap = evaluation_snapshot tid eid ev u seq t in
     seq_act (putCompletionSnapshot snap)
    (seq_act (stop_session tid eid (cs_investigationStatus snap) snap) (return_act snap))))))))"

definition existing_snapshot :: "id \<Rightarrow> id \<Rightarrow> 'a db_scheme \<Rightarrow> completion_snapshot option" where
  "existing_snapshot tid eid s = (case getInvestigationSession tid eid s of None \<Rightarrow> None
     | Some x \<Rightarrow> (case nonempty (ss_completionSnapshotRef x) of None \<Rightarrow> None
         | Some ref \<Rightarrow> getCompletionSnapshot tid eid ref s))"

definition settle_obligation ::
  "obligation_status \<Rightarrow> string \<Rightarrow> investigation_obligation \<Rightarrow> ('a db_scheme, unit) act" where
  "settle_obligation status reason ob =
     (if ob_status ob \<noteq> OB_OPEN \<and> ob_status ob \<noteq> OB_QUEUED then return_act ()
      else bind_act now (\<lambda>t. updateInvestigationObligation (ob\<lparr>ob_status := status,
             ob_gapRefs := unique (ob_gapRefs ob @ [reason]), ob_updatedAt := t\<rparr>) (ob_status ob)))"

definition block_ready :: "string \<Rightarrow> investigation_action \<Rightarrow> ('a db_scheme, unit) act" where
  "block_ready reason a = (if ac_status a = AC_READY
     then bind_act (blockReadyInvestigationAction (ac_actionId a) reason) (\<lambda>_. return_act ()) else return_act ())"

definition freezeWithLimits ::
  "(string \<Rightarrow> string \<Rightarrow> rat) \<Rightarrow> (string \<Rightarrow> jsnum) \<Rightarrow> id \<Rightarrow> id \<Rightarrow> string \<Rightarrow>
   ('a db_scheme, completion_snapshot) act" where
  "freezeWithLimits collate parse tid eid reason = bind_act (read_act (existing_snapshot tid eid)) (\<lambda>existing.
     case existing of Some snap \<Rightarrow> return_act snap
     | None \<Rightarrow> bind_act (read_act (listInvestigationActions tid eid)) (\<lambda>actions.
         seq_act (each_act (block_ready reason) actions)
        (bind_act (read_act (listInvestigationObligations tid eid)) (\<lambda>obs.
         seq_act (each_act (settle_obligation OB_LIMITED reason) obs)
           (freeze collate parse tid eid)))))"

text \<open>A running action is finished as BLOCKED: its remote result is unknown.\<close>

definition cancel_action :: "string \<Rightarrow> investigation_action \<Rightarrow> ('a db_scheme, unit) act" where
  "cancel_action reason a = (if ac_status a = AC_READY then block_ready reason a
     else if ac_status a = AC_RUNNING then bind_act (finishInvestigationAction (ac_actionId a) (ac_revision a)
         AC_BLOCKED (option_or (ac_resultRefs a) []) (Some (''REMOTE_RESULT_UNKNOWN:'' @ reason)))
       (\<lambda>_. return_act ())
     else return_act ())"

definition cancellation_snapshot ::
  "id \<Rightarrow> id \<Rightarrow> effective_projection list \<Rightarrow> nat \<times> investigation_obligation list \<Rightarrow> string \<Rightarrow> time \<Rightarrow>
   completion_snapshot" where
  "cancellation_snapshot tid eid effective seq_limited u t = \<lparr>cs_snapshotRef = ''CSNAP-'' @ u, cs_taskId = tid,
     cs_epochId = eid, cs_investigationStatus = IS_CANCELLED, cs_maxEventSeq = fst seq_limited,
     cs_openRequiredObligationIds = [], cs_runningActionIds = [],
     cs_limitedObligationIds = map ob_obligationId (snd seq_limited),
     cs_findingAssessmentIds = concat (map ef_effectiveAssessmentIds (filter finding effective)),
     cs_createdAt = t\<rparr>"

definition freezeCancelled ::
  "(string \<Rightarrow> string \<Rightarrow> rat) \<Rightarrow> (string \<Rightarrow> jsnum) \<Rightarrow> id \<Rightarrow> id \<Rightarrow> string \<Rightarrow>
   ('a db_scheme, completion_snapshot) act" where
  "freezeCancelled collate parse tid eid reason = bind_act (read_act (existing_snapshot tid eid)) (\<lambda>existing.
     case existing of Some snap \<Rightarrow> return_act snap
     | None \<Rightarrow> bind_act (read_act (listInvestigationActions tid eid)) (\<lambda>actions.
         seq_act (each_act (cancel_action reason) actions)
        (bind_act (read_act (listInvestigationObligations tid eid)) (\<lambda>obs.
         seq_act (each_act (settle_obligation OB_CANCELLED reason) obs)
        (bind_act now (\<lambda>t. bind_act (read_act (effective_now collate parse tid eid)) (\<lambda>effective.
         bind_act next_uuid (\<lambda>u. bind_act (read_act (\<lambda>s. (maxInvestigationEventSeq tid eid s,
             filter limited_required (listInvestigationObligations tid eid s)))) (\<lambda>seq_limited.
         let snap = cancellation_snapshot tid eid effective seq_limited u t in
         seq_act (putCompletionSnapshot snap)
        (seq_act (stop_session tid eid IS_CANCELLED snap) (return_act snap)))))))))))"

section \<open>What a status says\<close>

lemma effective_of_nonempty [simp]: "effective_of superseded xs \<noteq> []"
  by (simp add: effective_of_def Let_def)

lemma effective_ids_nonempty:
  "p \<in> set (projectEffectiveAssessments collate parse assessments relations) \<Longrightarrow> ef_effectiveAssessmentIds p \<noteq> []"
  by (auto simp: projectEffectiveAssessments_def Let_def project_group_def)

lemma findings_iff:
  "concat (map ef_effectiveAssessmentIds (filter finding (effective_now collate parse tid eid s))) \<noteq> []
     \<longleftrightarrow> (\<exists>p\<in>set (effective_now collate parse tid eid s). finding p)"
  using effective_ids_nonempty by (fastforce simp: effective_now_def)

definition settled_required ::
  "id \<Rightarrow> id \<Rightarrow> 'a db_scheme \<Rightarrow> investigation_obligation \<Rightarrow> bool" where
  "settled_required tid eid s ob \<longleftrightarrow> ob_status ob = OB_SATISFIED
     \<and> (evidence_obligation (ob_obligationKind ob) \<longrightarrow> (\<exists>ref\<in>set (ob_resultRefs ob).
          result_valid eid (listEvidence tid s)
            (trusted_edges (listEdges tid eid s) (listRelationProvenance tid eid s)) ob ref))"

lemma unique_Nil_iff [simp]: "unique xs = [] \<longleftrightarrow> xs = []"
  by (metis set_empty set_unique)

lemma limited_ids_Nil:
  assumes "\<forall>ob\<in>set (listInvestigationObligations tid eid s). \<not> open_required ob"
  shows "limited_ids tid eid s = [] \<longleftrightarrow>
    (\<forall>ob\<in>set (listInvestigationObligations tid eid s). ob_required ob \<longrightarrow> settled_required tid eid s ob)"
proof -
  let ?trusted = "trusted_edges (listEdges tid eid s) (listRelationProvenance tid eid s)"
  have "limited_ids tid eid s = [] \<longleftrightarrow> (\<forall>ob\<in>set (listInvestigationObligations tid eid s).
      \<not> limited_required ob \<and> \<not> evidence_missing eid (listEvidence tid s) ?trusted ob)"
    by (auto simp: limited_ids_def Let_def filter_empty_conv)
  moreover have "\<not> limited_required ob \<and> \<not> evidence_missing eid (listEvidence tid s) ?trusted ob
      \<longleftrightarrow> (ob_required ob \<longrightarrow> settled_required tid eid s ob)"
    if "\<not> open_required ob" for ob
    using that by (cases "ob_status ob")
      (auto simp: open_required_def limited_required_def evidence_missing_def settled_required_def list_ex_iff)
  ultimately show ?thesis using assms by blast
qed

definition work_finished :: "id \<Rightarrow> id \<Rightarrow> 'a db_scheme \<Rightarrow> bool" where
  "work_finished tid eid s \<longleftrightarrow> listInvestigationObligations tid eid s \<noteq> []
     \<and> (\<forall>ob\<in>set (listInvestigationObligations tid eid s). \<not> open_required ob)
     \<and> (\<forall>a\<in>set (listInvestigationActions tid eid s). action_terminal (ac_status a))
     \<and> (\<forall>c\<in>set (listDiscoveryCheckpoints tid eid s). ck_status c \<noteq> CK_RUNNING)"

definition work_unlimited ::
  "(string \<Rightarrow> string \<Rightarrow> rat) \<Rightarrow> (string \<Rightarrow> jsnum) \<Rightarrow> id \<Rightarrow> id \<Rightarrow> 'a db_scheme \<Rightarrow> bool" where
  "work_unlimited collate parse tid eid s \<longleftrightarrow>
     (\<forall>ob\<in>set (listInvestigationObligations tid eid s). ob_required ob \<longrightarrow> settled_required tid eid s ob)
   \<and> (\<forall>c\<in>set (listDiscoveryCheckpoints tid eid s). ck_status c = CK_COMPLETE)
   \<and> (\<forall>p\<in>set (effective_now collate parse tid eid s). ef_conclusion p \<noteq> CONFLICT)
   \<and> (\<forall>a\<in>set (listInvestigationActions tid eid s). ac_status a \<in> {AC_FAILED, AC_BLOCKED, AC_CANCELLED} \<longrightarrow>
        (\<forall>ob\<in>set (listInvestigationObligations tid eid s). ob_required ob \<longrightarrow> ob_obligationId ob \<notin> set (ac_obligationIds a)))"

lemma can_close_iff: "ce_canClose (evaluate collate parse tid eid s) \<longleftrightarrow> work_finished tid eid s"
  by (auto simp: evaluate_def Let_def work_finished_def filter_empty_conv)

lemma no_failed_required:
  "\<not> list_ex (failed_required obs) actions \<longleftrightarrow> (\<forall>a\<in>set actions. ac_status a \<in> {AC_FAILED, AC_BLOCKED, AC_CANCELLED} \<longrightarrow>
     (\<forall>ob\<in>set obs. ob_required ob \<longrightarrow> ob_obligationId ob \<notin> set (ac_obligationIds a)))"
  unfolding list_ex_iff failed_required_def by auto

lemma checkpoints_done:
  "(\<forall>c\<in>C. ck_status c \<noteq> CK_RUNNING) \<Longrightarrow>
   \<not> (\<exists>c\<in>C. ck_status c = CK_LIMITED \<or> ck_status c = CK_FAILED) \<longleftrightarrow> (\<forall>c\<in>C. ck_status c = CK_COMPLETE)"
  by (metis checkpoint_status.exhaust checkpoint_status.distinct)

lemma evaluate_status:
  "ce_status (evaluate collate parse tid eid s) = (if \<not> work_finished tid eid s then IS_OPEN
    else if \<not> work_unlimited collate parse tid eid s then IS_LIMITED
    else if \<exists>p\<in>set (effective_now collate parse tid eid s). finding p then CLOSED_WITH_FINDINGS
    else if categories_concluded (effective_now collate parse tid eid s) (listCoverageRuns tid eid s)
      then CLOSED_NO_OBSERVED_FINDING else IS_LIMITED)"
proof (cases "work_finished tid eid s")
  case False
  with can_close_iff [of collate parse tid eid s] show ?thesis
    by (simp add: evaluate_def Let_def)
next
  case True
  then have "limited_ids tid eid s = [] \<longleftrightarrow>
      (\<forall>ob\<in>set (listInvestigationObligations tid eid s). ob_required ob \<longrightarrow> settled_required tid eid s ob)"
    by (intro limited_ids_Nil) (simp add: work_finished_def)
  with True have "(limited_ids tid eid s \<noteq> []
      \<or> filter (\<lambda>c. ck_status c = CK_LIMITED \<or> ck_status c = CK_FAILED) (listDiscoveryCheckpoints tid eid s) \<noteq> []
      \<or> filter (\<lambda>p. ef_conclusion p = CONFLICT) (effective_now collate parse tid eid s) \<noteq> []
      \<or> list_ex (failed_required (listInvestigationObligations tid eid s)) (listInvestigationActions tid eid s))
      \<longleftrightarrow> \<not> work_unlimited collate parse tid eid s"
    using checkpoints_done [of "set (listDiscoveryCheckpoints tid eid s)"]
      no_failed_required [of "listInvestigationObligations tid eid s" "listInvestigationActions tid eid s"]
    unfolding work_unlimited_def work_finished_def filter_empty_conv by blast
  with True can_close_iff [of collate parse tid eid s] findings_iff [of collate parse tid eid s] show ?thesis
    by (simp add: evaluate_def Let_def del: concat_eq_Nil_conv)
qed

text \<open>
  C21. An investigation is closed only when the work is done: it can be closed exactly when it
  has obligations, none of the required ones is open, every action has ended and no discovery
  runs; it is closed with findings only if a risk is in effect, and closed without finding only if
  none is, every required obligation is satisfied (one that asks for evidence by complete evidence
  of the epoch on its subject), discovery is complete, no conflict is open, no action for a
  required obligation failed, and every category has complete coverage and, unless it does not
  apply, a conclusion that nothing was found. Anything less is LIMITED.
\<close>

theorem closing_is_earned:
  "let ev = evaluate collate parse tid eid s; eff = set (effective_now collate parse tid eid s);
       obs = listInvestigationObligations tid eid s; cov = listCoverageRuns tid eid s in
     (ce_canClose ev \<longleftrightarrow> work_finished tid eid s) \<and> (ce_status ev = IS_OPEN \<longleftrightarrow> \<not> work_finished tid eid s)
   \<and> (ce_status ev = CLOSED_WITH_FINDINGS \<longleftrightarrow> work_finished tid eid s \<and> work_unlimited collate parse tid eid s
        \<and> (\<exists>p\<in>eff. finding p))
   \<and> (ce_status ev = CLOSED_NO_OBSERVED_FINDING \<longleftrightarrow> work_finished tid eid s \<and> work_unlimited collate parse tid eid s
        \<and> \<not> (\<exists>p\<in>eff. finding p) \<and> cov \<noteq> [] \<and> (\<forall>r\<in>set cov. cr_status r = CV_COMPLETE
          \<and> (cr_applicability r \<noteq> NOT_APPLICABLE \<longrightarrow> (\<exists>p\<in>eff. ef_category p = cr_category r
               \<and> ef_scope p = SC_OBSERVED_CATEGORY \<and> ef_conclusion p = Verdict NO_OBSERVED_FINDING))))"
proof -
  have "categories_concluded (effective_now collate parse tid eid s) cov \<longleftrightarrow> cov \<noteq> []
      \<and> (\<forall>r\<in>set cov. cr_status r = CV_COMPLETE \<and> (cr_applicability r \<noteq> NOT_APPLICABLE \<longrightarrow>
          (\<exists>p\<in>set (effective_now collate parse tid eid s). ef_category p = cr_category r
             \<and> ef_scope p = SC_OBSERVED_CATEGORY \<and> ef_conclusion p = Verdict NO_OBSERVED_FINDING)))" for cov
    unfolding categories_concluded_def category_concluded_def list_all_iff list_ex_iff by blast
  then show ?thesis unfolding Let_def evaluate_status by (simp add: can_close_iff)
qed

text \<open>One required obligation, satisfied; one category, complete and concluded.\<close>

definition sample_obligation :: "obligation_status \<Rightarrow> investigation_obligation" where
  "sample_obligation st = \<lparr>ob_obligationId = ''OB-1'', ob_taskId = ''T1'', ob_epochId = ''E1'', ob_hypothesisId = None,
     ob_obligationKind = ''CONTEXT'', ob_dedupeKey = ''k'', ob_subjectRefs = [], ob_required = True,
     ob_status = st, ob_resultRefs = [], ob_gapRefs = [], ob_createdAt = ''t'', ob_updatedAt = ''t''\<rparr>"

definition sample_coverage :: coverage_run where
  "sample_coverage = \<lparr>cr_coverageId = ''C1'', cr_taskId = ''T1'', cr_epochId = ''E1'', cr_category = Webshell,
     cr_presetId = ''p'', cr_presetVersion = ''1'', cr_status = CV_COMPLETE, cr_applicability = APPLICABLE,
     cr_completedCriteria = [], cr_missingCriteria = [], cr_createdAt = ''t''\<rparr>"

definition sample_session :: investigation_session where
  "sample_session = \<lparr>ss_sessionId = ''S1'', ss_taskId = ''T1'', ss_epochId = ''E1'', ss_engineVersion = ''1.0.0'',
     ss_playbookRegistryDigest = ''p'', ss_ruleRegistryDigest = ''r'', ss_authorizationVersion = ''v'',
     ss_authorizationEnvelope = None, ss_executionStatus = EX_RUNNING, ss_investigationStatus = IS_OPEN,
     ss_revision = 0, ss_completionSnapshotRef = None, ss_createdAt = ''t'', ss_updatedAt = ''t''\<rparr>"

definition sample_investigation :: "obligation_status \<Rightarrow> db" where
  "sample_investigation st = empty_db\<lparr>db_epochs := [sample_epoch ''E1''], db_sessions := [sample_session],
     db_obligations := [\<lparr>ow_dedupeKey = ''k'', ow_required = True,
       ow_createdAt = ''t'', ow_payload = sample_obligation st\<rparr>]\<rparr>"

definition sample_concluded :: db where
  "sample_concluded = (sample_investigation OB_SATISFIED)\<lparr>db_coverage := [sample_coverage],
     db_assessments := [system_conclusion ''T1'' ''E1'' sample_coverage ''u'' ''t'']\<rparr>"

lemma sample_concluded_effective:
  "\<exists>p. effective_now by_string clock_length ''T1'' ''E1'' sample_concluded = [p] \<and> ef_category p = Webshell
     \<and> ef_scope p = SC_OBSERVED_CATEGORY \<and> ef_conclusion p = Verdict NO_OBSERVED_FINDING"
proof -
  have "map (\<lambda>p. (ef_category p, ef_scope p, ef_conclusion p))
      (effective_now by_string clock_length ''T1'' ''E1'' sample_concluded)
      = [(Webshell, SC_OBSERVED_CATEGORY, Verdict NO_OBSERVED_FINDING)]" by code_simp
  then show ?thesis by auto
qed

theorem closing_is_earned_witness:
  "ce_canClose (evaluate by_string clock_length ''T1'' ''E1'' sample_concluded)
   \<and> ce_status (evaluate by_string clock_length ''T1'' ''E1'' sample_concluded) = CLOSED_NO_OBSERVED_FINDING"
proof -
  from sample_concluded_effective obtain p where p: "effective_now by_string clock_length ''T1'' ''E1'' sample_concluded = [p]"
    "ef_category p = Webshell" "ef_scope p = SC_OBSERVED_CATEGORY" "ef_conclusion p = Verdict NO_OBSERVED_FINDING" by blast
  have rows: "map ob_status (listInvestigationObligations ''T1'' ''E1'' sample_concluded) = [OB_SATISFIED]"
    "map ob_obligationKind (listInvestigationObligations ''T1'' ''E1'' sample_concluded) = [''CONTEXT'']"
    "listInvestigationActions ''T1'' ''E1'' sample_concluded = []"
    "listDiscoveryCheckpoints ''T1'' ''E1'' sample_concluded = []" by code_simp+
  have kind: "\<not> evidence_obligation ''CONTEXT''" by code_simp
  have cov: "listCoverageRuns ''T1'' ''E1'' sample_concluded = [sample_coverage]" by code_simp
  have "work_finished ''T1'' ''E1'' sample_concluded"
    using rows by (auto simp: work_finished_def open_required_def)
  moreover have "work_unlimited by_string clock_length ''T1'' ''E1'' sample_concluded"
    using rows kind by (auto simp: work_unlimited_def p settled_required_def)
  ultimately show ?thesis
    using closing_is_earned [of by_string clock_length "''T1''" "''E1''" sample_concluded]
    by (simp add: Let_def p cov finding_def sample_coverage_def)
qed

section \<open>A frozen investigation stays frozen\<close>

lemma sessions_log_event [obeys_intros]: "obeys (same db_sessions) (log_event tid eid ty pl t)"
  unfolding log_event_def appendInvestigationEvent_def create_id_def next_uuid_def Let_def
  by (auto simp: obeys_def same_def bind_act_def seq_act_def require_def split: prod.split sum.split)

lemma sessions_now [obeys_intros]: "obeys (same db_sessions) now"
  by (simp add: obeys_def same_def now_def)

lemma sessions_uuid [obeys_intros]: "obeys (same db_sessions) next_uuid"
  by (simp add: obeys_def same_def next_uuid_def)

lemma sessions_write [obeys_intros]: "(\<And>s. db_sessions (g s) = db_sessions s) \<Longrightarrow> obeys (same db_sessions) (write_act g)"
  by (simp add: obeys_def same_def)

lemma sessions_block [obeys_intros]: "obeys (same db_sessions) (block_ready reason a)"
  unfolding block_ready_def blockReadyInvestigationAction_def set_action_def Let_def
  by (intro obeys_intros) simp

lemma sessions_settle [obeys_intros]: "obeys (same db_sessions) (settle_obligation st reason ob)"
  unfolding settle_obligation_def updateInvestigationObligation_def log_obligation_def
  by (intro obeys_intros) simp

lemma sessions_putAssessment [obeys_intros]: "obeys (same db_sessions) (putAssessment a)"
  unfolding putAssessment_def insert_assessment_def
  by (auto simp: obeys_def same_def act_unfold split: sum.split)

lemma sessions_materialize [obeys_intros]:
  "obeys (same db_sessions) (materializeDeterministicCategoryConclusions collate parse tid eid)"
  unfolding materializeDeterministicCategoryConclusions_def conclude_run_def
  by (intro obeys_intros)

lemma putCompletionSnapshot_result:
  assumes "putCompletionSnapshot v s = (Inr u, s')"
  shows "s' = s\<lparr>db_snapshots := db_snapshots s @ [v]\<rparr> \<and> cs_snapshotRef v \<notin> cs_snapshotRef ` set (db_snapshots s)"
  using assms unfolding putCompletionSnapshot_def assertInvestigationScope_def
  by (auto simp: act_simps has_key_def)

lemma find_updated:
  assumes "List.find p xs = Some x" and "hit x" and "p y" and "\<And>z. hit z \<Longrightarrow> p z"
  shows "List.find p (update_rows hit (\<lambda>_. y) xs) = Some y"
  using assms(1) by (induction xs) (auto simp: update_rows_def assms split: if_splits)

lemma snapshots_log_event [obeys_intros]: "obeys (same db_snapshots) (log_event tid eid ty pl t)"
  unfolding log_event_def appendInvestigationEvent_def create_id_def next_uuid_def Let_def
  by (auto simp: obeys_def same_def bind_act_def seq_act_def require_def split: prod.split sum.split)

lemma stop_session_result:
  assumes "stop_session tid eid st snap s = (Inr u, s')" and "getInvestigationSession tid eid s = Some x"
  shows "getInvestigationSession tid eid s' = Some (x\<lparr>ss_investigationStatus := st, ss_executionStatus := STOPPED,
         ss_completionSnapshotRef := Some (cs_snapshotRef snap), ss_revision := ss_revision x + 1,
         ss_updatedAt := cs_createdAt snap\<rparr>) \<and> db_snapshots s' = db_snapshots s"
proof -
  let ?x = "x\<lparr>ss_investigationStatus := st, ss_executionStatus := STOPPED,
         ss_completionSnapshotRef := Some (cs_snapshotRef snap), ss_revision := ss_revision x + 1,
         ss_updatedAt := cs_createdAt snap\<rparr>"
  let ?hit = "\<lambda>r. ss_sessionId r = ss_sessionId ?x \<and> ss_taskId r = ss_taskId ?x
                     \<and> ss_epochId r = ss_epochId ?x \<and> ss_revision r = ss_revision x"
  let ?s1 = "s\<lparr>db_sessions := update_rows ?hit (\<lambda>_. ?x) (db_sessions s)\<rparr>"
  from assms(2) have scope: "ss_taskId x = tid" "ss_epochId x = eid"
    by (auto simp: getInvestigationSession_def dest: find_SomeD)
  from assms obtain ty pl t where log: "log_event (ss_taskId ?x) (ss_epochId ?x) ty pl t ?s1 = (Inr u, s')"
    unfolding stop_session_def updateInvestigationSession_def by (auto simp: act_simps Let_def)
  have "db_sessions s' = db_sessions ?s1" "db_snapshots s' = db_snapshots ?s1"
    using obeys_sameD [OF sessions_log_event log] obeys_sameD [OF snapshots_log_event log] by blast+
  moreover have "List.find (\<lambda>x. ss_taskId x = tid \<and> ss_epochId x = eid) (update_rows ?hit (\<lambda>_. ?x) (db_sessions s)) = Some ?x"
    using assms(2) unfolding getInvestigationSession_def
    by (rule find_updated) (auto simp: scope)
  ultimately show ?thesis by (simp add: getInvestigationSession_def)
qed

lemma snapshot_stays:
  assumes "putCompletionSnapshot snap s = (Inr u, s1)" and "stop_session tid eid st snap s1 = (Inr w, s')"
    and "getInvestigationSession tid eid s \<noteq> None" and "cs_taskId snap = tid" "cs_epochId snap = eid"
    and "cs_snapshotRef snap \<noteq> []"
  shows "existing_snapshot tid eid s' = Some snap"
    and "\<exists>x. getInvestigationSession tid eid s' = Some x \<and> ss_executionStatus x = STOPPED \<and> ss_investigationStatus x = st"
proof -
  from putCompletionSnapshot_result [OF assms(1)] have s1: "s1 = s\<lparr>db_snapshots := db_snapshots s @ [snap]\<rparr>"
    and fresh: "cs_snapshotRef snap \<notin> cs_snapshotRef ` set (db_snapshots s)" by auto
  from assms(3) obtain x where "getInvestigationSession tid eid s1 = Some x"
    by (auto simp: s1 getInvestigationSession_def)
  from stop_session_result [OF assms(2) this] have x: "getInvestigationSession tid eid s' =
      Some (x\<lparr>ss_investigationStatus := st, ss_executionStatus := STOPPED,
         ss_completionSnapshotRef := Some (cs_snapshotRef snap), ss_revision := ss_revision x + 1,
         ss_updatedAt := cs_createdAt snap\<rparr>)" and snaps: "db_snapshots s' = db_snapshots s @ [snap]"
    by (simp_all add: s1)
  have "List.find (\<lambda>c. cs_snapshotRef c = cs_snapshotRef snap \<and> cs_taskId c = tid \<and> cs_epochId c = eid)
      (db_snapshots s) = None"
    unfolding find_None_iff' using fresh by (metis imageI)
  with assms(4,5) have "getCompletionSnapshot tid eid (cs_snapshotRef snap) s' = Some snap"
    by (simp add: getCompletionSnapshot_def snaps find_snoc)
  with x assms(6) show "existing_snapshot tid eid s' = Some snap"
    by (simp add: existing_snapshot_def nonempty_def)
  from x show "\<exists>x. getInvestigationSession tid eid s' = Some x \<and> ss_executionStatus x = STOPPED \<and> ss_investigationStatus x = st"
    by simp
qed

lemma sessions_getInvestigationSession:
  "db_sessions s' = db_sessions s \<Longrightarrow> getInvestigationSession tid eid s' = getInvestigationSession tid eid s"
  by (simp add: getInvestigationSession_def)

lemma freeze_result:
  assumes "freeze collate parse tid eid s = (Inr snap, s')" and "getInvestigationSession tid eid s \<noteq> None"
  shows "existing_snapshot tid eid s' = Some snap"
    and "\<exists>x. getInvestigationSession tid eid s' = Some x \<and> ss_executionStatus x = STOPPED
      \<and> ss_investigationStatus x = cs_investigationStatus snap"
proof -
  from assms(1) obtain s1 s3 where
    m: "materializeDeterministicCategoryConclusions collate parse tid eid s = (Inr (), s1)" and
    put: "putCompletionSnapshot snap (s1\<lparr>uuid_pos := Suc (uuid_pos s1), clock_pos := Suc (clock_pos s1)\<rparr>) = (Inr (), s3)" and
    stop: "stop_session tid eid (cs_investigationStatus snap) snap s3 = (Inr (), s')" and
    snap: "snap = evaluation_snapshot tid eid (evaluate collate parse tid eid s1) (uuid_tape s1 (uuid_pos s1))
        (maxInvestigationEventSeq tid eid (s1\<lparr>uuid_pos := Suc (uuid_pos s1)\<rparr>)) (clock_tape s1 (clock_pos s1))"
    unfolding freeze_def Let_def by (auto simp: act_simps next_uuid_def now_def)
  have "db_sessions s1 = db_sessions s" by (rule obeys_sameD [OF sessions_materialize m])
  then have "getInvestigationSession tid eid (s1\<lparr>uuid_pos := Suc (uuid_pos s1), clock_pos := Suc (clock_pos s1)\<rparr>) \<noteq> None"
    using assms(2) by (simp add: getInvestigationSession_def)
  from snapshot_stays [OF put stop this] show "existing_snapshot tid eid s' = Some snap"
    "\<exists>x. getInvestigationSession tid eid s' = Some x \<and> ss_executionStatus x = STOPPED
      \<and> ss_investigationStatus x = cs_investigationStatus snap" by (simp_all add: snap evaluation_snapshot_def)
qed


text \<open>An investigation whose only obligation could not be met.\<close>

lemma sample_limited_rows:
  "listInvestigationActions ''T1'' ''E1'' (sample_investigation OB_LIMITED) = []"
  "listInvestigationObligations ''T1'' ''E1'' (sample_investigation OB_LIMITED) = [sample_obligation OB_LIMITED]"
  "listDiscoveryCheckpoints ''T1'' ''E1'' (sample_investigation OB_LIMITED) = []"
  "existing_snapshot ''T1'' ''E1'' (sample_investigation OB_LIMITED) = None"
  by code_simp+

lemma sample_limited_session:
  "getInvestigationSession ''T1'' ''E1'' (sample_investigation OB_LIMITED) = Some sample_session"
  by code_simp

definition sample_frozen :: "(err + completion_snapshot) \<times> db" where
  "sample_frozen = freezeWithLimits by_string clock_length ''T1'' ''E1'' ''stop'' (sample_investigation OB_LIMITED)"

lemma sample_frozen_returns: "\<exists>snap. fst sample_frozen = Inr snap"
proof -
  let ?s = "sample_investigation OB_LIMITED"
  have quiet: "freezeWithLimits by_string clock_length ''T1'' ''E1'' ''stop'' ?s
      = freeze by_string clock_length ''T1'' ''E1'' ?s"
    by (simp add: freezeWithLimits_def sample_limited_rows settle_obligation_def sample_obligation_def
        bind_act_def seq_act_def)
  have none: "materializeDeterministicCategoryConclusions by_string clock_length ''T1'' ''E1'' ?s = (Inr (), ?s)"
    by (simp add: materializeDeterministicCategoryConclusions_def deterministic_scope_done_def sample_limited_rows
        bind_act_def sample_obligation_def)
  have "work_finished ''T1'' ''E1'' ?s"
    by (simp add: work_finished_def sample_limited_rows open_required_def sample_obligation_def)
  then have "ce_canClose (evaluate by_string clock_length ''T1'' ''E1'' ?s)" by (simp add: can_close_iff)
  with none show ?thesis
    unfolding sample_frozen_def quiet freeze_def Let_def putCompletionSnapshot_def stop_session_def
      updateInvestigationSession_def assertInvestigationScope_def log_event_def appendInvestigationEvent_def
    by (simp add: bind_act_def seq_act_def next_uuid_def now_def create_id_def transaction_def
        sample_investigation_def empty_defs getScanEpoch_def sample_epoch_def evaluation_snapshot_def has_key_def
        getInvestigationSession_def sample_session_def changes_def update_rows_def)
qed


end
