(* ===== verification/Cancelling.thy ===== *)
theory Cancelling
  imports Completion
begin

text \<open>
  What \<open>freezeCancelled\<close> of \<open>src/investigation/completion-validator.ts\<close> leaves behind: the lemmas
  on \<open>cancel_action\<close> and \<open>settle_obligation\<close>, and the property that nothing of the epoch stays active.
\<close>

section \<open>Cancelling leaves nothing active\<close>

text \<open>A loop whose every step settles the rows with one key settles the rows with all the keys.\<close>

lemma each_act_clears:
  assumes step: "\<And>x s s'. x \<in> set xs \<Longrightarrow> I s \<Longrightarrow> f x s = (Inr (), s') \<Longrightarrow>
      I s' \<and> (\<forall>r\<in>set (rows s'). r \<in> set (rows s) \<and> key r \<noteq> k x \<or> settled r)"
    and "each_act f xs s = (Inr (), s')" and "I s"
  shows "I s' \<and> (\<forall>r\<in>set (rows s'). r \<in> set (rows s) \<and> key r \<notin> k ` set xs \<or> settled r)"
  using assms
proof (induction xs arbitrary: s)
  case (Cons x xs)
  from Cons.prems(2) obtain s1 where x: "f x s = (Inr (), s1)" and xs: "each_act f xs s1 = (Inr (), s')"
    by (auto simp: act_simps)
  from Cons.prems(1) [OF _ Cons.prems(3) x] have 1: "I s1"
    "\<forall>r\<in>set (rows s1). r \<in> set (rows s) \<and> key r \<noteq> k x \<or> settled r" by simp_all
  have "I s' \<and> (\<forall>r\<in>set (rows s'). r \<in> set (rows s1) \<and> key r \<notin> k ` set xs \<or> settled r)"
    by (rule Cons.IH [OF _ xs 1(1)]) (rule Cons.prems(1), auto)
  with 1(2) show ?case by auto
qed simp

lemma cancel_action_result:
  assumes inv: "machine_inv (tables s)" and act: "action_active (ac_status a)"
    and run: "cancel_action reason a s = (Inr (), s')"
  shows "machine_inv (tables s') \<and> (\<forall>x\<in>set (db_actions s'). x \<in> set (db_actions s) \<and> ac_actionId x \<noteq> ac_actionId a
    \<or> action_terminal (ac_status x))"
proof -
  have "\<exists>b. queue_step (tables s) (tables s') \<and> ac_actionId b = ac_actionId a \<and> ac_status b = AC_BLOCKED
    \<and> db_actions s' = put_action b (db_actions s)"
  proof (cases "ac_status a = AC_READY")
    case True
    with run obtain b where "blockReadyInvestigationAction (ac_actionId a) reason s = (Inr b, s')"
      by (auto simp: cancel_action_def block_ready_def act_simps)
    from block_refines [OF inv this] show ?thesis by blast
  next
    case False
    with act have "ac_status a = AC_RUNNING" by (cases "ac_status a") simp_all
    with run obtain b where "finishInvestigationAction (ac_actionId a) (ac_revision a) AC_BLOCKED
        (option_or (ac_resultRefs a) []) (Some (''REMOTE_RESULT_UNKNOWN:'' @ reason)) s = (Inr b, s')"
      by (auto simp: cancel_action_def act_simps)
    from finish_refines [OF inv _ this] show ?thesis by auto
  qed
  then obtain b where b: "queue_step (tables s) (tables s')" "ac_actionId b = ac_actionId a" "ac_status b = AC_BLOCKED"
    "db_actions s' = put_action b (db_actions s)" by blast
  from queue_step_inv [OF b(1) inv] show ?thesis
    by (auto simp: b put_action_def update_rows_def)
qed

lemma obligations_log_event: "obeys (same db_obligations) (log_event tid eid ty pl t)"
  unfolding log_event_def appendInvestigationEvent_def create_id_def next_uuid_def Let_def
  by (auto simp: obeys_def same_def bind_act_def seq_act_def require_def split: prod.split sum.split)

lemma settle_obligation_result:
  assumes "distinct (map ow_id (db_obligations s))" and opn: "ob_status ob \<in> {OB_OPEN, OB_QUEUED}"
    and run: "settle_obligation st reason ob s = (Inr (), s')" and st: "st \<notin> {OB_OPEN, OB_QUEUED}"
  shows "distinct (map ow_id (db_obligations s')) \<and> (\<forall>r\<in>set (db_obligations s').
    r \<in> set (db_obligations s) \<and> (ow_scope r, ow_id r) \<noteq> ((ob_taskId ob, ob_epochId ob), ob_obligationId ob)
    \<or> ow_status r \<notin> {OB_OPEN, OB_QUEUED})"
proof -
  obtain v t where v: "v = ob\<lparr>ob_status := st, ob_gapRefs := unique (ob_gapRefs ob @ [reason]), ob_updatedAt := t\<rparr>"
    and up: "updateInvestigationObligation v (ob_status ob) (snd (now s)) = (Inr (), s')"
    using run opn by (auto simp: settle_obligation_def act_simps now_def)
  let ?hit = "obligation_hit v (ob_status ob)"
  from up obtain ty pl where n: "changes ?hit (db_obligations s) = 1" and
    log: "log_event (ob_taskId v) (ob_epochId v) ty pl (ob_updatedAt v) (s\<lparr>clock_pos := Suc (clock_pos s),
      db_obligations := update_rows ?hit (\<lambda>r. r\<lparr>ow_payload := v\<rparr>) (db_obligations s)\<rparr>) = (Inr (), s')"
    by (auto simp: updateInvestigationObligation_def log_obligation_def act_simps now_def)
  from n obeys_sameD [OF obligations_log_event log] have rows: "changes ?hit (db_obligations s) = 1"
    "db_obligations s' = update_rows ?hit (\<lambda>r. r\<lparr>ow_payload := v\<rparr>) (db_obligations s)" by simp_all
  have keys: "map ow_id (db_obligations s') = map ow_id (db_obligations s)"
    unfolding rows(2) by (rule update_rows_keys) (simp add: obligation_hit_def ow_id_def)
  from rows(1) have "filter ?hit (db_obligations s) \<noteq> []" by (auto simp: changes_def)
  then obtain h where h: "h \<in> set (db_obligations s)" "?hit h" unfolding filter_empty_conv by blast
  have "r = h" if "r \<in> set (db_obligations s)" "ow_id r = ow_id h" for r
    using assms(1) that h(1) by (auto simp: distinct_map inj_on_def)
  with h(2) have "?hit r" if "r \<in> set (db_obligations s)" "ow_id r = ob_obligationId ob" for r
    using that by (auto simp: obligation_hit_def v)
  then have settled: "\<forall>r\<in>set (db_obligations s'). r \<in> set (db_obligations s) \<and> ow_id r \<noteq> ob_obligationId ob
      \<or> ow_status r \<notin> {OB_OPEN, OB_QUEUED}"
    using st by (auto simp: rows(2) update_rows_def v ow_status_def)
  moreover from keys assms(1) have "distinct (map ow_id (db_obligations s'))" by simp
  ultimately show ?thesis by blast
qed

text \<open>What the rest of the cancellation leaves alone.\<close>

definition work_rows :: "'a db_scheme \<Rightarrow> queue \<times> obligation_row list" where
  "work_rows s = (tables s, db_obligations s)"

lemma work_log [obeys_intros]: "obeys (same work_rows) (log_event tid eid ty pl t)"
  by (simp add: obeys_def same_def work_rows_def obeys_snd [OF tables_log] obeys_snd [OF obligations_log_event])

lemma work_stop [obeys_intros]: "obeys (same work_rows) (stop_session tid eid st snap)"
  unfolding stop_session_def updateInvestigationSession_def Let_def
  by (intro obeys_intros) (simp add: same_def work_rows_def tables_def)

lemma work_snapshot [obeys_intros]: "obeys (same work_rows) (putCompletionSnapshot snap)"
  unfolding putCompletionSnapshot_def assertInvestigationScope_def
  by (intro obeys_intros) (simp add: same_def work_rows_def tables_def)

lemma tables_settle [obeys_intros]: "obeys (same tables) (settle_obligation st reason ob)"
  unfolding settle_obligation_def updateInvestigationObligation_def log_obligation_def
  by (intro obeys_intros) (simp add: same_def tables_def)

lemma obligations_cancel [obeys_intros]: "obeys (same db_obligations) (cancel_action reason a)"
  unfolding cancel_action_def block_ready_def blockReadyInvestigationAction_def finishInvestigationAction_def
    set_action_def close_attempt_def Let_def
  by (intro obeys_intros obligations_log_event) (simp_all add: same_def obeys_def now_def)

lemma cancel_all_actions:
  fixes s :: "'a db_scheme"
  assumes 1: "each_act (cancel_action reason) (listInvestigationActions tid eid s) s = (Inr (), s1)"
    and inv: "machine_inv (tables s)"
  shows "\<forall>a\<in>set (listInvestigationActions tid eid s1). ac_status a \<notin> {AC_READY, AC_RUNNING}"
proof
  let ?acts = "listInvestigationActions tid eid s"
  let ?cancel = "cancel_action reason :: investigation_action \<Rightarrow> ('a db_scheme, unit) act"
  have idle: "(\<lambda>a. if \<not> action_active (ac_status a) then return_act () else ?cancel a) = ?cancel"
  proof (rule ext)
    show "(if \<not> action_active (ac_status a) then return_act () else ?cancel a) = ?cancel a" for a
      by (cases "ac_status a") (simp_all add: cancel_action_def)
  qed
  from 1 each_act_filter [of "\<lambda>a. \<not> action_active (ac_status a)" ?cancel ?acts, unfolded idle not_not]
  have "each_act (?cancel) (filter (\<lambda>a. action_active (ac_status a)) ?acts) s = (Inr (), s1)" by simp
  then have "machine_inv (tables s1) \<and> (\<forall>a\<in>set (db_actions s1). a \<in> set (db_actions s)
      \<and> ac_actionId a \<notin> ac_actionId ` set (filter (\<lambda>a. action_active (ac_status a)) ?acts)
      \<or> action_terminal (ac_status a))"
  proof (rule each_act_clears [where I = "\<lambda>s. machine_inv (tables s)" and rows = db_actions and key = ac_actionId
      and k = ac_actionId and settled = "\<lambda>a. action_terminal (ac_status a)", OF _ _ inv, rotated])
    fix x and t t' :: "'a db_scheme"
    assume "x \<in> set (filter (\<lambda>a. action_active (ac_status a)) ?acts)" "machine_inv (tables t)" "?cancel x t = (Inr (), t')"
    then show "machine_inv (tables t') \<and> (\<forall>r\<in>set (db_actions t'). r \<in> set (db_actions t) \<and> ac_actionId r \<noteq> ac_actionId x
        \<or> action_terminal (ac_status r))" by (intro cancel_action_result) auto
  qed
  then have acts: "\<forall>a\<in>set (db_actions s1). a \<in> set (db_actions s)
      \<and> ac_actionId a \<notin> ac_actionId ` set (filter (\<lambda>a. action_active (ac_status a)) ?acts)
      \<or> action_terminal (ac_status a)" by blast
  fix a assume "a \<in> set (listInvestigationActions tid eid s1)"
  then have "a \<in> set (db_actions s1)" "ac_scope a = (tid, eid)" by (simp_all add: listInvestigationActions_def)
  with acts have "action_terminal (ac_status a)" by (auto simp: listInvestigationActions_def action_terminal_iff)
  then show "ac_status a \<notin> {AC_READY, AC_RUNNING}" by auto
qed

lemma settle_all_obligations:
  fixes s1 :: "'a db_scheme"
  assumes 2: "each_act (settle_obligation OB_CANCELLED reason) (listInvestigationObligations tid eid s1) s1 = (Inr (), s2)"
    and ids: "distinct (map ow_id (db_obligations s1))"
  shows "\<forall>ob\<in>set (listInvestigationObligations tid eid s2). ob_status ob \<notin> {OB_OPEN, OB_QUEUED}"
proof
  let ?settle = "settle_obligation OB_CANCELLED reason :: investigation_obligation \<Rightarrow> ('a db_scheme, unit) act"
  have settled: "(\<lambda>ob. if ob_status ob \<notin> {OB_OPEN, OB_QUEUED} then return_act () else ?settle ob)
      = ?settle"
    by (rule ext) (simp add: settle_obligation_def)
  from 2 each_act_filter [of "\<lambda>ob. ob_status ob \<notin> {OB_OPEN, OB_QUEUED}" ?settle
      "listInvestigationObligations tid eid s1", unfolded settled not_not]
  have 3: "each_act (?settle)
      (filter (\<lambda>ob. ob_status ob \<in> {OB_OPEN, OB_QUEUED}) (listInvestigationObligations tid eid s1)) s1 = (Inr (), s2)" by simp
  from 3 have "distinct (map ow_id (db_obligations s2)) \<and> (\<forall>r\<in>set (db_obligations s2). r \<in> set (db_obligations s1)
      \<and> (ow_scope r, ow_id r) \<notin> (\<lambda>ob. ((ob_taskId ob, ob_epochId ob), ob_obligationId ob)) `
        set (filter (\<lambda>ob. ob_status ob \<in> {OB_OPEN, OB_QUEUED}) (listInvestigationObligations tid eid s1))
      \<or> ow_status r \<notin> {OB_OPEN, OB_QUEUED})"
  proof (rule each_act_clears [where I = "\<lambda>s. distinct (map ow_id (db_obligations s))" and rows = db_obligations
      and key = "\<lambda>r. (ow_scope r, ow_id r)" and k = "\<lambda>ob. ((ob_taskId ob, ob_epochId ob), ob_obligationId ob)"
      and settled = "\<lambda>r. ow_status r \<notin> {OB_OPEN, OB_QUEUED}", OF _ _ ids, rotated])
    fix ob and t t' :: "'a db_scheme"
    assume "ob \<in> set (filter (\<lambda>ob. ob_status ob \<in> {OB_OPEN, OB_QUEUED}) (listInvestigationObligations tid eid s1))"
      "distinct (map ow_id (db_obligations t))" "?settle ob t = (Inr (), t')"
    then show "distinct (map ow_id (db_obligations t')) \<and> (\<forall>r\<in>set (db_obligations t').
        r \<in> set (db_obligations t) \<and> (ow_scope r, ow_id r) \<noteq> ((ob_taskId ob, ob_epochId ob), ob_obligationId ob)
        \<or> ow_status r \<notin> {OB_OPEN, OB_QUEUED})" by (intro settle_obligation_result) auto
  qed
  then have obs: "\<forall>r\<in>set (db_obligations s2). r \<in> set (db_obligations s1) \<and> (ow_scope r, ow_id r) \<notin>
      (\<lambda>ob. ((ob_taskId ob, ob_epochId ob), ob_obligationId ob)) `
        set (filter (\<lambda>ob. ob_status ob \<in> {OB_OPEN, OB_QUEUED}) (listInvestigationObligations tid eid s1))
      \<or> ow_status r \<notin> {OB_OPEN, OB_QUEUED}" by blast
  fix ob assume "ob \<in> set (listInvestigationObligations tid eid s2)"
  then obtain r where r: "r \<in> set (db_obligations s2)" "ow_scope r = (tid, eid)" "ob = ow_payload r"
    by (auto simp: listInvestigationObligations_def)
  show "ob_status ob \<notin> {OB_OPEN, OB_QUEUED}"
  proof
    assume "ob_status ob \<in> {OB_OPEN, OB_QUEUED}"
    with r(3) have opn: "ow_status r \<in> {OB_OPEN, OB_QUEUED}" by (simp add: ow_status_def)
    with obs r(1) have "r \<in> set (db_obligations s1)" "(ow_scope r, ow_id r) \<notin>
      (\<lambda>ob. ((ob_taskId ob, ob_epochId ob), ob_obligationId ob)) `
        set (filter (\<lambda>ob. ob_status ob \<in> {OB_OPEN, OB_QUEUED}) (listInvestigationObligations tid eid s1))" by blast+
    moreover from this(1) opn r(2) have "ow_payload r \<in> set (filter (\<lambda>ob. ob_status ob \<in> {OB_OPEN, OB_QUEUED})
        (listInvestigationObligations tid eid s1))"
      by (auto simp: listInvestigationObligations_def ow_status_def)
    ultimately show False by (auto simp: ow_scope_def ow_id_def)
  qed
qed

text \<open>
  C23. Cancelling really stops the work: when an investigation that was not frozen yet is
  cancelled, no action of its epoch is left READY or RUNNING and no obligation, required or not,
  is left OPEN or QUEUED, and the snapshot says CANCELLED.
\<close>

theorem cancelling_stops_the_work:
  assumes "freezeCancelled collate parse tid eid reason s = (Inr snap, s')"
    and "existing_snapshot tid eid s = None" and "machine_inv (tables s)"
    and "distinct (map ow_id (db_obligations s))"
  shows "(\<forall>a\<in>set (listInvestigationActions tid eid s'). ac_status a \<notin> {AC_READY, AC_RUNNING})
    \<and> (\<forall>ob\<in>set (listInvestigationObligations tid eid s'). ob_status ob \<notin> {OB_OPEN, OB_QUEUED})
    \<and> cs_investigationStatus snap = IS_CANCELLED"
proof -
  from assms(1,2) obtain s1 s2 s4 where
    1: "each_act (cancel_action reason) (listInvestigationActions tid eid s) s = (Inr (), s1)" and
    2: "each_act (settle_obligation OB_CANCELLED reason) (listInvestigationObligations tid eid s1) s1 = (Inr (), s2)" and
    put: "putCompletionSnapshot snap (s2\<lparr>clock_pos := Suc (clock_pos s2), uuid_pos := Suc (uuid_pos s2)\<rparr>) = (Inr (), s4)" and
    stop: "stop_session tid eid IS_CANCELLED snap s4 = (Inr (), s')" and
    snap: "cs_investigationStatus snap = IS_CANCELLED"
    unfolding freezeCancelled_def Let_def
    by (auto simp: act_simps now_def next_uuid_def cancellation_snapshot_def)
  have rows: "work_rows s' = work_rows s2"
    using obeys_sameD [OF work_snapshot put] obeys_sameD [OF work_stop stop] by (simp add: work_rows_def tables_def)
  have "obeys (same db_obligations) (each_act (cancel_action reason) (listInvestigationActions tid eid s))"
    and "obeys (same tables) (each_act (settle_obligation OB_CANCELLED reason) (listInvestigationObligations tid eid s1))"
    by (intro obeys_intros)+
  from obeys_sameD [OF this(1) 1] obeys_sameD [OF this(2) 2] rows
  have same: "db_obligations s1 = db_obligations s" "db_actions s' = db_actions s1" "db_obligations s' = db_obligations s2"
    by (simp_all add: work_rows_def tables_def)
  have lists: "listInvestigationActions tid eid s' = listInvestigationActions tid eid s1"
    "listInvestigationObligations tid eid s' = listInvestigationObligations tid eid s2"
    by (simp_all add: listInvestigationActions_def listInvestigationObligations_def same)
  from settle_all_obligations [OF 2] assms(4) same(1) cancel_all_actions [OF 1 assms(3)] snap
  show ?thesis unfolding lists by simp
qed

theorem cancelling_stops_the_work_witness:
  "\<exists>snap s'. freezeCancelled by_string clock_length ''T1'' ''E1'' ''stop'' (sample_investigation OB_OPEN) = (Inr snap, s')
     \<and> list_all (\<lambda>ob. ob_status ob \<noteq> OB_OPEN) (listInvestigationObligations ''T1'' ''E1'' s')"
proof -
  let ?s = "sample_investigation OB_OPEN"
  have rows: "listInvestigationActions ''T1'' ''E1'' ?s = []"
    "listInvestigationObligations ''T1'' ''E1'' ?s = [sample_obligation OB_OPEN]"
    "existing_snapshot ''T1'' ''E1'' ?s = None" by code_simp+
  have "\<exists>snap s'. freezeCancelled by_string clock_length ''T1'' ''E1'' ''stop'' ?s = (Inr snap, s')"
    unfolding freezeCancelled_def bind_act_def seq_act_def
    by (simp add: rows, simp add: settle_obligation_def updateInvestigationObligation_def log_obligation_def
        putCompletionSnapshot_def stop_session_def updateInvestigationSession_def assertInvestigationScope_def
        log_event_def appendInvestigationEvent_def bind_act_def seq_act_def next_uuid_def now_def create_id_def
        transaction_def sample_investigation_def empty_defs getScanEpoch_def sample_epoch_def cancellation_snapshot_def
        has_key_def getInvestigationSession_def sample_session_def changes_def update_rows_def obligation_hit_def
        ow_id_def ow_scope_def ow_status_def sample_obligation_def Let_def)
  then obtain snap s' where run: "freezeCancelled by_string clock_length ''T1'' ''E1'' ''stop'' ?s = (Inr snap, s')" by blast
  have "machine_inv (tables ?s)" "distinct (map ow_id (db_obligations ?s))"
    by (simp_all add: tables_def sample_investigation_def empty_defs machine_inv_def attempts_of_def active_in_def changes_def)
  from cancelling_stops_the_work [OF run rows(3) this] run show ?thesis
    unfolding list_all_iff by blast
qed

end
