(* ===== verification/FactQuery.thy ===== *)
theory FactQuery
  imports Assessments Predicates JsSort
begin

text \<open>
  The queries of the model over the store: \<open>src/facts/query.ts\<close> and the methods
  \<open>prepareQueryFacts\<close>, \<open>previewQueryFacts\<close>, \<open>queryFacts\<close> and \<open>modelViewRows\<close> of
  \<open>src/storage/runtime-store.ts\<close>. \<open>collate a b\<close> stands for \<open>String(a).localeCompare(String(b))\<close>
  and \<open>digest\<close> for the digest of the canonical query.
\<close>

section \<open>The query\<close>

datatype direction = Asc | Desc

type_synonym js_row = "(string \<times> js) list"

record fact_query =
  fq_view :: query_view
  fq_namespace :: "namespace_name option"
  fq_predicate :: js
  fq_sourceRunId :: "string option"
  fq_subjectRef :: "id option"
  fq_sourceKind :: "fact_source_kind option"
  fq_completeness :: "completeness option"
  fq_category :: "string option"
  fq_authorType :: "string option"
  fq_verdict :: "string option"
  fq_status :: "string option"
  fq_applicability :: "string option"
  fq_select :: "string list"
  fq_orderBy :: "(string \<times> direction) list option"
  fq_limit :: jsnum
  fq_cursorRef :: "id option"

record query_page =
  qp_queryRef :: id
  qp_rows :: "js_row list"
  qp_nextCursorRef :: "id option"
  qp_snapshotMaxFactSeq :: nat

record query_result =
  qr_page :: query_page
  qr_snapshot :: query_snapshot
  qr_cursor :: "(id \<times> cursor_value) option"

fun FACT_QUERY_SELECT_FIELDS :: "query_view \<Rightarrow> string list" where
  "FACT_QUERY_SELECT_FIELDS V_facts = [''factId'', ''factSeq'', ''namespace'', ''subjectRef'', ''observedAt'',
     ''sourceRunId'', ''source'', ''collector'', ''consistency'', ''completeness'', ''gaps'', ''payload'',
     ''redactedFields'', ''unavailableFields'']"
| "FACT_QUERY_SELECT_FIELDS V_edges = [''edgeId'', ''relation'', ''fromRef'', ''toRef'', ''sourceRunId'', ''observedAt'']"
| "FACT_QUERY_SELECT_FIELDS V_evidence_meta = [''evidenceId'', ''type'', ''source'', ''sha256'', ''size'',
     ''collectedAt'', ''tool'', ''toolCallId'', ''subjectRef'', ''complete'']"
| "FACT_QUERY_SELECT_FIELDS V_assessments = [''assessmentId'', ''authorType'', ''category'', ''subjectRef'', ''scope'',
     ''verdict'', ''severity'', ''confidence'', ''rationale'', ''evidenceRefs'', ''factRefs'', ''queryRefs'', ''createdAt'']"
| "FACT_QUERY_SELECT_FIELDS V_coverage = [''coverageId'', ''category'', ''presetId'', ''presetVersion'', ''status'',
     ''applicability'', ''completedCriteria'', ''missingCriteria'', ''createdAt'']"

definition defaultFactQuerySelect :: "query_view \<Rightarrow> string list" where
  "defaultFactQuerySelect view = (if view = V_facts
     then [''factId'', ''namespace'', ''subjectRef'', ''sourceRunId'', ''completeness'', ''gaps'', ''payload'']
     else FACT_QUERY_SELECT_FIELDS view)"

fun limit_ok :: "jsnum \<Rightarrow> bool" where
  "limit_ok (Fin q) = (is_integral q \<and> 1 \<le> q \<and> q \<le> 500)"
| "limit_ok _ = False"

fun limit_of :: "jsnum \<Rightarrow> nat" where
  "limit_of (Fin q) = nat \<lfloor>q\<rfloor>"
| "limit_of _ = 0"

text \<open>A filter is set when its string is not empty (\<open>if (ast.category || ...)\<close>).\<close>

definition given :: "string option \<Rightarrow> bool" where
  "given x \<longleftrightarrow> nonempty x \<noteq> None"

definition fields_ok :: "fact_query \<Rightarrow> bool" where
  "fields_ok ast \<longleftrightarrow> (let allowed = set (FACT_QUERY_SELECT_FIELDS (fq_view ast)) in
     1 \<le> length (fq_select ast) \<and> length (fq_select ast) \<le> 32 \<and> list_all (\<lambda>f. f \<in> allowed) (fq_select ast)
   \<and> length (option_or (fq_orderBy ast) []) \<le> 3
   \<and> list_all (\<lambda>item. fst item \<in> allowed) (option_or (fq_orderBy ast) []))"

definition facts_filters_ok :: "fact_query \<Rightarrow> err + unit" where
  "facts_filters_ok ast =
     (if truthy (fq_predicate ast) \<and> fq_namespace ast = None then Inl Invalid_argument
      else case (case fq_namespace ast of None \<Rightarrow> Inr ()
          | Some ns \<Rightarrow> validatePredicate ns (fq_predicate ast) (Some query_predicate_limits)) of
        Inl e \<Rightarrow> Inl e
      | Inr _ \<Rightarrow> if given (fq_category ast) \<or> given (fq_authorType ast) \<or> given (fq_verdict ast)
            \<or> given (fq_status ast) \<or> given (fq_applicability ast) then Inl Invalid_argument else Inr ())"

fun view_filters_ok :: "query_view \<Rightarrow> fact_query \<Rightarrow> bool" where
  "view_filters_ok V_facts ast = True"
| "view_filters_ok V_edges ast = (\<not> (given (fq_category ast) \<or> given (fq_authorType ast) \<or> given (fq_verdict ast)
     \<or> given (fq_status ast) \<or> given (fq_applicability ast)))"
| "view_filters_ok V_evidence_meta ast = (\<not> (given (fq_sourceRunId ast) \<or> given (fq_category ast)
     \<or> given (fq_authorType ast) \<or> given (fq_verdict ast) \<or> given (fq_status ast) \<or> given (fq_applicability ast)))"
| "view_filters_ok V_assessments ast = (\<not> (given (fq_sourceRunId ast) \<or> given (fq_status ast)
     \<or> given (fq_applicability ast)))"
| "view_filters_ok V_coverage ast = (\<not> (given (fq_sourceRunId ast) \<or> given (fq_subjectRef ast)
     \<or> given (fq_authorType ast) \<or> given (fq_verdict ast)))"

text \<open>The view is one of the five of its type, so the check that it is known always passes.\<close>

definition validateFactQuery :: "fact_query \<Rightarrow> err + unit" where
  "validateFactQuery ast =
     (if \<not> limit_ok (fq_limit ast) then Inl Invalid_argument
      else if \<not> fields_ok ast then Inl Invalid_argument
      else case (if fq_view ast = V_facts then facts_filters_ok ast
          else if fq_namespace ast \<noteq> None \<or> truthy (fq_predicate ast) \<or> fq_sourceKind ast \<noteq> None
            \<or> fq_completeness ast \<noteq> None then Inl Invalid_argument else Inr ()) of
        Inl e \<Rightarrow> Inl e
      | Inr _ \<Rightarrow> if view_filters_ok (fq_view ast) ast then Inr () else Inl Invalid_argument)"

section \<open>The rows\<close>

definition opt_prop :: "string \<Rightarrow> string option \<Rightarrow> js_row" where
  "opt_prop k v = (case v of None \<Rightarrow> [] | Some x \<Rightarrow> [(k, Str x)])"

definition str_opt :: "string option \<Rightarrow> js" where
  "str_opt v = (case v of None \<Rightarrow> Undefined | Some x \<Rightarrow> Str x)"

fun consistency_name :: "consistency \<Rightarrow> string" where
  "consistency_name OBJECT_STABLE = ''OBJECT_STABLE''"
| "consistency_name CURSOR_BEST_EFFORT = ''CURSOR_BEST_EFFORT''"
| "consistency_name POINT_IN_TIME = ''POINT_IN_TIME''"
| "consistency_name EXTERNAL_BASELINE = ''EXTERNAL_BASELINE''"

fun source_kind_name :: "fact_source_kind \<Rightarrow> string" where
  "source_kind_name SK_PRESET = ''PRESET''"
| "source_kind_name SK_MODEL = ''MODEL''"
| "source_kind_name SK_SYSTEM = ''SYSTEM''"
| "source_kind_name SK_EXTERNAL = ''EXTERNAL''"

fun origin_name :: "evidence_origin \<Rightarrow> string" where
  "origin_name TARGET_OBSERVATION = ''TARGET_OBSERVATION''"
| "origin_name CONTROL_PLANE_INPUT = ''CONTROL_PLANE_INPUT''"
| "origin_name EXTERNAL_INTELLIGENCE = ''EXTERNAL_INTELLIGENCE''"

fun completeness_name :: "completeness \<Rightarrow> string" where
  "completeness_name COMPLETE = ''COMPLETE''"
| "completeness_name PARTIAL = ''PARTIAL''"

fun gap_code_name :: "coverage_gap_code \<Rightarrow> string" where
  "gap_code_name GAP_PERMISSION_DENIED = ''PERMISSION_DENIED''"
| "gap_code_name GAP_CAPABILITY_UNAVAILABLE = ''CAPABILITY_UNAVAILABLE''"
| "gap_code_name GAP_DEADLINE = ''DEADLINE''"
| "gap_code_name GAP_NODE_LIMIT = ''NODE_LIMIT''"
| "gap_code_name GAP_BYTE_LIMIT = ''BYTE_LIMIT''"
| "gap_code_name GAP_OUTPUT_LIMIT = ''OUTPUT_LIMIT''"
| "gap_code_name GAP_SOURCE_CHANGED = ''SOURCE_CHANGED''"
| "gap_code_name GAP_FIELD_UNAVAILABLE = ''FIELD_UNAVAILABLE''"
| "gap_code_name GAP_COLLECTOR_ERROR = ''COLLECTOR_ERROR''"

definition source_js :: "fact_source \<Rightarrow> js" where
  "source_js x = Obj ((''kind'', Str (source_kind_name (fs_kind x)))
     # opt_prop ''evidenceOrigin'' (map_option origin_name (fs_evidenceOrigin x))
     @ opt_prop ''presetRunId'' (fs_presetRunId x) @ opt_prop ''presetId'' (fs_presetId x)
     @ opt_prop ''presetVersion'' (fs_presetVersion x) @ opt_prop ''stepId'' (fs_stepId x)
     @ opt_prop ''externalProvider'' (fs_externalProvider x))"

definition gap_js :: "coverage_gap \<Rightarrow> js" where
  "gap_js g = Obj ((''code'', Str (gap_code_name (cg_code g))) # opt_prop ''detail'' (cg_detail g)
     @ opt_prop ''field'' (cg_field g) @ [(''resumable'', Bool (cg_resumable g))])"

definition unavailable_field_js :: "unavailable_field \<Rightarrow> js" where
  "unavailable_field_js u = Obj [(''field'', Str (uf_field u)), (''reasonCode'', Str (uf_reasonCode u))]"

text \<open>\<open>fact[field]\<close> for the fields a query can name; there is no property \<open>payload\<close>.\<close>

definition fact_field :: "fact_record \<Rightarrow> string \<Rightarrow> js" where
  "fact_field f k =
     (if k = ''factId'' then Str (fr_factId f)
      else if k = ''factSeq'' then Num (Fin (of_nat (fr_factSeq f)))
      else if k = ''namespace'' then Str (namespace_label (fr_namespace f))
      else if k = ''subjectRef'' then Str (fr_subjectRef f)
      else if k = ''observedAt'' then Str (fr_observedAt f)
      else if k = ''sourceRunId'' then Str (fr_sourceRunId f)
      else if k = ''source'' then source_js (fr_source f)
      else if k = ''collector'' then Obj [(''name'', Str (co_name (fr_collector f))), (''version'', Str (co_version (fr_collector f)))]
      else if k = ''consistency'' then Str (consistency_name (fr_consistency f))
      else if k = ''completeness'' then Str (completeness_name (fr_completeness f))
      else if k = ''gaps'' then Arr (map gap_js (fr_gaps f))
      else if k = ''redactedFields'' then Arr (map Str (fr_redactedFields f))
      else if k = ''unavailableFields'' then Arr (map unavailable_field_js (fr_unavailableFields f))
      else Undefined)"

definition project :: "fact_record \<Rightarrow> string \<Rightarrow> js" where
  "project f k = (if k = ''payload'' then Obj (fr_modelPayload f) else fact_field f k)"

text \<open>\<open>Object.fromEntries\<close>: a field named twice is one property.\<close>

definition fact_row :: "fact_query \<Rightarrow> fact_record \<Rightarrow> js_row" where
  "fact_row ast f = map (\<lambda>k. (k, project f k)) (unique (fq_select ast))"

text \<open>Two numbers compare by their difference (a stored row holds finite ones), anything else as strings.\<close>

fun compare_values :: "js comparison \<Rightarrow> js comparison" where
  "compare_values collate (Num a) (Num b) = (case (a, b) of (Fin x, Fin y) \<Rightarrow> x - y | _ \<Rightarrow> 0)"
| "compare_values collate a b = collate a b"

fun in_direction :: "direction \<Rightarrow> rat \<Rightarrow> rat" where
  "in_direction Asc v = v"
| "in_direction Desc v = - v"

fun compare_by :: "(string \<Rightarrow> 'r \<Rightarrow> 'r \<Rightarrow> rat) \<Rightarrow> (string \<times> direction) list \<Rightarrow> 'r comparison" where
  "compare_by f [] l r = 0"
| "compare_by f ((k, d) # order) l r = (let v = f k l r in if v \<noteq> 0 then in_direction d v else compare_by f order l r)"

definition compare :: "js comparison \<Rightarrow> (string \<times> direction) list \<Rightarrow> fact_record comparison" where
  "compare collate = compare_by (\<lambda>k l r. compare_values collate (fact_field l k) (fact_field r k))"

text \<open>\<open>a ?? ""\<close>.\<close>

definition or_empty :: "js \<Rightarrow> js" where
  "or_empty v = (if nullish v then Str [] else v)"

definition compareRows :: "js comparison \<Rightarrow> (string \<times> direction) list \<Rightarrow> (id \<times> js_row) comparison" where
  "compareRows collate = compare_by (\<lambda>k l r.
     compare_values collate (or_empty (get_prop (snd l) k)) (or_empty (get_prop (snd r) k)))"

section \<open>A query over facts\<close>

text \<open>\<open>candidates.filter\<close> with a predicate that may throw.\<close>

fun try_filter :: "('a \<Rightarrow> err + bool) \<Rightarrow> 'a list \<Rightarrow> err + 'a list" where
  "try_filter p [] = Inr []"
| "try_filter p (x # xs) = (case p x of Inl e \<Rightarrow> Inl e | Inr b \<Rightarrow>
     (case try_filter p xs of Inl e \<Rightarrow> Inl e | Inr ys \<Rightarrow> Inr (if b then x # ys else ys)))"

definition in_snapshot :: "id \<Rightarrow> id \<Rightarrow> nat \<Rightarrow> fact_record \<Rightarrow> bool" where
  "in_snapshot tid eid mx f \<longleftrightarrow> fr_taskId f = tid \<and> fr_epochId f = eid \<and> fr_factSeq f \<le> mx"

definition selected_fact :: "fact_query \<Rightarrow> fact_record \<Rightarrow> bool" where
  "selected_fact ast f \<longleftrightarrow>
     (fq_namespace ast = None \<or> fq_namespace ast = Some (fr_namespace f))
   \<and> (nonempty (fq_sourceRunId ast) = None \<or> fq_sourceRunId ast = Some (fr_sourceRunId f))
   \<and> (nonempty (fq_subjectRef ast) = None \<or> fq_subjectRef ast = Some (fr_subjectRef f))
   \<and> (fq_sourceKind ast = None \<or> fq_sourceKind ast = Some (fs_kind (fr_source f)))
   \<and> (fq_completeness ast = None \<or> fq_completeness ast = Some (fr_completeness f))"

definition predicate_of :: "fact_query \<Rightarrow> fact_record \<Rightarrow> err + bool" where
  "predicate_of ast f = (if truthy (fq_predicate ast)
     then evaluatePredicate (fq_predicate ast) (fr_modelPayload f) else Inr True)"

definition matching_facts :: "id \<Rightarrow> id \<Rightarrow> fact_query \<Rightarrow> nat \<Rightarrow> fact_record list \<Rightarrow> err + fact_record list" where
  "matching_facts tid eid ast mx facts =
     try_filter (predicate_of ast) (filter (selected_fact ast) (filter (in_snapshot tid eid mx) facts))"

definition order_of :: "fact_query \<Rightarrow> (string \<times> direction) list" where
  "order_of ast = option_or (fq_orderBy ast) [(''factSeq'', Asc)]"

definition default_order :: "fact_query \<Rightarrow> bool" where
  "default_order ast \<longleftrightarrow> order_of ast = [(''factSeq'', Asc)]"

definition seq_diff :: "fact_record comparison" where
  "seq_diff l r = of_nat (fr_factSeq l) - of_nat (fr_factSeq r)"

definition fact_order :: "js comparison \<Rightarrow> fact_query \<Rightarrow> fact_record comparison" where
  "fact_order collate ast l r = then_by (compare collate (order_of ast) l r) (seq_diff l r)"

text \<open>\<open>bySeq.get(seq)\<close> of a map built from the candidates: the last one with the number.\<close>

definition by_seq :: "fact_record list \<Rightarrow> nat \<Rightarrow> fact_record option" where
  "by_seq facts n = List.find (\<lambda>f. fr_factSeq f = n) (rev facts)"

definition fact_candidates ::
  "js comparison \<Rightarrow> fact_query \<Rightarrow> cursor_value option \<Rightarrow> fact_record list \<Rightarrow> fact_record list" where
  "fact_candidates collate ast cursor facts = (case map_option cv_position cursor of
       Some (Remaining_seqs seqs) \<Rightarrow> List.map_filter (by_seq facts) seqs
     | Some (After_seq n) \<Rightarrow> js_sort (fact_order collate ast) (filter (\<lambda>f. n < fr_factSeq f) facts)
     | Some (Remaining_keys _ _) \<Rightarrow> []
     | None \<Rightarrow> js_sort (fact_order collate ast) facts)"

definition canonical_query :: "fact_query \<Rightarrow> fact_query" where
  "canonical_query ast = ast\<lparr>fq_limit := NaN, fq_cursorRef := None\<rparr>"

definition cursor_matches :: "id \<Rightarrow> id \<Rightarrow> string \<Rightarrow> cursor_value \<Rightarrow> bool" where
  "cursor_matches tid eid dg c \<longleftrightarrow> cv_taskId c = tid \<and> cv_epochId c = eid \<and> cv_astDigest c = dg"

definition lift_result :: "err + 'a \<Rightarrow> ('s, 'a) act" where
  "lift_result r = (\<lambda>s. (r, s))"

definition next_fact_cursor ::
  "id \<Rightarrow> id \<Rightarrow> string \<Rightarrow> nat \<Rightarrow> bool \<Rightarrow> fact_record list \<Rightarrow> fact_record list \<Rightarrow> cursor_value" where
  "next_fact_cursor tid eid dg mx is_default page rest = \<lparr>cv_taskId = tid, cv_epochId = eid, cv_astDigest = dg,
     cv_position = (if is_default then After_seq (fr_factSeq (last page)) else Remaining_seqs (map fr_factSeq rest)),
     cv_snapshotMaxFactSeq = mx\<rparr>"

definition fact_snapshot ::
  "id \<Rightarrow> id \<Rightarrow> id \<Rightarrow> string \<Rightarrow> nat \<Rightarrow> fact_record list \<Rightarrow> time \<Rightarrow> query_snapshot" where
  "fact_snapshot ref tid eid dg mx page t = \<lparr>qs_queryRef = ref, qs_taskId = tid, qs_epochId = eid,
     qs_view = V_facts, qs_astDigest = dg, qs_maxFactSeq = mx, qs_rowCount = length page,
     qs_rowRefs = map fr_factId page, qs_createdAt = t\<rparr>"

definition cursor_id :: "bool \<Rightarrow> ('a tapes_scheme, id option) act" where
  "cursor_id has_more = (if has_more then bind_act next_uuid (\<lambda>u. return_act (Some (''QCUR-'' @ u))) else return_act None)"

definition runFactQuery ::
  "js comparison \<Rightarrow> (fact_query \<Rightarrow> string) \<Rightarrow> id \<Rightarrow> id \<Rightarrow> fact_query \<Rightarrow> fact_record list \<Rightarrow> nat \<Rightarrow>
   cursor_value option \<Rightarrow> ('a tapes_scheme, query_result) act" where
  "runFactQuery collate digest tid eid ast facts mx cursor =
     bind_act (lift_result (validateFactQuery ast)) (\<lambda>_.
     seq_act (require (fq_view ast = V_facts) Invalid_argument)
    (let dg = digest (canonical_query ast) in
     seq_act (require (case cursor of None \<Rightarrow> True | Some c \<Rightarrow> cursor_matches tid eid dg c) (Security_error INVALID_ARGUMENT))
    (bind_act (lift_result (matching_facts tid eid ast mx facts)) (\<lambda>matching.
     let candidates = fact_candidates collate ast cursor matching;
         page = take (limit_of (fq_limit ast)) candidates;
         rest = drop (limit_of (fq_limit ast)) candidates in
     bind_act next_uuid (\<lambda>u. bind_act (cursor_id (rest \<noteq> [] \<and> page \<noteq> [])) (\<lambda>ref. bind_act now (\<lambda>t.
     return_act \<lparr>qr_page = \<lparr>qp_queryRef = ''QUERY-'' @ u, qp_rows = map (fact_row ast) page,
                   qp_nextCursorRef = ref, qp_snapshotMaxFactSeq = mx\<rparr>,
                 qr_snapshot = fact_snapshot (''QUERY-'' @ u) tid eid dg mx page t,
                 qr_cursor = map_option (\<lambda>r. (r, next_fact_cursor tid eid dg mx (default_order ast) page rest)) ref\<rparr>)))))))"

section \<open>A query over the other views\<close>

definition static_filter :: "fact_query \<Rightarrow> js_row \<Rightarrow> bool" where
  "static_filter ast row \<longleftrightarrow> list_all (\<lambda>(k, expected). case expected of None \<Rightarrow> True
       | Some v \<Rightarrow> strict_eq (get_prop row k) (Str v))
     [(''sourceRunId'', fq_sourceRunId ast), (''category'', fq_category ast), (''authorType'', fq_authorType ast),
      (''verdict'', fq_verdict ast), (''status'', fq_status ast), (''applicability'', fq_applicability ast)]"

definition subject_filter :: "fact_query \<Rightarrow> js_row \<Rightarrow> bool" where
  "subject_filter ast row \<longleftrightarrow> (case fq_subjectRef ast of None \<Rightarrow> True
     | Some v \<Rightarrow> if fq_view ast = V_edges
         then strict_eq (get_prop row ''fromRef'') (Str v) \<or> strict_eq (get_prop row ''toRef'') (Str v)
         else strict_eq (get_prop row ''subjectRef'') (Str v))"

definition defaultOrderField :: "query_view \<Rightarrow> string" where
  "defaultOrderField view = (if view = V_edges then ''observedAt''
     else if view = V_evidence_meta then ''collectedAt'' else ''createdAt'')"

definition by_key :: "(id \<times> js_row) list \<Rightarrow> id \<Rightarrow> (id \<times> js_row) option" where
  "by_key rows k = List.find (\<lambda>r. fst r = k) (rev rows)"

definition static_order :: "js comparison \<Rightarrow> fact_query \<Rightarrow> (id \<times> js_row) comparison" where
  "static_order collate ast l r =
     then_by (compareRows collate (option_or (fq_orderBy ast) [(defaultOrderField (fq_view ast), Asc)]) l r)
       (collate (Str (fst l)) (Str (fst r)))"

definition static_candidates ::
  "js comparison \<Rightarrow> fact_query \<Rightarrow> cursor_value option \<Rightarrow> (id \<times> js_row) list \<Rightarrow> (id \<times> js_row) list" where
  "static_candidates collate ast cursor rows =
     (let matching = filter (\<lambda>r. static_filter ast (snd r) \<and> subject_filter ast (snd r)) rows in
      case map_option cv_position cursor of
        Some (Remaining_keys _ keys) \<Rightarrow> List.map_filter (by_key matching) keys
      | _ \<Rightarrow> js_sort (static_order collate ast) matching)"

definition static_cursor_matches :: "id \<Rightarrow> id \<Rightarrow> string \<Rightarrow> query_view \<Rightarrow> cursor_value \<Rightarrow> bool" where
  "static_cursor_matches tid eid dg view c \<longleftrightarrow> cursor_matches tid eid dg c
     \<and> (case cv_position c of Remaining_keys v _ \<Rightarrow> v = view | _ \<Rightarrow> False)"

definition static_row :: "fact_query \<Rightarrow> id \<times> js_row \<Rightarrow> js_row" where
  "static_row ast row = map (\<lambda>k. (k, get_prop (snd row) k)) (unique (fq_select ast))"

definition runStaticQuery ::
  "js comparison \<Rightarrow> (fact_query \<Rightarrow> string) \<Rightarrow> id \<Rightarrow> id \<Rightarrow> fact_query \<Rightarrow> (id \<times> js_row) list \<Rightarrow> nat \<Rightarrow>
   cursor_value option \<Rightarrow> ('a tapes_scheme, query_result) act" where
  "runStaticQuery collate digest tid eid ast rows mx cursor =
     bind_act (lift_result (validateFactQuery ast)) (\<lambda>_.
     seq_act (require (fq_view ast \<noteq> V_facts) Invalid_argument)
    (let dg = digest (canonical_query ast) in
     seq_act (require (case cursor of None \<Rightarrow> True | Some c \<Rightarrow> static_cursor_matches tid eid dg (fq_view ast) c)
       (Security_error INVALID_ARGUMENT))
    (let candidates = static_candidates collate ast cursor rows;
         page = take (limit_of (fq_limit ast)) candidates;
         remaining = map fst (drop (limit_of (fq_limit ast)) candidates) in
     bind_act next_uuid (\<lambda>u. bind_act (cursor_id (remaining \<noteq> [])) (\<lambda>ref. bind_act now (\<lambda>t.
     return_act \<lparr>qr_page = \<lparr>qp_queryRef = ''QUERY-'' @ u, qp_rows = map (static_row ast) page,
                   qp_nextCursorRef = ref, qp_snapshotMaxFactSeq = mx\<rparr>,
                 qr_snapshot = \<lparr>qs_queryRef = ''QUERY-'' @ u, qs_taskId = tid, qs_epochId = eid, qs_view = fq_view ast,
                   qs_astDigest = dg, qs_maxFactSeq = mx, qs_rowCount = length page, qs_rowRefs = map fst page,
                   qs_createdAt = t\<rparr>,
                 qr_cursor = map_option (\<lambda>r. (r, \<lparr>cv_taskId = tid, cv_epochId = eid, cv_astDigest = dg,
                   cv_position = Remaining_keys (fq_view ast) remaining, cv_snapshotMaxFactSeq = mx\<rparr>)) ref\<rparr>))))))"

section \<open>The methods of the store\<close>

fun verdict_name :: "assessment_verdict \<Rightarrow> string" where
  "verdict_name CONFIRMED_MALICIOUS = ''CONFIRMED_MALICIOUS''"
| "verdict_name HIGHLY_SUSPICIOUS = ''HIGHLY_SUSPICIOUS''"
| "verdict_name SUSPICIOUS = ''SUSPICIOUS''"
| "verdict_name BENIGN = ''BENIGN''"
| "verdict_name NO_OBSERVED_FINDING = ''NO_OBSERVED_FINDING''"
| "verdict_name INCONCLUSIVE = ''INCONCLUSIVE''"

fun author_name :: "author_type \<Rightarrow> string" where
  "author_name AU_RULE = ''RULE''"
| "author_name AU_MODEL = ''MODEL''"
| "author_name AU_HUMAN = ''HUMAN''"
| "author_name AU_SYSTEM = ''SYSTEM''"

fun severity_name :: "severity \<Rightarrow> string" where
  "severity_name CRITICAL = ''CRITICAL''"
| "severity_name HIGH = ''HIGH''"
| "severity_name MEDIUM = ''MEDIUM''"
| "severity_name LOW = ''LOW''"
| "severity_name INFO = ''INFO''"

fun coverage_status_name :: "coverage_status \<Rightarrow> string" where
  "coverage_status_name CV_COMPLETE = ''COMPLETE''"
| "coverage_status_name CV_PARTIAL = ''PARTIAL''"
| "coverage_status_name CV_ERROR = ''ERROR''"
| "coverage_status_name CV_NOT_RUN = ''NOT_RUN''"

fun applicability_name :: "applicability \<Rightarrow> string" where
  "applicability_name APPLICABLE = ''APPLICABLE''"
| "applicability_name NOT_APPLICABLE = ''NOT_APPLICABLE''"
| "applicability_name UNKNOWN = ''UNKNOWN''"

definition edge_row :: "edge_record \<Rightarrow> id \<times> js_row" where
  "edge_row e = (eg_edgeId e, [(''edgeId'', Str (eg_edgeId e)), (''relation'', Str (eg_relation e)),
     (''fromRef'', Str (eg_fromRef e)), (''toRef'', Str (eg_toRef e)), (''sourceRunId'', Str (eg_sourceRunId e)),
     (''observedAt'', Str (eg_observedAt e))])"

definition evidence_row :: "evidence \<Rightarrow> id \<times> js_row" where
  "evidence_row e = (ev_evidenceId e, [(''evidenceId'', Str (ev_evidenceId e)), (''type'', Str (ev_type e)),
     (''source'', Str (ev_source e)), (''sha256'', str_opt (ev_sha256 e)),
     (''size'', member (ev_metadata e) ''remoteSize''), (''collectedAt'', Str (ev_collectedAt e)),
     (''tool'', Str (ev_tool e)), (''toolCallId'', str_opt (ev_toolCallId e)),
     (''subjectRef'', member (ev_metadata e) ''subjectRef''), (''complete'', member (ev_metadata e) ''complete'')])"

definition assessment_row :: "assessment \<Rightarrow> id \<times> js_row" where
  "assessment_row a = (as_assessmentId a, [(''assessmentId'', Str (as_assessmentId a)), (''taskId'', Undefined),
     (''epochId'', Undefined), (''authorType'', Str (author_name (as_authorType a))),
     (''category'', Str (category_name (as_category a))), (''subjectRef'', str_opt (as_subjectRef a)),
     (''scope'', Str (scope_name (as_scope a))), (''verdict'', Str (verdict_name (as_verdict a))),
     (''severity'', Str (severity_name (as_severity a))), (''confidence'', Num (as_confidence a)),
     (''rationale'', Str (as_rationale a)), (''evidenceRefs'', Arr (map Str (as_evidenceRefs a))),
     (''factRefs'', Arr (map Str (as_factRefs a))), (''queryRefs'', Arr (map Str (as_queryRefs a))),
     (''createdAt'', Str (as_createdAt a))])"

definition missing_js :: "string \<times> string \<times> string option \<Rightarrow> js" where
  "missing_js m = (case m of (criterion, reason, run) \<Rightarrow>
     Obj ([(''criterion'', Str criterion), (''reasonCode'', Str reason)] @ opt_prop ''sourceRunId'' run))"

definition coverage_row :: "coverage_run \<Rightarrow> id \<times> js_row" where
  "coverage_row r = (cr_coverageId r, [(''coverageId'', Str (cr_coverageId r)), (''taskId'', Undefined),
     (''epochId'', Undefined), (''category'', Str (category_name (cr_category r))),
     (''presetId'', Str (cr_presetId r)), (''presetVersion'', Str (cr_presetVersion r)),
     (''status'', Str (coverage_status_name (cr_status r))),
     (''applicability'', Str (applicability_name (cr_applicability r))),
     (''completedCriteria'', Arr (map Str (cr_completedCriteria r))),
     (''missingCriteria'', Arr (map missing_js (cr_missingCriteria r))), (''createdAt'', Str (cr_createdAt r))])"

definition modelViewRows :: "id \<Rightarrow> id \<Rightarrow> query_view \<Rightarrow> 'a fact_db_scheme \<Rightarrow> (id \<times> js_row) list" where
  "modelViewRows tid eid view s =
     (if view = V_edges then map edge_row (listEdges tid eid s)
      else if view = V_evidence_meta then map evidence_row
        (filter (\<lambda>e. strict_eq (member (ev_metadata e) ''epochId'') (Str eid)) (listEvidence tid s))
      else if view = V_assessments then map assessment_row (listAssessments tid eid s)
      else map coverage_row (listCoverageRuns tid eid s))"

definition find_cursor :: "id \<Rightarrow> id \<Rightarrow> fact_query \<Rightarrow> 'a fact_db_scheme \<Rightarrow> err + cursor_value option" where
  "find_cursor tid eid ast s = (case nonempty (fq_cursorRef ast) of None \<Rightarrow> Inr None
     | Some ref \<Rightarrow> (case List.find (\<lambda>c. qc_cursorRef c = ref \<and> qc_taskId c = tid \<and> qc_epochId c = eid)
           (db_query_cursors s) of
         None \<Rightarrow> Inl Invalid_argument | Some c \<Rightarrow> Inr (Some (qc_value c))))"

fun is_remaining :: "cursor_value option \<Rightarrow> bool" where
  "is_remaining (Some c) = (case cv_position c of Remaining_seqs _ \<Rightarrow> True | _ \<Rightarrow> False)"
| "is_remaining None = False"

fun last_seq :: "cursor_value option \<Rightarrow> nat option" where
  "last_seq (Some c) = (case cv_position c of After_seq n \<Rightarrow> Some n | _ \<Rightarrow> None)"
| "last_seq None = None"

text \<open>
  What the query pushes down into SQL. A limit that is no number from 1 to 500 is read as its
  integer part here; the query is then refused in any case.
\<close>

definition pushed_filter :: "fact_query \<Rightarrow> cursor_value option \<Rightarrow> nat \<Rightarrow> fact_filter" where
  "pushed_filter ast cursor mx = \<lparr>ff_namespace = fq_namespace ast, ff_sourceRunId = nonempty (fq_sourceRunId ast),
     ff_sourceKind = fq_sourceKind ast, ff_subjectRef = nonempty (fq_subjectRef ast),
     ff_completeness = fq_completeness ast, ff_minFactSeqExclusive = last_seq cursor, ff_maxFactSeq = Some mx,
     ff_limit = (if \<not> truthy (fq_predicate ast) \<and> default_order ast \<and> \<not> is_remaining cursor
       then Some (limit_of (fq_limit ast) + 1) else None)\<rparr>"

definition prepareQueryFacts ::
  "js comparison \<Rightarrow> (fact_query \<Rightarrow> string) \<Rightarrow> id \<Rightarrow> id \<Rightarrow> fact_query \<Rightarrow> ('a fact_db_scheme, query_result) act" where
  "prepareQueryFacts collate digest tid eid ast =
     bind_act (bind_act (read_act (find_cursor tid eid ast)) lift_result) (\<lambda>cursor.
     bind_act (read_act (\<lambda>s. case cursor of Some c \<Rightarrow> cv_snapshotMaxFactSeq c | None \<Rightarrow> maxFactSeq tid eid s)) (\<lambda>mx.
     if fq_view ast = V_facts
     then bind_act (bind_act (read_act (listFacts tid eid (pushed_filter ast cursor mx))) lift_result) (\<lambda>facts.
            runFactQuery collate digest tid eid ast facts mx cursor)
     else bind_act (read_act (modelViewRows tid eid (fq_view ast))) (\<lambda>rows.
            runStaticQuery collate digest tid eid ast rows mx cursor)))"

definition previewQueryFacts ::
  "js comparison \<Rightarrow> (fact_query \<Rightarrow> string) \<Rightarrow> id \<Rightarrow> id \<Rightarrow> fact_query \<Rightarrow> ('a fact_db_scheme, query_page) act" where
  "previewQueryFacts collate digest tid eid ast =
     bind_act (prepareQueryFacts collate digest tid eid ast) (\<lambda>r. return_act (qr_page r))"

definition insert_snapshot :: "query_snapshot \<Rightarrow> ('a fact_db_scheme, unit) act" where
  "insert_snapshot q = bind_act (read_act db_query_snapshots) (\<lambda>rows.
     seq_act (require (\<not> has_key qs_queryRef (qs_queryRef q) rows) Constraint_error)
       (write_act (\<lambda>s. s\<lparr>db_query_snapshots := db_query_snapshots s @ [q]\<rparr>)))"

definition insert_cursor :: "id \<Rightarrow> id \<Rightarrow> id \<times> cursor_value \<Rightarrow> ('a fact_db_scheme, unit) act" where
  "insert_cursor tid eid c = bind_act now (\<lambda>t. bind_act (read_act db_query_cursors) (\<lambda>rows.
     seq_act (require (\<not> has_key qc_cursorRef (fst c) rows) Constraint_error)
       (write_act (\<lambda>s. s\<lparr>db_query_cursors := db_query_cursors s @ [\<lparr>qc_cursorRef = fst c, qc_taskId = tid,
          qc_epochId = eid, qc_value = snd c, qc_createdAt = t\<rparr>]\<rparr>))))"

definition queryFacts ::
  "js comparison \<Rightarrow> (fact_query \<Rightarrow> string) \<Rightarrow> id \<Rightarrow> id \<Rightarrow> fact_query \<Rightarrow> ('a fact_db_scheme, query_page) act" where
  "queryFacts collate digest tid eid ast =
     bind_act (prepareQueryFacts collate digest tid eid ast) (\<lambda>r.
     seq_act (transaction (seq_act (insert_snapshot (qr_snapshot r))
       (case qr_cursor r of None \<Rightarrow> return_act () | Some c \<Rightarrow> insert_cursor tid eid c)))
     (return_act (qr_page r)))"


section \<open>Sorting and filtering\<close>

lemma try_filter_Inr:
  "try_filter p xs = Inr ys \<longleftrightarrow> (\<forall>x\<in>set xs. \<exists>b. p x = Inr b) \<and> ys = filter (\<lambda>x. p x = Inr True) xs"
proof (induction xs arbitrary: ys)
  case (Cons x xs)
  show ?case using Cons.IH [of "filter (\<lambda>x. p x = Inr True) xs"] Cons.IH
    by (cases "p x"; cases "try_filter p xs") auto
qed auto

lemma try_filter_map: "try_filter p (map g xs) = map_sum id (map g) (try_filter (p \<circ> g) xs)"
  by (induction xs) (auto split: sum.splits)

lemma try_filter_all: "(\<And>x. x \<in> set xs \<Longrightarrow> p x = Inr True) \<Longrightarrow> try_filter p xs = Inr xs"
  by (induction xs) simp_all

lemma fact_order_default: "default_order ast \<Longrightarrow> fact_order collate ast = seq_diff"
  by (intro ext) (simp add: default_order_def fact_order_def compare_def fact_field_def seq_diff_def then_by_def)

lemma sort_default:
  "default_order ast \<Longrightarrow> js_sort (fact_order collate ast) xs = order_by fr_factSeq xs"
  by (simp add: fact_order_default seq_diff_def [abs_def] js_sort_difference order_by_def)

lemma order_by_filter: "order_by f (filter p xs) = filter p (order_by f xs)"
  by (simp add: order_by_def filter_sort)

lemma order_by_idem: "order_by f (order_by f xs) = order_by f xs"
  by (simp add: order_by_def sort_key_id_if_sorted)

section \<open>What SQL selects\<close>

lemma pushed_matches:
  "fact_matches (pushed_filter ast cursor mx) f \<longleftrightarrow> selected_fact ast f \<and> fr_factSeq f \<le> mx
     \<and> (case last_seq cursor of None \<Rightarrow> True | Some n \<Rightarrow> n < fr_factSeq f)"
  by (auto simp: fact_matches_def pushed_filter_def selected_fact_def nonempty_def split: option.splits if_splits)


lemma filter_all_facts:
  "filter p (all_facts tid eid s) = order_by fr_factSeq (filter (\<lambda>f. fr_taskId f = tid \<and> fr_epochId f = eid \<and> p f) (db_facts s))"
  by (simp add: all_facts_def order_by_filter [symmetric] conj_commute conj_left_commute)

text \<open>The facts SQL returns: those the query would select itself, cut off where the page ends.\<close>

definition cut :: "nat option \<Rightarrow> 'a list \<Rightarrow> 'a list" where
  "cut n xs = (case n of None \<Rightarrow> xs | Some k \<Rightarrow> take k xs)"

lemma pushed_facts:
  "listFacts tid eid (pushed_filter ast cursor mx) s = Inr (cut (ff_limit (pushed_filter ast cursor mx))
     (filter (\<lambda>f. case last_seq cursor of None \<Rightarrow> True | Some n \<Rightarrow> n < fr_factSeq f)
       (filter (selected_fact ast) (filter (in_snapshot tid eid mx) (all_facts tid eid s)))))"
proof -
  have "ff_limit (pushed_filter ast cursor mx) \<noteq> Some 0" by (simp add: pushed_filter_def)
  moreover have "filter (\<lambda>f. fr_taskId f = tid \<and> fr_epochId f = eid \<and> fact_matches (pushed_filter ast cursor mx) f) (db_facts s)
      = filter (\<lambda>f. fr_taskId f = tid \<and> fr_epochId f = eid \<and> in_snapshot tid eid mx f \<and> selected_fact ast f
        \<and> (case last_seq cursor of None \<Rightarrow> True | Some n \<Rightarrow> n < fr_factSeq f)) (db_facts s)"
    by (rule filter_cong) (auto simp: pushed_matches in_snapshot_def)
  ultimately show ?thesis
    by (simp add: listFacts_def cut_def all_facts_def order_by_filter [symmetric] Let_def conj_commute conj_left_commute)
qed

lemma matching_default:
  "\<not> truthy (fq_predicate ast) \<Longrightarrow> matching_facts tid eid ast mx facts
     = Inr (filter (selected_fact ast) (filter (in_snapshot tid eid mx) facts))"
  unfolding matching_facts_def by (rule try_filter_all) (simp add: predicate_of_def)

section \<open>What a query over facts returns\<close>

lemma lift_result_Inr [act_simps]: "lift_result r s = (Inr x, s') \<longleftrightarrow> r = Inr x \<and> s' = s"
  by (auto simp: lift_result_def)

text \<open>The result, once the facts that match are known: it depends on the candidates only.\<close>

definition page_result ::
  "(fact_query \<Rightarrow> string) \<Rightarrow> id \<Rightarrow> id \<Rightarrow> fact_query \<Rightarrow> nat \<Rightarrow> fact_record list \<Rightarrow> ('a tapes_scheme, query_result) act" where
  "page_result digest tid eid ast mx candidates =
     (let dg = digest (canonical_query ast); page = take (limit_of (fq_limit ast)) candidates;
          rest = drop (limit_of (fq_limit ast)) candidates in
     bind_act next_uuid (\<lambda>u. bind_act (cursor_id (rest \<noteq> [] \<and> page \<noteq> [])) (\<lambda>ref. bind_act now (\<lambda>t.
     return_act \<lparr>qr_page = \<lparr>qp_queryRef = ''QUERY-'' @ u, qp_rows = map (fact_row ast) page,
                   qp_nextCursorRef = ref, qp_snapshotMaxFactSeq = mx\<rparr>,
                 qr_snapshot = fact_snapshot (''QUERY-'' @ u) tid eid dg mx page t,
                 qr_cursor = map_option (\<lambda>r. (r, next_fact_cursor tid eid dg mx (default_order ast) page rest)) ref\<rparr>))))"

definition query_admitted ::
  "(fact_query \<Rightarrow> string) \<Rightarrow> id \<Rightarrow> id \<Rightarrow> fact_query \<Rightarrow> cursor_value option \<Rightarrow> err + unit" where
  "query_admitted digest tid eid ast cursor = (case validateFactQuery ast of Inl e \<Rightarrow> Inl e
     | Inr _ \<Rightarrow> if fq_view ast \<noteq> V_facts then Inl Invalid_argument
       else if (case cursor of None \<Rightarrow> True | Some c \<Rightarrow> cursor_matches tid eid (digest (canonical_query ast)) c)
       then Inr () else Inl (Security_error INVALID_ARGUMENT))"

lemma runFactQuery_eq:
  "runFactQuery collate digest tid eid ast facts mx cursor s =
     (case query_admitted digest tid eid ast cursor of Inl e \<Rightarrow> (Inl e, s)
      | Inr _ \<Rightarrow> (case matching_facts tid eid ast mx facts of Inl e \<Rightarrow> (Inl e, s)
        | Inr M \<Rightarrow> page_result digest tid eid ast mx (fact_candidates collate ast cursor M) s))"
  by (simp add: runFactQuery_def query_admitted_def page_result_def lift_result_def bind_act_def seq_act_def
      require_def Let_def split: sum.split)


lemma take_cut: "take n (cut (Some (n + 1)) xs) = take n xs"
  and drop_cut: "drop n (cut (Some (n + 1)) xs) = [] \<longleftrightarrow> drop n xs = []"
  by (auto simp: cut_def)

lemma page_result_cut:
  assumes "default_order ast" and "take (limit_of (fq_limit ast)) xs = take (limit_of (fq_limit ast)) ys"
    and "drop (limit_of (fq_limit ast)) xs = [] \<longleftrightarrow> drop (limit_of (fq_limit ast)) ys = []"
  shows "page_result digest tid eid ast mx xs = page_result digest tid eid ast mx ys"
  using assms by (simp add: page_result_def next_fact_cursor_def Let_def)

lemma seq_sorted: "order_by fr_factSeq (filter p (all_facts tid eid s)) = filter p (all_facts tid eid s)"
  by (simp add: filter_all_facts order_by_idem)

definition after :: "cursor_value option \<Rightarrow> fact_record \<Rightarrow> bool" where
  "after cursor f \<longleftrightarrow> (case last_seq cursor of None \<Rightarrow> True | Some n \<Rightarrow> n < fr_factSeq f)"

lemma candidates_after:
  "fact_candidates collate ast cursor (filter (after cursor) xs) = fact_candidates collate ast cursor xs"
proof (cases cursor)
  case (Some c)
  then show ?thesis by (cases "cv_position c") (simp_all add: fact_candidates_def after_def)
qed (simp add: fact_candidates_def after_def)

lemma candidates_default:
  assumes "default_order ast" and "\<not> is_remaining cursor"
  shows "fact_candidates collate ast cursor xs = (case map_option cv_position cursor of
      Some (Remaining_keys _ _) \<Rightarrow> [] | _ \<Rightarrow> order_by fr_factSeq (filter (after cursor) xs))"
proof (cases cursor)
  case (Some c)
  with assms show ?thesis by (cases "cv_position c") (simp_all add: fact_candidates_def after_def [abs_def] sort_default)
qed (simp add: fact_candidates_def after_def [abs_def] sort_default assms(1))

text \<open>
  The facts SQL returns give the page that all the facts of the epoch give, provided the
  predicate can be evaluated on every fact of the snapshot.
\<close>

lemma pushed_run:
  assumes "matching_facts tid eid ast mx (all_facts tid eid s) = Inr M"
    and "listFacts tid eid (pushed_filter ast cursor mx) s = Inr facts"
  shows "runFactQuery collate digest tid eid ast facts mx cursor t
    = runFactQuery collate digest tid eid ast (all_facts tid eid s) mx cursor t"
proof (cases "\<not> truthy (fq_predicate ast) \<and> default_order ast \<and> \<not> is_remaining cursor")
  case True
  let ?n = "limit_of (fq_limit ast)"
  define M where "M = filter (selected_fact ast) (filter (in_snapshot tid eid mx) (all_facts tid eid s))"
  from True have "ff_limit (pushed_filter ast cursor mx) = Some (?n + 1)" by (simp add: pushed_filter_def)
  with assms(2) have facts: "facts = take (?n + 1) (filter (after cursor) M)"
    by (simp add: pushed_facts cut_def M_def after_def [abs_def])
  have M: "matching_facts tid eid ast mx (all_facts tid eid s) = Inr M"
    using True by (simp add: matching_default M_def)
  have sub: "set facts \<subseteq> set (filter (after cursor) M)" unfolding facts by (rule set_take_subset)
  then have all: "filter (selected_fact ast) (filter (in_snapshot tid eid mx) facts) = facts" "filter (after cursor) facts = facts"
    by (auto simp: filter_id_conv M_def)
  have P: "matching_facts tid eid ast mx facts = Inr facts"
    using True all by (simp add: matching_default)
  have ordered: "order_by fr_factSeq (filter (after cursor) M) = filter (after cursor) M"
    using seq_sorted [of "\<lambda>f. in_snapshot tid eid mx f \<and> selected_fact ast f \<and> after cursor f" tid eid s]
    by (simp add: M_def conj_commute conj_left_commute)
  then have "sorted (map fr_factSeq (filter (after cursor) M))" by (metis sorted_order_by)
  then have "sorted (map fr_factSeq facts)" unfolding facts by (simp add: take_map [symmetric] sorted_wrt_take)
  then have ordered': "order_by fr_factSeq facts = facts" by (simp add: order_by_def sort_key_id_if_sorted)
  have plain: "default_order ast" "\<not> is_remaining cursor" using True by simp_all
  have cands: "fact_candidates collate ast cursor facts
      = (case map_option cv_position cursor of Some (Remaining_keys _ _) \<Rightarrow> [] | _ \<Rightarrow> facts)"
    "fact_candidates collate ast cursor M
      = (case map_option cv_position cursor of Some (Remaining_keys _ _) \<Rightarrow> [] | _ \<Rightarrow> filter (after cursor) M)"
    by (simp_all only: candidates_default [OF plain] all(2) ordered ordered')
  have "page_result digest tid eid ast mx (fact_candidates collate ast cursor facts) t
      = page_result digest tid eid ast mx (fact_candidates collate ast cursor M) t"
  proof (rule fun_cong [OF page_result_cut])
    show "default_order ast" using True by simp
    show "take ?n (fact_candidates collate ast cursor facts) = take ?n (fact_candidates collate ast cursor M)"
      "(drop ?n (fact_candidates collate ast cursor facts) = []) = (drop ?n (fact_candidates collate ast cursor M) = [])"
      unfolding cands by (auto simp: facts split: option.split cursor_position.split)
  qed
  then show ?thesis by (simp only: runFactQuery_eq M P sum.simps)
next
  case False
  then have "ff_limit (pushed_filter ast cursor mx) = None" by (simp add: pushed_filter_def)
  with assms(2) have facts: "facts = filter (after cursor) (filter (selected_fact ast) (filter (in_snapshot tid eid mx) (all_facts tid eid s)))"
    by (simp add: pushed_facts cut_def after_def [abs_def])
  from assms(1) have "matching_facts tid eid ast mx facts = Inr (filter (after cursor) M)"
    unfolding facts matching_facts_def by (auto simp: try_filter_Inr intro: filter_cong)
  then show ?thesis by (simp only: runFactQuery_eq assms(1) sum.simps candidates_after)
qed


section \<open>Pages\<close>

text \<open>
  Where a cursor stands in the full answer: at its beginning, or behind the pages already read.
\<close>

definition stands_at :: "bool \<Rightarrow> fact_record list \<Rightarrow> cursor_value option \<Rightarrow> fact_record list \<Rightarrow> bool" where
  "stands_at is_default full cursor rest \<longleftrightarrow> (case cursor of None \<Rightarrow> rest = full
     | Some c \<Rightarrow> \<exists>read. full = read @ rest \<and> read \<noteq> [] \<and> cv_position c = (if is_default
         then After_seq (fr_factSeq (last read)) else Remaining_seqs (map fr_factSeq rest)))"

lemma by_seq_member: "distinct (map fr_factSeq M) \<Longrightarrow> f \<in> set M \<Longrightarrow> by_seq M (fr_factSeq f) = Some f"
  unfolding by_seq_def by (rule find_unique [of fr_factSeq]) (simp_all add: rev_map [symmetric])

lemma lookup_all: "distinct (map fr_factSeq M) \<Longrightarrow> set fs \<subseteq> set M \<Longrightarrow> List.map_filter (by_seq M) (map fr_factSeq fs) = fs"
  by (induction fs) (simp_all add: by_seq_member List.map_filter_simps)

lemma filter_behind:
  fixes f :: "'a \<Rightarrow> nat"
  assumes "sorted_wrt (<) (map f (xs @ ys))" and "xs \<noteq> []"
  shows "filter (\<lambda>y. f (last xs) < f y) (xs @ ys) = ys"
proof -
  from assms(1) have xs: "sorted_wrt (<) (map f xs)" and "\<forall>x\<in>set xs. \<forall>y\<in>set ys. f x < f y"
    by (simp_all add: sorted_wrt_append)
  with assms(2) have "filter (\<lambda>y. f (last xs) < f y) ys = ys" by (auto simp: filter_id_conv)
  moreover from xs assms(2) have "\<not> f (last xs) < f x" if "x \<in> set xs" for x
    using that by (induction xs rule: rev_induct) (auto simp: sorted_wrt_append not_less less_imp_le)
  ultimately show ?thesis by (simp add: filter_empty_conv)
qed

lemma candidates_stand:
  assumes "distinct (map fr_factSeq M)" and "stands_at (default_order ast) (js_sort (fact_order collate ast) M) cursor rest"
  shows "fact_candidates collate ast cursor M = rest"
proof (cases cursor)
  case None
  with assms(2) show ?thesis by (simp add: fact_candidates_def stands_at_def)
next
  case (Some c)
  with assms(2) obtain read where read: "js_sort (fact_order collate ast) M = read @ rest" "read \<noteq> []"
    "cv_position c = (if default_order ast then After_seq (fr_factSeq (last read)) else Remaining_seqs (map fr_factSeq rest))"
    by (auto simp: stands_at_def)
  show ?thesis
  proof (cases "default_order ast")
    case True
    then have sorted: "order_by fr_factSeq M = read @ rest" using read(1) by (simp add: sort_default)
    have "sorted (map fr_factSeq (read @ rest))" unfolding sorted [symmetric] by simp
    moreover have "distinct (map fr_factSeq (read @ rest))" unfolding read(1) [symmetric] using assms(1) by simp
    ultimately have "sorted_wrt (<) (map fr_factSeq (read @ rest))" by (simp add: strict_sorted_iff)
    from filter_behind [OF this read(2)] show ?thesis
      using True read(3) by (simp add: fact_candidates_def Some sort_default order_by_filter sorted)
  next
    case False
    have "set rest \<subseteq> set M" using read(1) by (metis set_append set_js_sort sup_ge2)
    with False read(3) show ?thesis by (simp add: fact_candidates_def Some lookup_all assms(1))
  qed
qed

lemma next_stands:
  assumes "stands_at d full cursor rest" and "0 < n" and "drop n rest \<noteq> []"
  shows "stands_at d full (Some (next_fact_cursor tid eid dg mx d (take n rest) (drop n rest))) (drop n rest)"
proof -
  from assms(1) obtain read where "full = read @ rest" by (auto simp: stands_at_def split: option.splits)
  then have "full = (read @ take n rest) @ drop n rest" by simp
  moreover from assms(2,3) have "take n rest \<noteq> []" by auto
  ultimately show ?thesis unfolding stands_at_def option.simps
    by (intro exI [of _ "read @ take n rest"]) (simp add: next_fact_cursor_def)
qed

lemma limit_of_pos: "limit_ok l \<Longrightarrow> 0 < limit_of l"
proof (cases l)
  case (Fin q)
  assume "limit_ok l"
  with Fin have "1 \<le> \<lfloor>q\<rfloor>" by simp
  with Fin show ?thesis by simp
qed simp_all

lemma admitted_limit: "query_admitted digest tid eid ast cursor = Inr x \<Longrightarrow> limit_ok (fq_limit ast)"
  by (auto simp: query_admitted_def validateFactQuery_def split: sum.splits if_splits)

lemma page_result_Inr:
  assumes "page_result digest tid eid ast mx rest s = (Inr r, s')" and "limit_ok (fq_limit ast)"
  shows "qp_rows (qr_page r) = map (fact_row ast) (take (limit_of (fq_limit ast)) rest)"
    and "qr_cursor r = (if drop (limit_of (fq_limit ast)) rest = [] then None
      else Some (''QCUR-'' @ uuid_tape s (Suc (uuid_pos s)), next_fact_cursor tid eid (digest (canonical_query ast)) mx
        (default_order ast) (take (limit_of (fq_limit ast)) rest) (drop (limit_of (fq_limit ast)) rest)))"
    and "qp_nextCursorRef (qr_page r) = map_option fst (qr_cursor r)"
proof -
  have "rest \<noteq> [] \<Longrightarrow> take (limit_of (fq_limit ast)) rest \<noteq> []" using limit_of_pos [OF assms(2)] by simp
  with assms(1) show "qp_rows (qr_page r) = map (fact_row ast) (take (limit_of (fq_limit ast)) rest)"
    "qr_cursor r = (if drop (limit_of (fq_limit ast)) rest = [] then None
      else Some (''QCUR-'' @ uuid_tape s (Suc (uuid_pos s)), next_fact_cursor tid eid (digest (canonical_query ast)) mx
        (default_order ast) (take (limit_of (fq_limit ast)) rest) (drop (limit_of (fq_limit ast)) rest)))"
    "qp_nextCursorRef (qr_page r) = map_option fst (qr_cursor r)"
    by (auto simp: page_result_def Let_def act_simps next_uuid_def now_def cursor_id_def split: if_splits)
qed


section \<open>Queries on the store\<close>

definition snapshot_max :: "id \<Rightarrow> id \<Rightarrow> cursor_value option \<Rightarrow> 'a fact_db_scheme \<Rightarrow> nat" where
  "snapshot_max tid eid cursor s = (case cursor of Some c \<Rightarrow> cv_snapshotMaxFactSeq c | None \<Rightarrow> maxFactSeq tid eid s)"

lemma prepare_facts:
  assumes "fq_view ast = V_facts" and "find_cursor tid eid ast s = Inr cursor"
    and "listFacts tid eid (pushed_filter ast cursor (snapshot_max tid eid cursor s)) s = Inr facts"
  shows "prepareQueryFacts collate digest tid eid ast s
    = runFactQuery collate digest tid eid ast facts (snapshot_max tid eid cursor s) cursor s"
  using assms by (simp add: prepareQueryFacts_def bind_act_def lift_result_def snapshot_max_def)

lemma prepare_total:
  assumes "fq_view ast = V_facts" and "find_cursor tid eid ast s = Inr cursor"
    and "matching_facts tid eid ast (snapshot_max tid eid cursor s) (all_facts tid eid s) = Inr M"
  shows "prepareQueryFacts collate digest tid eid ast s
    = runFactQuery collate digest tid eid ast (all_facts tid eid s) (snapshot_max tid eid cursor s) cursor s"
proof -
  obtain facts where "listFacts tid eid (pushed_filter ast cursor (snapshot_max tid eid cursor s)) s = Inr facts"
    by (simp add: pushed_facts)
  with prepare_facts [OF assms(1,2) this] pushed_run [OF assms(3) this] show ?thesis by simp
qed

lemma first_page_matching:
  assumes "fq_view ast = V_facts" and "find_cursor tid eid ast s = Inr None"
    and "prepareQueryFacts collate digest tid eid ast s = (Inr r, s')"
  shows "\<exists>M. matching_facts tid eid ast (maxFactSeq tid eid s) (all_facts tid eid s) = Inr M"
proof (cases "truthy (fq_predicate ast)")
  case True
  then have "listFacts tid eid (pushed_filter ast None (maxFactSeq tid eid s)) s
      = Inr (filter (selected_fact ast) (filter (in_snapshot tid eid (maxFactSeq tid eid s)) (all_facts tid eid s)))"
    unfolding pushed_facts by (simp add: cut_def pushed_filter_def)
  from prepare_facts [OF assms(1,2), unfolded snapshot_max_def option.simps, OF this] assms(3)
  show ?thesis by (simp add: runFactQuery_eq matching_facts_def conj_commute conj_left_commute split: sum.splits)
next
  case False
  then show ?thesis by (simp add: matching_default)
qed

lemma tapes_page_result: "obeys (same (\<lambda>s. (db_facts s, db_query_cursors s, db_query_snapshots s)))
    (page_result digest tid eid ast mx rest)"
  unfolding page_result_def cursor_id_def Let_def
  by (intro obeys_intros) (simp_all add: obeys_def same_def next_uuid_def now_def)

lemma prepare_leaves:
  assumes "fq_view ast = V_facts" and "prepareQueryFacts collate digest tid eid ast s = (Inr r, s')"
  shows "db_facts s' = db_facts s" "db_query_cursors s' = db_query_cursors s"
proof -
  from assms obtain facts mx cursor where "runFactQuery collate digest tid eid ast facts mx cursor s = (Inr r, s')"
    by (auto simp: prepareQueryFacts_def act_simps)
  then obtain M where "page_result digest tid eid ast mx (fact_candidates collate ast cursor M) s = (Inr r, s')"
    by (auto simp: runFactQuery_eq split: sum.splits)
  from obeys_sameD [OF tapes_page_result this] show "db_facts s' = db_facts s" "db_query_cursors s' = db_query_cursors s"
    by simp_all
qed

lemma queryFacts_Inr:
  assumes "fq_view ast = V_facts" and "queryFacts collate digest tid eid ast s = (Inr page, s')"
  obtains r t where "prepareQueryFacts collate digest tid eid ast s = (Inr r, t)" "page = qr_page r"
    "db_facts s' = db_facts s"
    "case qr_cursor r of None \<Rightarrow> db_query_cursors s' = db_query_cursors s
     | Some c \<Rightarrow> \<not> has_key qc_cursorRef (fst c) (db_query_cursors s) \<and> (\<exists>t. db_query_cursors s' = db_query_cursors s
         @ [\<lparr>qc_cursorRef = fst c, qc_taskId = tid, qc_epochId = eid, qc_value = snd c, qc_createdAt = t\<rparr>])"
proof -
  from assms(2) obtain r t where p: "prepareQueryFacts collate digest tid eid ast s = (Inr r, t)" and
    rest: "page = qr_page r" "(case qr_cursor r of None \<Rightarrow> return_act () | Some c \<Rightarrow> insert_cursor tid eid c)
      (t\<lparr>db_query_snapshots := db_query_snapshots t @ [qr_snapshot r]\<rparr>) = (Inr (), s')"
    by (auto simp: queryFacts_def insert_snapshot_def act_simps)
  note same = prepare_leaves [OF assms(1) p]
  show thesis
    by (rule that [OF p rest(1)])
      (use rest(2) same in \<open>auto simp: insert_cursor_def now_def act_simps split: option.splits\<close>)
qed

text \<open>
  What may happen to the store between two pages: facts are added behind the snapshot and other
  cursors are handed out.
\<close>

definition grows :: "id \<Rightarrow> id \<Rightarrow> 'a fact_db_scheme \<Rightarrow> 'a fact_db_scheme \<Rightarrow> bool" where
  "grows tid eid s t \<longleftrightarrow> (\<exists>new. db_facts t = db_facts s @ new
       \<and> (\<forall>f\<in>set new. fr_taskId f = tid \<and> fr_epochId f = eid \<longrightarrow> maxFactSeq tid eid s < fr_factSeq f))
     \<and> (\<exists>new. db_query_cursors t = db_query_cursors s @ new)"

inductive reads ::
  "js comparison \<Rightarrow> (fact_query \<Rightarrow> string) \<Rightarrow> id \<Rightarrow> id \<Rightarrow> fact_query \<Rightarrow> 'a fact_db_scheme \<Rightarrow> js_row list \<Rightarrow> bool"
  for collate digest tid eid where
  last_page: "queryFacts collate digest tid eid ast s = (Inr page, s') \<Longrightarrow> qp_nextCursorRef page = None \<Longrightarrow>
    reads collate digest tid eid ast s (qp_rows page)"
| next_page: "queryFacts collate digest tid eid ast s = (Inr page, s1) \<Longrightarrow> qp_nextCursorRef page = Some ref \<Longrightarrow>
    grows tid eid s1 s2 \<Longrightarrow>
    reads collate digest tid eid (ast\<lparr>fq_limit := n, fq_cursorRef := Some ref\<rparr>) s2 rows \<Longrightarrow>
    reads collate digest tid eid ast s (qp_rows page @ rows)"

lemma maxFactSeq_facts: "db_facts t = db_facts s \<Longrightarrow> maxFactSeq tid eid t = maxFactSeq tid eid s"
  by (simp add: maxFactSeq_def)

lemma maxFactSeq_append: "db_facts t = db_facts s @ new \<Longrightarrow> maxFactSeq tid eid s \<le> maxFactSeq tid eid t"
proof -
  have "foldr max xs 0 \<le> foldr max (xs @ ys) (0 :: nat)" for xs ys by (induction xs) auto
  then show "db_facts t = db_facts s @ new \<Longrightarrow> maxFactSeq tid eid s \<le> maxFactSeq tid eid t"
    by (simp add: maxFactSeq_def max_nat_def)
qed

lemma snapshot_kept:
  assumes "grows tid eid s t" and "mx \<le> maxFactSeq tid eid s"
  shows "filter (in_snapshot tid eid mx) (all_facts tid eid t) = filter (in_snapshot tid eid mx) (all_facts tid eid s)"
proof -
  from assms(1) obtain new where new: "db_facts t = db_facts s @ new"
    "\<forall>f\<in>set new. fr_taskId f = tid \<and> fr_epochId f = eid \<longrightarrow> maxFactSeq tid eid s < fr_factSeq f"
    by (auto simp: grows_def)
  with assms(2) have "filter (\<lambda>f. fr_taskId f = tid \<and> fr_epochId f = eid \<and> in_snapshot tid eid mx f) new = []"
    by (auto simp: filter_empty_conv in_snapshot_def)
  then show ?thesis by (simp add: filter_all_facts new(1))
qed

lemma fresh_cursor:
  assumes "\<not> has_key qc_cursorRef ref (db_query_cursors s)" and "db_query_cursors t = db_query_cursors s
      @ \<lparr>qc_cursorRef = ref, qc_taskId = tid, qc_epochId = eid, qc_value = c, qc_createdAt = tm\<rparr> # new"
    and "ref \<noteq> []" and "fq_cursorRef ast = Some ref"
  shows "find_cursor tid eid ast t = Inr (Some c)"
proof -
  from assms(1) have "List.find (\<lambda>c. qc_cursorRef c = ref \<and> qc_taskId c = tid \<and> qc_epochId c = eid) (db_query_cursors s) = None"
    by (auto simp: find_None_iff' has_key_iff)
  moreover have "List.find p (xs @ ys) = (case List.find p xs of None \<Rightarrow> List.find p ys | Some x \<Rightarrow> Some x)" for p and xs ys :: "query_cursor list"
    by (induction xs) simp_all
  ultimately show ?thesis using assms(2-4) by (simp add: find_cursor_def nonempty_def)
qed


lemma next_query_parts [simp]:
  "selected_fact (ast\<lparr>fq_limit := n, fq_cursorRef := r\<rparr>) = selected_fact ast"
  "predicate_of (ast\<lparr>fq_limit := n, fq_cursorRef := r\<rparr>) = predicate_of ast"
  "order_of (ast\<lparr>fq_limit := n, fq_cursorRef := r\<rparr>) = order_of ast"
  by (auto simp: fun_eq_iff selected_fact_def predicate_of_def order_of_def)

lemma next_query_simps [simp]:
  "default_order (ast\<lparr>fq_limit := n, fq_cursorRef := r\<rparr>) = default_order ast"
  "fact_order collate (ast\<lparr>fq_limit := n, fq_cursorRef := r\<rparr>) = fact_order collate ast"
  "matching_facts tid eid (ast\<lparr>fq_limit := n, fq_cursorRef := r\<rparr>) = matching_facts tid eid ast"
  "fact_row (ast\<lparr>fq_limit := n, fq_cursorRef := r\<rparr>) = fact_row ast"
  by (simp_all add: fun_eq_iff default_order_def fact_order_def matching_facts_def fact_row_def)

lemma matching_cong:
  "filter (in_snapshot tid eid mx) xs = filter (in_snapshot tid eid mx) ys \<Longrightarrow>
    matching_facts tid eid ast mx xs = matching_facts tid eid ast mx ys"
  by (simp add: matching_facts_def)

text \<open>One page: it holds the next rows, and its cursor stands behind them.\<close>

lemma page_step:
  fixes s :: "'a fact_db_scheme"
  assumes "queryFacts collate digest tid eid ast s = (Inr page, s')" and "fq_view ast = V_facts"
    and "find_cursor tid eid ast s = Inr cursor" and "snapshot_max tid eid cursor s = mx"
    and "matching_facts tid eid ast mx (all_facts tid eid s) = Inr M" and "distinct (map fr_factSeq M)"
    and "stands_at (default_order ast) (js_sort (fact_order collate ast) M) cursor rest"
  obtains (no_more) "qp_nextCursorRef page = None" "qp_rows page = map (fact_row ast) rest"
  | (more_rows) ref c rest' where "qp_nextCursorRef page = Some ref" "qp_rows page @ map (fact_row ast) rest' = map (fact_row ast) rest"
      "db_facts s' = db_facts s" "cv_snapshotMaxFactSeq c = mx"
      "stands_at (default_order ast) (js_sort (fact_order collate ast) M) (Some c) rest'"
      "\<And>(t :: 'a fact_db_scheme) new ast'. db_query_cursors t = db_query_cursors s' @ new \<Longrightarrow> fq_cursorRef ast' = Some ref \<Longrightarrow>
        find_cursor tid eid ast' t = Inr (Some c)"
proof -
  let ?n = "limit_of (fq_limit ast)"
  from queryFacts_Inr [OF assms(2,1)] obtain r t where
    p: "prepareQueryFacts collate digest tid eid ast s = (Inr r, t)" "page = qr_page r" "db_facts s' = db_facts s" and
    ins: "case qr_cursor r of None \<Rightarrow> db_query_cursors s' = db_query_cursors s
     | Some c \<Rightarrow> \<not> has_key qc_cursorRef (fst c) (db_query_cursors s) \<and> (\<exists>t. db_query_cursors s' = db_query_cursors s
         @ [\<lparr>qc_cursorRef = fst c, qc_taskId = tid, qc_epochId = eid, qc_value = snd c, qc_createdAt = t\<rparr>])" by blast
  from p(1) obtain u where adm: "query_admitted digest tid eid ast cursor = Inr u" and
    run: "page_result digest tid eid ast mx rest s = (Inr r, t)"
    unfolding prepare_total [OF assms(2,3), unfolded assms(4), OF assms(5)] runFactQuery_eq assms(5)
    by (auto simp: candidates_stand [OF assms(6,7)] split: sum.splits)
  note lim = admitted_limit [OF adm]
  note r = page_result_Inr [OF run lim]
  show thesis
  proof (cases "drop ?n rest = []")
    case True
    then show thesis using r p(2) by (intro no_more) simp_all
  next
    case False
    define ref where "ref = ''QCUR-'' @ uuid_tape s (Suc (uuid_pos s))"
    define c where "c = next_fact_cursor tid eid (digest (canonical_query ast)) mx (default_order ast) (take ?n rest) (drop ?n rest)"
    have cursor: "qr_cursor r = Some (ref, c)" using r(2) False by (simp add: ref_def c_def)
    show thesis
    proof (rule more_rows)
      show "qp_nextCursorRef page = Some ref" by (simp add: p(2) r(3) cursor)
      show "qp_rows page @ map (fact_row ast) (drop ?n rest) = map (fact_row ast) rest"
        by (simp add: p(2) r(1) take_map [symmetric] drop_map [symmetric])
      show "stands_at (default_order ast) (js_sort (fact_order collate ast) M) (Some c) (drop ?n rest)"
        unfolding c_def by (rule next_stands [OF assms(7) limit_of_pos [OF lim] False])
      show "find_cursor tid eid ast' t' = Inr (Some c)"
        if "db_query_cursors t' = db_query_cursors s' @ new" "fq_cursorRef ast' = Some ref" for t' :: "'a fact_db_scheme" and new ast'
        using ins that by (auto simp: cursor ref_def intro!: fresh_cursor)
    qed (simp_all add: p(3) c_def next_fact_cursor_def)
  qed
qed

lemma reads_rest:
  assumes "reads collate digest tid eid ast s rows" and "fq_view ast = V_facts"
    and "find_cursor tid eid ast s = Inr cursor" and "snapshot_max tid eid cursor s = mx" and "mx \<le> maxFactSeq tid eid s"
    and "matching_facts tid eid ast mx (all_facts tid eid s) = Inr M" and "distinct (map fr_factSeq M)"
    and "stands_at (default_order ast) (js_sort (fact_order collate ast) M) cursor rest"
  shows "rows = map (fact_row ast) rest"
  using assms
proof (induction arbitrary: cursor rest rule: reads.induct)
  case (last_page ast s page s')
  from last_page.hyps(1) last_page.prems(1-3,5-7) show ?case
    by (cases rule: page_step) (use last_page.hyps(2) in simp_all)
next
  case (next_page ast s page s1 ref s2 n rows)
  let ?ast = "ast\<lparr>fq_limit := n, fq_cursorRef := Some ref\<rparr>"
  from next_page.hyps(1) next_page.prems(1-3,5-7) show ?case
  proof (cases rule: page_step)
    case no_more
    from no_more(1) next_page.hyps(2) show ?thesis by simp
  next
    case (more_rows ref' c rest')
    with next_page.hyps(2) have ref: "ref' = ref" by simp
    from next_page.hyps(3) obtain new fs where grown: "db_query_cursors s2 = db_query_cursors s1 @ new"
      "db_facts s2 = db_facts s1 @ fs" by (auto simp: grows_def)
    have mx: "mx \<le> maxFactSeq tid eid s1" using next_page.prems(4) by (simp add: maxFactSeq_facts [OF more_rows(3)])
    have "matching_facts tid eid ast mx (all_facts tid eid s2) = matching_facts tid eid ast mx (all_facts tid eid s)"
    proof (rule matching_cong)
      have "all_facts tid eid s1 = all_facts tid eid s" by (simp add: all_facts_def more_rows(3))
      then show "filter (in_snapshot tid eid mx) (all_facts tid eid s2) = filter (in_snapshot tid eid mx) (all_facts tid eid s)"
        by (simp only: snapshot_kept [OF next_page.hyps(3) mx])
    qed
    with next_page.prems(5) have M: "matching_facts tid eid ?ast mx (all_facts tid eid s2) = Inr M" by simp
    have cursor: "find_cursor tid eid ?ast s2 = Inr (Some c)" by (rule more_rows(6) [OF grown(1)]) (simp add: ref)
    have "rows = map (fact_row ?ast) rest'"
    proof (rule next_page.IH [OF _ cursor _ _ M next_page.prems(6)])
      show "mx \<le> maxFactSeq tid eid s2" using mx maxFactSeq_append [OF grown(2)] by (rule le_trans)
      show "stands_at (default_order ?ast) (js_sort (fact_order collate ?ast) M) (Some c) rest'"
        using more_rows(5) by simp
    qed (simp_all add: next_page.prems(1) snapshot_max_def more_rows(4))
    with more_rows(2) show ?thesis by simp
  qed
qed

text \<open>
  C24. Reading all the pages of a query over facts gives exactly the answer the store had when the
  first page was read: the rows of the matching facts, each once, in the order asked for. It does
  not matter how long the pages are, that their length changes, that facts of the epoch are
  committed and other cursors handed out in between, or how the collation orders the values.
\<close>

theorem pages_are_one_snapshot:
  assumes "reads collate digest tid eid ast s rows" and "fq_view ast = V_facts" and "nonempty (fq_cursorRef ast) = None"
    and "distinct (map fr_factSeq (all_facts tid eid s))"
  shows "\<exists>M. matching_facts tid eid ast (maxFactSeq tid eid s) (all_facts tid eid s) = Inr M
    \<and> rows = map (fact_row ast) (js_sort (fact_order collate ast) M)"
proof -
  have cur: "find_cursor tid eid ast s = Inr None" using assms(3) by (simp add: find_cursor_def)
  from assms(1) obtain page s' where "queryFacts collate digest tid eid ast s = (Inr page, s')"
    by (auto elim: reads.cases)
  from queryFacts_Inr [OF assms(2) this] first_page_matching [OF assms(2) cur] obtain M where
    M: "matching_facts tid eid ast (maxFactSeq tid eid s) (all_facts tid eid s) = Inr M" by metis
  then have "distinct (map fr_factSeq M)" using assms(4)
    by (auto simp: matching_facts_def try_filter_Inr distinct_map intro: inj_on_subset)
  from reads_rest [OF assms(1,2) cur refl _ _ this] M show ?thesis
    by (simp add: snapshot_max_def stands_at_def)
qed


section \<open>The optimised query\<close>

text \<open>
  C25. What the query pushes down into SQL changes nothing: whenever the predicate can be evaluated
  on the facts of the snapshot, the clauses, the lower bound of the cursor and the LIMIT of one row
  more than the page give the same page, cursor and snapshot, or the same refusal, as running the
  query over every fact of the epoch.
\<close>

theorem pushed_query_is_the_query:
  assumes "fq_view ast = V_facts" and "find_cursor tid eid ast s = Inr cursor"
    and "matching_facts tid eid ast (snapshot_max tid eid cursor s) (all_facts tid eid s) = Inr M"
  shows "prepareQueryFacts collate digest tid eid ast s
    = runFactQuery collate digest tid eid ast (all_facts tid eid s) (snapshot_max tid eid cursor s) cursor s"
  by (rule prepare_total [OF assms])

section \<open>The private payload\<close>

definition conceal :: "(fact_record \<Rightarrow> js_row) \<Rightarrow> fact_record \<Rightarrow> fact_record" where
  "conceal g f = f\<lparr>fr_privatePayload := g f\<rparr>"

definition conceal_facts :: "(fact_record \<Rightarrow> js_row) \<Rightarrow> 'a fact_db_scheme \<Rightarrow> 'a fact_db_scheme" where
  "conceal_facts g s = s\<lparr>db_facts := map (conceal g) (db_facts s)\<rparr>"

lemma conceal_simps [simp]:
  "fr_factSeq (conceal g f) = fr_factSeq f" "fr_factId (conceal g f) = fr_factId f"
  "fact_matches opt (conceal g f) = fact_matches opt f" "in_snapshot tid eid mx (conceal g f) = in_snapshot tid eid mx f"
  "selected_fact ast (conceal g f) = selected_fact ast f" "predicate_of ast (conceal g f) = predicate_of ast f"
  "fr_taskId (conceal g f) = fr_taskId f" "fr_epochId (conceal g f) = fr_epochId f"
  "fact_field (conceal g f) k = fact_field f k" "fact_row ast (conceal g f) = fact_row ast f"
  by (simp_all add: conceal_def fact_matches_def in_snapshot_def selected_fact_def predicate_of_def fact_field_def
      fact_row_def project_def split: option.split)

lemma conceal_orders [simp]:
  "fact_order collate ast (conceal g l) (conceal g r) = fact_order collate ast l r"
proof -
  have "compare_by (\<lambda>k l r. compare_values collate (fact_field l k) (fact_field r k)) order (conceal g l) (conceal g r)
      = compare_by (\<lambda>k l r. compare_values collate (fact_field l k) (fact_field r k)) order l r" for order
    by (induction order) (auto simp: Let_def)
  then show ?thesis by (simp add: fact_order_def compare_def seq_diff_def)
qed

lemma order_by_conceal: "order_by fr_factSeq (map (conceal g) xs) = map (conceal g) (order_by fr_factSeq xs)"
proof -
  have "insort_key fr_factSeq (conceal g x) (map (conceal g) ys) = map (conceal g) (insort_key fr_factSeq x ys)" for x ys
    by (induction ys) simp_all
  then show ?thesis by (induction xs) (simp_all add: order_by_def)
qed

lemma find_conceal: "List.find (\<lambda>f. fr_factSeq f = n) (map (conceal g) xs)
    = map_option (conceal g) (List.find (\<lambda>f. fr_factSeq f = n) xs)"
  by (induction xs) simp_all

lemma lookup_conceal: "List.map_filter (by_seq (map (conceal g) xs)) ns = map (conceal g) (List.map_filter (by_seq xs) ns)"
  by (induction ns) (simp_all add: by_seq_def rev_map find_conceal List.map_filter_simps split: option.split)

lemma candidates_conceal:
  "fact_candidates collate ast cursor (map (conceal g) xs) = map (conceal g) (fact_candidates collate ast cursor xs)"
proof (cases cursor)
  case (Some c)
  then show ?thesis by (cases "cv_position c")
    (simp_all add: fact_candidates_def js_sort_map lookup_conceal filter_map comp_def)
qed (simp add: fact_candidates_def js_sort_map)

lemma matching_conceal:
  "matching_facts tid eid ast mx (map (conceal g) xs) = map_sum id (map (conceal g)) (matching_facts tid eid ast mx xs)"
  by (simp add: matching_facts_def filter_map comp_def try_filter_map)

lemma page_conceal:
  "page_result digest tid eid ast mx (map (conceal g) xs) = page_result digest tid eid ast mx xs"
proof -
  have "xs \<noteq> [] \<Longrightarrow> fr_factSeq (last (map (conceal g) xs)) = fr_factSeq (last xs)" for xs by (simp add: last_map)
  then have "next_fact_cursor tid eid dg mx d (map (conceal g) page) (map (conceal g) rest) = next_fact_cursor tid eid dg mx d page rest"
    if "page \<noteq> []" for page rest dg d
    using that by (simp add: next_fact_cursor_def comp_def)
  then show ?thesis
    by (auto simp: page_result_def Let_def take_map drop_map comp_def fact_snapshot_def cursor_id_def bind_act_def
        next_uuid_def now_def fun_eq_iff)
qed

lemma run_conceal:
  "runFactQuery collate digest tid eid ast (map (conceal g) facts) mx cursor s
    = runFactQuery collate digest tid eid ast facts mx cursor s"
  by (simp add: runFactQuery_eq matching_conceal candidates_conceal page_conceal split: sum.split)


lemma tapes_only: "runFactQuery collate digest tid eid ast facts mx cursor (s\<lparr>db_facts := x\<rparr>)
    = map_prod id (\<lambda>t. t\<lparr>db_facts := x\<rparr>) (runFactQuery collate digest tid eid ast facts mx cursor s)"
  for s :: "'a fact_db_scheme"
  by (simp add: runFactQuery_eq page_result_def Let_def bind_act_def cursor_id_def next_uuid_def now_def split: sum.split)

lemma listFacts_conceal:
  "listFacts tid eid opt (conceal_facts g s) = map_sum id (map (conceal g)) (listFacts tid eid opt s)"
  by (simp add: listFacts_def conceal_facts_def filter_map comp_def order_by_conceal Let_def take_map split: option.split)

lemma maxFactSeq_conceal: "maxFactSeq tid eid (conceal_facts g s) = maxFactSeq tid eid s"
  by (simp add: maxFactSeq_def conceal_facts_def filter_map comp_def)

lemma find_cursor_conceal: "find_cursor tid eid ast (conceal_facts g s) = find_cursor tid eid ast s"
  by (simp add: find_cursor_def conceal_facts_def split: option.split)

lemma static_tapes_only: "runStaticQuery collate digest tid eid ast rows mx cursor (s\<lparr>db_facts := x\<rparr>)
    = map_prod id (\<lambda>t. t\<lparr>db_facts := x\<rparr>) (runStaticQuery collate digest tid eid ast rows mx cursor s)"
  for s :: "'a fact_db_scheme"
  by (simp add: runStaticQuery_def lift_result_def seq_act_def require_def Let_def bind_act_def cursor_id_def
      next_uuid_def now_def split: sum.split)

lemma modelViewRows_conceal: "modelViewRows tid eid view (conceal_facts g s) = modelViewRows tid eid view s"
  by (simp add: modelViewRows_def conceal_facts_def listEdges_def listEvidence_def listAssessments_def listCoverageRuns_def)

lemma snapshot_conceal: "snapshot_max tid eid cursor (conceal_facts g s) = snapshot_max tid eid cursor s"
  by (simp add: snapshot_max_def maxFactSeq_conceal split: option.split)

lemma prepare_facts_conceal:
  assumes facts: "fq_view ast = V_facts" and cursor: "find_cursor tid eid ast s = Inr cursor"
  shows "fst (prepareQueryFacts collate digest tid eid ast (conceal_facts g s)) = fst (prepareQueryFacts collate digest tid eid ast s)"
proof -
  let ?mx = "snapshot_max tid eid cursor s"
  obtain fs where fs: "listFacts tid eid (pushed_filter ast cursor ?mx) s = Inr fs" by (simp add: pushed_facts)
  then have "listFacts tid eid (pushed_filter ast cursor (snapshot_max tid eid cursor (conceal_facts g s))) (conceal_facts g s)
      = Inr (map (conceal g) fs)"
    by (simp add: listFacts_conceal snapshot_conceal)
  from prepare_facts [OF facts cursor fs] prepare_facts [OF facts find_cursor_conceal [THEN trans, OF cursor] this]
  show ?thesis by (simp add: run_conceal conceal_facts_def tapes_only snapshot_conceal [unfolded conceal_facts_def])
qed

lemma prepare_static_conceal:
  assumes "fq_view ast \<noteq> V_facts" and "find_cursor tid eid ast s = Inr cursor"
  shows "fst (prepareQueryFacts collate digest tid eid ast (conceal_facts g s)) = fst (prepareQueryFacts collate digest tid eid ast s)"
proof -
  have "prepareQueryFacts collate digest tid eid ast t = runStaticQuery collate digest tid eid ast
      (modelViewRows tid eid (fq_view ast) t) (snapshot_max tid eid cursor t) cursor t"
    if "find_cursor tid eid ast t = Inr cursor" for t :: "'a fact_db_scheme"
    using assms(1) that by (simp add: prepareQueryFacts_def bind_act_def lift_result_def snapshot_max_def)
  note run = this [OF assms(2)] this [OF find_cursor_conceal [THEN trans, OF assms(2)]]
  show ?thesis unfolding run modelViewRows_conceal snapshot_conceal unfolding conceal_facts_def static_tapes_only by simp
qed


section \<open>A query in two pages\<close>

definition numbered_fact :: "nat \<Rightarrow> fact_record" where
  "numbered_fact n = sample_fact\<lparr>fr_factSeq := n, fr_factId := ''FACT'' @ replicate n CHR ''x''\<rparr>"

definition three_facts :: db where
  "three_facts = empty_db\<lparr>db_facts := map numbered_fact [1, 2, 3]\<rparr>"

definition first_query :: fact_query where
  "first_query = \<lparr>fq_view = V_facts, fq_namespace = Some NS_file, fq_predicate = Undefined, fq_sourceRunId = None,
     fq_subjectRef = None, fq_sourceKind = None, fq_completeness = None, fq_category = None, fq_authorType = None,
     fq_verdict = None, fq_status = None, fq_applicability = None, fq_select = [''factId'', ''payload''],
     fq_orderBy = Some [(''factSeq'', Desc)], fq_limit = Fin 2, fq_cursorRef = None\<rparr>"

definition first_read :: "(err + query_page) \<times> db" where
  "first_read = queryFacts (\<lambda>_ _. 0) (\<lambda>_. ''d'') ''T1'' ''E1'' first_query three_facts"


definition second_store :: db where
  "second_store = (snd first_read)\<lparr>db_facts := db_facts (snd first_read) @ [numbered_fact 4]\<rparr>"

definition second_query :: fact_query where
  "second_query = first_query\<lparr>fq_limit := Fin 5, fq_cursorRef := Some ''QCUR-x''\<rparr>"

definition second_read :: "(err + query_page) \<times> db" where
  "second_read = queryFacts (\<lambda>_ _. 0) (\<lambda>_. ''d'') ''T1'' ''E1'' second_query second_store"

lemma sample_reads:
  "case fst first_read of Inr p \<Rightarrow> qp_nextCursorRef p = Some ''QCUR-x'' \<and> length (qp_rows p) = 2 | Inl _ \<Rightarrow> False"
  "case fst second_read of Inr p \<Rightarrow> qp_nextCursorRef p = None \<and> length (qp_rows p) = 1 | Inl _ \<Rightarrow> False"
  "maxFactSeq ''T1'' ''E1'' (snd first_read) = 3"
  by code_simp+

theorem pages_are_one_snapshot_witness:
  "\<exists>rows. reads (\<lambda>_ _. 0) (\<lambda>_. ''d'') ''T1'' ''E1'' first_query three_facts rows \<and> length rows = 3
     \<and> rows = map (fact_row first_query) (js_sort (fact_order (\<lambda>_ _. 0) first_query) (all_facts ''T1'' ''E1'' three_facts))"
proof -
  from sample_reads(1) obtain p where p: "fst first_read = Inr p" "qp_nextCursorRef p = Some ''QCUR-x''" "length (qp_rows p) = 2"
    by (auto split: sum.splits)
  from sample_reads(2) obtain q where q: "fst second_read = Inr q" "qp_nextCursorRef q = None" "length (qp_rows q) = 1"
    by (auto split: sum.splits)
  have "grows ''T1'' ''E1'' (snd first_read) second_store"
    by (auto simp: grows_def second_store_def sample_reads(3) numbered_fact_def)
  moreover have "queryFacts (\<lambda>_ _. 0) (\<lambda>_. ''d'') ''T1'' ''E1'' first_query three_facts = (Inr p, snd first_read)"
    "queryFacts (\<lambda>_ _. 0) (\<lambda>_. ''d'') ''T1'' ''E1'' second_query second_store = (Inr q, snd second_read)"
    using p(1) q(1) by (simp_all add: first_read_def second_read_def prod_eq_iff)
  ultimately have run: "reads (\<lambda>_ _. 0) (\<lambda>_. ''d'') ''T1'' ''E1'' first_query three_facts (qp_rows p @ qp_rows q)"
    using p(2) q(2) by (intro reads.intros) (simp_all add: second_query_def)
  have "distinct (map fr_factSeq (all_facts ''T1'' ''E1'' three_facts))" "nonempty (fq_cursorRef first_query) = None"
    "fq_view first_query = V_facts" "maxFactSeq ''T1'' ''E1'' three_facts = 3" by code_simp+
  with pages_are_one_snapshot [OF run] obtain M where
    "matching_facts ''T1'' ''E1'' first_query 3 (all_facts ''T1'' ''E1'' three_facts) = Inr M"
    "qp_rows p @ qp_rows q = map (fact_row first_query) (js_sort (fact_order (\<lambda>_ _. 0) first_query) M)" by auto
  moreover have "matching_facts ''T1'' ''E1'' first_query 3 (all_facts ''T1'' ''E1'' three_facts)
      = Inr (all_facts ''T1'' ''E1'' three_facts)" by code_simp
  ultimately have "qp_rows p @ qp_rows q = map (fact_row first_query)
      (js_sort (fact_order (\<lambda>_ _. 0) first_query) (all_facts ''T1'' ''E1'' three_facts))" by simp
  moreover have "length (qp_rows p @ qp_rows q) = 3" using p(3) q(3) by simp
  ultimately show ?thesis using run by blast
qed

theorem pushed_query_is_the_query_witness:
  "prepareQueryFacts (\<lambda>_ _. 0) (\<lambda>_. ''d'') ''T1'' ''E1'' first_query three_facts
     = runFactQuery (\<lambda>_ _. 0) (\<lambda>_. ''d'') ''T1'' ''E1'' first_query (all_facts ''T1'' ''E1'' three_facts) 3 None three_facts"
proof -
  have "fq_view first_query = V_facts" "find_cursor ''T1'' ''E1'' first_query three_facts = Inr None"
    "snapshot_max ''T1'' ''E1'' None three_facts = 3"
    "matching_facts ''T1'' ''E1'' first_query 3 (all_facts ''T1'' ''E1'' three_facts)
      = Inr (all_facts ''T1'' ''E1'' three_facts)" by code_simp+
  with pushed_query_is_the_query [of first_query "''T1''" "''E1''" three_facts None] show ?thesis by metis
qed

end
