(* ===== verification/Resolver.thy ===== *)
theory Resolver
  imports FactBatch JsSort
begin

text \<open>
  The relations the controller derives itself: \<open>src/investigation/derived-object-resolver.ts\<close>
  joins a socket with its owner and a process with its parent,
  \<open>src/investigation/java-relation-resolver.ts\<close> joins Java components with their classes and
  classes with their files, and \<open>src/investigation/java-class-identity.ts\<close> reads class identities.
  \<open>collate\<close> is \<open>localeCompare\<close>, \<open>parse\<close> is \<open>Date.parse\<close>, \<open>to_iso\<close> writes a time as ISO text and
  \<open>url_path\<close> is the decoded path of a URL, if it has one.
\<close>

section \<open>The latest fact of a subject\<close>

text \<open>A \<open>Map\<close> keeps the position a key was first given.\<close>

fun put_latest :: "fact_record \<Rightarrow> fact_record list \<Rightarrow> fact_record list" where
  "put_latest f [] = [f]"
| "put_latest f (g # gs) = (if fr_subjectRef g = fr_subjectRef f
     then (if fr_factSeq g < fr_factSeq f then f else g) # gs else g # put_latest f gs)"

definition latestBySubject :: "fact_record list \<Rightarrow> fact_record list" where
  "latestBySubject facts = foldl (\<lambda>latest f. put_latest f latest) [] facts"

definition private_field :: "fact_record \<Rightarrow> string \<Rightarrow> js" where
  "private_field f k = get_prop (fr_privatePayload f) k"

text \<open>
  \<open>Math.abs(Date.parse(l) - Date.parse(r))\<close>, which is NaN when a time cannot be read; in the order
  \<open>a - b || c\<close> a difference that is NaN counts as 0, and SQLite drops a row whose time error is NaN
  like one whose time error is negative.
\<close>

fun num_distance :: "jsnum \<Rightarrow> jsnum \<Rightarrow> jsnum" where
  "num_distance (Fin a) (Fin b) = Fin \<bar>a - b\<bar>"
| "num_distance _ _ = NaN"

definition distance :: "(string \<Rightarrow> jsnum) \<Rightarrow> fact_record \<Rightarrow> fact_record \<Rightarrow> jsnum" where
  "distance parse l r = num_distance (parse (fr_observedAt l)) (parse (fr_observedAt r))"

fun difference :: "jsnum \<Rightarrow> jsnum \<Rightarrow> rat" where
  "difference (Fin a) (Fin b) = a - b"
| "difference _ _ = 0"

fun stored_error :: "jsnum \<Rightarrow> rat" where
  "stored_error (Fin a) = a"
| "stored_error _ = -1"

definition later :: "(string \<Rightarrow> jsnum) \<Rightarrow> time \<Rightarrow> time \<Rightarrow> time" where
  "later parse l r = (if num_le (parse r) (parse l) then l else r)"

section \<open>Sockets and processes\<close>

datatype derived_resolver = Socket_owner_by_pid | Process_parent_by_ppid

record resolver_definition =
  rd_sourceNamespace :: namespace_name
  rd_targetNamespace :: namespace_name
  rd_relation :: string
  rd_sourceJoinField :: string
  rd_targetJoinField :: string

fun DERIVED_RESOLVERS :: "derived_resolver \<Rightarrow> resolver_definition" where
  "DERIVED_RESOLVERS Socket_owner_by_pid = \<lparr>rd_sourceNamespace = NS_socket, rd_targetNamespace = NS_process,
     rd_relation = ''owned_by'', rd_sourceJoinField = ''pid'', rd_targetJoinField = ''pid''\<rparr>"
| "DERIVED_RESOLVERS Process_parent_by_ppid = \<lparr>rd_sourceNamespace = NS_process, rd_targetNamespace = NS_process,
     rd_relation = ''parent'', rd_sourceJoinField = ''ppid'', rd_targetJoinField = ''pid''\<rparr>"

fun resolver_name :: "derived_resolver \<Rightarrow> string" where
  "resolver_name Socket_owner_by_pid = ''socket.owner_by_pid@1.0.0''"
| "resolver_name Process_parent_by_ppid = ''process.parent_by_ppid@1.0.0''"

record derived_request =
  dq_requestId :: id
  dq_taskId :: id
  dq_epochId :: id
  dq_resolverRef :: derived_resolver
  dq_sourceFactRef :: id

datatype derived_status = RESOLVED | NO_MATCH_FOUND | AMBIGUOUS

record derived_result =
  dr_requestId :: id
  dr_resolverRef :: derived_resolver
  dr_sourceFactRef :: id
  dr_status :: derived_status
  dr_objectRefs :: "id list"
  dr_edgeRefs :: "id list"

definition stringField :: "fact_record \<Rightarrow> string \<Rightarrow> string option" where
  "stringField f k = (case private_field f k of Str s \<Rightarrow> nonempty (Some s) | _ \<Rightarrow> None)"

definition integerStringField :: "fact_record \<Rightarrow> string \<Rightarrow> string option" where
  "integerStringField f k = (case stringField f k of None \<Rightarrow> None
     | Some s \<Rightarrow> if list_all is_digit s then Some s else None)"

definition namespaceField :: "fact_record \<Rightarrow> string option" where
  "namespaceField f = (case private_field f ''namespaces'' of
       Obj kvs \<Rightarrow> (case get_prop kvs ''pid'' of Str s \<Rightarrow> nonempty (Some s) | _ \<Rightarrow> None) | _ \<Rightarrow> None)"

definition hasStableProcessRelationship :: "derived_resolver \<Rightarrow> fact_record \<Rightarrow> fact_record \<Rightarrow> bool" where
  "hasStableProcessRelationship resolver source target =
     (case (stringField target ''bootId'', integerStringField target ''startTicks'', namespaceField target) of
        (Some boot, Some ticks, Some ns) \<Rightarrow>
          (case resolver of
             Socket_owner_by_pid \<Rightarrow> stringField source ''ownerBootId'' = Some boot
               \<and> integerStringField source ''ownerStartTicks'' = Some ticks
               \<and> stringField source ''ownerPidNamespace'' = Some ns
           | Process_parent_by_ppid \<Rightarrow> fr_sourceRunId source = fr_sourceRunId target
               \<and> stringField source ''bootId'' = Some boot \<and> namespaceField source = Some ns
               \<and> (case integerStringField source ''startTicks'' of None \<Rightarrow> False
                  | Some own \<Rightarrow> dec_value ticks < dec_value own))
      | _ \<Rightarrow> False)"

definition latestVersion :: "(string \<Rightarrow> string \<Rightarrow> rat) \<Rightarrow> entity_version list \<Rightarrow> entity_version option" where
  "latestVersion collate versions = (let ordered = js_sort (\<lambda>l r. collate (vn_validFrom l) (vn_validFrom r)) versions in
     if ordered = [] then None else Some (last ordered))"

definition unresolved :: "derived_request \<Rightarrow> derived_status \<Rightarrow> id list \<Rightarrow> derived_result" where
  "unresolved q st refs = \<lparr>dr_requestId = dq_requestId q, dr_resolverRef = dq_resolverRef q,
     dr_sourceFactRef = dq_sourceFactRef q, dr_status = st, dr_objectRefs = refs, dr_edgeRefs = []\<rparr>"

definition envelope_covers :: "authorization_envelope \<Rightarrow> resolver_definition \<Rightarrow> bool" where
  "envelope_covers envelope d \<longleftrightarrow> rd_relation d \<in> set (ae_derivedRelations envelope)
     \<and> rd_sourceNamespace d \<in> set (ae_namespaces envelope) \<and> rd_targetNamespace d \<in> set (ae_namespaces envelope)"

definition join_candidates ::
  "(string \<Rightarrow> string \<Rightarrow> rat) \<Rightarrow> (string \<Rightarrow> jsnum) \<Rightarrow> resolver_definition \<Rightarrow> fact_record \<Rightarrow> fact_record list \<Rightarrow> fact_record list" where
  "join_candidates collate parse d source facts =
     js_sort (\<lambda>l r. then_by (difference (distance parse source l) (distance parse source r)) (collate (fr_subjectRef l) (fr_subjectRef r)))
       (filter (\<lambda>f. strict_eq (private_field f (rd_targetJoinField d)) (private_field source (rd_sourceJoinField d))
           \<and> fr_subjectRef f \<noteq> fr_subjectRef source) (latestBySubject facts))"

definition derived_edge_id :: "(js \<Rightarrow> string) \<Rightarrow> derived_request \<Rightarrow> fact_record \<Rightarrow> id" where
  "derived_edge_id digest q target = ''EDGE-DERIVED-'' @ take 40 (digest (Obj [(''taskId'', Str (dq_taskId q)),
     (''epochId'', Str (dq_epochId q)), (''resolverRef'', Str (resolver_name (dq_resolverRef q))),
     (''sourceFactRef'', Str (dq_sourceFactRef q)), (''targetFactRef'', Str (fr_factId target))]))"

definition derived_edge ::
  "(js \<Rightarrow> string) \<Rightarrow> (string \<Rightarrow> jsnum) \<Rightarrow> derived_request \<Rightarrow> fact_record \<Rightarrow> fact_record \<Rightarrow> edge_record" where
  "derived_edge digest parse q source target = \<lparr>eg_edgeId = derived_edge_id digest q target, eg_taskId = dq_taskId q,
     eg_epochId = dq_epochId q, eg_relation = rd_relation (DERIVED_RESOLVERS (dq_resolverRef q)),
     eg_fromRef = fr_subjectRef source, eg_toRef = fr_subjectRef target, eg_sourceRunId = dq_requestId q,
     eg_observedAt = later parse (fr_observedAt source) (fr_observedAt target)\<rparr>"

definition derived_provenance ::
  "(string \<Rightarrow> jsnum) \<Rightarrow> derived_request \<Rightarrow> edge_record \<Rightarrow> fact_record \<Rightarrow> fact_record \<Rightarrow> entity_version option \<Rightarrow>
   entity_version option \<Rightarrow> relation_provenance" where
  "derived_provenance parse q edge source target from_version to_version = \<lparr>rv_edgeRef = eg_edgeId edge,
     rv_taskId = eg_taskId edge, rv_epochId = eg_epochId edge, rv_fromVersionRef = map_option vn_versionRef from_version,
     rv_toVersionRef = map_option vn_versionRef to_version, rv_derivation = DERIVED,
     rv_sourceRefs = [fr_factId source, fr_factId target], rv_resolverVersion = resolver_name (dq_resolverRef q),
     rv_timeErrorMs = stored_error (distance parse source target)\<rparr>"

definition store_derivation ::
  "(js \<Rightarrow> string) \<Rightarrow> (string \<Rightarrow> string \<Rightarrow> rat) \<Rightarrow> (string \<Rightarrow> jsnum) \<Rightarrow> derived_request \<Rightarrow> fact_record \<Rightarrow> fact_record \<Rightarrow>
   ('a db_scheme, derived_result) act" where
  "store_derivation digest collate parse q source target =
     (let edge = derived_edge digest parse q source target in
     bind_act (read_act (\<lambda>s. (
         latestVersion collate (listEntityVersions (dq_taskId q) (dq_epochId q) (Some (fr_subjectRef source)) s),
         latestVersion collate (listEntityVersions (dq_taskId q) (dq_epochId q) (Some (fr_subjectRef target)) s))))
       (\<lambda>(from_version, to_version).
     bind_act (putDerivedEdge edge (derived_provenance parse q edge source target from_version to_version)) (\<lambda>_.
     return_act \<lparr>dr_requestId = dq_requestId q, dr_resolverRef = dq_resolverRef q, dr_sourceFactRef = dq_sourceFactRef q,
       dr_status = RESOLVED, dr_objectRefs = [fr_subjectRef target], dr_edgeRefs = [eg_edgeId edge]\<rparr>)))"

definition unjoinable :: "js \<Rightarrow> bool" where
  "unjoinable v \<longleftrightarrow> nullish v \<or> v = Str []"

definition of_namespace :: "namespace_name \<Rightarrow> id \<Rightarrow> id \<Rightarrow> 'a fact_db_scheme \<Rightarrow> fact_record list" where
  "of_namespace ns tid eid s = filter (\<lambda>f. fr_namespace f = ns) (all_facts tid eid s)"

definition resolve ::
  "(js \<Rightarrow> string) \<Rightarrow> (string \<Rightarrow> string \<Rightarrow> rat) \<Rightarrow> (string \<Rightarrow> jsnum) \<Rightarrow> derived_request \<Rightarrow> authorization_envelope \<Rightarrow>
   ('a db_scheme, derived_result) act" where
  "resolve digest collate parse q envelope = (let d = DERIVED_RESOLVERS (dq_resolverRef q) in
     bind_act (read_act (getFact (dq_taskId q) (dq_epochId q) (dq_sourceFactRef q))) (\<lambda>found. case found of
       None \<Rightarrow> throw_act Plain_error
     | Some source \<Rightarrow>
         seq_act (require (fr_namespace source = rd_sourceNamespace d) Plain_error)
        (seq_act (require (envelope_covers envelope d) Plain_error)
        (if unjoinable (private_field source (rd_sourceJoinField d)) then return_act (unresolved q NO_MATCH_FOUND [])
         else bind_act (read_act (of_namespace (rd_targetNamespace d) (dq_taskId q) (dq_epochId q))) (\<lambda>facts.
           let candidates = join_candidates collate parse d source facts;
               targets = filter (hasStableProcessRelationship (dq_resolverRef q) source) candidates in
           if candidates = [] then return_act (unresolved q NO_MATCH_FOUND [])
           else case targets of [target] \<Rightarrow> store_derivation digest collate parse q source target
             | _ \<Rightarrow> return_act (unresolved q AMBIGUOUS (unique (map fr_subjectRef candidates))))))))"

section \<open>Java classes\<close>

record class_target =
  ct_className :: string
  ct_classLoaderId :: string

definition lower :: "string \<Rightarrow> string" where
  "lower s = map (\<lambda>c. let n = of_char c :: nat in
     if 65 \<le> n \<and> n \<le> 90 \<or> 192 \<le> n \<and> n \<le> 222 \<and> n \<noteq> 215 then char_of (n + 32) else c) s"

definition PLACEHOLDER_IDENTIFIERS :: "string list" where
  "PLACEHOLDER_IDENTIFIERS = [''unknown'', ''unavailable'', ''n/a'', ''none'', ''null'', ''-'']"

fun isUsableJavaClassIdentifier :: "js \<Rightarrow> bool" where
  "isUsableJavaClassIdentifier (Str s) = (js_trim s \<noteq> [] \<and> lower (js_trim s) \<notin> set PLACEHOLDER_IDENTIFIERS)"
| "isUsableJavaClassIdentifier _ = False"

definition loader_of :: "fact_record \<Rightarrow> js" where
  "loader_of f = (if fr_namespace f = NS_java_component then private_field f ''classLoaderId''
     else if fr_namespace f = NS_class then private_field f ''loaderId'' else Undefined)"

definition observedJavaClassLoaderIds :: "fact_record list \<Rightarrow> string \<Rightarrow> string list" where
  "observedJavaClassLoaderIds facts className = sort (unique (map (string_of \<circ> loader_of)
     (filter (\<lambda>f. strict_eq (private_field f ''className'') (Str className) \<and> isUsableJavaClassIdentifier (loader_of f)) facts)))"

definition or_else :: "js \<Rightarrow> js \<Rightarrow> js" where
  "or_else a b = (if nullish a then b else a)"

definition component_key :: "(js \<Rightarrow> string) \<Rightarrow> fact_record \<Rightarrow> string" where
  "component_key digest f = digest (Obj [(''className'', private_field f ''className''),
     (''context'', or_else (private_field f ''context'') (or_else (private_field f ''contextPath'') Null)),
     (''componentKind'', or_else (private_field f ''componentKind'') Null), (''name'', or_else (private_field f ''name'') Null)])"

definition class_target_of :: "fact_record \<Rightarrow> class_target" where
  "class_target_of f = \<lparr>ct_className = string_of (private_field f ''className''), ct_classLoaderId = string_of (private_field f ''classLoaderId'')\<rparr>"

text \<open>The usable targets of each logical component, in the order the components were first seen.\<close>

definition component_groups :: "(js \<Rightarrow> string) \<Rightarrow> fact_record list \<Rightarrow> class_target list list" where
  "component_groups digest components = map (\<lambda>k. map class_target_of (filter (\<lambda>f. component_key digest f = k
       \<and> isUsableJavaClassIdentifier (private_field f ''classLoaderId'')) components))
     (unique (map (component_key digest) components))"

definition selectJavaClassInspectionTargets ::
  "(js \<Rightarrow> string) \<Rightarrow> fact_record list \<Rightarrow> id list \<Rightarrow> nat \<Rightarrow> class_target list \<times> bool" where
  "selectJavaClassInspectionTargets digest facts objectRefs maximum =
     (let allowed = filter (\<lambda>f. fr_namespace f = NS_java_component \<and> fr_subjectRef f \<in> set objectRefs) facts;
          named = filter (\<lambda>f. isUsableJavaClassIdentifier (private_field f ''className'')) allowed;
          groups = component_groups digest named;
          all_targets = unique (concat groups) in
      (take maximum all_targets, named \<noteq> allowed \<or> list_ex (\<lambda>g. g = []) groups \<or> maximum < length all_targets))"

section \<open>Java relations\<close>

definition JAVA_RELATION_RESOLVER_VERSION :: string where
  "JAVA_RELATION_RESOLVER_VERSION = ''java-runtime-relations@1.0.0''"

definition normalizeCodeSource :: "(string \<Rightarrow> string option) \<Rightarrow> js \<Rightarrow> string option" where
  "normalizeCodeSource url_path v = (case v of
       Str s \<Rightarrow> if s = [] then None
         else if starts_with ''file:'' s then url_path s
         else if starts_with ''/'' s then Some s else None
     | _ \<Rightarrow> None)"

definition last_version_ref :: "id \<Rightarrow> id \<Rightarrow> id \<Rightarrow> 'a db_scheme \<Rightarrow> id option" where
  "last_version_ref tid eid subject s = (let versions = listEntityVersions tid eid (Some subject) s in
     if versions = [] then None else Some (vn_versionRef (last versions)))"

text \<open>\<open>new Date(Math.max(...)).toISOString()\<close> throws when one of the times cannot be read.\<close>

fun latest_time :: "(rat \<Rightarrow> time) \<Rightarrow> jsnum \<Rightarrow> jsnum \<Rightarrow> time option" where
  "latest_time to_iso (Fin a) (Fin b) = Some (to_iso (max a b))"
| "latest_time to_iso _ _ = None"

definition java_edge :: "id \<Rightarrow> id \<Rightarrow> fact_record \<Rightarrow> fact_record \<Rightarrow> string \<Rightarrow> string \<Rightarrow> time \<Rightarrow> edge_record" where
  "java_edge tid eid source target relation u t = \<lparr>eg_edgeId = ''EDGE-'' @ u, eg_taskId = tid, eg_epochId = eid,
     eg_relation = relation, eg_fromRef = fr_subjectRef source, eg_toRef = fr_subjectRef target,
     eg_sourceRunId = JAVA_RELATION_RESOLVER_VERSION, eg_observedAt = t\<rparr>"

definition java_provenance ::
  "(string \<Rightarrow> jsnum) \<Rightarrow> edge_record \<Rightarrow> fact_record \<Rightarrow> fact_record \<Rightarrow> id option \<Rightarrow> id option \<Rightarrow> relation_provenance" where
  "java_provenance parse edge source target from_version to_version = \<lparr>rv_edgeRef = eg_edgeId edge,
     rv_taskId = eg_taskId edge, rv_epochId = eg_epochId edge, rv_fromVersionRef = nonempty from_version,
     rv_toVersionRef = nonempty to_version, rv_derivation = DERIVED, rv_sourceRefs = [fr_factId source, fr_factId target],
     rv_resolverVersion = JAVA_RELATION_RESOLVER_VERSION, rv_timeErrorMs = stored_error (distance parse source target)\<rparr>"

definition related :: "id \<Rightarrow> id \<Rightarrow> string \<Rightarrow> edge_record \<Rightarrow> bool" where
  "related source target relation e \<longleftrightarrow> eg_fromRef e = source \<and> eg_toRef e = target \<and> eg_relation e = relation"

definition put_relation ::
  "(string \<Rightarrow> jsnum) \<Rightarrow> (rat \<Rightarrow> time) \<Rightarrow> id \<Rightarrow> id \<Rightarrow> fact_record \<Rightarrow> fact_record \<Rightarrow> string \<Rightarrow> ('a db_scheme, edge_record option) act" where
  "put_relation parse to_iso tid eid source target relation =
     bind_act (read_act (listEdges tid eid)) (\<lambda>edges.
     if list_ex (related (fr_subjectRef source) (fr_subjectRef target) relation) edges then return_act None
     else bind_act (read_act (\<lambda>s. (last_version_ref tid eid (fr_subjectRef source) s, last_version_ref tid eid (fr_subjectRef target) s)))
       (\<lambda>(from_version, to_version). bind_act next_uuid (\<lambda>u.
       case latest_time to_iso (parse (fr_observedAt source)) (parse (fr_observedAt target)) of
         None \<Rightarrow> throw_act Plain_error
       | Some t \<Rightarrow> let edge = java_edge tid eid source target relation u t in
           putDerivedEdge edge (java_provenance parse edge source target from_version to_version))))"

definition same_class :: "fact_record \<Rightarrow> fact_record \<Rightarrow> bool" where
  "same_class component cls \<longleftrightarrow> strict_eq (private_field component ''jvmDigest'') (private_field cls ''jvmDigest'')
     \<and> strict_eq (private_field component ''className'') (private_field cls ''className'')
     \<and> strict_eq (private_field component ''classLoaderId'') (private_field cls ''loaderId'')"

type_synonym java_progress = "edge_record list \<times> id list"

definition note_edge :: "java_progress \<Rightarrow> edge_record option \<Rightarrow> java_progress" where
  "note_edge p e = (case e of None \<Rightarrow> p | Some x \<Rightarrow> (fst p @ [x], snd p @ [eg_edgeId x]))"

fun fold_act :: "('b \<Rightarrow> 'a \<Rightarrow> ('s, 'b) act) \<Rightarrow> 'b \<Rightarrow> 'a list \<Rightarrow> ('s, 'b) act" where
  "fold_act f b [] = return_act b"
| "fold_act f b (x # xs) = bind_act (f b x) (\<lambda>b'. fold_act f b' xs)"

definition join_class ::
  "(string \<Rightarrow> jsnum) \<Rightarrow> (rat \<Rightarrow> time) \<Rightarrow> id \<Rightarrow> id \<Rightarrow> fact_record \<Rightarrow> id \<Rightarrow> java_progress \<Rightarrow> fact_record \<Rightarrow> ('a db_scheme, java_progress) act" where
  "join_class parse to_iso tid eid component host p cls =
     (if \<not> same_class component cls then return_act p
      else if \<not> list_ex (related host (fr_subjectRef cls) ''loads_class'') (fst p) then return_act p
      else bind_act (put_relation parse to_iso tid eid component cls ''implemented_by'') (\<lambda>e. return_act (note_edge p e)))"

definition join_component ::
  "(string \<Rightarrow> jsnum) \<Rightarrow> (rat \<Rightarrow> time) \<Rightarrow> id \<Rightarrow> id \<Rightarrow> fact_record list \<Rightarrow> java_progress \<Rightarrow> fact_record \<Rightarrow> ('a db_scheme, java_progress) act" where
  "join_component parse to_iso tid eid classes p component =
     (case List.find (\<lambda>e. eg_relation e = ''hosts_component'' \<and> eg_toRef e = fr_subjectRef component) (fst p) of
        None \<Rightarrow> return_act p
      | Some hosted \<Rightarrow> fold_act (join_class parse to_iso tid eid component (eg_fromRef hosted)) p classes)"

definition file_at :: "string \<Rightarrow> fact_record \<Rightarrow> bool" where
  "file_at path f \<longleftrightarrow> strict_eq (private_field f ''path'') (Str path) \<or> strict_eq (private_field f ''canonicalPath'') (Str path)"

definition join_file ::
  "(string \<Rightarrow> jsnum) \<Rightarrow> (rat \<Rightarrow> time) \<Rightarrow> (string \<Rightarrow> string option) \<Rightarrow> id \<Rightarrow> id \<Rightarrow> fact_record list \<Rightarrow> java_progress \<Rightarrow> fact_record \<Rightarrow>
   ('a db_scheme, java_progress) act" where
  "join_file parse to_iso url_path tid eid files p cls =
     (case nonempty (normalizeCodeSource url_path (private_field cls ''codeSource'')) of None \<Rightarrow> return_act p
      | Some path \<Rightarrow> (case List.find (file_at path) files of None \<Rightarrow> return_act p
          | Some f \<Rightarrow> bind_act (put_relation parse to_iso tid eid cls f ''defined_in'') (\<lambda>e. return_act (note_edge p e))))"

definition resolve_java ::
  "(string \<Rightarrow> jsnum) \<Rightarrow> (rat \<Rightarrow> time) \<Rightarrow> (string \<Rightarrow> string option) \<Rightarrow> id \<Rightarrow> id \<Rightarrow> ('a db_scheme, id list) act" where
  "resolve_java parse to_iso url_path tid eid =
     bind_act (read_act (\<lambda>s. (latestBySubject (all_facts tid eid s), listEdges tid eid s))) (\<lambda>(facts, edges).
     let components = filter (\<lambda>f. fr_namespace f = NS_java_component) facts;
         classes = filter (\<lambda>f. fr_namespace f = NS_class) facts;
         files = filter (\<lambda>f. fr_namespace f = NS_file) facts in
     bind_act (fold_act (join_component parse to_iso tid eid classes) (edges, []) components) (\<lambda>p.
     bind_act (fold_act (join_file parse to_iso url_path tid eid files) p classes) (\<lambda>p'. return_act (snd p'))))"


section \<open>What a derivation stores\<close>

lemma set_put_latest: "set (put_latest f gs) \<subseteq> insert f (set gs)"
  by (induction gs) auto

lemma latestBySubject_from: "set (latestBySubject facts) \<subseteq> set facts"
proof -
  have "set (foldl (\<lambda>latest f. put_latest f latest) acc facts) \<subseteq> set acc \<union> set facts" for acc
  proof (induction facts arbitrary: acc)
    case (Cons f fs)
    from Cons.IH [of "put_latest f acc"] set_put_latest [of f acc] show ?case by auto
  qed simp
  then show ?thesis unfolding latestBySubject_def by (metis sup_bot_left list.set(1))
qed

lemma put_latest_subjects:
  "fr_subjectRef ` set (put_latest f gs) = insert (fr_subjectRef f) (fr_subjectRef ` set gs)"
  "distinct (map fr_subjectRef gs) \<Longrightarrow> distinct (map fr_subjectRef (put_latest f gs))"
proof -
  show subjects: "fr_subjectRef ` set (put_latest f gs) = insert (fr_subjectRef f) (fr_subjectRef ` set gs)" for gs
    by (induction gs) auto
  show "distinct (map fr_subjectRef gs) \<Longrightarrow> distinct (map fr_subjectRef (put_latest f gs))"
    by (induction gs) (auto simp: subjects)
qed

text \<open>The fact kept for a subject is the newest one about it.\<close>

definition newest_of :: "fact_record list \<Rightarrow> fact_record list \<Rightarrow> bool" where
  "newest_of facts latest \<longleftrightarrow> distinct (map fr_subjectRef latest) \<and> set latest \<subseteq> set facts
     \<and> (\<forall>f\<in>set facts. \<exists>g\<in>set latest. fr_subjectRef g = fr_subjectRef f \<and> fr_factSeq f \<le> fr_factSeq g)"

lemma put_latest_covers:
  "g \<in> insert f (set gs) \<Longrightarrow> \<exists>g'\<in>set (put_latest f gs). fr_subjectRef g' = fr_subjectRef g \<and> fr_factSeq g \<le> fr_factSeq g'"
  by (induction gs) force+

lemma put_latest_newest:
  assumes "newest_of facts latest"
  shows "newest_of (facts @ [f]) (put_latest f latest)"
  unfolding newest_of_def
proof (intro conjI ballI)
  show "distinct (map fr_subjectRef (put_latest f latest))"
    using assms by (simp add: newest_of_def put_latest_subjects(2))
  show "set (put_latest f latest) \<subseteq> set (facts @ [f])"
    using assms set_put_latest [of f latest] by (auto simp: newest_of_def)
  fix x assume "x \<in> set (facts @ [f])"
  with assms obtain g where g: "g \<in> insert f (set latest)" "fr_subjectRef g = fr_subjectRef x" "fr_factSeq x \<le> fr_factSeq g"
    by (auto simp: newest_of_def)
  from put_latest_covers [OF g(1)] obtain h where h: "h \<in> set (put_latest f latest)" "fr_subjectRef h = fr_subjectRef g"
    "fr_factSeq g \<le> fr_factSeq h" by blast
  from g h show "\<exists>h\<in>set (put_latest f latest). fr_subjectRef h = fr_subjectRef x \<and> fr_factSeq x \<le> fr_factSeq h"
    by (intro bexI [of _ h]) simp_all
qed

lemma latestBySubject_newest: "newest_of facts (latestBySubject facts)"
proof -
  have "newest_of (facts @ fs) (foldl (\<lambda>latest f. put_latest f latest) latest fs)" if "newest_of facts latest" for facts fs latest
    using that
  proof (induction fs arbitrary: facts latest)
    case (Cons f fs)
    from Cons.IH [OF put_latest_newest [OF Cons.prems]] show ?case by simp
  qed simp
  from this [of "[]" "[]" facts] show ?thesis by (simp add: latestBySubject_def newest_of_def)
qed

lemma putDerivedEdge_result:
  assumes "putDerivedEdge e p s = (Inr x, s')"
  shows "has_key eg_edgeId (eg_edgeId e) (db_edges s')"
    and "db_edges s' = (if has_key eg_edgeId (eg_edgeId e) (db_edges s) then db_edges s else db_edges s @ [e])"
    and "db_provenance s' = (if has_key rv_edgeRef (rv_edgeRef p) (db_provenance s) \<or> rv_timeErrorMs p < 0
      then db_provenance s else db_provenance s @ [p])"
    and "db_facts s' = db_facts s" "db_versions s' = db_versions s"
proof -
  obtain s1 s2 ty pl where e: "ignore_edge e s = (Inr (), s1)" and p: "ignore_provenance p s1 = (Inr (), s2)" and
    log: "log_batch_event (eg_taskId e) (eg_epochId e) (eg_sourceRunId e) ty pl s2 = (Inr (), s')"
    using assms by (auto simp: putDerivedEdge_def assertInvestigationScope_def act_simps)
  from log_batch_event_result [OF log] obtain es n u c where "s' = s2\<lparr>db_events := es, db_event_seq := n, uuid_pos := u, clock_pos := c\<rparr>"
    by blast
  then show "has_key eg_edgeId (eg_edgeId e) (db_edges s')"
    "db_edges s' = (if has_key eg_edgeId (eg_edgeId e) (db_edges s) then db_edges s else db_edges s @ [e])"
    "db_provenance s' = (if has_key rv_edgeRef (rv_edgeRef p) (db_provenance s) \<or> rv_timeErrorMs p < 0
      then db_provenance s else db_provenance s @ [p])"
    "db_facts s' = db_facts s" "db_versions s' = db_versions s"
    using e p by (auto simp: ignore_edge_def ignore_provenance_def act_simps has_key_def split: if_splits)
qed

section \<open>What a resolution says\<close>

text \<open>The result before anything is stored, as a function of the facts.\<close>

definition resolution ::
  "(string \<Rightarrow> string \<Rightarrow> rat) \<Rightarrow> (string \<Rightarrow> jsnum) \<Rightarrow> derived_request \<Rightarrow> authorization_envelope \<Rightarrow> 'a db_scheme \<Rightarrow>
   err + (fact_record \<times> fact_record) + derived_result" where
  "resolution collate parse q envelope s = (let d = DERIVED_RESOLVERS (dq_resolverRef q) in
     case getFact (dq_taskId q) (dq_epochId q) (dq_sourceFactRef q) s of None \<Rightarrow> Inl Plain_error
     | Some source \<Rightarrow> if fr_namespace source \<noteq> rd_sourceNamespace d \<or> \<not> envelope_covers envelope d then Inl Plain_error
         else if unjoinable (private_field source (rd_sourceJoinField d)) then Inr (Inr (unresolved q NO_MATCH_FOUND []))
         else let candidates = join_candidates collate parse d source
                (of_namespace (rd_targetNamespace d) (dq_taskId q) (dq_epochId q) s) in
           if candidates = [] then Inr (Inr (unresolved q NO_MATCH_FOUND []))
           else case filter (hasStableProcessRelationship (dq_resolverRef q) source) candidates of
             [target] \<Rightarrow> Inr (Inl (source, target))
           | _ \<Rightarrow> Inr (Inr (unresolved q AMBIGUOUS (unique (map fr_subjectRef candidates)))))"

lemma resolve_eq:
  "resolve digest collate parse q envelope s = (case resolution collate parse q envelope s of
     Inl e \<Rightarrow> (Inl e, s) | Inr (Inr r) \<Rightarrow> (Inr r, s)
   | Inr (Inl (source, target)) \<Rightarrow> store_derivation digest collate parse q source target s)"
  by (simp add: resolve_def resolution_def Let_def bind_act_def seq_act_def require_def split: option.split list.split)

lemma store_derivation_Inr:
  assumes "store_derivation digest collate parse q source target s = (Inr r, s')"
  obtains p x where "putDerivedEdge (derived_edge digest parse q source target) p s = (Inr x, s')"
    "rv_edgeRef p = derived_edge_id digest q target" "rv_timeErrorMs p = stored_error (distance parse source target)"
    "rv_derivation p = DERIVED" "rv_sourceRefs p = [fr_factId source, fr_factId target]"
    "r = \<lparr>dr_requestId = dq_requestId q, dr_resolverRef = dq_resolverRef q, dr_sourceFactRef = dq_sourceFactRef q,
       dr_status = RESOLVED, dr_objectRefs = [fr_subjectRef target], dr_edgeRefs = [derived_edge_id digest q target]\<rparr>"
  using assms by (auto simp: store_derivation_def Let_def act_simps derived_provenance_def derived_edge_def)


lemma resolution_facts: "db_facts t = db_facts s \<Longrightarrow> resolution collate parse q envelope t = resolution collate parse q envelope s"
proof -
  assume "db_facts t = db_facts s"
  then have "getFact a b c t = getFact a b c s" "of_namespace ns a b t = of_namespace ns a b s" for a b c ns
    by (simp_all add: getFact_def of_namespace_def all_facts_def)
  then show ?thesis unfolding resolution_def by presburger
qed

lemma filter_single: "filter p xs = [x] \<Longrightarrow> x \<in> set xs \<and> p x \<and> (\<forall>y\<in>set xs. p y \<longrightarrow> y = x)"
  by (induction xs) (auto split: if_splits simp: filter_empty_conv)

text \<open>What makes two facts of the store the two ends of a derived relation.\<close>

definition joined :: "derived_request \<Rightarrow> fact_record \<Rightarrow> fact_record \<Rightarrow> bool" where
  "joined q source target \<longleftrightarrow> (let d = DERIVED_RESOLVERS (dq_resolverRef q) in
     strict_eq (private_field target (rd_targetJoinField d)) (private_field source (rd_sourceJoinField d))
   \<and> fr_subjectRef target \<noteq> fr_subjectRef source \<and> hasStableProcessRelationship (dq_resolverRef q) source target)"

lemma resolution_target:
  assumes "resolution collate parse q envelope s = Inr (Inl (source, target))"
  shows "getFact (dq_taskId q) (dq_epochId q) (dq_sourceFactRef q) s = Some source"
    and "envelope_covers envelope (DERIVED_RESOLVERS (dq_resolverRef q))"
    and "\<forall>f. f \<in> set (latestBySubject (of_namespace (rd_targetNamespace (DERIVED_RESOLVERS (dq_resolverRef q)))
        (dq_taskId q) (dq_epochId q) s)) \<and> joined q source f \<longleftrightarrow> f = target"
proof -
  let ?d = "DERIVED_RESOLVERS (dq_resolverRef q)"
  let ?latest = "latestBySubject (of_namespace (rd_targetNamespace ?d) (dq_taskId q) (dq_epochId q) s)"
  from assms have source: "getFact (dq_taskId q) (dq_epochId q) (dq_sourceFactRef q) s = Some source"
    and auth: "envelope_covers envelope ?d"
    and one: "filter (hasStableProcessRelationship (dq_resolverRef q) source) (join_candidates collate parse ?d source
        (of_namespace (rd_targetNamespace ?d) (dq_taskId q) (dq_epochId q) s)) = [target]"
    by (auto simp: resolution_def Let_def split: option.splits if_splits list.splits)
  have "f \<in> set (join_candidates collate parse ?d source (of_namespace (rd_targetNamespace ?d) (dq_taskId q) (dq_epochId q) s))
      \<and> hasStableProcessRelationship (dq_resolverRef q) source f \<longleftrightarrow> f \<in> set ?latest \<and> joined q source f" for f
    by (auto simp: join_candidates_def joined_def Let_def)
  with filter_single [OF one] have "\<forall>f. f \<in> set ?latest \<and> joined q source f \<longleftrightarrow> f = target" by blast
  with source auth show "getFact (dq_taskId q) (dq_epochId q) (dq_sourceFactRef q) s = Some source"
    "envelope_covers envelope ?d" "\<forall>f. f \<in> set ?latest \<and> joined q source f \<longleftrightarrow> f = target" by blast+
qed

lemma store_derivation_twice:
  assumes "store_derivation digest collate parse q source target s = (Inr r, s')"
    and "store_derivation digest collate parse q source target s' = (Inr r', s'')"
  shows "r' = r" "db_edges s'' = db_edges s'" "db_provenance s'' = db_provenance s'"
proof -
  from assms(1) obtain p x where 1: "putDerivedEdge (derived_edge digest parse q source target) p s = (Inr x, s')"
    "rv_edgeRef p = derived_edge_id digest q target" "rv_timeErrorMs p = stored_error (distance parse source target)"
    and r: "dr_edgeRefs r = [derived_edge_id digest q target]" "r = \<lparr>dr_requestId = dq_requestId q, dr_resolverRef = dq_resolverRef q,
      dr_sourceFactRef = dq_sourceFactRef q, dr_status = RESOLVED, dr_objectRefs = [fr_subjectRef target],
      dr_edgeRefs = [derived_edge_id digest q target]\<rparr>" by (rule store_derivation_Inr) simp
  from assms(2) obtain p' x' where 2: "putDerivedEdge (derived_edge digest parse q source target) p' s' = (Inr x', s'')"
    "rv_edgeRef p' = derived_edge_id digest q target" "rv_timeErrorMs p' = stored_error (distance parse source target)"
    and r': "r' = \<lparr>dr_requestId = dq_requestId q, dr_resolverRef = dq_resolverRef q,
      dr_sourceFactRef = dq_sourceFactRef q, dr_status = RESOLVED, dr_objectRefs = [fr_subjectRef target],
      dr_edgeRefs = [derived_edge_id digest q target]\<rparr>" by (rule store_derivation_Inr) simp
  show "r' = r" using r(2) r' by simp
  show "db_edges s'' = db_edges s'" using putDerivedEdge_result(1,2) [OF 1(1)] putDerivedEdge_result(2) [OF 2(1)] by simp
  have "has_key rv_edgeRef (rv_edgeRef p) (db_provenance s') \<or> rv_timeErrorMs p < 0"
    using putDerivedEdge_result(3) [OF 1(1)] by (auto simp: has_key_def)
  then show "db_provenance s'' = db_provenance s'" using putDerivedEdge_result(3) [OF 2(1)] 1(2,3) 2(2,3) by simp
qed

lemma resolve_outcomes:
  assumes "resolve digest collate parse q envelope s = (Inr r, s')"
  obtains (other) "resolution collate parse q envelope s = Inr (Inr r)" "s' = s"
    | (edge) source target where "resolution collate parse q envelope s = Inr (Inl (source, target))"
        "store_derivation digest collate parse q source target s = (Inr r, s')"
  using assms by (auto simp: resolve_eq split: sum.splits prod.splits)

definition exact_answer ::
  "(js \<Rightarrow> string) \<Rightarrow> derived_request \<Rightarrow> authorization_envelope \<Rightarrow> 'a db_scheme \<Rightarrow> derived_result \<Rightarrow> 'a db_scheme \<Rightarrow> bool" where
  "exact_answer digest q envelope s r s' \<longleftrightarrow> (if dr_status r = RESOLVED
    then envelope_covers envelope (DERIVED_RESOLVERS (dq_resolverRef q))
      \<and> (\<exists>source target. getFact (dq_taskId q) (dq_epochId q) (dq_sourceFactRef q) s = Some source
        \<and> (\<forall>f. f \<in> set (latestBySubject (of_namespace (rd_targetNamespace (DERIVED_RESOLVERS (dq_resolverRef q)))
            (dq_taskId q) (dq_epochId q) s)) \<and> joined q source f \<longleftrightarrow> f = target)
        \<and> dr_objectRefs r = [fr_subjectRef target] \<and> dr_edgeRefs r = [derived_edge_id digest q target]
        \<and> has_key eg_edgeId (derived_edge_id digest q target) (db_edges s'))
    else s' = s)"

lemma resolve_exact:
  assumes "resolve digest collate parse q envelope s = (Inr r, s')"
  shows "exact_answer digest q envelope s r s'"
  using assms
proof (cases rule: resolve_outcomes)
  case other
  then have "dr_status r \<noteq> RESOLVED"
    by (auto simp: resolution_def Let_def unresolved_def split: option.splits if_splits list.splits)
  with other show ?thesis by (simp add: exact_answer_def)
next
  case (edge source target)
  from edge(2) obtain p x where
    put: "putDerivedEdge (derived_edge digest parse q source target) p s = (Inr x, s')" and
    r: "dr_status r = RESOLVED" "dr_objectRefs r = [fr_subjectRef target]" "dr_edgeRefs r = [derived_edge_id digest q target]"
    by (rule store_derivation_Inr) simp
  from putDerivedEdge_result(1) [OF put] have "has_key eg_edgeId (derived_edge_id digest q target) (db_edges s')"
    by (simp add: derived_edge_def)
  with r resolution_target [OF edge(1)] show ?thesis by (auto simp: exact_answer_def)
qed

lemma resolve_again:
  assumes "resolve digest collate parse q envelope s = (Inr r, s')"
    and again: "resolve digest collate parse q envelope s' = (Inr r', s'')"
  shows "r' = r \<and> db_edges s'' = db_edges s' \<and> db_provenance s'' = db_provenance s'"
  using assms(1)
proof (cases rule: resolve_outcomes)
  case other
  with again show ?thesis by (simp add: resolve_eq)
next
  case (edge source target)
  from edge(2) obtain p x where
    put: "putDerivedEdge (derived_edge digest parse q source target) p s = (Inr x, s')" by (rule store_derivation_Inr)
  from resolution_facts [OF putDerivedEdge_result(4) [OF put]] edge(1) again
  have "store_derivation digest collate parse q source target s' = (Inr r', s'')" by (simp add: resolve_eq)
  from store_derivation_twice [OF edge(2) this] show ?thesis by blast
qed



text \<open>A socket and its owner, and a process that only has the same PID.\<close>

definition example_fact :: "nat \<Rightarrow> namespace_name \<Rightarrow> (string \<times> js) list \<Rightarrow> fact_record" where
  "example_fact n ns payload = \<lparr>fr_factId = ''FACT-'' @ replicate n CHR ''x'', fr_factSeq = n, fr_taskId = ''T1'',
     fr_epochId = ''E1'', fr_namespace = ns, fr_subjectRef = ''OBJ-'' @ replicate n CHR ''x'', fr_schemaVersion = ''3.0.0'',
     fr_observedAt = ''t'', fr_sourceRunId = ''R1'', fr_source = \<lparr>fs_kind = SK_PRESET, fs_evidenceOrigin = None,
       fs_presetRunId = None, fs_presetId = None, fs_presetVersion = None, fs_stepId = None, fs_externalProvider = None\<rparr>,
     fr_collector = \<lparr>co_name = ''helper'', co_version = ''3''\<rparr>, fr_consistency = POINT_IN_TIME, fr_completeness = COMPLETE,
     fr_gaps = [], fr_privatePayload = payload, fr_modelPayload = [], fr_redactedFields = [], fr_unavailableFields = [],
     fr_payloadDigest = ''d'', fr_provenance = \<lparr>pv_targetFingerprint = ''fp'', pv_requestId = ''q'', pv_wireDigest = ''w'',
       pv_stableIdentityDigest = ''i''\<rparr>\<rparr>"

definition example_process :: "nat \<Rightarrow> string \<Rightarrow> fact_record" where
  "example_process n ticks = example_fact n NS_process [(''pid'', Num (Fin 7)), (''bootId'', Str ''b''),
     (''startTicks'', Str ticks), (''namespaces'', Obj [(''pid'', Str ''ns'')])]"

definition example_object :: "nat \<Rightarrow> namespace_name \<Rightarrow> object_reference" where
  "example_object n ns = \<lparr>or_ref = ''OBJ-'' @ replicate n CHR ''x'', or_taskId = ''T1'', or_epochId = ''E1'',
     or_targetFingerprint = ''fp'', or_namespace = ns, or_stableIdentityDigest = replicate n CHR ''x'', or_stableIdentity = [],
     or_createdAt = ''t''\<rparr>"

definition owner_store :: db where
  "owner_store = empty_db\<lparr>db_epochs := [sample_epoch ''E1''],
     db_objects := [example_object 1 NS_socket, example_object 2 NS_process, example_object 3 NS_process],
     db_facts := [example_fact 1 NS_socket [(''pid'', Num (Fin 7)), (''ownerBootId'', Str ''b''), (''ownerStartTicks'', Str ''10''),
       (''ownerPidNamespace'', Str ''ns'')], example_process 2 ''10'', example_process 3 ''20'']\<rparr>"

definition owner_request :: derived_request where
  "owner_request = \<lparr>dq_requestId = ''Q1'', dq_taskId = ''T1'', dq_epochId = ''E1'', dq_resolverRef = Socket_owner_by_pid,
     dq_sourceFactRef = ''FACT-x''\<rparr>"

definition owner_envelope :: authorization_envelope where
  "owner_envelope = \<lparr>ae_version = ''v'', ae_targetFingerprint = ''fp'', ae_namespaces = [NS_socket, NS_process], ae_scopeRefs = [],
     ae_derivedRelations = [''owned_by''], ae_sensitiveRead = False, ae_collectEvidence = False, ae_probes = [],
     ae_expiresAt = None, ae_budget = \<lparr>wc_remoteCalls = 0, wc_nodes = 0, wc_bytes = 0, wc_wallTimeMs = 0, wc_probeCalls = None\<rparr>\<rparr>"

definition owner_resolved :: "(err + derived_result) \<times> db" where
  "owner_resolved = resolve (\<lambda>_. ''digest'') (\<lambda>_ _. 0) (\<lambda>_. Fin 0) owner_request owner_envelope owner_store"

lemma owner_resolved_status:
  "case fst owner_resolved of Inr r \<Rightarrow> dr_status r = RESOLVED \<and> dr_objectRefs r = [''OBJ-xx''] | Inl _ \<Rightarrow> False"
  by code_simp


end
