(* ===== verification/Executor.thy ===== *)
theory Executor
  imports Cancelling Predicates Records
begin

text \<open>
  \<open>src/investigation/action-executor.ts\<close>: how the queued actions are run. The tools are those the
  constructor is given: a name, the check of the arguments against the schema, and the execution,
  which may do anything to the store. \<open>aborted n\<close> says whether the abort signal is set at the n-th
  look at it. Messages are represented by codes.
\<close>

section \<open>Tools and results\<close>

record 'a security_tool =
  tl_name :: string
  tl_check :: "js \<Rightarrow> bool"
  tl_execute :: "id \<Rightarrow> js \<Rightarrow> ('a db_scheme, js) act"

record execution_summary =
  xs_executed :: nat
  xs_succeeded :: nat
  xs_partial :: nat
  xs_failed :: nat

definition no_execution :: execution_summary where
  "no_execution = \<lparr>xs_executed = 0, xs_succeeded = 0, xs_partial = 0, xs_failed = 0\<rparr>"

definition ACTION_MAX_PAGES :: nat where
  "ACTION_MAX_PAGES = 100"

text \<open>\<open>new Map(tools.map(...))\<close>: the last tool of a name.\<close>

definition tool_named :: "'a security_tool list \<Rightarrow> string \<Rightarrow> 'a security_tool option" where
  "tool_named tools name = List.find (\<lambda>t. tl_name t = name) (rev tools)"

fun err_text :: "err \<Rightarrow> string" where
  "err_text (Security_error c) = ''SECURITY_ERROR''"
| "err_text Plain_error = ''ERROR''"
| "err_text Type_error = ''TYPE_ERROR''"
| "err_text Constraint_error = ''CONSTRAINT_ERROR''"

text \<open>\<open>try { m } catch (error) { h }\<close>: what m did before it failed stays done.\<close>

definition catch_act :: "('s, 'r) act \<Rightarrow> (err \<Rightarrow> ('s, 'r) act) \<Rightarrow> ('s, 'r) act" where
  "catch_act m h = (\<lambda>s. case m s of (Inl e, s') \<Rightarrow> h e s' | (Inr x, s') \<Rightarrow> (Inr x, s'))"

definition collectResultRefs :: "js \<Rightarrow> id list" where
  "collectResultRefs details = unique (concat (map (\<lambda>k. map string_of (filter is_string (items (member details k))))
       [''factRefs'', ''objectRefs'', ''edgeRefs'', ''evidenceRefs''])
     @ (if is_string (member details ''queryRef'') then [string_of (member details ''queryRef'')] else []))"

section \<open>Reusing, limiting, resolving\<close>

definition reusable_run :: "(js \<Rightarrow> string) \<Rightarrow> id \<Rightarrow> investigation_action \<Rightarrow> tool_run \<Rightarrow> bool" where
  "reusable_run digest eid a r \<longleftrightarrow> tr_epochId r = Some eid \<and> tr_status r = TR_SUCCEEDED
     \<and> tr_toolName r = ac_operationRef a \<and> digest (tr_args r) = ac_argsDigest a \<and> tr_result r \<noteq> Undefined"

text \<open>The run found must carry an object with details; a first match without one ends the search.\<close>

definition findReusablePriorResult ::
  "(js \<Rightarrow> string) \<Rightarrow> id \<Rightarrow> id \<Rightarrow> investigation_action \<Rightarrow> 'a db_scheme \<Rightarrow> (js \<times> id) option" where
  "findReusablePriorResult digest tid eid a s =
     (case List.find (reusable_run digest eid a) (listToolRuns tid 100000 s) of None \<Rightarrow> None
      | Some r \<Rightarrow> if has_member (tr_result r) ''details'' then Some (member (tr_result r) ''details'', tr_toolCallId r) else None)"

definition limitDiscoveryCheckpoint :: "id \<Rightarrow> id \<Rightarrow> id option \<Rightarrow> string \<Rightarrow> ('a db_scheme, unit) act" where
  "limitDiscoveryCheckpoint tid eid cursor reason = (case nonempty cursor of None \<Rightarrow> return_act ()
     | Some c \<Rightarrow> bind_act (read_act (\<lambda>s. List.find (\<lambda>k. ck_cursorRef k = Some c) (listDiscoveryCheckpoints tid eid s))) (\<lambda>found.
         case found of None \<Rightarrow> return_act ()
         | Some k \<Rightarrow> bind_act now (\<lambda>t. bind_act (putDiscoveryCheckpoint (k\<lparr>ck_status := CK_LIMITED,
             ck_remainingDescription := Some reason, ck_updatedAt := t\<rparr>)) (\<lambda>_. return_act ()))))"

definition contributors :: "id \<Rightarrow> investigation_action list \<Rightarrow> investigation_action list" where
  "contributors oid actions = filter (\<lambda>a. oid \<in> set (ac_obligationIds a)) actions"

definition resolved_obligation ::
  "investigation_obligation \<Rightarrow> investigation_action list \<Rightarrow> bool \<Rightarrow> id list \<Rightarrow> string option \<Rightarrow> time \<Rightarrow> investigation_obligation" where
  "resolved_obligation ob cs satisfied refs reason t = (let limited = (\<not> satisfied
       \<or> list_ex (\<lambda>a. ac_status a \<in> {AC_PARTIAL, AC_FAILED, AC_BLOCKED, AC_CANCELLED}) cs) in
     ob\<lparr>ob_status := (if limited then OB_LIMITED else OB_SATISFIED),
        ob_resultRefs := unique (ob_resultRefs ob @ concat (map (\<lambda>a. option_or (ac_resultRefs a) []) cs) @ refs),
        ob_gapRefs := unique (ob_gapRefs ob @ List.map_filter (\<lambda>a. nonempty (ac_error a)) cs
          @ (case nonempty reason of None \<Rightarrow> [] | Some r \<Rightarrow> [r])),
        ob_updatedAt := t\<rparr>)"

definition resolve_obligation ::
  "investigation_obligation list \<Rightarrow> investigation_action list \<Rightarrow> bool \<Rightarrow> id list \<Rightarrow> string option \<Rightarrow> id \<Rightarrow> ('a db_scheme, unit) act" where
  "resolve_obligation obligations actions satisfied refs reason oid =
     (case List.find (\<lambda>ob. ob_obligationId ob = oid) (rev obligations) of None \<Rightarrow> return_act ()
      | Some ob \<Rightarrow> if ob_status ob \<noteq> OB_OPEN \<and> ob_status ob \<noteq> OB_QUEUED then return_act ()
          else let cs = contributors oid actions in
            if list_ex (\<lambda>a. action_active (ac_status a)) cs then return_act ()
            else bind_act now (\<lambda>t. updateInvestigationObligation (resolved_obligation ob cs satisfied refs reason t) (ob_status ob)))"

definition resolveObligations ::
  "id \<Rightarrow> id \<Rightarrow> investigation_action \<Rightarrow> bool \<Rightarrow> id list \<Rightarrow> string option \<Rightarrow> ('a db_scheme, unit) act" where
  "resolveObligations tid eid a satisfied refs reason =
     bind_act (read_act (\<lambda>s. (listInvestigationObligations tid eid s, listInvestigationActions tid eid s))) (\<lambda>(obs, actions).
     each_act (resolve_obligation obs actions satisfied refs reason) (ac_obligationIds a))"

section \<open>One action\<close>

record page_progress =
  pg_refs :: "id list"
  pg_partial :: bool
  pg_reason :: "string option"
  pg_cursor :: "id option"

fun decimal :: "nat \<Rightarrow> string" where
  "decimal n = (if n < 10 then [char_of (48 + n)] else decimal (n div 10) @ [char_of (48 + n mod 10)])"

declare decimal.simps [simp del]

definition page_call_id :: "id \<Rightarrow> nat \<Rightarrow> id" where
  "page_call_id attempt page = (if page = 0 then attempt else attempt @ ''-PAGE-'' @ decimal (page + 1))"

text \<open>\<open>{ ...action.args, cursorRef }\<close>: a cursor the arguments already have is replaced where it stands.\<close>

definition with_cursor :: "js \<Rightarrow> id \<Rightarrow> js" where
  "with_cursor args c = (case args of
       Obj kvs \<Rightarrow> Obj (if ''cursorRef'' \<in> fst ` set kvs
         then map (\<lambda>(k, v). (k, if k = ''cursorRef'' then Str c else v)) kvs else kvs @ [(''cursorRef'', Str c)])
     | _ \<Rightarrow> Obj [(''cursorRef'', Str c)])"

definition paged_operation :: "investigation_action \<Rightarrow> bool" where
  "paged_operation a \<longleftrightarrow> ac_operationRef a = ''enumerate'' \<or> ac_operationRef a = ''relate''"

definition note_page :: "bool \<Rightarrow> js \<Rightarrow> page_progress \<Rightarrow> page_progress" where
  "note_page paged details p = p\<lparr>pg_refs := pg_refs p @ collectResultRefs details,
     pg_partial := pg_partial p \<or> isIncompleteRemotePage details,
     pg_cursor := (if paged \<and> is_string (member details ''cursorRef'') then Some (string_of (member details ''cursorRef'')) else None)\<rparr>"

definition cut_short :: "string \<Rightarrow> page_progress \<Rightarrow> page_progress" where
  "cut_short reason p = p\<lparr>pg_partial := True, pg_reason := Some reason\<rparr>"

definition interrupt ::
  "id \<Rightarrow> id \<Rightarrow> string \<Rightarrow> page_progress \<Rightarrow> ('a db_scheme, page_progress \<times> bool) act" where
  "interrupt tid eid reason p = seq_act (limitDiscoveryCheckpoint tid eid (pg_cursor p) reason)
     (return_act (cut_short reason p, False))"

text \<open>
  One page: the inner \<open>try\<close> covers the call, the reading of its result and the limit reached with
  the last page, but not the check of the arguments; an error of a later page ends the paging with
  what was collected, one of the first page is thrown on. The result tells whether to go on.
\<close>

definition run_page ::
  "id \<Rightarrow> id \<Rightarrow> 'a security_tool \<Rightarrow> investigation_action \<Rightarrow> id \<Rightarrow> nat \<Rightarrow> js \<Rightarrow> page_progress \<Rightarrow> ('a db_scheme, page_progress \<times> bool) act" where
  "run_page tid eid tool a attempt page args p =
     seq_act (require (tl_check tool args) Plain_error)
    (bind_act (catch_act
       (bind_act (tl_execute tool (page_call_id attempt page) args) (\<lambda>details.
        seq_act (require (\<not> nullish details) Type_error) (return_act (Inr (note_page (paged_operation a) details p)))))
       (\<lambda>e. return_act (Inl e))) (\<lambda>r. case r of
       Inl e \<Rightarrow> if page = 0 then throw_act e else interrupt tid eid (''ACTION_PAGING_INTERRUPTED:'' @ err_text e) p
     | Inr p' \<Rightarrow> if page = ACTION_MAX_PAGES - 1 \<and> nonempty (pg_cursor p') \<noteq> None
         then catch_act (interrupt tid eid ''ACTION_PAGES_EXHAUSTED'' p')
                (\<lambda>e. interrupt tid eid (''ACTION_PAGING_INTERRUPTED:'' @ err_text e) p')
         else return_act (p', nonempty (pg_cursor p') \<noteq> None)))"

text \<open>The pages that are left, \<open>n\<close> of them.\<close>

fun run_pages ::
  "id \<Rightarrow> id \<Rightarrow> 'a security_tool \<Rightarrow> investigation_action \<Rightarrow> id \<Rightarrow> nat \<Rightarrow> js \<Rightarrow> page_progress \<Rightarrow> ('a db_scheme, page_progress) act" where
  "run_pages tid eid tool a attempt 0 args p = return_act p"
| "run_pages tid eid tool a attempt (Suc n) args p =
     bind_act (run_page tid eid tool a attempt (ACTION_MAX_PAGES - Suc n) args p) (\<lambda>(p', more_pages).
       if more_pages then run_pages tid eid tool a attempt n (with_cursor (ac_args a) (option_or (pg_cursor p') [])) p'
       else return_act p')"

definition no_pages :: page_progress where
  "no_pages = \<lparr>pg_refs = [], pg_partial = False, pg_reason = None, pg_cursor = None\<rparr>"

definition reuse_result ::
  "(js \<Rightarrow> string) \<Rightarrow> id \<Rightarrow> investigation_action \<Rightarrow> js \<times> id \<Rightarrow> ('a db_scheme, page_progress) act" where
  "reuse_result digest tid a prior = seq_act (require (\<not> nullish (fst prior)) Type_error)
    (bind_act (appendAudit (Some tid) ''investigation_action_reused_primitive'' Info
       (Obj [(''actionId'', Str (ac_actionId a)), (''operationRef'', Str (ac_operationRef a)),
             (''argsDigest'', Str (ac_argsDigest a)), (''sourceToolCallIdDigest'', Str (digest (Str (snd prior))))])) (\<lambda>_.
     return_act (no_pages\<lparr>pg_refs := collectResultRefs (fst prior),
       pg_partial := strict_eq (member (fst prior) ''status'') (Str ''partial'')\<rparr>)))"

definition perform ::
  "(js \<Rightarrow> string) \<Rightarrow> id \<Rightarrow> id \<Rightarrow> 'a security_tool \<Rightarrow> investigation_action \<Rightarrow> id \<Rightarrow> ('a db_scheme, bool) act" where
  "perform digest tid eid tool a attempt =
     bind_act (read_act (\<lambda>s. if paged_operation a then None else findReusablePriorResult digest tid eid a s)) (\<lambda>prior.
     bind_act (case prior of Some r \<Rightarrow> reuse_result digest tid a r
       | None \<Rightarrow> run_pages tid eid tool a attempt ACTION_MAX_PAGES (ac_args a) no_pages) (\<lambda>p.
     let refs = unique (pg_refs p);
         reason = (case pg_reason p of Some r \<Rightarrow> Some r | None \<Rightarrow> if pg_partial p then Some ''REMOTE_PARTIAL'' else None) in
     bind_act (finishInvestigationAction (ac_actionId a) (ac_revision a)
         (if pg_partial p then AC_PARTIAL else AC_SUCCEEDED) refs reason) (\<lambda>_.
     seq_act (resolveObligations tid eid a (\<not> pg_partial p) refs reason) (return_act (pg_partial p)))))"

definition fail_action :: "id \<Rightarrow> id \<Rightarrow> investigation_action \<Rightarrow> string \<Rightarrow> ('a db_scheme, unit) act" where
  "fail_action tid eid a error =
     bind_act (finishInvestigationAction (ac_actionId a) (ac_revision a) AC_FAILED [] (Some error)) (\<lambda>_.
     resolveObligations tid eid a False [] (Some error))"

datatype outcome = Succeeded | Partially | Failed

definition run_claimed ::
  "(js \<Rightarrow> string) \<Rightarrow> id \<Rightarrow> id \<Rightarrow> 'a security_tool list \<Rightarrow> investigation_action \<Rightarrow> id \<Rightarrow> ('a db_scheme, outcome) act" where
  "run_claimed digest tid eid tools a attempt = (case tool_named tools (ac_operationRef a) of
       None \<Rightarrow> seq_act (fail_action tid eid a (''UNREGISTERED_OPERATION:'' @ ac_operationRef a)) (return_act Failed)
     | Some tool \<Rightarrow> catch_act
         (bind_act (perform digest tid eid tool a attempt) (\<lambda>partially. return_act (if partially then Partially else Succeeded)))
         (\<lambda>e. seq_act (fail_action tid eid a (err_text e)) (return_act Failed)))"

fun count_outcome :: "outcome \<Rightarrow> execution_summary \<Rightarrow> execution_summary" where
  "count_outcome Succeeded x = x\<lparr>xs_executed := Suc (xs_executed x), xs_succeeded := Suc (xs_succeeded x)\<rparr>"
| "count_outcome Partially x = x\<lparr>xs_executed := Suc (xs_executed x), xs_partial := Suc (xs_partial x)\<rparr>"
| "count_outcome Failed x = x\<lparr>xs_executed := Suc (xs_executed x), xs_failed := Suc (xs_failed x)\<rparr>"

section \<open>The loop\<close>

fun run_actions ::
  "(js \<Rightarrow> string) \<Rightarrow> id \<Rightarrow> id \<Rightarrow> 'a security_tool list \<Rightarrow> string \<Rightarrow> string \<Rightarrow> id set option \<Rightarrow> (nat \<Rightarrow> bool) \<Rightarrow>
   nat \<Rightarrow> execution_summary \<Rightarrow> ('a db_scheme, execution_summary) act" where
  "run_actions digest tid eid tools auth worker eligible aborted 0 x = return_act x"
| "run_actions digest tid eid tools auth worker eligible aborted (Suc n) x =
     seq_act (require (\<not> aborted (xs_executed x)) Plain_error)
    (bind_act (claimNextInvestigationAction tid eid worker auth eligible) (\<lambda>claimed. case claimed of
       None \<Rightarrow> return_act x
     | Some (a, attempt) \<Rightarrow> bind_act (run_claimed digest tid eid tools a (at_attemptId attempt)) (\<lambda>o'.
         run_actions digest tid eid tools auth worker eligible aborted n (count_outcome o' x))))"

text \<open>\<open>dependsOn.map((id) => actions.get(id)).find(...)\<close>: the first dependency that ended badly.\<close>

definition failed_dependency :: "investigation_action list \<Rightarrow> investigation_action \<Rightarrow> investigation_action option" where
  "failed_dependency actions a = List.find (\<lambda>d. ac_status d \<in> {AC_FAILED, AC_BLOCKED, AC_CANCELLED})
     (List.map_filter (\<lambda>i. List.find (\<lambda>b. ac_actionId b = i) (rev actions)) (ac_dependsOn a))"

definition block_dependent ::
  "id \<Rightarrow> id \<Rightarrow> investigation_action list \<Rightarrow> investigation_action \<Rightarrow> ('a db_scheme, unit) act" where
  "block_dependent tid eid actions a = (if ac_status a \<noteq> AC_READY then return_act ()
     else case failed_dependency actions a of None \<Rightarrow> return_act ()
     | Some d \<Rightarrow> let reason = ''DEPENDENCY_ENDED:'' @ ac_actionId d @ '':'' @ action_status_name (ac_status d) in
         bind_act (blockReadyInvestigationAction (ac_actionId a) reason) (\<lambda>_.
         resolveObligations tid eid a False [] (Some reason)))"

definition runUntilIdle ::
  "(js \<Rightarrow> string) \<Rightarrow> id \<Rightarrow> id \<Rightarrow> 'a security_tool list \<Rightarrow> string \<Rightarrow> string \<Rightarrow> id set option \<Rightarrow> (nat \<Rightarrow> bool) \<Rightarrow> nat \<Rightarrow>
   ('a db_scheme, execution_summary) act" where
  "runUntilIdle digest tid eid tools auth worker eligible aborted maxActions =
     bind_act (run_actions digest tid eid tools auth worker eligible aborted maxActions no_execution) (\<lambda>x.
     bind_act (read_act (listInvestigationActions tid eid)) (\<lambda>actions.
     seq_act (each_act (block_dependent tid eid actions) actions) (return_act x)))"


section \<open>What the executor leaves behind\<close>

definition running_ids :: "'a db_scheme \<Rightarrow> id set" where
  "running_ids s = ac_actionId ` {a \<in> set (db_actions s). ac_status a = AC_RUNNING}"

definition quiet :: "id set \<Rightarrow> 'a db_scheme \<Rightarrow> bool" where
  "quiet R s \<longleftrightarrow> machine_inv (tables s) \<and> running_ids s \<subseteq> R"

text \<open>Nothing of the queue can be claimed any more.\<close>

definition idle :: "id \<Rightarrow> id \<Rightarrow> string \<Rightarrow> id set option \<Rightarrow> 'a db_scheme \<Rightarrow> bool" where
  "idle tid eid auth el s \<longleftrightarrow> list_all (\<lambda>c. \<not> claimable (tid, eid) auth s c) (ready_candidates tid eid el s)"

text \<open>
  What is asked of a tool: it may read and write the store, queue actions included, but it keeps the
  rules of the queue and does not start actions by itself.
\<close>

definition leaves_queue_in_order :: "'a security_tool \<Rightarrow> bool" where
  "leaves_queue_in_order tool \<longleftrightarrow> (\<forall>c args R. keeps (quiet R) (tl_execute tool c args))"

lemma quiet_tables: "tables s' = tables s \<Longrightarrow> quiet R s' = quiet R s"
  by (simp add: quiet_def running_ids_def tables_def)

lemma quiet_mono: "quiet R s \<Longrightarrow> R \<subseteq> R' \<Longrightarrow> quiet R' s"
  by (auto simp: quiet_def)

lemma keeps_quiet: "obeys (same tables) m \<Longrightarrow> keeps (quiet R) m"
  by (rule keepsI) (metis quiet_tables obeys_snd)

lemma tables_log_obligation [obeys_intros]: "obeys (same tables) (log_obligation v t)"
  unfolding log_obligation_def by (rule tables_log)

lemma tables_update_obligation [obeys_intros]: "obeys (same tables) (updateInvestigationObligation v e)"
  unfolding updateInvestigationObligation_def
  by (intro obeys_intros) (simp add: same_def tables_def)

lemma tables_resolveObligations [obeys_intros]: "obeys (same tables) (resolveObligations tid eid a b refs reason)"
  unfolding resolveObligations_def resolve_obligation_def Let_def by (intro obeys_intros)

lemma tables_putCheckpoint [obeys_intros]: "obeys (same tables) (putDiscoveryCheckpoint v)"
  unfolding putDiscoveryCheckpoint_def assertInvestigationScope_def Let_def
  by (intro obeys_intros) (simp_all add: same_def tables_def)

lemma tables_limit [obeys_intros]: "obeys (same tables) (limitDiscoveryCheckpoint tid eid c reason)"
  unfolding limitDiscoveryCheckpoint_def by (intro obeys_intros)

lemma tables_audit [obeys_intros]: "obeys (same tables) (appendAudit tid' event level data)"
  by (auto simp: appendAudit_def Let_def same_def tables_def intro!: obeys_intros)

lemma keeps_catch [keeps_intros]: "keeps I m \<Longrightarrow> (\<And>e. keeps I (h e)) \<Longrightarrow> keeps I (catch_act m h)"
  by (fastforce simp: keeps_def catch_act_def split: prod.splits sum.splits)

lemma obeys_catch [obeys_intros]:
  "transp R \<Longrightarrow> obeys R m \<Longrightarrow> (\<And>e. obeys R (h e)) \<Longrightarrow> obeys R (catch_act m h)"
  unfolding obeys_def catch_act_def
  by (auto split: prod.splits sum.splits) (metis snd_conv transpD)+

lemma tables_reuse [obeys_intros]: "obeys (same tables) (reuse_result digest tid a prior)"
  unfolding reuse_result_def by (intro obeys_intros)

lemma tables_interrupt [obeys_intros]: "obeys (same tables) (interrupt tid eid reason p)"
  unfolding interrupt_def by (intro obeys_intros)

lemma catch_act_Inr [act_simps]: "catch_act m h s = (Inr x, s') \<longleftrightarrow>
    m s = (Inr x, s') \<or> (\<exists>e t. m s = (Inl e, t) \<and> h e t = (Inr x, s'))"
  by (auto simp: catch_act_def split: prod.splits sum.splits)


lemma running_put:
  assumes "db_actions s' = put_action a (db_actions s)"
  shows "running_ids s' \<subseteq> (running_ids s - {ac_actionId a}) \<union> (if ac_status a = AC_RUNNING then {ac_actionId a} else {})"
  using assms by (auto simp: running_ids_def put_action_def update_rows_set)

lemma finish_quiet:
  assumes "quiet (insert aid R) s" and "action_terminal st" and "finishInvestigationAction aid n st refs e s = (Inr a, s')"
  shows "quiet R s'"
proof -
  from assms(1) have inv: "machine_inv (tables s)" and run: "running_ids s \<subseteq> insert aid R" by (auto simp: quiet_def)
  from finish_refines [OF inv assms(2,3)] have step: "queue_step (tables s) (tables s')"
    and a: "ac_actionId a = aid" "ac_status a = st" "db_actions s' = put_action a (db_actions s)" by auto
  have "st \<noteq> AC_RUNNING" using assms(2) by auto
  with running_put [OF a(3)] run a show ?thesis
    using queue_step_inv [OF step inv] by (auto simp: quiet_def)
qed

lemma keeps_finish:
  assumes "action_terminal st"
  shows "keeps (quiet (insert aid R)) (finishInvestigationAction aid n st refs e)"
  by (rule keepsI, rule atomic_keeps [OF atomic_queue(2)]) (auto intro: quiet_mono dest: finish_quiet [OF _ assms])

lemma keeps_run_page:
  assumes "leaves_queue_in_order tool"
  shows "keeps (quiet R) (run_page tid eid tool a attempt page args p)"
proof -
  have tool: "keeps (quiet R) (tl_execute tool c as)" for c as
    using assms by (simp add: leaves_queue_in_order_def)
  have "obeys (same tables) (case r of Inl e \<Rightarrow> if page = 0 then throw_act e else interrupt tid eid (f e) p
     | Inr p' \<Rightarrow> if b p' then catch_act (interrupt tid eid m p') (\<lambda>e. interrupt tid eid (f e) p') else return_act (h p'))"
    for r :: "err + page_progress" and f :: "err \<Rightarrow> string" and b m h
    by (cases r) (simp_all add: obeys_intros)
  then show ?thesis unfolding run_page_def by (intro keeps_intros tool keeps_quiet)
qed

lemma keeps_run_pages:
  assumes "leaves_queue_in_order tool"
  shows "keeps (quiet R) (run_pages tid eid tool a attempt n args p)"
  by (induction n arbitrary: args p) (auto intro!: keeps_intros keeps_run_page [OF assms] split: prod.split)

lemma keeps_pages_or_reuse:
  assumes "leaves_queue_in_order tool"
  shows "keeps (quiet R) (case prior of Some r \<Rightarrow> reuse_result digest tid a r
       | None \<Rightarrow> run_pages tid eid tool a attempt n args p)"
  by (cases prior) (auto intro: keeps_run_pages [OF assms] keeps_quiet tables_reuse)

lemma keeps_perform:
  assumes "leaves_queue_in_order tool"
  shows "keeps (quiet (insert (ac_actionId a) R)) (perform digest tid eid tool a attempt)"
proof -
  have "keeps (quiet (insert (ac_actionId a) R)) (finishInvestigationAction (ac_actionId a) n
      (if b then AC_PARTIAL else AC_SUCCEEDED) refs e)" for n b refs e
    by (rule keeps_finish) simp
  note parts = this keeps_pages_or_reuse [OF assms] keeps_quiet [OF tables_resolveObligations]
  show ?thesis unfolding perform_def Let_def by (intro keeps_bind keeps_seq keeps_read keeps_return parts)
qed

lemma perform_quiet:
  assumes "leaves_queue_in_order tool" and "quiet (insert (ac_actionId a) R) s"
    and "perform digest tid eid tool a attempt s = (Inr b, s')"
  shows "quiet R s'"
proof -
  from assms(3) obtain prior p s1 x s2 st refs e where
    p: "(case prior of Some r \<Rightarrow> reuse_result digest tid a r
       | None \<Rightarrow> run_pages tid eid tool a attempt ACTION_MAX_PAGES (ac_args a) no_pages) s = (Inr p, s1)"
    and st: "st = (if pg_partial p then AC_PARTIAL else AC_SUCCEEDED)"
    and fin: "finishInvestigationAction (ac_actionId a) (ac_revision a) st refs e s1 = (Inr x, s2)"
    and res: "resolveObligations tid eid a (\<not> pg_partial p) refs e s2 = (Inr (), s')"
    unfolding perform_def Let_def by (simp only: act_simps read_act_eq return_act_eq) auto
  have "quiet (insert (ac_actionId a) R) s1"
    by (rule keepsD [OF keeps_pages_or_reuse [OF assms(1)] assms(2) p])
  from finish_quiet [OF this _ fin] st have "quiet R s2" by simp
  with quiet_tables [OF obeys_sameD [OF tables_resolveObligations res]] show ?thesis by blast
qed

lemma fail_quiet:
  assumes "quiet (insert (ac_actionId a) R) s" and "fail_action tid eid a error s = (Inr u, s')"
  shows "quiet R s'"
proof -
  from assms(2) obtain x s1 where
    fin: "finishInvestigationAction (ac_actionId a) (ac_revision a) AC_FAILED [] (Some error) s = (Inr x, s1)"
    and res: "resolveObligations tid eid a False [] (Some error) s1 = (Inr (), s')"
    unfolding fail_action_def by (auto simp: act_simps)
  from finish_quiet [OF assms(1) _ fin] have "quiet R s1" by simp
  with quiet_tables [OF obeys_sameD [OF tables_resolveObligations res]] show ?thesis by blast
qed

lemma run_claimed_quiet:
  assumes tools: "list_all leaves_queue_in_order tools" and q: "quiet (insert (ac_actionId a) R) s"
    and run: "run_claimed digest tid eid tools a attempt s = (Inr r, s')"
  shows "quiet R s'"
proof (cases "tool_named tools (ac_operationRef a)")
  case None
  with run fail_quiet [OF q] show ?thesis by (auto simp: run_claimed_def act_simps)
next
  case (Some tool)
  then have tool: "leaves_queue_in_order tool"
    using tools by (auto simp: tool_named_def list_all_iff dest: find_SomeD)
  from run Some consider b where "perform digest tid eid tool a attempt s = (Inr b, s')"
    | e s1 where "perform digest tid eid tool a attempt s = (Inl e, s1)"
        "fail_action tid eid a (err_text e) s1 = (Inr (), s')"
    unfolding run_claimed_def by (auto simp: act_simps)
  then show ?thesis
  proof cases
    case 1
    with perform_quiet [OF tool q] show ?thesis by blast
  next
    case 2
    from keepsD [OF keeps_perform [OF tool] q 2(1)] have "quiet (insert (ac_actionId a) R) s1" .
    with fail_quiet 2(2) show ?thesis by blast
  qed
qed

lemma claim_quiet:
  assumes "quiet R s" and "claimNextInvestigationAction tid eid worker auth el s = (Inr (Some (a, t)), s')"
  shows "quiet (insert (ac_actionId a) R) s'"
proof -
  from assms(1) have inv: "machine_inv (tables s)" and R: "running_ids s \<subseteq> R" by (auto simp: quiet_def)
  from claim_refines [OF inv assms(2)] have step: "queue_step (tables s) (tables s')"
    and rows: "db_actions s' = put_action a (db_actions s)" by auto
  from running_put [OF rows] R queue_step_inv [OF step inv] show ?thesis
    by (auto simp: quiet_def split: if_splits)
qed

lemma claim_idle:
  assumes "quiet R s" and "claimNextInvestigationAction tid eid worker auth el s = (Inr None, s')"
  shows "quiet R s' \<and> idle tid eid auth el s'"
proof -
  have inv: "machine_inv (tables s)" using assms(1) by (simp add: quiet_def)
  from claim_refines [OF inv assms(2)] have "tables s' = tables s"
    and none: "\<forall>c\<in>set (ready_candidates tid eid el s). \<not> claimable (tid, eid) auth s c" by auto
  with assms(1) show ?thesis
    by (auto simp: idle_def list_all_iff tables_def ready_candidates_def listInvestigationActions_def
        claimable_def dependencies_met_def quiet_def running_ids_def)
qed

definition counted :: "execution_summary \<Rightarrow> bool" where
  "counted x \<longleftrightarrow> xs_executed x = xs_succeeded x + xs_partial x + xs_failed x"

lemma run_actions_spec:
  assumes tools: "list_all leaves_queue_in_order tools"
    and "run_actions digest tid eid tools auth worker el aborted n x s = (Inr x', s')"
    and "quiet R s" and "counted x"
  shows "quiet R s' \<and> counted x' \<and> xs_executed x' \<le> xs_executed x + n
    \<and> (xs_executed x' = xs_executed x + n \<or> idle tid eid auth el s')"
  using assms(2-)
proof (induction n arbitrary: x s)
  case 0
  then show ?case by auto
next
  case (Suc n)
  from Suc.prems(1) obtain r s1 where claim: "claimNextInvestigationAction tid eid worker auth el s = (Inr r, s1)"
    and rest: "(case r of None \<Rightarrow> return_act x
     | Some (a, t) \<Rightarrow> bind_act (run_claimed digest tid eid tools a (at_attemptId t)) (\<lambda>o'.
         run_actions digest tid eid tools auth worker el aborted n (count_outcome o' x))) s1 = (Inr x', s')"
    by (auto simp: act_simps)
  show ?case
  proof (cases r)
    case None
    with rest claim claim_idle [OF Suc.prems(2)] Suc.prems(3) show ?thesis by auto
  next
    case (Some p)
    then obtain a t where p: "r = Some (a, t)" by (cases p) auto
    with rest obtain o' s2 where one: "run_claimed digest tid eid tools a (at_attemptId t) s1 = (Inr o', s2)"
      and more: "run_actions digest tid eid tools auth worker el aborted n (count_outcome o' x) s2 = (Inr x', s')"
      by (auto simp: act_simps)
    from run_claimed_quiet [OF tools claim_quiet [OF Suc.prems(2) claim [unfolded p]] one] have "quiet R s2" .
    moreover have "counted (count_outcome o' x)" "xs_executed (count_outcome o' x) = Suc (xs_executed x)"
      using Suc.prems(3) by (cases o'; simp add: counted_def)+
    ultimately show ?thesis using Suc.IH [OF more] by simp
  qed
qed

lemma find_put_blocked:
  assumes "List.find (\<lambda>x. ac_actionId x = d \<and> ac_scope x = scope) (put_action a A) = Some x" and "x \<noteq> a"
  shows "List.find (\<lambda>x. ac_actionId x = d \<and> ac_scope x = scope) A = Some x"
  using assms
proof (induction A)
  case Nil
  then show ?case by (simp add: put_action_def update_rows_def)
next
  case (Cons y A)
  show ?case
  proof (cases "ac_actionId y = ac_actionId a")
    case False
    with Cons show ?thesis by (auto simp: put_action_Cons split: if_splits)
  next
    case True
    have "ac_actionId x = d" using find_SomeD [OF Cons.prems(1)] by simp
    show ?thesis
    proof (cases "d = ac_actionId a")
      case True
      have "x \<in> set (put_action a (y # A))" using find_SomeD [OF Cons.prems(1)] by simp
      with True Cons.prems(2) \<open>ac_actionId x = d\<close> show ?thesis
        by (auto simp: put_action_def update_rows_set split: if_splits)
    next
      case False
      with True Cons show ?thesis by (auto simp: put_action_Cons split: if_splits)
    qed
  qed
qed

lemma idle_block:
  assumes "idle tid eid auth el s" and rows: "db_actions s' = put_action a (db_actions s)" and st: "ac_status a = AC_BLOCKED"
  shows "idle tid eid auth el s'"
proof -
  have met: "dependencies_met scope c s" if "dependencies_met scope c s'" for scope c
    unfolding dependencies_met_def list_all_iff
  proof
    fix d assume "d \<in> set (ac_dependsOn c)"
    with that obtain x where x: "List.find (\<lambda>x. ac_actionId x = d \<and> ac_scope x = scope) (db_actions s') = Some x"
      "ac_status x \<in> {AC_SUCCEEDED, AC_PARTIAL}"
      unfolding dependencies_met_def list_all_iff by (auto split: option.splits)
    then have "x \<noteq> a" using st by auto
    from find_put_blocked [OF x(1) [unfolded rows] this] x(2)
    show "case List.find (\<lambda>x. ac_actionId x = d \<and> ac_scope x = scope) (db_actions s) of
        None \<Rightarrow> False | Some x \<Rightarrow> ac_status x \<in> {AC_SUCCEEDED, AC_PARTIAL}" by simp
  qed
  have "c \<in> set (ready_candidates tid eid el s)" if "c \<in> set (ready_candidates tid eid el s')" for c
    using that st by (auto simp: ready_candidates_def listInvestigationActions_def rows put_action_def update_rows_set
        split: if_splits)
  with assms(1) met show ?thesis unfolding idle_def list_all_iff claimable_def by blast
qed

lemma idle_tables: "tables s' = tables s \<Longrightarrow> idle tid eid auth el s' = idle tid eid auth el s"
  by (simp add: idle_def tables_def ready_candidates_def listInvestigationActions_def claimable_def dependencies_met_def)

lemma block_dependent_spec:
  assumes "quiet R s" and "block_dependent tid eid actions a s = (Inr u, s')"
  shows "quiet R s' \<and> (idle tid' eid' auth el s \<longrightarrow> idle tid' eid' auth el s')"
proof (cases "ac_status a \<noteq> AC_READY \<or> failed_dependency actions a = None")
  case True
  with assms show ?thesis by (auto simp: block_dependent_def split: if_splits)
next
  case False
  with assms(2) obtain x s1 reason where block: "blockReadyInvestigationAction (ac_actionId a) reason s = (Inr x, s1)"
    and res: "resolveObligations tid eid a False [] (Some reason) s1 = (Inr u, s')"
    unfolding block_dependent_def by (auto simp: act_simps Let_def)
  have inv: "machine_inv (tables s)" using assms(1) by (simp add: quiet_def)
  from block_refines [OF inv block] have step: "queue_step (tables s) (tables s1)" and st: "ac_status x = AC_BLOCKED"
    and rows: "db_actions s1 = put_action x (db_actions s)" by auto
  have "quiet R s1" using running_put [OF rows] assms(1) st queue_step_inv [OF step inv] by (auto simp: quiet_def)
  with idle_block [OF _ rows st] obeys_sameD [OF tables_resolveObligations res]
  show ?thesis using quiet_tables idle_tables by metis
qed

lemma block_dependents_spec:
  assumes "each_act (block_dependent tid eid actions) as s = (Inr u, s')" and "quiet R s"
  shows "quiet R s' \<and> (idle tid' eid' auth el s \<longrightarrow> idle tid' eid' auth el s')"
  using assms
proof (induction as arbitrary: s)
  case (Cons a as)
  then obtain s1 where "block_dependent tid eid actions a s = (Inr (), s1)"
    "each_act (block_dependent tid eid actions) as s1 = (Inr u, s')" by (auto simp: act_simps)
  with Cons block_dependent_spec show ?case by metis
qed auto

section \<open>A sample run\<close>

text \<open>
  Three queued actions: one whose tool answers with a reference, one of an operation nobody
  registered, and one that waits for it.
\<close>

definition sample_tool :: "unit security_tool" where
  "sample_tool = \<lparr>tl_name = ''enumerate'', tl_check = (\<lambda>_. True),
     tl_execute = (\<lambda>c args. return_act (Obj [(''factRefs'', Arr [Str ''F1''])]))\<rparr>"

definition sample_backlog :: db where
  "sample_backlog = run_ops queue_exec [Put_action (sample_action ''a'' 1 [] SAFE_REOBSERVE),
     Put_action (sample_action ''b'' 5 [] NEVER\<lparr>ac_operationRef := ''unknown''\<rparr>),
     Put_action (sample_action ''c'' 9 [''b''] NEVER)] queue_start"

abbreviation sample_drain :: "nat \<Rightarrow> (db, execution_summary) act" where
  "sample_drain n \<equiv> runUntilIdle (\<lambda>_. ''d'') ''T1'' ''E1'' [sample_tool] ''v1'' ''w'' None (\<lambda>_. False) n"

lemma sample_tool_ok: "list_all leaves_queue_in_order [sample_tool]"
  by (simp add: leaves_queue_in_order_def sample_tool_def keeps_return)

lemma sample_backlog_inv: "machine_inv (tables sample_backlog)"
  unfolding sample_backlog_def
  by (rule queue.run_keeps [OF _ queue_start_inv]) (simp add: sample_action_def)

lemma sample_drain_returns: "fst (sample_drain 10 sample_backlog) =
    Inr \<lparr>xs_executed = 2, xs_succeeded = 1, xs_partial = 0, xs_failed = 1\<rparr>"
  by code_simp

section \<open>The property\<close>

text \<open>
  C20. A run of the executor that returns leaves no action behind that it started: every action it
  claimed, whatever its tool did (several pages, an error on the first or a later page, an operation
  nobody registered), has left RUNNING, the rules of the queue still hold, every executed action is
  counted once as succeeded, partial or failed, and either the bound on the actions was reached or
  no action is left that could be claimed. The tools may use the store as they like as long as they
  keep the rules of the queue and start no action by themselves.
\<close>

theorem executor_drains_the_queue:
  assumes "machine_inv (tables s)" and tools: "list_all leaves_queue_in_order tools"
    and run: "runUntilIdle digest tid eid tools auth worker el aborted maxActions s = (Inr x, s')"
  shows "machine_inv (tables s') \<and> running_ids s' \<subseteq> running_ids s \<and> counted x
    \<and> xs_executed x \<le> maxActions \<and> (xs_executed x = maxActions \<or> idle tid eid auth el s')"
proof -
  from run obtain s1 where 1: "run_actions digest tid eid tools auth worker el aborted maxActions no_execution s = (Inr x, s1)"
    and 2: "each_act (block_dependent tid eid (listInvestigationActions tid eid s1)) (listInvestigationActions tid eid s1) s1 = (Inr (), s')"
    unfolding runUntilIdle_def by (auto simp: act_simps)
  have "quiet (running_ids s) s" "counted no_execution" "xs_executed no_execution = 0"
    using assms(1) by (simp_all add: quiet_def counted_def no_execution_def)
  with run_actions_spec [OF tools 1 this(1,2)] block_dependents_spec [OF 2] show ?thesis
    by (auto simp: quiet_def)
qed

theorem executor_drains_the_queue_witness:
  "running_ids (snd (sample_drain 10 sample_backlog)) = {}
    \<and> idle ''T1'' ''E1'' ''v1'' None (snd (sample_drain 10 sample_backlog))
    \<and> list_ex (\<lambda>a. ac_status a = AC_BLOCKED) (db_actions (snd (sample_drain 10 sample_backlog)))"
proof -
  have none: "running_ids sample_backlog = {}" by code_simp
  note run = act_result [of "sample_drain 10", OF sample_drain_returns]
  have "list_ex (\<lambda>a. ac_status a = AC_BLOCKED) (db_actions (snd (sample_drain 10 sample_backlog)))" by code_simp
  with executor_drains_the_queue [OF sample_backlog_inv sample_tool_ok run] none show ?thesis by simp
qed

end
