(* ===== verification/JsRegex.thy ===== *)
theory JsRegex
  imports Domain
begin

text \<open>
  The regular expressions the controller tests and rewrites strings with, as data: \<open>/r/.test(s)\<close> asks
  whether some part of s matches r. \<open>rx_ends\<close> computes the positions at which a match that starts at
  a given position can end, the one the matcher takes first; \<open>matches\<close> is the meaning of an
  expression, and the two agree.
\<close>

section \<open>Expressions\<close>

datatype rx =
    Rx_in "char list" | Rx_out "char list"
  | Rx_seq "rx list" | Rx_alt "rx list" | Rx_star rx | Rx_lazy rx | Rx_behind rx
  | Rx_start | Rx_end | Rx_word_edge

definition lit :: "string \<Rightarrow> rx" where
  "lit s = Rx_seq (map (\<lambda>c. Rx_in [c]) s)"

definition rx_opt :: "rx \<Rightarrow> rx" where
  "rx_opt r = Rx_alt [Rx_seq [], r]"

definition rx_plus :: "rx \<Rightarrow> rx" where
  "rx_plus r = Rx_seq [r, Rx_star r]"

text \<open>The classes: . (any but a line terminator), \<open>\s\<close>, \<open>\d\<close>, \<open>\w\<close>.\<close>

definition all_chars :: "char list" where
  "all_chars = map (\<lambda>n. char_of (n :: nat)) [0..<256]"

definition rx_dot :: rx where
  "rx_dot = Rx_out [CHR 10, CHR 13]"

definition rx_space :: rx where
  "rx_space = Rx_in [CHR 9, CHR 10, CHR 11, CHR 12, CHR 13, CHR 32, CHR 160]"

definition digit_chars :: string where
  "digit_chars = ''0123456789''"

definition letter_chars :: string where
  "letter_chars = ''abcdefghijklmnopqrstuvwxyzABCDEFGHIJKLMNOPQRSTUVWXYZ''"

definition word_chars :: string where
  "word_chars = letter_chars @ digit_chars @ ''_''"

definition word_char_at :: "string \<Rightarrow> nat \<Rightarrow> bool" where
  "word_char_at s i \<longleftrightarrow> i < length s \<and> s ! i \<in> set word_chars"

definition word_edge :: "string \<Rightarrow> nat \<Rightarrow> bool" where
  "word_edge s i \<longleftrightarrow> (0 < i \<and> word_char_at s (i - 1)) \<noteq> word_char_at s i"

section \<open>Matching\<close>

text \<open>
  Repetitions that consume something, at most \<open>n\<close> of them: \<open>*\<close> takes as many as it can, \<open>*?\<close> as few.
\<close>

fun star_ends :: "bool \<Rightarrow> (nat \<Rightarrow> nat list) \<Rightarrow> nat \<Rightarrow> nat \<Rightarrow> nat list" where
  "star_ends greedy f 0 i = [i]"
| "star_ends greedy f (Suc n) i = (let rest = concat (map (star_ends greedy f n) (filter (\<lambda>j. i < j) (f i))) in
     if greedy then rest @ [i] else i # rest)"

fun rx_ends :: "rx \<Rightarrow> string \<Rightarrow> nat \<Rightarrow> nat list" and seq_ends :: "rx list \<Rightarrow> string \<Rightarrow> nat \<Rightarrow> nat list"
  and alt_ends :: "rx list \<Rightarrow> string \<Rightarrow> nat \<Rightarrow> nat list" where
  "rx_ends (Rx_in cs) s i = (if i < length s \<and> s ! i \<in> set cs then [Suc i] else [])"
| "rx_ends (Rx_out cs) s i = (if i < length s \<and> s ! i \<notin> set cs then [Suc i] else [])"
| "rx_ends (Rx_seq rs) s i = seq_ends rs s i"
| "rx_ends (Rx_alt rs) s i = alt_ends rs s i"
| "rx_ends (Rx_star r) s i = star_ends True (rx_ends r s) (length s - i) i"
| "rx_ends (Rx_lazy r) s i = star_ends False (rx_ends r s) (length s - i) i"
| "rx_ends (Rx_behind r) s i = (if list_ex (\<lambda>k. i \<in> set (rx_ends r s k)) [0..<Suc i] then [i] else [])"
| "rx_ends Rx_start s i = (if i = 0 then [i] else [])"
| "rx_ends Rx_end s i = (if i = length s then [i] else [])"
| "rx_ends Rx_word_edge s i = (if word_edge s i then [i] else [])"
| "seq_ends [] s i = [i]"
| "seq_ends (r # rs) s i = concat (map (seq_ends rs s) (rx_ends r s i))"
| "alt_ends [] s i = []"
| "alt_ends (r # rs) s i = rx_ends r s i @ alt_ends rs s i"

definition rx_test :: "rx \<Rightarrow> string \<Rightarrow> bool" where
  "rx_test r s \<longleftrightarrow> list_ex (\<lambda>i. rx_ends r s i \<noteq> []) [0..<Suc (length s)]"

text \<open>
  \<open>s.replace(/r/g, by)\<close> from position i on: the leftmost match, as the matcher finds it, and so on
  behind it; an empty match moves one position on. \<open>s\<close> is what is matched, \<open>text\<close> what is copied.
\<close>

function replace_from :: "rx \<Rightarrow> string \<Rightarrow> string \<Rightarrow> string \<Rightarrow> nat \<Rightarrow> string" where
  "replace_from r by s text i = (if length s < i then []
     else case rx_ends r s i of
       [] \<Rightarrow> take 1 (drop i text) @ replace_from r by s text (Suc i)
     | j # _ \<Rightarrow> if i < j then by @ replace_from r by s text j
         else by @ take 1 (drop i text) @ replace_from r by s text (Suc i))"
  by pat_completeness auto
termination by (relation "measure (\<lambda>(r, by, s, text, i). Suc (length s) - i)") auto

declare replace_from.simps [simp del]

definition rx_replace :: "rx \<Rightarrow> string \<Rightarrow> string \<Rightarrow> string" where
  "rx_replace r by s = replace_from r by s s 0"

text \<open>The flag i, for patterns whose letters are ASCII: both sides in lower case.\<close>

definition lower_char :: "char \<Rightarrow> char" where
  "lower_char c = (let n = of_char c :: nat in
     if (65 \<le> n \<and> n \<le> 90) \<or> (192 \<le> n \<and> n \<le> 222 \<and> n \<noteq> 215) then char_of (n + 32) else c)"

definition to_lower :: "string \<Rightarrow> string" where
  "to_lower s = map lower_char s"

definition rx_test_i :: "rx \<Rightarrow> string \<Rightarrow> bool" where
  "rx_test_i r s \<longleftrightarrow> rx_test r (to_lower s)"

definition rx_replace_i :: "rx \<Rightarrow> string \<Rightarrow> string \<Rightarrow> string" where
  "rx_replace_i r by s = replace_from r by (to_lower s) s 0"

section \<open>The meaning of an expression\<close>

text \<open>\<open>matches s r i j\<close>: the part of s from i to j matches r.\<close>

inductive matches :: "string \<Rightarrow> rx \<Rightarrow> nat \<Rightarrow> nat \<Rightarrow> bool" for s where
  one: "i < length s \<Longrightarrow> s ! i \<in> set cs \<Longrightarrow> matches s (Rx_in cs) i (Suc i)"
| other: "i < length s \<Longrightarrow> s ! i \<notin> set cs \<Longrightarrow> matches s (Rx_out cs) i (Suc i)"
| none: "matches s (Rx_seq []) i i"
| both: "matches s r i j \<Longrightarrow> matches s (Rx_seq rs) j k \<Longrightarrow> matches s (Rx_seq (r # rs)) i k"
| alt: "r \<in> set rs \<Longrightarrow> matches s r i j \<Longrightarrow> matches s (Rx_alt rs) i j"
| stop: "matches s (Rx_star r) i i"
| again: "matches s r i j \<Longrightarrow> matches s (Rx_star r) j k \<Longrightarrow> matches s (Rx_star r) i k"
| lazy: "matches s (Rx_star r) i j \<Longrightarrow> matches s (Rx_lazy r) i j"
| behind: "matches s r k i \<Longrightarrow> matches s (Rx_behind r) i i"
| at_start: "matches s Rx_start 0 0"
| at_end: "matches s Rx_end (length s) (length s)"
| at_edge: "word_edge s i \<Longrightarrow> matches s Rx_word_edge i i"

inductive_simps matches_simps [simp]:
  "matches s (Rx_in cs) i k" "matches s (Rx_out cs) i k" "matches s (Rx_seq []) i k"
  "matches s (Rx_seq (r # rs)) i k" "matches s (Rx_alt rs) i k" "matches s Rx_start i k"
  "matches s (Rx_lazy r) i k"
  "matches s (Rx_behind r) i j" "matches s Rx_end i k" "matches s Rx_word_edge i k"

lemma matches_le: "matches s r i j \<Longrightarrow> i \<le> j"
  by (induction rule: matches.induct) auto

lemma matches_bound: "matches s r i j \<Longrightarrow> i \<le> length s \<Longrightarrow> j \<le> length s"
  by (induction rule: matches.induct) auto

lemma star_ends_sound:
  assumes "\<And>i j. i \<le> length s \<Longrightarrow> j \<in> set (f i) \<Longrightarrow> matches s r i j"
  shows "i \<le> length s \<Longrightarrow> j \<in> set (star_ends g f n i) \<Longrightarrow> matches s (Rx_star r) i j"
proof (induction n arbitrary: i)
  case (Suc n)
  then show ?case using assms
    by (fastforce simp: Let_def intro: matches.stop matches.again dest: matches_bound split: if_splits)
qed (simp add: matches.stop)

lemma star_ends_complete:
  assumes "matches s q i j" and "q = Rx_star r" and "\<And>i j. i \<le> length s \<Longrightarrow> matches s r i j \<Longrightarrow> j \<in> set (f i)"
    and "i + n \<ge> length s" and "i \<le> length s"
  shows "j \<in> set (star_ends g f n i)"
  using assms(1,2,4,5)
proof (induction arbitrary: n rule: matches.induct)
  case (stop r i)
  then show ?case by (cases n) (auto simp: Let_def)
next
  case (again r' i j k)
  then have r': "r' = r" by simp
  have j: "j \<in> set (f i)" "i \<le> j" "j \<le> length s"
    using assms(3) again r' matches_le matches_bound by blast+
  show ?case
  proof (cases "i = j")
    case True
    with again show ?thesis by blast
  next
    case False
    with j again.prems obtain m where n: "n = Suc m" by (cases n) auto
    have "k \<in> set (star_ends g f m j)" using again.IH(2) [of m] again.prems n j False by simp
    with n j False show ?thesis by (auto simp: Let_def)
  qed
qed auto


lemma rx_ends_iff:
  shows "i \<le> length s \<Longrightarrow> j \<in> set (rx_ends r s i) \<longleftrightarrow> matches s r i j"
    and "i \<le> length s \<Longrightarrow> j \<in> set (seq_ends rs s i) \<longleftrightarrow> matches s (Rx_seq rs) i j"
    and "i \<le> length s \<Longrightarrow> j \<in> set (alt_ends rs s i) \<longleftrightarrow> (\<exists>r\<in>set rs. matches s r i j)"
proof (induction r s i and rs s i and rs s i arbitrary: j and j and j rule: rx_ends_seq_ends_alt_ends.induct)
  case (5 r s i)
  have f: "x \<le> length s \<Longrightarrow> y \<in> set (rx_ends r s x) \<longleftrightarrow> matches s r x y" for x y using 5 by blast
  show ?case
    using star_ends_sound [of s "rx_ends r s" r i j True "length s - i"] f 5(2)
      star_ends_complete [of s "Rx_star r" i j r "rx_ends r s" "length s - i" True] by auto
next
  case (6 r s i)
  have f: "x \<le> length s \<Longrightarrow> y \<in> set (rx_ends r s x) \<longleftrightarrow> matches s r x y" for x y using 6 by blast
  show ?case
    using star_ends_sound [of s "rx_ends r s" r i j False "length s - i"] f 6(2)
      star_ends_complete [of s "Rx_star r" i j r "rx_ends r s" "length s - i" False] by auto
next
  case (7 r s i)
  have "i \<in> set (rx_ends r s k) \<longleftrightarrow> matches s r k i" if "k \<le> i" for k
  proof -
    from that have "k \<in> set [0..<Suc i]" by (simp add: less_Suc_eq_le del: upt_Suc)
    from 7(1) [OF this le_trans [OF that 7(2)]] show ?thesis .
  qed
  then show ?case using matches_le by (auto simp: list_ex_iff less_Suc_eq_le simp del: upt_Suc)
next
  case (12 r rs s i)
  have in_s: "x \<le> length s" if "x \<in> set (rx_ends r s i)" for x
    using 12 that matches_bound by blast
  have "k \<in> set (seq_ends rs s x) \<longleftrightarrow> matches s (Rx_seq rs) x k" if "x \<in> set (rx_ends r s i)" for x k
    using 12(2) [OF that in_s [OF that]] .
  moreover have "x \<in> set (rx_ends r s i) \<longleftrightarrow> matches s r i x" for x using 12(1,3) by blast
  ultimately show ?case by auto
qed auto

theorem rx_test_iff: "rx_test r s \<longleftrightarrow> (\<exists>i j. i \<le> length s \<and> matches s r i j)"
proof -
  have "rx_ends r s i \<noteq> [] \<longleftrightarrow> (\<exists>j. matches s r i j)" if "i \<le> length s" for i
    using rx_ends_iff(1) [OF that] by (metis ex_in_conv set_empty)
  then show ?thesis unfolding rx_test_def list_ex_iff by (auto simp: less_Suc_eq_le simp del: upt_Suc)
qed

end
