(* ===== verification/Sanitizer.thy ===== *)
theory Sanitizer
  imports JsRegex Normalizer Predicates
begin

text \<open>
  \<open>src/agent/data-sanitizer.ts\<close>: what a tool result looks like when it enters the context of the
  model. Secrets are masked in the values, before they are encoded; a result that is too long loses
  items from its end, never a part of its text. \<open>stringify\<close> is \<open>JSON.stringify\<close>. Assigning the
  property \<open>__proto__\<close> of a plain object makes no own property.
\<close>

section \<open>Secrets\<close>

definition any_of :: "string list \<Rightarrow> rx" where
  "any_of ss = Rx_alt (map lit ss)"

definition secret_words :: rx where
  "secret_words = Rx_alt [any_of [''password'', ''passwd'', ''pwd'', ''secret'', ''token''],
     Rx_seq [lit ''api'', rx_opt (Rx_in ''_-''), lit ''key'']]"

text \<open>The patterns in lower case: they carry the flag i.\<close>

definition SECRET_PATTERNS :: "rx list" where
  "SECRET_PATTERNS =
    [Rx_seq [Rx_behind (Rx_seq [Rx_word_edge, secret_words, Rx_star rx_space, Rx_in '':='', Rx_star rx_space]),
       rx_plus (Rx_out ([CHR 9, CHR 10, CHR 11, CHR 12, CHR 13, CHR 32, CHR 160] @ '',;''))],
     Rx_seq [Rx_behind (Rx_seq [Rx_word_edge, lit ''authorization:'', Rx_star rx_space,
         any_of [''bearer'', ''basic''], rx_plus rx_space]),
       rx_plus (Rx_in (letter_chars @ digit_chars @ ''._~+/=-''))],
     Rx_seq [Rx_behind (Rx_seq [Rx_word_edge, lit ''cookie:'', Rx_star rx_space]),
       rx_plus (Rx_out [CHR 13, CHR 10])],
     Rx_seq [lit ''-----begin '', Rx_star (Rx_out ''-''), lit ''private key-----'', Rx_lazy (Rx_out []),
       lit ''-----end '', Rx_star (Rx_out ''-''), lit ''private key-----'']]"

definition SECRET_HINT :: rx where
  "SECRET_HINT = Rx_alt [secret_words, any_of [''authorization'', ''cookie''],
     Rx_seq [lit ''begin '', Rx_star (Rx_out ''-''), lit ''private key'']]"

definition SECRET_KEY_SUFFIXES :: "string list" where
  "SECRET_KEY_SUFFIXES = [''password'', ''passwd'', ''pwd'', ''secret'', ''token'', ''apikey'', ''authorization'',
     ''cookie'', ''privatekey'']"

definition REDACTED :: string where
  "REDACTED = ''[REDACTED]''"

definition ends_with :: "string \<Rightarrow> string \<Rightarrow> bool" where
  "ends_with s suffix \<longleftrightarrow> length suffix \<le> length s \<and> drop (length s - length suffix) s = suffix"

definition isSecretKey :: "string \<Rightarrow> bool" where
  "isSecretKey key \<longleftrightarrow> (let normalized = filter (\<lambda>c. \<not> (c = CHR ''_'' \<or> c = CHR ''-'' \<or> js_space c)) (to_lower key) in
     list_ex (ends_with normalized) SECRET_KEY_SUFFIXES)"

definition redactText :: "string \<Rightarrow> string" where
  "redactText input = (if \<not> rx_test_i SECRET_HINT input then input
     else foldl (\<lambda>text p. rx_replace_i p REDACTED text) input SECRET_PATTERNS)"

fun redactValue :: "js \<Rightarrow> js" where
  "redactValue (Str s) = Str (redactText s)"
| "redactValue (Arr xs) = Arr (map redactValue xs)"
| "redactValue (Obj kvs) = Obj (map (\<lambda>kv. (fst kv, if isSecretKey (fst kv) then Str REDACTED else redactValue (snd kv)))
     (filter (\<lambda>kv. fst kv \<noteq> ''__proto__'') kvs))"
| "redactValue v = v"

section \<open>Free text\<close>

record sanitized_text =
  st_text :: string
  st_truncated :: bool
  st_originalBytes :: nat
  st_outputBytes :: nat

definition char_bytes :: "char \<Rightarrow> nat" where
  "char_bytes c = (if (of_char c :: nat) < 128 then 1 else 2)"

definition utf8_bytes :: "string \<Rightarrow> nat" where
  "utf8_bytes s = sum_list (map char_bytes s)"

fun decimal_digits :: "nat \<Rightarrow> string" where
  "decimal_digits n = (if n < 10 then [char_of (48 + n)] else decimal_digits (n div 10) @ [char_of (48 + n mod 10)])"

declare decimal_digits.simps [simp del]

text \<open>
  The bytes of the text up to the limit, decoded again: a character that the limit cuts through
  decodes to a replacement character, which needs more bytes than were left and is dropped by the
  loop behind it, so that it is left out here.
\<close>

fun take_bytes :: "nat \<Rightarrow> string \<Rightarrow> string" where
  "take_bytes n [] = []"
| "take_bytes n (c # cs) = (if char_bytes c \<le> n then c # take_bytes (n - char_bytes c) cs else [])"

text \<open>
  \<open>while (byteLength(output + marker) > maxBytes) output = output.slice(0, -1)\<close>: \<open>None\<close> when it does
  not end, because the marker alone is too long.
\<close>

function shrink :: "string \<Rightarrow> nat \<Rightarrow> string \<Rightarrow> string option" where
  "shrink marker maxBytes output = (if utf8_bytes (output @ marker) \<le> maxBytes then Some output
     else if output = [] then None else shrink marker maxBytes (butlast output))"
  by pat_completeness auto
termination by (relation "measure (\<lambda>(_, _, s). length s)") auto

declare shrink.simps [simp del]

definition sanitizeForLlm :: "string \<Rightarrow> nat \<Rightarrow> sanitized_text option" where
  "sanitizeForLlm input maxBytes = (let text = redactText input; originalBytes = utf8_bytes text in
     if originalBytes \<le> maxBytes then Some \<lparr>st_text = text, st_truncated = False,
       st_originalBytes = originalBytes, st_outputBytes = originalBytes\<rparr>
     else let marker = [CHR 10] @ ''[TRUNCATED: original='' @ decimal_digits originalBytes @ '' bytes]'';
              contentBudget = maxBytes - utf8_bytes marker in
       map_option (\<lambda>output. \<lparr>st_text = output @ marker, st_truncated = True,
         st_originalBytes = originalBytes, st_outputBytes = utf8_bytes (output @ marker)\<rparr>)
         (shrink marker maxBytes (take_bytes contentBudget text)))"

section \<open>Results within a budget\<close>

record budgeted_json =
  bj_text :: string
  bj_truncated :: bool
  bj_omitted :: nat
  bj_originalBytes :: nat
  bj_outputBytes :: nat
  bj_overBudget :: bool

text \<open>The binary search for the longest prefix that fits; \<open>best\<close> is the number of items kept so far.\<close>

function longest_fit :: "(nat \<Rightarrow> string) \<Rightarrow> nat \<Rightarrow> int \<Rightarrow> int \<Rightarrow> nat option \<Rightarrow> nat option" where
  "longest_fit encode maxBytes low high best = (if high < low then best
     else let middle = (low + high) div 2 in
       if utf8_bytes (encode (nat middle)) \<le> maxBytes
       then longest_fit encode maxBytes (middle + 1) high (Some (nat middle))
       else longest_fit encode maxBytes low (middle - 1) best)"
  by pat_completeness auto
termination
proof (relation "measure (\<lambda>(_, _, low, high, _). nat (high - low + 1))", goal_cases)
  case (2 encode maxBytes low high best m)
  then have "low \<le> m" "m \<le> high" by presburger+
  then show ?case by simp
next
  case (3 encode maxBytes low high best m)
  then have "low \<le> m" "m \<le> high" by presburger+
  then show ?case by simp
qed simp

declare longest_fit.simps [simp del]

definition encodeWithinBudget :: "(js \<Rightarrow> string) \<Rightarrow> nat \<Rightarrow> (nat \<Rightarrow> js) \<Rightarrow> nat \<Rightarrow> budgeted_json" where
  "encodeWithinBudget stringify n_items rebuild maxBytes = (
     let encode = (\<lambda>keep. stringify (rebuild keep)); full = utf8_bytes (encode n_items) in
     if full \<le> maxBytes then \<lparr>bj_text = encode n_items, bj_truncated = False, bj_omitted = 0,
       bj_originalBytes = full, bj_outputBytes = full, bj_overBudget = False\<rparr>
     else case longest_fit encode maxBytes 0 (int n_items - 1) None of
       None \<Rightarrow> \<lparr>bj_text = encode 0, bj_truncated = True, bj_omitted = n_items, bj_originalBytes = full,
         bj_outputBytes = utf8_bytes (encode 0), bj_overBudget = True\<rparr>
     | Some keep \<Rightarrow> \<lparr>bj_text = encode keep, bj_truncated = True, bj_omitted = n_items - keep, bj_originalBytes = full,
         bj_outputBytes = utf8_bytes (encode keep), bj_overBudget = False\<rparr>)"

definition hasDroppableItems :: "js \<Rightarrow> bool" where
  "hasDroppableItems v \<longleftrightarrow> has_member v ''items'' \<and> is_array (member v ''items'')
     \<and> has_member v ''status'' \<and> has_member v ''warnings''"

text \<open>The warning names the two numbers.\<close>

definition omissionWarning :: "nat \<Rightarrow> nat \<Rightarrow> string" where
  "omissionWarning omitted n_items = ''OMITTED:'' @ decimal_digits omitted @ '':'' @ decimal_digits n_items"

definition js_nat :: "nat \<Rightarrow> js" where
  "js_nat n = Num (Fin (of_nat n))"

definition adjustPaginationSummary :: "js \<Rightarrow> nat \<Rightarrow> js" where
  "adjustPaginationSummary summary keep = (case summary of
     Obj kvs \<Rightarrow> (case member summary ''offset'' of
         Num (Fin offset) \<Rightarrow>
           if \<not> is_integral offset \<or> \<not> is_number (member summary ''returned'') then summary
           else let nextOffset = offset + of_nat keep in
             Obj (merge_props kvs ([(''returned'', js_nat keep), (''nextOffset'', Num (Fin nextOffset))]
               @ (case member summary ''total'' of
                    Num (Fin tot) \<Rightarrow> [(''remaining'', Num (Fin (max 0 (tot - nextOffset))))]
                  | Num n \<Rightarrow> [(''remaining'', Num (if n = NegInf then Fin 0 else n))]
                  | _ \<Rightarrow> [])))
       | _ \<Rightarrow> summary)
   | _ \<Rightarrow> summary)"

definition props :: "js \<Rightarrow> (string \<times> js) list" where
  "props v = (case v of Obj kvs \<Rightarrow> kvs | _ \<Rightarrow> [])"

text \<open>The fixed small envelope of a result that does not fit without any item.\<close>

definition small_envelope :: "(string \<times> js) list \<Rightarrow> nat \<Rightarrow> js" where
  "small_envelope omitted n_items = Obj ([(''status'', Str ''partial''),
     (''summary'', Obj [(''note'', Str ''SUMMARY_OMITTED'')]), (''items'', Arr [])]
     @ omitted @ [(''artifactRefs'', Arr []), (''warnings'', Arr [Str (omissionWarning n_items n_items)])])"

definition keep_items :: "js \<Rightarrow> nat \<Rightarrow> js" where
  "keep_items masked keep = (let n_items = length (items (member masked ''items'')) in
     if keep = n_items then masked
     else Obj (merge_props (props masked) ([(''status'', Str ''partial'')]
       @ (if has_member masked ''summary'' then [(''summary'', adjustPaginationSummary (member masked ''summary'') keep)] else [])
       @ [(''items'', Arr (take keep (items (member masked ''items'')))), (''itemsOmitted'', js_nat (n_items - keep)),
          (''warnings'', Arr (items (member masked ''warnings'') @ [Str (omissionWarning (n_items - keep) n_items)]))])))"

definition serializeToolResultForLlm :: "(js \<Rightarrow> string) \<Rightarrow> js \<Rightarrow> nat \<Rightarrow> budgeted_json" where
  "serializeToolResultForLlm stringify details maxBytes = (let masked = redactValue details in
     if \<not> hasDroppableItems masked then
       let encoded = encodeWithinBudget stringify 0 (\<lambda>_. masked) maxBytes in
       if \<not> bj_overBudget encoded then encoded
       else encodeWithinBudget stringify 0 (\<lambda>_. small_envelope [] 0) maxBytes
     else
       let n_items = length (items (member masked ''items''));
           encoded = encodeWithinBudget stringify n_items (keep_items masked) maxBytes in
       if \<not> bj_overBudget encoded then encoded
       else encodeWithinBudget stringify 0 (\<lambda>_. small_envelope [(''itemsOmitted'', js_nat n_items)] n_items) maxBytes)"


section \<open>What reaches the model\<close>

text \<open>
  A value without secrets: nothing but the mask stands under a secret key, and every string has been
  masked or is one of the texts the serializer writes itself.
\<close>

definition own_text :: "string \<Rightarrow> bool" where
  "own_text s \<longleftrightarrow> s = ''partial'' \<or> s = ''SUMMARY_OMITTED'' \<or> (\<exists>a b. s = omissionWarning a b)"

fun clean_value :: "js \<Rightarrow> bool" where
  "clean_value (Str s) = ((\<exists>t. s = redactText t) \<or> own_text s)"
| "clean_value (Arr xs) = (\<forall>x\<in>set xs. clean_value x)"
| "clean_value (Obj kvs) = (\<forall>kv\<in>set kvs. if isSecretKey (fst kv) then snd kv = Str REDACTED else clean_value (snd kv))"
| "clean_value v = True"

lemma redactValue_clean: "clean_value (redactValue v)"
  by (induction v rule: redactValue.induct) auto

lemma clean_merge: "clean_value (Obj a) \<Longrightarrow> clean_value (Obj b) \<Longrightarrow> clean_value (Obj (merge_props a b))"
  by (auto simp: merge_props_def split: option.splits dest: map_of_SomeD) (force dest: map_of_SomeD)+

lemma clean_list:
  "clean_value (Obj [])" "clean_value (Obj (xs @ ys)) \<longleftrightarrow> clean_value (Obj xs) \<and> clean_value (Obj ys)"
  "clean_value (Obj (kv # kvs)) \<longleftrightarrow>
     (if isSecretKey (fst kv) then snd kv = Str REDACTED else clean_value (snd kv)) \<and> clean_value (Obj kvs)"
  by auto

lemma map_of_map_keyed: "map_of (map (\<lambda>(k, v). (k, f k v)) a) k = map_option (f k) (map_of a k)"
  by (induction a) auto

lemma map_of_filter_keys: "map_of (filter (\<lambda>(k, _). k \<notin> A) b) k = (if k \<in> A then None else map_of b k)"
  by (induction b) auto

lemma map_of_merge: "map_of (merge_props a b) k = (case map_of b k of Some w \<Rightarrow> Some w | None \<Rightarrow> map_of a k)"
proof (cases "map_of a k")
  case None
  then have "k \<notin> fst ` set a" by (simp add: map_of_eq_None_iff)
  with None show ?thesis
    by (simp add: merge_props_def map_of_append map_add_def map_of_map_keyed map_of_filter_keys split: option.split)
next
  case (Some v)
  then have "k \<in> fst ` set a" by (metis map_of_eq_None_iff option.distinct(1))
  with Some show ?thesis
    by (simp add: merge_props_def map_of_append map_add_def map_of_map_keyed map_of_filter_keys split: option.split)
qed

lemma get_merge: "get_prop (merge_props a b) k = (case map_of b k of Some w \<Rightarrow> w | None \<Rightarrow> get_prop a k)"
  by (simp add: get_prop_def map_of_merge split: option.split)

lemma longest_fit_fits:
  assumes "longest_fit encode maxBytes low high best = Some k" and "best = Some k \<Longrightarrow> P k"
    and "\<And>m. low \<le> int m \<Longrightarrow> int m \<le> high \<Longrightarrow> utf8_bytes (encode m) \<le> maxBytes \<Longrightarrow> P m" and "0 \<le> low"
  shows "P k"
  using assms
proof (induction encode maxBytes low high best rule: longest_fit.induct)
  case (1 encode maxBytes low high best)
  define m where "m = (low + high) div 2"
  show ?case
  proof (cases "high < low")
    case True
    with 1 show ?thesis by (subst (asm) longest_fit.simps) simp
  next
    case False
    then have m: "low \<le> m" "m \<le> high" unfolding m_def by presburger+
    show ?thesis
    proof (cases "utf8_bytes (encode (nat m)) \<le> maxBytes")
      case True
      have "longest_fit encode maxBytes (m + 1) high (Some (nat m)) = Some k"
        using 1(3) False True by (subst (asm) longest_fit.simps) (simp add: m_def Let_def)
      moreover have "P (nat m)" using 1(5) [of "nat m"] m 1(6) True by simp
      ultimately show ?thesis using 1(1) [OF False m_def True] m 1(5,6) by auto
    next
      case fits: False
      have "longest_fit encode maxBytes low (m - 1) best = Some k"
        using 1(3) False fits by (subst (asm) longest_fit.simps) (simp add: m_def Let_def)
      from 1(2) [OF False m_def fits this 1(4)] show ?thesis using m 1(5,6) by auto
    qed
  qed
qed

lemma encodeWithinBudget_spec:
  assumes "b = encodeWithinBudget stringify n rebuild maxBytes"
  shows "bj_text b = stringify (rebuild (n - bj_omitted b)) \<and> bj_omitted b \<le> n
    \<and> bj_outputBytes b = utf8_bytes (bj_text b)
    \<and> (bj_overBudget b \<and> bj_omitted b = n \<or> \<not> bj_overBudget b \<and> bj_outputBytes b \<le> maxBytes)
    \<and> (bj_truncated b \<or> bj_omitted b = 0)"
proof (cases "utf8_bytes (stringify (rebuild n)) \<le> maxBytes")
  case True
  with assms show ?thesis by (simp add: encodeWithinBudget_def Let_def)
next
  case False
  show ?thesis
  proof (cases "longest_fit (\<lambda>keep. stringify (rebuild keep)) maxBytes 0 (int n - 1) None")
    case None
    with False assms show ?thesis by (simp add: encodeWithinBudget_def Let_def)
  next
    case (Some k)
    have "utf8_bytes (stringify (rebuild k)) \<le> maxBytes \<and> k \<le> n"
      by (rule longest_fit_fits [OF Some]) auto
    with Some False assms show ?thesis by (simp add: encodeWithinBudget_def Let_def)
  qed
qed


lemma clean_own [simp]: "clean_value (Str ''partial'')" "clean_value (Str ''SUMMARY_OMITTED'')"
  "clean_value (Str (omissionWarning a b))"
  by (auto simp: own_text_def)

lemma not_secret [simp]: "\<not> isSecretKey ''status''" "\<not> isSecretKey ''summary''" "\<not> isSecretKey ''note''"
  "\<not> isSecretKey ''items''" "\<not> isSecretKey ''itemsOmitted''" "\<not> isSecretKey ''artifactRefs''" "\<not> isSecretKey ''warnings''"
  "\<not> isSecretKey ''returned''" "\<not> isSecretKey ''nextOffset''" "\<not> isSecretKey ''remaining''"
  by code_simp+

lemma clean_envelope: "clean_value (Obj omitted) \<Longrightarrow> clean_value (small_envelope omitted n)"
  by (auto simp: small_envelope_def simp del: clean_value.simps(1))

lemma clean_member: "clean_value v \<Longrightarrow> \<not> isSecretKey k \<Longrightarrow> clean_value (member v k)"
  by (cases v) (auto simp: get_prop_def split: option.splits dest!: map_of_SomeD)

lemma clean_items: "clean_value v \<Longrightarrow> x \<in> set (items v) \<Longrightarrow> clean_value x"
  by (cases v) auto

lemma clean_adjust: "clean_value v \<Longrightarrow> clean_value (adjustPaginationSummary v k)"
  unfolding adjustPaginationSummary_def
  by (auto split: js.splits jsnum.splits simp: Let_def js_nat_def simp del: clean_value.simps(3)
      intro!: clean_merge) (simp_all split: if_splits)

lemma clean_keep:
  assumes "clean_value v"
  shows "clean_value (keep_items v k)"
proof -
  have "clean_value (Obj (props v))" using assms by (cases v) (simp_all add: props_def)
  moreover have "clean_value (Arr (take n (items (member v ''items''))))" for n
    using clean_items [OF clean_member [OF assms, of "''items''"]] by (auto dest: in_set_takeD)
  moreover have "clean_value (Arr (items (member v ''warnings'') @ [Str (omissionWarning a b)]))" for a b
    using clean_items [OF clean_member [OF assms, of "''warnings''"]] by (auto simp del: clean_value.simps(1))
  moreover have "clean_value (adjustPaginationSummary (member v ''summary'') n)" for n
    using clean_adjust [OF clean_member [OF assms, of "''summary''"]] by simp
  ultimately show ?thesis using assms unfolding keep_items_def Let_def js_nat_def
    by (simp add: clean_merge clean_list del: clean_value.simps(1,2,3))
qed

text \<open>The envelope that stands for a result that does not fit without its items.\<close>

definition fallback :: "js \<Rightarrow> js" where
  "fallback details = (let v = redactValue details; n = length (items (member v ''items'')) in
     if hasDroppableItems v then small_envelope [(''itemsOmitted'', js_nat n)] n else small_envelope [] 0)"

text \<open>The items shown are the first ones of the result, and what is missing is counted.\<close>

definition shows_prefix :: "js \<Rightarrow> js \<Rightarrow> bool" where
  "shows_prefix details v \<longleftrightarrow> (let all = items (member (redactValue details) ''items'') in
     \<exists>k\<le>length all. items (member v ''items'') = take k all
       \<and> (k < length all \<and> hasDroppableItems (redactValue details) \<longrightarrow>
            member v ''itemsOmitted'' = js_nat (length all - k) \<and> member v ''status'' = Str ''partial''))"

lemma shows_keep:
  assumes "hasDroppableItems (redactValue details)" and "k \<le> length (items (member (redactValue details) ''items''))"
  shows "shows_prefix details (keep_items (redactValue details) k)"
proof -
  from assms(1) obtain kvs where "redactValue details = Obj kvs"
    by (cases "redactValue details") (auto simp: hasDroppableItems_def has_member_def)
  with assms show ?thesis unfolding shows_prefix_def Let_def
    by (intro exI [of _ k]) (auto simp: keep_items_def props_def get_merge Let_def)
qed

lemma shows_fallback: "shows_prefix details (fallback details)"
  unfolding shows_prefix_def Let_def
  by (intro exI [of _ 0]) (auto simp: fallback_def small_envelope_def get_prop_def Let_def)

lemma clean_fallback: "clean_value (fallback details)"
  unfolding fallback_def Let_def by (auto intro!: clean_envelope simp: js_nat_def)


section \<open>Free text always comes back\<close>

lemma utf8_bytes_append [simp]: "utf8_bytes (s @ t) = utf8_bytes s + utf8_bytes t"
  by (simp add: utf8_bytes_def)

lemma digits_ascii: "utf8_bytes (decimal_digits n) = length (decimal_digits n)"
proof (induction n rule: decimal_digits.induct)
  case (1 n)
  have "char_bytes (char_of (48 + d)) = 1" if "d < 10" for d :: nat
    using that by (simp add: char_bytes_def)
  with 1 show ?case by (subst (1 2) decimal_digits.simps) (simp add: utf8_bytes_def)
qed

lemma digits_length: "n < 10 ^ Suc k \<Longrightarrow> length (decimal_digits n) \<le> Suc k"
proof (induction k arbitrary: n)
  case 0
  then show ?case by (subst decimal_digits.simps) simp
next
  case (Suc k)
  then have "n div 10 < 10 ^ Suc k" by (simp add: div_less_iff_less_mult)
  with Suc.IH show ?case by (subst decimal_digits.simps) simp
qed

lemma shrink_returns:
  assumes "utf8_bytes marker \<le> maxBytes"
  shows "\<exists>r. shrink marker maxBytes out = Some r \<and> utf8_bytes (r @ marker) \<le> maxBytes"
  using assms
proof (induction marker maxBytes out rule: shrink.induct)
  case (1 marker maxBytes out)
  show ?case
  proof (cases "utf8_bytes (out @ marker) \<le> maxBytes")
    case True
    then show ?thesis by (subst shrink.simps) auto
  next
    case False
    with 1 have "out \<noteq> []" by (auto simp: utf8_bytes_def)
    with 1 False show ?thesis by (subst shrink.simps) auto
  qed
qed

text \<open>
  C17. Masking and cutting a free text always comes back, with at most the configured number of bytes;
  it is marked truncated exactly when the masked text is longer, and is the masked text otherwise.
\<close>

theorem sanitized_text_returns:
  assumes "1024 \<le> maxBytes" and "utf8_bytes (redactText input) < 2 ^ 53"
  shows "\<exists>r. sanitizeForLlm input maxBytes = Some r \<and> utf8_bytes (st_text r) \<le> maxBytes
    \<and> (st_truncated r \<longleftrightarrow> maxBytes < st_originalBytes r) \<and> (\<not> st_truncated r \<longrightarrow> st_text r = redactText input)"
proof (cases "utf8_bytes (redactText input) \<le> maxBytes")
  case True
  then show ?thesis by (simp add: sanitizeForLlm_def Let_def)
next
  case False
  let ?n = "utf8_bytes (redactText input)"
  define m where "m = [CHR 10] @ ''[TRUNCATED: original='' @ decimal_digits ?n @ '' bytes]''"
  have "?n < 10 ^ Suc 16" using assms(2) by simp
  from digits_length [OF this] have "utf8_bytes m \<le> maxBytes"
    using assms(1) digits_ascii [of ?n] unfolding m_def utf8_bytes_append by (simp add: utf8_bytes_def char_bytes_def)
  from shrink_returns [OF this] obtain r where
    "shrink m maxBytes (take_bytes (maxBytes - utf8_bytes m) (redactText input)) = Some r" "utf8_bytes (r @ m) \<le> maxBytes"
    by blast
  with False show ?thesis unfolding sanitizeForLlm_def Let_def m_def [symmetric] by simp
qed

section \<open>Samples\<close>

text \<open>A writer for the values of the samples.\<close>

fun plain_text :: "js \<Rightarrow> string" where
  "plain_text (Str s) = s @ '' ''"
| "plain_text (Arr xs) = ''['' @ concat (map plain_text xs) @ '']''"
| "plain_text (Obj kvs) = ''{'' @ concat (map (\<lambda>kv. fst kv @ '':'' @ plain_text (snd kv)) kvs) @ ''}''"
| "plain_text _ = ''0''"

definition sample_details :: js where
  "sample_details = Obj [(''status'', Str ''success''), (''items'', Arr (replicate 5 (Obj [(''dbPassword'', Str ''hunter2'')]))),
     (''warnings'', Arr [Str ''token=abc''])]"

definition sample_text :: budgeted_json where
  "sample_text = serializeToolResultForLlm plain_text sample_details 200"


theorem sanitized_text_returns_witness:
  "\<exists>r. sanitizeForLlm ''token=abc x'' 1024 = Some r \<and> utf8_bytes (st_text r) \<le> 1024 \<and> \<not> st_truncated r
    \<and> st_text r = ''token=[REDACTED] x''"
proof -
  have masked: "redactText ''token=abc x'' = ''token=[REDACTED] x''" by code_simp
  then have "utf8_bytes (redactText ''token=abc x'') < 2 ^ 53" by (simp add: utf8_bytes_def char_bytes_def)
  from sanitized_text_returns [OF order_refl this] obtain r where
    r: "sanitizeForLlm ''token=abc x'' 1024 = Some r" "utf8_bytes (st_text r) \<le> 1024"
    "st_truncated r \<longleftrightarrow> 1024 < st_originalBytes r" "\<not> st_truncated r \<longrightarrow> st_text r = redactText ''token=abc x''" by blast
  have "st_originalBytes r = 18"
    using r(1) masked by (auto simp: sanitizeForLlm_def Let_def utf8_bytes_def char_bytes_def)
  with r masked show ?thesis by simp
qed

end
