(* ===== verification/Gates.thy ===== *)
theory Gates
  imports Executor Resolver FactQuery Capability JsRegex Budget Approvals
begin

text \<open>
  \<open>src/tools/v2/tools.ts\<close>: the gates of the forensic tools. Every remote operation first builds its
  request from the arguments of the model; what is refused there never reaches the target. The
  arguments are read as the schema of the tool has checked them. Messages are left out.
\<close>

section \<open>What a tool is given\<close>

text \<open>
  \<open>digestObject\<close>, \<open>Date.parse\<close> and \<open>JSON.stringify\<close>, the clock at the start of the call, and the
  fields of \<open>V2ToolDependencies\<close> the tools read.
\<close>

record tool_env =
  te_digest :: "js \<Rightarrow> string"
  te_parse :: "string \<Rightarrow> jsnum"
  te_stringify :: "js \<Rightarrow> string"
  te_nowMs :: rat

record tool_deps = tool_env +
  td_task :: task_context
  td_epochId :: id
  td_caps :: effective_capabilities
  td_owner :: budget_owner
  td_factSource :: "fact_source option"
  td_maxTextBytes :: nat
  td_allowedTools :: "string list"
  td_quarantineRoot :: string

abbreviation dep_task :: "tool_deps \<Rightarrow> id" where
  "dep_task d \<equiv> tc_taskId (td_task d)"

abbreviation dep_host :: "tool_deps \<Rightarrow> string" where
  "dep_host d \<equiv> tg_hostFingerprint (tc_target (td_task d))"

text \<open>A gate reads the store and passes or throws; it changes nothing.\<close>

definition gate :: "('s \<Rightarrow> err + 'r) \<Rightarrow> ('s, 'r) act" where
  "gate f = (\<lambda>s. (f s, s))"

definition arg_string :: "js \<Rightarrow> string \<Rightarrow> string" where
  "arg_string params k = string_of (member params k)"

definition arg_strings :: "js \<Rightarrow> string \<Rightarrow> string list" where
  "arg_strings params k = map string_of (items (member params k))"

definition namespace_named :: "string \<Rightarrow> namespace_name option" where
  "namespace_named l = List.find (\<lambda>ns. namespace_label ns = l) all_namespaces"

section \<open>Objects\<close>

record object_binding =
  bn_namespace :: namespace_name
  bn_identity :: js_row
  bn_locator :: js_row

definition binding_props :: "object_binding \<Rightarrow> js_row" where
  "binding_props b = [(''namespace'', Str (namespace_label (bn_namespace b))),
     (''identity'', Obj (bn_identity b)), (''locator'', Obj (bn_locator b))]"

definition latestPrivateFact :: "tool_deps \<Rightarrow> id \<Rightarrow> 'a fact_db_scheme \<Rightarrow> err + js_row" where
  "latestPrivateFact d ref s =
     (let facts = filter (\<lambda>f. fr_subjectRef f = ref) (all_facts (dep_task d) (td_epochId d) s) in
      if facts = [] then Inl Invalid_argument else Inr (foldl merge_props [] (map fr_privatePayload facts)))"

definition string_entry :: "js_row \<Rightarrow> string \<Rightarrow> js_row" where
  "string_entry latest k = (if is_string (get_prop latest k) then [(k, get_prop latest k)] else [])"

definition locator_of :: "namespace_name \<Rightarrow> js_row \<Rightarrow> js_row" where
  "locator_of ns latest = string_entry latest ''path''
     @ (if ns = NS_process then string_entry latest ''exeInode'' @ string_entry latest ''exeSha256'' else [])"

definition resolveObject ::
  "tool_deps \<Rightarrow> id \<Rightarrow> namespace_name option \<Rightarrow> 'a fact_db_scheme \<Rightarrow> err + object_binding" where
  "resolveObject d ref ns s = (case getObjectReference (dep_task d) (td_epochId d) ref ns s of
       None \<Rightarrow> Inl Invalid_argument
     | Some v \<Rightarrow> case latestPrivateFact d ref s of Inl e \<Rightarrow> Inl e
         | Inr latest \<Rightarrow> Inr \<lparr>bn_namespace = or_namespace v, bn_identity = or_stableIdentity v,
             bn_locator = locator_of (or_namespace v) latest\<rparr>)"

section \<open>Capabilities and grants\<close>

definition assertEffectiveField :: "tool_deps \<Rightarrow> namespace_name \<Rightarrow> string \<Rightarrow> err + unit" where
  "assertEffectiveField d ns field = (case map_of (ef_namespaces (td_caps d)) ns of
       Some en \<Rightarrow> if field \<in> set (en_fields en) then Inr () else Inl (Security_error UNSUPPORTED_ENVIRONMENT)
     | None \<Rightarrow> Inl (Security_error UNSUPPORTED_ENVIRONMENT))"

definition assertCategoryGrant :: "tool_deps \<Rightarrow> namespace_name \<Rightarrow> 'a control_db_scheme \<Rightarrow> err + unit" where
  "assertCategoryGrant d ns s = (if categoryGrantAllowsNamespace (te_parse d) (te_nowMs d) (listTaskGrants (dep_task d) s) ns
     then Inr () else Inl (Security_error PERMISSION_DENIED))"

definition assertEffectiveVerb :: "tool_deps \<Rightarrow> namespace_name \<Rightarrow> string \<Rightarrow> 'a control_db_scheme \<Rightarrow> err + unit" where
  "assertEffectiveVerb d ns verb s = (case assertCategoryGrant d ns s of Inl e \<Rightarrow> Inl e
     | Inr _ \<Rightarrow> if verb \<in> set (ef_verbs (td_caps d))
           \<and> (case map_of (ef_namespaces (td_caps d)) ns of Some en \<Rightarrow> verb \<in> set (en_verbs en) | None \<Rightarrow> False)
         then Inr () else Inl (Security_error UNSUPPORTED_ENVIRONMENT))"

definition host_grant :: "tool_deps \<Rightarrow> grant_kind \<Rightarrow> task_grant \<Rightarrow> bool" where
  "host_grant d kind g \<longleftrightarrow> gr_kind g = kind \<and> gr_targetFingerprint g = dep_host d
     \<and> grant_active (te_parse d) (te_nowMs d) g"

definition resolveGrant :: "tool_deps \<Rightarrow> id \<Rightarrow> grant_kind \<Rightarrow> 'a control_db_scheme \<Rightarrow> err + task_grant" where
  "resolveGrant d gid kind s = (case List.find (\<lambda>g. gr_grantId g = gid \<and> host_grant d kind g)
         (listTaskGrants (dep_task d) s) of
       None \<Rightarrow> Inl (Security_error PERMISSION_DENIED) | Some g \<Rightarrow> Inr g)"

definition requireSensitiveGrant :: "tool_deps \<Rightarrow> id \<Rightarrow> 'a control_db_scheme \<Rightarrow> err + unit" where
  "requireSensitiveGrant d ref s = (if list_ex (\<lambda>g. host_grant d GK_SENSITIVE_READ g
         \<and> strict_eq (get_prop (gr_binding g) ''subjectRef'') (Str ref)) (listTaskGrants (dep_task d) s)
     then Inr () else Inl (Security_error PERMISSION_DENIED))"

definition requireProbeGrant :: "tool_deps \<Rightarrow> string \<Rightarrow> 'a control_db_scheme \<Rightarrow> err + unit" where
  "requireProbeGrant d kind s = (if list_ex (\<lambda>g. host_grant d GK_PROBE g
         \<and> strict_eq (get_prop (gr_binding g) ''probeKind'') (Str kind)) (listTaskGrants (dep_task d) s)
     then Inr () else Inl (Security_error PERMISSION_DENIED))"

definition assertObservedJavaProbeTarget ::
  "tool_deps \<Rightarrow> string \<Rightarrow> string option \<Rightarrow> 'a fact_db_scheme \<Rightarrow> err + unit" where
  "assertObservedJavaProbeTarget d className loader s =
     (let observed = observedJavaClassLoaderIds (all_facts (dep_task d) (td_epochId d) s) className in
      if observed = [] then Inl Invalid_argument
      else case loader of Some l \<Rightarrow> if l \<notin> set observed then Inl Invalid_argument else Inr ()
        | None \<Rightarrow> if 1 < length observed then Inl Invalid_argument else Inr ())"

section \<open>Usage and gaps\<close>

definition recordBudgetGap :: "tool_deps \<Rightarrow> string \<Rightarrow> ('a fact_db_scheme, unit) act" where
  "recordBudgetGap d reason = bind_act next_uuid (\<lambda>u. bind_act now (\<lambda>t.
     putInvestigationGap \<lparr>ig_gapId = ''IGAP-'' @ u, ig_taskId = dep_task d, ig_epochId = td_epochId d,
       ig_category = None, ig_code = BUDGET_DENIED, ig_reasonCode = reason, ig_createdAt = t\<rparr>))"

definition consumeUsageOrGap :: "tool_deps \<Rightarrow> string \<Rightarrow> rat \<Rightarrow> ('a fact_db_scheme, unit) act" where
  "consumeUsageOrGap d kind amount = catch_act (consumeUsage (dep_task d, td_epochId d, kind) amount)
     (\<lambda>e. seq_act (recordBudgetGap d kind) (throw_act e))"

section \<open>Content classes\<close>

datatype content_class = SAFE_TEXT | SENSITIVE_TEXT | DENIED_TEXT

fun class_name :: "content_class \<Rightarrow> string" where
  "class_name SAFE_TEXT = ''SAFE_TEXT''"
| "class_name SENSITIVE_TEXT = ''SENSITIVE_TEXT''"
| "class_name DENIED_TEXT = ''DENIED_TEXT''"

fun class_rank :: "content_class \<Rightarrow> nat" where
  "class_rank SAFE_TEXT = 0"
| "class_rank SENSITIVE_TEXT = 1"
| "class_rank DENIED_TEXT = 2"

definition helper_class :: "js \<Rightarrow> content_class" where
  "helper_class v = (if strict_eq v (Str ''SAFE_TEXT'') then SAFE_TEXT
     else if strict_eq v (Str ''DENIED_TEXT'') then DENIED_TEXT else SENSITIVE_TEXT)"

definition process_memory :: rx where
  "process_memory = Rx_seq [Rx_start, lit ''/proc/'', rx_plus (Rx_in digit_chars), lit ''/'',
     Rx_alt [lit ''mem'', lit ''pagemap''], Rx_end]"

text \<open>The second expression carries the flag i.\<close>

definition secret_file :: rx where
  "secret_file = Rx_seq [lit ''/'', Rx_alt [lit ''id_rsa'', lit ''id_ed25519'', lit ''credentials'',
       Rx_seq [lit ''secret'', rx_opt (lit ''s'')]],
     rx_opt (Rx_seq [lit ''.'', Rx_star (Rx_out ''/'')]), Rx_end]"

definition secret_directory :: rx where
  "secret_directory = Rx_seq [lit ''/'', Rx_alt [lit ''.aws'', lit ''.gnupg'', lit ''.kube''], lit ''/'']"

definition denied_path :: "string \<Rightarrow> bool" where
  "denied_path p \<longleftrightarrow> p = ''/etc/shadow'' \<or> p = ''/etc/gshadow'' \<or> p = ''/proc/kcore''
     \<or> rx_test process_memory p \<or> rx_test_i secret_file p \<or> rx_test secret_directory p"

definition safe_paths :: "string list" where
  "safe_paths = [''/etc/os-release'', ''/usr/lib/os-release'', ''/proc/version'', ''/proc/uptime'', ''/etc/hostname'']"

definition controller_class :: "string \<Rightarrow> content_class" where
  "controller_class p = (if denied_path p then DENIED_TEXT else if p \<in> set safe_paths then SAFE_TEXT else SENSITIVE_TEXT)"

definition effectiveContentClass :: "js \<Rightarrow> js \<Rightarrow> content_class" where
  "effectiveContentClass pathValue helperValue =
     (let helper = helper_class helperValue;
          controller = controller_class (if is_string pathValue then string_of pathValue else []) in
      if class_rank controller \<le> class_rank helper then helper else controller)"

text \<open>The class of the text behind a reference, and the gate every text passes.\<close>

definition content_class_of :: "js_row \<Rightarrow> content_class" where
  "content_class_of latest = effectiveContentClass (get_prop latest ''path'') (get_prop latest ''contentClass'')"

definition content_gate :: "tool_deps \<Rightarrow> id \<Rightarrow> 'a fact_db_scheme \<Rightarrow> err + unit" where
  "content_gate d ref s = (case latestPrivateFact d ref s of Inl e \<Rightarrow> Inl e
     | Inr latest \<Rightarrow> (case content_class_of latest of DENIED_TEXT \<Rightarrow> Inl (Security_error PERMISSION_DENIED)
         | SAFE_TEXT \<Rightarrow> Inr () | SENSITIVE_TEXT \<Rightarrow> requireSensitiveGrant d ref s))"

section \<open>The requests\<close>

text \<open>The parameters for the target, and the digest a cursor of the answer is bound to.\<close>

record built_params =
  bp_row :: js_row
  bp_digest :: "string option"

definition built :: "js_row \<Rightarrow> ('s, built_params) act" where
  "built row = return_act \<lparr>bp_row = row, bp_digest = None\<rparr>"

definition helper_cursor ::
  "tool_deps \<Rightarrow> namespace_name \<Rightarrow> string \<Rightarrow> js \<Rightarrow> 'a fact_db_scheme \<Rightarrow> err + js_row" where
  "helper_cursor d ns request_digest cursorRef s = (if \<not> truthy cursorRef then Inr []
     else case getRemoteCursor (dep_task d) (td_epochId d) (string_of cursorRef) s of
       Some c \<Rightarrow> if rm_namespace c = ns \<and> rm_requestDigest c = request_digest
         then Inr (if rm_helperCursor c = [] then [] else [(''cursor'', Str (rm_helperCursor c))]) else Inl Invalid_argument
     | None \<Rightarrow> Inl Invalid_argument)"

definition field_gate :: "tool_deps \<Rightarrow> namespace_name \<Rightarrow> field_capability \<Rightarrow> string \<Rightarrow> ('s, unit) act" where
  "field_gate d ns capability field = bind_act (lift_result (assertManifestField ns field capability)) (\<lambda>_.
     lift_result (assertEffectiveField d ns field))"

definition sort_gate :: "namespace_name \<Rightarrow> js \<Rightarrow> ('s, unit) act" where
  "sort_gate ns v = bind_act (lift_result (assertManifestField ns (arg_string v ''field'') Cap_sortable)) (\<lambda>_. return_act ())"

definition enumerate_fields :: "namespace_name \<Rightarrow> js \<Rightarrow> string list" where
  "enumerate_fields ns params = (if nullish (member params ''fields'') then identityFields ns else arg_strings params ''fields'')"

definition enumerate_canonical :: "namespace_name \<Rightarrow> js \<Rightarrow> js" where
  "enumerate_canonical ns params = Obj [(''namespace'', Str (namespace_label ns)), (''scopeRef'', member params ''scopeRef''),
     (''predicate'', member params ''predicate''), (''fields'', Arr (map Str (enumerate_fields ns params))),
     (''sort'', member params ''sort''), (''limit'', member params ''limit''), (''sinceHours'', member params ''sinceHours'')]"

text \<open>The gates an enumeration passes before its cursor and its scope are looked up.\<close>

definition enumerate_gate :: "tool_deps \<Rightarrow> namespace_name \<Rightarrow> js \<Rightarrow> ('a fact_db_scheme, unit) act" where
  "enumerate_gate d ns params = seq_act (require (ns \<noteq> NS_task_ioc) Invalid_argument)
    (seq_act (gate (assertCategoryGrant d ns))
    (seq_act (require (ns = NS_file \<longrightarrow> truthy (member params ''scopeRef'')) Invalid_argument)
    (seq_act (gate (assertEffectiveVerb d ns ''enumerate''))
    (seq_act (each_act (field_gate d ns Cap_enumerable) (enumerate_fields ns params))
    (seq_act (lift_result (validatePredicate ns (member params ''predicate'') None))
       (each_act (sort_gate ns) (items (member params ''sort''))))))))"

definition scope_row :: "tool_deps \<Rightarrow> js \<Rightarrow> 'a control_db_scheme \<Rightarrow> err + js_row" where
  "scope_row d scopeRef s = (if \<not> truthy scopeRef then Inr []
     else case resolveGrant d (string_of scopeRef) GK_SCOPE s of Inl e \<Rightarrow> Inl e
       | Inr g \<Rightarrow> Inr [(''scope'', Obj (gr_binding g))])"

definition build_enumerate :: "tool_deps \<Rightarrow> js \<Rightarrow> ('a fact_db_scheme, built_params) act" where
  "build_enumerate d params = (case namespace_named (arg_string params ''namespace'') of None \<Rightarrow> throw_act Invalid_argument
     | Some ns \<Rightarrow> seq_act (enumerate_gate d ns params)
        (let dg = te_digest d (enumerate_canonical ns params) in
         bind_act (gate (helper_cursor d ns dg (member params ''cursorRef''))) (\<lambda>cursor.
         bind_act (gate (scope_row d (member params ''scopeRef''))) (\<lambda>scope.
         return_act \<lparr>bp_row = [(''namespace'', Str (namespace_label ns))] @ scope
             @ [(''predicate'', member params ''predicate''), (''fields'', Arr (map Str (enumerate_fields ns params))),
                (''sort'', member params ''sort''), (''limit'', member params ''limit'')] @ cursor
             @ (if truthy (member params ''sinceHours'') then [(''sinceHours'', member params ''sinceHours'')] else []),
           bp_digest = Some dg\<rparr>))))"

text \<open>An object, in the given namespace or any, that the verb may be used on.\<close>

definition object_gate ::
  "tool_deps \<Rightarrow> string \<Rightarrow> namespace_name option \<Rightarrow> id \<Rightarrow> ('a fact_db_scheme, object_binding) act" where
  "object_gate d verb ns ref = bind_act (gate (resolveObject d ref ns)) (\<lambda>b.
     seq_act (gate (assertEffectiveVerb d (bn_namespace b) verb)) (return_act b))"

definition build_project :: "tool_deps \<Rightarrow> js \<Rightarrow> ('a fact_db_scheme, built_params) act" where
  "build_project d params = bind_act (object_gate d ''project'' None (arg_string params ''ref'')) (\<lambda>b.
     seq_act (each_act (field_gate d (bn_namespace b) Cap_projectable) (arg_strings params ''fields''))
       (built (binding_props b @ [(''fields'', member params ''fields'')])))"

definition build_read :: "tool_deps \<Rightarrow> js \<Rightarrow> ('a fact_db_scheme, built_params) act" where
  "build_read d params = bind_act (object_gate d ''read'' (Some NS_file) (arg_string params ''ref'')) (\<lambda>b.
     seq_act (gate (content_gate d (arg_string params ''ref'')))
    (seq_act (consumeUsageOrGap d ''MODEL_CONTENT_BYTES'' (fin_of (member params ''length'')))
       (built (binding_props b @ [(''offset'', member params ''offset''), (''length'', member params ''length''),
          (''encoding'', member params ''encoding''), (''purpose'', member params ''purpose'')]))))"

definition MATCH_CONTEXT_MAX_BYTES :: rat where
  "MATCH_CONTEXT_MAX_BYTES = 2560"

definition match_object :: "tool_deps \<Rightarrow> bool \<Rightarrow> id \<Rightarrow> ('a fact_db_scheme, object_binding) act" where
  "match_object d ctx ref = bind_act (object_gate d ''match'' (Some NS_file) ref) (\<lambda>b.
     seq_act (if ctx then gate (content_gate d ref) else return_act ()) (return_act b))"

definition build_match :: "tool_deps \<Rightarrow> js \<Rightarrow> ('a fact_db_scheme, built_params) act" where
  "build_match d params = (let refs = arg_strings params ''refs''; ctx = truthy (member params ''includeContext'') in
     seq_act (require (arg_string (member params ''matcher'') ''engine'' \<in> set (ef_matchers (td_caps d)))
       (Security_error UNSUPPORTED_ENVIRONMENT))
    (bind_act (map_act (match_object d ctx) refs) (\<lambda>objects.
     seq_act (if ctx then consumeUsageOrGap d ''MODEL_CONTENT_BYTES'' (of_nat (length refs) * MATCH_CONTEXT_MAX_BYTES)
       else return_act ())
       (built [(''objects'', Arr (map (Obj \<circ> binding_props) objects)), (''matcher'', member params ''matcher''),
          (''maxHits'', member params ''maxHits''), (''includeContext'', member params ''includeContext'')]))))"

definition relation_gate :: "tool_deps \<Rightarrow> object_binding \<Rightarrow> string \<Rightarrow> ('s, unit) act" where
  "relation_gate d b relation = seq_act (require (relation \<in> set (namespace_relations (bn_namespace b))) Invalid_argument)
     (require (case map_of (ef_namespaces (td_caps d)) (bn_namespace b) of Some en \<Rightarrow> relation \<in> set (en_relations en) | None \<Rightarrow> False)
        (Security_error UNSUPPORTED_ENVIRONMENT))"

definition build_relate :: "tool_deps \<Rightarrow> js \<Rightarrow> ('a fact_db_scheme, built_params) act" where
  "build_relate d params = bind_act (object_gate d ''relate'' None (arg_string params ''ref'')) (\<lambda>b.
     seq_act (relation_gate d b (arg_string params ''relation''))
    (let dg = te_digest d (Obj [(''ref'', member params ''ref''), (''relation'', member params ''relation''),
             (''parameters'', member params ''parameters''), (''limit'', member params ''limit'')]) in
     bind_act (gate (helper_cursor d (bn_namespace b) dg (member params ''cursorRef''))) (\<lambda>cursor.
     return_act \<lparr>bp_row = binding_props b @ [(''relation'', member params ''relation''),
         (''parameters'', member params ''parameters''), (''limit'', member params ''limit'')] @ cursor,
       bp_digest = Some dg\<rparr>)))"

definition data_set_gate :: "tool_deps \<Rightarrow> js \<Rightarrow> ('a control_db_scheme, unit) act" where
  "data_set_gate d params = (if arg_string params ''baseline'' = ''package_db''
     then require (\<not> truthy (member params ''dataSetRef'')) Invalid_argument
     else seq_act (require (truthy (member params ''dataSetRef'')) Invalid_argument)
       (bind_act (read_act (getKnownHashDataSet (arg_string params ''dataSetRef''))) (\<lambda>found.
        require (found \<noteq> None) (Security_error UNSUPPORTED_ENVIRONMENT))))"

definition build_verify :: "tool_deps \<Rightarrow> js \<Rightarrow> ('a fact_db_scheme, built_params) act" where
  "build_verify d params = bind_act (object_gate d ''verify'' (Some NS_file) (arg_string params ''ref'')) (\<lambda>b.
     seq_act (data_set_gate d params)
       (built (binding_props b @ [(''baseline'', member params ''baseline'')]
          @ (if arg_string params ''baseline'' = ''package_db'' then [] else [(''dataSetRef'', member params ''dataSetRef'')]))))"

definition collect_object :: "tool_deps \<Rightarrow> id \<Rightarrow> ('a fact_db_scheme, object_binding) act" where
  "collect_object d ref = bind_act (gate (resolveObject d ref None)) (\<lambda>b.
     seq_act (require (bn_namespace b = NS_file \<or> bn_namespace b = NS_process) (Security_error UNSUPPORTED_ENVIRONMENT))
    (seq_act (gate (assertEffectiveVerb d (bn_namespace b) ''collect'')) (return_act b)))"

definition build_collect :: "tool_deps \<Rightarrow> js \<Rightarrow> ('a fact_db_scheme, built_params) act" where
  "build_collect d params = bind_act (collect_object d (arg_string params ''ref'')) (\<lambda>b.
     seq_act (consumeUsageOrGap d ''EVIDENCE_BYTES'' (fin_of (member params ''maxBytes'')))
       (built (binding_props b @ [(''maxBytes'', member params ''maxBytes''), (''purpose'', member params ''purpose'')])))"

definition class_probe :: "string \<Rightarrow> bool" where
  "class_probe kind \<longleftrightarrow> kind = ''jvm.class.inspect'' \<or> kind = ''jvm.class.dump''"

fun own_keys :: "js \<Rightarrow> string list" where
  "own_keys (Obj kvs) = map fst kvs"
| "own_keys _ = []"

definition loader_arg :: "js \<Rightarrow> string option" where
  "loader_arg v = (if v = Undefined then None else Some (string_of v))"

definition probe_gate :: "tool_deps \<Rightarrow> string \<Rightarrow> js \<Rightarrow> ('a fact_db_scheme, unit) act" where
  "probe_gate d kind parameters =
     seq_act (require (kind \<in> set (ef_probes (td_caps d))) (Security_error UNSUPPORTED_ENVIRONMENT))
    (seq_act (gate (assertEffectiveVerb d NS_jvm ''probe''))
    (seq_act (require (\<not> (kind = ''jvm.tomcat.inventory'' \<and> own_keys parameters \<noteq> [])) Invalid_argument)
    (seq_act (require (\<not> (class_probe kind \<and> \<not> truthy (member parameters ''className''))) Invalid_argument)
    (seq_act (if class_probe kind then gate (assertObservedJavaProbeTarget d (arg_string parameters ''className'')
         (loader_arg (member parameters ''classLoaderId''))) else return_act ())
       (gate (requireProbeGrant d kind))))))"

definition build_probe :: "tool_deps \<Rightarrow> js \<Rightarrow> ('a fact_db_scheme, built_params) act" where
  "build_probe d params = seq_act (probe_gate d (arg_string params ''probeKind'') (member params ''parameters''))
    (bind_act (gate (resolveObject d (arg_string params ''ref'') (Some NS_jvm))) (\<lambda>b.
     built (binding_props b @ [(''probeKind'', member params ''probeKind''), (''parameters'', member params ''parameters'')])))"

datatype forensic_verb = V_enumerate | V_project | V_read | V_match | V_relate | V_verify | V_collect | V_probe

fun verb_name :: "forensic_verb \<Rightarrow> string" where
  "verb_name V_enumerate = ''enumerate''"
| "verb_name V_project = ''project''"
| "verb_name V_read = ''read''"
| "verb_name V_match = ''match''"
| "verb_name V_relate = ''relate''"
| "verb_name V_verify = ''verify''"
| "verb_name V_collect = ''collect''"
| "verb_name V_probe = ''probe''"

fun build_request :: "forensic_verb \<Rightarrow> tool_deps \<Rightarrow> js \<Rightarrow> ('a fact_db_scheme, built_params) act" where
  "build_request V_enumerate = build_enumerate"
| "build_request V_project = build_project"
| "build_request V_read = build_read"
| "build_request V_match = build_match"
| "build_request V_relate = build_relate"
| "build_request V_verify = build_verify"
| "build_request V_collect = build_collect"
| "build_request V_probe = build_probe"


section \<open>When a request is sent\<close>

text \<open>\<open>admits m s\<close>: the gates and calls of m all pass.\<close>

definition admits :: "('s, 'r) act \<Rightarrow> 's \<Rightarrow> bool" where
  "admits m s \<longleftrightarrow> (\<exists>x s'. m s = (Inr x, s'))"

lemma admits_iff_fst: "admits m s \<longleftrightarrow> (\<exists>x. fst (m s) = Inr x)"
  by (cases "m s") (auto simp: admits_def)

lemma admits_require_seq [simp]: "admits (seq_act (require b e) m) s \<longleftrightarrow> b \<and> admits m s"
  by (cases b) (auto simp: admits_def seq_act_def bind_act_def)

lemma admits_gate_bind [simp]: "admits (bind_act (gate f) m) s \<longleftrightarrow> (\<exists>x. f s = Inr x \<and> admits (m x) s)"
  by (auto simp: admits_def bind_act_def gate_def split: sum.splits)

lemma admits_gate_seq [simp]: "admits (seq_act (gate f) m) s \<longleftrightarrow> (\<exists>x. f s = Inr x) \<and> admits m s"
  by (auto simp: seq_act_def)

lemma admits_return [simp]: "admits (return_act x) s"
  by (simp add: admits_def)

lemma admits_built [simp]: "admits (built row) s"
  by (simp add: built_def)

lemma seq_return_unit [simp]: "seq_act (return_act ()) m = m"
  by (rule ext) (simp add: seq_act_def bind_act_def)

lemma bind_bind_gate [simp]: "bind_act (bind_act (gate f) k) m = bind_act (gate f) (\<lambda>x. bind_act (k x) m)"
  by (rule ext) (simp add: bind_act_def gate_def split: sum.splits)

lemma bind_seq_gate [simp]: "bind_act (seq_act (gate f) k) m = seq_act (gate f) (bind_act k m)"
  by (rule ext) (simp add: seq_act_def bind_act_def gate_def split: sum.splits)

lemma bind_return [simp]: "bind_act (return_act x) m = m x"
  by (rule ext) (simp add: bind_act_def)

definition usage_covers :: "tool_deps \<Rightarrow> string \<Rightarrow> rat \<Rightarrow> 'a control_db_scheme \<Rightarrow> bool" where
  "usage_covers d kind amount s \<longleftrightarrow> is_safe amount \<and> 0 \<le> amount
     \<and> changes (\<lambda>c. counter_key c = (dep_task d, td_epochId d, kind) \<and> uc_used c + amount \<le> uc_limit c) (db_counters s) = 1"

lemma admits_usage_seq [simp]:
  assumes "\<And>s'. admits m s'"
  shows "admits (seq_act (consumeUsageOrGap d kind amount) m) s \<longleftrightarrow> usage_covers d kind amount s"
proof -
  have "admits (seq_act (consumeUsageOrGap d kind amount) m) s \<longleftrightarrow> admits (consumeUsageOrGap d kind amount) s"
    using assms by (auto simp: admits_def seq_act_def bind_act_def split: prod.splits sum.splits)
  also have "\<dots> \<longleftrightarrow> admits (consumeUsage (dep_task d, td_epochId d, kind) amount) s"
    by (auto simp: admits_def consumeUsageOrGap_def catch_act_def seq_act_def bind_act_def
        split: prod.splits sum.splits)
  also have "\<dots> \<longleftrightarrow> usage_covers d kind amount s"
    by (auto simp: admits_def consumeUsage_def update_counter_def usage_covers_def act_simps)
  finally show ?thesis .
qed

text \<open>A verb may be used on a namespace: granted by category, and advertised by the target.\<close>

definition verb_granted :: "tool_deps \<Rightarrow> namespace_name \<Rightarrow> string \<Rightarrow> 'a control_db_scheme \<Rightarrow> bool" where
  "verb_granted d ns verb s \<longleftrightarrow>
     categoryGrantAllowsNamespace (te_parse d) (te_nowMs d) (listTaskGrants (dep_task d) s) ns
     \<and> verb \<in> set (ef_verbs (td_caps d)) \<and> (\<exists>en. map_of (ef_namespaces (td_caps d)) ns = Some en \<and> verb \<in> set (en_verbs en))"

lemma assertEffectiveVerb_passes: "assertEffectiveVerb d ns verb s = Inr () \<longleftrightarrow> verb_granted d ns verb s"
  by (auto simp: assertEffectiveVerb_def assertCategoryGrant_def verb_granted_def split: option.splits)

text \<open>The private facts of a file of this task and epoch.\<close>

definition known_file :: "tool_deps \<Rightarrow> id \<Rightarrow> js_row \<Rightarrow> 'a fact_db_scheme \<Rightarrow> bool" where
  "known_file d ref latest s \<longleftrightarrow> (\<exists>v. getObjectReference (dep_task d) (td_epochId d) ref (Some NS_file) s = Some v)
     \<and> latestPrivateFact d ref s = Inr latest"

text \<open>
  Text may leave a file: its path is not denied and the target did not deny it either, and either
  both sides call it public or a grant of this task, for this host and this very object, is active.
\<close>

definition text_of_path :: "js_row \<Rightarrow> string" where
  "text_of_path latest = (if is_string (get_prop latest ''path'') then string_of (get_prop latest ''path'') else [])"

definition read_grant :: "tool_deps \<Rightarrow> id \<Rightarrow> 'a control_db_scheme \<Rightarrow> bool" where
  "read_grant d ref s \<longleftrightarrow> (\<exists>g\<in>set (db_grants s). gr_taskId g = dep_task d \<and> gr_kind g = GK_SENSITIVE_READ
     \<and> gr_targetFingerprint g = dep_host d \<and> grant_active (te_parse d) (te_nowMs d) g
     \<and> get_prop (gr_binding g) ''subjectRef'' = Str ref)"

definition text_may_leave :: "tool_deps \<Rightarrow> id \<Rightarrow> 'a fact_db_scheme \<Rightarrow> bool" where
  "text_may_leave d ref s \<longleftrightarrow> (\<exists>latest. known_file d ref latest s
     \<and> \<not> denied_path (text_of_path latest) \<and> get_prop latest ''contentClass'' \<noteq> Str ''DENIED_TEXT''
     \<and> ((text_of_path latest \<in> set safe_paths \<and> get_prop latest ''contentClass'' = Str ''SAFE_TEXT'') \<or> read_grant d ref s))"

lemma strict_eq_string [simp]: "strict_eq v (Str t) \<longleftrightarrow> v = Str t"
  by (cases v) auto

lemma content_class_denied:
  "content_class_of latest = DENIED_TEXT \<longleftrightarrow>
     denied_path (text_of_path latest) \<or> get_prop latest ''contentClass'' = Str ''DENIED_TEXT''"
  by (auto simp: content_class_of_def effectiveContentClass_def helper_class_def controller_class_def
      text_of_path_def Let_def split: if_splits)

lemma content_class_safe:
  "content_class_of latest = SAFE_TEXT \<longleftrightarrow> \<not> denied_path (text_of_path latest)
     \<and> text_of_path latest \<in> set safe_paths \<and> get_prop latest ''contentClass'' = Str ''SAFE_TEXT''"
  by (auto simp: content_class_of_def effectiveContentClass_def helper_class_def controller_class_def
      text_of_path_def Let_def split: if_splits)

lemma requireSensitiveGrant_passes: "requireSensitiveGrant d ref s = Inr () \<longleftrightarrow> read_grant d ref s"
  by (auto simp: requireSensitiveGrant_def read_grant_def host_grant_def listTaskGrants_def list_ex_iff order_by_def)

lemma content_gate_passes:
  assumes "latestPrivateFact d ref s = Inr latest"
  shows "content_gate d ref s = Inr () \<longleftrightarrow> \<not> denied_path (text_of_path latest)
    \<and> get_prop latest ''contentClass'' \<noteq> Str ''DENIED_TEXT''
    \<and> ((text_of_path latest \<in> set safe_paths \<and> get_prop latest ''contentClass'' = Str ''SAFE_TEXT'') \<or> read_grant d ref s)"
  using content_class_denied [of latest] content_class_safe [of latest] requireSensitiveGrant_passes [of d ref s]
  by (cases "content_class_of latest") (auto simp: content_gate_def assms)

lemma resolve_file_passes:
  "(\<exists>b. resolveObject d ref (Some NS_file) s = Inr b \<and> bn_namespace b = NS_file)
     \<longleftrightarrow> (\<exists>latest. known_file d ref latest s)"
  by (auto simp: resolveObject_def known_file_def getObjectReference_def split: option.splits sum.splits if_splits)

lemma resolve_file_namespace: "resolveObject d ref (Some NS_file) s = Inr b \<Longrightarrow> bn_namespace b = NS_file"
  by (auto simp: resolveObject_def getObjectReference_def split: option.splits sum.splits if_splits)

lemma file_gate_passes:
  assumes "\<And>b. admits (m b) s \<longleftrightarrow> Q"
  shows "admits (bind_act (object_gate d verb (Some NS_file) ref) m) s
    \<longleftrightarrow> (\<exists>latest. known_file d ref latest s) \<and> verb_granted d NS_file verb s \<and> Q"
  using resolve_file_passes [of d ref s] resolve_file_namespace [of d ref s]
  by (auto simp: object_gate_def assertEffectiveVerb_passes assms)

lemma read_admitted:
  "admits (build_read d params) s \<longleftrightarrow> verb_granted d NS_file ''read'' s
     \<and> text_may_leave d (arg_string params ''ref'') s
     \<and> usage_covers d ''MODEL_CONTENT_BYTES'' (fin_of (member params ''length'')) s"
proof -
  let ?ref = "arg_string params ''ref''"
  have "admits (build_read d params) s \<longleftrightarrow> (\<exists>latest. known_file d ?ref latest s) \<and> verb_granted d NS_file ''read'' s
      \<and> content_gate d ?ref s = Inr () \<and> usage_covers d ''MODEL_CONTENT_BYTES'' (fin_of (member params ''length'')) s"
    unfolding build_read_def by (rule file_gate_passes) simp
  moreover have "(\<exists>latest. known_file d ?ref latest s) \<and> content_gate d ?ref s = Inr () \<longleftrightarrow> text_may_leave d ?ref s"
    using content_gate_passes [of d ?ref s] by (auto simp: text_may_leave_def known_file_def)
  ultimately show ?thesis by blast
qed

definition match_allowed :: "tool_deps \<Rightarrow> bool \<Rightarrow> 'a fact_db_scheme \<Rightarrow> id \<Rightarrow> bool" where
  "match_allowed d ctx s ref \<longleftrightarrow> verb_granted d NS_file ''match'' s
     \<and> (if ctx then text_may_leave d ref s else \<exists>latest. known_file d ref latest s)"

lemma match_object_admitted: "admits (match_object d ctx ref) s \<longleftrightarrow> match_allowed d ctx s ref"
proof -
  have "admits (match_object d ctx ref) s \<longleftrightarrow> (\<exists>latest. known_file d ref latest s) \<and> verb_granted d NS_file ''match'' s
      \<and> (if ctx then content_gate d ref s = Inr () else True)"
    unfolding match_object_def by (rule file_gate_passes) simp
  moreover have "(\<exists>latest. known_file d ref latest s) \<and> content_gate d ref s = Inr () \<longleftrightarrow> text_may_leave d ref s"
    using content_gate_passes [of d ref s] by (auto simp: text_may_leave_def known_file_def)
  ultimately show ?thesis by (auto simp: match_allowed_def)
qed

text \<open>Gates leave the store as it is.\<close>

definition looks :: "('s, 'r) act \<Rightarrow> bool" where
  "looks m \<longleftrightarrow> (\<forall>s. snd (m s) = s)"

named_theorems looks_intros \<open>actions that only look\<close>

lemma looks_gate [looks_intros]: "looks (gate f)" by (simp add: looks_def gate_def)
lemma looks_lift [looks_intros]: "looks (lift_result r)" by (simp add: looks_def lift_result_def)
lemma looks_return [looks_intros]: "looks (return_act x)" by (simp add: looks_def)
lemma looks_throw [looks_intros]: "looks (throw_act e)" by (simp add: looks_def)
lemma looks_read [looks_intros]: "looks (read_act f)" by (simp add: looks_def)
lemma looks_require [looks_intros]: "looks (require b e)" by (simp add: looks_def require_def)

lemma looks_bind [looks_intros]: "looks m \<Longrightarrow> (\<And>x. looks (f x)) \<Longrightarrow> looks (bind_act m f)"
  by (auto simp: looks_def bind_act_def split: prod.splits sum.splits) (metis snd_conv)+

lemma looks_seq [looks_intros]: "looks m \<Longrightarrow> looks k \<Longrightarrow> looks (seq_act m k)"
  by (simp add: seq_act_def looks_bind)

lemma looks_if [looks_intros]: "looks a \<Longrightarrow> looks b \<Longrightarrow> looks (if c then a else b)"
  by simp

lemma looks_option [looks_intros]: "looks a \<Longrightarrow> (\<And>x. looks (f x)) \<Longrightarrow> looks (case v of None \<Rightarrow> a | Some x \<Rightarrow> f x)"
  by (cases v) simp_all

lemma looks_prod [looks_intros]: "(\<And>a b. looks (f a b)) \<Longrightarrow> looks (case x of (a, b) \<Rightarrow> f a b)"
  by (cases x) simp

lemma looks_each [looks_intros]: "(\<And>x. looks (f x)) \<Longrightarrow> looks (each_act f xs)"
  by (induction xs) (auto intro: looks_intros)

lemma looks_map [looks_intros]: "(\<And>x. looks (f x)) \<Longrightarrow> looks (map_act f xs)"
  by (induction xs) (auto intro: looks_intros)

lemma looks_object_gate [looks_intros]: "looks (object_gate d verb ns ref)"
  unfolding object_gate_def by (intro looks_intros)

lemma looks_match_object [looks_intros]: "looks (match_object d ctx ref)"
  unfolding match_object_def by (intro looks_intros)

lemma admits_looks_bind: "looks m \<Longrightarrow> (\<And>x. admits (f x) s \<longleftrightarrow> Q) \<Longrightarrow> admits (bind_act m f) s \<longleftrightarrow> admits m s \<and> Q"
  by (auto simp: looks_def admits_def bind_act_def split: prod.splits sum.splits) (metis snd_conv)+

lemma admits_map_looks:
  assumes "\<And>x. looks (f x)"
  shows "admits (map_act f xs) s \<longleftrightarrow> list_all (\<lambda>x. admits (f x) s) xs"
proof (induction xs)
  case (Cons x xs)
  have "admits (map_act f (x # xs)) s \<longleftrightarrow> admits (f x) s \<and> admits (map_act f xs) s"
    using admits_looks_bind [OF looks_map [of f xs, OF assms], of "\<lambda>ys. return_act (_ # ys)" s True]
    by (auto intro!: admits_looks_bind assms)
  then show ?case using Cons.IH by simp
qed (simp add: admits_def)

lemma match_admitted:
  "admits (build_match d params) s \<longleftrightarrow> (let refs = arg_strings params ''refs''; ctx = truthy (member params ''includeContext'') in
     arg_string (member params ''matcher'') ''engine'' \<in> set (ef_matchers (td_caps d))
     \<and> list_all (match_allowed d ctx s) refs
     \<and> (if ctx then usage_covers d ''MODEL_CONTENT_BYTES'' (of_nat (length refs) * MATCH_CONTEXT_MAX_BYTES) s else True))"
  unfolding build_match_def Let_def
  by (subst admits_require_seq, subst admits_looks_bind [OF looks_map [OF looks_match_object]],
      auto simp: admits_map_looks [OF looks_match_object] match_object_admitted)

text \<open>
  C28. When file text may leave the target. A read request is built exactly when the verb is granted,
  the file is known in this epoch, its text is neither on a denied path nor denied by the target
  and is public or opened by an active grant for this very object and host, and the budget of
  model content covers the length asked for. A match request is built exactly when the engine is
  advertised and the same holds of every file whose context is asked for; without context a match
  needs no clearance of the text.
\<close>

theorem text_leaves_iff_cleared:
  "((\<exists>b s'. build_read d params s = (Inr b, s')) \<longleftrightarrow> verb_granted d NS_file ''read'' s
     \<and> text_may_leave d (arg_string params ''ref'') s
     \<and> usage_covers d ''MODEL_CONTENT_BYTES'' (fin_of (member params ''length'')) s)
   \<and> ((\<exists>b s'. build_match d params s = (Inr b, s')) \<longleftrightarrow>
     (let refs = arg_strings params ''refs''; ctx = truthy (member params ''includeContext'') in
     arg_string (member params ''matcher'') ''engine'' \<in> set (ef_matchers (td_caps d))
     \<and> list_all (match_allowed d ctx s) refs
     \<and> (if ctx then usage_covers d ''MODEL_CONTENT_BYTES'' (of_nat (length refs) * MATCH_CONTEXT_MAX_BYTES) s else True)))"
  using read_admitted match_admitted unfolding admits_def by blast

section \<open>A file whose text may be read\<close>

definition file_capabilities :: "string list \<Rightarrow> effective_capabilities" where
  "file_capabilities verbs = \<lparr>ef_namespaces = [(NS_file, \<lparr>en_fields = [''path''], en_relations = [], en_verbs = verbs\<rparr>)],
     ef_matchers = [''literal''], ef_probes = [], ef_verbs = verbs,
     ef_limits = \<lparr>hl_maxObjects = 500, hl_maxOutputBytes = 1, hl_maxReadBytes = 1, hl_maxCollectBytes = 1\<rparr>,
     ef_protocolAnomalies = []\<rparr>"

definition sample_deps :: tool_deps where
  "sample_deps = \<lparr>te_digest = (\<lambda>_. ''d''), te_parse = (\<lambda>_. NaN), te_stringify = (\<lambda>_. ''x''), te_nowMs = 0,
     td_task = sample_task, td_epochId = ''E1'', td_caps = file_capabilities [''read'', ''collect''], td_owner = OWN_MODEL,
     td_factSource = None, td_maxTextBytes = 1024, td_allowedTools = [''quarantine_file''], td_quarantineRoot = ''/q''\<rparr>"

definition file_store :: "string \<Rightarrow> db" where
  "file_store path = empty_db\<lparr>db_tasks := [sample_task], db_epochs := [sample_epoch ''E1''],
     db_grants := [sample_grant], db_objects := [example_object 1 NS_file],
     db_facts := [example_fact 1 NS_file [(''path'', Str path), (''contentClass'', Str ''SAFE_TEXT'')]],
     db_counters := [\<lparr>uc_taskId = ''T1'', uc_epochId = ''E1'', uc_kind = ''MODEL_CONTENT_BYTES'', uc_limit = 100, uc_used = 0\<rparr>]\<rparr>"

text \<open>
  The classes of the controller name two kinds of private keys; any other key file counts as an
  ordinary text, which a grant can open.
\<close>

lemma other_private_keys_are_not_denied:
  "controller_class ''/.ssh/id_rsa'' = DENIED_TEXT \<and> controller_class ''/.ssh/id_ecdsa'' = SENSITIVE_TEXT"
  by code_simp

end
