(* ===== verification/Proposals.thy ===== *)
theory Proposals
  imports Gates Sanitizer Completion FactBatch "HOL-Library.Multiset"
begin

text \<open>
  \<open>propose_actions\<close> of \<open>src/tools/v2/tools.ts\<close>: how the actions a model proposes are completed,
  ordered, checked and queued, up to the run of the scheduler. \<open>schema op args\<close> tells whether there is
  a tool of that name whose schema accepts the arguments; \<open>read_query\<close> reads arguments as the query
  record of theory FactQuery.
\<close>

section \<open>Proposals\<close>

record model_proposal =
  mp_clientRef :: id
  mp_operationRef :: string
  mp_subjectRefs :: "id list"
  mp_args :: js_row
  mp_dependsOn :: "id list"

definition SINGLE_REF_MODEL_ACTIONS :: "string list" where
  "SINGLE_REF_MODEL_ACTIONS = [''project'', ''read'', ''relate'', ''verify'', ''collect'', ''probe'']"

definition set_arg :: "string \<Rightarrow> js \<Rightarrow> js_row \<Rightarrow> js_row" where
  "set_arg k v args = merge_props args [(k, v)]"

definition default_arg :: "string \<Rightarrow> js \<Rightarrow> js_row \<Rightarrow> js_row" where
  "default_arg k v args = (if get_prop args k = Undefined then set_arg k v args else args)"

definition delete_arg :: "string \<Rightarrow> js_row \<Rightarrow> js_row" where
  "delete_arg k args = filter (\<lambda>kv. fst kv \<noteq> k) args"

definition complete_ref :: "id list \<Rightarrow> js_row \<Rightarrow> js_row" where
  "complete_ref subjects args = (if length subjects = 1 then default_arg ''ref'' (Str (hd subjects)) args else args)"

definition complete_relate :: "js_row \<Rightarrow> js_row" where
  "complete_relate args = default_arg ''limit'' (js_nat 100)
     (if get_prop args ''fromRef'' \<noteq> Undefined \<and> strict_eq (get_prop args ''ref'') (get_prop args ''fromRef'')
      then delete_arg ''fromRef'' args else args)"

text \<open>The short form of a matcher some models use.\<close>

definition complete_matcher :: "js_row \<Rightarrow> js_row" where
  "complete_matcher args = (if get_prop args ''matcher'' = Undefined
       \<and> (get_prop args ''matchType'' = Str ''literal'' \<or> get_prop args ''matchType'' = Str ''re2'')
       \<and> is_string (get_prop args ''pattern'')
     then let args' = delete_arg ''pattern'' (delete_arg ''matchType''
            (set_arg ''matcher'' (Obj [(''engine'', get_prop args ''matchType''), (''pattern'', get_prop args ''pattern'')]) args)) in
       if get_prop args' ''namespace'' = Str ''file'' then delete_arg ''namespace'' args' else args'
     else args)"

definition complete_match :: "id list \<Rightarrow> js_row \<Rightarrow> js_row" where
  "complete_match subjects args = default_arg ''includeContext'' (Bool False) (default_arg ''maxHits'' (js_nat 50)
     (complete_matcher (if subjects \<noteq> [] then default_arg ''refs'' (Arr (map Str subjects)) args else args)))"

definition normalizeModelActionProposal :: "model_proposal \<Rightarrow> model_proposal" where
  "normalizeModelActionProposal p = (let op = mp_operationRef p;
       a = (if op \<in> set SINGLE_REF_MODEL_ACTIONS then complete_ref (mp_subjectRefs p) (mp_args p) else mp_args p);
       b = (if op = ''relate'' then complete_relate a else a) in
     p\<lparr>mp_args := (if op = ''match'' then complete_match (mp_subjectRefs p) b else b)\<rparr>)"

section \<open>The order\<close>

definition resolved_by :: "id list \<Rightarrow> model_proposal \<Rightarrow> bool" where
  "resolved_by known p \<longleftrightarrow> list_all (\<lambda>r. r \<in> set known) (mp_dependsOn p)"

text \<open>\<open>pending.findIndex(...)\<close>, \<open>splice\<close>: the first proposal whose dependencies are placed goes next.\<close>

function order_proposals :: "id list \<Rightarrow> model_proposal list \<Rightarrow> model_proposal list option" where
  "order_proposals known pending = (if pending = [] then Some []
     else case List.extract (resolved_by known) pending of
       None \<Rightarrow> None
     | Some (before, p, rest) \<Rightarrow> map_option ((#) p) (order_proposals (mp_clientRef p # known) (before @ rest)))"
  by pat_completeness auto
termination by (relation "measure (\<lambda>(_, ps). length ps)") (auto dest!: extract_SomeE)

declare order_proposals.simps [simp del]

section \<open>Checking\<close>

definition assertProposedActionSubjectBinding :: "model_proposal \<Rightarrow> err + unit" where
  "assertProposedActionSubjectBinding p = (let op = mp_operationRef p; subjects = mp_subjectRefs p; args = mp_args p in
     if op \<in> set SINGLE_REF_MODEL_ACTIONS
     then (if length subjects \<noteq> 1 \<or> get_prop args ''ref'' \<noteq> Str (hd subjects) then Inl Invalid_argument else Inr ())
     else if op = ''match''
     then (if arg_strings (Obj args) ''refs'' \<noteq> subjects then Inl Invalid_argument else Inr ())
     else if op = ''query_facts'' \<and> is_string (get_prop args ''subjectRef'')
       \<and> string_of (get_prop args ''subjectRef'') \<notin> set subjects then Inl Invalid_argument
     else Inr ())"

definition query_ast :: "(js \<Rightarrow> fact_query) \<Rightarrow> js \<Rightarrow> fact_query" where
  "query_ast read_query args = (let q = read_query args in
     if nullish (member args ''select'') then q\<lparr>fq_select := defaultFactQuerySelect (fq_view q)\<rparr> else q)"

definition observed_by_preset :: "tool_deps \<Rightarrow> namespace_name \<Rightarrow> 'a fact_db_scheme \<Rightarrow> bool" where
  "observed_by_preset d ns s \<longleftrightarrow> list_ex (\<lambda>f. fr_namespace f = ns \<and> fs_kind (fr_source f) = SK_PRESET)
     (all_facts (dep_task d) (td_epochId d) s)"

definition validate_enumerate :: "tool_deps \<Rightarrow> js \<Rightarrow> ('a fact_db_scheme, unit) act" where
  "validate_enumerate d args = (case namespace_named (arg_string args ''namespace'') of None \<Rightarrow> throw_act Invalid_argument
     | Some ns \<Rightarrow> seq_act (require (ns \<noteq> NS_task_ioc) Invalid_argument)
        (seq_act (gate (assertCategoryGrant d ns))
        (seq_act (require (ns = NS_file \<longrightarrow> is_string (member args ''scopeRef'')) Invalid_argument)
        (seq_act (gate (assertEffectiveVerb d ns ''enumerate''))
        (bind_act (read_act (observed_by_preset d ns)) (\<lambda>observed.
         seq_act (require (\<not> (observed \<and> member args ''predicate'' = Undefined \<and> member args ''scopeRef'' = Undefined
             \<and> member args ''cursorRef'' = Undefined)) Invalid_argument)
        (seq_act (each_act (field_gate d ns Cap_enumerable) (enumerate_fields ns args))
        (seq_act (lift_result (validatePredicate ns (member args ''predicate'') None))
        (seq_act (each_act (sort_gate ns) (items (member args ''sort'')))
          (if is_string (member args ''scopeRef'')
           then bind_act (gate (resolveGrant d (arg_string args ''scopeRef'') GK_SCOPE)) (\<lambda>_. return_act ())
           else return_act ()))))))))))"

definition validate_project :: "tool_deps \<Rightarrow> js \<Rightarrow> ('a fact_db_scheme, unit) act" where
  "validate_project d args = bind_act (object_gate d ''project'' None (arg_string args ''ref'')) (\<lambda>b.
     each_act (field_gate d (bn_namespace b) Cap_projectable) (arg_strings args ''fields''))"

definition validate_read :: "tool_deps \<Rightarrow> js \<Rightarrow> ('a fact_db_scheme, unit) act" where
  "validate_read d args = bind_act (object_gate d ''read'' (Some NS_file) (arg_string args ''ref'')) (\<lambda>_.
     gate (content_gate d (arg_string args ''ref'')))"

definition validate_match :: "tool_deps \<Rightarrow> js \<Rightarrow> ('a fact_db_scheme, unit) act" where
  "validate_match d args =
     seq_act (require (arg_string (member args ''matcher'') ''engine'' \<in> set (ef_matchers (td_caps d)))
       (Security_error UNSUPPORTED_ENVIRONMENT))
       (each_act (\<lambda>ref. bind_act (match_object d (truthy (member args ''includeContext'')) ref) (\<lambda>_. return_act ()))
          (arg_strings args ''refs''))"

definition validate_relate :: "tool_deps \<Rightarrow> js \<Rightarrow> ('a fact_db_scheme, unit) act" where
  "validate_relate d args = bind_act (object_gate d ''relate'' None (arg_string args ''ref'')) (\<lambda>b.
     relation_gate d b (arg_string args ''relation''))"

definition validate_verify :: "tool_deps \<Rightarrow> js \<Rightarrow> ('a fact_db_scheme, unit) act" where
  "validate_verify d args = bind_act (object_gate d ''verify'' (Some NS_file) (arg_string args ''ref'')) (\<lambda>_.
     seq_act (require (\<not> (arg_string args ''baseline'' = ''package_db'' \<and> truthy (member args ''dataSetRef''))) Invalid_argument)
       (if arg_string args ''baseline'' = ''known_hash_set''
        then seq_act (require (is_string (member args ''dataSetRef'')) Invalid_argument)
          (bind_act (read_act (getKnownHashDataSet (arg_string args ''dataSetRef''))) (\<lambda>found.
           require (found \<noteq> None) (Security_error UNSUPPORTED_ENVIRONMENT)))
        else return_act ()))"

definition validate_collect :: "tool_deps \<Rightarrow> js \<Rightarrow> ('a fact_db_scheme, unit) act" where
  "validate_collect d args = bind_act (collect_object d (arg_string args ''ref'')) (\<lambda>_. return_act ())"

definition validate_probe :: "tool_deps \<Rightarrow> js \<Rightarrow> ('a fact_db_scheme, unit) act" where
  "validate_probe d args = seq_act (probe_gate d (arg_string args ''probeKind'') (member args ''parameters''))
     (bind_act (gate (resolveObject d (arg_string args ''ref'') (Some NS_jvm))) (\<lambda>_. return_act ()))"

fun validate_verb :: "forensic_verb \<Rightarrow> tool_deps \<Rightarrow> js \<Rightarrow> ('a fact_db_scheme, unit) act" where
  "validate_verb V_enumerate = validate_enumerate"
| "validate_verb V_project = validate_project"
| "validate_verb V_read = validate_read"
| "validate_verb V_match = validate_match"
| "validate_verb V_relate = validate_relate"
| "validate_verb V_verify = validate_verify"
| "validate_verb V_collect = validate_collect"
| "validate_verb V_probe = validate_probe"

definition verb_named :: "string \<Rightarrow> forensic_verb option" where
  "verb_named n = List.find (\<lambda>v. verb_name v = n)
     [V_enumerate, V_project, V_read, V_match, V_relate, V_verify, V_collect, V_probe]"

definition validate_operation :: "tool_deps \<Rightarrow> (js \<Rightarrow> fact_query) \<Rightarrow> string \<Rightarrow> js \<Rightarrow> ('a fact_db_scheme, unit) act" where
  "validate_operation d read_query op args = (if op = ''query_facts'' then lift_result (validateFactQuery (query_ast read_query args))
     else case verb_named op of None \<Rightarrow> return_act () | Some v \<Rightarrow> validate_verb v d args)"

definition validateProposedAction ::
  "tool_deps \<Rightarrow> (string \<Rightarrow> js \<Rightarrow> bool) \<Rightarrow> (js \<Rightarrow> fact_query) \<Rightarrow> model_proposal \<Rightarrow> ('a fact_db_scheme, unit) act" where
  "validateProposedAction d schema read_query p =
     seq_act (require (schema (mp_operationRef p) (Obj (mp_args p))) Invalid_argument)
    (seq_act (each_act (\<lambda>ref. bind_act (gate (resolveObject d ref None)) (\<lambda>_. return_act ())) (mp_subjectRefs p))
    (seq_act (lift_result (assertProposedActionSubjectBinding p))
       (validate_operation d read_query (mp_operationRef p) (Obj (mp_args p)))))"

section \<open>Queueing\<close>

definition latest_version_refs :: "tool_deps \<Rightarrow> id list \<Rightarrow> 'a db_scheme \<Rightarrow> id list" where
  "latest_version_refs d refs s = concat (map (\<lambda>ref.
     (case rev (listEntityVersions (dep_task d) (td_epochId d) (Some ref) s) of [] \<Rightarrow> [] | v # _ \<Rightarrow> [vn_versionRef v])) refs)"

definition proposed_action ::
  "tool_deps \<Rightarrow> investigation_session \<Rightarrow> investigation_hypothesis \<Rightarrow> id \<Rightarrow> id list \<Rightarrow> (id \<times> id) list \<Rightarrow> model_proposal \<Rightarrow>
   time \<Rightarrow> id \<Rightarrow> investigation_action" where
  "proposed_action d session h oid versions created p t aid = (let op = mp_operationRef p; dg = te_digest d (Obj (mp_args p)) in
     \<lparr>ac_actionId = aid, ac_taskId = dep_task d, ac_epochId = td_epochId d,
      ac_kind = (if op = ''query_facts'' then LOCAL_QUERY else REMOTE_PRIMITIVE), ac_requestedBy = MODEL,
      ac_obligationIds = [oid], ac_subjectRefs = mp_subjectRefs p, ac_entityVersionRefs = versions, ac_operationRef = op,
      ac_replayPolicy = (if op = ''collect'' then RESUME_OR_RECOLLECT else SAFE_REOBSERVE),
      ac_args = Obj (mp_args p), ac_argsDigest = dg,
      ac_dependsOn = map (\<lambda>r. option_or (map_of created r) []) (mp_dependsOn p),
      ac_authorizationVersion = ss_authorizationVersion session,
      ac_observationRound = ''MODEL:'' @ hy_hypothesisId h @ '':'' @ decimal (hy_revision h),
      ac_idempotencyKey = te_digest d (Obj [(''taskId'', Str (dep_task d)), (''epochId'', Str (td_epochId d)),
        (''hypothesisId'', Str (hy_hypothesisId h)), (''operationRef'', Str op), (''argsDigest'', Str dg)]),
      ac_priority = 50, ac_status = AC_READY, ac_revision = 0, ac_workerId = None, ac_resultRefs = None, ac_error = None,
      ac_createdAt = t, ac_updatedAt = t\<rparr>)"

fun queue_proposals ::
  "tool_deps \<Rightarrow> investigation_session \<Rightarrow> investigation_hypothesis \<Rightarrow> id \<Rightarrow> (id \<times> id) list \<Rightarrow> model_proposal list \<Rightarrow>
   ('a db_scheme, (id \<times> id) list) act" where
  "queue_proposals d session h oid created [] = return_act (rev created)"
| "queue_proposals d session h oid created (p # ps) = bind_act now (\<lambda>t. bind_act (create_id ''IACT'') (\<lambda>aid.
     bind_act (read_act (latest_version_refs d (mp_subjectRefs p))) (\<lambda>versions.
     bind_act (putInvestigationAction (proposed_action d session h oid versions created p t aid)) (\<lambda>stored.
     queue_proposals d session h oid ((mp_clientRef p, ac_actionId stored) # created) ps))))"

definition find_hypothesis :: "tool_deps \<Rightarrow> id \<Rightarrow> 'a db_scheme \<Rightarrow> investigation_hypothesis option" where
  "find_hypothesis d hid s = List.find (\<lambda>h. hy_hypothesisId h = hid) (listInvestigationHypotheses (dep_task d) (td_epochId d) s)"

definition find_obligation :: "tool_deps \<Rightarrow> id \<Rightarrow> id \<Rightarrow> 'a db_scheme \<Rightarrow> investigation_obligation option" where
  "find_obligation d oid hid s = List.find (\<lambda>ob. ob_obligationId ob = oid \<and> ob_hypothesisId ob = Some hid)
     (listInvestigationObligations (dep_task d) (td_epochId d) s)"

definition accepting_session :: "tool_deps \<Rightarrow> 'a db_scheme \<Rightarrow> investigation_session option" where
  "accepting_session d s = (case getInvestigationSession (dep_task d) (td_epochId d) s of
     Some x \<Rightarrow> if ss_executionStatus x = STOPPED then None else Some x | None \<Rightarrow> None)"

text \<open>Everything before the first action is queued.\<close>

definition plan_proposals ::
  "tool_deps \<Rightarrow> (string \<Rightarrow> js \<Rightarrow> bool) \<Rightarrow> (js \<Rightarrow> fact_query) \<Rightarrow> id \<Rightarrow> id \<Rightarrow> model_proposal list \<Rightarrow>
   ('a db_scheme, investigation_session \<times> investigation_hypothesis \<times> model_proposal list) act" where
  "plan_proposals d schema read_query hid oid actions =
     bind_act (read_act (\<lambda>s. (accepting_session d s, find_hypothesis d hid s, find_obligation d oid hid s))) (\<lambda>(session, h, ob).
     seq_act (require (session \<noteq> None) Invalid_argument)
    (seq_act (require (h \<noteq> None \<and> ob \<noteq> None) Invalid_argument)
    (let proposals = map normalizeModelActionProposal actions; refs = map mp_clientRef proposals in
     seq_act (require (distinct refs) Invalid_argument)
    (seq_act (require (list_all (resolved_by refs) proposals) Invalid_argument)
    (case order_proposals [] proposals of None \<Rightarrow> throw_act Invalid_argument
     | Some ordered \<Rightarrow> seq_act (each_act (validateProposedAction d schema read_query) ordered)
         (return_act (the session, the h, ordered)))))))"

definition propose_actions ::
  "tool_deps \<Rightarrow> (string \<Rightarrow> js \<Rightarrow> bool) \<Rightarrow> (js \<Rightarrow> fact_query) \<Rightarrow> id \<Rightarrow> id \<Rightarrow> model_proposal list \<Rightarrow>
   ('a db_scheme, (id \<times> id) list) act" where
  "propose_actions d schema read_query hid oid actions =
     bind_act (plan_proposals d schema read_query hid oid actions) (\<lambda>(session, h, ordered).
     queue_proposals d session h oid [] ordered)"


section \<open>The order is a topological one\<close>

definition dependencies :: "model_proposal list \<Rightarrow> (id \<times> id) set" where
  "dependencies ps = {(r, mp_clientRef p) |p r. p \<in> set ps \<and> r \<in> set (mp_dependsOn p)}"

fun in_order :: "id list \<Rightarrow> model_proposal list \<Rightarrow> bool" where
  "in_order known [] = True"
| "in_order known (p # ps) = (resolved_by known p \<and> in_order (mp_clientRef p # known) ps)"

lemma order_step:
  "List.extract (resolved_by known) pending = Some (before, p, rest) \<Longrightarrow>
     order_proposals known pending = map_option ((#) p) (order_proposals (mp_clientRef p # known) (before @ rest))"
  by (subst order_proposals.simps) (auto dest: extract_SomeE)

lemma order_sound:
  "order_proposals known pending = Some ps \<Longrightarrow> mset ps = mset pending \<and> in_order known ps"
proof (induction known pending arbitrary: ps rule: order_proposals.induct)
  case (1 known pending)
  show ?case
  proof (cases "pending = []")
    case True
    then show ?thesis using "1.prems" by (simp add: order_proposals.simps)
  next
    case False
    then obtain before p rest where e: "List.extract (resolved_by known) pending = Some (before, p, rest)"
      using "1.prems" by (auto simp: order_proposals.simps [of known pending] split: option.splits)
    then have split: "pending = before @ p # rest" "resolved_by known p" by (auto dest: extract_SomeE)
    obtain qs where qs: "order_proposals (mp_clientRef p # known) (before @ rest) = Some qs" "ps = p # qs"
      using "1.prems" unfolding order_step [OF e] by auto
    show ?thesis using "1.IH" [OF False e refl refl qs(1)] qs(2) split by simp
  qed
qed

text \<open>What is left when no proposal can go next: each of them waits for one that is not placed.\<close>

lemma order_stuck:
  "order_proposals known pending = None \<Longrightarrow>
     \<exists>placed rest. mset pending = mset (placed @ rest) \<and> rest \<noteq> []
       \<and> list_all (\<lambda>p. \<not> resolved_by (map mp_clientRef placed @ known) p) rest"
proof (induction known pending rule: order_proposals.induct)
  case (1 known pending)
  have ne: "pending \<noteq> []" using "1.prems" by (auto simp: order_proposals.simps)
  show ?case
  proof (cases "List.extract (resolved_by known) pending")
    case None
    then have "list_all (\<lambda>p. \<not> resolved_by (map mp_clientRef [] @ known) p) pending"
      by (auto simp: extract_None_iff list_all_iff)
    then show ?thesis using ne by (intro exI [of _ "[]"] exI [of _ pending]) simp
  next
    case (Some x)
    obtain before p rest where x: "x = (before, p, rest)" by (cases x)
    have e: "List.extract (resolved_by known) pending = Some (before, p, rest)" using Some x by simp
    then have split: "pending = before @ p # rest" by (auto dest: extract_SomeE)
    have "order_proposals (mp_clientRef p # known) (before @ rest) = None"
      using "1.prems" unfolding order_step [OF e] by simp
    then obtain placed left where l: "mset (before @ rest) = mset (placed @ left)" "left \<noteq> []"
      "list_all (\<lambda>q. \<not> resolved_by (map mp_clientRef placed @ mp_clientRef p # known) q) left"
      using "1.IH" [OF ne e refl refl] by auto
    have "list_all (\<lambda>q. \<not> resolved_by (map mp_clientRef (placed @ [p]) @ known) q) left"
      using l(3) by simp
    moreover have "mset pending = mset ((placed @ [p]) @ left)" using l(1) split by simp
    ultimately show ?thesis using l(2) by blast
  qed
qed

definition place :: "model_proposal list \<Rightarrow> id \<Rightarrow> nat" where
  "place ps r = (if r \<in> mp_clientRef ` set ps then Suc (length (takeWhile (\<lambda>p. mp_clientRef p \<noteq> r) ps)) else 0)"

lemma place_Cons: "place (q # qs) r = (if mp_clientRef q = r then 1
    else if place qs r = 0 then 0 else Suc (place qs r))"
  by (auto simp: place_def)

lemma in_order_places:
  assumes "in_order known ps" and "distinct (map mp_clientRef ps)" and "set known \<inter> mp_clientRef ` set ps = {}"
    and "p \<in> set ps" "r \<in> set (mp_dependsOn p)"
  shows "r \<in> set known \<or> 0 < place ps r \<and> place ps r < place ps (mp_clientRef p)"
  using assms
proof (induction ps arbitrary: known)
  case (Cons q qs)
  show ?case
  proof (cases "p = q")
    case True
    then show ?thesis using Cons.prems by (auto simp: resolved_by_def list_all_iff)
  next
    case False
    then have p: "p \<in> set qs" "mp_clientRef q \<noteq> mp_clientRef p" using Cons.prems by auto
    have "r \<in> set (mp_clientRef q # known) \<or> 0 < place qs r \<and> place qs r < place qs (mp_clientRef p)"
      using Cons.prems p by (intro Cons.IH) auto
    then show ?thesis using p by (auto simp: place_Cons) (auto simp: place_def)
  qed
qed simp

lemma in_order_acyclic:
  assumes "in_order [] ps" and "distinct (map mp_clientRef ps)"
  shows "acyclic (dependencies ps)"
proof -
  have "dependencies ps \<subseteq> measure (place ps)"
    using in_order_places [OF assms(1,2)] by (fastforce simp: dependencies_def)
  then show ?thesis by (meson acyclic_subset wf_acyclic wf_measure)
qed

lemma dependencies_mset: "mset ps = mset qs \<Longrightarrow> dependencies ps = dependencies qs"
  by (auto simp: dependencies_def dest: mset_eq_setD)

text \<open>Proposals that all wait for one of them go round in a circle.\<close>

lemma waiting_cyclic:
  assumes known: "list_all (resolved_by (map mp_clientRef (placed @ rest))) rest" and "rest \<noteq> []"
    and stuck: "list_all (\<lambda>p. \<not> resolved_by (map mp_clientRef placed) p) rest"
  shows "\<not> acyclic (dependencies (placed @ rest))"
proof
  assume "acyclic (dependencies (placed @ rest))"
  moreover have "finite (dependencies (placed @ rest))"
  proof -
    have "dependencies (placed @ rest) = (\<Union>p\<in>set (placed @ rest). (\<lambda>r. (r, mp_clientRef p)) ` set (mp_dependsOn p))"
      by (auto simp: dependencies_def)
    then show ?thesis by simp
  qed
  ultimately have "wf (dependencies (placed @ rest))" by (rule finite_acyclic_wf [rotated])
  moreover have "mp_clientRef (hd rest) \<in> mp_clientRef ` set rest" using \<open>rest \<noteq> []\<close> by simp
  ultimately obtain z where z: "z \<in> mp_clientRef ` set rest"
    "\<And>y. (y, z) \<in> dependencies (placed @ rest) \<Longrightarrow> y \<notin> mp_clientRef ` set rest"
    by (rule wfE_min) blast
  obtain p where p: "p \<in> set rest" "z = mp_clientRef p" using z(1) by auto
  obtain r where r: "r \<in> set (mp_dependsOn p)" "r \<notin> set (map mp_clientRef placed)"
    using stuck p(1) by (auto simp: list_all_iff resolved_by_def)
  have "(r, z) \<in> dependencies (placed @ rest)" using p r by (auto simp: dependencies_def)
  moreover have "r \<in> mp_clientRef ` set rest"
    using known p(1) r by (auto simp: list_all_iff resolved_by_def)
  ultimately show False using z(2) by blast
qed

text \<open>
  C29. The order of a batch of proposals. When their names are distinct and they refer only to each
  other, an order is found exactly when the dependencies have no cycle; the order is a permutation
  of the batch in which every proposal comes after all it depends on.
\<close>

theorem proposals_are_ordered:
  assumes "distinct (map mp_clientRef ps)" and "list_all (resolved_by (map mp_clientRef ps)) ps"
  shows "(case order_proposals [] ps of Some qs \<Rightarrow> mset qs = mset ps \<and> in_order [] qs | None \<Rightarrow> True)
    \<and> (order_proposals [] ps \<noteq> None) = acyclic (dependencies ps)"
proof (cases "order_proposals [] ps")
  case None
  then obtain placed rest where r: "mset ps = mset (placed @ rest)" "rest \<noteq> []"
    "list_all (\<lambda>p. \<not> resolved_by (map mp_clientRef placed @ []) p) rest"
    using order_stuck by blast
  have same: "set ps = set (placed @ rest)" using r(1) by (rule mset_eq_setD)
  then have "resolved_by (map mp_clientRef (placed @ rest)) = resolved_by (map mp_clientRef ps)"
    by (intro ext) (simp add: resolved_by_def image_Un)
  then have "list_all (resolved_by (map mp_clientRef (placed @ rest))) rest"
    using assms(2) same by (simp add: list_all_iff)
  then have "\<not> acyclic (dependencies ps)"
    using waiting_cyclic [of placed rest] r dependencies_mset [OF r(1)] by simp
  then show ?thesis using None by simp
next
  case (Some qs)
  have q: "mset qs = mset ps" "in_order [] qs" using order_sound [OF Some] by auto
  have "distinct (map mp_clientRef qs)"
    using assms(1) q(1) by (metis mset_map mset_eq_imp_distinct_iff)
  then have "acyclic (dependencies ps)"
    using in_order_acyclic [OF q(2)] dependencies_mset [OF q(1)] by simp
  then show ?thesis using Some q by simp
qed


section \<open>What was checked is sent\<close>

lemma admits_looks_seq: "looks m \<Longrightarrow> admits (seq_act m k) s \<longleftrightarrow> admits m s \<and> admits k s"
  unfolding seq_act_def by (rule admits_looks_bind) simp_all

lemma admits_gate: "admits (gate f) s \<longleftrightarrow> (\<exists>x. f s = Inr x)"
  by (auto simp: admits_def gate_def)

lemma admits_lift: "admits (lift_result r) s \<longleftrightarrow> (\<exists>x. r = Inr x)"
  by (auto simp: admits_def lift_result_def)

lemma admits_require: "admits (require b e) s \<longleftrightarrow> b"
  by (cases b) (auto simp: admits_def)

lemma admits_read_bind: "admits (bind_act (read_act f) m) s \<longleftrightarrow> admits (m (f s)) s"
  by (simp add: admits_def bind_act_def)

lemma admits_object_bind:
  "admits (bind_act (object_gate d verb ns ref) m) s \<longleftrightarrow>
     (\<exists>b. resolveObject d ref ns s = Inr b \<and> verb_granted d (bn_namespace b) verb s \<and> admits (m b) s)"
  by (simp add: object_gate_def assertEffectiveVerb_passes)

lemma admits_collect_bind:
  "admits (bind_act (collect_object d ref) m) s \<longleftrightarrow> (\<exists>b. resolveObject d ref None s = Inr b
     \<and> (bn_namespace b = NS_file \<or> bn_namespace b = NS_process) \<and> verb_granted d (bn_namespace b) ''collect'' s \<and> admits (m b) s)"
  by (auto simp: collect_object_def assertEffectiveVerb_passes [symmetric] admits_def bind_act_def gate_def require_def
      seq_act_def split: sum.splits)

lemma looks_field_gate [looks_intros]: "looks (field_gate d ns c f)"
  unfolding field_gate_def by (intro looks_intros)

lemma looks_sort_gate [looks_intros]: "looks (sort_gate ns v)"
  unfolding sort_gate_def by (intro looks_intros)

lemma looks_probe_gate [looks_intros]: "looks (probe_gate d kind ps)"
  unfolding probe_gate_def by (intro looks_intros)

lemma looks_relation_gate [looks_intros]: "looks (relation_gate d b r)"
  unfolding relation_gate_def by (intro looks_intros)

lemma looks_enumerate_gate [looks_intros]: "looks (enumerate_gate d ns args)"
  unfolding enumerate_gate_def by (intro looks_intros)

lemma looks_data_set_gate [looks_intros]: "looks (data_set_gate d args)"
  unfolding data_set_gate_def by (intro looks_intros)

lemmas admits_rules = admits_looks_seq [OF looks_field_gate [THEN looks_each]] admits_looks_seq [OF looks_sort_gate [THEN looks_each]]
  admits_looks_seq [OF looks_lift] admits_looks_seq [OF looks_probe_gate] admits_looks_seq [OF looks_relation_gate]
  admits_looks_seq [OF looks_enumerate_gate] admits_looks_seq [OF looks_data_set_gate]
  admits_gate admits_lift admits_require admits_read_bind admits_object_bind admits_collect_bind

text \<open>
  The part of the schemas the comparison needs: a reference that is given is a string and not empty,
  and a verification names one of the two baselines. The usage a verb charges before it is sent.
\<close>

definition given_ref :: "js \<Rightarrow> bool" where
  "given_ref v \<longleftrightarrow> v = Undefined \<or> is_string v \<and> string_of v \<noteq> []"

definition schema_shape :: "forensic_verb \<Rightarrow> js \<Rightarrow> bool" where
  "schema_shape v args \<longleftrightarrow> given_ref (member args ''scopeRef'') \<and> given_ref (member args ''dataSetRef'')
     \<and> (if v = V_verify then arg_string args ''baseline'' = ''package_db'' \<or> arg_string args ''baseline'' = ''known_hash_set'' else True)"

fun usage_ready :: "forensic_verb \<Rightarrow> tool_deps \<Rightarrow> js \<Rightarrow> 'a control_db_scheme \<Rightarrow> bool" where
  "usage_ready V_read d args s = usage_covers d ''MODEL_CONTENT_BYTES'' (fin_of (member args ''length'')) s"
| "usage_ready V_match d args s = (if truthy (member args ''includeContext'')
     then usage_covers d ''MODEL_CONTENT_BYTES'' (of_nat (length (arg_strings args ''refs'')) * MATCH_CONTEXT_MAX_BYTES) s else True)"
| "usage_ready V_collect d args s = usage_covers d ''EVIDENCE_BYTES'' (fin_of (member args ''maxBytes'')) s"
| "usage_ready _ d args s = True"

lemma enumerate_gate_admitted:
  "admits (enumerate_gate d ns args) s \<longleftrightarrow> ns \<noteq> NS_task_ioc \<and> assertCategoryGrant d ns s = Inr ()
     \<and> (ns = NS_file \<longrightarrow> truthy (member args ''scopeRef'')) \<and> verb_granted d ns ''enumerate'' s
     \<and> admits (each_act (field_gate d ns Cap_enumerable) (enumerate_fields ns args)) s
     \<and> validatePredicate ns (member args ''predicate'') None = Inr ()
     \<and> admits (each_act (sort_gate ns) (items (member args ''sort''))) s"
  unfolding enumerate_gate_def by (simp add: admits_rules assertEffectiveVerb_passes)

lemma enumerate_checked:
  assumes "admits (validate_enumerate d args) s" and "given_ref (member args ''scopeRef'')" and "\<not> truthy (member args ''cursorRef'')"
  shows "admits (build_enumerate d args) s"
proof -
  obtain ns where ns: "namespace_named (arg_string args ''namespace'') = Some ns"
    using assms(1) by (cases "namespace_named (arg_string args ''namespace'')") (auto simp: validate_enumerate_def admits_def)
  have scope: "is_string (member args ''scopeRef'') \<longleftrightarrow> truthy (member args ''scopeRef'')"
    using assms(2) by (cases "member args ''scopeRef''") (auto simp: given_ref_def)
  have v: "admits (enumerate_gate d ns args) s"
    "truthy (member args ''scopeRef'') \<Longrightarrow> \<exists>g. resolveGrant d (arg_string args ''scopeRef'') GK_SCOPE s = Inr g"
    using assms(1) by (auto simp: validate_enumerate_def ns admits_rules enumerate_gate_admitted assertEffectiveVerb_passes scope)
  have "\<exists>r. scope_row d (member args ''scopeRef'') s = Inr r"
    using v(2) by (auto simp: scope_row_def arg_string_def)
  then show ?thesis
    using v(1) assms(3) by (simp add: build_enumerate_def ns admits_rules Let_def helper_cursor_def)
qed

lemma match_checked:
  assumes "admits (validate_match d args) s"
  shows "admits (build_match d args) s = usage_ready V_match d args s"
proof -
  have one: "admits (bind_act (match_object d c r) (\<lambda>_. return_act ())) s \<longleftrightarrow> match_allowed d c s r" for c r
    by (subst admits_looks_bind [OF looks_match_object, where Q = True]) (simp_all add: match_object_admitted)
  have "admits (each_act (\<lambda>ref. bind_act (match_object d c ref) (\<lambda>_. return_act ())) refs) s \<longleftrightarrow>
      list_all (match_allowed d c s) refs" for c refs
    by (induction refs)
      (auto simp only: each_act.simps list.pred_inject admits_return admits_looks_seq [OF looks_bind [OF looks_match_object looks_return]] one)
  then show ?thesis using assms by (simp add: validate_match_def match_admitted Let_def admits_rules)
qed

lemma data_set_gate_admitted:
  "admits (data_set_gate d args) s \<longleftrightarrow> (if arg_string args ''baseline'' = ''package_db'' then \<not> truthy (member args ''dataSetRef'')
     else truthy (member args ''dataSetRef'') \<and> getKnownHashDataSet (arg_string args ''dataSetRef'') s \<noteq> None)"
  unfolding data_set_gate_def by (simp add: admits_rules)

lemma given_ref_truthy: "given_ref v \<Longrightarrow> is_string v \<Longrightarrow> truthy v"
  by (cases v) (auto simp: given_ref_def)

lemma verb_checked:
  assumes "admits (validate_verb v d args) s" and "schema_shape v args" and "\<not> truthy (member args ''cursorRef'')"
  shows "admits (build_request v d args) s = usage_ready v d args s"
proof (cases v)
  case V_enumerate
  then show ?thesis using assms by (simp add: schema_shape_def enumerate_checked)
next
  case V_match
  then show ?thesis using assms by (simp add: match_checked)
next
  case V_read
  then show ?thesis using assms by (auto simp: validate_read_def build_read_def admits_rules)
next
  case V_verify
  then show ?thesis using assms
    by (auto simp: validate_verify_def build_verify_def data_set_gate_admitted admits_rules schema_shape_def given_ref_truthy
        split: if_splits)
qed (use assms in \<open>auto simp: validate_project_def build_project_def validate_relate_def build_relate_def
    validate_collect_def build_collect_def validate_probe_def build_probe_def admits_rules Let_def helper_cursor_def\<close>)

lemma looks_collect_object [looks_intros]: "looks (collect_object d ref)"
  unfolding collect_object_def by (intro looks_intros)

lemma looks_validate_verb [looks_intros]: "looks (validate_verb v d args)"
  by (cases v; simp only: validate_verb.simps validate_enumerate_def validate_project_def validate_read_def validate_match_def
      validate_relate_def validate_verify_def validate_collect_def validate_probe_def; intro looks_intros)

lemma looks_validate [looks_intros]: "looks (validateProposedAction d schema read_query p)"
  unfolding validateProposedAction_def validate_operation_def by (intro looks_intros)

lemma looks_plan: "looks (plan_proposals d schema read_query hid oid actions)"
  unfolding plan_proposals_def Let_def by (intro looks_intros)

lemma admits_each: "(\<And>x. looks (f x)) \<Longrightarrow> admits (each_act f xs) s \<longleftrightarrow> list_all (\<lambda>x. admits (f x) s) xs"
proof (induction xs)
  case Nil
  then show ?case by (simp add: admits_def)
next
  case (Cons x xs)
  then show ?case by (simp add: admits_looks_seq)
qed

lemma planned:
  assumes "plan_proposals d schema read_query hid oid actions s = (Inr (session, h, ordered), s')"
  shows "s' = s \<and> order_proposals [] (map normalizeModelActionProposal actions) = Some ordered
    \<and> list_all (\<lambda>p. admits (validateProposedAction d schema read_query p) s) ordered"
proof -
  have "s' = s" using looks_plan [of d schema read_query hid oid actions] assms unfolding looks_def by (metis snd_conv)
  moreover have "admits (each_act (validateProposedAction d schema read_query) ordered) s
      \<and> order_proposals [] (map normalizeModelActionProposal actions) = Some ordered"
    using assms by (auto simp: plan_proposals_def Let_def act_simps admits_def split: option.splits)
  ultimately show ?thesis by (simp add: admits_each [OF looks_validate])
qed

lemma verb_named_name: "verb_named (verb_name v) = Some v"
  by (cases v) (simp_all add: verb_named_def)

lemma verb_is_no_query: "verb_name v \<noteq> ''query_facts''"
  by (cases v) simp_all


section \<open>One planned action\<close>

definition readable_file :: "string \<Rightarrow> db" where
  "readable_file path = (file_store path)\<lparr>db_sessions := [sample_session],
     db_hypotheses := [\<lparr>hy_hypothesisId = ''H1'', hy_taskId = ''T1'', hy_epochId = ''E1'', hy_subjectRef = ''OBJ-x'', hy_claim = ''c'',
       hy_proposedBy = MODEL, hy_supportRefs = [], hy_counterEvidenceRefs = [], hy_alternativeExplanations = [], hy_status = HY_OPEN,
       hy_revision = 0, hy_createdAt = ''t'', hy_updatedAt = ''t''\<rparr>],
     db_obligations := [\<lparr>ow_dedupeKey = ''k'', ow_required = True, ow_createdAt = ''t'',
       ow_payload = (sample_obligation OB_OPEN)\<lparr>ob_hypothesisId := Some ''H1''\<rparr>\<rparr>]\<rparr>"

definition read_proposal :: model_proposal where
  "read_proposal = \<lparr>mp_clientRef = ''a'', mp_operationRef = ''read'', mp_subjectRefs = [''OBJ-x''],
     mp_args = [(''length'', js_nat 10)], mp_dependsOn = []\<rparr>"

definition planned_read :: "(err + investigation_session \<times> investigation_hypothesis \<times> model_proposal list) \<times> db" where
  "planned_read = plan_proposals sample_deps (\<lambda>_ _. True) (\<lambda>_. first_query) ''H1'' ''OB-1'' [read_proposal] (readable_file ''/etc/hostname'')"

lemma planned_read_ordered:
  "case fst planned_read of Inr (_, _, ps) \<Rightarrow> ps = [normalizeModelActionProposal read_proposal] | Inl _ \<Rightarrow> False"
  by code_simp

lemma planned_read_args:
  "mp_operationRef (normalizeModelActionProposal read_proposal) = verb_name V_read
   \<and> schema_shape V_read (Obj (mp_args (normalizeModelActionProposal read_proposal)))
   \<and> \<not> truthy (member (Obj (mp_args (normalizeModelActionProposal read_proposal))) ''cursorRef'')
   \<and> usage_ready V_read sample_deps (Obj (mp_args (normalizeModelActionProposal read_proposal))) (readable_file ''/etc/hostname'')"
  by code_simp


definition chain_proposals :: "model_proposal list" where
  "chain_proposals = [read_proposal\<lparr>mp_dependsOn := [''b'']\<rparr>, read_proposal\<lparr>mp_clientRef := ''b''\<rparr>]"

theorem proposals_are_ordered_witness:
  "order_proposals [] chain_proposals = Some (rev chain_proposals) \<and> acyclic (dependencies chain_proposals)"
proof -
  have o: "order_proposals [] chain_proposals = Some (rev chain_proposals)" by code_simp
  have "distinct (map mp_clientRef chain_proposals)" "list_all (resolved_by (map mp_clientRef chain_proposals)) chain_proposals"
    by code_simp+
  from proposals_are_ordered [OF this] o show ?thesis by simp
qed

end
