(* ===== verification/Frame.thy ===== *)
theory Frame
  imports Gates FactBatch Investigation Records ActionQueue
begin

text \<open>
  What committing facts, recording pages and cursors, and keeping evidence leave alone: the queue,
  the budgets, the tickets and receipts, and whatever there is beside the store.
\<close>

definition kept :: "'a db_scheme \<Rightarrow> (investigation_action list \<times> action_attempt list) \<times> (budget_account list \<times> budget_reservation list)
    \<times> (approval_ticket list \<times> action_receipt list \<times> task_grant list) \<times> 'a" where
  "kept s = ((db_actions s, db_attempts s), (db_accounts s, db_reservations s), (db_approvals s, db_receipts s, db_grants s), db.more s)"

named_theorems kept_intros \<open>operations that leave the kept part alone\<close>

lemma kept_write: "(\<And>s. kept (g s) = kept s) \<Longrightarrow> obeys (same kept) (write_act g)"
  by (simp add: obeys_def same_def)

lemma kept_uuid [kept_intros]: "obeys (same kept) next_uuid"
  by (simp add: obeys_def same_def next_uuid_def kept_def)

lemma kept_now [kept_intros]: "obeys (same kept) now"
  by (simp add: obeys_def same_def now_def kept_def)

lemma kept_create_id [kept_intros]: "obeys (same kept) (create_id p)"
  unfolding create_id_def by (intro obeys_intros kept_intros)

lemma kept_gate [kept_intros]: "obeys (same kept) (gate f)"
  by (simp add: obeys_def same_def gate_def)

lemma kept_lift [kept_intros]: "obeys (same kept) (lift_result r)"
  by (simp add: obeys_def same_def lift_result_def)

lemma looks_obeys: "looks m \<Longrightarrow> reflp R \<Longrightarrow> obeys R m"
  by (simp add: looks_def obeys_def reflp_def)

lemma kept_draw: "draws s s' \<Longrightarrow> kept s' = kept s"
  by (auto simp: draws_def kept_def)

lemma draws_kept: "obeys draws m \<Longrightarrow> obeys (same kept) m"
  by (simp add: obeys_def same_def kept_draw)

lemma kept_finishToolRun [kept_intros]: "obeys (same kept) (finishToolRun c st r e)"
  unfolding finishToolRun_def by (intro obeys_intros kept_intros) (simp add: same_def kept_def)

lemma kept_startToolRun [kept_intros]: "obeys (same kept) (startToolRun digest r)"
  unfolding startToolRun_def by (intro obeys_intros kept_intros) (simp add: same_def kept_def)

lemma kept_putEvidence [kept_intros]: "obeys (same kept) (putEvidence e)"
  unfolding putEvidence_def by (intro obeys_intros) (simp add: same_def kept_def)

lemma kept_appendAudit [kept_intros]: "obeys (same kept) (appendAudit tid ev l data)"
  unfolding appendAudit_def Let_def by (intro obeys_intros kept_intros) (simp add: same_def kept_def)

lemma kept_gap [kept_intros]: "obeys (same kept) (putInvestigationGap g)"
  unfolding putInvestigationGap_def known_epoch_def insert_gap_def by (intro obeys_intros) (simp add: same_def kept_def)

lemma kept_recordGap [kept_intros]: "obeys (same kept) (recordBudgetGap d reason)"
  unfolding recordBudgetGap_def by (intro obeys_intros kept_intros)

lemma kept_update_counter [kept_intros]: "obeys (same kept) (update_counter p f e)"
  unfolding update_counter_def by (intro obeys_intros) (simp add: same_def kept_def)

lemma kept_consume [kept_intros]: "obeys (same kept) (consumeUsageOrGap d kind n)"
  unfolding consumeUsageOrGap_def consumeUsage_def by (intro obeys_intros kept_intros)

lemma kept_refund [kept_intros]: "obeys (same kept) (refundUsage k n)"
  unfolding refundUsage_def by (intro obeys_intros kept_intros)

lemma kept_putRemoteCursor [kept_intros]: "obeys (same kept) (putRemoteCursor c)"
  unfolding putRemoteCursor_def by (intro obeys_intros kept_intros) (simp add: same_def kept_def)

lemma kept_putCheckpoint [kept_intros]: "obeys (same kept) (putDiscoveryCheckpoint c)"
  unfolding putDiscoveryCheckpoint_def assertInvestigationScope_def Let_def
  by (intro obeys_intros kept_intros) (simp_all add: same_def kept_def)

lemma kept_insert_ref [kept_intros]: "obeys (same kept) (insert_ref r)"
  unfolding insert_ref_def by (intro obeys_intros) (simp add: same_def kept_def)

lemma kept_put_fact [kept_intros]: "obeys (same kept) (put_fact digest f)"
  unfolding put_fact_def insert_fact_def record_version_def insert_version_def
  by (intro obeys_intros) (simp_all add: same_def kept_def)

lemma kept_put_edge [kept_intros]: "obeys (same kept) (put_edge e)"
  unfolding put_edge_def insert_edge_def insert_provenance_def
  by (intro obeys_intros) (simp_all add: same_def kept_def)

lemma kept_insert_batch [kept_intros]: "obeys (same kept) (insert_batch b)"
  unfolding insert_batch_def by (intro obeys_intros) (simp add: same_def kept_def)

lemma kept_finish_batch [kept_intros]: "obeys (same kept) (finish_batch_run input b)"
  unfolding finish_batch_run_def by (intro obeys_intros kept_intros)

lemma kept_appendEvent [kept_intros]: "obeys (same kept) (appendInvestigationEvent evid tid eid b ty pl t)"
  unfolding appendInvestigationEvent_def Let_def by (intro obeys_intros) (simp add: same_def kept_def)

lemma kept_log_batch [kept_intros]: "obeys (same kept) (log_batch_event tid eid src ty pl)"
  unfolding log_batch_event_def by (intro obeys_intros kept_intros)

lemma kept_write_batch [kept_intros]: "obeys (same kept) (write_batch digest input b)"
  unfolding write_batch_def Let_def by (intro obeys_intros kept_intros)

lemma kept_commit [kept_intros]: "obeys (same kept) (commitFactBatch digest parse input)"
  unfolding commitFactBatch_def by (intro obeys_intros kept_intros draws_kept [OF draws_prepareFactBatch])

lemma kept_tables: "obeys (same kept) m \<Longrightarrow> obeys (same tables) m"
  by (simp add: obeys_def same_def kept_def tables_def)

end
