(* ===== verification/RemoteTool.thy ===== *)
theory RemoteTool
  imports Frame Sanitizer
begin

text \<open>
  \<open>remoteTool\<close> of \<open>src/tools/v2/tools.ts\<close>: a forensic operation from the call of the model to its
  stored result. The target is a state of its own beside the store: the requests sent to it so far,
  and what it answers to each, which may be anything. A call is one run; other calls of the process
  between its awaits are not interleaved. Texts for people are replaced by codes.
\<close>

section \<open>The wire\<close>

text \<open>The fields the tools read; of a scan \<open>nextOffset\<close> and \<open>upperBound\<close> are used by no one.\<close>

record wire_request =
  wq_verb :: string
  wq_requestId :: id
  wq_epochId :: id
  wq_deadlineMs :: rat
  wq_reservationId :: id
  wq_estimate :: wire_cost
  wq_params :: js

record wire_scan =
  sn_sourceGeneration :: string
  sn_scannedCount :: nat
  sn_matchedCount :: nat
  sn_returnedCount :: nat
  sn_complete :: bool

record wire_artifact =
  wa_token :: string
  wa_sha256 :: string
  wa_size :: rat
  wa_complete :: bool
  wa_expiresAt :: time

record wire_success =
  ws_partial :: bool
  ws_objects :: "wire_observation list"
  ws_edges :: "wire_edge list"
  ws_cursor :: "string option"
  ws_scan :: "wire_scan option"
  ws_artifact :: "wire_artifact option"
  ws_gaps :: "coverage_gap list"

datatype wire_body = Wire_error string | Wire_success wire_success

record wire_reply =
  wr_cost :: wire_cost
  wr_body :: wire_body

text \<open>The target: what was sent, and the answer to the n-th request or the error of the connection.\<close>

record net = db +
  nt_sent :: "wire_request list"
  nt_replies :: "nat \<Rightarrow> err + wire_reply"

definition invokeV2 :: "wire_request \<Rightarrow> ('a net_scheme, wire_reply) act" where
  "invokeV2 req = (\<lambda>s. (nt_replies s (length (nt_sent s)), s\<lparr>nt_sent := nt_sent s @ [req]\<rparr>))"

section \<open>Cost and errors\<close>

definition number_or :: "js \<Rightarrow> rat \<Rightarrow> rat" where
  "number_or v n = (if nullish v then n else fin_of v)"

definition enumerateScanNodes :: rat where
  "enumerateScanNodes = 5000"

definition estimateRemoteCost :: "forensic_verb \<Rightarrow> js \<Rightarrow> wire_cost" where
  "estimateRemoteCost verb params = (let
     nodes = (case verb of V_enumerate \<Rightarrow> enumerateScanNodes
       | V_relate \<Rightarrow> number_or (member params ''limit'') 500
       | V_match \<Rightarrow> number_or (member params ''maxHits'') 500
       | V_probe \<Rightarrow> (if strict_eq (member params ''probeKind'') (Str ''jvm.tomcat.inventory'') then 500 else 1)
       | _ \<Rightarrow> 1);
     bytes = (case verb of V_read \<Rightarrow> min 1572864 (number_or (member params ''length'') 65536 * 6 + 16384)
       | V_collect \<Rightarrow> max 1572864 (number_or (member params ''maxBytes'') 104857600)
       | _ \<Rightarrow> 1572864) in
     \<lparr>wc_remoteCalls = 1, wc_nodes = nodes, wc_bytes = bytes,
      wc_wallTimeMs = (if verb = V_probe then 115000 else 60000),
      wc_probeCalls = Some (if verb = V_probe then 1 else 0)\<rparr>)"

definition failure_codes :: "(string \<times> security_error_code) list" where
  "failure_codes = [(''INVALID_ARGUMENT'', INVALID_ARGUMENT), (''PERMISSION_DENIED'', PERMISSION_DENIED),
     (''UNSUPPORTED_CAPABILITY'', UNSUPPORTED_ENVIRONMENT), (''STALE_REF'', RECOVERY_UNCERTAIN),
     (''EPOCH_MISMATCH'', RECOVERY_UNCERTAIN), (''SOURCE_CHANGED'', RECOVERY_UNCERTAIN),
     (''BUDGET_EXHAUSTED'', BUDGET_EXCEEDED), (''DEADLINE_EXCEEDED'', TOOL_TIMEOUT),
     (''OUTPUT_LIMIT_EXCEEDED'', BUDGET_EXCEEDED), (''EVIDENCE_COLLECTION_FAILED'', EVIDENCE_COLLECTION),
     (''PROBE_FAILED'', EVIDENCE_COLLECTION), (''TARGET_UNAVAILABLE'', TARGET_UNAVAILABLE),
     (''INTERNAL_ERROR'', INTERNAL_ERROR)]"

definition wireFailure :: "string \<Rightarrow> err" where
  "wireFailure code = Security_error (option_or (map_of failure_codes code) RECOVERY_UNCERTAIN)"

section \<open>Known hashes\<close>

definition sha256_text :: rx where
  "sha256_text = Rx_seq ([Rx_start] @ replicate 64 (Rx_in ''abcdef0123456789'') @ [Rx_end])"

definition judge_object :: "known_hash_data_set \<Rightarrow> wire_observation \<Rightarrow> ('s, wire_observation) act" where
  "judge_object ds ob = (let v = get_prop (wo_fields ob) ''sha256'' in
     if wo_namespace ob \<noteq> NS_file \<or> \<not> is_string v \<or> \<not> rx_test sha256_text (string_of v)
     then throw_act (Security_error RECOVERY_UNCERTAIN)
     else return_act (ob\<lparr>wo_fields := merge_props (wo_fields ob)
       [(''baseline'', Str (''known_hash_set:'' @ kd_dataSetRef ds @ ''@'' @ kd_version ds)),
        (''baselineStatus'', Str (if string_of v \<in> set (kd_sha256 ds) then ''MATCH'' else ''MISMATCH''))]\<rparr>))"

definition postprocess :: "forensic_verb \<Rightarrow> js \<Rightarrow> wire_success \<Rightarrow> ('a control_db_scheme, wire_success) act" where
  "postprocess verb params w = (if verb \<noteq> V_verify \<or> arg_string params ''baseline'' \<noteq> ''known_hash_set''
         \<or> \<not> truthy (member params ''dataSetRef'') then return_act w
     else bind_act (read_act (getKnownHashDataSet (arg_string params ''dataSetRef''))) (\<lambda>found. case found of
       None \<Rightarrow> throw_act (Security_error UNSUPPORTED_ENVIRONMENT)
     | Some ds \<Rightarrow> bind_act (map_act (judge_object ds) (ws_objects w)) (\<lambda>obs. return_act (w\<lparr>ws_objects := obs\<rparr>))))"

section \<open>Results\<close>

definition cost_js :: "wire_cost \<Rightarrow> js" where
  "cost_js c = Obj ([(''remoteCalls'', Num (Fin (wc_remoteCalls c))), (''nodes'', Num (Fin (wc_nodes c))),
     (''bytes'', Num (Fin (wc_bytes c))), (''wallTimeMs'', Num (Fin (wc_wallTimeMs c)))]
     @ (case wc_probeCalls c of None \<Rightarrow> [] | Some n \<Rightarrow> [(''probeCalls'', Num (Fin n))]))"

definition modelToolResult :: "tool_deps \<Rightarrow> js \<Rightarrow> js" where
  "modelToolResult d details = Obj [(''content'', Arr [Obj [(''type'', Str ''text''),
     (''text'', Str (bj_text (serializeToolResultForLlm (te_stringify d) details (td_maxTextBytes d))))]]), (''details'', details)]"

record remote_summary =
  rs_partial :: bool
  rs_runId :: id
  rs_evidenceRefs :: "id list"
  rs_gaps :: "coverage_gap list"
  rs_cursorRef :: "id option"
  rs_cost :: wire_cost

definition remote_details :: "remote_summary \<Rightarrow> prepared_batch \<Rightarrow> js" where
  "remote_details r b = Obj ([(''status'', Str (if rs_partial r then ''partial'' else ''success'')),
     (''runId'', Str (rs_runId r)), (''factRefs'', js_ids (map fr_factId (pb_facts b))),
     (''objectRefs'', js_ids (unique (map fr_subjectRef (pb_facts b)))), (''edgeRefs'', js_ids (map eg_edgeId (pb_edges b))),
     (''evidenceRefs'', js_ids (rs_evidenceRefs r)), (''gaps'', Arr (map gap_js (rs_gaps r)))]
     @ opt_prop ''cursorRef'' (rs_cursorRef r) @ [(''cost'', cost_js (rs_cost r))])"

section \<open>The page of an enumeration\<close>

definition built_namespace :: "js_row \<Rightarrow> namespace_name option" where
  "built_namespace row = namespace_named (string_of (get_prop row ''namespace''))"

definition page_limitations :: "discovery_checkpoint option \<Rightarrow> bool \<Rightarrow> wire_success \<Rightarrow> wire_scan \<Rightarrow> string list" where
  "page_limitations previous inherited w scan =
     (if inherited then [case previous of Some k \<Rightarrow> option_or (ck_remainingDescription k) ''PREVIOUS_PAGE_LIMITED'' | None \<Rightarrow> []] else [])
     @ map (\<lambda>g. gap_code_name (cg_code g) @ '':'' @ option_or (cg_detail g) []) (filter (\<lambda>g. \<not> cg_resumable g) (ws_gaps w))
     @ (if nonempty (ws_cursor w) = None \<and> \<not> sn_complete scan then [''SCAN_INCOMPLETE_WITHOUT_CURSOR''] else [])"

fun joined_with :: "string \<Rightarrow> string list \<Rightarrow> string" where
  "joined_with sep [] = []"
| "joined_with sep [x] = x"
| "joined_with sep (x # xs) = x @ sep @ joined_with sep xs"

definition carried :: "bool \<Rightarrow> (discovery_checkpoint \<Rightarrow> nat) \<Rightarrow> discovery_checkpoint option \<Rightarrow> nat" where
  "carried continuing f previous = (if continuing then (case previous of Some k \<Rightarrow> f k | None \<Rightarrow> 0) else 0)"

definition page_checkpoint ::
  "tool_deps \<Rightarrow> namespace_name \<Rightarrow> string \<Rightarrow> discovery_checkpoint option \<Rightarrow> bool \<Rightarrow> wire_success \<Rightarrow> wire_scan \<Rightarrow>
   id option \<Rightarrow> time \<Rightarrow> id \<Rightarrow> discovery_checkpoint" where
  "page_checkpoint d ns dg previous continuing w scan cursorRef t cid =
     (let more_pages = nonempty (ws_cursor w) \<noteq> None;
          inherited = (continuing \<and> map_option ck_status previous = Some CK_LIMITED);
          limited = (inherited \<or> list_ex (\<lambda>g. \<not> cg_resumable g) (ws_gaps w) \<or> (\<not> more_pages \<and> \<not> sn_complete scan));
          remaining = (if limited then joined_with '';'' (unique (page_limitations previous inherited w scan))
            else if more_pages then ''NEXT_PAGE:'' @ option_or cursorRef [] else []) in
      \<lparr>ck_checkpointId = cid, ck_taskId = dep_task d, ck_epochId = td_epochId d, ck_namespace = ns, ck_requestDigest = dg,
       ck_status = (if limited then CK_LIMITED else if more_pages then CK_RUNNING else CK_COMPLETE),
       ck_sourceGeneration = Some (sn_sourceGeneration scan), ck_cursorRef = cursorRef,
       ck_scannedCount = carried continuing ck_scannedCount previous + sn_scannedCount scan,
       ck_matchedCount = carried continuing ck_matchedCount previous + sn_matchedCount scan,
       ck_returnedCount = carried continuing ck_returnedCount previous + sn_returnedCount scan,
       ck_remainingDescription = nonempty (Some remaining),
       ck_createdAt = (case previous of Some k \<Rightarrow> ck_createdAt k | None \<Rightarrow> t), ck_updatedAt = t\<rparr>)"

definition record_page ::
  "tool_deps \<Rightarrow> js_row \<Rightarrow> string \<Rightarrow> bool \<Rightarrow> wire_success \<Rightarrow> wire_scan \<Rightarrow> id option \<Rightarrow> ('a db_scheme, unit) act" where
  "record_page d row dg continuing w scan cursorRef = (case built_namespace row of None \<Rightarrow> throw_act Type_error
     | Some ns \<Rightarrow> bind_act (read_act (\<lambda>s. List.find (\<lambda>k. ck_namespace k = ns \<and> ck_requestDigest k = dg)
           (listDiscoveryCheckpoints (dep_task d) (td_epochId d) s))) (\<lambda>previous.
         bind_act now (\<lambda>t. bind_act (case previous of Some k \<Rightarrow> return_act (ck_checkpointId k)
           | None \<Rightarrow> bind_act next_uuid (\<lambda>u. return_act (''DCP-'' @ u))) (\<lambda>cid.
         bind_act (putDiscoveryCheckpoint (page_checkpoint d ns dg previous continuing w scan cursorRef t cid)) (\<lambda>_. return_act ())))))"

definition store_cursor ::
  "tool_deps \<Rightarrow> forensic_verb \<Rightarrow> built_params \<Rightarrow> wire_success \<Rightarrow> ('a fact_db_scheme, id option) act" where
  "store_cursor d verb b w = (case nonempty (ws_cursor w) of None \<Rightarrow> return_act None
     | Some c \<Rightarrow> seq_act (require (verb = V_enumerate \<or> verb = V_relate) (Security_error INTERNAL_ERROR))
        (bind_act next_uuid (\<lambda>u. case built_namespace (bp_row b) of None \<Rightarrow> throw_act Type_error
         | Some ns \<Rightarrow> seq_act (putRemoteCursor \<lparr>rm_cursorRef = ''CURSOR-'' @ u, rm_taskId = dep_task d, rm_epochId = td_epochId d,
             rm_namespace = ns, rm_requestDigest = option_or (bp_digest b) (te_digest d (Obj (bp_row b))),
             rm_helperCursor = c, rm_scopeIdentityDigest = None\<rparr>)
            (return_act (Some (''CURSOR-'' @ u))))))"

definition page_step ::
  "tool_deps \<Rightarrow> forensic_verb \<Rightarrow> js \<Rightarrow> built_params \<Rightarrow> wire_success \<Rightarrow> id option \<Rightarrow> ('a db_scheme, unit) act" where
  "page_step d verb params b w cursorRef = (case (ws_scan w, bp_digest b) of
       (Some scan, Some dg) \<Rightarrow> if verb = V_enumerate
         then record_page d (bp_row b) dg (truthy (member params ''cursorRef'')) w scan cursorRef else return_act ()
     | _ \<Rightarrow> return_act ())"

section \<open>Evidence\<close>

text \<open>What \<open>evidence.putStream\<close> is given; it downloads the artifact and stores file and row.\<close>

record evidence_request =
  eq_taskId :: id
  eq_host :: string
  eq_type :: string
  eq_source :: string
  eq_tool :: string
  eq_toolCallId :: id
  eq_metadata :: js
  eq_artifact :: wire_artifact

definition probe_param :: "js \<Rightarrow> string \<Rightarrow> js" where
  "probe_param params k = member (member params ''parameters'') k"

definition evidence_source :: "forensic_verb \<Rightarrow> js \<Rightarrow> js_row \<Rightarrow> string" where
  "evidence_source verb params latest = (let ref = member params ''ref'' in
     if verb = V_probe then arg_string params ''probeKind'' @ '':'' @ string_of (or_else (probe_param params ''className'') ref)
     else string_of (or_else (or_else (get_prop latest ''path'') (get_prop latest ''exe'')) ref))"

definition evidence_metadata :: "tool_deps \<Rightarrow> forensic_verb \<Rightarrow> js \<Rightarrow> wire_artifact \<Rightarrow> js" where
  "evidence_metadata d verb params a = Obj ([(''epochId'', Str (td_epochId d)), (''subjectRef'', member params ''ref''),
     (''sourceKind'', Str ''TARGET_OBSERVATION''), (''complete'', Bool (wa_complete a)),
     (''range'', Obj [(''start'', js_nat 0), (''length'', Num (Fin (wa_size a))), (''complete'', Bool (wa_complete a))]),
     (''sourceDigest'', Str (wa_sha256 a)), (''remoteSha256'', Str (wa_sha256 a)), (''remoteSize'', Num (Fin (wa_size a)))]
     @ (if verb = V_probe then [(''className'', probe_param params ''className''),
          (''classLoaderId'', probe_param params ''classLoaderId''), (''captureMethod'', Str ''JVM_RETRANSFORM'')] else []))"

definition charge_artifact :: "tool_deps \<Rightarrow> forensic_verb \<Rightarrow> js \<Rightarrow> wire_artifact \<Rightarrow> ('a fact_db_scheme, unit) act" where
  "charge_artifact d verb params a = (if verb = V_collect
     then let granted_bytes = number_or (member params ''maxBytes'') 0 in
       seq_act (require (wa_size a \<le> granted_bytes) (Security_error EVIDENCE_COLLECTION))
         (refundUsage (dep_task d, td_epochId d, ''EVIDENCE_BYTES'') (granted_bytes - wa_size a))
     else consumeUsageOrGap d ''EVIDENCE_BYTES'' (wa_size a))"

definition keep_artifact ::
  "(evidence_request \<Rightarrow> ('a db_scheme, evidence) act) \<Rightarrow> tool_deps \<Rightarrow> forensic_verb \<Rightarrow> id \<Rightarrow> js \<Rightarrow> wire_success \<Rightarrow>
   ('a db_scheme, id list) act" where
  "keep_artifact putStream d verb cid params w = (case ws_artifact w of
       Some a \<Rightarrow> if verb = V_collect \<or> verb = V_probe
         then seq_act (charge_artifact d verb params a)
           (bind_act (gate (latestPrivateFact d (arg_string params ''ref''))) (\<lambda>latest.
            bind_act (putStream \<lparr>eq_taskId = dep_task d, eq_host = tg_host (tc_target (td_task d)),
                eq_type = (if verb = V_probe then ''jvm_class_bytecode'' else ''collected_object''),
                eq_source = evidence_source verb params latest, eq_tool = verb_name verb, eq_toolCallId = cid,
                eq_metadata = evidence_metadata d verb params a, eq_artifact = a\<rparr>) (\<lambda>e.
            return_act [ev_evidenceId e])))
         else return_act []
     | None \<Rightarrow> return_act [])"

definition artifact_fact :: "forensic_verb \<Rightarrow> js \<Rightarrow> prepared_batch \<Rightarrow> wire_success \<Rightarrow> fact_record option" where
  "artifact_fact verb params b w = (if verb = V_probe \<and> ws_artifact w \<noteq> None
     then List.find (\<lambda>f. fr_namespace f = NS_class
         \<and> strict_eq (private_field f ''className'') (probe_param params ''className'')
         \<and> strict_eq (private_field f ''loaderId'') (probe_param params ''classLoaderId'')) (pb_facts b)
     else None)"

definition evidence_subject :: "evidence option \<Rightarrow> js" where
  "evidence_subject item = (case item of None \<Rightarrow> Undefined | Some e \<Rightarrow> member (ev_metadata e) ''subjectRef'')"

definition bind_evidence ::
  "tool_deps \<Rightarrow> forensic_verb \<Rightarrow> js \<Rightarrow> prepared_batch \<Rightarrow> wire_success \<Rightarrow> id \<Rightarrow> ('a db_scheme, unit) act" where
  "bind_evidence d verb params b w eid = bind_act (read_act (getEvidence (dep_task d) eid)) (\<lambda>item.
     let f = artifact_fact verb params b w;
         subject = (case f of Some x \<Rightarrow> fr_subjectRef x
           | None \<Rightarrow> string_of (or_else (evidence_subject item) (Str []))) in
     bind_act (read_act (\<lambda>s. map vn_versionRef (listEntityVersions (dep_task d) (td_epochId d) (Some subject) s))) (\<lambda>versions.
     case (item, rev versions) of
       (Some e, v # _) \<Rightarrow> if v = [] then return_act () else putEvidence (e\<lparr>ev_metadata := Obj (merge_props (props (ev_metadata e))
           ((''entityVersionRef'', Str v) # (case f of None \<Rightarrow> []
             | Some x \<Rightarrow> [(''captureSourceRef'', member (ev_metadata e) ''subjectRef''), (''artifactSubjectRef'', Str (fr_subjectRef x))])))\<rparr>)
     | _ \<Rightarrow> return_act ()))"

section \<open>The call\<close>

definition fact_source_of :: "tool_deps \<Rightarrow> err + fact_source" where
  "fact_source_of d = (case td_factSource d of Some x \<Rightarrow> Inr (x\<lparr>fs_evidenceOrigin := Some TARGET_OBSERVATION\<rparr>)
     | None \<Rightarrow> if td_owner d = OWN_MODEL
         then Inr \<lparr>fs_kind = SK_MODEL, fs_evidenceOrigin = Some TARGET_OBSERVATION, fs_presetRunId = None, fs_presetId = None,
           fs_presetVersion = None, fs_stepId = None, fs_externalProvider = None\<rparr>
         else Inl (Security_error INTERNAL_ERROR))"

definition tool_run_of :: "tool_deps \<Rightarrow> id \<Rightarrow> string \<Rightarrow> string \<Rightarrow> string \<Rightarrow> js \<Rightarrow> tool_run" where
  "tool_run_of d cid name risk policy params = \<lparr>tr_toolCallId = cid, tr_taskId = dep_task d, tr_epochId = Some (td_epochId d),
     tr_toolName = name, tr_risk = risk, tr_replayPolicy = policy, tr_args = params, tr_status = TR_STARTED,
     tr_result = Undefined, tr_error = None, tr_startedAt = [], tr_finishedAt = None\<rparr>"

definition verb_risk :: "forensic_verb \<Rightarrow> string" where
  "verb_risk verb = (case verb of V_collect \<Rightarrow> ''COLLECT'' | V_probe \<Rightarrow> ''INTRUSIVE_READ'' | _ \<Rightarrow> ''READ'')"

definition verb_policy :: "forensic_verb \<Rightarrow> string" where
  "verb_policy verb = (if verb = V_collect then ''RESUME_OR_RECOLLECT'' else ''SAFE_REOBSERVE'')"

definition batch_of ::
  "(wire_reply \<Rightarrow> string) \<Rightarrow> tool_deps \<Rightarrow> forensic_verb \<Rightarrow> id \<Rightarrow> fact_source \<Rightarrow> wire_reply \<Rightarrow> wire_success \<Rightarrow> remote_summary \<Rightarrow> fact_batch_input" where
  "batch_of wireDigest d verb cid source reply w r = \<lparr>fi_taskId = dep_task d, fi_epochId = td_epochId d, fi_sourceRunId = cid,
     fi_source = source, fi_targetFingerprint = dep_host d, fi_requestId = cid,
     fi_collector = \<lparr>co_name = verb_name verb, co_version = MANIFEST_VERSION\<rparr>,
     fi_observations = ws_objects w, fi_edges = ws_edges w, fi_gaps = ws_gaps w, fi_wireDigest = wireDigest reply,
     fi_toolRun = Some \<lparr>bt_toolCallId = cid, bt_status = TR_SUCCEEDED, bt_result = Undefined,
       bt_resultFactory = Some (\<lambda>b. modelToolResult d (remote_details r b)), bt_error = None\<rparr>\<rparr>"

definition audit_remote :: "tool_deps \<Rightarrow> forensic_verb \<Rightarrow> id \<Rightarrow> prepared_batch \<Rightarrow> remote_summary \<Rightarrow> ('a control_db_scheme, unit) act" where
  "audit_remote d verb cid b r = bind_act (appendAudit (Some (dep_task d)) (''v2_'' @ verb_name verb)
     (if rs_partial r then Warn else Info)
     (Obj [(''toolCallId'', Str cid), (''factCount'', js_nat (length (pb_facts b))), (''edgeCount'', js_nat (length (pb_edges b))),
        (''gapCodes'', Arr (map (\<lambda>g. Str (gap_code_name (cg_code g))) (rs_gaps r))), (''cursorRef'', js_id (rs_cursorRef r)),
        (''evidenceRefs'', js_ids (rs_evidenceRefs r)), (''cost'', cost_js (rs_cost r))])) (\<lambda>_. return_act ())"

text \<open>What is done with a successful answer, the cost of which is settled.\<close>

definition keep_answer ::
  "(wire_reply \<Rightarrow> string) \<Rightarrow> (evidence_request \<Rightarrow> ('a db_scheme, evidence) act) \<Rightarrow> tool_deps \<Rightarrow> forensic_verb \<Rightarrow> id \<Rightarrow> js \<Rightarrow>
   built_params \<Rightarrow> wire_reply \<Rightarrow> wire_success \<Rightarrow> ('a db_scheme, js) act" where
  "keep_answer wireDigest putStream d verb cid params b reply raw =
     bind_act (postprocess verb params raw) (\<lambda>w.
     bind_act (store_cursor d verb b w) (\<lambda>cursorRef.
     seq_act (page_step d verb params b w cursorRef)
    (bind_act (keep_artifact putStream d verb cid params w) (\<lambda>evidenceRefs.
     bind_act (lift_result (fact_source_of d)) (\<lambda>source.
     let r = \<lparr>rs_partial = ws_partial w, rs_runId = cid, rs_evidenceRefs = evidenceRefs, rs_gaps = ws_gaps w,
              rs_cursorRef = cursorRef, rs_cost = wr_cost reply\<rparr> in
     bind_act (commitFactBatch (te_digest d) (te_parse d) (batch_of wireDigest d verb cid source reply w r)) (\<lambda>batch.
     seq_act (each_act (bind_evidence d verb params batch w) evidenceRefs)
    (seq_act (audit_remote d verb cid batch r) (return_act (modelToolResult d (remote_details r batch))))))))))"

definition call_target ::
  "(wire_reply \<Rightarrow> string) \<Rightarrow> (evidence_request \<Rightarrow> ('a net_scheme, evidence) act) \<Rightarrow> tool_deps \<Rightarrow> forensic_verb \<Rightarrow> id \<Rightarrow> js \<Rightarrow>
   built_params \<Rightarrow> wire_request \<Rightarrow> ('a net_scheme, js) act" where
  "call_target wireDigest putStream d verb cid params b req =
     bind_act (invokeV2 req) (\<lambda>reply.
     seq_act (lift_result (assertCostWithinReservation (wr_cost reply) (wq_estimate req)))
    (seq_act (settleBudget (wq_reservationId req) (wr_cost reply))
    (case wr_body reply of Wire_error code \<Rightarrow> throw_act (wireFailure code)
     | Wire_success w \<Rightarrow> keep_answer wireDigest putStream d verb cid params b reply w)))"

text \<open>\<open>if (run?.status === "STARTED") finishToolRun(..., "FAILED", ...)\<close>.\<close>

definition fail_run :: "tool_deps \<Rightarrow> id \<Rightarrow> err \<Rightarrow> ('a control_db_scheme, unit) act" where
  "fail_run d cid e = bind_act (read_act (getToolRunForScope (dep_task d) (td_epochId d) cid)) (\<lambda>run.
     if map_option tr_status run = Some TR_STARTED then finishToolRun cid TR_FAILED Undefined (Some (err_text e)) else return_act ())"

definition attempt :: "('s, unit) act \<Rightarrow> ('s, unit) act" where
  "attempt m = catch_act m (\<lambda>_. return_act ())"

definition reserve_call :: "tool_deps \<Rightarrow> id \<Rightarrow> id \<Rightarrow> wire_cost \<Rightarrow> ('a fact_db_scheme, unit) act" where
  "reserve_call d cid rid estimate = catch_act (reserveBudget rid (dep_task d, td_epochId d, td_owner d) estimate)
     (\<lambda>e. seq_act (finishToolRun cid TR_BLOCKED Undefined (Some ''BUDGET_EXHAUSTED''))
         (seq_act (recordBudgetGap d ''BUDGET_EXHAUSTED'') (throw_act e)))"

definition request_of :: "tool_deps \<Rightarrow> forensic_verb \<Rightarrow> id \<Rightarrow> id \<Rightarrow> built_params \<Rightarrow> wire_request" where
  "request_of d verb cid rid b = (let estimate = estimateRemoteCost verb (Obj (bp_row b)) in
     \<lparr>wq_verb = verb_name verb, wq_requestId = cid, wq_epochId = td_epochId d,
      wq_deadlineMs = min 115000 (wc_wallTimeMs estimate), wq_reservationId = rid, wq_estimate = estimate,
      wq_params = Obj (bp_row b)\<rparr>)"

definition perform_call ::
  "(wire_reply \<Rightarrow> string) \<Rightarrow> (evidence_request \<Rightarrow> ('a net_scheme, evidence) act) \<Rightarrow> tool_deps \<Rightarrow> forensic_verb \<Rightarrow> id \<Rightarrow> js \<Rightarrow>
   ('a net_scheme, js) act" where
  "perform_call wireDigest putStream d verb cid params =
     bind_act (build_request verb d params) (\<lambda>b.
     bind_act next_uuid (\<lambda>u.
     let rid = ''BRES-'' @ u; req = request_of d verb cid rid b in
     bind_act (startToolRun (te_digest d) (tool_run_of d cid (verb_name verb) (verb_risk verb) (verb_policy verb) params)) (\<lambda>_.
     seq_act (reserve_call d cid rid (wq_estimate req))
       (catch_act (call_target wireDigest putStream d verb cid params b req)
          (\<lambda>e. seq_act (attempt (settleBudget rid (wq_estimate req))) (seq_act (fail_run d cid e) (throw_act e)))))))"

definition remote_tool ::
  "(wire_reply \<Rightarrow> string) \<Rightarrow> (evidence_request \<Rightarrow> ('a net_scheme, evidence) act) \<Rightarrow> tool_deps \<Rightarrow> forensic_verb \<Rightarrow> id \<Rightarrow> js \<Rightarrow>
   ('a net_scheme, js) act" where
  "remote_tool wireDigest putStream d verb cid params =
     bind_act (read_act (getToolRunForScope (dep_task d) (td_epochId d) cid)) (\<lambda>existing. case existing of
       Some run \<Rightarrow> if tr_status run = TR_SUCCEEDED \<and> truthy (tr_result run) then return_act (tr_result run)
         else if tr_status run \<noteq> TR_STARTED then throw_act (Security_error RECOVERY_UNCERTAIN)
         else perform_call wireDigest putStream d verb cid params
     | None \<Rightarrow> perform_call wireDigest putStream d verb cid params)"

section \<open>What a call leaves alone\<close>

lemma kept_looks: "looks m \<Longrightarrow> obeys (same kept) m"
  by (auto intro: looks_obeys reflp_same)

lemma kept_field_gate [kept_intros]: "obeys (same kept) (field_gate d ns c f)" "obeys (same kept) (sort_gate ns v)"
  unfolding field_gate_def sort_gate_def by (intro obeys_intros kept_intros)+

lemma kept_match_object [kept_intros]: "obeys (same kept) (match_object d ctx ref)"
  by (rule kept_looks) (rule looks_match_object)

lemma kept_build_request [kept_intros]: "obeys (same kept) (build_request verb d params)"
  by (cases verb; simp only: build_request.simps build_enumerate_def build_project_def build_read_def build_match_def
      build_relate_def build_verify_def build_collect_def build_probe_def enumerate_gate_def
      object_gate_def relation_gate_def data_set_gate_def collect_object_def probe_gate_def built_def Let_def;
      intro obeys_intros kept_intros)

lemma kept_postprocess [kept_intros]: "obeys (same kept) (postprocess verb params w)"
  unfolding postprocess_def judge_object_def Let_def by (intro obeys_intros)

lemma kept_store_cursor [kept_intros]: "obeys (same kept) (store_cursor d verb b w)"
  unfolding store_cursor_def by (intro obeys_intros kept_intros)

lemma kept_page_step [kept_intros]: "obeys (same kept) (page_step d verb params b w c)"
  unfolding page_step_def record_page_def by (intro obeys_intros kept_intros)

lemma kept_charge [kept_intros]: "obeys (same kept) (charge_artifact d verb params a)"
  unfolding charge_artifact_def Let_def by (intro obeys_intros kept_intros)

lemma kept_keep_artifact:
  "(\<And>q. obeys (same kept) (putStream q)) \<Longrightarrow> obeys (same kept) (keep_artifact putStream d verb cid params w)"
  unfolding keep_artifact_def by (intro obeys_intros kept_intros)

lemma kept_bind_evidence [kept_intros]: "obeys (same kept) (bind_evidence d verb params b w eid)"
  unfolding bind_evidence_def Let_def
  by (intro obeys_intros kept_intros) (auto split: option.split list.split intro!: obeys_intros kept_intros)

lemma kept_audit_remote [kept_intros]: "obeys (same kept) (audit_remote d verb cid b r)"
  unfolding audit_remote_def by (intro obeys_intros kept_intros)

lemma kept_keep_answer:
  assumes "\<And>q. obeys (same kept) (putStream q)"
  shows "obeys (same kept) (keep_answer wireDigest putStream d verb cid params b reply raw)"
  unfolding keep_answer_def Let_def by (intro obeys_intros kept_intros kept_keep_artifact assms)

lemma kept_fail_run [kept_intros]: "obeys (same kept) (fail_run d cid e)"
  unfolding fail_run_def by (intro obeys_intros kept_intros)

section \<open>The budget of a call\<close>

definition open_reservation :: "id \<Rightarrow> wire_cost \<Rightarrow> 'a control_db_scheme \<Rightarrow> bool" where
  "open_reservation rid est s \<longleftrightarrow> (\<exists>x a. find_reservation rid s = Some x \<and> br_status x = RESERVED \<and> br_estimate x = est
     \<and> find_account (reservation_key x) s = Some a)"

definition covered_by :: "wire_cost \<Rightarrow> wire_cost \<Rightarrow> bool" where
  "covered_by c est \<longleftrightarrow> list_all (\<lambda>key. cost_at c key \<le> cost_at est key) budgetKeys"

definition settled_call :: "id \<Rightarrow> wire_cost \<Rightarrow> 'a control_db_scheme \<Rightarrow> bool" where
  "settled_call rid est s \<longleftrightarrow> (\<exists>x c. find_reservation rid s = Some x \<and> br_status x = SETTLED \<and> br_estimate x = est
     \<and> br_actual x = Some c \<and> covered_by c est)"

lemma budget_kept:
  assumes "kept s' = kept s"
  shows "open_reservation rid est s' = open_reservation rid est s" "settled_call rid est s' = settled_call rid est s"
  using assms by (simp_all add: kept_def open_reservation_def settled_call_def find_reservation_def find_account_def)

lemma sent_kept: "kept s' = kept s \<Longrightarrow> nt_sent s' = nt_sent s"
  by (cases s, cases s') (simp add: kept_def)

lemma covered_by_refl: "covered_by est est"
  by (simp add: covered_by_def budgetKeys_def)

lemma find_update:
  "(\<And>x. p (f x) = p x) \<Longrightarrow> List.find p (update_rows p f xs) = map_option f (List.find p xs)"
  by (induction xs) (simp_all add: update_rows_def)

lemma find_append: "List.find p (xs @ ys) = (case List.find p xs of None \<Rightarrow> List.find p ys | Some x \<Rightarrow> Some x)"
  by (induction xs) simp_all

lemma settle_cases:
  assumes "settleBudget rid c s = (r, s')"
  shows "s' = s \<and> (\<exists>e. r = Inl e) \<or> (\<exists>x. r = Inr () \<and> nt_sent s' = nt_sent s \<and> find_reservation rid s = Some x
    \<and> br_status x = RESERVED \<and> covered_by c (br_estimate x) \<and> settled_call rid (br_estimate x) s')"
proof (cases r)
  case (Inl e)
  then show ?thesis using assms by (auto simp: settleBudget_def act_simps)
next
  case (Inr u)
  have "settleBudget rid c s = (Inr (), s')" using assms Inr by simp
  then obtain x t where x: "find_reservation rid s = Some x" "br_status x = RESERVED" "covered_by c (br_estimate x)"
    and s': "nt_sent s' = nt_sent s" "db_reservations s' = update_rows (\<lambda>x. br_reservationId x = rid)
        (\<lambda>x. x\<lparr>br_status := SETTLED, br_actual := Some c, br_settledAt := Some t\<rparr>) (db_reservations s)"
    by (auto simp: settleBudget_def act_simps set_account_def now_def covered_by_def split: option.splits)
  have "settled_call rid (br_estimate x) s'"
    using x unfolding settled_call_def find_reservation_def s' by (simp add: find_update)
  then show ?thesis using x s' Inr by simp
qed

lemma settle_open:
  assumes "open_reservation rid est s" and "covered_by c est"
  shows "\<exists>s'. settleBudget rid c s = (Inr (), s')"
  using assms
  by (auto simp: settleBudget_def open_reservation_def covered_by_def transaction_def seq_act_def bind_act_def
      set_account_def now_def split: option.splits prod.splits sum.splits)

lemma settle_settled: "settled_call rid est s \<Longrightarrow> \<exists>e. settleBudget rid c s = (Inl e, s)"
  by (auto simp: settleBudget_def settled_call_def transaction_def seq_act_def bind_act_def split: option.splits)

lemma reserve_opens:
  assumes "reserve_call d cid rid est s = (Inr (), s')"
  shows "open_reservation rid est s' \<and> nt_sent s' = nt_sent s \<and> \<not> has_key br_reservationId rid (db_reservations s)"
proof -
  let ?k = "(dep_task d, td_epochId d, td_owner d)"
  have "reserveBudget rid ?k est s = (Inr (), s')"
    using assms by (auto simp: reserve_call_def catch_act_def act_simps split: prod.splits sum.splits)
  then obtain a t where a: "find_account ?k s = Some a" "\<not> has_key br_reservationId rid (db_reservations s)"
    and s': "nt_sent s' = nt_sent s"
      "db_accounts s' = update_rows (\<lambda>a. account_key a = ?k) (\<lambda>a'. a'\<lparr>ba_reserved := addCost (ba_reserved a) est\<rparr>) (db_accounts s)"
      "db_reservations s' = db_reservations s @ [\<lparr>br_reservationId = rid, br_taskId = dep_task d,
        br_epochId = td_epochId d, br_owner = td_owner d, br_status = RESERVED, br_estimate = est, br_actual = None,
        br_createdAt = t, br_settledAt = None\<rparr>]"
    by (auto simp: reserveBudget_def insert_reservation_def act_simps set_account_def now_def split: option.splits)
  have "List.find (\<lambda>r. br_reservationId r = rid) (db_reservations s) = None"
    using a(2) by (auto simp: find_None_iff has_key_def)
  then have "find_reservation rid s' = Some \<lparr>br_reservationId = rid, br_taskId = dep_task d,
        br_epochId = td_epochId d, br_owner = td_owner d, br_status = RESERVED, br_estimate = est, br_actual = None,
        br_createdAt = t, br_settledAt = None\<rparr>"
    by (simp add: find_reservation_def s' find_append)
  moreover have "\<exists>a'. find_account ?k s' = Some a'"
    using a(1) by (simp add: find_account_def s' find_update account_key_def)
  ultimately show ?thesis using a(2) s'(1) by (auto simp: open_reservation_def reservation_key_def)
qed

lemma call_target_metered:
  assumes put: "\<And>q. obeys (same kept) (putStream q)"
    and r: "call_target wireDigest putStream d verb cid params b req s = (r, s')"
    and opened: "open_reservation (wq_reservationId req) (wq_estimate req) s"
  shows "nt_sent s' = nt_sent s @ [req] \<and> (settled_call (wq_reservationId req) (wq_estimate req) s'
    \<or> open_reservation (wq_reservationId req) (wq_estimate req) s' \<and> (\<exists>e. r = Inl e))"
proof -
  let ?s = "s\<lparr>nt_sent := nt_sent s @ [req]\<rparr>"
  have o: "open_reservation (wq_reservationId req) (wq_estimate req) ?s"
    using opened by (simp add: open_reservation_def find_reservation_def find_account_def)
  show ?thesis
  proof (cases "nt_replies s (length (nt_sent s))")
    case (Inl e)
    then show ?thesis using r o by (auto simp: call_target_def invokeV2_def bind_act_def)
  next
    case (Inr reply)
    obtain res t where st: "settleBudget (wq_reservationId req) (wr_cost reply) ?s = (res, t)" by fastforce
    have run: "call_target wireDigest putStream d verb cid params b req s =
        seq_act (lift_result (assertCostWithinReservation (wr_cost reply) (wq_estimate req)))
          (seq_act (settleBudget (wq_reservationId req) (wr_cost reply))
            (case wr_body reply of Wire_error code \<Rightarrow> throw_act (wireFailure code)
             | Wire_success w \<Rightarrow> keep_answer wireDigest putStream d verb cid params b reply w)) ?s"
      using Inr by (simp add: call_target_def invokeV2_def bind_act_def)
    show ?thesis
    proof (cases "assertCostWithinReservation (wr_cost reply) (wq_estimate req)")
      case (Inl e)
      then show ?thesis using r o unfolding run by (auto simp: lift_result_def seq_act_def bind_act_def)
    next
      case (Inr u)
      have r2: "seq_act (settleBudget (wq_reservationId req) (wr_cost reply))
            (case wr_body reply of Wire_error code \<Rightarrow> throw_act (wireFailure code)
             | Wire_success w \<Rightarrow> keep_answer wireDigest putStream d verb cid params b reply w) ?s = (r, s')"
        using r Inr unfolding run by (auto simp: lift_result_def seq_act_def bind_act_def)
      from settle_cases [OF st] show ?thesis
      proof (elim disjE exE conjE)
        fix e assume "t = ?s" "res = Inl e"
        then show ?thesis using r2 st o by (auto simp: seq_act_def bind_act_def)
      next
        fix x assume x: "res = Inr ()" "nt_sent t = nt_sent ?s" "find_reservation (wq_reservationId req) ?s = Some x"
          "settled_call (wq_reservationId req) (br_estimate x) t"
        have est: "br_estimate x = wq_estimate req" using o x(3) by (auto simp: open_reservation_def)
        have "kept s' = kept t"
        proof (cases "wr_body reply")
          case (Wire_error code)
          then show ?thesis using r2 st x(1) by (auto simp: seq_act_def bind_act_def)
        next
          case (Wire_success w)
          then have "keep_answer wireDigest putStream d verb cid params b reply w t = (r, s')"
            using r2 st x(1) by (auto simp: seq_act_def bind_act_def)
          then show ?thesis by (rule obeys_sameD [OF kept_keep_answer [OF put]])
        qed
        then show ?thesis using x est sent_kept [of s' t] budget_kept(2) [of s' t] by simp
      qed
    qed
  qed
qed

lemma perform_call_metered:
  assumes put: "\<And>q. obeys (same kept) (putStream q)"
    and r: "perform_call wireDigest putStream d verb cid params s = (r, s')"
  shows "nt_sent s' = nt_sent s \<or> (\<exists>b rid t. build_request verb d params s = (Inr b, t)
    \<and> nt_sent s' = nt_sent s @ [request_of d verb cid rid b]
    \<and> \<not> has_key br_reservationId rid (db_reservations s)
    \<and> settled_call rid (estimateRemoteCost verb (Obj (bp_row b))) s')"
proof (cases "build_request verb d params s")
  case (Pair rb t)
  have kt: "kept t = kept s" using Pair by (rule obeys_sameD [OF kept_build_request])
  show ?thesis
  proof (cases rb)
    case (Inl e)
    then show ?thesis using r Pair sent_kept [OF kt] by (simp add: perform_call_def bind_act_def)
  next
    case (Inr b)
    define rid where "rid = ''BRES-'' @ uuid_tape t (uuid_pos t)"
    define req where "req = request_of d verb cid rid b"
    let ?start = "startToolRun (te_digest d) (tool_run_of d cid (verb_name verb) (verb_risk verb) (verb_policy verb) params)"
    obtain ru t1 where t1: "?start (t\<lparr>uuid_pos := Suc (uuid_pos t)\<rparr>) = (ru, t1)" by fastforce
    have k1: "kept t1 = kept s"
      using obeys_sameD [OF kept_startToolRun t1] kt by (simp add: kept_def)
    have run: "perform_call wireDigest putStream d verb cid params s = bind_act ?start (\<lambda>_.
        seq_act (reserve_call d cid rid (wq_estimate req))
          (catch_act (call_target wireDigest putStream d verb cid params b req)
            (\<lambda>e. seq_act (attempt (settleBudget rid (wq_estimate req))) (seq_act (fail_run d cid e) (throw_act e)))))
        (t\<lparr>uuid_pos := Suc (uuid_pos t)\<rparr>)"
      using Pair Inr by (simp add: perform_call_def bind_act_def next_uuid_def rid_def req_def Let_def)
    show ?thesis
    proof (cases ru)
      case (Inl e)
      then show ?thesis using r t1 sent_kept [OF k1] unfolding run by (simp add: bind_act_def)
    next
      case ru: (Inr u)
      obtain rr t2 where t2: "reserve_call d cid rid (wq_estimate req) t1 = (rr, t2)" by fastforce
      have r2: "seq_act (reserve_call d cid rid (wq_estimate req))
          (catch_act (call_target wireDigest putStream d verb cid params b req)
            (\<lambda>e. seq_act (attempt (settleBudget rid (wq_estimate req))) (seq_act (fail_run d cid e) (throw_act e)))) t1 = (r, s')"
        using r t1 ru unfolding run by (simp add: bind_act_def)
      show ?thesis
      proof (cases rr)
        case (Inl e)
        then have "nt_sent t2 = nt_sent t1"
          using t2 by (auto simp: reserve_call_def catch_act_def settle_cases reserveBudget_def transaction_def
              split: prod.splits sum.splits dest!: obeys_sameD [OF kept_finishToolRun, THEN sent_kept]
                obeys_sameD [OF obeys_seq [OF transp_same kept_finishToolRun obeys_seq [OF transp_same kept_recordGap obeys_throw [OF reflp_same]]], THEN sent_kept])
        then show ?thesis using r2 t2 Inl sent_kept [OF k1] by (simp add: seq_act_def bind_act_def)
      next
        case rr: (Inr u')
        have o: "open_reservation rid (wq_estimate req) t2" "nt_sent t2 = nt_sent t1"
          "\<not> has_key br_reservationId rid (db_reservations t1)"
          using reserve_opens [of d cid rid "wq_estimate req" t1 t2] t2 rr by auto
        obtain rc t3 where t3: "call_target wireDigest putStream d verb cid params b req t2 = (rc, t3)" by fastforce
        have rq: "wq_reservationId req = rid" "wq_estimate req = estimateRemoteCost verb (Obj (bp_row b))"
          by (simp_all add: req_def request_of_def Let_def)
        have m: "nt_sent t3 = nt_sent t2 @ [req]" "settled_call rid (wq_estimate req) t3
            \<or> open_reservation rid (wq_estimate req) t3 \<and> (\<exists>e. rc = Inl e)"
          using call_target_metered [OF put t3] o(1) rq(1) by auto
        have r3: "(case rc of Inr x \<Rightarrow> (Inr x, t3) | Inl e \<Rightarrow>
            seq_act (attempt (settleBudget rid (wq_estimate req))) (seq_act (fail_run d cid e) (throw_act e)) t3) = (r, s')"
          using r2 t2 rr t3 by (cases rc) (auto simp: act_step_seq catch_act_def)
        have "nt_sent s' = nt_sent t3 \<and> settled_call rid (wq_estimate req) s'"
        proof (cases rc)
          case (Inr x)
          then show ?thesis using r3 m(2) by auto
        next
          case (Inl e)
          obtain ra t4 where t4: "settleBudget rid (wq_estimate req) t3 = (ra, t4)" by fastforce
          have t4': "nt_sent t4 = nt_sent t3 \<and> settled_call rid (wq_estimate req) t4"
            using m(2)
          proof (elim disjE conjE)
            assume "settled_call rid (wq_estimate req) t3"
            then show ?thesis using settle_settled [of rid "wq_estimate req" t3 "wq_estimate req"] t4 by auto
          next
            assume op: "open_reservation rid (wq_estimate req) t3"
            then obtain t' where "settleBudget rid (wq_estimate req) t3 = (Inr (), t')"
              using settle_open [OF op covered_by_refl] by blast
            then show ?thesis using settle_cases [OF t4] t4 op by (auto simp: open_reservation_def)
          qed
          have "attempt (settleBudget rid (wq_estimate req)) t3 = (Inr (), t4)"
            using t4 by (auto simp: attempt_def catch_act_def split: sum.splits)
          then have "seq_act (fail_run d cid e) (throw_act e) t4 = (r, s')"
            using r3 Inl by (simp add: seq_act_def bind_act_def)
          then have "kept s' = kept t4"
            by (rule obeys_sameD [OF obeys_seq [OF transp_same kept_fail_run obeys_throw [OF reflp_same]]])
          then show ?thesis using t4' sent_kept [of s' t4] budget_kept(2) [of s' t4] by simp
        qed
        moreover have "\<not> has_key br_reservationId rid (db_reservations s)"
          using o(3) k1 by (simp add: kept_def)
        ultimately show ?thesis
          using Pair Inr m(1) o(2) sent_kept [OF k1] rq(2) by (auto simp: req_def)
      qed
    qed
  qed
qed


section \<open>The queue\<close>

lemma tables_invoke: "obeys (same tables) (invokeV2 req)"
  by (simp add: obeys_def same_def invokeV2_def tables_def)

lemma tables_settle_budget: "obeys (same tables) (settleBudget rid c)"
  unfolding settleBudget_def set_account_def
  by (intro obeys_intros kept_tables [OF kept_now]) (simp_all add: same_def tables_def)

lemma tables_reserve_budget: "obeys (same tables) (reserveBudget rid k c)"
  unfolding reserveBudget_def set_account_def insert_reservation_def
  by (intro obeys_intros kept_tables [OF kept_now]) (simp_all add: same_def tables_def)

lemma tables_reserve_call: "obeys (same tables) (reserve_call d cid rid est)"
  unfolding reserve_call_def
  by (intro obeys_intros tables_reserve_budget kept_tables [OF kept_finishToolRun] kept_tables [OF kept_recordGap])

lemma tables_call_target:
  assumes "\<And>q. obeys (same kept) (putStream q)"
  shows "obeys (same tables) (call_target wireDigest putStream d verb cid params b req)"
proof -
  have "obeys (same tables) (case wr_body reply of Wire_error code \<Rightarrow> throw_act (wireFailure code)
      | Wire_success w \<Rightarrow> keep_answer wireDigest putStream d verb cid params b reply w)" for reply
    by (cases "wr_body reply") (auto intro!: obeys_intros kept_tables [OF kept_keep_answer] assms)
  then show ?thesis unfolding call_target_def
    by (intro obeys_intros tables_invoke tables_settle_budget kept_tables [OF kept_lift])
qed

lemma tables_remote_tool:
  assumes "\<And>q. obeys (same kept) (putStream q)"
  shows "obeys (same tables) (remote_tool wireDigest putStream d verb cid params)"
proof -
  have "obeys (same tables) (perform_call wireDigest putStream d verb cid params)"
    unfolding perform_call_def attempt_def Let_def
    by (intro obeys_intros tables_reserve_call tables_call_target assms tables_settle_budget
        kept_tables [OF kept_build_request] kept_tables [OF kept_uuid] kept_tables [OF kept_startToolRun] kept_tables [OF kept_fail_run])
  then show ?thesis unfolding remote_tool_def by (intro obeys_intros)
qed

section \<open>A read the target refuses\<close>

definition sample_reply :: wire_reply where
  "sample_reply = \<lparr>wr_cost = \<lparr>wc_remoteCalls = 1, wc_nodes = 1, wc_bytes = 10, wc_wallTimeMs = 5, wc_probeCalls = None\<rparr>,
     wr_body = Wire_error ''STALE_REF''\<rparr>"

definition sample_target :: net where
  "sample_target = db.extend ((file_store ''/etc/hostname'')\<lparr>db_accounts := [\<lparr>ba_taskId = ''T1'', ba_epochId = ''E1'',
       ba_owner = OWN_MODEL, ba_limits = \<lparr>wc_remoteCalls = 9, wc_nodes = 9, wc_bytes = 2000000, wc_wallTimeMs = 70000,
         wc_probeCalls = None\<rparr>, ba_used = zero_cost, ba_reserved = zero_cost\<rparr>]\<rparr>)
     (net.fields [] (\<lambda>_. Inr sample_reply))"

definition no_evidence :: "evidence_request \<Rightarrow> (net, evidence) act" where
  "no_evidence q = throw_act Plain_error"

definition sample_read :: "(err + js) \<times> net" where
  "sample_read = remote_tool (\<lambda>_. ''w'') no_evidence sample_deps V_read ''call''
     (Obj [(''ref'', Str ''OBJ-x''), (''length'', js_nat 10)]) sample_target"


lemma sample_read_sends: "length (nt_sent (snd sample_read)) = 1"
  by code_simp

lemma sample_target_fresh: "nt_sent sample_target = []"
  by (simp add: sample_target_def net.defs db.defs)

lemma kept_no_evidence: "obeys (same kept) (no_evidence q)"
  unfolding no_evidence_def by (intro obeys_intros)


end
