(* ===== verification/WriteTool.thy ===== *)
theory WriteTool
  imports RemoteTool
begin

text \<open>
  \<open>writeTool\<close>, \<open>createQuarantineFileTool\<close> and \<open>createDisableAccountTool\<close> of \<open>src/tools/v2/tools.ts\<close>:
  the two tools that change the target. What the maintenance channel of the target was sent and
  what it answers is a state of its own beside the store. The hook \<open>checkpoint\<close> of the tests is left out.
\<close>

section \<open>The maintenance channel\<close>

record maint_request =
  mq_verb :: string
  mq_requestId :: id
  mq_epochId :: id
  mq_deadlineMs :: rat
  mq_reservationId :: id
  mq_estimate :: wire_cost
  mq_mode :: string
  mq_actionId :: id
  mq_argsDigest :: string
  mq_wireArgsDigest :: string
  mq_action :: js

record write_net = net +
  nw_sent :: "maint_request list"
  nw_replies :: "nat \<Rightarrow> err + js"

definition invokeMaintenanceV2 :: "maint_request \<Rightarrow> ('a write_net_scheme, js) act" where
  "invokeMaintenanceV2 req = (\<lambda>s. (nw_replies s (length (nw_sent s)), s\<lparr>nw_sent := nw_sent s @ [req]\<rparr>))"

definition write_request :: "tool_deps \<Rightarrow> string \<Rightarrow> approval_ticket \<Rightarrow> js \<Rightarrow> maint_request" where
  "write_request d verb ticket action = (let rid = ap_actionId ticket @ '':WRITE'' in
     \<lparr>mq_verb = verb, mq_requestId = rid, mq_epochId = td_epochId d, mq_deadlineMs = 55000, mq_reservationId = rid,
      mq_estimate = \<lparr>wc_remoteCalls = 1, wc_nodes = 1, wc_bytes = 65536, wc_wallTimeMs = 55000, wc_probeCalls = Some 0\<rparr>,
      mq_mode = ''REMEDIATE'', mq_actionId = ap_actionId ticket, mq_argsDigest = ap_argsDigest ticket,
      mq_wireArgsDigest = te_digest d action, mq_action = action\<rparr>)"

definition invokeWrite :: "tool_deps \<Rightarrow> string \<Rightarrow> approval_ticket \<Rightarrow> js \<Rightarrow> ('a write_net_scheme, js) act" where
  "invokeWrite d verb ticket action = invokeMaintenanceV2 (write_request d verb ticket action)"

section \<open>What is asked of the target\<close>

text \<open>A file is moved only on evidence of its complete content, a path and the inode it was observed under.\<close>

definition quarantine_action ::
  "tool_deps \<Rightarrow> js \<Rightarrow> approval_ticket \<Rightarrow> 'a fact_db_scheme \<Rightarrow> err + js" where
  "quarantine_action d params ticket s = (case getEvidence (dep_task d) (arg_string params ''evidenceRef'') s of
       None \<Rightarrow> Inl (Security_error EVIDENCE_COLLECTION)
     | Some e \<Rightarrow> if nonempty (ev_sha256 e) = None \<or> member (ev_metadata e) ''complete'' \<noteq> Bool True
           \<or> \<not> is_string (member (ev_metadata e) ''subjectRef'') then Inl (Security_error EVIDENCE_COLLECTION)
         else case resolveObject d (arg_string (ev_metadata e) ''subjectRef'') (Some NS_file) s of Inl err \<Rightarrow> Inl err
           | Inr b \<Rightarrow> Inr (Obj [(''actionId'', Str (ap_actionId ticket)), (''path'', Str (ev_source e)),
               (''expectedSha256'', js_id (ev_sha256 e)), (''expectedDevice'', get_prop (bn_identity b) ''device''),
               (''expectedInode'', get_prop (bn_identity b) ''inode''), (''quarantineRoot'', Str (td_quarantineRoot d))]))"

definition account_action ::
  "tool_deps \<Rightarrow> js \<Rightarrow> approval_ticket \<Rightarrow> 'a fact_db_scheme \<Rightarrow> err + js" where
  "account_action d params ticket s = (case resolveObject d (arg_string params ''accountRef'') (Some NS_account) s of Inl err \<Rightarrow> Inl err
     | Inr _ \<Rightarrow> case latestPrivateFact d (arg_string params ''accountRef'') s of Inl err \<Rightarrow> Inl err
     | Inr account \<Rightarrow> let username = get_prop account ''username''; executor = tg_username (tc_target (td_task d)) in
         if \<not> is_string username then Inl Invalid_argument
         else if username = Str ''root'' \<or> username = Str executor then Inl (Security_error PERMISSION_DENIED)
         else Inr (Obj [(''actionId'', Str (ap_actionId ticket)), (''username'', username), (''executorUsername'', Str executor)]))"

datatype write_tool_name = W_quarantine_file | W_disable_account

fun write_name :: "write_tool_name \<Rightarrow> string" where
  "write_name W_quarantine_file = ''quarantine_file''"
| "write_name W_disable_account = ''disable_account''"

fun write_action :: "write_tool_name \<Rightarrow> tool_deps \<Rightarrow> js \<Rightarrow> approval_ticket \<Rightarrow> 'a fact_db_scheme \<Rightarrow> err + js" where
  "write_action W_quarantine_file = quarantine_action"
| "write_action W_disable_account = account_action"

definition run_write :: "tool_deps \<Rightarrow> write_tool_name \<Rightarrow> js \<Rightarrow> approval_ticket \<Rightarrow> ('a write_net_scheme, js) act" where
  "run_write d w params ticket = bind_act (gate (write_action w d params ticket)) (\<lambda>action.
     invokeWrite d (write_name w) ticket action)"

section \<open>The tool\<close>

definition started_receipt :: "tool_deps \<Rightarrow> write_tool_name \<Rightarrow> approval_ticket \<Rightarrow> time \<Rightarrow> action_receipt" where
  "started_receipt d w ticket t = \<lparr>rc_actionId = ap_actionId ticket, rc_taskId = dep_task d, rc_epochId = Some (td_epochId d),
     rc_tool = write_name w, rc_targetFingerprint = dep_host d, rc_status = RC_STARTED, rc_result = Undefined,
     rc_startedAt = t, rc_finishedAt = None\<rparr>"

definition close_receipt :: "action_receipt \<Rightarrow> receipt_status \<Rightarrow> js \<Rightarrow> ('a control_db_scheme, unit) act" where
  "close_receipt started status result = bind_act now (\<lambda>t.
     putActionReceipt (started\<lparr>rc_status := status, rc_result := result, rc_finishedAt := Some t\<rparr>))"

definition remote_succeeded :: "js \<Rightarrow> bool" where
  "remote_succeeded remote \<longleftrightarrow> strict_eq (member remote ''status'') (Str ''SUCCEEDED'')"

definition write_details :: "approval_ticket \<Rightarrow> js" where
  "write_details ticket = Obj [(''status'', Str ''success''), (''actionId'', Str (ap_actionId ticket))]"

definition write_audit :: "approval_ticket \<Rightarrow> js" where
  "write_audit ticket = Obj [(''actionId'', Str (ap_actionId ticket)), (''approvalId'', Str (ap_approvalId ticket)),
     (''status'', Str ''SUCCEEDED'')]"

definition finish_write ::
  "tool_deps \<Rightarrow> write_tool_name \<Rightarrow> id \<Rightarrow> approval_ticket \<Rightarrow> action_receipt \<Rightarrow> js \<Rightarrow> ('a control_db_scheme, js) act" where
  "finish_write d w cid ticket started remote =
     seq_act (close_receipt started (if remote_succeeded remote then RC_SUCCEEDED else RC_FAILED) remote)
    (seq_act (require (remote_succeeded remote) (Security_error EVIDENCE_COLLECTION))
    (let result = modelToolResult d (write_details ticket) in
     seq_act (finishToolRun cid TR_SUCCEEDED result None)
    (bind_act (appendAudit (Some (dep_task d)) (''v2_'' @ write_name w) Warn (write_audit ticket)) (\<lambda>_. return_act result))))"

definition uncertain :: "err \<Rightarrow> bool" where
  "uncertain e \<longleftrightarrow> e \<in> {Security_error RECOVERY_UNCERTAIN, Security_error TOOL_TIMEOUT, Security_error TARGET_UNAVAILABLE}"

definition fail_write :: "tool_deps \<Rightarrow> id \<Rightarrow> action_receipt \<Rightarrow> err \<Rightarrow> ('a control_db_scheme, 'r) act" where
  "fail_write d cid started e =
     seq_act (close_receipt started (if uncertain e then RC_UNKNOWN else RC_FAILED) (Obj [(''error'', Str (err_text e))]))
    (seq_act (fail_run d cid e) (throw_act e))"

definition perform_write ::
  "tool_deps \<Rightarrow> write_tool_name \<Rightarrow> id \<Rightarrow> js \<Rightarrow> approval_ticket \<Rightarrow> ('a write_net_scheme, js) act" where
  "perform_write d w cid params ticket = bind_act now (\<lambda>t.
     let started = started_receipt d w ticket t in
     seq_act (putActionReceipt started)
       (catch_act (bind_act (run_write d w params ticket) (finish_write d w cid ticket started)) (fail_write d cid started)))"

definition write_tool :: "tool_deps \<Rightarrow> write_tool_name \<Rightarrow> id \<Rightarrow> js \<Rightarrow> ('a write_net_scheme, js) act" where
  "write_tool d w cid params =
     seq_act (require (tc_mode (td_task d) = REMEDIATE \<and> write_name w \<in> set (td_allowedTools d)) (Security_error PERMISSION_DENIED))
    (bind_act (approval_consume (te_digest d) (td_task d) (write_name w) params) (\<lambda>found. case found of
       None \<Rightarrow> throw_act (Security_error APPROVAL_REQUIRED)
     | Some ticket \<Rightarrow> perform_write d w cid params ticket))"


section \<open>Receipts\<close>

lemma find_filter: "List.find p (filter q xs) = List.find (\<lambda>x. q x \<and> p x) xs"
  by (induction xs) auto

lemma find_nothing: "List.find (\<lambda>x. False) xs = None"
  by (induction xs) auto

lemma put_receipt:
  "putActionReceipt r s = (if has_key tc_taskId (rc_taskId r) (db_tasks s)
     then (Inr (), s\<lparr>clock_pos := Suc (clock_pos s), db_receipts := replace_row rc_actionId r (db_receipts s)\<rparr>)
     else (Inl Constraint_error, s\<lparr>clock_pos := Suc (clock_pos s)\<rparr>))"
  by (simp add: putActionReceipt_def act_unfold now_def)

text \<open>What finishing a call changes: times, ids, receipts, tool runs and the audit log.\<close>

definition beside_receipts :: "'a write_net_scheme \<Rightarrow> (approval_ticket list \<times> task_context list) \<times> maint_request list \<times> (nat \<Rightarrow> err + js)" where
  "beside_receipts s = ((db_approvals s, db_tasks s), nw_sent s, nw_replies s)"

lemma close_receipt_step:
  assumes "has_key tc_taskId (rc_taskId started) (db_tasks s)"
  shows "\<exists>s'. close_receipt started status result s = (Inr (), s') \<and> beside_receipts s' = beside_receipts s
    \<and> map_option rc_status (getActionReceipt (rc_actionId started) s') = Some status
    \<and> (audit_inv s \<longrightarrow> audit_inv s')"
  using assms
  by (simp add: close_receipt_def act_unfold now_def put_receipt beside_receipts_def getActionReceipt_def replace_row_def
      find_append find_filter find_nothing audit_inv_def issued_def)


definition receipt_status_of :: "id \<Rightarrow> 'a control_db_scheme \<Rightarrow> receipt_status option" where
  "receipt_status_of aid s = map_option rc_status (getActionReceipt aid s)"

text \<open>What the tickets, the receipts and the channel show does not depend on the rest of the store.\<close>

definition write_view :: "'a write_net_scheme \<Rightarrow> (approval_ticket list \<times> action_receipt list) \<times> maint_request list \<times> (nat \<Rightarrow> err + js)" where
  "write_view s = ((db_approvals s, db_receipts s), nw_sent s, nw_replies s)"

lemma write_view_kept:
  assumes "kept s' = kept s"
  shows "write_view s' = write_view s"
proof -
  have "db.more s' = db.more s" using assms by (simp add: kept_def)
  then have "nw_sent s' = nw_sent s" "nw_replies s' = nw_replies s" by (cases s; cases s'; simp)+
  then show ?thesis using assms by (simp add: kept_def write_view_def)
qed

lemma view_of:
  assumes "write_view s' = write_view s"
  shows "nw_sent s' = nw_sent s" "db_approvals s' = db_approvals s" "receipt_status_of aid s' = receipt_status_of aid s"
    "find_ticket t s' = find_ticket t s"
  using assms by (simp_all add: write_view_def receipt_status_of_def getActionReceipt_def find_ticket_def)

lemma finish_run_view: "\<exists>s'. finishToolRun cid st res err s = (Inr (), s') \<and> write_view s' = write_view s \<and> (audit_inv s \<longrightarrow> audit_inv s')"
  by (simp add: finishToolRun_def act_unfold now_def write_view_def audit_inv_def issued_def)

lemma fail_run_view: "\<exists>s'. fail_run d cid e s = (Inr (), s') \<and> write_view s' = write_view s"
  using finish_run_view [of cid TR_FAILED Undefined "Some (err_text e)" s]
  by (auto simp: fail_run_def bind_act_def read_act_def)

lemma audit_view:
  assumes "audit_inv s"
  shows "\<exists>v s'. appendAudit tid ev l data s = (Inr v, s') \<and> write_view s' = write_view s"
  using appendAudit_total [OF assms, of tid ev l data] by (auto simp: write_view_def)

lemma fail_write_result:
  assumes "has_key tc_taskId (rc_taskId started) (db_tasks s)" and "fail_write d cid started e s = (r, s')"
  shows "r = Inl e \<and> nw_sent s' = nw_sent s \<and> db_approvals s' = db_approvals s
    \<and> receipt_status_of (rc_actionId started) s' = Some (if uncertain e then RC_UNKNOWN else RC_FAILED)"
proof -
  obtain s1 where c: "close_receipt started (if uncertain e then RC_UNKNOWN else RC_FAILED) (Obj [(''error'', Str (err_text e))]) s = (Inr (), s1)"
    "beside_receipts s1 = beside_receipts s"
    "receipt_status_of (rc_actionId started) s1 = Some (if uncertain e then RC_UNKNOWN else RC_FAILED)"
    using close_receipt_step [OF assms(1)] unfolding receipt_status_of_def by metis
  obtain s2 where f: "fail_run d cid e s1 = (Inr (), s2)" "write_view s2 = write_view s1" using fail_run_view by metis
  have "r = Inl e \<and> s' = s2" using assms(2) c(1) f(1) by (auto simp: fail_write_def act_unfold)
  then show ?thesis using c(2,3) f(2) view_of [of s2 s1] by (simp add: beside_receipts_def)
qed

lemma finish_write_step:
  assumes "has_key tc_taskId (rc_taskId started) (db_tasks s)" and "audit_inv s"
  shows "\<exists>r s'. finish_write d w cid ticket started remote s = (r, s') \<and> nw_sent s' = nw_sent s \<and> db_approvals s' = db_approvals s
    \<and> (if remote_succeeded remote then (\<exists>x. r = Inr x) \<and> receipt_status_of (rc_actionId started) s' = Some RC_SUCCEEDED
       else r = Inl (Security_error EVIDENCE_COLLECTION) \<and> db_tasks s' = db_tasks s)"
proof -
  let ?st = "if remote_succeeded remote then RC_SUCCEEDED else RC_FAILED"
  let ?res = "modelToolResult d (write_details ticket)"
  obtain s1 where c: "close_receipt started ?st remote s = (Inr (), s1)" "beside_receipts s1 = beside_receipts s"
    "receipt_status_of (rc_actionId started) s1 = Some ?st" "audit_inv s1"
    using close_receipt_step [OF assms(1)] assms(2) unfolding receipt_status_of_def by metis
  show ?thesis
  proof (cases "remote_succeeded remote")
    case False
    then show ?thesis using c by (simp add: finish_write_def act_unfold beside_receipts_def)
  next
    case True
    obtain s2 where f: "finishToolRun cid TR_SUCCEEDED ?res None s1 = (Inr (), s2)" "write_view s2 = write_view s1" "audit_inv s2"
      using finish_run_view [of cid TR_SUCCEEDED ?res None s1] c(4) by auto
    obtain v s3 where a: "appendAudit (Some (dep_task d)) (''v2_'' @ write_name w) Warn (write_audit ticket) s2 = (Inr v, s3)"
      "write_view s3 = write_view s2" using audit_view [OF f(3)] by blast
    have "write_view s3 = write_view s1" using a(2) f(2) by simp
    then show ?thesis using True c f(1) a(1) view_of [of s3 s1]
      by (simp add: finish_write_def act_unfold beside_receipts_def Let_def)
  qed
qed


section \<open>The call as a whole\<close>

definition status_of_reply :: "err + js \<Rightarrow> receipt_status" where
  "status_of_reply reply = (case reply of Inr remote \<Rightarrow> (if remote_succeeded remote then RC_SUCCEEDED else RC_FAILED)
     | Inl e \<Rightarrow> if uncertain e then RC_UNKNOWN else RC_FAILED)"

lemma latest_frame:
  assumes "db_facts s' = db_facts s"
  shows "latestPrivateFact d ref s' = latestPrivateFact d ref s"
  using assms by (simp add: latestPrivateFact_def all_facts_def listFacts_def)

lemma resolve_frame:
  assumes "db_objects s' = db_objects s" and "db_facts s' = db_facts s"
  shows "resolveObject d ref ns s' = resolveObject d ref ns s"
  using assms(1) latest_frame [OF assms(2)] by (simp only: resolveObject_def getObjectReference_def)

lemma write_action_frame:
  assumes "db_evidence s' = db_evidence s" and "db_objects s' = db_objects s" and "db_facts s' = db_facts s"
  shows "write_action w d params ticket s' = write_action w d params ticket s"
  using assms(1) latest_frame [OF assms(3)] resolve_frame [OF assms(2,3)]
  by (cases w) (simp_all only: write_action.simps quarantine_action_def account_action_def getEvidence_def)

lemma consume_frame:
  assumes "approval_consume digest task tool params s = (r, s1)"
  shows "nw_sent s1 = nw_sent s \<and> nw_replies s1 = nw_replies s \<and> db_tasks s1 = db_tasks s \<and> (audit_inv s \<longrightarrow> audit_inv s1)
    \<and> db_evidence s1 = db_evidence s \<and> db_objects s1 = db_objects s \<and> db_facts s1 = db_facts s"
  using assms by (auto simp: approval_consume_def updateApproval_def putApproval_def act_unfold now_def Let_def audit_inv_def issued_def
      split: option.splits if_splits)

lemma run_write_step:
  "run_write d w params ticket s = (case write_action w d params ticket s of Inl e \<Rightarrow> (Inl e, s)
     | Inr action \<Rightarrow> (nw_replies s (length (nw_sent s)), s\<lparr>nw_sent := nw_sent s @ [write_request d (write_name w) ticket action]\<rparr>))"
  by (simp add: run_write_def bind_act_def gate_def invokeWrite_def invokeMaintenanceV2_def split: sum.splits)

lemma bind_now: "bind_act now f s = f (clock_tape s (clock_pos s)) (s\<lparr>clock_pos := Suc (clock_pos s)\<rparr>)"
  by (simp add: bind_act_def now_def)

lemma seq_receipt:
  "seq_act (putActionReceipt r) m s = (if has_key tc_taskId (rc_taskId r) (db_tasks s)
     then m (s\<lparr>clock_pos := Suc (clock_pos s), db_receipts := replace_row rc_actionId r (db_receipts s)\<rparr>)
     else (Inl Constraint_error, s\<lparr>clock_pos := Suc (clock_pos s)\<rparr>))"
  by (simp add: seq_act_def bind_act_def put_receipt)

lemma started_ids: "rc_actionId (started_receipt d w ticket t) = ap_actionId ticket" "rc_taskId (started_receipt d w ticket t) = dep_task d"
  by (simp_all add: started_receipt_def)

lemma perform_write_step:
  assumes "audit_inv s" and "perform_write d w cid params ticket s = (r, s')"
  shows "db_approvals s' = db_approvals s \<and> (nw_sent s' = nw_sent s \<and> (\<exists>e. r = Inl e)
    \<or> (\<exists>action. write_action w d params ticket s = Inr action
      \<and> nw_sent s' = nw_sent s @ [write_request d (write_name w) ticket action]
      \<and> receipt_status_of (ap_actionId ticket) s' = Some (status_of_reply (nw_replies s (length (nw_sent s))))
      \<and> (\<exists>x. r = Inr x) = (status_of_reply (nw_replies s (length (nw_sent s))) = RC_SUCCEEDED)))"
proof -
  define started where "started = started_receipt d w ticket (clock_tape s (clock_pos s))"
  have st: "rc_actionId started = ap_actionId ticket" "rc_taskId started = dep_task d"
    by (simp_all add: started_def started_ids)
  define s1 where "s1 = s\<lparr>clock_pos := Suc (Suc (clock_pos s)), db_receipts := replace_row rc_actionId started (db_receipts s)\<rparr>"
  let ?body = "catch_act (bind_act (run_write d w params ticket) (finish_write d w cid ticket started)) (fail_write d cid started)"
  show ?thesis
  proof (cases "has_key tc_taskId (dep_task d) (db_tasks s)")
    case False
    then show ?thesis using assms(2) by (auto simp: perform_write_def Let_def bind_now seq_receipt started_ids)
  next
    case True
    have run: "?body s1 = (r, s')"
      using assms(2) True by (simp add: perform_write_def Let_def bind_now seq_receipt started_ids s1_def started_def)
    have same: "write_action w d params ticket s1 = write_action w d params ticket s" "nw_sent s1 = nw_sent s"
      "nw_replies s1 = nw_replies s" "db_approvals s1 = db_approvals s" "db_tasks s1 = db_tasks s"
      using write_action_frame [of s1 s w d params ticket] by (simp_all add: s1_def)
    have inv: "audit_inv s1" using assms(1) by (simp add: s1_def audit_inv_def issued_def)
    show ?thesis
    proof (cases "write_action w d params ticket s")
      case (Inl e)
      have "fail_write d cid started e s1 = (r, s')"
        using run Inl same by (simp add: catch_act_def bind_act_def run_write_step)
      with fail_write_result [OF _ this] show ?thesis using True st(2) same by simp
    next
      case (Inr action)
      define s2 where "s2 = s1\<lparr>nw_sent := nw_sent s1 @ [write_request d (write_name w) ticket action]\<rparr>"
      have s2: "audit_inv s2" "has_key tc_taskId (rc_taskId started) (db_tasks s2)" "db_approvals s2 = db_approvals s"
        "nw_sent s2 = nw_sent s @ [write_request d (write_name w) ticket action]"
        using inv True st(2) same by (simp_all add: s2_def audit_inv_def issued_def)
      have body: "?body s1 = (case nw_replies s (length (nw_sent s)) of Inl e \<Rightarrow> fail_write d cid started e s2
          | Inr remote \<Rightarrow> catch_act (finish_write d w cid ticket started remote) (fail_write d cid started) s2)"
        using Inr same by (simp add: catch_act_def bind_act_def run_write_step s2_def split: sum.split)
      show ?thesis
      proof (cases "nw_replies s (length (nw_sent s))")
        case e: (Inl e)
        then have "fail_write d cid started e s2 = (r, s')" using run body by simp
        from fail_write_result [OF s2(2) this] show ?thesis using e Inr s2 st(1) by (simp add: status_of_reply_def)
      next
        case m: (Inr remote)
        obtain r1 s3 where f: "finish_write d w cid ticket started remote s2 = (r1, s3)" "nw_sent s3 = nw_sent s2"
          "db_approvals s3 = db_approvals s2" "if remote_succeeded remote then (\<exists>x. r1 = Inr x) \<and> receipt_status_of (rc_actionId started) s3 = Some RC_SUCCEEDED
             else r1 = Inl (Security_error EVIDENCE_COLLECTION) \<and> db_tasks s3 = db_tasks s2"
          using finish_write_step [OF s2(2,1), of d w cid ticket remote] by auto
        show ?thesis
        proof (cases "remote_succeeded remote")
          case True
          then show ?thesis using run body m f Inr s2 st(1) by (auto simp: status_of_reply_def catch_act_def)
        next
          case False
          then have "has_key tc_taskId (rc_taskId started) (db_tasks s3)" using f(4) s2(2) by simp
          moreover have "fail_write d cid started (Security_error EVIDENCE_COLLECTION) s3 = (r, s')"
            using False run body m f(1,4) by (simp add: catch_act_def)
          ultimately have "r = Inl (Security_error EVIDENCE_COLLECTION) \<and> nw_sent s' = nw_sent s3 \<and> db_approvals s' = db_approvals s3
              \<and> receipt_status_of (rc_actionId started) s' = Some RC_FAILED"
            using fail_write_result [of started s3 d cid "Security_error EVIDENCE_COLLECTION" r s'] by (simp add: uncertain_def)
          then show ?thesis using False m f(2,3) Inr s2 st(1) by (simp add: status_of_reply_def)
        qed
      qed
    qed
  qed
qed


text \<open>What the action names: the file and content of complete evidence, or an account that is neither root nor our own.\<close>

fun action_covered :: "write_tool_name \<Rightarrow> tool_deps \<Rightarrow> js \<Rightarrow> js \<Rightarrow> 'a fact_db_scheme \<Rightarrow> bool" where
  "action_covered W_quarantine_file d params action s =
     (\<exists>e sha. getEvidence (dep_task d) (arg_string params ''evidenceRef'') s = Some e \<and> ev_sha256 e = Some sha
       \<and> member (ev_metadata e) ''complete'' = Bool True
       \<and> member action ''path'' = Str (ev_source e) \<and> member action ''expectedSha256'' = Str sha)"
| "action_covered W_disable_account d params action s =
     (\<exists>account username. latestPrivateFact d (arg_string params ''accountRef'') s = Inr account
       \<and> get_prop account ''username'' = Str username \<and> member action ''username'' = Str username
       \<and> username \<noteq> ''root'' \<and> username \<noteq> tg_username (tc_target (td_task d)))"

lemma write_action_covered:
  assumes "write_action w d params ticket s = Inr action"
  shows "action_covered w d params action s"
proof (cases w)
  case W_quarantine_file
  then show ?thesis using assms
    by (auto simp: quarantine_action_def nonempty_def js_id_def split: option.splits if_splits sum.splits)
next
  case W_disable_account
  obtain account where a: "latestPrivateFact d (arg_string params ''accountRef'') s = Inr account"
    using assms W_disable_account by (auto simp: account_action_def split: sum.splits)
  then show ?thesis using assms W_disable_account
    by (cases "get_prop account ''username''") (auto simp: account_action_def Let_def split: sum.splits if_splits)
qed

definition ticket_for :: "tool_deps \<Rightarrow> write_tool_name \<Rightarrow> js \<Rightarrow> approval_ticket \<Rightarrow> bool" where
  "ticket_for d w params t \<longleftrightarrow> ap_taskId t = dep_task d \<and> ap_epochId t = tc_activeEpochId (td_task d)
     \<and> ap_targetFingerprint t = dep_host d \<and> ap_tool t = write_name w \<and> ap_argsDigest t = te_digest d params"



section \<open>An account that is disabled\<close>

definition account_deps :: tool_deps where
  "account_deps = sample_deps\<lparr>td_allowedTools := [''disable_account'']\<rparr>"

definition account_store :: write_net where
  "account_store = net.extend (db.extend (empty_db\<lparr>uuid_pos := 2, db_tasks := [sample_task],
       db_objects := [example_object 1 NS_account], db_facts := [example_fact 1 NS_account [(''username'', Str ''eve'')]],
       db_approvals := [sample_ticket\<lparr>ap_tool := ''disable_account'', ap_argsDigest := ''d'', ap_status := AP_APPROVED,
         ap_consumedAt := None\<rparr>]\<rparr>) (net.fields [] (\<lambda>_. Inl Plain_error)))
     (write_net.fields [] (\<lambda>_. Inr (Obj [(''status'', Str ''SUCCEEDED'')])))"

definition sample_write :: "(err + js) \<times> write_net" where
  "sample_write = write_tool account_deps W_disable_account ''call'' (Obj [(''accountRef'', Str ''OBJ-x'')]) account_store"

lemma sample_write_sends: "length (nw_sent (snd sample_write)) = 1"
  by code_simp

lemma account_store_start: "nw_sent account_store = []" "nw_replies account_store = (\<lambda>_. Inr (Obj [(''status'', Str ''SUCCEEDED'')]))"
  by (simp_all add: account_store_def net.defs db.defs write_net.defs)

lemma one_x: "\<exists>i<2. ''x'' = replicate i CHR ''x''"
  by (intro exI [of _ "1 :: nat"]) simp

lemma account_store_inv: "approval_inv account_store" "audit_inv account_store"
  by (auto simp: account_store_def net.defs db.defs write_net.defs approval_inv_def audit_inv_def issued_def empty_defs
      sample_ticket_def inj_def one_x [unfolded conj_commute [of "_ < _"]])


end
