(* ===== verification/NetworkIoc.thy ===== *)
theory NetworkIoc
  imports JsValue JsRegex "HOL-Library.Word"
begin

unbundle bit_operations_syntax

text \<open>
  \<open>src/threat-intel/network-ioc.ts\<close>: which addresses may be shown to a threat intelligence provider.
  \<open>isIP\<close> is the function of \<open>node:net\<close>.
\<close>

section \<open>Addresses\<close>

fun split_on :: "char \<Rightarrow> string \<Rightarrow> string list" where
  "split_on c [] = [[]]"
| "split_on c (x # xs) = (if x = c then [] # split_on c xs
     else (case split_on c xs of y # ys \<Rightarrow> (x # y) # ys | [] \<Rightarrow> [[x]]))"

definition ipv4_part :: "string \<Rightarrow> bool" where
  "ipv4_part p \<longleftrightarrow> p \<noteq> [] \<and> length p \<le> 3 \<and> list_all is_digit p \<and> (hd p = CHR ''0'' \<longrightarrow> length p = 1) \<and> dec_value p \<le> 255"

definition is_ipv4 :: "string \<Rightarrow> bool" where
  "is_ipv4 s \<longleftrightarrow> length (split_on CHR ''.'' s) = 4 \<and> list_all ipv4_part (split_on CHR ''.'' s)"

definition hex_chars :: string where
  "hex_chars = ''0123456789abcdefABCDEF''"

definition hextet :: "string \<Rightarrow> bool" where
  "hextet p \<longleftrightarrow> p \<noteq> [] \<and> length p \<le> 4 \<and> list_all (\<lambda>c. c \<in> set hex_chars) p"

text \<open>The number of groups, of which the last may be written as an IPv4 address and counts twice.\<close>

fun group_count :: "string list \<Rightarrow> nat option" where
  "group_count [] = Some 0"
| "group_count [p] = (if hextet p then Some 1 else if is_ipv4 p then Some 2 else None)"
| "group_count (p # ps) = (if hextet p then map_option Suc (group_count ps) else None)"

definition groups :: "string \<Rightarrow> string list" where
  "groups s = (if s = [] then [] else split_on CHR '':'' s)"

fun cut_double_colon :: "string \<Rightarrow> (string \<times> string) option" where
  "cut_double_colon [] = None"
| "cut_double_colon (c # cs) = (if starts_with ''::'' (c # cs) then Some ([], drop 2 (c # cs))
     else map_option (\<lambda>(a, b). (c # a, b)) (cut_double_colon cs))"

definition zone_chars :: string where
  "zone_chars = letter_chars @ digit_chars @ ''-.:''"

definition zone_ok :: "string \<Rightarrow> bool" where
  "zone_ok z \<longleftrightarrow> z = [] \<or> (hd z = CHR ''%'' \<and> tl z \<noteq> [] \<and> list_all (\<lambda>c. c \<in> set zone_chars) (tl z))"

definition is_ipv6 :: "string \<Rightarrow> bool" where
  "is_ipv6 s \<longleftrightarrow> (let a = takeWhile (\<lambda>c. c \<noteq> CHR ''%'') s; z = dropWhile (\<lambda>c. c \<noteq> CHR ''%'') s in
     zone_ok z \<and> (case cut_double_colon a of
         None \<Rightarrow> group_count (groups a) = Some 8
       | Some (l, r) \<Rightarrow> list_all hextet (groups l)
           \<and> (case group_count (groups r) of None \<Rightarrow> False | Some n \<Rightarrow> length (groups l) + n \<le> 7)))"

definition isIP :: "string \<Rightarrow> nat" where
  "isIP s = (if is_ipv4 s then 4 else if is_ipv6 s then 6 else 0)"

section \<open>Public addresses\<close>

definition ipv4Bytes :: "string \<Rightarrow> jsnum list option" where
  "ipv4Bytes s = (if isIP s \<noteq> 4 then None
     else let bytes = map number_of_string (split_on CHR ''.'' s) in
       if length bytes = 4 \<and> list_all (\<lambda>n. case n of Fin q \<Rightarrow> is_integral q \<and> 0 \<le> q \<and> q \<le> 255 | _ \<Rightarrow> False) bytes
       then Some bytes else None)"

definition public_bytes :: "rat \<Rightarrow> rat \<Rightarrow> rat \<Rightarrow> bool" where
  "public_bytes first second third \<longleftrightarrow>
     \<not> (first = 0 \<or> first = 10 \<or> first = 127 \<or> 224 \<le> first)
   \<and> \<not> (first = 100 \<and> 64 \<le> second \<and> second \<le> 127)
   \<and> \<not> (first = 169 \<and> second = 254)
   \<and> \<not> (first = 172 \<and> 16 \<le> second \<and> second \<le> 31)
   \<and> \<not> (first = 192 \<and> (second = 168 \<or> second = 0 \<or> (second = 0 \<and> third = 2)))
   \<and> \<not> (first = 198 \<and> (second = 18 \<or> second = 19 \<or> (second = 51 \<and> third = 100)))
   \<and> \<not> (first = 203 \<and> second = 0 \<and> third = 113)"

definition public_ipv4 :: "string \<Rightarrow> bool" where
  "public_ipv4 s = (case ipv4Bytes s of Some (Fin a # Fin b # Fin c # _) \<Rightarrow> public_bytes a b c | _ \<Rightarrow> False)"

definition dotted_quad :: rx where
  "dotted_quad = (let n = rx_plus (Rx_in digit_chars) in
     Rx_seq [Rx_start, n, lit ''.'', n, lit ''.'', n, lit ''.'', n, Rx_end])"

definition mapped_ipv4 :: "string \<Rightarrow> string option" where
  "mapped_ipv4 s = (if starts_with ''::ffff:'' s \<and> rx_test dotted_quad (drop 7 s) then Some (drop 7 s) else None)"

definition local_prefixes :: "string list" where
  "local_prefixes = [''fe8'', ''fe9'', ''fea'', ''feb'', ''fc'', ''fd'', ''ff'', ''2001:db8:'', ''2001:10:'']"

text \<open>A mapped address has no colon, so the call on it meets the first case or the last.\<close>

definition isPublicThreatIntelIp :: "string \<Rightarrow> bool" where
  "isPublicThreatIntelIp s = (if isIP s = 4 then public_ipv4 s
     else if isIP s = 6 then let normalized = to_lower s in
       (case mapped_ipv4 normalized of Some m \<Rightarrow> isIP m = 4 \<and> public_ipv4 m
        | None \<Rightarrow> normalized \<noteq> ''::'' \<and> normalized \<noteq> ''::1'' \<and> \<not> list_ex (\<lambda>p. starts_with p normalized) local_prefixes)
     else False)"

section \<open>Endpoints\<close>

text \<open>\<open>value.slice(0, i)\<close> and \<open>value.slice(i + 1)\<close> at the last colon, which is not the first character.\<close>

definition cut_last_colon :: "string \<Rightarrow> (string \<times> string) option" where
  "cut_last_colon s = (let tail = takeWhile (\<lambda>c. c \<noteq> CHR '':'') (rev s) in
     if length s < length tail + 2 then None else Some (take (length s - length tail - 1) s, rev tail))"

definition strip_brackets :: "string \<Rightarrow> string" where
  "strip_brackets s = (let a = (if s \<noteq> [] \<and> hd s = CHR ''['' then tl s else s) in
     if a \<noteq> [] \<and> last a = CHR '']'' then butlast a else a)"

definition parseNetworkEndpoint :: "js \<Rightarrow> (string \<times> rat) option" where
  "parseNetworkEndpoint v = (case v of Str s \<Rightarrow> if 256 < length s then None
       else (case cut_last_colon s of None \<Rightarrow> None
         | Some (l, r) \<Rightarrow> let ip = strip_brackets l in
             (case number_of_string r of
                Fin port \<Rightarrow> if isIP ip = 0 \<or> \<not> is_integral port \<or> port < 0 \<or> 65535 < port then None else Some (ip, port)
              | _ \<Rightarrow> None))
     | _ \<Rightarrow> None)"

lemma loopback_spelled_out_is_public:
  "isPublicThreatIntelIp ''0:0:0:0:0:0:0:1'' \<and> isPublicThreatIntelIp ''::ffff:7f00:1''
   \<and> \<not> isPublicThreatIntelIp ''::1'' \<and> \<not> isPublicThreatIntelIp ''::ffff:127.0.0.1''"
  by code_simp


section \<open>The blocks of the address space\<close>

definition address :: "string \<Rightarrow> 32 word" where
  "address s = foldl (\<lambda>w p. w * 256 + of_nat (dec_value p)) 0 (split_on CHR ''.'' s)"

definition in_block :: "32 word \<Rightarrow> nat \<Rightarrow> 32 word \<Rightarrow> bool" where
  "in_block net len a \<longleftrightarrow> drop_bit (32 - len) a = drop_bit (32 - len) net"

text \<open>
  This host, the private networks, shared space, loopback, link local, the protocol and
  documentation blocks, benchmarking, multicast and reserved space.
\<close>

definition withheld_blocks :: "(32 word \<times> nat) list" where
  "withheld_blocks = [(0x00000000, 8), (0x0A000000, 8), (0x64400000, 10), (0x7F000000, 8), (0xA9FE0000, 16), (0xAC100000, 12),
     (0xC0A80000, 16), (0xC0000000, 16), (0xC6120000, 15), (0xC6336400, 24), (0xCB007100, 24), (0xE0000000, 3)]"

lemma number_of_digits:
  assumes "ipv4_part p"
  shows "number_of_string p = Fin (of_nat (dec_value p))"
proof -
  have p: "p \<noteq> []" "list_all is_digit p" using assms by (auto simp: ipv4_part_def)
  have ns: "\<not> js_space c" if "is_digit c" for c using that by (auto simp: is_digit_def js_space_def)
  have drop: "dropWhile js_space q = q" if "list_all is_digit q" for q
    using that ns by (cases q) auto
  have trim: "js_trim p = p" using p(2) drop [of p] drop [of "rev p"] by (simp add: js_trim_def list_all_iff)
  have "list_all is_digit (take 2 p)" using p(2) by (metis append_take_drop_id list_all_append)
  then have nd: "take 2 p \<notin> {''0x'', ''0X''}" "take 2 p \<notin> {''0o'', ''0O''}" "take 2 p \<notin> {''0b'', ''0B''}"
    by (auto simp: is_digit_def)
  have d: "is_digit (hd p)" using p by (cases p) auto
  then have hd: "hd p \<noteq> CHR ''-''" "hd p \<noteq> CHR ''+''" "p \<noteq> ''Infinity''" by (auto simp: is_digit_def)
  have tw: "takeWhile is_digit p = p" "dropWhile is_digit p = []" using p(2) by (auto simp: list_all_iff)
  have "unsigned_value p = Fin (of_nat (dec_value p))"
    using p(1) hd(3) unfolding unsigned_value_def tw by (simp add: exponent_value_def scale10_def)
  then show ?thesis using p(1) nd hd(1,2) by (simp add: number_of_string_def trim)
qed


lemma four_parts:
  assumes "is_ipv4 s"
  obtains a b c d where "split_on CHR ''.'' s = [a, b, c, d]" "list_all ipv4_part [a, b, c, d]"
  using assms by (cases "split_on CHR ''.'' s" rule: remdups_adj.cases)
    (auto simp: is_ipv4_def length_Suc_conv eval_nat_numeral)

lemma of_nat_integral: "is_integral (of_nat n)"
  by (simp add: is_integral_def)

lemma public_ipv4_bytes:
  assumes "is_ipv4 s" and "split_on CHR ''.'' s = [a, b, c, d]"
  shows "isPublicThreatIntelIp s = public_bytes (of_nat (dec_value a)) (of_nat (dec_value b)) (of_nat (dec_value c))"
proof -
  have p: "ipv4_part a" "ipv4_part b" "ipv4_part c" "ipv4_part d" using assms by (simp_all add: is_ipv4_def)
  then have le: "dec_value a \<le> 255" "dec_value b \<le> 255" "dec_value c \<le> 255" "dec_value d \<le> 255" by (simp_all add: ipv4_part_def)
  have "ipv4Bytes s = Some (map (\<lambda>p. Fin (of_nat (dec_value p))) [a, b, c, d])"
    using assms p le by (simp add: ipv4Bytes_def isIP_def number_of_digits of_nat_integral)
  then show ?thesis using assms(1) by (simp add: isPublicThreatIntelIp_def isIP_def public_ipv4_def)
qed

lemma address_value:
  assumes "a \<le> 255" "b \<le> 255" "c \<le> 255" "d \<le> (255 :: nat)"
  shows "unat (((of_nat a * 256 + of_nat b) * 256 + of_nat c) * 256 + of_nat d :: 32 word) = ((a * 256 + b) * 256 + c) * 256 + d"
proof -
  have "((of_nat a * 256 + of_nat b) * 256 + of_nat c) * 256 + of_nat d = (of_nat (((a * 256 + b) * 256 + c) * 256 + d) :: 32 word)"
    by simp
  moreover have "((a * 256 + b) * 256 + c) * 256 + d < 2 ^ 32" using assms by simp
  ultimately show ?thesis by (simp only: unat_of_nat take_bit_nat_eq_self_iff [THEN iffD2] len_of_numeral_defs) (simp add: take_bit_nat_eq_self)
qed

lemma in_block_value: "in_block net len a \<longleftrightarrow> unat a div 2 ^ (32 - len) = unat net div 2 ^ (32 - len)"
  unfolding in_block_def word_unat_eq_iff unat_drop_bit_eq by (simp only: drop_bit_eq_div)


text \<open>The blocks as ranges of the first bytes.\<close>

lemma digit_split: "(b :: nat) < n \<Longrightarrow> a * n + b = k \<longleftrightarrow> a = k div n \<and> b = k mod n"
  by auto

lemma div_split: "(a * 256 + b) div 64 = a * 4 + b div 64" "(a * 256 + b) div 16 = a * 16 + b div 16"
  "(a * 256 + b) div 2 = a * 128 + b div (2 :: nat)"
  by presburger+

lemma block_ranges:
  assumes "b \<le> (255 :: nat)" "c \<le> (255 :: nat)"
  shows "(a * 256 + b) div 64 = 401 \<longleftrightarrow> a = 100 \<and> b div 64 = 1"
    "a * 256 + b = 43518 \<longleftrightarrow> a = 169 \<and> b = 254"
    "(a * 256 + b) div 16 = 2753 \<longleftrightarrow> a = 172 \<and> b div 16 = 1"
    "a * 256 + b = 49320 \<longleftrightarrow> a = 192 \<and> b = 168" "a * 256 + b = 49152 \<longleftrightarrow> a = 192 \<and> b = 0"
    "(a * 256 + b) div 2 = 25353 \<longleftrightarrow> a = 198 \<and> b div 2 = 9"
    "(a * 256 + b) * 256 + c = 12989284 \<longleftrightarrow> a * 256 + b = 50739 \<and> c = 100"
    "(a * 256 + b) * 256 + c = 13303921 \<longleftrightarrow> a * 256 + b = 51968 \<and> c = 113"
    "a * 256 + b = 50739 \<longleftrightarrow> a = 198 \<and> b = 51" "a * 256 + b = 51968 \<longleftrightarrow> a = 203 \<and> b = 0"
  using assms by (simp_all add: digit_split div_split less_mult_imp_div_less del: distrib_right_numeral distrib_left_numeral)

lemma div_range: "0 < k \<Longrightarrow> x div k = q \<longleftrightarrow> k * q \<le> x \<and> x < k * Suc q" for x :: nat
  using times_div_less_eq_dividend [of k x] dividend_less_times_div [of k x] by (auto intro: div_nat_eqI)

lemma bit_ranges: "b div 64 = 1 \<longleftrightarrow> 64 \<le> b \<and> b \<le> 127" "b div 16 = 1 \<longleftrightarrow> 16 \<le> b \<and> b \<le> 31"
  "b div 2 = 9 \<longleftrightarrow> b = 18 \<or> b = (19 :: nat)"
  unfolding div_range [OF zero_less_numeral] by auto

lemma rat_bytes: "(of_nat n :: rat) = numeral k \<longleftrightarrow> n = numeral k" "(numeral k :: rat) \<le> of_nat n \<longleftrightarrow> numeral k \<le> n"
  "(of_nat n :: rat) \<le> numeral k \<longleftrightarrow> n \<le> numeral k" "(of_nat n :: rat) = 0 \<longleftrightarrow> n = 0"
  using of_nat_eq_iff [of n "numeral k", where 'a = rat] of_nat_le_iff [of n "numeral k", where 'a = rat]
    of_nat_le_iff [of "numeral k" n, where 'a = rat] by simp_all

text \<open>
  C33. Which IPv4 addresses may be shown to a provider: read as a 32 bit word, an address is public
  exactly when it lies in none of the withheld blocks, which hold this host, the private networks,
  loopback, link local, shared, protocol, benchmarking and documentation addresses, multicast and
  reserved space.
\<close>

theorem public_ipv4_is_outside_the_blocks:
  assumes "is_ipv4 s"
  shows "isPublicThreatIntelIp s = list_all (\<lambda>(net, len). \<not> in_block net len (address s)) withheld_blocks"
proof -
  obtain pa pb pc pd where s: "split_on CHR ''.'' s = [pa, pb, pc, pd]" "list_all ipv4_part [pa, pb, pc, pd]"
    using four_parts [OF assms] by metis
  define a b c d where "a = dec_value pa" and "b = dec_value pb" and "c = dec_value pc" and "d = dec_value pd"
  have le: "a \<le> 255" "b \<le> 255" "c \<le> 255" "d \<le> 255" using s(2) by (simp_all add: ipv4_part_def a_def b_def c_def d_def)
  define x where "x = ((a * 256 + b) * 256 + c) * 256 + d"
  have u: "unat (address s) = x"
    using address_value [OF le] by (simp add: address_def s(1) a_def b_def c_def d_def x_def)
  have byte: "x div 16777216 = a" "x div 65536 = a * 256 + b" "x div 256 = (a * 256 + b) * 256 + c"
    using le by (simp_all add: x_def)
  have shift: "x div (65536 * 64) = (a * 256 + b) div 64" "x div (65536 * 16) = (a * 256 + b) div 16"
    "x div (65536 * 2) = (a * 256 + b) div 2" "x div (16777216 * 32) = a div 32"
    by (simp_all only: div_mult2_eq byte)
  have pow: "65536 * 64 = (4194304 :: nat)" "65536 * 16 = (1048576 :: nat)" "65536 * 2 = (131072 :: nat)" "16777216 * 32 = (536870912 :: nat)" by simp_all
  note shift = shift [unfolded pow]
  have top: "a div 32 = 7 \<longleftrightarrow> 224 \<le> a" using le(1) unfolding div_range [OF zero_less_numeral] by auto
  have blocks: "in_block 0x00000000 8 (address s) \<longleftrightarrow> a = 0" "in_block 0x0A000000 8 (address s) \<longleftrightarrow> a = 10"
    "in_block 0x64400000 10 (address s) \<longleftrightarrow> a = 100 \<and> 64 \<le> b \<and> b \<le> 127" "in_block 0x7F000000 8 (address s) \<longleftrightarrow> a = 127"
    "in_block 0xA9FE0000 16 (address s) \<longleftrightarrow> a = 169 \<and> b = 254"
    "in_block 0xAC100000 12 (address s) \<longleftrightarrow> a = 172 \<and> 16 \<le> b \<and> b \<le> 31"
    "in_block 0xC0A80000 16 (address s) \<longleftrightarrow> a = 192 \<and> b = 168" "in_block 0xC0000000 16 (address s) \<longleftrightarrow> a = 192 \<and> b = 0"
    "in_block 0xC6120000 15 (address s) \<longleftrightarrow> a = 198 \<and> (b = 18 \<or> b = 19)"
    "in_block 0xC6336400 24 (address s) \<longleftrightarrow> a = 198 \<and> b = 51 \<and> c = 100"
    "in_block 0xCB007100 24 (address s) \<longleftrightarrow> a = 203 \<and> b = 0 \<and> c = 113" "in_block 0xE0000000 3 (address s) \<longleftrightarrow> 224 \<le> a"
    by (simp_all add: in_block_value u byte shift top block_ranges [OF le(2,3)] bit_ranges bit_ranges [unfolded One_nat_def]
        del: distrib_right_numeral)
  have "list_all (\<lambda>(net, len). \<not> in_block net len (address s)) withheld_blocks \<longleftrightarrow>
      public_bytes (of_nat a) (of_nat b) (of_nat c)"
    unfolding withheld_blocks_def list.pred_inject prod.case blocks public_bytes_def rat_bytes
    by (simp only: list.pred_inject(1)) auto
  then show ?thesis using public_ipv4_bytes [OF assms s(1)] by (simp add: a_def b_def c_def)
qed

theorem public_ipv4_is_outside_the_blocks_witness:
  "isPublicThreatIntelIp ''192.168.1.10'' = list_all (\<lambda>(net, len). \<not> in_block net len (address ''192.168.1.10'')) withheld_blocks
   \<and> \<not> isPublicThreatIntelIp ''192.168.1.10'' \<and> isPublicThreatIntelIp ''8.8.8.8''"
proof -
  have ip: "is_ipv4 ''192.168.1.10''" by code_simp
  have "\<not> isPublicThreatIntelIp ''192.168.1.10''" "isPublicThreatIntelIp ''8.8.8.8''" by code_simp+
  then show ?thesis using public_ipv4_is_outside_the_blocks [OF ip] by blast
qed

end
