(* ===== verification/Rules.thy ===== *)
theory Rules
  imports Assessments Tasks JsRegex FactQuery Executor Resolver
begin

text \<open>
  \<open>src/rules/deterministic-rule-engine-v2.ts\<close>: the versioned rules and the engine that turns matching
  facts into assessments. \<open>text v\<close> stands for \<open>String(v)\<close>; the sentences of the rationales are replaced
  by codes behind the reference of the rule.
\<close>

section \<open>Matching\<close>

text \<open>\<open>Number(v)\<close>.\<close>

fun js_number :: "js \<Rightarrow> jsnum" where
  "js_number Undefined = NaN"
| "js_number Null = Fin 0"
| "js_number (Bool b) = Fin (if b then 1 else 0)"
| "js_number (Num n) = n"
| "js_number (Str s) = number_of_string s"
| "js_number (Arr []) = Fin 0"
| "js_number (Arr [v]) = (case v of Undefined \<Rightarrow> Fin 0 | Bool _ \<Rightarrow> NaN | _ \<Rightarrow> js_number v)"
| "js_number (Arr (_ # _ # _)) = NaN"
| "js_number (Obj _) = NaN"

definition temp_prefixes :: "string list" where
  "temp_prefixes = [''/tmp/'', ''/var/tmp/'', ''/dev/shm/'']"

definition in_temp :: "js \<Rightarrow> bool" where
  "in_temp v \<longleftrightarrow> is_string v \<and> list_ex (\<lambda>p. starts_with p (string_of v)) temp_prefixes"

definition temp_path :: rx where
  "temp_path = Rx_alt (map lit temp_prefixes)"

definition download_and_run :: rx where
  "download_and_run = Rx_seq [Rx_word_edge, Rx_alt [lit ''curl'', lit ''wget''], Rx_word_edge, Rx_star rx_dot,
     Rx_alt [lit ''|'', lit ''&&'', lit '';''], Rx_star rx_space, rx_opt (Rx_alt [lit ''ba'', lit ''z'', lit ''da'']), lit ''sh'', Rx_word_edge]"

definition temp_command :: rx where
  "temp_command = Rx_seq [Rx_alt [Rx_start, rx_space], temp_path]"

definition nopasswd_all :: rx where
  "nopasswd_all = Rx_seq [Rx_word_edge, lit ''nopasswd'', Rx_star rx_space, lit '':'', Rx_star rx_space, lit ''all'',
     Rx_alt [rx_space, Rx_end]]"

record v2_rule =
  ru_ruleId :: id
  ru_version :: string
  ru_category :: check_category
  ru_namespace :: namespace_name
  ru_verdict :: assessment_verdict
  ru_severity :: severity
  ru_confidence :: rat
  ru_matches :: "(js \<Rightarrow> string) \<Rightarrow> js_row \<Rightarrow> bool"
  ru_rationale :: "(js \<Rightarrow> string) \<Rightarrow> js_row \<Rightarrow> string"

definition DETERMINISTIC_RULES_V2 :: "v2_rule list" where
  "DETERMINISTIC_RULES_V2 = [
   \<lparr>ru_ruleId = ''HW2-ACCOUNT-UID0-001'', ru_version = ''2.0.0'', ru_category = Backdoor_account, ru_namespace = NS_account,
    ru_verdict = SUSPICIOUS, ru_severity = MEDIUM, ru_confidence = 8 / 10,
    ru_matches = (\<lambda>text p. js_number (get_prop p ''uid'') = Fin 0 \<and> \<not> strict_eq (get_prop p ''username'') (Str ''root'')),
    ru_rationale = (\<lambda>text p. ''ACCOUNT_UID0:'' @ text (get_prop p ''username''))\<rparr>,
   \<lparr>ru_ruleId = ''HW2-PROCESS-TEMP-001'', ru_version = ''2.0.0'', ru_category = Linux_intrusion_triage, ru_namespace = NS_process,
    ru_verdict = SUSPICIOUS, ru_severity = MEDIUM, ru_confidence = 7 / 10,
    ru_matches = (\<lambda>text p. in_temp (get_prop p ''exe'')),
    ru_rationale = (\<lambda>text p. ''PROCESS_IN_TEMP:'' @ text (get_prop p ''exe''))\<rparr>,
   \<lparr>ru_ruleId = ''HW2-PERSIST-DOWNLOAD-001'', ru_version = ''2.0.0'', ru_category = Linux_persistence, ru_namespace = NS_persistence,
    ru_verdict = SUSPICIOUS, ru_severity = MEDIUM, ru_confidence = 72 / 100,
    ru_matches = (\<lambda>text p. is_string (get_prop p ''command'') \<and> rx_test_i download_and_run (string_of (get_prop p ''command''))),
    ru_rationale = (\<lambda>text p. ''DOWNLOAD_AND_RUN'')\<rparr>,
   \<lparr>ru_ruleId = ''HW2-WEB-YARA-001'', ru_version = ''2.3.0'', ru_category = Webshell, ru_namespace = NS_file,
    ru_verdict = HIGHLY_SUSPICIOUS, ru_severity = HIGH, ru_confidence = 86 / 100,
    ru_matches = (\<lambda>text p. is_string (get_prop p ''content'') \<and> starts_with ''YARA_MATCH:'' (string_of (get_prop p ''content''))),
    ru_rationale = (\<lambda>text p. ''WEB_YARA:'' @ text (get_prop p ''path''))\<rparr>,
   \<lparr>ru_ruleId = ''HW2-ACCOUNT-PRIVILEGED-001'', ru_version = ''2.1.0'', ru_category = Backdoor_account, ru_namespace = NS_account,
    ru_verdict = SUSPICIOUS, ru_severity = LOW, ru_confidence = 58 / 100,
    ru_matches = (\<lambda>text p. js_number (get_prop p ''uid'') \<noteq> Fin 0 \<and> is_array (get_prop p ''groups'')
      \<and> list_ex (\<lambda>g. to_lower (text g) \<in> {''sudo'', ''wheel'', ''admin''}) (items (get_prop p ''groups''))),
    ru_rationale = (\<lambda>text p. ''PRIVILEGED_ACCOUNT:'' @ text (get_prop p ''username''))\<rparr>,
   \<lparr>ru_ruleId = ''HW2-PERSIST-TEMP-EXEC-001'', ru_version = ''2.1.0'', ru_category = Linux_persistence, ru_namespace = NS_unit,
    ru_verdict = HIGHLY_SUSPICIOUS, ru_severity = HIGH, ru_confidence = 82 / 100,
    ru_matches = (\<lambda>text p. is_string (get_prop p ''execStart'') \<and> rx_test temp_command (string_of (get_prop p ''execStart''))),
    ru_rationale = (\<lambda>text p. ''UNIT_IN_TEMP:'' @ text (get_prop p ''name''))\<rparr>,
   \<lparr>ru_ruleId = ''HW2-CRON-TEMP-EXEC-001'', ru_version = ''2.1.0'', ru_category = Linux_persistence, ru_namespace = NS_cron_entry,
    ru_verdict = SUSPICIOUS, ru_severity = MEDIUM, ru_confidence = 76 / 100,
    ru_matches = (\<lambda>text p. is_string (get_prop p ''command'') \<and> rx_test temp_path (string_of (get_prop p ''command''))),
    ru_rationale = (\<lambda>text p. ''CRON_IN_TEMP:'' @ text (get_prop p ''source''))\<rparr>,
   \<lparr>ru_ruleId = ''HW2-JAVA-CLASS-SOURCE-001'', ru_version = ''2.1.0'', ru_category = Java_memory_shell, ru_namespace = NS_class,
    ru_verdict = SUSPICIOUS, ru_severity = HIGH, ru_confidence = 78 / 100,
    ru_matches = (\<lambda>text p. strict_eq (get_prop p ''modifiable'') (Bool True)
      \<and> (\<not> is_string (get_prop p ''codeSource'') \<or> string_of (get_prop p ''codeSource'') = []
        \<or> rx_test temp_path (string_of (get_prop p ''codeSource'')))),
    ru_rationale = (\<lambda>text p. ''JAVA_CLASS_SOURCE:'' @ text (get_prop p ''className''))\<rparr>,
   \<lparr>ru_ruleId = ''HW2-EXEC-TEMP-001'', ru_version = ''2.1.0'', ru_category = Linux_intrusion_triage, ru_namespace = NS_exec_event,
    ru_verdict = SUSPICIOUS, ru_severity = MEDIUM, ru_confidence = 7 / 10,
    ru_matches = (\<lambda>text p. in_temp (get_prop p ''executable'')),
    ru_rationale = (\<lambda>text p. ''EXEC_IN_TEMP:'' @ text (get_prop p ''executable''))\<rparr>,
   \<lparr>ru_ruleId = ''HW2-DELEGATION-NOPASSWD-ALL-001'', ru_version = ''2.2.0'', ru_category = Backdoor_account, ru_namespace = NS_delegation_rule,
    ru_verdict = HIGHLY_SUSPICIOUS, ru_severity = HIGH, ru_confidence = 84 / 100,
    ru_matches = (\<lambda>text p. strict_eq (get_prop p ''mechanism'') (Str ''sudo'') \<and> is_string (get_prop p ''statement'')
      \<and> rx_test_i nopasswd_all (string_of (get_prop p ''statement''))),
    ru_rationale = (\<lambda>text p. ''NOPASSWD_ALL:'' @ text (get_prop p ''source'') @ '':'' @ text (get_prop p ''line''))\<rparr>,
   \<lparr>ru_ruleId = ''HW2-SSH-ROOT-LOGIN-001'', ru_version = ''2.2.0'', ru_category = Backdoor_account, ru_namespace = NS_ssh_trust_config,
    ru_verdict = SUSPICIOUS, ru_severity = MEDIUM, ru_confidence = 74 / 100,
    ru_matches = (\<lambda>text p. strict_eq (get_prop p ''effective'') (Bool True)
      \<and> strict_eq (get_prop p ''directive'') (Str ''permitrootlogin'') \<and> strict_eq (get_prop p ''value'') (Str ''yes'')),
    ru_rationale = (\<lambda>text p. ''SSH_ROOT_LOGIN'')\<rparr>,
   \<lparr>ru_ruleId = ''HW2-PACKAGE-INTEGRITY-001'', ru_version = ''2.2.0'', ru_category = Linux_intrusion_triage, ru_namespace = NS_file,
    ru_verdict = HIGHLY_SUSPICIOUS, ru_severity = HIGH, ru_confidence = 88 / 100,
    ru_matches = (\<lambda>text p. strict_eq (get_prop p ''baseline'') (Str ''package_db'')
      \<and> strict_eq (get_prop p ''baselineStatus'') (Str ''MISMATCH'')),
    ru_rationale = (\<lambda>text p. ''PACKAGE_MISMATCH:'' @ text (get_prop p ''path''))\<rparr>]"

section \<open>The engine\<close>

definition rule_ref :: "v2_rule \<Rightarrow> string" where
  "rule_ref r = ru_ruleId r @ ''@'' @ ru_version r @ '':''"

definition already_judged :: "assessment list \<Rightarrow> v2_rule \<Rightarrow> fact_record \<Rightarrow> bool" where
  "already_judged existing r f \<longleftrightarrow>
     list_ex (\<lambda>a. fr_factId f \<in> set (as_factRefs a) \<and> starts_with (rule_ref r) (as_rationale a)) existing"

definition rule_assessment :: "(js \<Rightarrow> string) \<Rightarrow> id \<Rightarrow> id \<Rightarrow> v2_rule \<Rightarrow> fact_record \<Rightarrow> string \<Rightarrow> time \<Rightarrow> assessment" where
  "rule_assessment text tid eid r f u t =
     \<lparr>as_assessmentId = ''ASM-'' @ u, as_taskId = tid, as_epochId = eid, as_authorType = AU_RULE, as_category = ru_category r,
      as_subjectRef = Some (fr_subjectRef f), as_scope = SC_SUBJECT, as_verdict = ru_verdict r, as_severity = ru_severity r,
      as_confidence = Fin (if fr_completeness f = PARTIAL then min (ru_confidence r) (65 / 100) else ru_confidence r),
      as_rationale = rule_ref r @ '' '' @ ru_rationale r text (fr_modelPayload f)
        @ (if fr_completeness f = PARTIAL then '' PARTIAL_INPUT'' else []),
      as_evidenceRefs = [], as_factRefs = [fr_factId f], as_queryRefs = [], as_createdAt = t\<rparr>"

fun judge_facts ::
  "(js \<Rightarrow> string) \<Rightarrow> id \<Rightarrow> id \<Rightarrow> assessment list \<Rightarrow> v2_rule \<Rightarrow> fact_record list \<Rightarrow> ('a db_scheme, assessment list) act" where
  "judge_facts text tid eid existing r [] = return_act []"
| "judge_facts text tid eid existing r (f # fs) =
     (if already_judged existing r f then judge_facts text tid eid existing r fs
      else bind_act next_uuid (\<lambda>u. bind_act now (\<lambda>t. let a = rule_assessment text tid eid r f u t in
        seq_act (putAssessment a) (bind_act (judge_facts text tid eid existing r fs) (\<lambda>rest. return_act (a # rest))))))"

definition rule_facts :: "(js \<Rightarrow> string) \<Rightarrow> v2_rule \<Rightarrow> fact_record list \<Rightarrow> fact_record list" where
  "rule_facts text r facts = filter (\<lambda>f. fr_namespace f = ru_namespace r \<and> ru_matches r text (fr_privatePayload f)) facts"

fun judge_rules ::
  "(js \<Rightarrow> string) \<Rightarrow> id \<Rightarrow> id \<Rightarrow> check_category list \<Rightarrow> assessment list \<Rightarrow> fact_record list \<Rightarrow> v2_rule list \<Rightarrow>
   ('a db_scheme, assessment list) act" where
  "judge_rules text tid eid checks existing facts [] = return_act []"
| "judge_rules text tid eid checks existing facts (r # rs) =
     (if ru_category r \<notin> set checks then judge_rules text tid eid checks existing facts rs
      else bind_act (judge_facts text tid eid existing r (rule_facts text r facts)) (\<lambda>mine.
        bind_act (judge_rules text tid eid checks existing facts rs) (\<lambda>rest. return_act (mine @ rest))))"

definition evaluateFacts ::
  "(js \<Rightarrow> string) \<Rightarrow> v2_rule list \<Rightarrow> id \<Rightarrow> id \<Rightarrow> fact_record list \<Rightarrow> ('a db_scheme, assessment list) act" where
  "evaluateFacts text registry tid eid facts = bind_act (read_act (getTask tid)) (\<lambda>found. case found of
       None \<Rightarrow> return_act []
     | Some task \<Rightarrow> if tc_activeEpochId task \<noteq> Some eid then return_act []
         else bind_act (read_act (\<lambda>s. filter (\<lambda>a. as_authorType a = AU_RULE) (listAssessments tid eid s))) (\<lambda>existing.
           judge_rules text tid eid (tc_checks task) existing facts registry))"

definition observed_on_target :: "fact_record \<Rightarrow> bool" where
  "observed_on_target f \<longleftrightarrow> fs_evidenceOrigin (fr_source f) = Some TARGET_OBSERVATION
     \<or> (fs_evidenceOrigin (fr_source f) = None \<and> fs_kind (fr_source f) = SK_PRESET)"

definition evaluateFactRefs ::
  "(js \<Rightarrow> string) \<Rightarrow> v2_rule list \<Rightarrow> id \<Rightarrow> id \<Rightarrow> id list \<Rightarrow> ('a db_scheme, assessment list) act" where
  "evaluateFactRefs text registry tid eid refs = bind_act (read_act (\<lambda>s.
       filter observed_on_target (filter (\<lambda>f. fr_factId f \<in> set refs) (all_facts tid eid s))))
     (evaluateFacts text registry tid eid)"

definition evaluate ::
  "(js \<Rightarrow> string) \<Rightarrow> v2_rule list \<Rightarrow> id \<Rightarrow> id \<Rightarrow> id \<Rightarrow> ('a db_scheme, assessment list) act" where
  "evaluate text registry tid eid run = bind_act (read_act (getTask tid)) (\<lambda>found. case found of
       None \<Rightarrow> return_act []
     | Some task \<Rightarrow> if tc_activeEpochId task \<noteq> Some eid then return_act []
         else bind_act (read_act (\<lambda>s. filter (\<lambda>f. fs_kind (fr_source f) = SK_PRESET \<and> fs_presetRunId (fr_source f) = Some run)
             (all_facts tid eid s)))
           (evaluateFacts text registry tid eid))"


section \<open>Every match is judged once\<close>

text \<open>A rule has something to say about a fact: the category is checked, the fact was observed on the target and matches.\<close>

definition rule_applies :: "(js \<Rightarrow> string) \<Rightarrow> id \<Rightarrow> id \<Rightarrow> id list \<Rightarrow> 'a fact_db_scheme \<Rightarrow> v2_rule \<Rightarrow> fact_record \<Rightarrow> bool" where
  "rule_applies text tid eid refs s r f \<longleftrightarrow> (\<exists>task. getTask tid s = Some task \<and> tc_activeEpochId task = Some eid
     \<and> ru_category r \<in> set (tc_checks task)) \<and> f \<in> set (all_facts tid eid s) \<and> fr_factId f \<in> set refs \<and> observed_on_target f
     \<and> fr_namespace f = ru_namespace r \<and> ru_matches r text (fr_privatePayload f)"

definition rule_ledger :: "id \<Rightarrow> id \<Rightarrow> 'a fact_db_scheme \<Rightarrow> assessment list" where
  "rule_ledger tid eid s = filter (\<lambda>a. as_authorType a = AU_RULE) (listAssessments tid eid s)"

definition judged :: "id \<Rightarrow> id \<Rightarrow> v2_rule \<Rightarrow> fact_record \<Rightarrow> 'a fact_db_scheme \<Rightarrow> bool" where
  "judged tid eid r f s \<longleftrightarrow> already_judged (rule_ledger tid eid s) r f"

text \<open>The engine writes assessments only.\<close>

definition beside_assessments :: "'a db_scheme \<Rightarrow> task_context list \<times> fact_record list" where
  "beside_assessments s = (db_tasks s, db_facts s)"

lemma putAssessment_adds:
  "putAssessment a s = (Inr x, s') \<Longrightarrow> s' = s\<lparr>db_assessments := db_assessments s @ [a]\<rparr>"
  by (auto simp: putAssessment_def insert_assessment_def act_simps split: sum.splits)

lemma judge_facts_result:
  "judge_facts text tid eid existing r fs s = (Inr created, s') \<Longrightarrow>
     db_assessments s' = db_assessments s @ created \<and> beside_assessments s' = beside_assessments s
   \<and> list_all (\<lambda>a. \<exists>f\<in>set fs. \<not> already_judged existing r f \<and> (\<exists>u t. a = rule_assessment text tid eid r f u t)) created
   \<and> list_all (\<lambda>f. already_judged existing r f \<or> (\<exists>u t. rule_assessment text tid eid r f u t \<in> set created)) fs"
proof (induction fs arbitrary: s created)
  case (Cons f fs)
  show ?case
  proof (cases "already_judged existing r f")
    case True
    then show ?thesis using Cons by (fastforce simp: list_all_iff)
  next
    case False
    then obtain u t a s1 rest where run: "putAssessment a (s\<lparr>uuid_pos := Suc (uuid_pos s), clock_pos := Suc (clock_pos s)\<rparr>) = (Inr (), s1)"
      "a = rule_assessment text tid eid r f u t" "judge_facts text tid eid existing r fs s1 = (Inr rest, s')" "created = a # rest"
      using Cons.prems by (auto simp: act_simps next_uuid_def now_def Let_def)
    show ?thesis using Cons.IH [OF run(3)] putAssessment_adds [OF run(1)] False run(2,4)
      by (auto simp: list_all_iff beside_assessments_def)
  qed
qed simp

lemma judge_rules_result:
  "judge_rules text tid eid checks existing facts rs s = (Inr created, s') \<Longrightarrow>
     db_assessments s' = db_assessments s @ created \<and> beside_assessments s' = beside_assessments s
   \<and> list_all (\<lambda>a. \<exists>r\<in>set rs. ru_category r \<in> set checks \<and> (\<exists>f\<in>set (rule_facts text r facts).
        \<not> already_judged existing r f \<and> (\<exists>u t. a = rule_assessment text tid eid r f u t))) created
   \<and> list_all (\<lambda>r. ru_category r \<in> set checks \<longrightarrow> list_all (\<lambda>f. already_judged existing r f
        \<or> (\<exists>u t. rule_assessment text tid eid r f u t \<in> set created)) (rule_facts text r facts)) rs"
proof (induction rs arbitrary: s created)
  case (Cons r rs)
  show ?case
  proof (cases "ru_category r \<in> set checks")
    case False
    then show ?thesis using Cons.IH [of s created] Cons.prems by (auto simp: list_all_iff)
  next
    case True
    then obtain mine s1 rest where run: "judge_facts text tid eid existing r (rule_facts text r facts) s = (Inr mine, s1)"
      "judge_rules text tid eid checks existing facts rs s1 = (Inr rest, s')" "created = mine @ rest"
      using Cons.prems by (auto simp: act_simps)
    note mine = judge_facts_result [OF run(1), simplified list_all_iff] and rest = Cons.IH [OF run(2), simplified list_all_iff]
    from mine rest have "db_assessments s' = db_assessments s @ created" "beside_assessments s' = beside_assessments s"
      by (simp_all add: run(3))
    moreover from mine rest True have "list_all (\<lambda>a. \<exists>r\<in>set (r # rs). ru_category r \<in> set checks \<and> (\<exists>f\<in>set (rule_facts text r facts).
        \<not> already_judged existing r f \<and> (\<exists>u t. a = rule_assessment text tid eid r f u t))) created"
      unfolding list_all_iff run(3) by (metis Un_iff list.set_intros set_append)
    moreover from mine rest have "list_all (\<lambda>r. ru_category r \<in> set checks \<longrightarrow> list_all (\<lambda>f. already_judged existing r f
        \<or> (\<exists>u t. rule_assessment text tid eid r f u t \<in> set created)) (rule_facts text r facts)) (r # rs)"
      unfolding list_all_iff run(3) by simp blast
    ultimately show ?thesis by blast
  qed
qed simp

lemma judge_facts_done:
  "list_all (already_judged existing r) fs \<Longrightarrow> judge_facts text tid eid existing r fs s = (Inr [], s)"
  by (induction fs) simp_all

lemma judge_rules_done:
  "list_all (\<lambda>r. ru_category r \<in> set checks \<longrightarrow> list_all (already_judged existing r) (rule_facts text r facts)) rs \<Longrightarrow>
     judge_rules text tid eid checks existing facts rs s = (Inr [], s)"
  by (induction rs) (simp_all add: judge_facts_done bind_act_def)

lemma starts_with_append [simp]: "starts_with p (p @ s)"
  by (simp add: starts_with_def)

lemma judged_now:
  fixes s s' :: "'a fact_db_scheme"
  assumes "db_assessments s' = db_assessments s @ created"
    and "judged tid eid r f s \<or> (\<exists>u t. rule_assessment text tid eid r f u t \<in> set created)"
  shows "judged tid eid r f s'"
proof -
  have in_ledger: "a \<in> set (rule_ledger tid eid x) \<longleftrightarrow> a \<in> set (db_assessments x) \<and> as_taskId a = tid \<and> as_epochId a = eid
      \<and> as_authorType a = AU_RULE" for a and x :: "'a fact_db_scheme"
    by (auto simp: rule_ledger_def listAssessments_def order_by_def)
  from assms(2) show ?thesis
  proof (elim disjE exE)
    assume "judged tid eid r f s"
    then show ?thesis using assms(1) by (auto simp: judged_def already_judged_def list_ex_iff in_ledger)
  next
    fix u t assume "rule_assessment text tid eid r f u t \<in> set created"
    then show ?thesis using assms(1) unfolding judged_def already_judged_def list_ex_iff
      by (intro bexI [of _ "rule_assessment text tid eid r f u t"]) (simp_all add: in_ledger rule_assessment_def)
  qed
qed

text \<open>
  C34. The rules judge each match once. A run of the engine only adds assessments, each by a rule of the
  registry on a fact of the given ones that was observed on the target, is of a checked category,
  matches and was not judged by this rule before; afterwards every match is judged, and running
  the engine again on the same facts adds nothing and changes nothing.
\<close>

theorem rules_judge_each_match_once:
  assumes "evaluateFactRefs text registry tid eid refs s = (Inr created, s')"
  shows "db_assessments s' = db_assessments s @ created
   \<and> list_all (\<lambda>a. \<exists>r\<in>set registry. \<exists>f u t. rule_applies text tid eid refs s r f \<and> \<not> judged tid eid r f s
        \<and> a = rule_assessment text tid eid r f u t) created
   \<and> (\<forall>r\<in>set registry. \<forall>f. rule_applies text tid eid refs s r f \<longrightarrow> judged tid eid r f s')
   \<and> evaluateFactRefs text registry tid eid refs s' = (Inr [], s')"
proof -
  define facts where "facts = filter observed_on_target (filter (\<lambda>f. fr_factId f \<in> set refs) (all_facts tid eid s))"
  show ?thesis
  proof (cases "\<exists>task. getTask tid s = Some task \<and> tc_activeEpochId task = Some eid")
    case False
    then have "created = [] \<and> s' = s"
      using assms by (auto simp: evaluateFactRefs_def evaluateFacts_def act_simps split: option.splits if_splits)
    then show ?thesis using False assms by (auto simp: rule_applies_def)
  next
    case True
    then obtain task where task: "getTask tid s = Some task" "tc_activeEpochId task = Some eid" by blast
    have run: "judge_rules text tid eid (tc_checks task) (rule_ledger tid eid s) facts registry s = (Inr created, s')"
      using assms task by (simp add: evaluateFactRefs_def evaluateFacts_def bind_act_def facts_def rule_ledger_def)
    note r = judge_rules_result [OF run]
    have same: "getTask tid s' = Some task" "all_facts tid eid s' = all_facts tid eid s"
      using r task(1) by (simp_all add: beside_assessments_def getTask_def all_facts_def)
    have applies: "rule_applies text tid eid refs s r f \<longleftrightarrow> ru_category r \<in> set (tc_checks task) \<and> f \<in> set (rule_facts text r facts)" for r f
      using task by (auto simp: rule_applies_def rule_facts_def facts_def)
    have done_now: "judged tid eid r f s'" if "r \<in> set registry" "rule_applies text tid eid refs s r f" for r f
      using r that unfolding applies by (intro judged_now [of s' s created _ _ _ _ "text"]) (auto simp: list_all_iff judged_def)
    have "judge_rules text tid eid (tc_checks task) (rule_ledger tid eid s') facts registry s' = (Inr [], s')"
      using done_now unfolding applies judged_def by (intro judge_rules_done) (auto simp: list_all_iff)
    then have "evaluateFactRefs text registry tid eid refs s' = (Inr [], s')"
      using same task(2) by (simp add: evaluateFactRefs_def evaluateFacts_def bind_act_def facts_def rule_ledger_def)
    then show ?thesis using r done_now by (auto simp: list_all_iff applies judged_def) blast
  qed
qed


section \<open>A process run from a temporary directory\<close>

definition temp_process_store :: db where
  "temp_process_store = empty_db\<lparr>db_tasks := [sample_task\<lparr>tc_checks := [Linux_intrusion_triage]\<rparr>],
     db_epochs := [sample_epoch ''E1''], db_objects := [example_object 1 NS_process],
     db_facts := [example_fact 1 NS_process [(''exe'', Str ''/tmp/x'')]]\<rparr>"

definition temp_process_run :: "(err + assessment list) \<times> db" where
  "temp_process_run = evaluateFactRefs string_of DETERMINISTIC_RULES_V2 ''T1'' ''E1'' [''FACT-x''] temp_process_store"

lemma temp_process_judged: "case fst temp_process_run of Inr created \<Rightarrow> map as_severity created = [MEDIUM] | Inl _ \<Rightarrow> False"
  by code_simp

theorem rules_judge_each_match_once_witness:
  "evaluateFactRefs string_of DETERMINISTIC_RULES_V2 ''T1'' ''E1'' [''FACT-x''] (snd temp_process_run) = (Inr [], snd temp_process_run)
   \<and> length (db_assessments (snd temp_process_run)) = 1"
proof -
  obtain created where c: "fst temp_process_run = Inr created" "length created = 1"
    using temp_process_judged by (cases "fst temp_process_run") (auto simp: length_Suc_conv split: sum.splits)
  from c(1) have "evaluateFactRefs string_of DETERMINISTIC_RULES_V2 ''T1'' ''E1'' [''FACT-x''] temp_process_store
      = (Inr created, snd temp_process_run)"
    unfolding temp_process_run_def by (rule act_result)
  from rules_judge_each_match_once [OF this] show ?thesis
    using c(2) by (simp add: temp_process_store_def empty_defs)
qed

end
