(* ===== verification/Discovery.thy ===== *)
theory Discovery
  imports NetworkIoc Rules Proposals
begin

text \<open>
  \<open>src/discovery/volatile-discovery.ts\<close>: the planner of the work on volatile objects, processes and
  sockets that look suspicious. \<open>digest\<close> is \<open>digestObject\<close>, \<open>text v\<close> stands for \<open>String(v)\<close>.
\<close>

section \<open>Candidates\<close>

record volatile_candidate =
  cd_subject :: fact_record
  cd_triggerFacts :: "fact_record list"
  cd_trigger :: string
  cd_priority :: int

definition tmp_names :: rx where
  "tmp_names = Rx_alt [lit ''tmp'', lit ''dev/shm'', lit ''var/tmp'']"

definition path_in_tmp :: rx where
  "path_in_tmp = Rx_seq [Rx_alt [Rx_start, lit ''/''], tmp_names, lit ''/'']"

definition command_in_tmp :: rx where
  "command_in_tmp = Rx_seq [Rx_alt [Rx_start, rx_space, Rx_in [CHR 0x22, CHR 0x27]], lit ''/'', tmp_names, lit ''/'']"

definition download_command :: rx where
  "download_command = Rx_seq [Rx_alt [Rx_start, rx_space],
     Rx_alt [lit ''curl'', lit ''wget'', lit ''nc'', lit ''ncat'', lit ''socat''], Rx_word_edge]"

definition text_or_empty :: "(js \<Rightarrow> string) \<Rightarrow> js \<Rightarrow> string" where
  "text_or_empty text v = (if nullish v then [] else text v)"

definition unusual_execution :: "(js \<Rightarrow> string) \<Rightarrow> fact_record \<Rightarrow> bool" where
  "unusual_execution text process = (let path = text_or_empty text (private_field process ''exe'');
       command = text_or_empty text (private_field process ''command'') in
     rx_test path_in_tmp path \<or> rx_test (lit ''(deleted)'') path
     \<or> rx_test command_in_tmp command \<or> rx_test download_command command)"

text \<open>The owner of a socket: the last process observed under its pid (a \<open>Map\<close> by pid).\<close>

definition process_by_pid :: "fact_record list \<Rightarrow> js \<Rightarrow> fact_record option" where
  "process_by_pid processes pid = (if is_number pid
     then List.find (\<lambda>f. private_field f ''pid'' = pid) (rev processes) else None)"

definition socket_candidate :: "fact_record list \<Rightarrow> fact_record \<Rightarrow> volatile_candidate list" where
  "socket_candidate processes socket = (let address = private_field socket ''remoteAddress'' in
     if \<not> is_string address \<or> \<not> isPublicThreatIntelIp (string_of address) then []
     else case process_by_pid processes (private_field socket ''pid'') of
       Some process \<Rightarrow> [\<lparr>cd_subject = process, cd_triggerFacts = [socket, process], cd_trigger = ''EXTERNAL_CONNECTION'', cd_priority = 100\<rparr>]
     | None \<Rightarrow> [\<lparr>cd_subject = socket, cd_triggerFacts = [socket], cd_trigger = ''EXTERNAL_CONNECTION'', cd_priority = 90\<rparr>])"

definition add_unusual :: "(js \<Rightarrow> string) \<Rightarrow> fact_record \<Rightarrow> volatile_candidate list \<Rightarrow> volatile_candidate list" where
  "add_unusual text process cs = (if unusual_execution text process
       \<and> \<not> list_ex (\<lambda>c. fr_subjectRef (cd_subject c) = fr_subjectRef process) cs
     then cs @ [\<lparr>cd_subject = process, cd_triggerFacts = [process], cd_trigger = ''UNUSUAL_EXECUTION'', cd_priority = 80\<rparr>] else cs)"

definition facts_of :: "namespace_name \<Rightarrow> fact_record list \<Rightarrow> fact_record list" where
  "facts_of ns facts = latestBySubject (filter (\<lambda>f. fr_namespace f = ns) facts)"

definition volatile_candidates :: "(js \<Rightarrow> string) \<Rightarrow> fact_record list \<Rightarrow> volatile_candidate list" where
  "volatile_candidates text facts = (let processes = facts_of NS_process facts in
     foldl (\<lambda>cs p. add_unusual text p cs) (concat (map (socket_candidate processes) (facts_of NS_socket facts))) processes)"

section \<open>The operations on a candidate\<close>

record volatile_operation =
  vo_obligationKind :: string
  vo_operationRef :: string
  vo_args :: js
  vo_replayPolicy :: replay_policy

definition EXECUTABLE_COLLECT_BYTES :: rat where
  "EXECUTABLE_COLLECT_BYTES = 10 * 1024 * 1024"

definition relate_args :: "id \<Rightarrow> string \<Rightarrow> nat \<Rightarrow> js" where
  "relate_args ref relation limit = Obj [(''ref'', Str ref), (''relation'', Str relation), (''limit'', js_count limit)]"

definition review_args :: "id \<Rightarrow> string \<Rightarrow> js" where
  "review_args ref ns = Obj [(''view'', Str ''facts''), (''namespace'', Str ns), (''subjectRef'', Str ref), (''limit'', js_count 100)]"

definition process_fields :: "string list" where
  "process_fields = [''pid'', ''startTicks'', ''exe'', ''exeDeleted'', ''exeInode'', ''exeSha256'', ''command'', ''launcherPath'',
     ''namespaces'', ''cgroups'', ''mapsSummary'']"

definition operationsFor :: "volatile_candidate \<Rightarrow> volatile_operation list" where
  "operationsFor c = (let ref = fr_subjectRef (cd_subject c);
       op = (\<lambda>kind name args. \<lparr>vo_obligationKind = kind, vo_operationRef = name, vo_args = args, vo_replayPolicy = SAFE_REOBSERVE\<rparr>) in
     if fr_namespace (cd_subject c) = NS_process
     then [op ''VERIFY_PROCESS_IDENTITY'' ''project'' (Obj [(''ref'', Str ref), (''fields'', Arr (map Str process_fields))]),
       \<lparr>vo_obligationKind = ''PRESERVE_EXECUTABLE_EVIDENCE'', vo_operationRef = ''collect'',
         vo_args = Obj [(''ref'', Str ref), (''maxBytes'', Num (Fin EXECUTABLE_COLLECT_BYTES)),
           (''purpose'', Str ''AUTONOMOUS_VOLATILE_PRESERVATION'')], vo_replayPolicy = RESUME_OR_RECOLLECT\<rparr>,
       op ''TRACE_PROCESS_EXECUTABLE'' ''relate'' (relate_args ref ''executable'' 20),
       op ''TRACE_PROCESS_COMMAND_FILES'' ''relate'' (relate_args ref ''command_file'' 100),
       op ''TRACE_PROCESS_PARENT'' ''relate'' (relate_args ref ''parent'' 20),
       op ''TRACE_PROCESS_CONNECTIONS'' ''relate'' (relate_args ref ''connects'' 500),
       op ''TRACE_PROCESS_STARTUP'' ''relate'' (relate_args ref ''started_by'' 100),
       op ''TRACE_PROCESS_OPEN_FILES'' ''relate'' (relate_args ref ''opens'' 500),
       op ''CHECK_PROCESS_COUNTEREVIDENCE'' ''query_facts'' (review_args ref ''process'')]
     else [op ''BIND_SOCKET_OWNER'' ''relate'' (relate_args ref ''owned_by'' 20),
       op ''CHECK_SOCKET_COUNTEREVIDENCE'' ''query_facts'' (review_args ref ''socket'')])"

text \<open>An operation that an action of the planner covers already (\<open>plannedOperations\<close>).\<close>

definition operation_planned :: "(js \<Rightarrow> string) \<Rightarrow> investigation_action list \<Rightarrow> id \<Rightarrow> volatile_operation \<Rightarrow> bool" where
  "operation_planned digest actions ref op \<longleftrightarrow> list_ex (\<lambda>a. ac_requestedBy a = DISCOVERY \<and> ref \<in> set (ac_subjectRefs a)
     \<and> ac_operationRef a @ '':'' @ ac_argsDigest a = vo_operationRef op @ '':'' @ digest (vo_args op)) actions"

definition missing_operations :: "(js \<Rightarrow> string) \<Rightarrow> investigation_action list \<Rightarrow> volatile_candidate \<Rightarrow> nat" where
  "missing_operations digest actions c =
     length (filter (\<lambda>op. \<not> operation_planned digest actions (fr_subjectRef (cd_subject c)) op) (operationsFor c))"

definition round_of :: "id \<Rightarrow> string" where
  "round_of ref = ''SUBJECT:'' @ ref"

definition put_lead :: "volatile_candidate \<Rightarrow> id \<Rightarrow> id \<Rightarrow> ('a db_scheme, investigation_lead) act" where
  "put_lead c tid eid = bind_act now (\<lambda>t. bind_act next_uuid (\<lambda>u.
     putInvestigationLead \<lparr>ld_leadId = ''LEAD-'' @ u, ld_taskId = tid, ld_epochId = eid, ld_subjectRef = fr_subjectRef (cd_subject c),
       ld_triggerKind = cd_trigger c, ld_triggerVersion = ''1.0.0'', ld_triggerFactRefs = map fr_factId (cd_triggerFacts c),
       ld_observationRound = round_of (fr_subjectRef (cd_subject c)), ld_priority = cd_priority c, ld_status = LD_OPEN,
       ld_createdAt = t, ld_updatedAt = t\<rparr>))"

definition optional_kinds :: "string list" where
  "optional_kinds = [''CHECK_PROCESS_COUNTEREVIDENCE'', ''CHECK_SOCKET_COUNTEREVIDENCE'']"

definition volatile_obligation :: "investigation_lead \<Rightarrow> volatile_operation \<Rightarrow> time \<Rightarrow> string \<Rightarrow> investigation_obligation" where
  "volatile_obligation lead op t u = \<lparr>ob_obligationId = ''OBL-'' @ u, ob_taskId = ld_taskId lead, ob_epochId = ld_epochId lead,
     ob_hypothesisId = None, ob_obligationKind = vo_obligationKind op,
     ob_dedupeKey = vo_obligationKind op @ '':'' @ ld_subjectRef lead, ob_subjectRefs = [ld_subjectRef lead],
     ob_required = (vo_obligationKind op \<notin> set optional_kinds), ob_status = OB_QUEUED, ob_resultRefs = [], ob_gapRefs = [],
     ob_createdAt = t, ob_updatedAt = t\<rparr>"

definition action_key :: "(js \<Rightarrow> string) \<Rightarrow> id \<Rightarrow> id \<Rightarrow> string \<Rightarrow> id \<Rightarrow> string \<Rightarrow> string" where
  "action_key digest tid eid operationRef ref argsDigest = digest (Obj [(''taskId'', Str tid), (''epochId'', Str eid),
     (''operationRef'', Str operationRef), (''subjectRef'', Str ref), (''argsDigest'', Str argsDigest), (''observationRound'', Str (round_of ref))])"

definition last_version :: "id \<Rightarrow> id \<Rightarrow> id \<Rightarrow> 'a db_scheme \<Rightarrow> id list" where
  "last_version tid eid ref s = (case rev (listEntityVersions tid eid (Some ref) s) of [] \<Rightarrow> [] | v # _ \<Rightarrow> [vn_versionRef v])"

definition volatile_action ::
  "(js \<Rightarrow> string) \<Rightarrow> investigation_session \<Rightarrow> investigation_lead \<Rightarrow> id \<Rightarrow> id list \<Rightarrow> nat \<Rightarrow> volatile_operation \<Rightarrow> time \<Rightarrow> string \<Rightarrow>
   investigation_action" where
  "volatile_action digest session lead oid versions i op t u = (let dg = digest (vo_args op); ref = ld_subjectRef lead in
     \<lparr>ac_actionId = ''IACT-'' @ u, ac_taskId = ld_taskId lead, ac_epochId = ld_epochId lead,
      ac_kind = (if vo_operationRef op = ''query_facts'' then LOCAL_QUERY else REMOTE_PRIMITIVE), ac_requestedBy = DISCOVERY,
      ac_obligationIds = [oid], ac_subjectRefs = [ref], ac_entityVersionRefs = versions, ac_operationRef = vo_operationRef op,
      ac_replayPolicy = vo_replayPolicy op, ac_args = vo_args op, ac_argsDigest = dg, ac_dependsOn = [],
      ac_authorizationVersion = ss_authorizationVersion session, ac_observationRound = ld_observationRound lead,
      ac_idempotencyKey = digest (Obj [(''taskId'', Str (ld_taskId lead)), (''epochId'', Str (ld_epochId lead)),
        (''operationRef'', Str (vo_operationRef op)), (''subjectRef'', Str ref), (''argsDigest'', Str dg),
        (''observationRound'', Str (ld_observationRound lead))]),
      ac_priority = ld_priority lead - int i, ac_status = AC_READY, ac_revision = 0, ac_workerId = None, ac_resultRefs = None,
      ac_error = None, ac_createdAt = t, ac_updatedAt = t\<rparr>)"

definition plan_operation ::
  "(js \<Rightarrow> string) \<Rightarrow> investigation_session \<Rightarrow> investigation_lead \<Rightarrow> nat \<times> volatile_operation \<Rightarrow> ('a db_scheme, id \<times> id) act" where
  "plan_operation digest session lead = (\<lambda>(i, op). bind_act now (\<lambda>t. bind_act next_uuid (\<lambda>u.
     bind_act (putInvestigationObligation (volatile_obligation lead op t u)) (\<lambda>ob. bind_act next_uuid (\<lambda>u'.
     bind_act (read_act (last_version (ld_taskId lead) (ld_epochId lead) (ld_subjectRef lead))) (\<lambda>versions.
     bind_act (putInvestigationAction (volatile_action digest session lead (ob_obligationId ob) versions i op t u')) (\<lambda>stored.
     return_act (ob_obligationId ob, ac_actionId stored))))))))"

definition planSubject ::
  "(js \<Rightarrow> string) \<Rightarrow> investigation_session \<Rightarrow> volatile_candidate \<Rightarrow> investigation_lead \<Rightarrow> ('a db_scheme, (id \<times> id) list) act" where
  "planSubject digest session c lead = map_act (plan_operation digest session lead) (enumerate 0 (operationsFor c))"

section \<open>The plan\<close>

record discovery_plan =
  dp_leadIds :: "id list"
  dp_obligationIds :: "id list"
  dp_actionIds :: "id list"

definition empty_plan :: discovery_plan where
  "empty_plan = \<lparr>dp_leadIds = [], dp_obligationIds = [], dp_actionIds = []\<rparr>"

text \<open>One candidate after the other, as long as its missing actions fit into the free slots of the queue.\<close>

fun plan_candidates ::
  "(js \<Rightarrow> string) \<Rightarrow> investigation_session \<Rightarrow> id \<Rightarrow> id \<Rightarrow> investigation_action list \<Rightarrow> int \<Rightarrow> volatile_candidate list \<Rightarrow> discovery_plan \<Rightarrow>
   ('a db_scheme, discovery_plan) act" where
  "plan_candidates digest session tid eid actions slots [] p = return_act p"
| "plan_candidates digest session tid eid actions slots (c # cs) p = (let missing = int (missing_operations digest actions c) in
     if missing > slots then plan_candidates digest session tid eid actions slots cs p
     else bind_act (put_lead c tid eid) (\<lambda>lead. bind_act (planSubject digest session c lead) (\<lambda>ids.
       plan_candidates digest session tid eid actions (slots - missing) cs
         \<lparr>dp_leadIds = dp_leadIds p @ [ld_leadId lead], dp_obligationIds = dp_obligationIds p @ map fst ids,
          dp_actionIds = dp_actionIds p @ map snd ids\<rparr>)))"

definition scope_status :: "coverage_run option \<Rightarrow> bool \<Rightarrow> obligation_status" where
  "scope_status coverage limit_reached = (case coverage of None \<Rightarrow> OB_OPEN
     | Some r \<Rightarrow> if cr_status r = CV_COMPLETE \<and> \<not> limit_reached then OB_SATISFIED else OB_LIMITED)"

definition reason_codes :: "coverage_run option \<Rightarrow> string list" where
  "reason_codes coverage = (case coverage of None \<Rightarrow> [''COVERAGE_NOT_RECORDED'']
     | Some r \<Rightarrow> map (\<lambda>(criterion, reason, detail). reason) (cr_missingCriteria r))"

definition scope_obligation :: "id \<Rightarrow> id \<Rightarrow> obligation_status \<Rightarrow> id list \<Rightarrow> string list \<Rightarrow> time \<Rightarrow> string \<Rightarrow> investigation_obligation" where
  "scope_obligation tid eid status results gaps t u = \<lparr>ob_obligationId = ''OBL-'' @ u, ob_taskId = tid, ob_epochId = eid,
     ob_hypothesisId = None, ob_obligationKind = ''VOLATILE_DISCOVERY_SCOPE'', ob_dedupeKey = ''VOLATILE_DISCOVERY_SCOPE'',
     ob_subjectRefs = [], ob_required = True, ob_status = status, ob_resultRefs = results, ob_gapRefs = gaps,
     ob_createdAt = t, ob_updatedAt = t\<rparr>"

text \<open>The obligation on the scope follows the state of the discovery, whatever it said before.\<close>

definition update_scope ::
  "(js \<Rightarrow> string) \<Rightarrow> investigation_obligation \<Rightarrow> obligation_status \<Rightarrow> id list \<Rightarrow> string list \<Rightarrow> time \<Rightarrow> ('a db_scheme, unit) act" where
  "update_scope digest stored status results gaps t =
     (if ob_status stored \<noteq> status \<or> digest (js_ids (ob_resultRefs stored)) \<noteq> digest (js_ids results)
         \<or> digest (js_ids (ob_gapRefs stored)) \<noteq> digest (js_ids gaps)
      then updateInvestigationObligation (stored\<lparr>ob_status := status, ob_resultRefs := results, ob_gapRefs := gaps, ob_updatedAt := t\<rparr>)
        (ob_status stored)
      else return_act ())"

definition record_scope ::
  "(js \<Rightarrow> string) \<Rightarrow> id \<Rightarrow> id \<Rightarrow> obligation_status \<Rightarrow> id list \<Rightarrow> string list \<Rightarrow> time \<Rightarrow> ('a db_scheme, investigation_obligation) act" where
  "record_scope digest tid eid status results gaps t = bind_act next_uuid (\<lambda>u.
     bind_act (putInvestigationObligation (scope_obligation tid eid status results gaps t u)) (\<lambda>stored.
     seq_act (update_scope digest stored status results gaps t) (return_act stored)))"

definition volatile_checkpoint ::
  "(js \<Rightarrow> string) \<Rightarrow> id \<Rightarrow> id \<Rightarrow> obligation_status \<Rightarrow> nat \<Rightarrow> nat \<Rightarrow> nat \<Rightarrow> nat \<Rightarrow> time \<Rightarrow> string \<Rightarrow> discovery_checkpoint" where
  "volatile_checkpoint digest tid eid status scanned matched returned pending t u =
     \<lparr>ck_checkpointId = ''DCP-'' @ u, ck_taskId = tid, ck_epochId = eid, ck_namespace = NS_process,
      ck_requestDigest = digest (Obj [(''planner'', Str ''volatile-discovery@1.0.0''),
        (''namespaces'', Arr [Str ''process'', Str ''socket''])]),
      ck_status = (if status = OB_SATISFIED then CK_COMPLETE else if status = OB_OPEN then CK_RUNNING else CK_LIMITED),
      ck_sourceGeneration = None, ck_cursorRef = None, ck_scannedCount = scanned, ck_matchedCount = matched,
      ck_returnedCount = returned,
      ck_remainingDescription = (if returned < pending then Some (decimal (pending - returned) @ '' CANDIDATES_LEFT'') else None),
      ck_createdAt = t, ck_updatedAt = t\<rparr>"

definition finish_discovery ::
  "(js \<Rightarrow> string) \<Rightarrow> id \<Rightarrow> id \<Rightarrow> fact_record list \<Rightarrow> nat \<Rightarrow> nat \<Rightarrow> discovery_plan \<Rightarrow> ('a db_scheme, discovery_plan) act" where
  "finish_discovery digest tid eid facts matched pending p = bind_act now (\<lambda>t.
     bind_act (read_act (\<lambda>s. List.find (\<lambda>r. cr_category r = Linux_intrusion_triage) (listCoverageRuns tid eid s))) (\<lambda>coverage.
     let reached = length (dp_leadIds p) < pending;
         status = scope_status coverage reached;
         results = map fr_factId (filter (\<lambda>f. fr_namespace f = NS_process \<or> fr_namespace f = NS_socket) facts);
         gaps = reason_codes coverage @ (if reached then [''CANDIDATE_QUEUE_LIMIT''] else []) in
     bind_act (record_scope digest tid eid status results gaps t) (\<lambda>stored.
     bind_act next_uuid (\<lambda>u. bind_act (putDiscoveryCheckpoint (volatile_checkpoint digest tid eid status
         (length (facts_of NS_process facts) + length (facts_of NS_socket facts)) matched (length (dp_leadIds p)) pending t u)) (\<lambda>_.
     return_act \<lparr>dp_leadIds = dp_leadIds p, dp_obligationIds = unique (dp_obligationIds p @ [ob_obligationId stored]),
       dp_actionIds = unique (dp_actionIds p)\<rparr>)))))"

definition volatile_plan ::
  "(js \<Rightarrow> string) \<Rightarrow> (js \<Rightarrow> string) \<Rightarrow> id \<Rightarrow> id \<Rightarrow> investigation_session \<Rightarrow> ('a db_scheme, discovery_plan) act" where
  "volatile_plan digest text tid eid session = bind_act (read_act (getTask tid)) (\<lambda>task.
     if (case task of None \<Rightarrow> True | Some k \<Rightarrow> Linux_intrusion_triage \<notin> set (tc_checks k)) then return_act empty_plan
     else bind_act (read_act (\<lambda>s. (all_facts tid eid s, listInvestigationActions tid eid s))) (\<lambda>(facts, actions).
       let candidates = volatile_candidates text facts;
           slots = int MAX_ACTIVE_INVESTIGATION_ACTIONS - int (length (filter (\<lambda>a. action_active (ac_status a)) actions));
           pending = filter (\<lambda>c. 0 < missing_operations digest actions c) candidates in
       bind_act (plan_candidates digest session tid eid actions slots (take 100 pending) empty_plan) (\<lambda>p.
       finish_discovery digest tid eid facts (length candidates) (length pending) p)))"

end
