(* ===== verification/Playbooks.thy ===== *)
theory Playbooks
  imports Discovery
begin

text \<open>
  \<open>src/playbooks/registry.ts\<close>: the planner of the investigations on candidates of every kind. \<open>digest\<close>
  is \<open>digestObject\<close>, \<open>text v\<close> stands for \<open>String(v)\<close>, \<open>collate\<close> and \<open>parse\<close> are those of the projection.
  The sentences of claims and alternatives are replaced by codes.
\<close>

section \<open>Which facts are candidates\<close>

definition rx_ext :: rx where
  "rx_ext = Rx_alt [Rx_seq [lit ''php'', Rx_star (Rx_in digit_chars)], lit ''phtml'', lit ''phar'', lit ''jsp'', lit ''jspx'',
     lit ''asp'', lit ''aspx'', lit ''cgi'', lit ''pl'', lit ''py'']"

definition user_ini :: rx where
  "user_ini = Rx_seq [Rx_alt [Rx_start, lit ''/''], lit ''.user.ini'', Rx_end]"

definition script_file :: rx where
  "script_file = Rx_seq [lit ''.'', rx_ext, Rx_end]"

definition isWebCandidate :: "fact_record \<Rightarrow> bool" where
  "isWebCandidate f \<longleftrightarrow> fr_namespace f = NS_file \<and> fs_kind (fr_source f) = SK_PRESET
     \<and> fs_presetId (fr_source f) = Some ''webshell-baseline'' \<and> is_string (private_field f ''path'')
     \<and> (rx_test_i user_ini (string_of (private_field f ''path'')) \<or> rx_test_i script_file (string_of (private_field f ''path'')))"

definition edge_into :: "edge_record list \<Rightarrow> id \<Rightarrow> string list \<Rightarrow> bool" where
  "edge_into edges ref relations \<longleftrightarrow> list_ex (\<lambda>e. eg_toRef e = ref \<and> eg_relation e \<in> set relations) edges"

definition local_address :: rx where
  "local_address = Rx_seq [Rx_start, Rx_alt [lit ''127.'', lit ''10.'', lit ''192.168.'', lit ''169.254.'', lit ''0.'',
     Rx_seq [lit ''::1'', Rx_end], lit ''fc'', lit ''fd'', lit ''fe80'']]"

definition isPlaybookCandidate :: "(js \<Rightarrow> string) \<Rightarrow> fact_record \<Rightarrow> bool \<Rightarrow> edge_record list \<Rightarrow> bool" where
  "isPlaybookCandidate text f hasRiskAssessment edges = (
     if hasRiskAssessment then True
     else if fr_namespace f = NS_file then isWebCandidate f
       \<or> edge_into edges (fr_subjectRef f) [''executable'', ''command_file'', ''executes'', ''references'']
     else if fr_namespace f \<in> {NS_cron_entry, NS_unit, NS_persistence} then edge_into edges (fr_subjectRef f) [''started_by'']
     else if fr_namespace f = NS_socket then is_string (private_field f ''remoteAddress'')
       \<and> \<not> rx_test_i local_address (string_of (private_field f ''remoteAddress''))
     else if fr_namespace f = NS_process then
       (let exe = text_or_empty text (private_field f ''exe''); command = text_or_empty text (private_field f ''command'') in
        strict_eq (private_field f ''exeDeleted'') (Bool True) \<or> rx_test path_in_tmp exe
        \<or> rx_test command_in_tmp command \<or> rx_test download_command command)
     else False)"

definition categoriesForFact :: "fact_record \<Rightarrow> check_category list \<Rightarrow> edge_record list \<Rightarrow> check_category list \<Rightarrow> check_category list" where
  "categoriesForFact f checks edges risk = (let ns = fr_namespace f; ref = fr_subjectRef f;
       add = (\<lambda>c cond. if c \<in> set checks \<and> cond then [c] else []) in
     unique (filter (\<lambda>c. c \<in> set checks) risk
       @ add Webshell (ns = NS_file \<and> (Webshell \<in> set risk \<or> isWebCandidate f))
       @ add Linux_persistence (ns = NS_file \<and> edge_into edges ref [''executes'', ''referenced_by_persistence''])
       @ add Linux_intrusion_triage (ns = NS_file \<and> edge_into edges ref [''executable'', ''command_file'', ''executes''])
       @ add Backdoor_account (ns = NS_file \<and> edge_into edges ref [''references''])
       @ add Backdoor_account (ns \<in> {NS_account, NS_ssh_key, NS_delegation_rule, NS_ssh_trust_config})
       @ add Linux_persistence (ns \<in> {NS_cron_entry, NS_unit, NS_persistence})
       @ add Linux_intrusion_triage (ns \<in> {NS_cron_entry, NS_unit, NS_persistence} \<and> edge_into edges ref [''started_by''])
       @ add Java_memory_shell (ns \<in> {NS_jvm, NS_java_component, NS_class})
       @ add Linux_intrusion_triage (ns \<in> {NS_process, NS_socket, NS_exec_event})))"

section \<open>What is done about a candidate\<close>

record planned_operation =
  po_obligationKind :: string
  po_operationRef :: string
  po_args :: js
  po_required :: bool
  po_replayPolicy :: replay_policy
  po_priority :: int

definition MAX_COLLECT_BYTES :: rat where
  "MAX_COLLECT_BYTES = 104857600"

definition DEFAULT_EXECUTABLE_COLLECT_BYTES :: rat where
  "DEFAULT_EXECUTABLE_COLLECT_BYTES = 10 * 1024 * 1024"

definition collectBytesForFact :: "fact_record \<Rightarrow> rat" where
  "collectBytesForFact f = (case private_field f ''size'' of
     Num (Fin q) \<Rightarrow> if fr_namespace f = NS_file \<and> is_safe q \<and> 0 \<le> q then min MAX_COLLECT_BYTES (max 1 q)
       else DEFAULT_EXECUTABLE_COLLECT_BYTES
   | _ \<Rightarrow> DEFAULT_EXECUTABLE_COLLECT_BYTES)"

definition plan_op :: "string \<Rightarrow> string \<Rightarrow> js \<Rightarrow> bool \<Rightarrow> int \<Rightarrow> planned_operation" where
  "plan_op kind name args required priority = \<lparr>po_obligationKind = kind, po_operationRef = name, po_args = args,
     po_required = required, po_replayPolicy = SAFE_REOBSERVE, po_priority = priority\<rparr>"

definition relate_op :: "string \<Rightarrow> id \<Rightarrow> string \<Rightarrow> nat \<Rightarrow> bool \<Rightarrow> int \<Rightarrow> planned_operation" where
  "relate_op kind ref relation limit = plan_op kind ''relate'' (relate_args ref relation limit)"

definition review_op :: "string \<Rightarrow> fact_record \<Rightarrow> int \<Rightarrow> planned_operation" where
  "review_op kind f = plan_op kind ''query_facts'' (review_args (fr_subjectRef f) (namespace_label (fr_namespace f))) False"

definition project_op :: "string \<Rightarrow> id \<Rightarrow> string list \<Rightarrow> int \<Rightarrow> planned_operation" where
  "project_op kind ref names = plan_op kind ''project'' (Obj [(''ref'', Str ref), (''fields'', Arr (map Str names))]) True"

definition baseline_op :: "string \<Rightarrow> id \<Rightarrow> int \<Rightarrow> planned_operation" where
  "baseline_op kind ref = plan_op kind ''verify'' (Obj [(''ref'', Str ref), (''baseline'', Str ''package_db'')]) False"

definition collect_op :: "string \<Rightarrow> fact_record \<Rightarrow> string \<Rightarrow> int \<Rightarrow> planned_operation" where
  "collect_op kind f purpose priority = (plan_op kind ''collect'' (Obj [(''ref'', Str (fr_subjectRef f)),
     (''maxBytes'', Num (Fin (collectBytesForFact f))), (''purpose'', Str purpose)]) True priority)\<lparr>po_replayPolicy := RESUME_OR_RECOLLECT\<rparr>"

definition probe_op :: "string \<Rightarrow> id \<Rightarrow> string \<Rightarrow> (string \<times> js) list \<Rightarrow> int \<Rightarrow> planned_operation" where
  "probe_op kind ref probe parameters =
     plan_op kind ''probe'' (Obj [(''ref'', Str ref), (''probeKind'', Str probe), (''parameters'', Obj parameters)]) True"

definition derive_op :: "string \<Rightarrow> string \<Rightarrow> fact_record \<Rightarrow> int \<Rightarrow> planned_operation" where
  "derive_op kind resolver f =
     plan_op kind ''resolve_derived_objects'' (Obj [(''resolverRef'', Str resolver), (''sourceFactRef'', Str (fr_factId f))]) False"

definition file_fields :: "string list" where
  "file_fields = [''path'', ''size'', ''mtime'', ''sha256'', ''contentClass'']"

definition web_operations :: "fact_record \<Rightarrow> planned_operation list" where
  "web_operations f = (let ref = fr_subjectRef f; content = private_field f ''content'' in
     if is_string content \<and> starts_with ''YARA_MATCH:'' (string_of content)
     then [collect_op ''WEB_PRESERVE_CANDIDATE'' f ''WEB_CANDIDATE_PRESERVATION'' 96,
       project_op ''WEB_VERIFY_FILE_VERSION'' ref file_fields 92,
       baseline_op ''WEB_PACKAGE_COUNTERCHECK'' ref 78,
       relate_op ''WEB_TRACE_REQUESTS'' ref ''requested_in'' 500 False 84,
       relate_op ''WEB_TRACE_WORKER'' ref ''opened_by'' 100 False 82,
       relate_op ''WEB_TRACE_PERSISTENCE'' ref ''referenced_by_persistence'' 100 False 76,
       review_op ''WEB_QUERY_COUNTEREVIDENCE'' f 68]
     else [plan_op ''WEB_MATCH_BUILTIN_RULESET'' ''match'' (Obj [(''refs'', Arr [Str ref]),
         (''matcher'', Obj [(''engine'', Str ''yara''), (''ruleSetRef'', Str ''RULESET-WEBSHELL-BUILTIN-2'')]),
         (''maxHits'', js_count 20), (''includeContext'', Bool False)]) True 94,
       relate_op ''WEB_TRACE_REQUESTS'' ref ''requested_in'' 500 False 76,
       relate_op ''WEB_TRACE_WORKER'' ref ''opened_by'' 100 False 74,
       relate_op ''WEB_TRACE_PERSISTENCE'' ref ''referenced_by_persistence'' 100 False 70])"

definition file_operations :: "fact_record \<Rightarrow> check_category \<Rightarrow> planned_operation list" where
  "file_operations f category = (let ref = fr_subjectRef f in case category of
     Webshell \<Rightarrow> web_operations f
   | Linux_persistence \<Rightarrow> [project_op ''PERSISTENCE_VERIFY_TARGET_FILE'' ref file_fields 84,
       baseline_op ''PERSISTENCE_BASELINE_TARGET_FILE'' ref 72,
       collect_op ''PERSISTENCE_PRESERVE_TARGET_FILE'' f ''PERSISTENCE_TARGET_PRESERVATION'' 88]
   | Linux_intrusion_triage \<Rightarrow> [project_op ''PROCESS_FILE_VERIFY_VERSION'' ref file_fields 86,
       baseline_op ''PROCESS_FILE_PACKAGE_COUNTERCHECK'' ref 76,
       collect_op ''PROCESS_FILE_PRESERVE'' f ''PROCESS_RELATED_FILE_PRESERVATION'' 92,
       relate_op ''PROCESS_FILE_TRACE_PERSISTENCE'' ref ''referenced_by_persistence'' 100 True 82,
       relate_op ''PROCESS_FILE_TRACE_OPENERS'' ref ''opened_by'' 100 False 68,
       review_op ''PROCESS_FILE_COUNTEREVIDENCE'' f 60]
   | Backdoor_account \<Rightarrow> [project_op ''ACCOUNT_VERIFY_TRUST_FILE'' ref file_fields 86,
       collect_op ''ACCOUNT_PRESERVE_TRUST_FILE'' f ''SSH_TRUST_EVIDENCE'' 90,
       baseline_op ''ACCOUNT_TRUST_FILE_PACKAGE_COUNTERCHECK'' ref 70,
       review_op ''ACCOUNT_TRUST_FILE_COUNTEREVIDENCE'' f 60]
   | Java_memory_shell \<Rightarrow> [])"

definition model_keys :: "fact_record \<Rightarrow> string list" where
  "model_keys f = take 20 (map fst (fr_modelPayload f))"

definition java_operations :: "fact_record \<Rightarrow> edge_record list \<Rightarrow> planned_operation list" where
  "java_operations f edges = (let className = private_field f ''className''; loader = private_field f ''classLoaderId'';
       parameters = [(''className'', className), (''classLoaderId'', loader)] in
     case List.find (\<lambda>e. eg_toRef e = fr_subjectRef f \<and> eg_relation e = ''hosts_component'') edges of
       None \<Rightarrow> []
     | Some e \<Rightarrow> if eg_fromRef e \<noteq> [] \<and> isUsableJavaClassIdentifier className \<and> isUsableJavaClassIdentifier loader
         then [probe_op ''JAVA_INSPECT_EXACT_CLASS'' (eg_fromRef e) ''jvm.class.inspect'' parameters 88,
           (probe_op ''JAVA_PRESERVE_BYTECODE'' (eg_fromRef e) ''jvm.class.dump'' parameters 92)\<lparr>po_replayPolicy := RESUME_OR_RECOLLECT\<rparr>]
         else [])"

definition trust_files :: "string list" where
  "trust_files = [''authorizedkeysfile'', ''trustedusercakeys'', ''authorizedprincipalsfile'']"

definition operationsForFact :: "(js \<Rightarrow> string) \<Rightarrow> fact_record \<Rightarrow> check_category \<Rightarrow> edge_record list \<Rightarrow> planned_operation list" where
  "operationsForFact text f category edges = (let ref = fr_subjectRef f; ns = fr_namespace f in
     if ns = NS_file then file_operations f category
     else if ns = NS_account then [
       project_op ''ACCOUNT_VERIFY_CURRENT_STATE'' ref [''uid'', ''username'', ''gid'', ''home'', ''shell'', ''groups'', ''locked''] 80,
       relate_op ''ACCOUNT_TRACE_KEYS'' ref ''authorized_key'' 100 True 75,
       relate_op ''ACCOUNT_TRACE_LOGIN'' ref ''login_event'' 100 False 70]
     else if ns = NS_ssh_key then [relate_op ''ACCOUNT_BIND_KEY_OWNER'' ref ''owned_by'' 20 True 82,
       review_op ''ACCOUNT_REVIEW_KEY_SOURCE'' f 68]
     else if ns = NS_delegation_rule \<or> ns = NS_ssh_trust_config then
       project_op ''ACCOUNT_VERIFY_EFFECTIVE_TRUST'' ref (model_keys f) 80
       # (if ns = NS_ssh_trust_config \<and> text (private_field f ''directive'') \<in> set trust_files
          then [relate_op ''ACCOUNT_TRACE_TRUST_FILE'' ref ''references'' 20 False 76] else [])
       @ [review_op ''ACCOUNT_REVIEW_TRUST_COUNTEREVIDENCE'' f 66]
     else if ns \<in> {NS_cron_entry, NS_unit, NS_persistence} then [
       project_op ''PERSISTENCE_VERIFY_SOURCE'' ref (model_keys f) 82,
       relate_op ''PERSISTENCE_TRACE_EXECUTION'' ref ''executes'' 100 True 76,
       review_op ''PERSISTENCE_QUERY_COUNTEREVIDENCE'' f 65]
     else if ns = NS_jvm then [probe_op ''JAVA_INVENTORY_RUNTIME'' ref ''jvm.tomcat.inventory'' [] 85]
     else if ns = NS_java_component then java_operations f edges
     else if ns = NS_class then [review_op ''JAVA_QUERY_CLASS_COUNTEREVIDENCE'' f 68]
     else if ns = NS_socket then [relate_op ''BIND_SOCKET_OWNER'' ref ''owned_by'' 20 True 92,
       derive_op ''PROCESS_EGRESS_DERIVE_OWNER'' ''socket.owner_by_pid@1.0.0'' f 74,
       review_op ''PROCESS_EGRESS_LOCAL_REVIEW'' f 58]
     else if ns = NS_process then [project_op ''VERIFY_PROCESS_IDENTITY'' ref process_fields 98,
       collect_op ''PRESERVE_EXECUTABLE_EVIDENCE'' f ''AUTONOMOUS_VOLATILE_PRESERVATION'' 97,
       relate_op ''TRACE_PROCESS_EXECUTABLE'' ref ''executable'' 20 True 94,
       relate_op ''TRACE_PROCESS_COMMAND_FILES'' ref ''command_file'' 100 True 92,
       relate_op ''TRACE_PROCESS_PARENT'' ref ''parent'' 20 True 90,
       relate_op ''TRACE_PROCESS_CONNECTIONS'' ref ''connects'' 500 True 88,
       relate_op ''TRACE_PROCESS_OPEN_FILES'' ref ''opens'' 500 False 84,
       relate_op ''TRACE_PROCESS_STARTUP'' ref ''started_by'' 100 True 86,
       derive_op ''PROCESS_EGRESS_DERIVE_PARENT'' ''process.parent_by_ppid@1.0.0'' f 72,
       review_op ''CHECK_PROCESS_COUNTEREVIDENCE'' f 58]
     else [])"

section \<open>Hypotheses, obligations, actions\<close>

text \<open>Codes of the sentences, one for each category and namespace.\<close>

definition claimFor :: "check_category \<Rightarrow> namespace_name \<Rightarrow> string" where
  "claimFor category ns = namespace_label ns @ '' MAY_BELONG_TO '' @ category_name category"

definition benignAlternatives :: "check_category \<Rightarrow> string list" where
  "benignAlternatives category = (case category of
     Webshell \<Rightarrow> [''CMS_OR_DEPLOYMENT'', ''APPROVED_SCRIPT'']
   | Java_memory_shell \<Rightarrow> [''DYNAMIC_PROXY_OR_APM'', ''HOT_DEPLOYMENT'']
   | Backdoor_account \<Rightarrow> [''APPROVED_ADMIN_OR_KEY_ROTATION'']
   | Linux_persistence \<Rightarrow> [''PACKAGE_OR_CONFIGURATION_MANAGEMENT'']
   | Linux_intrusion_triage \<Rightarrow> [''NORMAL_SERVICE'', ''MAINTENANCE_OR_UPDATE''])"

definition playbook_hypothesis :: "id \<Rightarrow> id \<Rightarrow> fact_record \<Rightarrow> check_category \<Rightarrow> time \<Rightarrow> string \<Rightarrow> investigation_hypothesis" where
  "playbook_hypothesis tid eid f category t u = \<lparr>hy_hypothesisId = ''HYP-'' @ u, hy_taskId = tid, hy_epochId = eid,
     hy_subjectRef = fr_subjectRef f, hy_claim = claimFor category (fr_namespace f), hy_proposedBy = PLAYBOOK,
     hy_supportRefs = [fr_factId f], hy_counterEvidenceRefs = [], hy_alternativeExplanations = benignAlternatives category,
     hy_status = HY_OPEN, hy_revision = 0, hy_createdAt = t, hy_updatedAt = t\<rparr>"

definition ensureHypothesis :: "id \<Rightarrow> id \<Rightarrow> fact_record \<Rightarrow> check_category \<Rightarrow> ('a db_scheme, investigation_hypothesis) act" where
  "ensureHypothesis tid eid f category = bind_act (read_act (\<lambda>s. List.find (\<lambda>h. hy_subjectRef h = fr_subjectRef f
       \<and> hy_claim h = claimFor category (fr_namespace f) \<and> hy_proposedBy h = PLAYBOOK) (listInvestigationHypotheses tid eid s)))
     (\<lambda>existing. case existing of Some h \<Rightarrow> return_act h
      | None \<Rightarrow> bind_act now (\<lambda>t. bind_act next_uuid (\<lambda>u. let h = playbook_hypothesis tid eid f category t u in
          seq_act (putInvestigationHypothesis h) (return_act h))))"

definition playbook_obligation :: "investigation_hypothesis \<Rightarrow> planned_operation \<Rightarrow> time \<Rightarrow> string \<Rightarrow> investigation_obligation" where
  "playbook_obligation h op t u = \<lparr>ob_obligationId = ''OBL-'' @ u, ob_taskId = hy_taskId h, ob_epochId = hy_epochId h,
     ob_hypothesisId = Some (hy_hypothesisId h), ob_obligationKind = po_obligationKind op,
     ob_dedupeKey = po_obligationKind op @ '':'' @ hy_subjectRef h, ob_subjectRefs = [hy_subjectRef h],
     ob_required = po_required op, ob_status = OB_QUEUED, ob_resultRefs = [], ob_gapRefs = [], ob_createdAt = t, ob_updatedAt = t\<rparr>"

definition playbook_action ::
  "(js \<Rightarrow> string) \<Rightarrow> investigation_session \<Rightarrow> investigation_hypothesis \<Rightarrow> id \<Rightarrow> id list \<Rightarrow> planned_operation \<Rightarrow> time \<Rightarrow> string \<Rightarrow>
   investigation_action" where
  "playbook_action digest session h oid versions op t u = (let dg = digest (po_args op); ref = hy_subjectRef h in
     \<lparr>ac_actionId = ''IACT-'' @ u, ac_taskId = hy_taskId h, ac_epochId = hy_epochId h,
      ac_kind = (if po_operationRef op = ''query_facts'' then LOCAL_QUERY
        else if po_operationRef op = ''resolve_derived_objects'' then DERIVE else REMOTE_PRIMITIVE), ac_requestedBy = PLAYBOOK,
      ac_obligationIds = [oid], ac_subjectRefs = [ref], ac_entityVersionRefs = versions, ac_operationRef = po_operationRef op,
      ac_replayPolicy = po_replayPolicy op, ac_args = po_args op, ac_argsDigest = dg, ac_dependsOn = [],
      ac_authorizationVersion = ss_authorizationVersion session, ac_observationRound = round_of ref,
      ac_idempotencyKey = action_key digest (hy_taskId h) (hy_epochId h) (po_operationRef op) ref dg,
      ac_priority = po_priority op, ac_status = AC_READY, ac_revision = 0, ac_workerId = None, ac_resultRefs = None,
      ac_error = None, ac_createdAt = t, ac_updatedAt = t\<rparr>)"

definition putOperation ::
  "(js \<Rightarrow> string) \<Rightarrow> investigation_session \<Rightarrow> investigation_hypothesis \<Rightarrow> planned_operation \<Rightarrow> ('a db_scheme, id \<times> id) act" where
  "putOperation digest session h op = bind_act now (\<lambda>t. bind_act next_uuid (\<lambda>u.
     bind_act (putInvestigationObligation (playbook_obligation h op t u)) (\<lambda>ob. bind_act next_uuid (\<lambda>u'.
     bind_act (read_act (last_version (hy_taskId h) (hy_epochId h) (hy_subjectRef h))) (\<lambda>versions.
     bind_act (putInvestigationAction (playbook_action digest session h (ob_obligationId ob) versions op t u')) (\<lambda>stored.
     return_act (ob_obligationId ob, ac_actionId stored)))))))"

record playbook_result =
  pr_hypothesisIds :: "id list"
  pr_obligationIds :: "id list"
  pr_actionIds :: "id list"

definition plan_category ::
  "(js \<Rightarrow> string) \<Rightarrow> (js \<Rightarrow> string) \<Rightarrow> id \<Rightarrow> id \<Rightarrow> investigation_session \<Rightarrow> edge_record list \<Rightarrow> fact_record \<Rightarrow> check_category \<Rightarrow>
   ('a db_scheme, id list \<times> (id \<times> id) list) act" where
  "plan_category digest text tid eid session edges f category = (let ops = operationsForFact text f category edges in
     if ops = [] then return_act ([], [])
     else bind_act (ensureHypothesis tid eid f category) (\<lambda>h. bind_act (map_act (putOperation digest session h) ops) (\<lambda>ids.
       return_act ([hy_hypothesisId h], ids))))"

definition plan_fact ::
  "(js \<Rightarrow> string) \<Rightarrow> (js \<Rightarrow> string) \<Rightarrow> id \<Rightarrow> id \<Rightarrow> investigation_session \<Rightarrow> check_category list \<Rightarrow> edge_record list \<Rightarrow>
   (id \<Rightarrow> check_category list) \<Rightarrow> fact_record \<Rightarrow> ('a db_scheme, (id list \<times> (id \<times> id) list) list) act" where
  "plan_fact digest text tid eid session checks edges risk f =
     map_act (plan_category digest text tid eid session edges f) (categoriesForFact f checks edges (risk (fr_subjectRef f)))"

section \<open>The batch\<close>

definition PLAYBOOK_CANDIDATE_BATCH_SIZE :: nat where
  "PLAYBOOK_CANDIDATE_BATCH_SIZE = 200"

definition checkpoint_request :: string where
  "checkpoint_request = ''PLAYBOOK_CANDIDATES:1''"

definition risk_assessments ::
  "(string \<Rightarrow> string \<Rightarrow> rat) \<Rightarrow> (string \<Rightarrow> jsnum) \<Rightarrow> assessment list \<Rightarrow> assessment_relation list \<Rightarrow> assessment list" where
  "risk_assessments collate parse assessments relations =
     (let ids = concat (map ef_effectiveAssessmentIds (filter (\<lambda>p. ef_conclusion p \<in> {Verdict SUSPICIOUS, Verdict HIGHLY_SUSPICIOUS, Verdict CONFIRMED_MALICIOUS})
         (projectEffectiveAssessments collate parse assessments relations))) in
      filter (\<lambda>a. nonempty (as_subjectRef a) \<noteq> None \<and> as_assessmentId a \<in> set ids) assessments)"

definition risk_categories :: "assessment list \<Rightarrow> id \<Rightarrow> check_category list" where
  "risk_categories risks ref = unique (map as_category (filter (\<lambda>a. as_subjectRef a = Some ref) risks))"

definition at_risk :: "assessment list \<Rightarrow> id \<Rightarrow> bool" where
  "at_risk risks ref \<longleftrightarrow> list_ex (\<lambda>a. as_subjectRef a = Some ref) risks"

text \<open>What a batch is selected from, and the batch: the oldest facts first.\<close>

definition playbook_candidates ::
  "(js \<Rightarrow> string) \<Rightarrow> assessment list \<Rightarrow> edge_record list \<Rightarrow> id list \<Rightarrow> nat \<Rightarrow> fact_record list \<Rightarrow> fact_record list" where
  "playbook_candidates text risks edges planned processed facts = order_by fr_factSeq (filter (\<lambda>f.
     (processed < fr_factSeq f \<or> (at_risk risks (fr_subjectRef f) \<and> fr_subjectRef f \<notin> set planned))
     \<and> isPlaybookCandidate text f (at_risk risks (fr_subjectRef f)) edges) (latestBySubject facts))"

definition processed_after :: "nat \<Rightarrow> fact_record list \<Rightarrow> fact_record list \<Rightarrow> nat" where
  "processed_after processed facts selected = (if selected = [] then max processed (max_nat (map fr_factSeq (latestBySubject facts)))
     else fr_factSeq (last selected))"

definition playbook_checkpoint ::
  "id \<Rightarrow> id \<Rightarrow> discovery_checkpoint option \<Rightarrow> id \<Rightarrow> nat \<Rightarrow> nat \<Rightarrow> nat \<Rightarrow> nat \<Rightarrow> time \<Rightarrow> discovery_checkpoint" where
  "playbook_checkpoint tid eid previous cid events processed n remaining t =
     (let before = (\<lambda>f. case previous of None \<Rightarrow> 0 | Some c \<Rightarrow> f c) in
     \<lparr>ck_checkpointId = cid, ck_taskId = tid, ck_epochId = eid, ck_namespace = NS_task_ioc, ck_requestDigest = checkpoint_request,
      ck_status = (if 0 < remaining then CK_RUNNING else CK_COMPLETE), ck_sourceGeneration = Some (decimal events),
      ck_cursorRef = (if 0 < remaining then Some (decimal processed) else None), ck_scannedCount = processed,
      ck_matchedCount = before ck_matchedCount + n, ck_returnedCount = before ck_returnedCount + n,
      ck_remainingDescription = (if 0 < remaining then Some (decimal remaining @ '' CANDIDATES_LEFT'') else None),
      ck_createdAt = (case previous of None \<Rightarrow> t | Some c \<Rightarrow> ck_createdAt c), ck_updatedAt = t\<rparr>)"

definition save_checkpoint ::
  "id \<Rightarrow> id \<Rightarrow> discovery_checkpoint option \<Rightarrow> nat \<Rightarrow> nat \<Rightarrow> nat \<Rightarrow> ('a db_scheme, unit) act" where
  "save_checkpoint tid eid previous processed n remaining = bind_act now (\<lambda>t.
     bind_act (case previous of Some c \<Rightarrow> return_act (ck_checkpointId c)
        | None \<Rightarrow> bind_act next_uuid (\<lambda>u. return_act (''DCHK-'' @ u))) (\<lambda>cid.
     bind_act (read_act (maxInvestigationEventSeq tid eid)) (\<lambda>events.
     bind_act (putDiscoveryCheckpoint (playbook_checkpoint tid eid previous cid events processed n remaining t))
       (\<lambda>_. return_act ()))))"

section \<open>The scope of the categories\<close>

fun upper_char :: "char \<Rightarrow> char" where
  "upper_char c = (let n = of_char c :: nat in if 97 \<le> n \<and> n \<le> 122 then char_of (n - 32) else c)"

definition category_scope ::
  "id \<Rightarrow> id \<Rightarrow> check_category \<Rightarrow> coverage_run option \<Rightarrow> time \<Rightarrow> string \<Rightarrow> investigation_obligation" where
  "category_scope tid eid category coverage t u = \<lparr>ob_obligationId = ''OBL-'' @ u, ob_taskId = tid, ob_epochId = eid,
     ob_hypothesisId = None, ob_obligationKind = ''CATEGORY_SCOPE_'' @ map upper_char (category_name category),
     ob_dedupeKey = ''CATEGORY_SCOPE:'' @ category_name category, ob_subjectRefs = [], ob_required = True,
     ob_status = scope_status coverage False,
     ob_resultRefs = (case coverage of None \<Rightarrow> [] | Some r \<Rightarrow> [cr_coverageId r]), ob_gapRefs = reason_codes coverage,
     ob_createdAt = t, ob_updatedAt = t\<rparr>"

definition scope_category :: "id \<Rightarrow> id \<Rightarrow> check_category \<Rightarrow> ('a db_scheme, id) act" where
  "scope_category tid eid category = bind_act now (\<lambda>t.
     bind_act (read_act (\<lambda>s. List.find (\<lambda>r. cr_category r = category) (listCoverageRuns tid eid s))) (\<lambda>coverage.
     let desired = scope_status coverage False in
     bind_act next_uuid (\<lambda>u. bind_act (putInvestigationObligation (category_scope tid eid category coverage t u)) (\<lambda>stored.
     seq_act (if ob_status stored \<noteq> desired \<and> ob_status stored \<in> {OB_OPEN, OB_QUEUED}
       then updateInvestigationObligation (stored\<lparr>ob_status := desired,
           ob_resultRefs := (case coverage of None \<Rightarrow> ob_resultRefs stored | Some r \<Rightarrow> [cr_coverageId r]),
           ob_gapRefs := (case coverage of None \<Rightarrow> ob_gapRefs stored | Some r \<Rightarrow> reason_codes coverage), ob_updatedAt := t\<rparr>)
         (ob_status stored)
       else return_act ())
     (return_act (ob_obligationId stored))))))"

section \<open>The plan\<close>

definition playbook_plan ::
  "(js \<Rightarrow> string) \<Rightarrow> (js \<Rightarrow> string) \<Rightarrow> (string \<Rightarrow> string \<Rightarrow> rat) \<Rightarrow> (string \<Rightarrow> jsnum) \<Rightarrow> id \<Rightarrow> id \<Rightarrow> investigation_session \<Rightarrow>
   ('a db_scheme, playbook_result) act" where
  "playbook_plan digest text collate parse tid eid session = bind_act (read_act (getTask tid)) (\<lambda>task. case task of
     None \<Rightarrow> throw_act Invalid_argument
   | Some k \<Rightarrow> bind_act (read_act (\<lambda>s. (all_facts tid eid s, listAssessments tid eid s, listAssessmentRelations tid eid s)))
       (\<lambda>(facts, assessments, relations).
     bind_act (read_act (\<lambda>s. (listEdges tid eid s, List.find (\<lambda>c. ck_namespace c = NS_task_ioc \<and> ck_requestDigest c = checkpoint_request)
         (listDiscoveryCheckpoints tid eid s),
         map hy_subjectRef (filter (\<lambda>h. hy_proposedBy h = PLAYBOOK) (listInvestigationHypotheses tid eid s)))))
       (\<lambda>(edges, previous, planned).
     let risks = risk_assessments collate parse assessments relations;
         processed = (case previous of None \<Rightarrow> 0 | Some c \<Rightarrow> ck_scannedCount c);
         candidates = playbook_candidates text risks edges planned processed facts;
         selected = take PLAYBOOK_CANDIDATE_BATCH_SIZE candidates in
     bind_act (map_act (plan_fact digest text tid eid session (tc_checks k) edges (risk_categories risks)) selected) (\<lambda>plans.
     seq_act (save_checkpoint tid eid previous (processed_after processed facts selected) (length selected)
         (length candidates - length selected))
    (bind_act (map_act (scope_category tid eid) (tc_checks k)) (\<lambda>scopes.
     let parts = concat plans in
     return_act \<lparr>pr_hypothesisIds = unique (concat (map fst parts)),
       pr_obligationIds = unique (map fst (concat (map snd parts)) @ scopes),
       pr_actionIds = unique (map snd (concat (map snd parts)))\<rparr>))))))"

end
