(* ===== verification/Scheduler.thy ===== *)
theory Scheduler
  imports Playbooks Executor
begin

text \<open>
  \<open>src/investigation/scheduler.ts\<close>: the loop that reads the event log of an epoch behind a watermark,
  lets the rules, the resolver and the planners react, and runs the queued actions. The parameters
  of the parts are in the record; \<open>aborted\<close> is the abort signal at the looks of a cycle.
\<close>

section \<open>The scheduler\<close>

datatype look = At_start | At_discovery nat | At_model nat

record 'a scheduler =
  sg_digest :: "js \<Rightarrow> string"
  sg_text :: "js \<Rightarrow> string"
  sg_collate :: "string \<Rightarrow> string \<Rightarrow> rat"
  sg_parse :: "string \<Rightarrow> jsnum"
  sg_to_iso :: "rat \<Rightarrow> time"
  sg_url_path :: "string \<Rightarrow> string option"
  sg_taskId :: id
  sg_epochId :: id
  sg_session :: investigation_session
  sg_discoveryTools :: "'a security_tool list"
  sg_modelTools :: "'a security_tool list"
  sg_eligible :: "id set option"
  sg_aborted :: "nat \<Rightarrow> look \<Rightarrow> bool"

record scheduler_summary =
  sc_cycles :: nat
  sc_eventsConsumed :: nat
  sc_assessmentsCreated :: "id list"
  sc_leadIds :: "id list"
  sc_obligationIds :: "id list"
  sc_actionIds :: "id list"
  sc_hypothesisIds :: "id list"
  sc_execution :: execution_summary

definition empty_summary :: scheduler_summary where
  "empty_summary = \<lparr>sc_cycles = 0, sc_eventsConsumed = 0, sc_assessmentsCreated = [], sc_leadIds = [], sc_obligationIds = [],
     sc_actionIds = [], sc_hypothesisIds = [], sc_execution = no_execution\<rparr>"

definition mergeExecution :: "execution_summary \<Rightarrow> scheduler_summary \<Rightarrow> scheduler_summary" where
  "mergeExecution addition x = (let target = sc_execution x in x\<lparr>sc_execution :=
     \<lparr>xs_executed = xs_executed target + xs_executed addition, xs_succeeded = xs_succeeded target + xs_succeeded addition,
      xs_partial = xs_partial target + xs_partial addition, xs_failed = xs_failed target + xs_failed addition\<rparr>\<rparr>)"

definition scheduler_consumer :: "id \<Rightarrow> id \<Rightarrow> string \<times> string \<times> id \<times> id" where
  "scheduler_consumer tid eid = (''investigation-scheduler'', ''1.0.0'', tid, eid)"

definition event_fact_refs :: "investigation_event \<Rightarrow> id list" where
  "event_fact_refs e = (if ie_eventType e = ''FACT_BATCH_COMMITTED''
     then map string_of (filter is_string (items (get_prop (ie_payload e) ''factRefs''))) else [])"

definition names_fact_in :: "namespace_name set \<Rightarrow> id \<Rightarrow> id \<Rightarrow> id list \<Rightarrow> 'a db_scheme \<Rightarrow> bool" where
  "names_fact_in nss tid eid refs s \<longleftrightarrow>
     list_ex (\<lambda>ref. case getFact tid eid ref s of None \<Rightarrow> False | Some f \<Rightarrow> fr_namespace f \<in> nss) refs"

definition VOLATILE_DISCOVERY_NAMESPACES :: "namespace_name set" where
  "VOLATILE_DISCOVERY_NAMESPACES = {NS_process, NS_socket}"

definition note_plan :: "discovery_plan \<Rightarrow> scheduler_summary \<Rightarrow> scheduler_summary" where
  "note_plan p x = x\<lparr>sc_leadIds := sc_leadIds x @ dp_leadIds p, sc_obligationIds := sc_obligationIds x @ dp_obligationIds p,
     sc_actionIds := sc_actionIds x @ dp_actionIds p\<rparr>"

definition plan_volatile :: "('a, 'b) scheduler_scheme \<Rightarrow> scheduler_summary \<Rightarrow> ('c db_scheme, scheduler_summary) act" where
  "plan_volatile g x = bind_act (volatile_plan (sg_digest g) (sg_text g) (sg_taskId g) (sg_epochId g) (sg_session g))
     (\<lambda>p. return_act (note_plan p x))"

text \<open>The reaction to committed facts: the rules first, then the resolver and the planner.\<close>

definition follow_up ::
  "('a, 'b) scheduler_scheme \<Rightarrow> id list \<Rightarrow> scheduler_summary \<Rightarrow> ('c db_scheme, scheduler_summary) act" where
  "follow_up g refs x = (let tid = sg_taskId g; eid = sg_epochId g in
     bind_act (read_act (names_fact_in {NS_jvm, NS_java_component, NS_class, NS_file} tid eid refs)) (\<lambda>java.
     bind_act (if java then resolve_java (sg_parse g) (sg_to_iso g) (sg_url_path g) tid eid else return_act []) (\<lambda>_.
     bind_act (read_act (names_fact_in VOLATILE_DISCOVERY_NAMESPACES tid eid refs)) (\<lambda>volatile.
     if volatile then plan_volatile g x else return_act x))))"

definition react_to_facts ::
  "('a, 'b) scheduler_scheme \<Rightarrow> id list \<Rightarrow> scheduler_summary \<Rightarrow> ('c db_scheme, scheduler_summary) act" where
  "react_to_facts g refs x = (if refs = [] then return_act x
     else bind_act (evaluateFactRefs (sg_text g) DETERMINISTIC_RULES_V2 (sg_taskId g) (sg_epochId g) refs) (\<lambda>judged.
       follow_up g refs (x\<lparr>sc_assessmentsCreated := sc_assessmentsCreated x @ map as_assessmentId judged\<rparr>)))"

definition plan_playbooks :: "('a, 'b) scheduler_scheme \<Rightarrow> scheduler_summary \<Rightarrow> ('c db_scheme, scheduler_summary) act" where
  "plan_playbooks g x = bind_act (playbook_plan (sg_digest g) (sg_text g) (sg_collate g) (sg_parse g) (sg_taskId g) (sg_epochId g) (sg_session g))
     (\<lambda>p. return_act (x\<lparr>sc_hypothesisIds := sc_hypothesisIds x @ pr_hypothesisIds p,
       sc_obligationIds := sc_obligationIds x @ pr_obligationIds p, sc_actionIds := sc_actionIds x @ pr_actionIds p\<rparr>))"

definition advance_events :: "id \<Rightarrow> id \<Rightarrow> nat \<Rightarrow> investigation_event list \<Rightarrow> ('c db_scheme, unit) act" where
  "advance_events tid eid watermark events = (if events = [] then return_act ()
     else advanceInvestigationConsumerWatermark (scheduler_consumer tid eid) watermark (ie_eventSeq (last events)))"

definition ready_of :: "proposer set \<Rightarrow> id \<Rightarrow> id \<Rightarrow> 'a db_scheme \<Rightarrow> id set" where
  "ready_of by' tid eid s = ac_actionId ` set (filter (\<lambda>a. ac_requestedBy a \<in> by' \<and> ac_status a = AC_READY)
     (listInvestigationActions tid eid s))"

definition run_discovery :: "'a scheduler \<Rightarrow> nat \<Rightarrow> ('a db_scheme, execution_summary) act" where
  "run_discovery g cycle = bind_act (read_act (ready_of {DISCOVERY, PLAYBOOK} (sg_taskId g) (sg_epochId g))) (\<lambda>ids.
     runUntilIdle (sg_digest g) (sg_taskId g) (sg_epochId g) (sg_discoveryTools g) (ss_authorizationVersion (sg_session g))
       ''deterministic-scheduler'' (Some ids) (\<lambda>n. sg_aborted g cycle (At_discovery n)) 100)"

definition run_model :: "'a scheduler \<Rightarrow> nat \<Rightarrow> ('a db_scheme, execution_summary) act" where
  "run_model g cycle = (if sg_modelTools g = [] then return_act no_execution
     else bind_act (read_act (ready_of {MODEL} (sg_taskId g) (sg_epochId g))) (\<lambda>ids.
       runUntilIdle (sg_digest g) (sg_taskId g) (sg_epochId g) (sg_modelTools g) (ss_authorizationVersion (sg_session g))
         ''model-action-scheduler'' (Some (case sg_eligible g of None \<Rightarrow> ids | Some el \<Rightarrow> ids \<inter> el))
         (\<lambda>n. sg_aborted g cycle (At_model n)) 100))"

text \<open>One cycle; the flag says whether there was nothing to read and nothing to do.\<close>

definition run_queue ::
  "'a scheduler \<Rightarrow> nat \<Rightarrow> investigation_event list \<Rightarrow> scheduler_summary \<Rightarrow> ('a db_scheme, scheduler_summary \<times> bool) act" where
  "run_queue g cycle events x = bind_act (plan_volatile g x) (\<lambda>x'. bind_act (run_discovery g cycle) (\<lambda>discovery.
     bind_act (run_model g cycle) (\<lambda>model. return_act (mergeExecution model (mergeExecution discovery x'),
       events = [] \<and> xs_executed discovery = 0 \<and> xs_executed model = 0))))"

definition cycle_on_events ::
  "'a scheduler \<Rightarrow> nat \<Rightarrow> nat \<Rightarrow> investigation_event list \<Rightarrow> scheduler_summary \<Rightarrow> ('a db_scheme, scheduler_summary \<times> bool) act" where
  "cycle_on_events g cycle watermark events x =
     bind_act (react_to_facts g (concat (map event_fact_refs events)) x) (\<lambda>x1. bind_act (plan_playbooks g x1) (\<lambda>x2.
     bind_act (advance_events (sg_taskId g) (sg_epochId g) watermark events) (\<lambda>_.
     run_queue g cycle events (x2\<lparr>sc_eventsConsumed := sc_eventsConsumed x2 + length events\<rparr>))))"

definition scheduler_cycle :: "'a scheduler \<Rightarrow> nat \<Rightarrow> scheduler_summary \<Rightarrow> ('a db_scheme, scheduler_summary \<times> bool) act" where
  "scheduler_cycle g cycle x = (let tid = sg_taskId g; eid = sg_epochId g in
     bind_act (require (\<not> sg_aborted g cycle At_start) Plain_error) (\<lambda>_.
     bind_act (read_act (getInvestigationConsumerWatermark (scheduler_consumer tid eid))) (\<lambda>watermark.
     bind_act (read_act (listInvestigationEvents tid eid (of_nat watermark) 5000)) (\<lambda>listed.
     bind_act (lift_result listed) (\<lambda>events.
     cycle_on_events g cycle watermark events (x\<lparr>sc_cycles := Suc (sc_cycles x)\<rparr>))))))"

fun scheduler_cycles :: "'a scheduler \<Rightarrow> nat \<Rightarrow> nat \<Rightarrow> scheduler_summary \<Rightarrow> ('a db_scheme, scheduler_summary) act" where
  "scheduler_cycles g cycle 0 x = return_act x"
| "scheduler_cycles g cycle (Suc n) x = bind_act (scheduler_cycle g cycle x) (\<lambda>(x', quiescent).
     if quiescent then return_act x' else scheduler_cycles g (Suc cycle) n x')"

definition runUntilQuiescent :: "'a scheduler \<Rightarrow> nat \<Rightarrow> ('a db_scheme, scheduler_summary) act" where
  "runUntilQuiescent g maxCycles = bind_act (scheduler_cycles g 0 maxCycles empty_summary) (\<lambda>x.
     return_act (x\<lparr>sc_assessmentsCreated := unique (sc_assessmentsCreated x), sc_leadIds := unique (sc_leadIds x),
       sc_hypothesisIds := unique (sc_hypothesisIds x), sc_obligationIds := unique (sc_obligationIds x),
       sc_actionIds := unique (sc_actionIds x)\<rparr>))"

end
