(* ===== verification/Growth.thy ===== *)
theory Growth
  imports Scheduler
begin

text \<open>
  What the parts of the scheduler leave behind. The planners, the queue and the resolver are silent:
  they touch neither facts nor judgements nor the events that announce facts. Whatever a tool does, it
  only adds to them (\<open>grows\<close>); a hypothesis on the tools, as on the rules of the queue (\<open>evolves\<close>).
\<close>

lemma bind_act_cases:
  assumes "bind_act m f s = (r, s')"
  obtains e where "m s = (Inl e, s')" "r = Inl e" | x s1 where "m s = (Inr x, s1)" "f x s1 = (r, s')"
  using assms by (auto simp: bind_act_def split: prod.splits sum.splits)

text \<open>A page of a sorted list holds every element up to its last one.\<close>

lemma first_page:
  assumes "e \<in> set xs" and "take n (order_by k xs) \<noteq> []" and "k e \<le> k (last (take n (order_by k xs)))" and "distinct (map k xs)"
  shows "e \<in> set (take n (order_by k xs))"
proof (rule ccontr)
  let ?ys = "order_by k xs"
  assume no: "e \<notin> set (take n ?ys)"
  have "e \<in> set ?ys" using assms(1) by (simp add: set_order_by)
  then have drop: "e \<in> set (drop n ?ys)" using no by (metis Un_iff append_take_drop_id set_append)
  have last: "last (take n ?ys) \<in> set (take n ?ys)" using assms(2) by (rule last_in_set)
  have "sorted (map k (take n ?ys @ drop n ?ys))" by (simp add: sorted_order_by)
  then have "k (last (take n ?ys)) \<le> k e" using drop last unfolding map_append sorted_append by auto
  with assms(3) have "k (last (take n ?ys)) = k e" by simp
  moreover have "last (take n ?ys) \<in> set xs" using last in_set_takeD set_order_by by metis
  ultimately have "last (take n ?ys) = e" using assms(1,4) by (auto simp: distinct_map inj_on_def)
  with last no show False by simp
qed

section \<open>The journal\<close>

definition is_fact_event :: "investigation_event \<Rightarrow> bool" where
  "is_fact_event e \<longleftrightarrow> ie_eventType e = ''FACT_BATCH_COMMITTED''"

definition fact_events :: "'a db_scheme \<Rightarrow> investigation_event list" where
  "fact_events s = filter is_fact_event (db_events s)"

definition events_ok :: "'a db_scheme \<Rightarrow> bool" where
  "events_ok s \<longleftrightarrow> distinct (map ie_eventSeq (db_events s)) \<and> (\<forall>e\<in>set (db_events s). ie_eventSeq e \<le> db_event_seq s)"

definition quiet_view ::
  "'a db_scheme \<Rightarrow> fact_record list \<times> assessment list \<times> coverage_run list \<times> event_consumer list \<times> task_context list \<times> investigation_event list" where
  "quiet_view s = (db_facts s, db_assessments s, db_coverage s, db_consumers s, db_tasks s, fact_events s)"

definition silent :: "'a db_scheme \<Rightarrow> 'a db_scheme \<Rightarrow> bool" where
  "silent s s' \<longleftrightarrow> quiet_view s' = quiet_view s \<and> db_event_seq s \<le> db_event_seq s' \<and> (events_ok s \<longrightarrow> events_ok s')"

lemma reflp_silent [obeys_intros]: "reflp silent"
  by (simp add: reflp_def silent_def)

lemma transp_silent [obeys_intros]: "transp silent"
  by (auto simp: transp_def silent_def)

lemma silent_write:
  "db_facts s' = db_facts s \<Longrightarrow> db_assessments s' = db_assessments s \<Longrightarrow> db_coverage s' = db_coverage s \<Longrightarrow> db_consumers s' = db_consumers s \<Longrightarrow> db_tasks s' = db_tasks s
    \<Longrightarrow> db_events s' = db_events s \<Longrightarrow> db_event_seq s' = db_event_seq s \<Longrightarrow> silent s s'"
  by (simp add: silent_def quiet_view_def fact_events_def events_ok_def)

section \<open>Silent operations\<close>

lemma silent_now [obeys_intros]: "obeys silent now" "obeys silent next_uuid" "obeys silent (create_id p)"
  by (auto simp: obeys_def now_def next_uuid_def create_id_def bind_act_def intro: silent_write)

lemma silent_append:
  "ty \<noteq> ''FACT_BATCH_COMMITTED'' \<Longrightarrow> obeys silent (appendInvestigationEvent evid tid eid b ty pl t)"
  unfolding appendInvestigationEvent_def Let_def
  by (auto simp: obeys_def act_unfold require_def silent_def quiet_view_def fact_events_def is_fact_event_def events_ok_def
      split: prod.split)

lemma silent_log: "ty \<noteq> ''FACT_BATCH_COMMITTED'' \<Longrightarrow> obeys silent (log_event tid eid ty pl t)"
  unfolding log_event_def by (intro obeys_intros silent_append)

lemma silent_scope [obeys_intros]: "obeys silent (assertInvestigationScope tid eid)"
  unfolding assertInvestigationScope_def by (intro obeys_intros)

lemma silent_lead [obeys_intros]: "obeys silent (putInvestigationLead l)"
  unfolding putInvestigationLead_def Let_def by (intro obeys_intros silent_log silent_append silent_write) simp_all

lemma silent_hypothesis [obeys_intros]: "obeys silent (putInvestigationHypothesis h)"
  unfolding putInvestigationHypothesis_def Let_def by (intro obeys_intros silent_log silent_append silent_write) simp_all

lemma silent_obligation [obeys_intros]: "obeys silent (putInvestigationObligation v)"
  unfolding putInvestigationObligation_def Let_def by (intro obeys_intros silent_log silent_append silent_write) simp_all

lemma silent_log_obligation [obeys_intros]: "obeys silent (log_obligation v t)"
  unfolding log_obligation_def Let_def by (intro obeys_intros silent_log silent_append silent_write) simp_all

lemma silent_update_obligation [obeys_intros]: "obeys silent (updateInvestigationObligation v e)"
  unfolding updateInvestigationObligation_def Let_def by (intro obeys_intros silent_log silent_append silent_write) simp_all

lemma silent_resolve_open [obeys_intros]: "obeys silent (resolve_open_obligation sc t f oid)"
  unfolding resolve_open_obligation_def Let_def by (intro obeys_intros silent_log silent_append silent_write) simp_all

lemma silent_gap [obeys_intros]: "obeys silent (insert_gap g)"
  unfolding insert_gap_def Let_def by (intro obeys_intros silent_log silent_append silent_write) simp_all

lemma silent_set_action [obeys_intros]: "obeys silent (set_action hit a)"
  unfolding set_action_def Let_def by (intro obeys_intros silent_log silent_append silent_write) simp_all

lemma silent_capacity [obeys_intros]: "obeys silent (report_capacity a n)"
  unfolding report_capacity_def Let_def by (intro obeys_intros silent_log silent_append silent_write) simp_all

lemma silent_created [obeys_intros]: "obeys silent (report_created a b n)"
  unfolding report_created_def Let_def by (intro obeys_intros silent_log silent_append silent_write) simp_all

lemma silent_merge [obeys_intros]: "obeys silent (merge_action a v)"
  unfolding merge_action_def Let_def by (intro obeys_intros silent_log silent_append silent_write) simp_all

lemma silent_store_action [obeys_intros]: "obeys silent (store_action v b n)"
  unfolding store_action_def Let_def by (intro obeys_intros silent_log silent_append silent_write) simp_all

lemma silent_put_action [obeys_intros]: "obeys silent (putInvestigationAction v)"
  unfolding putInvestigationAction_def Let_def by (intro obeys_intros silent_log silent_append silent_write)

lemma silent_attempt [obeys_intros]: "obeys silent (insert_attempt t)"
  unfolding insert_attempt_def Let_def by (intro obeys_intros silent_log silent_append silent_write) simp_all

lemma silent_start [obeys_intros]: "obeys silent (start_attempt sc w a t)"
  unfolding start_attempt_def Let_def by (intro obeys_intros silent_log silent_append silent_write) simp_all

lemma silent_claim_first [obeys_intros]: "obeys silent (claim_first sc w auth cs)"
  by (induction sc w auth cs rule: claim_first.induct) (simp_all del: return_act_eq add: Let_def obeys_intros)

lemma silent_claim [obeys_intros]: "obeys silent (claimNextInvestigationAction tid eid w auth el)"
  unfolding claimNextInvestigationAction_def Let_def by (intro obeys_intros silent_log silent_append silent_write)

lemma silent_close [obeys_intros]: "obeys silent (close_attempt x st e t)"
  unfolding close_attempt_def Let_def by (intro obeys_intros silent_log silent_append silent_write) simp_all

lemma silent_finish [obeys_intros]: "obeys silent (finishInvestigationAction aid n st refs e)"
  unfolding finishInvestigationAction_def Let_def by (intro obeys_intros silent_log silent_append silent_write) simp_all

lemma silent_block [obeys_intros]: "obeys silent (blockReadyInvestigationAction aid reason)"
  unfolding blockReadyInvestigationAction_def Let_def by (intro obeys_intros silent_log silent_append silent_write) simp_all

lemma silent_checkpoint [obeys_intros]: "obeys silent (putDiscoveryCheckpoint v)"
  unfolding putDiscoveryCheckpoint_def Let_def by (intro obeys_intros silent_log silent_append silent_write) simp_all

lemma silent_limit [obeys_intros]: "obeys silent (limitDiscoveryCheckpoint tid eid c reason)"
  unfolding limitDiscoveryCheckpoint_def Let_def by (intro obeys_intros silent_log silent_append silent_write)

lemma silent_audit [obeys_intros]: "obeys silent (appendAudit t e l d)"
  unfolding appendAudit_def Let_def by (intro obeys_intros silent_log silent_append silent_write) simp_all

lemma silent_resolve [obeys_intros]: "obeys silent (resolve_obligation obs acts b refs reason oid)"
  unfolding resolve_obligation_def Let_def by (intro obeys_intros silent_log silent_append silent_write)

lemma silent_resolveObligations [obeys_intros]: "obeys silent (resolveObligations tid eid a b refs reason)"
  unfolding resolveObligations_def Let_def by (intro obeys_intros silent_log silent_append silent_write)

lemma silent_dependent [obeys_intros]: "obeys silent (block_dependent tid eid acts a)"
  unfolding block_dependent_def Let_def by (intro obeys_intros silent_log silent_append silent_write)

lemma silent_ignore_edge [obeys_intros]: "obeys silent (ignore_edge e)"
  unfolding ignore_edge_def Let_def by (intro obeys_intros silent_log silent_append silent_write) simp_all

lemma silent_ignore_provenance [obeys_intros]: "obeys silent (ignore_provenance p)"
  unfolding ignore_provenance_def Let_def by (intro obeys_intros silent_log silent_append silent_write) simp_all

lemma silent_batch_log: "ty \<noteq> ''FACT_BATCH_COMMITTED'' \<Longrightarrow> obeys silent (log_batch_event tid eid src ty pl)"
  unfolding log_batch_event_def by (intro obeys_intros silent_append)

lemma silent_derived [obeys_intros]: "obeys silent (putDerivedEdge e p)"
  unfolding putDerivedEdge_def Let_def by (intro obeys_intros silent_log silent_append silent_batch_log silent_write) simp_all

lemma silent_relation [obeys_intros]: "obeys silent (put_relation parse to_iso tid eid f g r)"
  unfolding put_relation_def Let_def by (intro obeys_intros silent_log silent_append silent_batch_log silent_write)

lemma silent_join_class [obeys_intros]: "obeys silent (join_class parse to_iso tid eid c h p f)"
  unfolding join_class_def Let_def by (intro obeys_intros silent_log silent_append silent_batch_log silent_write)


lemma obeys_fold [obeys_intros]:
  "reflp R \<Longrightarrow> transp R \<Longrightarrow> (\<And>b x. obeys R (f b x)) \<Longrightarrow> obeys R (fold_act f b xs)"
  by (induction xs arbitrary: b) (auto intro!: obeys_intros)

lemma silent_java [obeys_intros]: "obeys silent (resolve_java parse to_iso url_path tid eid)"
  unfolding resolve_java_def join_component_def join_file_def Let_def by (intro obeys_intros)

section \<open>What the planners do through the store\<close>

text \<open>A relation that the operations of the store which the planners use respect, so do the planners.\<close>

locale planner_store =
  fixes R :: "'a db_scheme \<Rightarrow> 'a db_scheme \<Rightarrow> bool"
  assumes refl: "reflp R" and trans: "transp R"
    and clock: "obeys R now" and uuid: "obeys R next_uuid"
    and lead: "obeys R (putInvestigationLead l)"
    and hypothesis: "obeys R (putInvestigationHypothesis h)"
    and obligation: "obeys R (putInvestigationObligation ob)"
    and update: "obeys R (updateInvestigationObligation ob st)"
    and action: "ac_status a = AC_READY \<Longrightarrow> obeys R (putInvestigationAction a)"
    and checkpoint: "obeys R (putDiscoveryCheckpoint k)"
begin

lemmas part_intros = obeys_intros refl trans clock uuid lead hypothesis obligation update action checkpoint

lemma plans_subject: "obeys R (planSubject digest session c l)"
  unfolding planSubject_def plan_operation_def by (intro part_intros) (simp add: volatile_action_def Let_def)

lemma plans_candidates: "obeys R (plan_candidates digest session tid eid actions slots cs p)"
  by (induction digest session tid eid actions slots cs p rule: plan_candidates.induct)
    (simp_all add: Let_def part_intros plans_subject put_lead_def del: return_act_eq)

lemma finishes_discovery: "obeys R (finish_discovery digest tid eid facts m n p)"
  unfolding finish_discovery_def record_scope_def update_scope_def Let_def by (intro part_intros)

lemma volatile_obeys: "obeys R (volatile_plan digest text tid eid session)"
  unfolding volatile_plan_def Let_def by (intro part_intros plans_candidates finishes_discovery)

lemma plans_fact: "obeys R (plan_fact digest text tid eid session checks edges risk f)"
  unfolding plan_fact_def plan_category_def ensureHypothesis_def putOperation_def Let_def
  by (intro part_intros) (simp add: playbook_action_def Let_def)

lemma playbook_obeys: "obeys R (playbook_plan digest text collate parse tid eid session)"
  unfolding playbook_plan_def save_checkpoint_def scope_category_def Let_def by (intro part_intros plans_fact)

end

interpretation silent: planner_store silent
  by unfold_locales (intro obeys_intros)+

section \<open>What the executor does through the store\<close>

definition tools_obey :: "('a db_scheme \<Rightarrow> 'a db_scheme \<Rightarrow> bool) \<Rightarrow> 'a security_tool list \<Rightarrow> bool" where
  "tools_obey R tools \<longleftrightarrow> (\<forall>t\<in>set tools. \<forall>c args. obeys R (tl_execute t c args))"

lemma tool_obeys: "tools_obey R tools \<Longrightarrow> tool_named tools name = Some t \<Longrightarrow> obeys R (tl_execute t c args)"
  by (auto simp: tools_obey_def tool_named_def dest: find_SomeD)

lemma obeys_sum: "(\<And>x. obeys R (f x)) \<Longrightarrow> (\<And>y. obeys R (g y)) \<Longrightarrow> obeys R (case v of Inl x \<Rightarrow> f x | Inr y \<Rightarrow> g y)"
  by (simp split: sum.split)

locale executor_store =
  fixes R :: "'a db_scheme \<Rightarrow> 'a db_scheme \<Rightarrow> bool"
  assumes refl: "reflp R" and trans: "transp R" and clock: "obeys R now"
    and claim: "obeys R (claimNextInvestigationAction tid eid w auth el)"
    and finish: "action_terminal st \<Longrightarrow> obeys R (finishInvestigationAction aid n st refs err)"
    and block: "obeys R (blockReadyInvestigationAction aid reason)"
    and update: "obeys R (updateInvestigationObligation ob ost)"
    and checkpoint: "obeys R (putDiscoveryCheckpoint k)"
    and audit: "obeys R (appendAudit tid' ev lv data)"
begin

lemmas part_intros = obeys_intros obeys_sum refl trans clock claim finish block update checkpoint audit

lemma resolves: "obeys R (resolveObligations tid eid a b refs reason)"
  unfolding resolveObligations_def resolve_obligation_def Let_def by (intro part_intros)

lemma limits: "obeys R (limitDiscoveryCheckpoint tid eid c reason)"
  unfolding limitDiscoveryCheckpoint_def Let_def by (intro part_intros)

lemma blocks_dependent: "obeys R (block_dependent tid eid actions a)"
  unfolding block_dependent_def Let_def by (intro part_intros resolves)

lemma runs_pages:
  assumes "\<And>c args. obeys R (tl_execute tool c args)"
  shows "obeys R (run_pages tid eid tool a attempt n args p)"
proof (induction n arbitrary: args p)
  case (Suc n)
  show ?case unfolding run_pages.simps run_page_def interrupt_def by (intro part_intros assms limits Suc)
qed (simp add: obeys_return refl del: return_act_eq)

lemma runs_claimed:
  assumes "tools_obey R tools"
  shows "obeys R (run_claimed digest tid eid tools a attempt)"
proof -
  have "obeys R (perform digest tid eid t a attempt)" if "tool_named tools name = Some t" for t name
    unfolding perform_def reuse_result_def Let_def
    by (intro part_intros resolves runs_pages tool_obeys [OF assms that]) simp
  moreover have "obeys R (fail_action tid eid a e)" for e
    unfolding fail_action_def by (intro part_intros resolves) simp
  ultimately show ?thesis unfolding run_claimed_def by (cases "tool_named tools (ac_operationRef a)") (simp_all add: part_intros del: return_act_eq)
qed

lemma runs_actions:
  assumes "tools_obey R tools"
  shows "obeys R (run_actions digest tid eid tools auth worker eligible aborted n x)"
proof (induction n arbitrary: x)
  case (Suc n)
  show ?case unfolding run_actions.simps by (intro part_intros runs_claimed assms Suc)
qed (simp add: obeys_return refl del: return_act_eq)

lemma runs_until_idle:
  assumes "tools_obey R tools"
  shows "obeys R (runUntilIdle digest tid eid tools auth worker eligible aborted n)"
  unfolding runUntilIdle_def by (intro part_intros runs_actions blocks_dependent assms)

end

interpretation silent_run: executor_store silent
  by unfold_locales (intro obeys_intros)+

section \<open>The rules of the queue\<close>

definition evolves :: "'a db_scheme \<Rightarrow> 'a db_scheme \<Rightarrow> bool" where
  "evolves s s' \<longleftrightarrow> (machine_inv (tables s) \<longrightarrow> machine_inv (tables s') \<and> queue_le (tables s) (tables s'))"

lemma reflp_evolves: "reflp evolves"
  by (simp add: reflp_def evolves_def)

lemma transp_evolves: "transp evolves"
  unfolding transp_def evolves_def using queue_le_trans by blast

lemma evolves_same: "obeys (same tables) m \<Longrightarrow> obeys evolves m"
  by (simp add: obeys_def same_def evolves_def)

lemma evolves_exec:
  assumes "queue_op_ok q"
  shows "obeys evolves (queue_exec q)"
  unfolding obeys_def evolves_def
  using exec_refines [OF _ assms] queue_steps_inv by blast


lemma obeys_result: "obeys R (bind_act m (\<lambda>x. return_act (f x))) = obeys R m"
proof -
  have "snd (bind_act m (\<lambda>x. return_act (f x)) s) = snd (m s)" for s
    by (cases "m s") (auto simp: bind_act_def split: sum.split)
  then show ?thesis by (simp add: obeys_def)
qed

lemma evolves_queue:
  "ac_status v \<noteq> AC_RUNNING \<Longrightarrow> obeys evolves (putInvestigationAction v)"
  "obeys evolves (claimNextInvestigationAction tid eid w auth el)"
  "action_terminal st \<Longrightarrow> obeys evolves (finishInvestigationAction aid n st refs e)"
  "obeys evolves (blockReadyInvestigationAction aid reason)"
  using evolves_exec [of "Put_action v"] evolves_exec [of "Claim_next tid eid w auth el"]
    evolves_exec [of "Finish_action aid n st refs e"] evolves_exec [of "Block_action aid reason"]
  by (simp_all add: queue_exec_def obeys_result)

lemma tables_uuid [obeys_intros]: "obeys (same tables) next_uuid"
  by (simp add: next_uuid_def obeys_def same_def tables_def)

lemma tables_lead [obeys_intros]: "obeys (same tables) (putInvestigationLead l)"
  unfolding putInvestigationLead_def assertInvestigationScope_def Let_def
  by (intro obeys_intros) (simp_all add: same_def tables_def)

lemma tables_hypothesis [obeys_intros]: "obeys (same tables) (putInvestigationHypothesis h)"
  unfolding putInvestigationHypothesis_def Let_def by (intro obeys_intros) (simp_all add: same_def tables_def)

lemma tables_obligation [obeys_intros]: "obeys (same tables) (putInvestigationObligation ob)"
  unfolding putInvestigationObligation_def assertInvestigationScope_def Let_def
  by (intro obeys_intros) (simp_all add: same_def tables_def)

interpretation evolves: planner_store evolves
  by unfold_locales
    (auto intro: reflp_evolves transp_evolves evolves_queue evolves_same obeys_intros)

interpretation evolves_run: executor_store evolves
  by unfold_locales (auto intro: reflp_evolves transp_evolves evolves_queue evolves_same obeys_intros)

section \<open>What is only added to\<close>

definition journal_ok :: "'a db_scheme \<Rightarrow> bool" where
  "journal_ok s \<longleftrightarrow> distinct (map fr_factId (db_facts s))
     \<and> (\<forall>e\<in>set (fact_events s). set (event_fact_refs e) \<subseteq> fr_factId ` set (db_facts s))"

definition task_view :: "id \<Rightarrow> 'a db_scheme \<Rightarrow> (check_category list \<times> id option) option" where
  "task_view tid s = map_option (\<lambda>k. (tc_checks k, tc_activeEpochId k)) (getTask tid s)"

definition extends :: "'b list \<Rightarrow> 'b list \<Rightarrow> bool" where
  "extends xs ys \<longleftrightarrow> (\<exists>zs. ys = xs @ zs)"

lemma extends_refl [simp]: "extends xs xs"
  by (simp add: extends_def)

lemma extends_append [simp]: "extends xs (xs @ ys)"
  by (simp add: extends_def)

lemma extends_trans: "extends xs ys \<Longrightarrow> extends ys zs \<Longrightarrow> extends xs zs"
  by (auto simp: extends_def)

definition grows :: "'a db_scheme \<Rightarrow> 'a db_scheme \<Rightarrow> bool" where
  "grows s s' \<longleftrightarrow> extends (db_facts s) (db_facts s') \<and> extends (db_assessments s) (db_assessments s')
     \<and> (\<exists>es. fact_events s' = fact_events s @ es \<and> (\<forall>e\<in>set es. db_event_seq s < ie_eventSeq e))
     \<and> db_event_seq s \<le> db_event_seq s' \<and> (events_ok s \<longrightarrow> events_ok s') \<and> (journal_ok s \<longrightarrow> journal_ok s')
     \<and> db_consumers s' = db_consumers s \<and> (\<forall>tid. task_view tid s' = task_view tid s)"

lemma silent_grows: "silent s s' \<Longrightarrow> grows s s'"
  by (simp add: silent_def quiet_view_def grows_def journal_ok_def task_view_def getTask_def)

lemma reflp_grows: "reflp grows"
  by (simp add: reflp_def silent_grows [unfolded silent_def] grows_def)

lemma transp_grows: "transp grows"
proof (rule transpI)
  fix r s t :: "'a db_scheme"
  assume 1: "grows r s" and 2: "grows s t"
  from 1 2 obtain es fs where "fact_events s = fact_events r @ es" "\<forall>e\<in>set es. db_event_seq r < ie_eventSeq e"
    "fact_events t = fact_events s @ fs" "\<forall>e\<in>set fs. db_event_seq s < ie_eventSeq e" unfolding grows_def by blast
  moreover have "db_event_seq r \<le> db_event_seq s" using 1 by (simp add: grows_def)
  ultimately have "\<exists>es. fact_events t = fact_events r @ es \<and> (\<forall>e\<in>set es. db_event_seq r < ie_eventSeq e)"
    by (intro exI [of _ "es @ fs"]) auto
  with 1 2 show "grows r t" by (auto simp: grows_def intro: extends_trans)
qed

lemma obeys_mono: "obeys R m \<Longrightarrow> (\<And>s s'. R s s' \<Longrightarrow> Q s s') \<Longrightarrow> obeys Q m"
  by (simp add: obeys_def)

lemma grows_silent: "obeys silent m \<Longrightarrow> obeys grows m"
  using obeys_mono [of silent m grows] silent_grows by blast

interpretation grows_run: executor_store grows
  by unfold_locales (auto intro: reflp_grows transp_grows grows_silent obeys_intros)

lemma grows_assessment [obeys_intros]: "obeys grows (putAssessment a)"
proof -
  have "grows s (s\<lparr>db_assessments := db_assessments s @ [a]\<rparr>)" for s :: "'a db_scheme"
    by (simp add: grows_def fact_events_def events_ok_def journal_ok_def task_view_def getTask_def)
  then show ?thesis
    unfolding putAssessment_def insert_assessment_def by (intro obeys_intros obeys_sum reflp_grows transp_grows) 
qed

lemma grows_rules [obeys_intros]: "obeys grows (evaluateFactRefs text registry tid eid refs)"
proof -
  have facts: "obeys grows (judge_facts text tid eid existing r fs)" for existing r and fs
    by (induction fs) (simp_all add: Let_def obeys_intros reflp_grows transp_grows grows_silent del: return_act_eq)
  have "obeys grows (judge_rules text tid eid checks existing fs rs)" for checks existing fs rs
    by (induction rs) (simp_all add: obeys_intros facts reflp_grows transp_grows del: return_act_eq)
  then show ?thesis unfolding evaluateFactRefs_def evaluateFacts_def by (intro obeys_intros reflp_grows transp_grows)
qed

end
