(* ===== verification/Reading.thy ===== *)
theory Reading
  imports Growth
begin

text \<open>
  What the loop of the scheduler promises about the facts of an epoch: none is passed over by the rules,
  and when the loop rests nothing is left to read.
\<close>

section \<open>Facts that were announced\<close>

definition in_epoch :: "('a, 'b) scheduler_scheme \<Rightarrow> investigation_event \<Rightarrow> bool" where
  "in_epoch g e \<longleftrightarrow> ie_taskId e = sg_taskId g \<and> ie_epochId e = sg_epochId g"

definition watermark :: "('a, 'b) scheduler_scheme \<Rightarrow> 'c db_scheme \<Rightarrow> nat" where
  "watermark g s = getInvestigationConsumerWatermark (scheduler_consumer (sg_taskId g) (sg_epochId g)) s"

text \<open>Every rule of a checked category that matches the fact has judged it.\<close>

definition fully_judged :: "('a, 'b) scheduler_scheme \<Rightarrow> check_category list \<Rightarrow> fact_record \<Rightarrow> 'c db_scheme \<Rightarrow> bool" where
  "fully_judged g checks f s \<longleftrightarrow> list_all (\<lambda>r. ru_category r \<in> set checks \<and> f \<in> set (rule_facts (sg_text g) r [f])
     \<longrightarrow> judged (sg_taskId g) (sg_epochId g) r f s) DETERMINISTIC_RULES_V2"

text \<open>The observed facts that the event e announced.\<close>

definition announced_facts :: "('a, 'b) scheduler_scheme \<Rightarrow> investigation_event \<Rightarrow> 'c db_scheme \<Rightarrow> fact_record list" where
  "announced_facts g e s = filter (\<lambda>f. fr_factId f \<in> set (event_fact_refs e) \<and> observed_on_target f)
     (all_facts (sg_taskId g) (sg_epochId g) s)"

definition announced_judged :: "('a, 'b) scheduler_scheme \<Rightarrow> check_category list \<Rightarrow> nat \<Rightarrow> nat \<Rightarrow> 'c db_scheme \<Rightarrow> bool" where
  "announced_judged g checks lo hi s \<longleftrightarrow> list_all (\<lambda>e. in_epoch g e \<and> lo < ie_eventSeq e \<and> ie_eventSeq e \<le> hi
     \<longrightarrow> list_all (\<lambda>f. fully_judged g checks f s) (announced_facts g e s)) (fact_events s)"

definition unread_facts :: "('a, 'b) scheduler_scheme \<Rightarrow> 'c db_scheme \<Rightarrow> investigation_event list" where
  "unread_facts g s = filter (\<lambda>e. in_epoch g e \<and> watermark g s < ie_eventSeq e) (fact_events s)"

section \<open>What stays judged\<close>

lemma fully_judged_grows: "grows s s' \<Longrightarrow> fully_judged g checks f s \<Longrightarrow> fully_judged g checks f s'"
  unfolding fully_judged_def list_all_iff grows_def extends_def by (metis judged_now)

lemma announced_facts_old:
  assumes f: "f \<in> set (announced_facts g e s')" and "grows s s'" and ok: "journal_ok s" and e: "e \<in> set (fact_events s)"
  shows "f \<in> set (announced_facts g e s)"
proof -
  obtain fs where fa: "db_facts s' = db_facts s @ fs" and ok': "journal_ok s'"
    using assms(2) ok by (auto simp: grows_def extends_def)
  from f have f': "f \<in> set (db_facts s')" "fr_factId f \<in> set (event_fact_refs e)"
    by (auto simp: announced_facts_def all_facts_def set_order_by)
  have "fr_factId f \<in> fr_factId ` set (db_facts s)" using ok e f'(2) unfolding journal_ok_def by blast
  then obtain h where h: "h \<in> set (db_facts s)" "fr_factId h = fr_factId f" by (metis imageE)
  then have "h \<in> set (db_facts s')" using fa by simp
  with ok' f'(1) h(2) have "h = f" by (auto simp: journal_ok_def distinct_map inj_on_def)
  with f h(1) show ?thesis by (auto simp: announced_facts_def all_facts_def set_order_by)
qed

lemma announced_grows:
  assumes g: "grows s s'" and ok: "journal_ok s" and hi: "hi \<le> db_event_seq s" and old: "announced_judged g checks lo hi s"
  shows "announced_judged g checks lo hi s'"
  unfolding announced_judged_def list_all_iff
proof (intro ballI impI)
  fix e f
  assume e: "e \<in> set (fact_events s')" "in_epoch g e \<and> lo < ie_eventSeq e \<and> ie_eventSeq e \<le> hi"
    and f: "f \<in> set (announced_facts g e s')"
  from g obtain es where ev: "fact_events s' = fact_events s @ es" "\<forall>e\<in>set es. db_event_seq s < ie_eventSeq e"
    by (auto simp: grows_def)
  with e hi have in_s: "e \<in> set (fact_events s)" by auto
  with f g ok have "f \<in> set (announced_facts g e s)" by (rule announced_facts_old)
  with old e(2) in_s have "fully_judged g checks f s" by (auto simp: announced_judged_def list_all_iff)
  with g show "fully_judged g checks f s'" by (rule fully_judged_grows)
qed

text \<open>The state between the reading of events up to number hi and the move of the watermark there.\<close>

definition reading :: "('a, 'b) scheduler_scheme \<Rightarrow> check_category list \<Rightarrow> nat \<Rightarrow> nat \<Rightarrow> 'c db_scheme \<Rightarrow> bool" where
  "reading g checks lo hi s \<longleftrightarrow> events_ok s \<and> journal_ok s \<and> watermark g s \<le> hi \<and> hi \<le> db_event_seq s
     \<and> task_view (sg_taskId g) s = Some (checks, Some (sg_epochId g)) \<and> announced_judged g checks lo hi s"

definition caught_up :: "('a, 'b) scheduler_scheme \<Rightarrow> check_category list \<Rightarrow> nat \<Rightarrow> 'c db_scheme \<Rightarrow> bool" where
  "caught_up g checks lo s \<longleftrightarrow> reading g checks lo (watermark g s) s"

lemma reading_caught_up: "reading g checks lo hi s \<Longrightarrow> caught_up g checks lo s"
  by (auto simp: caught_up_def reading_def announced_judged_def list_all_iff)

lemma reading_grows: "grows s s' \<Longrightarrow> reading g checks lo hi s \<Longrightarrow> reading g checks lo hi s'"
  using announced_grows [of s s' hi g checks lo] unfolding reading_def
  by (auto simp: grows_def watermark_def getInvestigationConsumerWatermark_def)

lemma caught_up_grows: "grows s s' \<Longrightarrow> caught_up g checks lo s \<Longrightarrow> caught_up g checks lo s'"
  using reading_grows reading_caught_up unfolding caught_up_def by blast

section \<open>Reading the log\<close>

lemma listed_events:
  assumes "listInvestigationEvents tid eid (of_nat w) 5000 s = Inr events"
  shows "events = take 5000 (order_by ie_eventSeq (filter (\<lambda>e. ie_taskId e = tid \<and> ie_epochId e = eid \<and> w < ie_eventSeq e) (db_events s)))"
  using assms by (auto simp: listInvestigationEvents_def split: if_splits)

definition read_up_to :: "nat \<Rightarrow> investigation_event list \<Rightarrow> nat" where
  "read_up_to w events = (if events = [] then w else ie_eventSeq (last events))"

lemma listed_bound:
  assumes "events_ok s" and "w \<le> db_event_seq s" and "listInvestigationEvents tid eid (of_nat w) 5000 s = Inr events"
  shows "w \<le> read_up_to w events \<and> read_up_to w events \<le> db_event_seq s"
proof (cases "events = []")
  case False
  then have "last events \<in> set events" by simp
  with listed_events [OF assms(3)] have "last events \<in> {e \<in> set (db_events s). w < ie_eventSeq e}"
    by (metis (mono_tags, lifting) in_set_takeD set_order_by set_filter mem_Collect_eq)
  with assms(1) False show ?thesis by (auto simp: read_up_to_def events_ok_def)
qed (use assms(2) in \<open>simp add: read_up_to_def\<close>)

lemma listed_all:
  assumes "events_ok s" and "listInvestigationEvents tid eid (of_nat w) 5000 s = Inr events" and "e \<in> set (fact_events s)"
    and "ie_taskId e = tid" "ie_epochId e = eid" "w < ie_eventSeq e" "ie_eventSeq e \<le> read_up_to w events"
  shows "e \<in> set events"
proof -
  let ?xs = "filter (\<lambda>e. ie_taskId e = tid \<and> ie_epochId e = eid \<and> w < ie_eventSeq e) (db_events s)"
  note ev = listed_events [OF assms(2)]
  have ne: "events \<noteq> []" using assms(6,7) by (auto simp: read_up_to_def split: if_splits)
  have "e \<in> set ?xs" using assms(3-6) by (simp add: fact_events_def)
  moreover have "distinct (map ie_eventSeq ?xs)" using assms(1) by (simp add: events_ok_def distinct_map_filter)
  ultimately show ?thesis using first_page [of e ?xs 5000 ie_eventSeq] assms(7) ne unfolding ev read_up_to_def by simp
qed


section \<open>One cycle\<close>

lemma matches_judged:
  assumes "evaluateFactRefs text registry tid eid refs s = (Inr created, s')" and "r \<in> set registry"
    and "rule_applies text tid eid refs s r f"
  shows "judged tid eid r f s'"
proof -
  define facts where "facts = filter observed_on_target (filter (\<lambda>f. fr_factId f \<in> set refs) (all_facts tid eid s))"
  from assms(3) obtain task where task: "getTask tid s = Some task" "tc_activeEpochId task = Some eid"
    and f: "ru_category r \<in> set (tc_checks task)" "f \<in> set (rule_facts text r facts)"
    by (auto simp: rule_applies_def rule_facts_def facts_def)
  from assms(1) task have "judge_rules text tid eid (tc_checks task) (rule_ledger tid eid s) facts registry s = (Inr created, s')"
    by (simp add: evaluateFactRefs_def evaluateFacts_def bind_act_def facts_def rule_ledger_def)
  from judge_rules_result [OF this] f assms(2) show ?thesis
    by (intro judged_now [of s' s created _ _ _ _ "text"]) (auto simp: list_all_iff judged_def)
qed

lemma grows_follow_up: "obeys grows (follow_up g refs x)"
  unfolding follow_up_def plan_volatile_def Let_def
  by (intro obeys_intros reflp_grows transp_grows grows_silent [OF silent_java] grows_silent [OF silent.volatile_obeys])

lemma grows_reaction: "obeys grows (react_to_facts g refs x)"
  unfolding react_to_facts_def by (intro obeys_intros reflp_grows transp_grows grows_follow_up)

lemma grows_playbooks: "obeys grows (plan_playbooks g x)"
  unfolding plan_playbooks_def by (intro obeys_intros reflp_grows transp_grows grows_silent [OF silent.playbook_obeys])

lemma grows_volatile: "obeys grows (plan_volatile g x)"
  unfolding plan_volatile_def by (intro obeys_intros reflp_grows transp_grows grows_silent [OF silent.volatile_obeys])

lemma grows_discovery: "tools_obey grows (sg_discoveryTools g) \<Longrightarrow> obeys grows (run_discovery g cycle)"
  unfolding run_discovery_def by (intro obeys_intros reflp_grows transp_grows grows_run.runs_until_idle)

lemma grows_model: "tools_obey grows (sg_modelTools g) \<Longrightarrow> obeys grows (run_model g cycle)"
  unfolding run_model_def by (intro obeys_intros reflp_grows transp_grows grows_run.runs_until_idle)

text \<open>After the reaction every fact announced up to the end of the page is judged.\<close>

lemma reaction_judges:
  assumes "caught_up g checks lo s"
    and page: "listInvestigationEvents (sg_taskId g) (sg_epochId g) (of_nat (watermark g s)) 5000 s = Inr events"
    and run: "react_to_facts g (concat (map event_fact_refs events)) x s = (Inr x', s')"
  shows "reading g checks lo (read_up_to (watermark g s) events) s'"
proof -
  let ?refs = "concat (map event_fact_refs events)" and ?hi = "read_up_to (watermark g s) events"
  have s: "events_ok s" "journal_ok s" "watermark g s \<le> db_event_seq s" "announced_judged g checks lo (watermark g s) s"
    "task_view (sg_taskId g) s = Some (checks, Some (sg_epochId g))"
    using assms(1) by (simp_all add: caught_up_def reading_def)
  note hi = listed_bound [OF s(1,3) page]
  obtain s1 where s1: "grows s s1" "grows s1 s'"
    and judges: "\<And>r f. r \<in> set DETERMINISTIC_RULES_V2 \<Longrightarrow> rule_applies (sg_text g) (sg_taskId g) (sg_epochId g) ?refs s r f
       \<Longrightarrow> judged (sg_taskId g) (sg_epochId g) r f s1"
  proof (cases "?refs = []")
    case True
    with run have "s' = s" by (simp add: react_to_facts_def Let_def)
    with True show ?thesis by (intro that [of s]) (auto simp: rule_applies_def reflpD [OF reflp_grows])
  next
    case False
    have "bind_act (evaluateFactRefs (sg_text g) DETERMINISTIC_RULES_V2 (sg_taskId g) (sg_epochId g) ?refs) (\<lambda>judged.
        follow_up g ?refs (x\<lparr>sc_assessmentsCreated := sc_assessmentsCreated x @ map as_assessmentId judged\<rparr>)) s = (Inr x', s')"
      using run unfolding react_to_facts_def if_not_P [OF False] .
    then obtain created s1 y where 1: "evaluateFactRefs (sg_text g) DETERMINISTIC_RULES_V2 (sg_taskId g) (sg_epochId g) ?refs s = (Inr created, s1)"
      and 2: "follow_up g ?refs y s1 = (Inr x', s')"
      by (rule bind_act_cases) simp_all
    have "grows s s1" by (rule obeysD [OF grows_rules 1])
    moreover have "grows s1 s'"
      by (rule obeysD [OF grows_follow_up 2])
    ultimately show ?thesis using matches_judged [OF 1] by (intro that)
  qed
  from announced_grows [OF s1(1) s(2,3,4)] have old: "announced_judged g checks lo (watermark g s) s1" .
  have "announced_judged g checks lo ?hi s1"
    unfolding announced_judged_def list_all_iff
  proof (intro ballI impI)
    fix e f
    assume e: "e \<in> set (fact_events s1)" "in_epoch g e \<and> lo < ie_eventSeq e \<and> ie_eventSeq e \<le> ?hi"
      and f: "f \<in> set (announced_facts g e s1)"
    show "fully_judged g checks f s1"
    proof (cases "ie_eventSeq e \<le> watermark g s")
      case True
      with old e f show ?thesis by (auto simp: announced_judged_def list_all_iff)
    next
      case False
      from s1(1) obtain es where "fact_events s1 = fact_events s @ es" "\<forall>e\<in>set es. db_event_seq s < ie_eventSeq e"
        unfolding grows_def by blast
      moreover have "\<not> db_event_seq s < ie_eventSeq e" using e(2) hi by linarith
      ultimately have "e \<in> set (fact_events s)" using e(1) by auto
      then have listed: "e \<in> set events"
        using listed_all [OF s(1) page] e(2) False by (simp add: in_epoch_def)
      have "f \<in> set (announced_facts g e s)"
        using f s1(1) s(2) \<open>e \<in> set (fact_events s)\<close> by (rule announced_facts_old)
      then have "f \<in> set (all_facts (sg_taskId g) (sg_epochId g) s)" "fr_factId f \<in> set ?refs" "observed_on_target f"
        using listed by (auto simp: announced_facts_def)
      with s(5) show ?thesis unfolding fully_judged_def list_all_iff
        by (intro ballI impI judges) (auto simp: rule_applies_def rule_facts_def task_view_def split: if_splits)
    qed
  qed
  with s hi have "reading g checks lo ?hi s1" using s1(1)
    by (auto simp: reading_def grows_def watermark_def getInvestigationConsumerWatermark_def)
  with s1(2) show ?thesis by (rule reading_grows)
qed


lemma find_update_rows:
  "List.find p rows = Some c \<Longrightarrow> hit c \<Longrightarrow> (\<And>x. p (upd x) = p x) \<Longrightarrow> List.find p (update_rows hit upd rows) = Some (upd c)"
  by (induction rows) (auto simp: update_rows_def split: if_splits)

text \<open>A move of the watermark either fails without a trace or puts it where it was asked to.\<close>

lemma advance_result:
  assumes "advanceInvestigationConsumerWatermark k w n s = (r, s')"
  shows "(\<exists>c. s' = s\<lparr>clock_pos := c\<rparr>) \<or> (\<exists>c rows. s' = s\<lparr>clock_pos := c, db_consumers := rows\<rparr>
    \<and> getInvestigationConsumerWatermark k s' = n)"
proof (cases "w \<le> n \<and> getInvestigationConsumerWatermark k s = w")
  case False
  with assms have "s' = s" by (auto simp: advanceInvestigationConsumerWatermark_def act_unfold split: if_splits)
  then have "s' = s\<lparr>clock_pos := clock_pos s\<rparr>" by simp
  then show ?thesis by blast
next
  case True
  let ?s = "s\<lparr>clock_pos := Suc (clock_pos s)\<rparr>" and ?hit = "\<lambda>c. consumer_key c = k \<and> ec_lastEventSeq c = w"
  let ?rows = "update_rows ?hit (\<lambda>c. c\<lparr>ec_lastEventSeq := n\<rparr>) (db_consumers s)"
  note run = assms [unfolded advanceInvestigationConsumerWatermark_def]
  show ?thesis
  proof (cases "List.find (\<lambda>c. consumer_key c = k) (db_consumers s)")
    case None
    then have "\<not> has_key consumer_key k (db_consumers s)" by (auto simp: has_key_iff find_None_iff)
    with run None True show ?thesis
      by (auto simp: act_unfold now_def getInvestigationConsumerWatermark_def find_snoc consumer_key_def)
  next
    case (Some c)
    with True have c: "?hit c" by (auto simp: getInvestigationConsumerWatermark_def dest: find_SomeD)
    have "List.find (\<lambda>c. consumer_key c = k) ?rows = Some (c\<lparr>ec_lastEventSeq := n\<rparr>)"
      using find_update_rows [OF Some, of ?hit "\<lambda>c. c\<lparr>ec_lastEventSeq := n\<rparr>"] c by (simp add: consumer_key_def)
    moreover have "has_key consumer_key k (db_consumers s)" using Some by (auto simp: has_key_iff dest: find_SomeD)
    ultimately have "s' = ?s \<or> s' = ?s\<lparr>db_consumers := ?rows\<rparr>" "getInvestigationConsumerWatermark k (?s\<lparr>db_consumers := ?rows\<rparr>) = n"
      using run True by (auto simp: act_unfold now_def require_def getInvestigationConsumerWatermark_def split: if_splits)
    then show ?thesis by auto
  qed
qed

lemma advance_catches_up:
  assumes "reading g checks lo (read_up_to w events) s" and "w = watermark g s"
    and run: "advance_events (sg_taskId g) (sg_epochId g) w events s = (r, s')"
  shows "caught_up g checks lo s'"
proof (cases "events = []")
  case True
  with run have "s' = s" by (simp add: advance_events_def)
  with assms(1) show ?thesis using reading_caught_up by blast
next
  case False
  with run have "advanceInvestigationConsumerWatermark (scheduler_consumer (sg_taskId g) (sg_epochId g)) w (read_up_to w events) s = (r, s')"
    by (simp add: advance_events_def read_up_to_def)
  from advance_result [OF this] show ?thesis
  proof (elim disjE exE conjE)
    fix c assume "s' = s\<lparr>clock_pos := c\<rparr>"
    then have "grows s s'" by (intro silent_grows silent_write) simp_all
    with assms(1) show ?thesis using reading_grows reading_caught_up by blast
  next
    fix c rows assume s': "s' = s\<lparr>clock_pos := c, db_consumers := rows\<rparr>"
      "getInvestigationConsumerWatermark (scheduler_consumer (sg_taskId g) (sg_epochId g)) s' = read_up_to w events"
    with assms(1) show ?thesis
      by (simp add: caught_up_def watermark_def reading_def events_ok_def journal_ok_def fact_events_def task_view_def getTask_def
          announced_judged_def announced_facts_def all_facts_def fully_judged_def judged_def rule_ledger_def listAssessments_def)
  qed
qed


section \<open>The loop\<close>

definition scheduler_tools_grow :: "'a scheduler \<Rightarrow> bool" where
  "scheduler_tools_grow g \<longleftrightarrow> tools_obey grows (sg_discoveryTools g) \<and> tools_obey grows (sg_modelTools g)"

lemma grows_queue: "scheduler_tools_grow g \<Longrightarrow> obeys grows (run_queue g cycle events x)"
  unfolding run_queue_def scheduler_tools_grow_def
  by (intro obeys_intros reflp_grows transp_grows grows_volatile grows_discovery grows_model) simp_all

text \<open>A cycle that is not ended at its start works on the events behind the watermark.\<close>

lemma cycle_cases:
  assumes "scheduler_cycle g cycle x s = (r, s')"
  obtains e where "s' = s" "r = Inl e"
  | events where "listInvestigationEvents (sg_taskId g) (sg_epochId g) (of_nat (watermark g s)) 5000 s = Inr events"
      "cycle_on_events g cycle (watermark g s) events (x\<lparr>sc_cycles := Suc (sc_cycles x)\<rparr>) s = (r, s')"
proof (cases "sg_aborted g cycle At_start")
  case True
  then show ?thesis using assms that(1) by (auto simp: scheduler_cycle_def bind_act_def)
next
  case False
  show ?thesis
  proof (cases "listInvestigationEvents (sg_taskId g) (sg_epochId g) (of_nat (watermark g s)) 5000 s")
    case (Inl e)
    then show ?thesis using assms False that(1) by (auto simp: scheduler_cycle_def Let_def bind_act_def lift_result_def watermark_def)
  next
    case (Inr events)
    then show ?thesis using assms False that(2) by (auto simp: scheduler_cycle_def Let_def bind_act_def lift_result_def watermark_def)
  qed
qed

lemma cycle_on_events_catches_up:
  assumes "caught_up g checks lo s" and "scheduler_tools_grow g"
    and page: "listInvestigationEvents (sg_taskId g) (sg_epochId g) (of_nat (watermark g s)) 5000 s = Inr events"
    and run: "cycle_on_events g cycle (watermark g s) events x s = (r, s')"
  shows "caught_up g checks lo s'"
  using run unfolding cycle_on_events_def
proof (cases rule: bind_act_cases)
  case (1 e)
  from obeysD [OF grows_reaction 1(1)] assms(1) show ?thesis by (rule caught_up_grows)
next
  case (2 x1 s1)
  note ready = reaction_judges [OF assms(1) page 2(1)]
  have "watermark g s1 = watermark g s"
    using obeysD [OF grows_reaction 2(1)] by (simp add: grows_def watermark_def getInvestigationConsumerWatermark_def)
  from 2(2) show ?thesis
  proof (cases rule: bind_act_cases)
    case (1 e)
    from reading_grows [OF obeysD [OF grows_playbooks 1(1)] ready] show ?thesis by (rule reading_caught_up)
  next
    case (2 x2 s2)
    note grown = obeysD [OF grows_playbooks 2(1)]
    note ready' = reading_grows [OF grown ready]
    have w: "watermark g s = watermark g s2"
      using \<open>watermark g s1 = watermark g s\<close> grown by (simp add: grows_def watermark_def getInvestigationConsumerWatermark_def)
    from 2(2) show ?thesis
    proof (cases rule: bind_act_cases)
      case (1 e)
      from advance_catches_up [OF ready' w 1(1)] show ?thesis .
    next
      case (2 u s3)
      from obeysD [OF grows_queue [OF assms(2)] 2(2)] advance_catches_up [OF ready' w 2(1)] show ?thesis
        by (rule caught_up_grows)
    qed
  qed
qed

lemma cycles_catch_up:
  assumes "scheduler_tools_grow g" and "caught_up g checks lo s" and "scheduler_cycles g cycle n x s = (r, s')"
  shows "caught_up g checks lo s'"
  using assms(2,3)
proof (induction n arbitrary: cycle x s)
  case (Suc n)
  have step: "caught_up g checks lo s1" if "scheduler_cycle g cycle x s = (q, s1)" for q s1
    using that by (cases rule: cycle_cases) (auto intro: Suc.prems(1) cycle_on_events_catches_up [OF Suc.prems(1) assms(1)])
  from Suc.prems(2) show ?case unfolding scheduler_cycles.simps
  proof (cases rule: bind_act_cases)
    case (2 y s1)
    with step [OF 2(1)] Suc.IH show ?thesis by (auto split: prod.splits if_splits)
  qed (use step in blast)
qed simp


section \<open>Coming to rest\<close>

lemma count_executed: "run_actions digest tid eid tools auth w el ab n x s = (Inr y, s') \<Longrightarrow> xs_executed x \<le> xs_executed y"
proof (induction n arbitrary: x s)
  case (Suc n)
  have "xs_executed (count_outcome k x) = Suc (xs_executed x)" for k by (cases k) simp_all
  with Suc show ?case by (fastforce simp: act_simps split: option.splits prod.splits dest: Suc_leD)
qed simp

text \<open>An executor that found nothing to do leaves no trace in the journal.\<close>

lemma idle_run_silent:
  assumes "runUntilIdle digest tid eid tools auth w el ab n s = (Inr x, s')" and "xs_executed x = 0"
  shows "silent s s'"
proof -
  from assms(1) obtain s1 where 1: "run_actions digest tid eid tools auth w el ab n no_execution s = (Inr x, s1)"
    and 2: "each_act (block_dependent tid eid (listInvestigationActions tid eid s1)) (listInvestigationActions tid eid s1) s1 = (Inr (), s')"
    unfolding runUntilIdle_def by (auto simp: act_simps)
  have "silent s s1"
  proof (cases n)
    case (Suc m)
    from 1 obtain claimed s2 where c: "claimNextInvestigationAction tid eid w auth el s = (Inr claimed, s2)"
      and rest: "(case claimed of None \<Rightarrow> return_act no_execution
       | Some (a, attempt) \<Rightarrow> bind_act (run_claimed digest tid eid tools a (at_attemptId attempt)) (\<lambda>o'.
         run_actions digest tid eid tools auth w el ab m (count_outcome o' no_execution))) s2 = (Inr x, s1)"
      unfolding Suc run_actions.simps by (auto simp: act_simps)
    have "claimed = None"
    proof (rule ccontr)
      assume "claimed \<noteq> None"
      with rest obtain a t k s3 where "run_actions digest tid eid tools auth w el ab m (count_outcome k no_execution) s3 = (Inr x, s1)"
        by (auto simp: act_simps split: prod.splits)
      moreover have "xs_executed (count_outcome k no_execution) = 1" by (cases k) (simp_all add: no_execution_def)
      ultimately show False using count_executed assms(2) by fastforce
    qed
    with rest obeysD [OF silent_claim c] show ?thesis by simp
  qed (use 1 in \<open>simp add: reflpD [OF reflp_silent]\<close>)
  moreover have "obeys silent (each_act (block_dependent tid eid (listInvestigationActions tid eid s1)) (listInvestigationActions tid eid s1))"
    by (intro obeys_intros)
  then have "silent s1 s'" using 2 by (rule obeysD)
  ultimately show ?thesis by (rule transpD [OF transp_silent])
qed

lemma silent_steps: "obeys silent (plan_playbooks g x)" "obeys silent (plan_volatile g x)"
  unfolding plan_playbooks_def plan_volatile_def
  by (intro obeys_intros silent.playbook_obeys silent.volatile_obeys)+

lemma quiescent_queue:
  assumes "run_queue g cycle events x s = (Inr (y, True), s')"
  shows "events = [] \<and> silent s s'"
proof -
  from assms obtain x' s1 d s2 m where 1: "plan_volatile g x s = (Inr x', s1)" "run_discovery g cycle s1 = (Inr d, s2)"
    "run_model g cycle s2 = (Inr m, s')" "events = []" "xs_executed d = 0" "xs_executed m = 0"
    unfolding run_queue_def by (auto simp: act_simps)
  have "silent s1 s2" using 1(2,5) idle_run_silent by (simp add: run_discovery_def bind_act_def) blast
  moreover have "silent s2 s'"
    using 1(3,6) idle_run_silent reflpD [OF reflp_silent] by (simp add: run_model_def bind_act_def split: if_splits) blast
  ultimately show ?thesis using obeysD [OF silent_steps(2) 1(1)] 1(4) transpD [OF transp_silent] by metis
qed

lemma nothing_listed:
  "listInvestigationEvents (sg_taskId g) (sg_epochId g) (of_nat (watermark g s)) 5000 s = Inr [] \<Longrightarrow> unread_facts g s = []"
  by (drule listed_events) (auto simp: unread_facts_def fact_events_def in_epoch_def filter_empty_conv dest!: arg_cong [of "[]" _ set] simp: set_order_by)

lemma cycle_comes_to_rest:
  assumes "scheduler_cycle g cycle x s = (Inr (y, True), s')"
  shows "unread_facts g s' = []"
  using assms
proof (cases rule: cycle_cases)
  case (2 events)
  from 2(2) obtain x1 s1 x2 s2 u s3 x3 where steps: "react_to_facts g (concat (map event_fact_refs events)) (x\<lparr>sc_cycles := Suc (sc_cycles x)\<rparr>) s = (Inr x1, s1)"
    "plan_playbooks g x1 s1 = (Inr x2, s2)" "advance_events (sg_taskId g) (sg_epochId g) (watermark g s) events s2 = (Inr u, s3)"
    "run_queue g cycle events x3 s3 = (Inr (y, True), s')"
    unfolding cycle_on_events_def by (auto simp: act_simps)
  note q = quiescent_queue [OF steps(4)]
  from q steps(1,3) have "s1 = s" "s3 = s2" by (auto simp: react_to_facts_def advance_events_def)
  with obeysD [OF silent_steps(1) steps(2)] q have "silent s s'" using transpD [OF transp_silent] by metis
  then have "unread_facts g s' = unread_facts g s"
    by (simp add: silent_def quiet_view_def unread_facts_def watermark_def getInvestigationConsumerWatermark_def)
  with 2(1) q nothing_listed show ?thesis by metis
qed simp

lemma volatile_noted: "plan_volatile g x s = (Inr y, s') \<Longrightarrow> sc_cycles y = sc_cycles x"
  by (auto simp: plan_volatile_def note_plan_def act_simps)

lemma playbooks_noted: "plan_playbooks g x s = (Inr y, s') \<Longrightarrow> sc_cycles y = sc_cycles x"
  by (auto simp: plan_playbooks_def act_simps)

lemma queue_noted: "run_queue g cycle events x s = (Inr (y, b), s') \<Longrightarrow> sc_cycles y = sc_cycles x"
  by (auto simp: run_queue_def mergeExecution_def Let_def act_simps dest: volatile_noted)

lemma reaction_noted: "react_to_facts g refs x s = (Inr y, s') \<Longrightarrow> sc_cycles y = sc_cycles x"
  by (auto simp: react_to_facts_def follow_up_def Let_def act_simps dest: volatile_noted split: if_splits)

lemma cycle_counted:
  assumes "scheduler_cycle g cycle x s = (Inr (y, b), s')"
  shows "sc_cycles y = Suc (sc_cycles x)"
  using assms
proof (cases rule: cycle_cases)
  case (2 events)
  from 2(2) obtain x1 s1 x2 s2 u s3 where run: "react_to_facts g (concat (map event_fact_refs events)) (x\<lparr>sc_cycles := Suc (sc_cycles x)\<rparr>) s = (Inr x1, s1)"
    "plan_playbooks g x1 s1 = (Inr x2, s2)"
    "run_queue g cycle events (x2\<lparr>sc_eventsConsumed := sc_eventsConsumed x2 + length events\<rparr>) s3 = (Inr (y, b), s')"
    unfolding cycle_on_events_def by (auto simp: act_simps)
  from reaction_noted [OF run(1)] playbooks_noted [OF run(2)] queue_noted [OF run(3)] show ?thesis by simp
qed simp

lemma cycles_come_to_rest:
  assumes "scheduler_cycles g cycle n x s = (Inr y, s')" and "sc_cycles y < sc_cycles x + n"
  shows "unread_facts g s' = []"
  using assms
proof (induction n arbitrary: cycle x s)
  case (Suc n)
  from Suc.prems(1) obtain x1 b s1 where c: "scheduler_cycle g cycle x s = (Inr (x1, b), s1)"
    and rest: "(if b then return_act x1 else scheduler_cycles g (Suc cycle) n x1) s1 = (Inr y, s')"
    by (auto simp: act_simps)
  show ?case
  proof (cases b)
    case True
    with c rest cycle_comes_to_rest show ?thesis by auto
  next
    case False
    with Suc.IH [of "Suc cycle" x1 s1] rest cycle_counted [OF c] Suc.prems(2) show ?thesis by simp
  qed
qed simp

section \<open>The property\<close>

text \<open>C35. Whatever a run of the scheduler returns, a summary or an error: each fact that an event up to the
  final watermark announces is judged, for every checked category, by each rule that matches it. If the run ended before the
  given number of cycles, no event of the epoch that announces facts is left unread.\<close>

theorem no_fact_escapes_the_rules:
  assumes "events_ok s" and "journal_ok s" and "watermark g s \<le> db_event_seq s"
    and "task_view (sg_taskId g) s = Some (checks, Some (sg_epochId g))" and tools: "scheduler_tools_grow g"
    and run: "runUntilQuiescent g n s = (r, s')"
  shows "announced_judged g checks (watermark g s) (watermark g s') s'
    \<and> (case r of Inr x \<Rightarrow> if sc_cycles x < n then unread_facts g s' = [] else True | Inl _ \<Rightarrow> True)"
proof -
  have "caught_up g checks (watermark g s) s"
    using assms(1-4) by (auto simp: caught_up_def reading_def announced_judged_def list_all_iff)
  obtain q s1 where c: "scheduler_cycles g 0 n empty_summary s = (q, s1)" by (cases "scheduler_cycles g 0 n empty_summary s")
  have s1: "s1 = s'" "case q of Inl e \<Rightarrow> r = Inl e | Inr y \<Rightarrow> (case r of Inr x \<Rightarrow> sc_cycles x = sc_cycles y | Inl _ \<Rightarrow> False)"
    using run c by (auto simp: runUntilQuiescent_def bind_act_def split: sum.splits)
  from cycles_catch_up [OF tools _ c] \<open>caught_up g checks (watermark g s) s\<close> s1(1)
  have "announced_judged g checks (watermark g s) (watermark g s') s'" by (simp add: caught_up_def reading_def)
  moreover have "unread_facts g s' = []" if "r = Inr x" "sc_cycles x < n" for x
    using cycles_come_to_rest [of g 0 n empty_summary s] c s1 that by (auto simp: empty_summary_def split: sum.splits)
  ultimately show ?thesis by (auto split: sum.split)
qed


section \<open>A program run from a temporary directory\<close>

definition exec_store :: db where
  "exec_store = empty_db\<lparr>db_tasks := [sample_task\<lparr>tc_checks := [Linux_intrusion_triage]\<rparr>],
     db_epochs := [sample_epoch ''E1''], db_objects := [example_object 1 NS_exec_event],
     db_facts := [example_fact 1 NS_exec_event [(''executable'', Str ''/tmp/x'')]],
     db_events := [\<lparr>ie_eventSeq = 1, ie_eventId = ''V'', ie_taskId = ''T1'', ie_epochId = ''E1'', ie_sourceBatchRef = None,
       ie_eventType = ''FACT_BATCH_COMMITTED'', ie_payload = [(''factRefs'', js_ids [''FACT-x''])], ie_createdAt = ''t''\<rparr>], db_event_seq := 1\<rparr>"

definition plain_scheduler :: "unit scheduler" where
  "plain_scheduler = \<lparr>sg_digest = (\<lambda>_. ''d''), sg_text = string_of, sg_collate = (\<lambda>_ _. 0), sg_parse = (\<lambda>_. Fin 0), sg_to_iso = (\<lambda>_. ''t''),
     sg_url_path = (\<lambda>_. None), sg_taskId = ''T1'', sg_epochId = ''E1'', sg_session = sample_session, sg_discoveryTools = [],
     sg_modelTools = [], sg_eligible = None, sg_aborted = (\<lambda>_ _. False)\<rparr>"

definition sample_reading :: "nat \<Rightarrow> (err + scheduler_summary) \<times> db" where
  "sample_reading n = runUntilQuiescent plain_scheduler n exec_store"

theorem no_fact_escapes_the_rules_witness:
  "announced_judged plain_scheduler [Linux_intrusion_triage] 0 (watermark plain_scheduler (snd (sample_reading 20))) (snd (sample_reading 20))
   \<and> map (\<lambda>e. length (announced_facts plain_scheduler e exec_store)) (fact_events exec_store) = [1]"
proof -
  have "events_ok exec_store" "watermark plain_scheduler exec_store = 0" "scheduler_tools_grow plain_scheduler"
    by (simp_all add: events_ok_def exec_store_def empty_defs watermark_def getInvestigationConsumerWatermark_def
        scheduler_tools_grow_def tools_obey_def plain_scheduler_def)
  moreover have "journal_ok exec_store" by code_simp
  moreover have "task_view (sg_taskId plain_scheduler) exec_store = Some ([Linux_intrusion_triage], Some (sg_epochId plain_scheduler))" by code_simp
  moreover have "runUntilQuiescent plain_scheduler 20 exec_store = (fst (sample_reading 20), snd (sample_reading 20))"
    by (simp add: sample_reading_def)
  moreover have "map (\<lambda>e. length (announced_facts plain_scheduler e exec_store)) (fact_events exec_store) = [1]" by code_simp
  ultimately show ?thesis
    using no_fact_escapes_the_rules [of exec_store plain_scheduler "[Linux_intrusion_triage]" 20 "fst (sample_reading 20)" "snd (sample_reading 20)"]
    by simp
qed

end
