(* ===== verification/Planning.thy ===== *)
theory Planning
  imports Growth
begin

text \<open>
  What the planners promise: a plan that was made is in the queue, and the obligations about the scope of
  the discovery say so honestly.
\<close>

section \<open>Work that is in the queue\<close>

text \<open>An action of the epoch stands for the operation: it has its key, or its name and arguments.\<close>

definition queued :: "(js \<Rightarrow> string) \<Rightarrow> id \<Rightarrow> id \<Rightarrow> id \<Rightarrow> string \<Rightarrow> js \<Rightarrow> 'a db_scheme \<Rightarrow> bool" where
  "queued digest tid eid ref name args s \<longleftrightarrow> list_ex (\<lambda>a. ac_scope a = (tid, eid)
     \<and> (ac_idempotencyKey a = action_key digest tid eid name ref (digest args)
        \<or> ac_operationRef a @ '':'' @ ac_argsDigest a = name @ '':'' @ digest args)) (db_actions s)"

lemma queued_evolves: "evolves s s' \<Longrightarrow> machine_inv (tables s) \<Longrightarrow> queued digest tid eid ref name args s
    \<Longrightarrow> queued digest tid eid ref name args s'"
  unfolding queued_def list_ex_iff evolves_def queue_le_def action_le_def same_action_def tables_def by fastforce

lemma put_action_stored:
  assumes "putInvestigationAction v s = (Inr r, s')"
  shows "\<exists>a\<in>set (db_actions s'). ac_idempotencyKey a = ac_idempotencyKey v \<and> ac_scope a = (ac_taskId v, ac_epochId v)"
proof -
  let ?existing = "has_key ac_idempotencyKey (ac_idempotencyKey v) (db_actions s)"
  from assms obtain n where run: "store_action v ?existing n s = (Inr r, s')"
    unfolding putInvestigationAction_def Let_def by (auto simp: act_simps dest!: tables_scope)
  let ?c = "candidate_action v (queue_full v ?existing n)"
  let ?s1 = "if \<not> has_key ac_actionId (ac_actionId v) (db_actions s) \<and> \<not> ?existing then s\<lparr>db_actions := db_actions s @ [?c]\<rparr> else s"
  from run obtain stored where found: "List.find (\<lambda>a. ac_idempotencyKey a = ac_idempotencyKey v) (db_actions ?s1) = Some stored"
    and scope: "ac_scope stored = (ac_taskId v, ac_epochId v)"
    and rest: "report_created stored (queue_full v ?existing n) n ?s1 = (Inr r, s') \<or> merge_action stored v ?s1 = (Inr r, s')"
    by (auto simp: store_action_def Let_def act_simps split: option.splits if_splits)
  from find_SomeD [OF found] have stored: "stored \<in> set (db_actions ?s1)" "ac_idempotencyKey stored = ac_idempotencyKey v" by auto
  have "tables s' = tables ?s1 \<or> (\<exists>t ids p. tables s' = (put_action (stored\<lparr>ac_obligationIds := ids,
      ac_priority := p, ac_updatedAt := t\<rparr>) (db_actions ?s1), db_attempts ?s1))"
    using rest obeys_sameD [OF tables_created] merge_tables by blast
  then show ?thesis
  proof (elim disjE exE)
    assume "tables s' = tables ?s1"
    then have "db_actions s' = db_actions ?s1" by (simp only: tables_def prod.inject)
    with stored scope show ?thesis by metis
  next
    fix t ids p
    assume "tables s' = (put_action (stored\<lparr>ac_obligationIds := ids, ac_priority := p, ac_updatedAt := t\<rparr>) (db_actions ?s1), db_attempts ?s1)"
    then have "stored\<lparr>ac_obligationIds := ids, ac_priority := p, ac_updatedAt := t\<rparr> \<in> set (db_actions s')"
      using stored(1) by (auto simp: tables_def put_action_def update_rows_def image_iff)
    with stored(2) scope show ?thesis by (intro bexI [of _ "stored\<lparr>ac_obligationIds := ids, ac_priority := p, ac_updatedAt := t\<rparr>"])
        (simp_all add: ac_scope_def)
  qed
qed

text \<open>A loop whose every step makes something true that later steps keep makes all of it true.\<close>

lemma map_act_all:
  assumes step: "\<And>x s y s'. x \<in> set xs \<Longrightarrow> I s \<Longrightarrow> f x s = (Inr y, s') \<Longrightarrow> P x s'"
    and "\<And>x. obeys R (f x)" and "reflp R" and "transp R" and keep: "\<And>x s s'. R s s' \<Longrightarrow> I s \<Longrightarrow> P x s \<Longrightarrow> P x s'"
    and inv: "\<And>s s'. R s s' \<Longrightarrow> I s \<Longrightarrow> I s'" and "map_act f xs s = (Inr ys, s')" and "I s"
  shows "\<forall>x\<in>set xs. P x s'"
  using assms(1,7,8)
proof (induction xs arbitrary: s ys)
  case (Cons x xs)
  from Cons.prems(2) obtain y s1 ys' where 1: "f x s = (Inr y, s1)" "map_act f xs s1 = (Inr ys', s')" by (auto simp: act_simps)
  have r: "R s s1" using assms(2) 1(1) by (rule obeysD)
  have "obeys R (map_act f xs)" by (intro obeys_map assms(2-4))
  then have "R s1 s'" using 1(2) by (rule obeysD)
  moreover have "P x s1" using Cons.prems(1,3) 1(1) by auto
  moreover have "\<forall>x\<in>set xs. P x s'" using Cons.IH [OF _ 1(2)] Cons.prems(1) inv [OF r Cons.prems(3)] by auto
  ultimately show ?case using keep inv [OF r Cons.prems(3)] by auto
qed simp

lemma evolves_inv: "evolves s s' \<Longrightarrow> machine_inv (tables s) \<Longrightarrow> machine_inv (tables s')"
  by (simp add: evolves_def)

lemma map_act_planned:
  assumes "map_act f xs s = (Inr ys, s')" and "machine_inv (tables s)" and "\<And>x. obeys evolves (f x)"
    and "\<And>x s y s'. machine_inv (tables s) \<Longrightarrow> f x s = (Inr y, s') \<Longrightarrow> P x s'"
    and "\<And>x s s'. evolves s s' \<Longrightarrow> machine_inv (tables s) \<Longrightarrow> P x s \<Longrightarrow> P x s'"
  shows "\<forall>x\<in>set xs. P x s'"
proof (rule map_act_all [where I = "\<lambda>s. machine_inv (tables s)" and R = evolves and f = f and P = P, OF _ assms(3) reflp_evolves transp_evolves])
  show "map_act f xs s = (Inr ys, s')" by (rule assms(1))
qed (use assms(2,4,5) evolves_inv in \<open>blast+\<close>)

section \<open>The plan of a volatile object\<close>

lemma evolves_operation: "obeys evolves (plan_operation digest session l op)"
  unfolding plan_operation_def by (intro evolves.part_intros) (simp add: volatile_action_def Let_def)

lemma operation_queued:
  assumes "plan_operation digest session l (i, op) s = (Inr y, s')" and round: "ld_observationRound l = round_of (ld_subjectRef l)"
  shows "queued digest (ld_taskId l) (ld_epochId l) (ld_subjectRef l) (vo_operationRef op) (vo_args op) s'"
proof -
  from assms obtain oid versions t u s1 r where "putInvestigationAction (volatile_action digest session l oid versions i op t u) s1 = (Inr r, s')"
    unfolding plan_operation_def by (auto simp: act_simps)
  from put_action_stored [OF this] round show ?thesis
    by (auto simp: queued_def list_ex_iff volatile_action_def Let_def action_key_def)
qed

lemma subject_queued:
  assumes run: "planSubject digest session c l s = (Inr ids, s')" and inv: "machine_inv (tables s)"
    and round: "ld_observationRound l = round_of (ld_subjectRef l)"
  shows "\<forall>op\<in>set (operationsFor c). queued digest (ld_taskId l) (ld_epochId l) (ld_subjectRef l) (vo_operationRef op) (vo_args op) s'"
proof -
  have "\<forall>p\<in>set (enumerate 0 (operationsFor c)). queued digest (ld_taskId l) (ld_epochId l) (ld_subjectRef l)
      (vo_operationRef (snd p)) (vo_args (snd p)) s'"
    by (rule map_act_planned [OF run [unfolded planSubject_def] inv evolves_operation])
      (use operation_queued [OF _ round] queued_evolves in \<open>auto simp: split_paired_all\<close>)
  then show ?thesis by (metis in_set_conv_nth length_enumerate nth_enumerate_eq snd_conv nth_mem)
qed

text \<open>\<open>gives P m\<close>: whatever m returns satisfies P.\<close>

definition gives :: "('r \<Rightarrow> bool) \<Rightarrow> ('s, 'r) act \<Rightarrow> bool" where
  "gives P m \<longleftrightarrow> (\<forall>s r s'. m s = (Inr r, s') \<longrightarrow> P r)"

lemma givesD: "gives P m \<Longrightarrow> m s = (Inr r, s') \<Longrightarrow> P r"
  unfolding gives_def by blast

lemma gives_bind: "(\<And>x. gives P (f x)) \<Longrightarrow> gives P (bind_act m f)"
  unfolding gives_def by (auto elim!: bind_act_cases)

lemma gives_read: "(\<And>s. gives P (f (g s))) \<Longrightarrow> gives P (bind_act (read_act g) f)"
  unfolding gives_def by (simp add: bind_act_def)

lemma gives_seq: "gives P k \<Longrightarrow> gives P (seq_act m k)"
  unfolding seq_act_def by (rule gives_bind)

lemma gives_transaction: "gives P m \<Longrightarrow> gives P (transaction m)"
  by (simp add: gives_def transaction_Inr)

lemma gives_return: "P x \<Longrightarrow> gives P (return_act x)"
  by (simp add: gives_def)

lemma gives_throw: "gives P (throw_act e)"
  by (simp add: gives_def)

lemma lead_key_merged [simp]: "lead_key (x\<lparr>ld_triggerFactRefs := refs, ld_priority := p, ld_updatedAt := t\<rparr>) = lead_key x"
  by (simp add: lead_key_def)

lemma put_lead_key: "gives (\<lambda>r. lead_key r = lead_key l) (putInvestigationLead l)"
  unfolding putInvestigationLead_def Let_def
  by (rule gives_seq, rule gives_bind, rule gives_seq, rule gives_transaction, rule gives_bind, rule gives_seq, rule gives_read)
    (auto intro!: gives_seq gives_return gives_throw dest!: find_SomeD split: option.split)

lemma lead_result:
  assumes "put_lead c tid eid s = (Inr l, s')"
  shows "ld_taskId l = tid \<and> ld_epochId l = eid \<and> ld_subjectRef l = fr_subjectRef (cd_subject c)
    \<and> ld_observationRound l = round_of (fr_subjectRef (cd_subject c))"
proof -
  from assms obtain l0 s1 where "putInvestigationLead l0 s1 = (Inr l, s')" and l0: "ld_taskId l0 = tid" "ld_epochId l0 = eid"
    "ld_subjectRef l0 = fr_subjectRef (cd_subject c)" "ld_observationRound l0 = round_of (fr_subjectRef (cd_subject c))"
    unfolding put_lead_def by (auto simp: act_simps)
  from givesD [OF put_lead_key this(1)] l0 show ?thesis by (simp add: lead_key_def)
qed


definition candidate_queued :: "(js \<Rightarrow> string) \<Rightarrow> id \<Rightarrow> id \<Rightarrow> volatile_candidate \<Rightarrow> 'a db_scheme \<Rightarrow> bool" where
  "candidate_queued digest tid eid c s \<longleftrightarrow> list_all (\<lambda>op.
     queued digest tid eid (fr_subjectRef (cd_subject c)) (vo_operationRef op) (vo_args op) s) (operationsFor c)"

lemma candidate_queued_evolves: "evolves s s' \<Longrightarrow> machine_inv (tables s) \<Longrightarrow> candidate_queued digest tid eid c s
    \<Longrightarrow> candidate_queued digest tid eid c s'"
  unfolding candidate_queued_def list_all_iff using queued_evolves by blast

text \<open>Every candidate adds at most one lead; if none is left out, all of them are in the queue.\<close>

lemma candidates_planned:
  assumes "plan_candidates digest session tid eid actions slots cs p s = (Inr q, s')" and "machine_inv (tables s)"
  shows "length (dp_leadIds q) \<le> length (dp_leadIds p) + length cs
    \<and> (length (dp_leadIds q) = length (dp_leadIds p) + length cs \<longrightarrow> (\<forall>c\<in>set cs. candidate_queued digest tid eid c s'))"
  using assms
proof (induction cs arbitrary: slots p s)
  case (Cons c cs)
  show ?case
  proof (cases "int (missing_operations digest actions c) > slots")
    case True
    with Cons.prems Cons.IH [of slots p s] show ?thesis by (auto simp: Let_def)
  next
    case False
    with Cons.prems(1) obtain l s1 ids s2 p' where 1: "put_lead c tid eid s = (Inr l, s1)" "planSubject digest session c l s1 = (Inr ids, s2)"
      and 2: "plan_candidates digest session tid eid actions (slots - int (missing_operations digest actions c)) cs p' s2 = (Inr q, s')"
      and p': "length (dp_leadIds p') = Suc (length (dp_leadIds p))"
      by (auto simp: Let_def act_simps)
    have "obeys evolves (put_lead c tid eid :: ('a db_scheme, _) act)" unfolding put_lead_def by (intro evolves.part_intros)
    from obeysD [OF this 1(1)] Cons.prems(2) have inv1: "machine_inv (tables s1)" by (simp add: evolves_def)
    from obeysD [OF evolves.plans_subject 1(2)] inv1 have inv2: "machine_inv (tables s2)" by (simp add: evolves_def)
    have "candidate_queued digest tid eid c s2"
      using subject_queued [OF 1(2) inv1] lead_result [OF 1(1)] by (simp add: candidate_queued_def list_all_iff)
    with candidate_queued_evolves [OF obeysD [OF evolves.plans_candidates 2] inv2]
    have "candidate_queued digest tid eid c s'" by blast
    with Cons.IH [OF 2 inv2] p' show ?thesis by auto
  qed
qed simp

section \<open>The obligation about the scope\<close>

definition scope_key :: "id \<Rightarrow> id \<Rightarrow> (id \<times> id) \<times> string" where
  "scope_key tid eid = ((tid, eid), ''VOLATILE_DISCOVERY_SCOPE'')"

definition obligation_of :: "(id \<times> id) \<times> string \<Rightarrow> 'a db_scheme \<Rightarrow> obligation_row option" where
  "obligation_of k s = List.find (\<lambda>r. obligation_key r = k) (db_obligations s)"

lemma put_obligation_stored:
  assumes "putInvestigationObligation v s = (Inr ob, s')"
  shows "\<exists>r. obligation_of ((ob_taskId v, ob_epochId v), ob_dedupeKey v) s' = Some r \<and> ow_payload r = ob"
  using assms unfolding putInvestigationObligation_def Let_def obligation_of_def
  by (auto simp: act_simps split: option.splits if_splits dest!: tables_scope obeys_sameD [OF obligations_log_event])

lemma find_update_hit:
  "List.find p rows = Some c \<Longrightarrow> hit c \<Longrightarrow> (\<And>x. hit x \<Longrightarrow> p (upd x) = p x) \<Longrightarrow> List.find p (update_rows hit upd rows) = Some (upd c)"
  by (induction rows) (auto simp: update_rows_def split: if_splits)

lemma update_obligation_stored:
  assumes "updateInvestigationObligation v (ow_status r) s = (Inr (), s')" and r: "obligation_of k s = Some r"
    and same: "ob_obligationId v = ow_id r" "(ob_taskId v, ob_epochId v) = ow_scope r"
  shows "obligation_of k s' = Some (r\<lparr>ow_payload := v\<rparr>)"
proof -
  have "db_obligations s' = update_rows (obligation_hit v (ow_status r)) (\<lambda>r. r\<lparr>ow_payload := v\<rparr>) (db_obligations s)"
    using assms(1) by (auto simp: updateInvestigationObligation_def log_obligation_def act_simps dest!: obeys_sameD [OF obligations_log_event])
  moreover have "obligation_hit v (ow_status r) r" using same by (simp add: obligation_hit_def)
  moreover have "obligation_key (x\<lparr>ow_payload := v\<rparr>) = obligation_key x" if "obligation_hit v (ow_status r) x" for x
    using that by (simp add: obligation_key_def obligation_hit_def ow_scope_def)
  ultimately show ?thesis using r unfolding obligation_of_def by (simp add: find_update_hit)
qed


lemma obligation_kept: "db_obligations s' = db_obligations s \<Longrightarrow> obligation_of k s' = obligation_of k s"
  by (simp add: obligation_of_def)

lemma obligations_checkpoint: "obeys (same db_obligations) (putDiscoveryCheckpoint v)"
  unfolding putDiscoveryCheckpoint_def assertInvestigationScope_def Let_def by (intro obeys_intros) (simp_all add: same_def)

lemma scope_recorded:
  assumes "record_scope digest tid eid status results gaps t s = (Inr stored, s')"
  shows "\<exists>r. obligation_of (scope_key tid eid) s' = Some r \<and> ow_status r = status"
proof -
  from assms(1) obtain u s1 s2 where 1: "putInvestigationObligation (scope_obligation tid eid status results gaps t u) s1 = (Inr stored, s2)"
    and 2: "update_scope digest stored status results gaps t s2 = (Inr (), s')"
    unfolding record_scope_def by (auto simp: act_simps)
  from put_obligation_stored [OF 1] obtain r where r: "obligation_of (scope_key tid eid) s2 = Some r" "ow_payload r = stored"
    by (auto simp: scope_obligation_def scope_key_def)
  define v where "v = stored\<lparr>ob_status := status, ob_resultRefs := results, ob_gapRefs := gaps, ob_updatedAt := t\<rparr>"
  from 2 r(2) consider "s' = s2" "ow_status r = status" | "updateInvestigationObligation v (ow_status r) s2 = (Inr (), s')"
    by (auto simp: update_scope_def v_def ow_status_def split: if_splits)
  then show ?thesis
  proof cases
    case 1
    with r(1) show ?thesis by blast
  next
    case 2
    have "ob_obligationId v = ow_id r" "(ob_taskId v, ob_epochId v) = ow_scope r"
      by (simp_all add: v_def ow_id_def ow_scope_def r(2))
    from update_obligation_stored [OF 2 r(1) this] show ?thesis by (simp add: ow_status_def v_def)
  qed
qed

section \<open>The property\<close>

lemma nothing_missing:
  assumes "missing_operations digest (listInvestigationActions tid eid s) c = 0"
  shows "candidate_queued digest tid eid c s"
  using assms unfolding missing_operations_def candidate_queued_def
  by (auto simp: list_all_iff filter_empty_conv operation_planned_def queued_def list_ex_iff listInvestigationActions_def set_order_by)

definition triage_complete :: "id \<Rightarrow> id \<Rightarrow> 'a db_scheme \<Rightarrow> bool" where
  "triage_complete tid eid s \<longleftrightarrow>
     list_ex (\<lambda>r. cr_category r = Linux_intrusion_triage \<and> cr_status r = CV_COMPLETE) (listCoverageRuns tid eid s)"

text \<open>C36. After a plan of the volatile discovery the obligation on its scope exists. It is satisfied only if
  the coverage of the triage was complete and every operation on every candidate of the facts is in the queue of the epoch; so an
  obligation that could not be planned for lack of slots is never reported as done.\<close>

theorem volatile_scope_is_honest:
  assumes inv: "machine_inv (tables s)" and task: "getTask tid s = Some k" "Linux_intrusion_triage \<in> set (tc_checks k)"
    and run: "volatile_plan digest text tid eid session s = (Inr p, s')"
  shows "\<exists>r. obligation_of (scope_key tid eid) s' = Some r \<and> (if ow_status r = OB_SATISFIED
     then triage_complete tid eid s \<and> list_all (\<lambda>c. candidate_queued digest tid eid c s') (volatile_candidates text (all_facts tid eid s))
     else True)"
proof -
  let ?actions = "listInvestigationActions tid eid s" and ?candidates = "volatile_candidates text (all_facts tid eid s)"
  define pending where "pending = filter (\<lambda>c. 0 < missing_operations digest ?actions c) ?candidates"
  from run task obtain q s1 slots where 1: "plan_candidates digest session tid eid ?actions slots (take 100 pending) empty_plan s = (Inr q, s1)"
    and 2: "finish_discovery digest tid eid (all_facts tid eid s) (length ?candidates) (length pending) q s1 = (Inr p, s')"
    unfolding volatile_plan_def pending_def by (auto simp: act_simps Let_def)
  have ev: "evolves s s1" "evolves s1 s'"
    using obeysD [OF evolves.plans_candidates 1] obeysD [OF evolves.finishes_discovery 2] by blast+
  then have inv1: "machine_inv (tables s1)" using inv by (simp add: evolves_def)
  have covered: "listCoverageRuns tid eid (s1\<lparr>clock_pos := n\<rparr>) = listCoverageRuns tid eid s" for n
    using obeysD [OF silent.plans_candidates 1] by (simp add: silent_def quiet_view_def listCoverageRuns_def)
  define coverage where "coverage = List.find (\<lambda>r. cr_category r = Linux_intrusion_triage) (listCoverageRuns tid eid s)"
  define status where "status = scope_status coverage (length (dp_leadIds q) < length pending)"
  from 2 obtain results gaps t s2 stored s3 n c u where 3: "record_scope digest tid eid status results gaps t s2 = (Inr stored, s3)"
    and 4: "putDiscoveryCheckpoint c (s3\<lparr>uuid_pos := n\<rparr>) = (Inr u, s')"
    unfolding finish_discovery_def
    by (auto simp: act_simps now_def next_uuid_def Let_def covered coverage_def [symmetric] status_def [symmetric])
  from scope_recorded [OF 3] obtain r where r: "obligation_of (scope_key tid eid) s3 = Some r" "ow_status r = status" by blast
  have "db_obligations s' = db_obligations s3"
    using obeys_sameD [OF obligations_checkpoint 4] by simp
  from obligation_kept [OF this] r(1) have "obligation_of (scope_key tid eid) s' = Some r" by simp
  moreover have "triage_complete tid eid s \<and> list_all (\<lambda>c. candidate_queued digest tid eid c s') ?candidates" if "status = OB_SATISFIED"
  proof -
    from that have all: "length pending \<le> length (dp_leadIds q)" and "\<exists>r. coverage = Some r \<and> cr_status r = CV_COMPLETE"
      by (auto simp: status_def scope_status_def split: option.splits if_splits)
    then have "triage_complete tid eid s"
      by (auto simp: coverage_def triage_complete_def list_ex_iff dest!: find_SomeD)
    moreover have "candidate_queued digest tid eid c s'" if "c \<in> set ?candidates" for c
    proof (cases "c \<in> set pending")
      case True
      with candidates_planned [OF 1 inv] all have "candidate_queued digest tid eid c s1" by (auto simp: empty_plan_def)
      with candidate_queued_evolves [OF ev(2) inv1] show ?thesis by blast
    next
      case False
      with that have "candidate_queued digest tid eid c s" by (intro nothing_missing) (simp add: pending_def)
      with candidate_queued_evolves ev inv inv1 show ?thesis by blast
    qed
    ultimately show ?thesis by (simp add: list_all_iff)
  qed
  ultimately show ?thesis using r(2) by auto
qed


section \<open>The batches of the playbooks\<close>

lemma evolves_put_operation: "obeys evolves (putOperation digest session h op)"
  unfolding putOperation_def by (intro evolves.part_intros) (simp add: playbook_action_def Let_def)

lemma playbook_operation_queued:
  assumes "putOperation digest session h op s = (Inr y, s')"
  shows "queued digest (hy_taskId h) (hy_epochId h) (hy_subjectRef h) (po_operationRef op) (po_args op) s'"
proof -
  from assms obtain oid versions t u s1 r where "putInvestigationAction (playbook_action digest session h oid versions op t u) s1 = (Inr r, s')"
    unfolding putOperation_def by (auto simp: act_simps)
  from put_action_stored [OF this] show ?thesis
    by (auto simp: queued_def list_ex_iff playbook_action_def Let_def)
qed

lemma ensured_hypothesis:
  assumes "ensureHypothesis tid eid f category s = (Inr h, s')"
  shows "hy_taskId h = tid \<and> hy_epochId h = eid \<and> hy_subjectRef h = fr_subjectRef f"
  using assms unfolding ensureHypothesis_def
  by (auto simp: act_simps Let_def playbook_hypothesis_def listInvestigationHypotheses_def set_order_by split: option.splits dest!: find_SomeD)

definition category_queued ::
  "(js \<Rightarrow> string) \<Rightarrow> (js \<Rightarrow> string) \<Rightarrow> id \<Rightarrow> id \<Rightarrow> edge_record list \<Rightarrow> fact_record \<Rightarrow> check_category \<Rightarrow> 'a db_scheme \<Rightarrow> bool" where
  "category_queued digest text tid eid edges f category s \<longleftrightarrow> list_all (\<lambda>op.
     queued digest tid eid (fr_subjectRef f) (po_operationRef op) (po_args op) s) (operationsForFact text f category edges)"

definition fact_queued ::
  "(js \<Rightarrow> string) \<Rightarrow> (js \<Rightarrow> string) \<Rightarrow> id \<Rightarrow> id \<Rightarrow> check_category list \<Rightarrow> edge_record list \<Rightarrow> (id \<Rightarrow> check_category list) \<Rightarrow> fact_record \<Rightarrow>
   'a db_scheme \<Rightarrow> bool" where
  "fact_queued digest text tid eid checks edges risk f s \<longleftrightarrow> list_all (\<lambda>c. category_queued digest text tid eid edges f c s)
     (categoriesForFact f checks edges (risk (fr_subjectRef f)))"

lemma category_queued_evolves: "evolves s s' \<Longrightarrow> machine_inv (tables s) \<Longrightarrow> category_queued digest text tid eid edges f c s
    \<Longrightarrow> category_queued digest text tid eid edges f c s'"
  unfolding category_queued_def list_all_iff using queued_evolves by blast

lemma fact_queued_evolves: "evolves s s' \<Longrightarrow> machine_inv (tables s) \<Longrightarrow> fact_queued digest text tid eid checks edges risk f s
    \<Longrightarrow> fact_queued digest text tid eid checks edges risk f s'"
  unfolding fact_queued_def list_all_iff using category_queued_evolves by blast

lemma evolves_category: "obeys evolves (plan_category digest text tid eid session edges f c)"
  unfolding plan_category_def ensureHypothesis_def Let_def by (intro evolves.part_intros evolves_put_operation)

lemma category_planned:
  assumes "plan_category digest text tid eid session edges f c s = (Inr y, s')" and inv: "machine_inv (tables s)"
  shows "category_queued digest text tid eid edges f c s'"
proof (cases "operationsForFact text f c edges = []")
  case False
  with assms(1) obtain h s1 ids where h: "ensureHypothesis tid eid f c s = (Inr h, s1)"
    and ops: "map_act (putOperation digest session h) (operationsForFact text f c edges) s1 = (Inr ids, s')"
    unfolding plan_category_def by (auto simp: Let_def act_simps)
  have "obeys evolves (ensureHypothesis tid eid f c :: ('a db_scheme, _) act)"
    unfolding ensureHypothesis_def Let_def by (intro evolves.part_intros)
  from evolves_inv [OF obeysD [OF this h] inv] have inv1: "machine_inv (tables s1)" .
  have "\<forall>op\<in>set (operationsForFact text f c edges).
      queued digest (hy_taskId h) (hy_epochId h) (hy_subjectRef h) (po_operationRef op) (po_args op) s'"
    by (rule map_act_planned [OF ops inv1 evolves_put_operation]) (blast intro: playbook_operation_queued queued_evolves)+
  then show ?thesis using ensured_hypothesis [OF h] by (simp add: category_queued_def list_all_iff)
qed (simp add: category_queued_def)

lemma fact_planned:
  assumes "plan_fact digest text tid eid session checks edges risk f s = (Inr y, s')" and inv: "machine_inv (tables s)"
  shows "fact_queued digest text tid eid checks edges risk f s'"
  unfolding fact_queued_def list_all_iff
  by (rule map_act_planned [OF assms(1) [unfolded plan_fact_def] inv evolves_category])
    (blast intro: category_planned category_queued_evolves)+

lemma checkpoint_stored:
  assumes "putDiscoveryCheckpoint v s = (Inr c, s')"
  shows "List.find (\<lambda>c. checkpoint_key c = checkpoint_key v) (db_checkpoints s') = Some c
    \<and> ck_scannedCount c = ck_scannedCount v \<and> ck_status c = ck_status v"
proof (cases "List.find (\<lambda>c. checkpoint_key c = checkpoint_key v) (db_checkpoints s)")
  case None
  with assms show ?thesis
    by (auto simp: putDiscoveryCheckpoint_def act_simps find_snoc dest!: tables_scope)
next
  case (Some p)
  let ?v = "v\<lparr>ck_checkpointId := ck_checkpointId p, ck_createdAt := ck_createdAt p\<rparr>"
  have key: "checkpoint_key ?v = checkpoint_key v" by (simp add: checkpoint_key_def)
  have "List.find (\<lambda>c. checkpoint_key c = checkpoint_key v) (update_rows (\<lambda>c. checkpoint_key c = checkpoint_key v) (\<lambda>_. ?v) (db_checkpoints s)) = Some ?v"
    using find_update_hit [OF Some, of "\<lambda>c. checkpoint_key c = checkpoint_key v" "\<lambda>_. ?v"] find_SomeD [OF Some] key by simp
  with assms Some show ?thesis
    by (auto simp: putDiscoveryCheckpoint_def Let_def act_simps dest!: tables_scope)
qed


lemma checkpoints_log: "obeys (same db_checkpoints) (log_event tid eid ty pl t)"
  unfolding log_event_def appendInvestigationEvent_def create_id_def next_uuid_def Let_def
  by (auto simp: obeys_def same_def bind_act_def seq_act_def require_def split: prod.split sum.split)

lemma checkpoints_scope: "obeys (same db_checkpoints) (scope_category tid eid c)"
  unfolding scope_category_def putInvestigationObligation_def updateInvestigationObligation_def log_obligation_def
    assertInvestigationScope_def Let_def
  by (intro obeys_intros checkpoints_log) (simp_all add: same_def obeys_def now_def next_uuid_def)

definition risks_of :: "(string \<Rightarrow> string \<Rightarrow> rat) \<Rightarrow> (string \<Rightarrow> jsnum) \<Rightarrow> id \<Rightarrow> id \<Rightarrow> 'a db_scheme \<Rightarrow> assessment list" where
  "risks_of collate parse tid eid s = risk_assessments collate parse (listAssessments tid eid s) (listAssessmentRelations tid eid s)"

definition last_batch :: "id \<Rightarrow> id \<Rightarrow> 'a db_scheme \<Rightarrow> discovery_checkpoint option" where
  "last_batch tid eid s = List.find (\<lambda>c. ck_namespace c = NS_task_ioc \<and> ck_requestDigest c = checkpoint_request)
     (listDiscoveryCheckpoints tid eid s)"

text \<open>The candidates that wait for a batch.\<close>

definition playbook_todo ::
  "(js \<Rightarrow> string) \<Rightarrow> (string \<Rightarrow> string \<Rightarrow> rat) \<Rightarrow> (string \<Rightarrow> jsnum) \<Rightarrow> id \<Rightarrow> id \<Rightarrow> 'a db_scheme \<Rightarrow> fact_record list" where
  "playbook_todo text collate parse tid eid s = playbook_candidates text (risks_of collate parse tid eid s) (listEdges tid eid s)
     (map hy_subjectRef (filter (\<lambda>h. hy_proposedBy h = PLAYBOOK) (listInvestigationHypotheses tid eid s)))
     (case last_batch tid eid s of None \<Rightarrow> 0 | Some c \<Rightarrow> ck_scannedCount c) (all_facts tid eid s)"

lemma distinct_part:
  assumes "set ys \<subseteq> set xs" and "distinct (map g ys)" and "distinct (map f xs)"
  shows "distinct (map f (filter P ys))"
proof -
  have "inj_on f (set xs)" using assms(3) by (simp add: distinct_map)
  then have "inj_on f (set (filter P ys))" by (rule inj_on_subset) (use assms(1) in auto)
  moreover have "distinct (filter P ys)" using assms(2) by (simp add: distinct_map)
  ultimately show ?thesis by (simp add: distinct_map)
qed

lemma evolves_save: "obeys evolves (save_checkpoint tid eid previous w n m)"
  unfolding save_checkpoint_def by (intro evolves.part_intros)

lemma evolves_scope_category: "obeys evolves (scope_category tid eid c)"
  unfolding scope_category_def Let_def by (intro evolves.part_intros)

lemma checkpoint_saved:
  assumes "save_checkpoint tid eid previous w n m s = (Inr u, s')"
  shows "\<exists>c. List.find (\<lambda>c. checkpoint_key c = (tid, eid, NS_task_ioc, checkpoint_request)) (db_checkpoints s') = Some c
    \<and> ck_scannedCount c = w \<and> (ck_status c = CK_COMPLETE) = (m = 0)"
proof -
  from assms obtain cid events t s1 c where
    "putDiscoveryCheckpoint (playbook_checkpoint tid eid previous cid events w n m t) s1 = (Inr c, s')"
    unfolding save_checkpoint_def by (auto simp: act_simps)
  from checkpoint_stored [OF this] show ?thesis
    by (auto simp: playbook_checkpoint_def Let_def checkpoint_key_def)
qed

lemma todo_page:
  assumes "f \<in> set (playbook_todo text collate parse tid eid s)" and "distinct (map fr_factSeq (all_facts tid eid s))"
    and "fr_factSeq f \<le> processed_after n (all_facts tid eid s) (take PLAYBOOK_CANDIDATE_BATCH_SIZE (playbook_todo text collate parse tid eid s))"
  shows "f \<in> set (take PLAYBOOK_CANDIDATE_BATCH_SIZE (playbook_todo text collate parse tid eid s))"
proof -
  let ?facts = "all_facts tid eid s" and ?todo = "playbook_todo text collate parse tid eid s"
  obtain P where todo: "?todo = order_by fr_factSeq (filter P (latestBySubject ?facts))"
    unfolding playbook_todo_def playbook_candidates_def by blast
  have "set (latestBySubject ?facts) \<subseteq> set ?facts" by (rule latestBySubject_from)
  moreover have "distinct (map fr_subjectRef (latestBySubject ?facts))"
    using latestBySubject_newest [of ?facts] by (simp add: newest_of_def)
  ultimately have seqs: "distinct (map fr_factSeq (filter P (latestBySubject ?facts)))"
    using assms(2) by (rule distinct_part)
  have ne: "take PLAYBOOK_CANDIDATE_BATCH_SIZE ?todo \<noteq> []"
    using assms(1) by (auto simp: PLAYBOOK_CANDIDATE_BATCH_SIZE_def)
  show ?thesis
    using first_page [of f "filter P (latestBySubject ?facts)" PLAYBOOK_CANDIDATE_BATCH_SIZE fr_factSeq] assms(1,3) ne seqs
    unfolding todo processed_after_def by (simp add: set_order_by)
qed

text \<open>C37. After a plan of the playbooks the checkpoint exists. All operations on the waiting candidates it has
  passed are in the queue, and it is complete exactly when the batch took every candidate; then all of them are in the queue.\<close>

theorem playbook_batches_skip_nothing:
  assumes inv: "machine_inv (tables s)" and task: "getTask tid s = Some k"
    and seqs: "distinct (map fr_factSeq (all_facts tid eid s))"
    and run: "playbook_plan digest text collate parse tid eid session s = (Inr p, s')"
  shows "let todo = playbook_todo text collate parse tid eid s;
      planned = (\<lambda>f. fact_queued digest text tid eid (tc_checks k) (listEdges tid eid s) (risk_categories (risks_of collate parse tid eid s)) f s')
    in \<exists>c. List.find (\<lambda>c. checkpoint_key c = (tid, eid, NS_task_ioc, checkpoint_request)) (db_checkpoints s') = Some c
      \<and> list_all (\<lambda>f. if fr_factSeq f \<le> ck_scannedCount c then planned f else True) todo
      \<and> (ck_status c = CK_COMPLETE) = (length todo \<le> PLAYBOOK_CANDIDATE_BATCH_SIZE)
      \<and> (if length todo \<le> PLAYBOOK_CANDIDATE_BATCH_SIZE then list_all planned todo else True)"
proof -
  let ?todo = "playbook_todo text collate parse tid eid s" and ?edges = "listEdges tid eid s" and ?facts = "all_facts tid eid s"
  let ?risk = "risk_categories (risks_of collate parse tid eid s)"
  define batch where "batch = take PLAYBOOK_CANDIDATE_BATCH_SIZE ?todo"
  define before where "before = (case last_batch tid eid s of None \<Rightarrow> 0 | Some c \<Rightarrow> ck_scannedCount c)"
  define w where "w = processed_after before ?facts batch"
  from run task obtain plans s1 s2 scopes where
    1: "map_act (plan_fact digest text tid eid session (tc_checks k) ?edges ?risk) batch s = (Inr plans, s1)"
    and 2: "save_checkpoint tid eid (last_batch tid eid s) w (length batch) (length ?todo - length batch) s1 = (Inr (), s2)"
    and 3: "map_act (scope_category tid eid) (tc_checks k) s2 = (Inr scopes, s')"
    unfolding playbook_plan_def
    by (auto simp: act_simps Let_def batch_def before_def w_def playbook_todo_def risks_of_def last_batch_def)
  have "\<forall>f\<in>set batch. fact_queued digest text tid eid (tc_checks k) ?edges ?risk f s1"
    by (rule map_act_planned [OF 1 inv evolves.plans_fact]) (blast intro: fact_planned fact_queued_evolves)+
  moreover have inv1: "machine_inv (tables s1)" 
    using obeysD [OF obeys_map [OF reflp_evolves transp_evolves evolves.plans_fact] 1] inv by (rule evolves_inv)
  moreover have ev: "evolves s1 s'"
    using obeysD [OF evolves_save 2] obeysD [OF obeys_map [OF reflp_evolves transp_evolves evolves_scope_category] 3]
    by (rule transpD [OF transp_evolves])
  ultimately have planned: "\<forall>f\<in>set batch. fact_queued digest text tid eid (tc_checks k) ?edges ?risk f s'"
    using fact_queued_evolves by metis
  have "db_checkpoints s' = db_checkpoints s2"
    by (rule obeys_sameD [OF obeys_map [OF _ _ checkpoints_scope] 3]) (intro obeys_intros)+
  then obtain c where "List.find (\<lambda>c. checkpoint_key c = (tid, eid, NS_task_ioc, checkpoint_request)) (db_checkpoints s') = Some c"
    "ck_scannedCount c = w" "(ck_status c = CK_COMPLETE) = (length ?todo - length batch = 0)"
    using checkpoint_saved [OF 2] by auto
  moreover have "f \<in> set batch" if "f \<in> set ?todo" "fr_factSeq f \<le> w" for f
    using todo_page [OF that(1) seqs] that(2) unfolding w_def batch_def by blast
  moreover have "batch = ?todo" if "length ?todo \<le> PLAYBOOK_CANDIDATE_BATCH_SIZE" using that by (simp add: batch_def)
  moreover have "(length ?todo - length batch = 0) = (length ?todo \<le> PLAYBOOK_CANDIDATE_BATCH_SIZE)"
    by (simp add: batch_def)
  ultimately show ?thesis using planned unfolding Let_def list_all_iff by auto
qed

section \<open>A run on one socket and one on a process at risk\<close>

definition plan_digest :: "js \<Rightarrow> string" where
  "plan_digest v = (case v of Obj ps \<Rightarrow> concat (map (\<lambda>(k, x). string_of x) ps) | _ \<Rightarrow> [])"

definition plan_store :: "fact_record list \<Rightarrow> check_category \<Rightarrow> db" where
  "plan_store facts category = empty_db\<lparr>db_tasks := [sample_task\<lparr>tc_checks := [category]\<rparr>], db_epochs := [sample_epoch ''E1''],
     db_objects := map (\<lambda>f. example_object (fr_factSeq f) (fr_namespace f)) facts,
     db_facts := facts, db_coverage := [sample_coverage\<lparr>cr_category := category\<rparr>]\<rparr>"

lemma plan_store_inv: "machine_inv (tables (plan_store facts c))"
  by (simp add: tables_def plan_store_def empty_defs machine_inv_def attempts_of_def active_in_def changes_def)

definition sample_socket :: fact_record where
  "sample_socket = example_fact 1 NS_socket [(''remoteAddress'', Str ''8.8.8.8'')]"

definition sample_volatile :: "(err + discovery_plan) \<times> db" where
  "sample_volatile = volatile_plan plan_digest string_of ''T1'' ''E1'' sample_session (plan_store [sample_socket] Linux_intrusion_triage)"

definition sample_jvm :: fact_record where
  "sample_jvm = example_fact 1 NS_jvm []"

definition risk_store :: db where
  "risk_store = (plan_store [sample_jvm] Java_memory_shell)\<lparr>
     db_assessments := [(sample_assessment ''A'' AU_RULE SUSPICIOUS ''t'')\<lparr>as_subjectRef := Some ''OBJ-x''\<rparr>],
     db_checkpoints := [playbook_checkpoint ''T1'' ''E1'' None ''C'' 0 5 1 0 ''t'']\<rparr>"

definition no_collate :: "string \<Rightarrow> string \<Rightarrow> rat" where
  "no_collate a b = 0"

definition no_date :: "string \<Rightarrow> jsnum" where
  "no_date t = Fin 0"

definition after_plans :: "(err + (id list \<times> (id \<times> id) list) list) \<times> db" where
  "after_plans = plan_fact plan_digest string_of ''T1'' ''E1'' sample_session [Java_memory_shell] [] (\<lambda>_. [Webshell]) sample_jvm risk_store"

definition after_checkpoint :: "(err + unit) \<times> db" where
  "after_checkpoint = save_checkpoint ''T1'' ''E1'' (last_batch ''T1'' ''E1'' risk_store) 1 1 0 (snd after_plans)"

definition after_scopes :: "(err + id) \<times> db" where
  "after_scopes = scope_category ''T1'' ''E1'' Java_memory_shell (snd after_checkpoint)"

lemma playbook_returns:
  assumes "getTask tid s = Some k"
    and "map_act (plan_fact digest text tid eid session (tc_checks k) (listEdges tid eid s) (risk_categories (risks_of collate parse tid eid s)))
      (take PLAYBOOK_CANDIDATE_BATCH_SIZE (playbook_todo text collate parse tid eid s)) s = (Inr plans, s1)"
    and "save_checkpoint tid eid (last_batch tid eid s)
      (processed_after (case last_batch tid eid s of None \<Rightarrow> 0 | Some c \<Rightarrow> ck_scannedCount c) (all_facts tid eid s)
        (take PLAYBOOK_CANDIDATE_BATCH_SIZE (playbook_todo text collate parse tid eid s)))
      (length (take PLAYBOOK_CANDIDATE_BATCH_SIZE (playbook_todo text collate parse tid eid s)))
      (length (playbook_todo text collate parse tid eid s) - length (take PLAYBOOK_CANDIDATE_BATCH_SIZE (playbook_todo text collate parse tid eid s))) s1
      = (Inr (), s2)"
    and "map_act (scope_category tid eid) (tc_checks k) s2 = (Inr scopes, s')"
  shows "\<exists>p. playbook_plan digest text collate parse tid eid session s = (Inr p, s')"
  using assms unfolding playbook_plan_def
  by (auto simp: act_simps Let_def playbook_todo_def risks_of_def last_batch_def)

lemma returned: "\<not> isl (fst r) \<Longrightarrow> \<exists>x. r = (Inr x, snd r)"
  by (cases r; cases "fst r") auto

lemma volatile_returns: "\<not> isl (fst sample_volatile)"
  by code_simp

theorem volatile_scope_is_honest_witness:
  "\<exists>r. obligation_of (scope_key ''T1'' ''E1'') (snd sample_volatile) = Some r \<and> (if ow_status r = OB_SATISFIED
     then list_all (\<lambda>c. candidate_queued plan_digest ''T1'' ''E1'' c (snd sample_volatile)) (volatile_candidates string_of [sample_socket]) else True)
   \<and> length (volatile_candidates string_of [sample_socket]) = 1"
proof -
  let ?s = "plan_store [sample_socket] Linux_intrusion_triage"
  obtain p where "sample_volatile = (Inr p, snd sample_volatile)" using returned [OF volatile_returns] by blast
  then have run: "volatile_plan plan_digest string_of ''T1'' ''E1'' sample_session ?s = (Inr p, snd sample_volatile)"
    by (simp add: sample_volatile_def)
  have "machine_inv (tables ?s)" by (rule plan_store_inv)
  moreover have "getTask ''T1'' ?s = Some (sample_task\<lparr>tc_checks := [Linux_intrusion_triage]\<rparr>)" by code_simp
  moreover have "all_facts ''T1'' ''E1'' ?s = [sample_socket]" "length (volatile_candidates string_of [sample_socket]) = 1" by code_simp+
  ultimately show ?thesis using volatile_scope_is_honest [OF _ _ _ run] by fastforce
qed

lemma playbook_steps_return: "\<not> isl (fst after_plans)" "\<not> isl (fst after_checkpoint)" "\<not> isl (fst after_scopes)"
  by code_simp+

lemma risk_reads:
  "getTask ''T1'' risk_store = Some (sample_task\<lparr>tc_checks := [Java_memory_shell]\<rparr>)" "listEdges ''T1'' ''E1'' risk_store = []"
  "risk_categories (risks_of no_collate no_date ''T1'' ''E1'' risk_store) ''OBJ-x'' = [Webshell]"
  "playbook_todo string_of no_collate no_date ''T1'' ''E1'' risk_store = [sample_jvm]" "all_facts ''T1'' ''E1'' risk_store = [sample_jvm]"
  by code_simp+

lemma sample_playbook_runs: "\<exists>p. playbook_plan plan_digest string_of no_collate no_date ''T1'' ''E1'' sample_session risk_store = (Inr p, snd after_scopes)"
proof -
  from playbook_steps_return [THEN returned] obtain x c where 1: "after_plans = (Inr x, snd after_plans)" "after_checkpoint = (Inr (), snd after_checkpoint)"
    "after_scopes = (Inr c, snd after_scopes)"
    by auto
  have "fr_subjectRef sample_jvm = ''OBJ-x''" by code_simp
  then have "plan_fact plan_digest string_of ''T1'' ''E1'' sample_session [Java_memory_shell] []
      (risk_categories (risks_of no_collate no_date ''T1'' ''E1'' risk_store)) sample_jvm risk_store = (Inr x, snd after_plans)"
    using 1(1) risk_reads(3) by (simp add: after_plans_def plan_fact_def)
  moreover have "save_checkpoint ''T1'' ''E1'' (last_batch ''T1'' ''E1'' risk_store) 1 1 0 (snd after_plans) = (Inr (), snd after_checkpoint)"
    using 1(2) by (simp add: after_checkpoint_def)
  moreover have "scope_category ''T1'' ''E1'' Java_memory_shell (snd after_checkpoint) = (Inr c, snd after_scopes)"
    using 1(3) by (simp add: after_scopes_def)
  moreover have "processed_after n [sample_jvm] [sample_jvm] = 1" for n by (simp add: processed_after_def sample_jvm_def example_fact_def)
  ultimately show ?thesis
    by (intro playbook_returns [where s = risk_store and scopes = "[c]", OF risk_reads(1)])
      (simp_all add: risk_reads act_simps PLAYBOOK_CANDIDATE_BATCH_SIZE_def)
qed

theorem playbook_batches_skip_nothing_witness:
  "\<exists>c. List.find (\<lambda>c. checkpoint_key c = (''T1'', ''E1'', NS_task_ioc, checkpoint_request)) (db_checkpoints (snd after_scopes)) = Some c
   \<and> ck_status c = CK_COMPLETE
   \<and> fact_queued plan_digest string_of ''T1'' ''E1'' [Java_memory_shell] [] (\<lambda>_. [Webshell]) sample_jvm (snd after_scopes)"
proof -
  from sample_playbook_runs obtain p where
    "playbook_plan plan_digest string_of no_collate no_date ''T1'' ''E1'' sample_session risk_store = (Inr p, snd after_scopes)" by blast
  moreover have "machine_inv (tables risk_store)" using plan_store_inv by (simp add: risk_store_def tables_def)
  moreover have "distinct (map fr_factSeq (all_facts ''T1'' ''E1'' risk_store))" by (simp add: risk_reads)
  moreover have "fr_subjectRef sample_jvm = ''OBJ-x''" by code_simp
  ultimately show ?thesis
    using playbook_batches_skip_nothing [of risk_store "''T1''" "sample_task\<lparr>tc_checks := [Java_memory_shell]\<rparr>" "''E1''"
      plan_digest string_of no_collate no_date sample_session p "snd after_scopes"]
    by (auto simp: risk_reads Let_def PLAYBOOK_CANDIDATE_BATCH_SIZE_def fact_queued_def)
qed

text \<open>The counter of the checkpoint goes back when the last candidate of a batch is an old object at risk:
  5 facts are processed before this run and 1 after it.\<close>

lemma checkpoint_can_go_back:
  "processed_after 5 [sample_jvm] (take PLAYBOOK_CANDIDATE_BATCH_SIZE (playbook_todo string_of no_collate no_date ''T1'' ''E1'' risk_store)) = 1
   \<and> map ck_scannedCount (db_checkpoints risk_store) = [5]"
  by (simp add: risk_reads processed_after_def PLAYBOOK_CANDIDATE_BATCH_SIZE_def sample_jvm_def example_fact_def)
    (simp add: risk_store_def playbook_checkpoint_def)

end
