(* ===== verification/LocalTools.thy ===== *)
theory LocalTools
  imports WriteTool NetworkIoc Resolver Proposals
begin

text \<open>
  The tools of \<open>src/tools/v2/tools.ts\<close> that only touch the store of the controller, and the lookup of
  threat intelligence. \<open>localTool\<close> is the envelope of all of them. \<open>propose_actions\<close> is in the theory
  Proposals. Instructions for the model are replaced by codes.
\<close>

section \<open>The envelope\<close>

definition local_policy :: "string \<Rightarrow> string" where
  "local_policy name = (if name = ''enrich_threat_intel'' then ''SAFE_REOBSERVE'' else ''IDEMPOTENT_LOCAL'')"

definition answer_local ::
  "tool_deps \<Rightarrow> (js \<Rightarrow> bool) \<Rightarrow> (id \<Rightarrow> js \<Rightarrow> ('a db_scheme, js) act) \<Rightarrow> id \<Rightarrow> js \<Rightarrow> ('a db_scheme, js) act" where
  "answer_local d schema run cid params = seq_act (require (schema params) Invalid_argument)
     (bind_act (run cid params) (\<lambda>details. let result = modelToolResult d details in
       seq_act (finishToolRun cid TR_SUCCEEDED result None) (return_act result)))"

definition perform_local ::
  "tool_deps \<Rightarrow> string \<Rightarrow> (js \<Rightarrow> bool) \<Rightarrow> (id \<Rightarrow> js \<Rightarrow> ('a db_scheme, js) act) \<Rightarrow> id \<Rightarrow> js \<Rightarrow> ('a db_scheme, js) act" where
  "perform_local d name schema run cid params =
     bind_act (startToolRun (te_digest d) (tool_run_of d cid name ''LOCAL'' (local_policy name) params)) (\<lambda>_.
     catch_act (answer_local d schema run cid params)
       (\<lambda>e. seq_act (finishToolRun cid TR_FAILED Undefined (Some (err_text e))) (throw_act e)))"

definition local_tool ::
  "tool_deps \<Rightarrow> string \<Rightarrow> (js \<Rightarrow> bool) \<Rightarrow> (id \<Rightarrow> js \<Rightarrow> ('a db_scheme, js) act) \<Rightarrow> id \<Rightarrow> js \<Rightarrow> ('a db_scheme, js) act" where
  "local_tool d name schema run cid params =
     bind_act (read_act (getToolRunForScope (dep_task d) (td_epochId d) cid)) (\<lambda>existing. case existing of
       Some r \<Rightarrow> if tr_status r = TR_SUCCEEDED \<and> truthy (tr_result r) then return_act (tr_result r)
         else if tr_status r \<noteq> TR_STARTED then throw_act (Security_error RECOVERY_UNCERTAIN)
         else perform_local d name schema run cid params
     | None \<Rightarrow> perform_local d name schema run cid params)"

section \<open>Queries\<close>

datatype query_answer = Page query_page | Row_too_large

definition page_js :: "query_page \<Rightarrow> js" where
  "page_js p = Obj ([(''queryRef'', Str (qp_queryRef p)), (''rows'', Arr (map Obj (qp_rows p)))]
     @ opt_prop ''nextCursorRef'' (qp_nextCursorRef p) @ [(''snapshotMaxFactSeq'', js_nat (qp_snapshotMaxFactSeq p))])"

definition answer_js :: "query_answer \<Rightarrow> js" where
  "answer_js a = (case a of Page p \<Rightarrow> page_js p
     | Row_too_large \<Rightarrow> Obj [(''error'', Str ''ROW_TOO_LARGE''), (''instruction'', Str ''NARROW_SELECT'')])"

definition page_fits :: "tool_deps \<Rightarrow> query_page \<Rightarrow> bool" where
  "page_fits d p \<longleftrightarrow> utf8_bytes (te_stringify d (page_js p)) \<le> td_maxTextBytes d"

definition limited :: "fact_query \<Rightarrow> int \<Rightarrow> fact_query" where
  "limited ast n = ast\<lparr>fq_limit := Fin (of_int n)\<rparr>"

text \<open>The search for the largest page that fits.\<close>

function search_page ::
  "js comparison \<Rightarrow> (fact_query \<Rightarrow> string) \<Rightarrow> tool_deps \<Rightarrow> fact_query \<Rightarrow> int \<Rightarrow> int \<Rightarrow> int option \<Rightarrow> ('a db_scheme, int option) act" where
  "search_page collate queryDigest d ast low high best = (if high < low then return_act best
     else let middle = (low + high) div 2 in
       bind_act (previewQueryFacts collate queryDigest (dep_task d) (td_epochId d) (limited ast middle)) (\<lambda>p.
         if page_fits d p then search_page collate queryDigest d ast (middle + 1) high (Some middle)
         else search_page collate queryDigest d ast low (middle - 1) best))"
  by pat_completeness auto
termination
  by (relation "measure (\<lambda>(collate, queryDigest, d, ast, low, high, best). nat (high + 1 - low))") auto

declare search_page.simps [simp del]

definition bounded_limit :: "rat \<Rightarrow> fact_query \<Rightarrow> fact_query" where
  "bounded_limit remaining ast = (case fq_limit ast of Fin q \<Rightarrow> ast\<lparr>fq_limit := Fin (min q remaining)\<rparr> | _ \<Rightarrow> ast)"

definition continue_query ::
  "js comparison \<Rightarrow> (fact_query \<Rightarrow> string) \<Rightarrow> tool_deps \<Rightarrow> fact_query \<Rightarrow> ('a db_scheme, query_answer) act" where
  "continue_query collate queryDigest d ast =
     bind_act (previewQueryFacts collate queryDigest (dep_task d) (td_epochId d) ast) (\<lambda>p.
       if page_fits d p then bind_act (queryFacts collate queryDigest (dep_task d) (td_epochId d) ast) (\<lambda>p'. return_act (Page p'))
       else return_act Row_too_large)"

definition fresh_query ::
  "js comparison \<Rightarrow> (fact_query \<Rightarrow> string) \<Rightarrow> tool_deps \<Rightarrow> fact_query \<Rightarrow> ('a db_scheme, query_answer) act" where
  "fresh_query collate queryDigest d ast =
     bind_act (search_page collate queryDigest d ast 1 (int (limit_of (fq_limit ast))) None) (\<lambda>best. case best of
       None \<Rightarrow> return_act Row_too_large
     | Some n \<Rightarrow> bind_act (queryFacts collate queryDigest (dep_task d) (td_epochId d) (limited ast n)) (\<lambda>p. return_act (Page p)))"

abbreviation usage_key :: "tool_deps \<Rightarrow> string \<Rightarrow> counter_key" where
  "usage_key d kind \<equiv> (dep_task d, td_epochId d, kind)"

definition pay_rows :: "tool_deps \<Rightarrow> query_answer \<Rightarrow> ('a db_scheme, unit) act" where
  "pay_rows d a = (case a of Page p \<Rightarrow> consumeUsageOrGap d ''LOCAL_QUERY_ROWS'' (of_nat (length (qp_rows p)))
     | Row_too_large \<Rightarrow> return_act ())"

text \<open>\<open>elapsed\<close> is the time in milliseconds the query took.\<close>

definition queryWithinBudget ::
  "js comparison \<Rightarrow> (fact_query \<Rightarrow> string) \<Rightarrow> rat \<Rightarrow> tool_deps \<Rightarrow> fact_query \<Rightarrow> ('a db_scheme, query_answer) act" where
  "queryWithinBudget collate queryDigest elapsed d ast =
     bind_act (lift_result (validateFactQuery ast)) (\<lambda>_.
     seq_act (consumeUsageOrGap d ''LOCAL_QUERY_CALLS'' 1)
    (bind_act (bind_act (read_act (remainingUsage (usage_key d ''LOCAL_QUERY_ROWS''))) lift_result) (\<lambda>remaining.
     if remaining \<le> 0 then seq_act (recordBudgetGap d ''LOCAL_QUERY_ROWS'') (throw_act (Security_error BUDGET_EXCEEDED))
     else bind_act (if nonempty (fq_cursorRef ast) \<noteq> None
         then continue_query collate queryDigest d (bounded_limit remaining ast)
         else fresh_query collate queryDigest d (bounded_limit remaining ast)) (\<lambda>answer.
       seq_act (pay_rows d answer)
      (seq_act (consumeUsageOrGap d ''LOCAL_QUERY_WALL_MS'' (max 1 elapsed)) (return_act answer))))))"

section \<open>Requests for grants\<close>

definition own_entries :: "js \<Rightarrow> js_row" where
  "own_entries v = (case v of Obj ps \<Rightarrow> ps | _ \<Rightarrow> [])"

definition put_request :: "tool_deps \<Rightarrow> grant_kind \<Rightarrow> js_row \<Rightarrow> ('a db_scheme, id) act" where
  "put_request d kind binding = bind_act next_uuid (\<lambda>u. bind_act now (\<lambda>t.
     seq_act (putGrantRequest \<lparr>gq_requestId = ''GRQ-'' @ u, gq_taskId = dep_task d, gq_targetFingerprint = dep_host d,
       gq_kind = kind, gq_status = GQ_PENDING, gq_bindingDigest = te_digest d (Obj binding), gq_binding = binding,
       gq_createdAt = t, gq_decidedAt = None\<rparr>) (return_act (''GRQ-'' @ u))))"

definition request_scope_extension :: "tool_deps \<Rightarrow> js \<Rightarrow> ('a db_scheme, js) act" where
  "request_scope_extension d params = seq_act (consumeUsageOrGap d ''GRANT_REQUESTS'' 1)
     (bind_act (put_request d GK_SCOPE (own_entries params)) (\<lambda>rid.
       return_act (Obj [(''requestId'', Str rid), (''status'', Str ''PENDING''), (''note'', Str ''SCOPE_RESOLVE_FOLLOWS'')])))"

definition request_sensitive_read :: "tool_deps \<Rightarrow> js \<Rightarrow> ('a db_scheme, js) act" where
  "request_sensitive_read d params = (let ref = arg_string params ''ref'' in
     seq_act (consumeUsageOrGap d ''GRANT_REQUESTS'' 1)
    (bind_act (gate (resolveObject d ref (Some NS_file))) (\<lambda>_.
     bind_act (gate (latestPrivateFact d ref)) (\<lambda>latest.
     let contentClass = get_prop latest ''contentClass'' in
     seq_act (require (\<not> strict_eq contentClass (Str ''DENIED_TEXT'')) (Security_error PERMISSION_DENIED))
    (bind_act (put_request d GK_SENSITIVE_READ [(''subjectRef'', Str ref), (''contentClass'', contentClass), (''reason'', member params ''reason'')])
       (\<lambda>rid. return_act (Obj [(''requestId'', Str rid), (''status'', Str ''PENDING'')])))))))"

section \<open>Hypotheses and assessments\<close>

definition known_refs :: "tool_deps \<Rightarrow> 'a db_scheme \<Rightarrow> id set" where
  "known_refs d s = fr_factId ` set (all_facts (dep_task d) (td_epochId d) s)
     \<union> ev_evidenceId ` set (filter (\<lambda>e. strict_eq (member (ev_metadata e) ''epochId'') (Str (td_epochId d))) (listEvidence (dep_task d) s))
     \<union> as_assessmentId ` set (listAssessments (dep_task d) (td_epochId d) s)"

definition model_hypothesis :: "tool_deps \<Rightarrow> js \<Rightarrow> time \<Rightarrow> string \<Rightarrow> investigation_hypothesis" where
  "model_hypothesis d params t u = \<lparr>hy_hypothesisId = ''HYP-'' @ u, hy_taskId = dep_task d, hy_epochId = td_epochId d,
     hy_subjectRef = arg_string params ''subjectRef'', hy_claim = arg_string params ''claim'', hy_proposedBy = MODEL,
     hy_supportRefs = arg_strings params ''supportRefs'', hy_counterEvidenceRefs = arg_strings params ''counterEvidenceRefs'',
     hy_alternativeExplanations = arg_strings params ''alternativeExplanations'', hy_status = HY_OPEN, hy_revision = 0,
     hy_createdAt = t, hy_updatedAt = t\<rparr>"

definition model_obligation :: "investigation_hypothesis \<Rightarrow> string \<Rightarrow> investigation_obligation" where
  "model_obligation h u = \<lparr>ob_obligationId = ''OBL-'' @ u, ob_taskId = hy_taskId h, ob_epochId = hy_epochId h,
     ob_hypothesisId = Some (hy_hypothesisId h), ob_obligationKind = ''TEST_ALTERNATIVE_EXPLANATIONS'',
     ob_dedupeKey = ''TEST_ALTERNATIVE_EXPLANATIONS:'' @ hy_hypothesisId h, ob_subjectRefs = [hy_subjectRef h],
     ob_required = True, ob_status = OB_OPEN, ob_resultRefs = hy_counterEvidenceRefs h, ob_gapRefs = [],
     ob_createdAt = hy_createdAt h, ob_updatedAt = hy_createdAt h\<rparr>"

definition propose_hypothesis :: "tool_deps \<Rightarrow> js \<Rightarrow> ('a db_scheme, js) act" where
  "propose_hypothesis d params =
     bind_act (read_act (accepting_session d)) (\<lambda>session.
     seq_act (require (session \<noteq> None) Invalid_argument)
    (bind_act (gate (resolveObject d (arg_string params ''subjectRef'') None)) (\<lambda>_.
     bind_act (read_act (known_refs d)) (\<lambda>known.
     seq_act (require (set (arg_strings params ''supportRefs'' @ arg_strings params ''counterEvidenceRefs'') \<subseteq> known) Invalid_argument)
    (bind_act now (\<lambda>t. bind_act next_uuid (\<lambda>u. let h = model_hypothesis d params t u in
     seq_act (putInvestigationHypothesis h)
    (bind_act next_uuid (\<lambda>u'. bind_act (putInvestigationObligation (model_obligation h u')) (\<lambda>_.
     return_act (Obj [(''hypothesisId'', Str (hy_hypothesisId h)), (''obligationId'', Str (''OBL-'' @ u'))])))))))))))"

text \<open>The arguments of an assessment, after the check of the schema.\<close>

record assessment_params =
  pa_category :: check_category
  pa_subjectRef :: "id option"
  pa_scope :: assessment_scope
  pa_verdict :: assessment_verdict
  pa_severity :: severity
  pa_confidence :: jsnum
  pa_rationale :: string
  pa_evidenceRefs :: "id list"
  pa_factRefs :: "id list"
  pa_queryRefs :: "id list"

definition model_assessment :: "tool_deps \<Rightarrow> assessment_params \<Rightarrow> time \<Rightarrow> string \<Rightarrow> assessment" where
  "model_assessment d p t u = \<lparr>as_assessmentId = ''ASM-'' @ u, as_taskId = dep_task d, as_epochId = td_epochId d,
     as_authorType = AU_MODEL, as_category = pa_category p, as_subjectRef = nonempty (pa_subjectRef p), as_scope = pa_scope p,
     as_verdict = pa_verdict p, as_severity = pa_severity p, as_confidence = pa_confidence p, as_rationale = pa_rationale p,
     as_evidenceRefs = pa_evidenceRefs p, as_factRefs = pa_factRefs p, as_queryRefs = pa_queryRefs p, as_createdAt = t\<rparr>"

definition record_assessment :: "tool_deps \<Rightarrow> assessment_params \<Rightarrow> ('a db_scheme, assessment) act" where
  "record_assessment d p = bind_act next_uuid (\<lambda>u. bind_act now (\<lambda>t. let a = model_assessment d p t u in
     seq_act (putAssessment a) (return_act a)))"

definition adjudicate_assessment :: "tool_deps \<Rightarrow> assessment_params \<Rightarrow> id \<Rightarrow> ('a db_scheme, assessment) act" where
  "adjudicate_assessment d p targetId =
     bind_act (read_act (\<lambda>s. List.find (\<lambda>a. as_assessmentId a = targetId) (listAssessments (dep_task d) (td_epochId d) s))) (\<lambda>found.
     case found of None \<Rightarrow> throw_act Invalid_argument
     | Some target \<Rightarrow> seq_act (require (pa_subjectRef p = as_subjectRef target) Invalid_argument)
         (bind_act (record_assessment d p) (\<lambda>a. bind_act next_uuid (\<lambda>u. bind_act now (\<lambda>t.
          seq_act (putAssessmentRelation \<lparr>ar_relationId = ''AREL-'' @ u, ar_taskId = dep_task d, ar_epochId = td_epochId d,
             ar_kind = ADJUDICATES, ar_fromAssessmentId = as_assessmentId a, ar_toAssessmentId = as_assessmentId target, ar_createdAt = t\<rparr>)
            (return_act a))))))"

section \<open>Reading the ledger, deriving relations\<close>

definition in_scope :: "js_row \<Rightarrow> id \<Rightarrow> id \<Rightarrow> js_row" where
  "in_scope row tid eid = merge_props row [(''taskId'', Str tid), (''epochId'', Str eid)]"

definition assessment_js :: "assessment \<Rightarrow> js" where
  "assessment_js a = Obj (in_scope (snd (assessment_row a)) (as_taskId a) (as_epochId a))"

definition coverage_js :: "coverage_run \<Rightarrow> js" where
  "coverage_js r = Obj (in_scope (snd (coverage_row r)) (cr_taskId r) (cr_epochId r))"

fun relation_name :: "relation_kind \<Rightarrow> string" where
  "relation_name SUPPORTS = ''SUPPORTS''"
| "relation_name CONTRADICTS = ''CONTRADICTS''"
| "relation_name ADJUDICATES = ''ADJUDICATES''"
| "relation_name SUPERSEDES = ''SUPERSEDES''"

definition relation_js :: "assessment_relation \<Rightarrow> js" where
  "relation_js r = Obj [(''relationId'', Str (ar_relationId r)), (''taskId'', Str (ar_taskId r)), (''epochId'', Str (ar_epochId r)),
     (''kind'', Str (relation_name (ar_kind r))), (''fromAssessmentId'', Str (ar_fromAssessmentId r)),
     (''toAssessmentId'', Str (ar_toAssessmentId r)), (''createdAt'', Str (ar_createdAt r))]"

definition conclusion_name :: "effective_conclusion \<Rightarrow> string" where
  "conclusion_name c = (case c of Verdict v \<Rightarrow> verdict_name v | CONFLICT \<Rightarrow> ''CONFLICT'')"

definition projection_js :: "effective_projection \<Rightarrow> js" where
  "projection_js p = Obj ([(''projectionKey'', Str (ef_projectionKey p)), (''category'', Str (category_name (ef_category p))),
     (''scope'', Str (scope_name (ef_scope p)))] @ opt_prop ''subjectRef'' (ef_subjectRef p)
     @ [(''conclusion'', Str (conclusion_name (ef_conclusion p))), (''effectiveAssessmentIds'', js_ids (ef_effectiveAssessmentIds p)),
        (''supersededAssessmentIds'', js_ids (ef_supersededAssessmentIds p)),
        (''conflictAssessmentIds'', js_ids (ef_conflictAssessmentIds p)), (''ignoredRelationIds'', js_ids (ef_ignoredRelationIds p))])"

fun gap_name :: "investigation_gap_code \<Rightarrow> string" where
  "gap_name GRANT_DENIED = ''GRANT_DENIED''"
| "gap_name GRANT_EXPIRED = ''GRANT_EXPIRED''"
| "gap_name BUDGET_DENIED = ''BUDGET_DENIED''"
| "gap_name MODEL_DID_NOT_INVESTIGATE = ''MODEL_DID_NOT_INVESTIGATE''"
| "gap_name QUEUE_CAPACITY = ''QUEUE_CAPACITY''"

definition investigation_gap_js :: "investigation_gap \<Rightarrow> js" where
  "investigation_gap_js g = Obj ([(''gapId'', Str (ig_gapId g)), (''taskId'', Str (ig_taskId g)), (''epochId'', Str (ig_epochId g))]
     @ opt_prop ''category'' (map_option category_name (ig_category g))
     @ [(''code'', Str (gap_name (ig_code g))), (''reasonCode'', Str (ig_reasonCode g)), (''createdAt'', Str (ig_createdAt g))])"

definition get_assessment_projection ::
  "(string \<Rightarrow> string \<Rightarrow> rat) \<Rightarrow> tool_deps \<Rightarrow> 'a db_scheme \<Rightarrow> js" where
  "get_assessment_projection collate d s = (let tid = dep_task d; eid = td_epochId d;
       assessments = listAssessments tid eid s; relations = listAssessmentRelations tid eid s in
     Obj [(''coverage'', Arr (map coverage_js (listCoverageRuns tid eid s))), (''assessments'', Arr (map assessment_js assessments)),
       (''relations'', Arr (map relation_js relations)),
       (''effectiveAssessments'', Arr (map projection_js (projectEffectiveAssessments collate (te_parse d) assessments relations))),
       (''investigationGaps'', Arr (map investigation_gap_js (listInvestigationGaps tid eid s)))])"

fun derived_status_name :: "derived_status \<Rightarrow> string" where
  "derived_status_name RESOLVED = ''RESOLVED''"
| "derived_status_name NO_MATCH_FOUND = ''NO_MATCH_FOUND''"
| "derived_status_name AMBIGUOUS = ''AMBIGUOUS''"

definition derived_js :: "derived_result \<Rightarrow> js" where
  "derived_js r = Obj [(''requestId'', Str (dr_requestId r)), (''resolverRef'', Str (resolver_name (dr_resolverRef r))),
     (''sourceFactRef'', Str (dr_sourceFactRef r)), (''status'', Str (derived_status_name (dr_status r))),
     (''objectRefs'', js_ids (dr_objectRefs r)), (''edgeRefs'', js_ids (dr_edgeRefs r))]"

definition resolver_named :: "string \<Rightarrow> derived_resolver" where
  "resolver_named l = (if l = resolver_name Socket_owner_by_pid then Socket_owner_by_pid else Process_parent_by_ppid)"

definition running_envelope :: "tool_deps \<Rightarrow> 'a db_scheme \<Rightarrow> authorization_envelope option" where
  "running_envelope d s = (case getInvestigationSession (dep_task d) (td_epochId d) s of None \<Rightarrow> None
     | Some x \<Rightarrow> if ss_executionStatus x = EX_RUNNING then ss_authorizationEnvelope x else None)"

definition resolve_derived_objects ::
  "(string \<Rightarrow> string \<Rightarrow> rat) \<Rightarrow> tool_deps \<Rightarrow> id \<Rightarrow> js \<Rightarrow> ('a db_scheme, js) act" where
  "resolve_derived_objects collate d cid params = bind_act (read_act (running_envelope d)) (\<lambda>found. case found of
       None \<Rightarrow> throw_act Invalid_argument
     | Some envelope \<Rightarrow> bind_act (resolve (te_digest d) collate (te_parse d)
         \<lparr>dq_requestId = cid, dq_taskId = dep_task d, dq_epochId = td_epochId d,
          dq_resolverRef = resolver_named (arg_string params ''resolverRef''), dq_sourceFactRef = arg_string params ''sourceFactRef''\<rparr>
         envelope) (\<lambda>r. return_act (derived_js r)))"

section \<open>Threat intelligence\<close>

datatype ioc_kind = Ioc_network | Ioc_hash

type_synonym intel_binding = "namespace_name \<times> js_row"
type_synonym indicator = "ioc_kind \<times> string \<times> intel_binding"

definition evidence_indicator :: "tool_deps \<Rightarrow> id \<Rightarrow> 'a db_scheme \<Rightarrow> err + indicator" where
  "evidence_indicator d ref s = (case getEvidence (dep_task d) ref s of None \<Rightarrow> Inl Invalid_argument
     | Some e \<Rightarrow> let subject = member (ev_metadata e) ''subjectRef'' in
         if nonempty (ev_sha256 e) = None \<or> \<not> is_string subject then Inl Invalid_argument
         else case resolveObject d (string_of subject) (Some NS_file) s of Inl x \<Rightarrow> Inl x
           | Inr b \<Rightarrow> Inr (Ioc_hash, to_lower (the (ev_sha256 e)), bn_namespace b, bn_identity b))"

definition ioc_indicator :: "js_row \<Rightarrow> intel_binding \<Rightarrow> err + indicator" where
  "ioc_indicator payload b = (let kind = get_prop payload ''kind''; v = get_prop payload ''value''; text = to_lower (string_of v) in
     if \<not> is_string kind \<or> \<not> is_string v then Inl Invalid_argument
     else if string_of kind = ''ip'' then if isPublicThreatIntelIp text then Inr (Ioc_network, text, b) else Inl Invalid_argument
     else if string_of kind = ''domain'' then Inr (Ioc_network, text, b)
     else if string_of kind = ''hash'' then Inr (Ioc_hash, text, b)
     else Inl Invalid_argument)"

definition object_indicator :: "tool_deps \<Rightarrow> id \<Rightarrow> 'a db_scheme \<Rightarrow> err + indicator" where
  "object_indicator d ref s = (case getObjectReference (dep_task d) (td_epochId d) ref None s of None \<Rightarrow> Inl Invalid_argument
     | Some v \<Rightarrow> case latestPrivateFact d ref s of Inl e \<Rightarrow> Inl e
       | Inr payload \<Rightarrow> let b = (or_namespace v, or_stableIdentity v);
             ip = get_prop payload ''remoteAddress''; hash = get_prop payload ''sha256'' in
           if or_namespace v = NS_socket
           then if is_string ip \<and> isPublicThreatIntelIp (string_of ip) then Inr (Ioc_network, to_lower (string_of ip), b) else Inl Invalid_argument
           else if or_namespace v = NS_task_ioc then ioc_indicator payload b
           else if or_namespace v = NS_file
           then if is_string hash then Inr (Ioc_hash, to_lower (string_of hash), b) else Inl Invalid_argument
           else Inl Invalid_argument)"

definition indicator_of :: "tool_deps \<Rightarrow> id \<Rightarrow> 'a db_scheme \<Rightarrow> err + indicator" where
  "indicator_of d ref s = (if starts_with ''EV-'' ref then evidence_indicator d ref s else object_indicator d ref s)"

fun indicators_of :: "tool_deps \<Rightarrow> id list \<Rightarrow> 'a db_scheme \<Rightarrow> err + indicator list" where
  "indicators_of d [] s = Inr []"
| "indicators_of d (ref # refs) s = (case indicator_of d ref s of Inl e \<Rightarrow> Inl e
     | Inr x \<Rightarrow> case indicators_of d refs s of Inl e \<Rightarrow> Inl e | Inr xs \<Rightarrow> Inr (x # xs))"

text \<open>The values of one kind, each once, and the objects behind a value (the two maps of the source).\<close>

definition ioc_values :: "ioc_kind \<Rightarrow> indicator list \<Rightarrow> string list" where
  "ioc_values kind xs = unique (map (\<lambda>(k, v, b). v) (filter (\<lambda>(k, v, b). k = kind) xs))"

definition bindings_of :: "ioc_kind \<Rightarrow> indicator list \<Rightarrow> string \<Rightarrow> intel_binding list" where
  "bindings_of kind xs value = map (\<lambda>(k, v, b). b) (filter (\<lambda>(k, v, b). k = kind \<and> v = value) xs)"

record intel_verdict =
  iv_ioc :: string
  iv_malicious :: "bool option"
  iv_riskLevel :: string
  iv_confidence :: "jsnum option"
  iv_threatTypes :: "string list"
  iv_whole :: js

record intel_reply =
  ir_verdicts :: "intel_verdict list"
  ir_warnings :: "string list"

text \<open>What the provider is asked and what it answers within \<open>ic_elapsed\<close> milliseconds.\<close>

record intel_client =
  ic_ask :: "ioc_kind \<Rightarrow> string list \<Rightarrow> err + intel_reply"
  ic_elapsed :: "ioc_kind \<Rightarrow> rat"
  ic_maxBatchSize :: nat

definition empty_reply :: intel_reply where
  "empty_reply = \<lparr>ir_verdicts = [], ir_warnings = []\<rparr>"

text \<open>The wall time is charged after the call, also when it failed (\<open>finally\<close>).\<close>

definition ask_provider :: "intel_client \<Rightarrow> tool_deps \<Rightarrow> ioc_kind \<Rightarrow> string list \<Rightarrow> ('a db_scheme, intel_reply) act" where
  "ask_provider c d kind values = (if values = [] then return_act empty_reply
     else seq_act (consumeUsageOrGap d ''THREAT_INTEL_CALLS'' 1)
         (seq_act (consumeUsageOrGap d ''THREAT_INTEL_WALL_MS'' (max 1 (ic_elapsed c kind))) (lift_result (ic_ask c kind values))))"

definition intel_fields :: "intel_verdict \<Rightarrow> time \<Rightarrow> js_row" where
  "intel_fields v t = [(''intelProvider'', Str ''dbapp-ti'')]
     @ (case iv_malicious v of None \<Rightarrow> [] | Some b \<Rightarrow> [(''intelMalicious'', Bool b)])
     @ [(''intelRiskLevel'', Str (iv_riskLevel v))]
     @ (case iv_confidence v of None \<Rightarrow> [] | Some n \<Rightarrow> [(''intelConfidence'', Num n)])
     @ [(''intelThreatTypes'', js_ids (iv_threatTypes v)), (''intelQueriedAt'', Str t)]"

definition intel_observation :: "intel_verdict \<Rightarrow> time \<Rightarrow> intel_binding \<Rightarrow> wire_observation" where
  "intel_observation v t b = \<lparr>wo_namespace = fst b, wo_identity = snd b, wo_fields = merge_props (snd b) (intel_fields v t),
     wo_unavailableFields = None, wo_observedAt = t, wo_consistency = EXTERNAL_BASELINE\<rparr>"

definition intel_source :: fact_source where
  "intel_source = \<lparr>fs_kind = SK_EXTERNAL, fs_evidenceOrigin = Some EXTERNAL_INTELLIGENCE, fs_presetRunId = None, fs_presetId = None,
     fs_presetVersion = None, fs_stepId = None, fs_externalProvider = Some ''dbapp-ti''\<rparr>"

definition intel_batch ::
  "tool_deps \<Rightarrow> id \<Rightarrow> (intel_verdict \<times> intel_binding list) list \<Rightarrow> string list \<Rightarrow> time \<Rightarrow> fact_batch_input" where
  "intel_batch d cid results warnings t = \<lparr>fi_taskId = dep_task d, fi_epochId = td_epochId d, fi_sourceRunId = cid, fi_source = intel_source,
     fi_targetFingerprint = dep_host d, fi_requestId = cid, fi_collector = \<lparr>co_name = ''dbapp-ti'', co_version = ''2.0.0''\<rparr>,
     fi_observations = concat (map (\<lambda>(v, bs). map (intel_observation v t) bs) results), fi_edges = [], fi_gaps = [],
     fi_wireDigest = te_digest d (Obj [(''provider'', Str ''dbapp-ti''), (''verdictDigests'', js_ids (map (\<lambda>(v, bs). te_digest d (iv_whole v)) results)),
       (''warnings'', js_ids (map (\<lambda>w. te_digest d (Str w)) warnings))]), fi_toolRun = None\<rparr>"

definition intel_provider :: string where
  "intel_provider = ''DBAPP Threat Intelligence''"

definition keep_verdicts ::
  "tool_deps \<Rightarrow> id \<Rightarrow> id list \<Rightarrow> nat \<Rightarrow> (intel_verdict \<times> intel_binding list) list \<Rightarrow> string list \<Rightarrow> ('a db_scheme, js) act" where
  "keep_verdicts d cid refs queried results warnings = bind_act now (\<lambda>t.
     bind_act (commitFactBatch (te_digest d) (te_parse d) (intel_batch d cid results warnings t)) (\<lambda>batch.
     let factRefs = map fr_factId (pb_facts batch) in
     bind_act (appendAudit (Some (dep_task d)) ''v2_threat_intel'' Info (Obj [(''provider'', Str intel_provider), (''inputRefs'', js_ids refs),
        (''factRefs'', js_ids factRefs), (''verdictCount'', js_nat (length results)), (''warningCount'', js_nat (length warnings))])) (\<lambda>_.
     return_act (Obj [(''provider'', Str intel_provider), (''factRefs'', js_ids factRefs),
        (''objectRefs'', js_ids (unique (map fr_subjectRef (pb_facts batch)))), (''queried'', js_nat queried), (''warnings'', js_ids warnings)]))))"

definition verdicts_with :: "ioc_kind \<Rightarrow> indicator list \<Rightarrow> intel_reply \<Rightarrow> (intel_verdict \<times> intel_binding list) list" where
  "verdicts_with kind xs r = map (\<lambda>v. (v, bindings_of kind xs (to_lower (iv_ioc v)))) (ir_verdicts r)"

definition send_indicators ::
  "intel_client \<Rightarrow> tool_deps \<Rightarrow> id \<Rightarrow> id list \<Rightarrow> indicator list \<Rightarrow> ('a db_scheme, js) act" where
  "send_indicators c d cid refs xs = (let network = ioc_values Ioc_network xs; hashes = ioc_values Ioc_hash xs;
       queried = length network + length hashes in
     seq_act (consumeUsageOrGap d ''THREAT_INTEL_IOCS'' (of_nat queried))
    (bind_act (ask_provider c d Ioc_network network) (\<lambda>r1. bind_act (ask_provider c d Ioc_hash hashes) (\<lambda>r2.
     keep_verdicts d cid refs queried (verdicts_with Ioc_network xs r1 @ verdicts_with Ioc_hash xs r2) (ir_warnings r1 @ ir_warnings r2)))))"

definition enrich_threat_intel ::
  "intel_client option \<Rightarrow> tool_deps \<Rightarrow> id \<Rightarrow> js \<Rightarrow> ('a db_scheme, js) act" where
  "enrich_threat_intel client d cid params = (let refs = arg_strings params ''refs'' in case client of
       None \<Rightarrow> throw_act Invalid_argument
     | Some c \<Rightarrow> seq_act (require (length refs \<le> ic_maxBatchSize c) Invalid_argument)
         (bind_act (gate (indicators_of d refs)) (send_indicators c d cid refs)))"

end
