(* ===== verification/InvestigationView.thy ===== *)
theory InvestigationView
  imports LocalTools
begin

text \<open>
  \<open>query_investigation\<close> of \<open>src/tools/v2/tools.ts\<close>: what the model is shown of the state of the
  investigation, cut down until its text fits. The ellipsis behind a cut text and the instruction are codes.
\<close>

section \<open>Names\<close>

definition lead_status_name :: "lead_status \<Rightarrow> string" where
  "lead_status_name st = (case st of LD_OPEN \<Rightarrow> ''OPEN'' | LD_INVESTIGATING \<Rightarrow> ''INVESTIGATING'' | LD_RESOLVED \<Rightarrow> ''RESOLVED''
     | LD_DISMISSED \<Rightarrow> ''DISMISSED'' | LD_LIMITED \<Rightarrow> ''LIMITED'')"

definition hypothesis_status_name :: "hypothesis_status \<Rightarrow> string" where
  "hypothesis_status_name st = (case st of HY_OPEN \<Rightarrow> ''OPEN'' | HY_SUPPORTED \<Rightarrow> ''SUPPORTED'' | HY_REFUTED \<Rightarrow> ''REFUTED''
     | HY_LIMITED \<Rightarrow> ''LIMITED'' | HY_SUPERSEDED \<Rightarrow> ''SUPERSEDED'')"

definition obligation_status_name :: "obligation_status \<Rightarrow> string" where
  "obligation_status_name st = (case st of OB_OPEN \<Rightarrow> ''OPEN'' | OB_QUEUED \<Rightarrow> ''QUEUED'' | OB_SATISFIED \<Rightarrow> ''SATISFIED''
     | OB_LIMITED \<Rightarrow> ''LIMITED'' | OB_CANCELLED \<Rightarrow> ''CANCELLED'')"

definition checkpoint_status_name :: "checkpoint_status \<Rightarrow> string" where
  "checkpoint_status_name st = (case st of CK_RUNNING \<Rightarrow> ''RUNNING'' | CK_COMPLETE \<Rightarrow> ''COMPLETE'' | CK_LIMITED \<Rightarrow> ''LIMITED''
     | CK_FAILED \<Rightarrow> ''FAILED'')"

definition proposer_name :: "proposer \<Rightarrow> string" where
  "proposer_name p = (case p of DISCOVERY \<Rightarrow> ''DISCOVERY'' | PLAYBOOK \<Rightarrow> ''PLAYBOOK'' | MODEL \<Rightarrow> ''MODEL'' | ANALYST \<Rightarrow> ''ANALYST'')"

definition kind_name :: "action_kind \<Rightarrow> string" where
  "kind_name k = (case k of REMOTE_PRIMITIVE \<Rightarrow> ''REMOTE_PRIMITIVE'' | LOCAL_QUERY \<Rightarrow> ''LOCAL_QUERY'' | DERIVE \<Rightarrow> ''DERIVE''
     | MODEL_REVIEW \<Rightarrow> ''MODEL_REVIEW'')"

section \<open>The rows\<close>

definition INVESTIGATION_REF_SAMPLE_LIMIT :: nat where
  "INVESTIGATION_REF_SAMPLE_LIMIT = 8"

definition refSample :: "string list \<Rightarrow> js" where
  "refSample values = js_ids (take INVESTIGATION_REF_SAMPLE_LIMIT values)"

definition sampled :: "string \<Rightarrow> string \<Rightarrow> string list \<Rightarrow> js_row" where
  "sampled k counter values = [(k, refSample values), (counter, js_nat (length values))]"

definition countBy :: "string list \<Rightarrow> js" where
  "countBy names = Obj (map (\<lambda>n. (n, js_nat (length (filter (\<lambda>m. m = n) names)))) (unique names))"

definition compact_entry :: "string \<times> js \<Rightarrow> js_row" where
  "compact_entry = (\<lambda>(k, v). case v of
     Arr xs \<Rightarrow> (k @ ''Count'', js_nat (length xs))
       # (if k = ''gapRefs'' \<or> k = ''obligationIds'' then [(k, Arr (take INVESTIGATION_REF_SAMPLE_LIMIT xs))] else [])
   | Str s \<Rightarrow> [(k, Str (if length s \<le> 512 then s else take 512 s @ ''...''))]
   | Null \<Rightarrow> [(k, Null)] | Num n \<Rightarrow> [(k, Num n)] | Bool b \<Rightarrow> [(k, Bool b)] | _ \<Rightarrow> [])"

definition compactEventPayload :: "investigation_event \<Rightarrow> js" where
  "compactEventPayload e = Obj (foldl merge_props [] (map compact_entry (ie_payload e)))"

definition lead_view :: "investigation_lead \<Rightarrow> js" where
  "lead_view l = Obj ([(''leadId'', Str (ld_leadId l)), (''subjectRef'', Str (ld_subjectRef l)), (''triggerKind'', Str (ld_triggerKind l)),
     (''priority'', Num (Fin (of_int (ld_priority l)))), (''status'', Str (lead_status_name (ld_status l)))]
     @ sampled ''triggerFactRefs'' ''triggerFactRefCount'' (ld_triggerFactRefs l))"

definition hypothesis_view :: "investigation_hypothesis \<Rightarrow> js" where
  "hypothesis_view h = Obj ([(''hypothesisId'', Str (hy_hypothesisId h)), (''subjectRef'', Str (hy_subjectRef h)),
     (''claim'', Str (take 512 (hy_claim h))), (''proposedBy'', Str (proposer_name (hy_proposedBy h))),
     (''status'', Str (hypothesis_status_name (hy_status h)))]
     @ sampled ''supportRefs'' ''supportRefCount'' (hy_supportRefs h)
     @ sampled ''counterEvidenceRefs'' ''counterEvidenceRefCount'' (hy_counterEvidenceRefs h)
     @ [(''alternativeExplanations'', js_ids (map (take 256) (take 5 (hy_alternativeExplanations h))))])"

definition obligation_view :: "investigation_obligation \<Rightarrow> js" where
  "obligation_view ob = Obj ([(''obligationId'', Str (ob_obligationId ob)), (''hypothesisId'', js_id (ob_hypothesisId ob)),
     (''obligationKind'', Str (ob_obligationKind ob)), (''required'', Bool (ob_required ob)),
     (''status'', Str (obligation_status_name (ob_status ob)))]
     @ sampled ''subjectRefs'' ''subjectRefCount'' (ob_subjectRefs ob) @ sampled ''resultRefs'' ''resultRefCount'' (ob_resultRefs ob)
     @ sampled ''gapRefs'' ''gapRefCount'' (ob_gapRefs ob))"

definition action_view :: "investigation_action \<Rightarrow> js" where
  "action_view a = (let results = (case ac_resultRefs a of None \<Rightarrow> [] | Some xs \<Rightarrow> xs) in
     Obj ([(''actionId'', Str (ac_actionId a)), (''kind'', Str (kind_name (ac_kind a))),
     (''requestedBy'', Str (proposer_name (ac_requestedBy a))), (''operationRef'', Str (ac_operationRef a)),
     (''status'', Str (action_status_name (ac_status a)))]
     @ sampled ''obligationIds'' ''obligationIdCount'' (ac_obligationIds a) @ sampled ''subjectRefs'' ''subjectRefCount'' (ac_subjectRefs a)
     @ sampled ''dependsOn'' ''dependencyCount'' (ac_dependsOn a) @ sampled ''resultRefs'' ''resultRefCount'' results
     @ opt_prop ''error'' (map_option (take 512) (nonempty (ac_error a))) @ [(''updatedAt'', Str (ac_updatedAt a))]))"

definition checkpoint_view :: "discovery_checkpoint \<Rightarrow> js" where
  "checkpoint_view c = Obj [(''checkpointId'', Str (ck_checkpointId c)), (''namespace'', Str (namespace_label (ck_namespace c))),
     (''status'', Str (checkpoint_status_name (ck_status c))), (''scannedCount'', js_nat (ck_scannedCount c)),
     (''matchedCount'', js_nat (ck_matchedCount c)), (''returnedCount'', js_nat (ck_returnedCount c)),
     (''cursorRef'', js_id (ck_cursorRef c)), (''remainingDescription'', js_id (map_option (take 512) (ck_remainingDescription c))),
     (''updatedAt'', Str (ck_updatedAt c))]"

definition event_view :: "investigation_event \<Rightarrow> js" where
  "event_view e = Obj [(''eventSeq'', js_nat (ie_eventSeq e)), (''eventId'', Str (ie_eventId e)), (''sourceBatchRef'', js_id (ie_sourceBatchRef e)),
     (''eventType'', Str (ie_eventType e)), (''payload'', compactEventPayload e), (''createdAt'', Str (ie_createdAt e))]"

definition envelope_js :: "authorization_envelope \<Rightarrow> js" where
  "envelope_js v = Obj ([(''version'', Str (ae_version v)), (''targetFingerprint'', Str (ae_targetFingerprint v)),
     (''namespaces'', js_ids (map namespace_label (ae_namespaces v))), (''scopeRefs'', js_ids (ae_scopeRefs v)),
     (''derivedRelations'', js_ids (ae_derivedRelations v)), (''sensitiveRead'', Bool (ae_sensitiveRead v)),
     (''collectEvidence'', Bool (ae_collectEvidence v)), (''probes'', js_ids (ae_probes v))]
     @ opt_prop ''expiresAt'' (ae_expiresAt v) @ [(''budget'', cost_js (ae_budget v))])"

definition session_js :: "investigation_session \<Rightarrow> js" where
  "session_js x = Obj ([(''sessionId'', Str (ss_sessionId x)), (''taskId'', Str (ss_taskId x)), (''epochId'', Str (ss_epochId x)),
     (''engineVersion'', Str (ss_engineVersion x)), (''playbookRegistryDigest'', Str (ss_playbookRegistryDigest x)),
     (''ruleRegistryDigest'', Str (ss_ruleRegistryDigest x)), (''authorizationVersion'', Str (ss_authorizationVersion x))]
     @ (case ss_authorizationEnvelope x of None \<Rightarrow> [] | Some v \<Rightarrow> [(''authorizationEnvelope'', envelope_js v)])
     @ [(''executionStatus'', Str (execution_name (ss_executionStatus x))),
        (''investigationStatus'', Str (investigation_name (ss_investigationStatus x))), (''revision'', js_nat (ss_revision x))]
     @ opt_prop ''completionSnapshotRef'' (ss_completionSnapshotRef x)
     @ [(''createdAt'', Str (ss_createdAt x)), (''updatedAt'', Str (ss_updatedAt x))])"

section \<open>The view\<close>

text \<open>What is read from the store, and the parameters of the call.\<close>

record view_input =
  vi_leads :: "investigation_lead list"
  vi_hypotheses :: "investigation_hypothesis list"
  vi_obligations :: "investigation_obligation list"
  vi_actions :: "investigation_action list"
  vi_discovery :: "discovery_checkpoint list"
  vi_candidates :: "investigation_event list"
  vi_session :: "investigation_session option"
  vi_maxEventSeq :: nat
  vi_after :: nat
  vi_requested :: nat

definition shown_events :: "view_input \<Rightarrow> nat \<Rightarrow> investigation_event list" where
  "shown_events v keep = take keep (vi_candidates v)"

definition more_events :: "view_input \<Rightarrow> nat \<Rightarrow> bool" where
  "more_events v keep \<longleftrightarrow> (let events = shown_events v keep in length events < length (vi_candidates v)
     \<or> (if events = [] then vi_after v else ie_eventSeq (last events)) < vi_maxEventSeq v)"

definition section_sizes :: "view_input \<Rightarrow> nat \<Rightarrow> (string \<times> nat) list" where
  "section_sizes v keep = [(''leads'', length (vi_leads v)), (''hypotheses'', length (vi_hypotheses v)),
     (''obligations'', length (vi_obligations v)), (''actions'', length (vi_actions v)), (''discovery'', length (vi_discovery v)),
     (''events'', if more_events v keep then keep + 1 else length (shown_events v keep))]"

definition truncated_sections :: "view_input \<Rightarrow> nat \<Rightarrow> string list" where
  "truncated_sections v keep = map fst (filter (\<lambda>(name, total). keep < total) (section_sizes v keep))"

definition section_summary :: "string list \<Rightarrow> js" where
  "section_summary names = Obj [(''total'', js_nat (length names)), (''byStatus'', countBy names)]"

definition view_summary :: "view_input \<Rightarrow> nat \<Rightarrow> js" where
  "view_summary v keep = Obj [(''leads'', section_summary (map (lead_status_name \<circ> ld_status) (vi_leads v))),
     (''hypotheses'', section_summary (map (hypothesis_status_name \<circ> hy_status) (vi_hypotheses v))),
     (''obligations'', section_summary (map (obligation_status_name \<circ> ob_status) (vi_obligations v))),
     (''actions'', section_summary (map (action_status_name \<circ> ac_status) (vi_actions v))),
     (''discovery'', section_summary (map (checkpoint_status_name \<circ> ck_status) (vi_discovery v))),
     (''events'', Obj [(''afterEventSeq'', js_nat (vi_after v)), (''maxEventSeq'', js_nat (vi_maxEventSeq v)),
        (''returned'', js_nat (length (shown_events v keep))), (''more'', Bool (more_events v keep))])]"

definition build_view :: "view_input \<Rightarrow> nat \<Rightarrow> js" where
  "build_view v keep = (let truncated = truncated_sections v keep; events = shown_events v keep in
     Obj ([(''status'', Str (if truncated = [] then ''success'' else ''partial'')), (''requestedLimit'', js_nat (vi_requested v)),
       (''effectiveLimit'', js_nat keep), (''session'', case vi_session v of None \<Rightarrow> Undefined | Some x \<Rightarrow> session_js x),
       (''summary'', view_summary v keep), (''leads'', Arr (map lead_view (take keep (vi_leads v)))),
       (''hypotheses'', Arr (map hypothesis_view (take keep (vi_hypotheses v)))),
       (''obligations'', Arr (map obligation_view (take keep (vi_obligations v)))),
       (''actions'', Arr (map action_view (take keep (vi_actions v)))),
       (''discovery'', Arr (map checkpoint_view (take keep (vi_discovery v)))),
       (''events'', Arr (map event_view events)), (''truncatedSections'', js_ids truncated)]
       @ (if more_events v keep \<and> events \<noteq> [] then [(''nextAfterEventSeq'', js_nat (ie_eventSeq (last events)))] else [])
       @ (if truncated \<noteq> [] then [(''instruction'', Str ''OMITTED_IS_NOT_ABSENT'')] else [])))"

text \<open>The largest number of rows for each section that was found to fit; 0 is tried by nobody.\<close>

function search_keep :: "(nat \<Rightarrow> bool) \<Rightarrow> nat \<Rightarrow> nat \<Rightarrow> nat \<Rightarrow> nat" where
  "search_keep ok low high best = (if high < low \<or> low = 0 then best else let middle = (low + high) div 2 in
     if ok middle then search_keep ok (middle + 1) high middle else search_keep ok low (middle - 1) best)"
  by pat_completeness auto
termination
  by (relation "measure (\<lambda>(ok, low, high, best). high + 1 - low)") auto

declare search_keep.simps [simp del]

definition view_fits :: "tool_deps \<Rightarrow> view_input \<Rightarrow> nat \<Rightarrow> bool" where
  "view_fits d v keep \<longleftrightarrow> utf8_bytes (te_stringify d (build_view v keep)) \<le> td_maxTextBytes d"

definition fitting_view :: "tool_deps \<Rightarrow> view_input \<Rightarrow> js" where
  "fitting_view d v = build_view v (search_keep (view_fits d v) 1 (vi_requested v) 0)"

definition read_view :: "tool_deps \<Rightarrow> nat \<Rightarrow> nat \<Rightarrow> 'a db_scheme \<Rightarrow> err + view_input" where
  "read_view d seen limit s = (let tid = dep_task d; eid = td_epochId d in
     case listInvestigationEvents tid eid (of_nat seen) (of_nat (min 201 (limit + 1))) s of Inl e \<Rightarrow> Inl e
     | Inr events \<Rightarrow> Inr \<lparr>vi_leads = listInvestigationLeads tid eid s, vi_hypotheses = listInvestigationHypotheses tid eid s,
         vi_obligations = listInvestigationObligations tid eid s, vi_actions = listInvestigationActions tid eid s,
         vi_discovery = listDiscoveryCheckpoints tid eid s, vi_candidates = events,
         vi_session = getInvestigationSession tid eid s, vi_maxEventSeq = maxInvestigationEventSeq tid eid s,
         vi_after = seen, vi_requested = limit\<rparr>)"

definition arg_nat :: "js \<Rightarrow> string \<Rightarrow> nat" where
  "arg_nat params k = nat \<lfloor>number_or (member params k) 0\<rfloor>"

definition query_investigation :: "tool_deps \<Rightarrow> js \<Rightarrow> ('a db_scheme, js) act" where
  "query_investigation d params =
     bind_act (gate (read_view d (arg_nat params ''afterEventSeq'') (arg_nat params ''limit''))) (\<lambda>v. return_act (fitting_view d v))"

section \<open>The tools\<close>

datatype local_name = N_query_investigation | N_propose_hypothesis | N_query_facts | N_request_scope_extension
  | N_request_sensitive_read | N_record_assessment | N_adjudicate_assessment | N_get_assessment_projection
  | N_resolve_derived_objects | N_enrich_threat_intel

fun local_label :: "local_name \<Rightarrow> string" where
  "local_label N_query_investigation = ''query_investigation''"
| "local_label N_propose_hypothesis = ''propose_hypothesis''"
| "local_label N_query_facts = ''query_facts''"
| "local_label N_request_scope_extension = ''request_scope_extension''"
| "local_label N_request_sensitive_read = ''request_sensitive_read''"
| "local_label N_record_assessment = ''record_assessment''"
| "local_label N_adjudicate_assessment = ''adjudicate_assessment''"
| "local_label N_get_assessment_projection = ''get_assessment_projection''"
| "local_label N_resolve_derived_objects = ''resolve_derived_objects''"
| "local_label N_enrich_threat_intel = ''enrich_threat_intel''"

text \<open>Code from outside: the check of a schema, the arguments it lets through, comparison, digest and duration of a
  query, the provider.\<close>

record local_env =
  lo_schema :: "local_name \<Rightarrow> js \<Rightarrow> bool"
  lo_query :: "js \<Rightarrow> fact_query"
  lo_assessment :: "js \<Rightarrow> assessment_params"
  lo_collate :: "string \<Rightarrow> string \<Rightarrow> rat"
  lo_compare :: "js comparison"
  lo_queryDigest :: "fact_query \<Rightarrow> string"
  lo_elapsed :: rat
  lo_client :: "intel_client option"

fun local_body :: "local_env \<Rightarrow> tool_deps \<Rightarrow> local_name \<Rightarrow> id \<Rightarrow> js \<Rightarrow> ('a db_scheme, js) act" where
  "local_body v d N_query_investigation cid params = query_investigation d params"
| "local_body v d N_propose_hypothesis cid params = propose_hypothesis d params"
| "local_body v d N_query_facts cid params =
     bind_act (queryWithinBudget (lo_compare v) (lo_queryDigest v) (lo_elapsed v) d (query_ast (lo_query v) params)) (\<lambda>a. return_act (answer_js a))"
| "local_body v d N_request_scope_extension cid params = request_scope_extension d params"
| "local_body v d N_request_sensitive_read cid params = request_sensitive_read d params"
| "local_body v d N_record_assessment cid params =
     bind_act (record_assessment d (lo_assessment v params)) (\<lambda>a. return_act (assessment_js a))"
| "local_body v d N_adjudicate_assessment cid params =
     bind_act (adjudicate_assessment d (lo_assessment v params) (arg_string params ''targetAssessmentId'')) (\<lambda>a. return_act (assessment_js a))"
| "local_body v d N_get_assessment_projection cid params = bind_act (read_act (get_assessment_projection (lo_collate v) d)) return_act"
| "local_body v d N_resolve_derived_objects cid params = resolve_derived_objects (lo_collate v) d cid params"
| "local_body v d N_enrich_threat_intel cid params = enrich_threat_intel (lo_client v) d cid params"

definition call_local :: "local_env \<Rightarrow> tool_deps \<Rightarrow> local_name \<Rightarrow> id \<Rightarrow> js \<Rightarrow> ('a db_scheme, js) act" where
  "call_local v d name = local_tool d (local_label name) (lo_schema v name) (local_body v d name)"

end
