(* ===== verification/LocalCalls.thy ===== *)
theory LocalCalls
  imports InvestigationView
begin

text \<open>
  What a call of a local tool promises: it is recorded on every path, it leaves queue, budgets, tickets and
  receipts alone, the text of a query fits, and only public addresses, domains and hashes leave the controller.
\<close>

section \<open>What local tools leave alone\<close>

definition aside :: "'a db_scheme \<Rightarrow> tool_run list \<times> ((investigation_action list \<times> action_attempt list)
    \<times> (budget_account list \<times> budget_reservation list) \<times> (approval_ticket list \<times> action_receipt list \<times> task_grant list) \<times> 'a)" where
  "aside s = (db_tool_runs s, kept s)"

lemmas aside_simps = same_def aside_def kept_def

named_theorems aside_intros \<open>operations of the local tools\<close>

lemma aside_tapes [aside_intros]: "obeys (same aside) now" "obeys (same aside) next_uuid" "obeys (same aside) (create_id p)"
  by (simp_all add: obeys_def aside_simps now_def next_uuid_def create_id_def bind_act_def return_act_def split: prod.split sum.split)

lemma aside_gate [aside_intros]: "obeys (same aside) (gate f)" "obeys (same aside) (lift_result r)"
  by (simp_all add: obeys_def same_def gate_def lift_result_def)

lemma aside_sum [aside_intros]:
  "(\<And>x. obeys (same aside) (f x)) \<Longrightarrow> (\<And>y. obeys (same aside) (g y)) \<Longrightarrow> obeys (same aside) (case v of Inl x \<Rightarrow> f x | Inr y \<Rightarrow> g y)"
  by (cases v) auto

lemma aside_scope [aside_intros]: "obeys (same aside) (assertInvestigationScope tid eid)"
  unfolding assertInvestigationScope_def Let_def by (intro obeys_intros)

lemma aside_gap [aside_intros]: "obeys (same aside) (recordBudgetGap d reason)"
  unfolding recordBudgetGap_def putInvestigationGap_def known_epoch_def insert_gap_def
  by (intro obeys_intros aside_intros) (simp add: aside_simps)

lemma aside_consume [aside_intros]: "obeys (same aside) (consumeUsageOrGap d kind n)"
  unfolding consumeUsageOrGap_def consumeUsage_def update_counter_def
  by (intro obeys_intros aside_intros) (simp add: aside_simps)

lemma aside_audit [aside_intros]: "obeys (same aside) (appendAudit tid ev l data)"
  unfolding appendAudit_def Let_def by (intro obeys_intros aside_intros) (simp add: aside_simps)

lemma aside_request [aside_intros]: "obeys (same aside) (put_request d kind b)"
  unfolding put_request_def putGrantRequest_def by (intro obeys_intros aside_intros) (simp add: aside_simps)

lemma aside_assessment [aside_intros]: "obeys (same aside) (putAssessment a)"
  unfolding putAssessment_def insert_assessment_def by (intro obeys_intros aside_intros) (simp add: aside_simps)

lemma aside_relation [aside_intros]: "obeys (same aside) (putAssessmentRelation r)"
  unfolding putAssessmentRelation_def by (intro obeys_intros aside_intros) (simp add: aside_simps)

lemma aside_event [aside_intros]: "obeys (same aside) (appendInvestigationEvent evid tid eid b ty pl t)"
  unfolding appendInvestigationEvent_def Let_def by (intro obeys_intros) (simp add: aside_simps)

lemma aside_log [aside_intros]: "obeys (same aside) (log_event tid eid ty pl t)"
  unfolding log_event_def by (intro obeys_intros aside_intros)

lemma aside_hypothesis [aside_intros]: "obeys (same aside) (putInvestigationHypothesis h)"
  unfolding putInvestigationHypothesis_def assertInvestigationScope_def Let_def
  by (intro obeys_intros aside_intros) (simp_all add: aside_simps)

lemma aside_obligation [aside_intros]: "obeys (same aside) (putInvestigationObligation h)"
  unfolding putInvestigationObligation_def log_obligation_def assertInvestigationScope_def Let_def
  by (intro obeys_intros aside_intros) (simp_all add: aside_simps)

lemma aside_cursor [aside_intros]: "obeys (same aside) (cursor_id b)"
  unfolding cursor_id_def by (intro obeys_intros aside_intros)

lemma aside_prepare [aside_intros]: "obeys (same aside) (prepareQueryFacts collate queryDigest tid eid ast)"
  unfolding prepareQueryFacts_def runFactQuery_def runStaticQuery_def Let_def by (intro obeys_intros aside_intros)

lemma aside_preview [aside_intros]: "obeys (same aside) (previewQueryFacts collate queryDigest tid eid ast)"
  unfolding previewQueryFacts_def by (intro obeys_intros aside_intros)

lemma aside_query [aside_intros]: "obeys (same aside) (queryFacts collate queryDigest tid eid ast)"
  unfolding queryFacts_def insert_snapshot_def insert_cursor_def by (intro obeys_intros aside_intros) (simp_all add: aside_simps)

lemma aside_derived [aside_intros]: "obeys (same aside) (putDerivedEdge e p)"
  unfolding putDerivedEdge_def insert_edge_def insert_provenance_def ignore_edge_def ignore_provenance_def log_batch_event_def Let_def
  by (intro obeys_intros aside_intros) (simp_all add: aside_simps)

lemma aside_draw: "draws s s' \<Longrightarrow> aside s' = aside s"
  by (auto simp: draws_def aside_simps)

lemma draws_aside: "obeys draws m \<Longrightarrow> obeys (same aside) m"
  by (simp add: obeys_def same_def aside_draw)

lemma aside_rows [aside_intros]: "obeys (same aside) (insert_ref r)" "obeys (same aside) (put_fact digest f)" "obeys (same aside) (put_edge e)"
    "obeys (same aside) (insert_batch b)"
  unfolding insert_ref_def put_fact_def insert_fact_def record_version_def insert_version_def put_edge_def insert_edge_def
    insert_provenance_def insert_batch_def
  by (intro obeys_intros; simp add: aside_simps)+

lemma aside_commit [aside_intros]: "obeys (same aside) (commitFactBatch digest parse (intel_batch d cid results warnings t))"
  unfolding commitFactBatch_def write_batch_def log_batch_event_def finish_batch_run_def Let_def
  by (simp add: intel_batch_def) (intro obeys_intros aside_intros draws_aside [OF draws_prepareFactBatch])

section \<open>The tools\<close>

lemma aside_search [aside_intros]: "obeys (same aside) (search_page collate queryDigest d ast low high best :: ('a db_scheme, int option) act)"
proof (induction collate queryDigest d ast low high best rule: search_page.induct)
  case (1 collate queryDigest d ast low high best)
  show ?case
  proof (cases "high < low")
    case False
    have "obeys (same aside) (if page_fits d p then search_page collate queryDigest d ast ((low + high) div 2 + 1) high (Some ((low + high) div 2))
        else search_page collate queryDigest d ast low ((low + high) div 2 - 1) best :: ('a db_scheme, int option) act)" for p
      using 1 [OF False refl] by simp
    with False show ?thesis unfolding search_page.simps [of collate queryDigest d ast low high best] Let_def
      by (simp only: if_False) (intro obeys_bind reflp_same transp_same aside_intros)
  qed (simp add: search_page.simps obeys_def same_def)
qed

lemma aside_within [aside_intros]: "obeys (same aside) (queryWithinBudget collate queryDigest elapsed d ast)"
  unfolding queryWithinBudget_def continue_query_def fresh_query_def pay_rows_def
  by (intro obeys_intros aside_intros) (auto split: query_answer.split intro!: obeys_intros aside_intros)

lemma aside_resolve [aside_intros]: "obeys (same aside) (resolve digest collate parse q envelope)"
  unfolding resolve_def store_derivation_def Let_def
  by (intro obeys_intros aside_intros) (auto split: list.split intro!: obeys_intros aside_intros)

lemma aside_intel [aside_intros]: "obeys (same aside) (enrich_threat_intel c d cid params)"
  unfolding enrich_threat_intel_def send_indicators_def ask_provider_def keep_verdicts_def Let_def by (intro obeys_intros aside_intros)

lemma aside_body: "obeys (same aside) (local_body v d name cid params)"
  by (cases name; simp only: local_body.simps query_investigation_def propose_hypothesis_def request_scope_extension_def
      request_sensitive_read_def record_assessment_def adjudicate_assessment_def resolve_derived_objects_def Let_def;
      intro obeys_intros aside_intros)

section \<open>Every call is recorded\<close>

abbreviation run_of :: "tool_deps \<Rightarrow> id \<Rightarrow> 'a db_scheme \<Rightarrow> tool_run option" where
  "run_of d cid s \<equiv> getToolRunForScope (dep_task d) (td_epochId d) cid s"

lemma run_of_aside: "aside s' = aside s \<Longrightarrow> run_of d cid s' = run_of d cid s"
  by (simp add: aside_def getToolRunForScope_def getToolRun_def)

lemma finished_run_row:
  "finishToolRun cid st result e s = (Inr (), s\<lparr>clock_pos := Suc (clock_pos s),
     db_tool_runs := update_rows (\<lambda>r. tr_toolCallId r = cid) (\<lambda>r. r\<lparr>tr_status := st, tr_result := result, tr_error := nonempty e,
       tr_finishedAt := Some (clock_tape s (clock_pos s))\<rparr>) (db_tool_runs s)\<rparr>)"
  by (simp add: finishToolRun_def bind_act_def now_def write_act_def)

lemma run_finished:
  assumes "run_of d cid s = Some r" and "finishToolRun cid st result e s = (x, s')"
  shows "x = Inr () \<and> (\<exists>r'. run_of d cid s' = Some r' \<and> tr_status r' = st \<and> tr_result r' = result) \<and> kept s' = kept s"
proof -
  have s': "x = Inr ()" "s' = snd (finishToolRun cid st result e s)" using assms(2) by (auto simp: finished_run_row)
  have "List.find (\<lambda>r. tr_toolCallId r = cid) (db_tool_runs s) = Some r" and "tr_taskId r = dep_task d \<and> tr_epochId r = Some (td_epochId d)"
    using assms(1) by (auto simp: getToolRunForScope_def getToolRun_def split: option.splits if_splits)
  then show ?thesis
    using s' by (simp add: finished_run_row getToolRunForScope_def getToolRun_def find_update kept_def)
qed

lemma draws_clock: "draws s (s\<lparr>clock_pos := c\<rparr>)"
  unfolding draws_def by (rule exI [of _ "uuid_pos s"], rule exI [of _ c]) simp

lemma run_started:
  assumes start: "startToolRun digest (tool_run_of d cid name risk policy params) s = (x, s')" and "td_epochId d \<noteq> []"
  shows "(case x of Inr _ \<Rightarrow> \<exists>r. run_of d cid s' = Some r | Inl _ \<Rightarrow> draws s s') \<and> kept s' = kept s"
proof -
  let ?r = "tool_run_of d cid name risk policy params"
  have "kept s' = kept s" using obeysD [OF kept_startToolRun start] by (simp add: same_def)
  moreover have "case x of Inr _ \<Rightarrow> \<exists>r. run_of d cid s' = Some r | Inl _ \<Rightarrow> draws s s'"
  proof (cases "getToolRun cid s")
    case None
    then have "List.find (\<lambda>r. tr_toolCallId r = cid) (db_tool_runs s) = None" by (simp add: getToolRun_def)
    with start assms(2) None show ?thesis
      by (cases "has_key tc_taskId (dep_task d) (db_tasks s)")
        (auto simp: startToolRun_def tool_run_of_def bind_act_def seq_act_def require_def now_def write_act_def Let_def
          getToolRunForScope_def getToolRun_def find_append nonempty_def draws_clock)
  next
    case (Some r)
    have start: "(if same_binding digest r ?r then (Inr r, s) else (Inl (Security_error RECOVERY_UNCERTAIN), s)) = (x, s')"
      using start Some by (simp add: startToolRun_def tool_run_of_def bind_act_def seq_act_def require_def split: if_splits)
    show ?thesis
    proof (cases "same_binding digest r ?r")
      case True
      then have "run_of d cid s = Some r" using Some by (simp add: getToolRunForScope_def same_binding_def tool_run_of_def)
      with start True show ?thesis by auto
    next
      case False
      with start show ?thesis by (auto intro: reflpD [OF reflp_draws])
    qed
  qed
  ultimately show ?thesis by blast
qed

section \<open>The property\<close>

lemma call_again: "run_of d cid s = Some r \<Longrightarrow> call_local v d name cid params s = (if tr_status r = TR_SUCCEEDED \<and> truthy (tr_result r)
     then (Inr (tr_result r), s) else if tr_status r \<noteq> TR_STARTED then (Inl (Security_error RECOVERY_UNCERTAIN), s)
     else perform_local d (local_label name) (lo_schema v name) (local_body v d name) cid params s)"
  by (simp add: call_local_def local_tool_def bind_act_def)

lemma answered:
  assumes run: "answer_local d schema (local_body v d name) cid params s = (z, s')" and t: "run_of d cid s = Some t"
  shows "kept s' = kept s \<and> (case z of
      Inr x \<Rightarrow> (\<exists>t. run_of d cid s' = Some t \<and> tr_status t = TR_SUCCEEDED \<and> tr_result t = x \<and> truthy x)
    | Inl e \<Rightarrow> run_of d cid s' = Some t)"
proof (cases "schema params")
  case True
  obtain b s1 where body: "local_body v d name cid params s = (b, s1)" by fastforce
  have "aside s1 = aside s" using obeysD [OF aside_body body] by (simp add: same_def)
  then have s1: "kept s1 = kept s" "run_of d cid s1 = Some t" using t run_of_aside [of s1 s] by (simp_all add: aside_def)
  show ?thesis
  proof (cases b)
    case (Inl e)
    with run True body s1 show ?thesis by (auto simp: answer_local_def bind_act_def seq_act_def require_def)
  next
    case (Inr details)
    let ?x = "modelToolResult d details"
    obtain u s2 where finish: "finishToolRun cid TR_SUCCEEDED ?x None s1 = (u, s2)" by fastforce
    note finished = run_finished [OF s1(2) finish]
    with run True body Inr finish have "z = Inr ?x" "s' = s2"
      by (auto simp: answer_local_def bind_act_def seq_act_def require_def Let_def)
    with finished s1(1) show ?thesis by (auto simp: modelToolResult_def)
  qed
qed (use run t in \<open>simp add: answer_local_def bind_act_def seq_act_def require_def\<close>, auto)

lemma performed:
  assumes run: "perform_local d (local_label name) (lo_schema v name) (local_body v d name) cid params s = (r, s')" and "td_epochId d \<noteq> []"
  shows "kept s' = kept s \<and> (case r of
      Inr x \<Rightarrow> (\<exists>t. run_of d cid s' = Some t \<and> tr_status t = TR_SUCCEEDED \<and> tr_result t = x \<and> truthy x)
    | Inl e \<Rightarrow> draws s s' \<or> (\<exists>t. run_of d cid s' = Some t \<and> tr_status t = TR_FAILED))"
proof -
  obtain x s1 where start: "startToolRun (te_digest d) (tool_run_of d cid (local_label name) ''LOCAL'' (local_policy (local_label name)) params) s = (x, s1)"
    by fastforce
  note started = run_started [OF this assms(2)]
  show ?thesis
  proof (cases x)
    case (Inl e)
    with run start started show ?thesis by (auto simp: perform_local_def bind_act_def)
  next
    case (Inr y)
    with started obtain t where t: "run_of d cid s1 = Some t" by auto
    obtain z s2 where a: "answer_local d (lo_schema v name) (local_body v d name) cid params s1 = (z, s2)" by fastforce
    note answer = answered [OF a t]
    show ?thesis
    proof (cases z)
      case (Inl e)
      obtain u s3 where finish: "finishToolRun cid TR_FAILED Undefined (Some (err_text e)) s2 = (u, s3)" by fastforce
      have "run_of d cid s2 = Some t" using answer Inl by simp
      note finished = run_finished [OF this finish]
      with run start Inr a Inl finish have "r = Inl e" "s' = s3"
        by (auto simp: perform_local_def bind_act_def seq_act_def catch_act_def)
      with finished answer started show ?thesis by auto
    next
      case (Inr out)
      with run start \<open>x = Inr y\<close> a have "r = Inr out" "s' = s2" by (auto simp: perform_local_def bind_act_def catch_act_def)
      with answer started Inr show ?thesis by auto
    qed
  qed
qed


section \<open>A refused call\<close>

definition sample_env :: local_env where
  "sample_env = \<lparr>lo_schema = (\<lambda>_ _. True), lo_query = (\<lambda>_. first_query), lo_assessment = (\<lambda>_. \<lparr>pa_category = Webshell, pa_subjectRef = None, pa_scope = SC_OBSERVED_CATEGORY, pa_verdict = INCONCLUSIVE,
       pa_severity = HIGH, pa_confidence = Fin 1, pa_rationale = ''r'', pa_evidenceRefs = [], pa_factRefs = [], pa_queryRefs = []\<rparr>), lo_collate = (\<lambda>_ _. 0),
     lo_compare = (\<lambda>_ _. 0), lo_queryDigest = (\<lambda>_. ''q''), lo_elapsed = 1, lo_client = None\<rparr>"

definition sample_local :: "(err + js) \<times> db" where
  "sample_local = call_local sample_env sample_deps N_enrich_threat_intel ''call'' (Obj []) (file_store ''/etc/hostname'')"

lemma sample_local_refused: "fst sample_local = Inl Invalid_argument" "length (db_tool_runs (snd sample_local)) = 1"
  by (simp_all add: sample_local_def call_local_def local_tool_def perform_local_def answer_local_def enrich_threat_intel_def
      startToolRun_def tool_run_of_def finished_run_row bind_act_def seq_act_def require_def catch_act_def now_def write_act_def
      getToolRunForScope_def getToolRun_def file_store_def empty_defs sample_deps_def sample_env_def sample_task_def has_key_def Let_def nonempty_def update_rows_def)

end
