(* ===== verification/LocalQuery.thy ===== *)
theory LocalQuery
  imports LocalCalls
begin

text \<open>What \<open>query_facts\<close> promises about its budgets: rows are paid for before they leave, and their text fits.\<close>

section \<open>A preview is the page\<close>

lemma draws_gate [obeys_intros]: "obeys draws (lift_result r)"
  by (simp add: obeys_def lift_result_def reflpD [OF reflp_draws])

lemma draws_now [obeys_intros]: "obeys draws now"
  by (simp add: obeys_def now_def draws_clock)

lemma draws_cursor [obeys_intros]: "obeys draws (cursor_id b)"
  unfolding cursor_id_def by (intro obeys_intros)

lemma draws_prepare [obeys_intros]: "obeys draws (prepareQueryFacts collate queryDigest tid eid ast)"
  unfolding prepareQueryFacts_def runFactQuery_def runStaticQuery_def Let_def by (intro obeys_intros)

lemma draws_preview [obeys_intros]: "obeys draws (previewQueryFacts collate queryDigest tid eid ast)"
  unfolding previewQueryFacts_def by (intro obeys_intros)

lemma same_fact_rows:
  assumes "runFactQuery collate queryDigest tid eid ast facts mx cursor s = (Inr r, s')"
    and "runFactQuery collate queryDigest tid eid ast facts mx cursor t = (Inr r', t')"
  shows "qp_rows (qr_page r') = qp_rows (qr_page r) \<and> length (qp_rows (qr_page r)) \<le> limit_of (fq_limit ast)"
  using assms unfolding runFactQuery_eq
  by (auto simp: page_result_def Let_def act_simps split: sum.splits)

lemma same_static_rows:
  assumes "runStaticQuery collate queryDigest tid eid ast rows mx cursor s = (Inr r, s')"
    and "runStaticQuery collate queryDigest tid eid ast rows mx cursor t = (Inr r', t')"
  shows "qp_rows (qr_page r') = qp_rows (qr_page r) \<and> length (qp_rows (qr_page r)) \<le> limit_of (fq_limit ast)"
  using assms unfolding runStaticQuery_def by (auto simp: Let_def act_simps)

lemma drawn_reads:
  assumes "draws s t"
  shows "find_cursor tid eid ast t = find_cursor tid eid ast s" "maxFactSeq tid eid t = maxFactSeq tid eid s"
    "listFacts tid eid q t = listFacts tid eid q s" "modelViewRows tid eid view t = modelViewRows tid eid view s"
  using assms by (auto simp: draws_def find_cursor_def maxFactSeq_def listFacts_def all_facts_def modelViewRows_def listEdges_def
      listEvidence_def listAssessments_def listCoverageRuns_def split: option.split)

lemma same_rows:
  assumes "draws s t" and "prepareQueryFacts collate queryDigest tid eid ast s = (Inr r, s')"
    and "prepareQueryFacts collate queryDigest tid eid ast t = (Inr r', t')"
  shows "qp_rows (qr_page r') = qp_rows (qr_page r) \<and> length (qp_rows (qr_page r)) \<le> limit_of (fq_limit ast)"
  using assms(2,3) unfolding prepareQueryFacts_def drawn_reads [OF assms(1)]
  by (auto simp: act_simps drawn_reads [OF assms(1)] lift_result_def split: if_splits option.splits dest: same_fact_rows same_static_rows)

section \<open>Paying for rows\<close>

definition query_rows :: "'a fact_db_scheme \<Rightarrow> query_snapshot list \<times> query_cursor list" where
  "query_rows s = (db_query_snapshots s, db_query_cursors s)"

lemma rows_gap: "obeys (same (\<lambda>s. (query_rows s, db_counters s))) (recordBudgetGap d reason)"
  unfolding recordBudgetGap_def putInvestigationGap_def known_epoch_def insert_gap_def
  by (intro obeys_intros) (simp_all add: same_def query_rows_def obeys_def now_def next_uuid_def)

lemma paid:
  assumes run: "consumeUsageOrGap d kind a s = (Inr u, s')" and inv: "counters_inv s"
  shows "query_rows s' = query_rows s \<and> counters_inv s' \<and> find_counter (usage_key d kind) s' =
      map_option (\<lambda>c. c\<lparr>uc_used := uc_used c + a\<rparr>) (find_counter (usage_key d kind) s)
    \<and> (case find_counter (usage_key d kind) s of None \<Rightarrow> False | Some c \<Rightarrow> uc_used c + a \<le> uc_limit c)
    \<and> (kind' \<noteq> kind \<longrightarrow> find_counter (usage_key d kind') s' = find_counter (usage_key d kind') s)"
proof -
  let ?p = "\<lambda>c. counter_key c = usage_key d kind \<and> uc_used c + a \<le> uc_limit c"
  from run have 1: "consumeUsage (usage_key d kind) a s = (Inr (), s')"
    by (auto simp: consumeUsageOrGap_def catch_act_def act_simps split: prod.splits sum.splits)
  then have n: "changes ?p (db_counters s) = 1" and s': "s' = s\<lparr>db_counters := update_rows ?p (\<lambda>c. c\<lparr>uc_used := uc_used c + a\<rparr>) (db_counters s)\<rparr>"
    by (auto simp: consumeUsage_def update_counter_def act_simps)
  have "\<exists>c\<in>set (db_counters s). ?p c" using n by (auto simp: changes_def length_Suc_conv filter_eq_Cons_iff)
  then obtain c where member: "c \<in> set (db_counters s)" and p: "?p c" by blast
  have "distinct (map counter_key (db_counters s))" using inv by (simp add: counters_inv_def)
  from find_unique [OF this member] p have c: "find_counter (usage_key d kind) s = Some c" "?p c"
    by (simp_all add: find_counter_def)
  have find: "find_counter k s' = map_option (\<lambda>c. if ?p c then c\<lparr>uc_used := uc_used c + a\<rparr> else c) (find_counter k s)" for k
    unfolding find_counter_def s' by (simp add: find_counter_update)
  have "find_counter (usage_key d kind') s' = find_counter (usage_key d kind') s" if "kind' \<noteq> kind"
    unfolding find using that by (cases "find_counter (usage_key d kind') s") (auto dest: find_counter_SomeD)
  then show ?thesis
    using c find [of "usage_key d kind"] consumeUsage_inv [OF inv, of "usage_key d kind" a] 1 by (simp add: query_rows_def s')
qed

section \<open>The search\<close>

definition previewed :: "js comparison \<Rightarrow> (fact_query \<Rightarrow> string) \<Rightarrow> tool_deps \<Rightarrow> fact_query \<Rightarrow> 'a db_scheme \<Rightarrow> bool" where
  "previewed collate queryDigest d ast s \<longleftrightarrow> (\<exists>t p t'. draws s t \<and> page_fits d p
     \<and> previewQueryFacts collate queryDigest (dep_task d) (td_epochId d) ast t = (Inr p, t'))"

lemma previewed_drawn: "draws s t \<Longrightarrow> previewed collate queryDigest d ast t \<Longrightarrow> previewed collate queryDigest d ast s"
  unfolding previewed_def using transpD [OF transp_draws] by blast

lemma search_found:
  assumes "search_page collate queryDigest d ast low high best s = (Inr found, s')"
  shows "draws s s' \<and> (found = best \<or> (\<exists>n. found = Some n \<and> low \<le> n \<and> n \<le> high \<and> previewed collate queryDigest d (limited ast n) s))"
  using assms
proof (induction collate queryDigest d ast low high best arbitrary: s rule: search_page.induct)
  case (1 collate queryDigest d ast low high best)
  let ?m = "(low + high) div 2"
  show ?case
  proof (cases "high < low")
    case True
    with "1.prems" show ?thesis by (simp add: search_page.simps reflpD [OF reflp_draws])
  next
    case False
    with "1.prems" obtain p s1 where p: "previewQueryFacts collate queryDigest (dep_task d) (td_epochId d) (limited ast ?m) s = (Inr p, s1)"
      and rest: "(if page_fits d p then search_page collate queryDigest d ast (?m + 1) high (Some ?m)
        else search_page collate queryDigest d ast low (?m - 1) best) s1 = (Inr found, s')"
      unfolding search_page.simps [of collate queryDigest d ast low high best] by (auto simp: Let_def act_simps)
    have s1: "draws s s1" using obeysD [OF draws_preview p] .
    have m: "low \<le> ?m" "?m \<le> high" using False by auto
    show ?thesis
    proof (cases "page_fits d p")
      case True
      have here: "previewed collate queryDigest d (limited ast ?m) s"
        unfolding previewed_def using p True reflpD [OF reflp_draws] by blast
      have IH: "draws s1 s' \<and> (found = Some ?m \<or> (\<exists>n. found = Some n \<and> ?m + 1 \<le> n \<and> n \<le> high \<and> previewed collate queryDigest d (limited ast n) s1))"
        using "1.IH"(1) [OF False refl True] rest True by simp
      with s1 have "draws s s'" using transpD [OF transp_draws] by blast
      with IH here m previewed_drawn [OF s1] show ?thesis by force
    next
      case no: False
      have IH: "draws s1 s' \<and> (found = best \<or> (\<exists>n. found = Some n \<and> low \<le> n \<and> n \<le> ?m - 1 \<and> previewed collate queryDigest d (limited ast n) s1))"
        using "1.IH"(2) [OF False refl no] rest no by simp
      with s1 have "draws s s'" using transpD [OF transp_draws] by blast
      with IH m previewed_drawn [OF s1] show ?thesis by force
    qed
  qed
qed

lemma query_after_preview:
  assumes "queryFacts collate queryDigest (dep_task d) (td_epochId d) ast t = (Inr p, t')" and "draws s t"
    and "previewed collate queryDigest d ast s"
  shows "length (qp_rows p) \<le> limit_of (fq_limit ast) \<and> (\<exists>q. page_fits d q \<and> qp_rows q = qp_rows p) \<and> db_counters t' = db_counters s"
proof -
  from assms(1) obtain r t1 where r: "prepareQueryFacts collate queryDigest (dep_task d) (td_epochId d) ast t = (Inr r, t1)" "p = qr_page r"
    and t': "db_counters t' = db_counters t1"
    by (auto simp: queryFacts_def insert_snapshot_def insert_cursor_def act_simps now_def split: option.splits)
  from assms(3) obtain u q u' where u: "draws s u" "page_fits d q"
    "previewQueryFacts collate queryDigest (dep_task d) (td_epochId d) ast u = (Inr q, u')" by (auto simp: previewed_def)
  then obtain r' where r': "prepareQueryFacts collate queryDigest (dep_task d) (td_epochId d) ast u = (Inr r', u')" "q = qr_page r'"
    by (auto simp: previewQueryFacts_def act_simps)
  obtain a b where "t = s\<lparr>uuid_pos := a, clock_pos := b\<rparr>" using assms(2) by (auto simp: draws_def)
  moreover obtain a' b' where "u = s\<lparr>uuid_pos := a', clock_pos := b'\<rparr>" using u(1) by (auto simp: draws_def)
  ultimately have "draws t u" by (intro drawsI [where u = a' and c = b']) simp
  from same_rows [OF this r(1) r'(1)] have "qp_rows q = qp_rows p" "length (qp_rows p) \<le> limit_of (fq_limit ast)" using r(2) r'(2) by auto
  moreover have "db_counters t1 = db_counters t" "db_counters t = db_counters s"
    using obeysD [OF draws_prepare r(1)] assms(2) by (auto simp: draws_def)
  ultimately show ?thesis using u(2) t' by metis
qed

section \<open>The property\<close>

lemma answer_within:
  assumes run: "(if nonempty (fq_cursorRef ast) \<noteq> None then continue_query collate queryDigest d ast
      else fresh_query collate queryDigest d ast) s = (Inr a, s')"
  shows "db_counters s' = db_counters s \<and> (case a of
      Page p \<Rightarrow> length (qp_rows p) \<le> limit_of (fq_limit ast) \<and> (\<exists>q. page_fits d q \<and> qp_rows q = qp_rows p)
    | Row_too_large \<Rightarrow> query_rows s' = query_rows s)"
proof (cases "nonempty (fq_cursorRef ast) \<noteq> None")
  case True
  with run obtain q s1 where q: "previewQueryFacts collate queryDigest (dep_task d) (td_epochId d) ast s = (Inr q, s1)"
    and rest: "(if page_fits d q then bind_act (queryFacts collate queryDigest (dep_task d) (td_epochId d) ast) (\<lambda>p'. return_act (Page p'))
       else return_act Row_too_large) s1 = (Inr a, s')"
    by (auto simp: continue_query_def act_simps)
  have s1: "draws s s1" using obeysD [OF draws_preview q] .
  show ?thesis
  proof (cases "page_fits d q")
    case True
    then have "previewed collate queryDigest d ast s"
      unfolding previewed_def using q reflpD [OF reflp_draws] by blast
    with rest True query_after_preview [OF _ s1] show ?thesis by (fastforce simp: act_simps)
  next
    case False
    with rest s1 show ?thesis by (auto simp: act_simps draws_def query_rows_def)
  qed
next
  case False
  with run obtain best s1 where best: "search_page collate queryDigest d ast 1 (int (limit_of (fq_limit ast))) None s = (Inr best, s1)"
    and rest: "(case best of None \<Rightarrow> return_act Row_too_large
      | Some n \<Rightarrow> bind_act (queryFacts collate queryDigest (dep_task d) (td_epochId d) (limited ast n)) (\<lambda>p. return_act (Page p))) s1 = (Inr a, s')"
    by (auto simp: fresh_query_def act_simps)
  note found = search_found [OF best]
  show ?thesis
  proof (cases best)
    case None
    with rest found show ?thesis by (auto simp: act_simps draws_def query_rows_def)
  next
    case (Some n)
    with found have n: "1 \<le> n" "n \<le> int (limit_of (fq_limit ast))" "previewed collate queryDigest d (limited ast n) s" by auto
    from rest Some obtain p where p: "queryFacts collate queryDigest (dep_task d) (td_epochId d) (limited ast n) s1 = (Inr p, s')" "a = Page p"
      by (auto simp: act_simps)
    from query_after_preview [OF p(1) _ n(3)] found p(2) n(1,2) show ?thesis by (auto simp: limited_def)
  qed
qed

text \<open>C39. When \<open>query_facts\<close> answers with a page, the rows are within what was left of the budget for rows, exactly they are paid, and
  they are the rows of a page whose text fits into the limit of the model. When it answers that a row is too large, no row is
  paid and no snapshot and no cursor is stored or moved.\<close>

theorem query_stays_within_budgets:
  assumes inv: "counters_inv s" and run: "queryWithinBudget collate queryDigest elapsed d ast s = (Inr a, s')"
  shows "counters_inv s' \<and> (\<exists>n. remainingUsage (usage_key d ''LOCAL_QUERY_ROWS'') s = Inr n \<and> 0 < n \<and> (case a of
      Page p \<Rightarrow> of_nat (length (qp_rows p)) \<le> n
        \<and> remainingUsage (usage_key d ''LOCAL_QUERY_ROWS'') s' = Inr (n - of_nat (length (qp_rows p)))
        \<and> (\<exists>q. page_fits d q \<and> qp_rows q = qp_rows p)
    | Row_too_large \<Rightarrow> remainingUsage (usage_key d ''LOCAL_QUERY_ROWS'') s' = Inr n \<and> query_rows s' = query_rows s))"
proof -
  let ?k = "usage_key d ''LOCAL_QUERY_ROWS''"
  from run obtain s1 u n s2 u' s3 u'' where 1: "consumeUsageOrGap d ''LOCAL_QUERY_CALLS'' 1 s = (Inr u, s1)"
    and n: "remainingUsage ?k s1 = Inr n" "0 < n"
    and 2: "(if nonempty (fq_cursorRef (bounded_limit n ast)) \<noteq> None then continue_query collate queryDigest d (bounded_limit n ast)
       else fresh_query collate queryDigest d (bounded_limit n ast)) s1 = (Inr a, s2)"
    and 3: "pay_rows d a s2 = (Inr u', s3)" and 4: "consumeUsageOrGap d ''LOCAL_QUERY_WALL_MS'' (max 1 elapsed) s3 = (Inr u'', s')"
    by (auto simp: queryWithinBudget_def bounded_limit_def act_simps lift_result_def split: sum.splits if_splits jsnum.splits)
  note paid1 = paid [OF 1 inv, of "''LOCAL_QUERY_ROWS''"]
  then have inv1: "counters_inv s1" and "remainingUsage ?k s = Inr n" using n(1) by (auto simp: remainingUsage_def)
  note within = answer_within [OF 2]
  have inv2: "counters_inv s2" and n2: "remainingUsage ?k s2 = Inr n"
    using within inv1 n(1) by (auto simp: counters_inv_def remainingUsage_def find_counter_def)
  have last: "counters_inv s' \<and> remainingUsage ?k s' = remainingUsage ?k s3 \<and> query_rows s' = query_rows s3" if "counters_inv s3"
    using paid [OF 4 that, of "''LOCAL_QUERY_ROWS''"] by (simp add: remainingUsage_def)
  show ?thesis
  proof (cases a)
    case (Page p)
    with 3 have pay: "consumeUsageOrGap d ''LOCAL_QUERY_ROWS'' (of_nat (length (qp_rows p))) s2 = (Inr u', s3)" by (simp add: pay_rows_def)
    from n2 obtain c where c: "find_counter ?k s2 = Some c" "n = max 0 (uc_limit c - uc_used c)"
      by (auto simp: remainingUsage_def split: option.splits)
    with paid [OF pay inv2, of "[]"] have "counters_inv s3" "of_nat (length (qp_rows p)) \<le> n"
      and "remainingUsage ?k s3 = Inr (n - of_nat (length (qp_rows p)))"
      by (auto simp: remainingUsage_def)
    with last within Page n(2) \<open>remainingUsage ?k s = Inr n\<close> show ?thesis by auto
  next
    case Row_too_large
    with 3 have "s3 = s2" by (simp add: pay_rows_def)
    with last inv2 n2 within paid1 Row_too_large n(2) \<open>remainingUsage ?k s = Inr n\<close> show ?thesis by auto
  qed
qed

section \<open>A query for one row\<close>

definition counter_for :: "string \<Rightarrow> rat \<Rightarrow> usage_counter" where
  "counter_for kind limit = \<lparr>uc_taskId = ''T1'', uc_epochId = ''E1'', uc_kind = kind, uc_limit = limit, uc_used = 0\<rparr>"

definition metered_store :: db where
  "metered_store = (file_store ''/etc/hostname'')\<lparr>db_counters :=
     [counter_for ''LOCAL_QUERY_CALLS'' 1, counter_for ''LOCAL_QUERY_ROWS'' 4, counter_for ''LOCAL_QUERY_WALL_MS'' 9]\<rparr>"

definition one_row :: fact_query where
  "one_row = first_query\<lparr>fq_select := [''factId''], fq_orderBy := None, fq_limit := Fin 1\<rparr>"

definition sample_query :: "(err + query_answer) \<times> db" where
  "sample_query = queryWithinBudget (\<lambda>_ _. 0) (\<lambda>_. ''q'') 1 sample_deps one_row metered_store"

lemma sample_query_answers: "case fst sample_query of Inr (Page p) \<Rightarrow> length (qp_rows p) = 1 | _ \<Rightarrow> False"
  by code_simp

theorem query_stays_within_budgets_witness:
  "remainingUsage (usage_key sample_deps ''LOCAL_QUERY_ROWS'') metered_store = Inr 4
   \<and> remainingUsage (usage_key sample_deps ''LOCAL_QUERY_ROWS'') (snd sample_query) = Inr 3"
proof -
  obtain p where p: "fst sample_query = Inr (Page p)" "length (qp_rows p) = 1"
    using sample_query_answers by (auto split: sum.splits query_answer.splits)
  then have run: "queryWithinBudget (\<lambda>_ _. 0) (\<lambda>_. ''q'') 1 sample_deps one_row metered_store = (Inr (Page p), snd sample_query)"
    by (simp add: sample_query_def prod_eq_iff)
  have "counters_inv metered_store" by (simp add: counters_inv_def metered_store_def counter_for_def counter_key_def)
  moreover have start: "remainingUsage (usage_key sample_deps ''LOCAL_QUERY_ROWS'') metered_store = Inr 4" by code_simp
  ultimately show ?thesis using query_stays_within_budgets [OF _ run] p(2) by simp
qed

end
