(* ===== verification/Intel.thy ===== *)
theory Intel
  imports LocalCalls
begin

text \<open>What the lookup of threat intelligence lets out of the controller.\<close>

section \<open>What may leave\<close>

text \<open>A value that a \<open>task_ioc\<close> object declares to be of a kind.\<close>

definition declared :: "tool_deps \<Rightarrow> 'a fact_db_scheme \<Rightarrow> id \<Rightarrow> string \<Rightarrow> string \<Rightarrow> bool" where
  "declared d s ref kind raw \<longleftrightarrow> (case getObjectReference (dep_task d) (td_epochId d) ref None s of None \<Rightarrow> False
     | Some v \<Rightarrow> or_namespace v = NS_task_ioc \<and> (case latestPrivateFact d ref s of Inl _ \<Rightarrow> False
         | Inr payload \<Rightarrow> get_prop payload ''kind'' = Str kind \<and> get_prop payload ''value'' = Str raw))"

definition file_digest :: "tool_deps \<Rightarrow> 'a fact_db_scheme \<Rightarrow> id \<Rightarrow> string \<Rightarrow> bool" where
  "file_digest d s ref raw \<longleftrightarrow> (case getObjectReference (dep_task d) (td_epochId d) ref None s of None \<Rightarrow> False
     | Some v \<Rightarrow> or_namespace v = NS_file \<and> (case latestPrivateFact d ref s of Inl _ \<Rightarrow> False
         | Inr payload \<Rightarrow> get_prop payload ''sha256'' = Str raw))"

definition evidence_digest :: "tool_deps \<Rightarrow> 'a fact_db_scheme \<Rightarrow> id \<Rightarrow> string \<Rightarrow> bool" where
  "evidence_digest d s ref raw \<longleftrightarrow> (case getEvidence (dep_task d) ref s of None \<Rightarrow> False | Some e \<Rightarrow> ev_sha256 e = Some raw)"

definition may_leave :: "tool_deps \<Rightarrow> 'a fact_db_scheme \<Rightarrow> id list \<Rightarrow> ioc_kind \<Rightarrow> string \<Rightarrow> bool" where
  "may_leave d s refs kind v \<longleftrightarrow> (\<exists>raw. v = to_lower raw \<and> (case kind of
       Ioc_network \<Rightarrow> isPublicThreatIntelIp raw \<or> list_ex (\<lambda>ref. declared d s ref ''domain'' raw) refs
     | Ioc_hash \<Rightarrow> list_ex (\<lambda>ref. evidence_digest d s ref raw \<or> file_digest d s ref raw \<or> declared d s ref ''hash'' raw) refs))"

lemma lower_char_idem: "lower_char (lower_char c) = lower_char c"
proof -
  define n where "n = (of_char c :: nat)"
  show ?thesis
  proof (cases "65 \<le> n \<and> n \<le> 90 \<or> 192 \<le> n \<and> n \<le> 222 \<and> n \<noteq> 215")
    case True
    then have "lower_char c = char_of (n + 32)" by (simp add: lower_char_def n_def Let_def)
    moreover have "(of_char (char_of (n + 32)) :: nat) = n + 32" using True by auto
    ultimately show ?thesis using True by (auto simp: lower_char_def Let_def)
  next
    case False
    then have "lower_char c = c" unfolding lower_char_def n_def Let_def by (simp only: if_False)
    then show ?thesis by simp
  qed
qed

lemma to_lower_idem: "to_lower (to_lower s) = to_lower s"
  by (simp add: to_lower_def lower_char_idem)

lemma is_string_Str: "is_string v \<longleftrightarrow> v = Str (string_of v)"
  by (cases v) auto

lemma indicator_may_leave:
  assumes "indicator_of d ref s = Inr (kind, v, b)"
  shows "may_leave d s [ref] kind v"
proof (cases "starts_with ''EV-'' ref")
  case True
  with assms show ?thesis
    by (auto simp: indicator_of_def evidence_indicator_def may_leave_def evidence_digest_def nonempty_def Let_def
        split: option.splits if_splits sum.splits)
next
  case False
  with assms obtain obj payload where obj: "getObjectReference (dep_task d) (td_epochId d) ref None s = Some obj"
    and payload: "latestPrivateFact d ref s = Inr payload"
    by (auto simp: indicator_of_def object_indicator_def split: option.splits sum.splits)
  consider "or_namespace obj = NS_socket" | "or_namespace obj = NS_task_ioc" | "or_namespace obj = NS_file"
    using assms False obj payload by (auto simp: indicator_of_def object_indicator_def Let_def split: if_splits)
  then show ?thesis
  proof cases
    case 1
    with assms False obj payload show ?thesis
      by (auto simp: indicator_of_def object_indicator_def may_leave_def Let_def split: if_splits)
  next
    case 2
    let ?raw = "string_of (get_prop payload ''value'')"
    from 2 assms False obj payload have "ioc_indicator payload (or_namespace obj, or_stableIdentity obj) = Inr (kind, v, b)"
      by (simp add: indicator_of_def object_indicator_def)
    then have v: "v = to_lower ?raw" "get_prop payload ''value'' = Str ?raw"
      and kinds: "(kind = Ioc_network \<and> isPublicThreatIntelIp (to_lower ?raw)) \<or> (kind = Ioc_network \<and> get_prop payload ''kind'' = Str ''domain'')
        \<or> (kind = Ioc_hash \<and> get_prop payload ''kind'' = Str ''hash'')"
      by (auto simp: ioc_indicator_def Let_def is_string_Str [symmetric] split: if_splits) (simp_all add: is_string_Str)
    from kinds show ?thesis
    proof (elim disjE conjE)
      assume "kind = Ioc_network" "isPublicThreatIntelIp (to_lower ?raw)"
      with v show ?thesis by (auto simp: may_leave_def to_lower_idem intro!: exI [of _ "to_lower ?raw"])
    qed (use v 2 obj payload in \<open>auto simp: may_leave_def declared_def\<close>)
  next
    case 3
    with assms False obj payload show ?thesis
      by (auto simp: indicator_of_def object_indicator_def may_leave_def file_digest_def Let_def is_string_Str split: if_splits)
  qed
qed

lemma may_leave_more: "may_leave d s refs kind v \<Longrightarrow> set refs \<subseteq> set refs' \<Longrightarrow> may_leave d s refs' kind v"
  by (auto simp: may_leave_def list_ex_iff split: ioc_kind.splits) blast+

lemma indicators_may_leave: "indicators_of d refs s = Inr xs \<Longrightarrow> (kind, v, b) \<in> set xs \<Longrightarrow> may_leave d s refs kind v"
proof (induction refs arbitrary: xs)
  case (Cons ref refs)
  then obtain x ys where x: "indicator_of d ref s = Inr x" and ys: "indicators_of d refs s = Inr ys" "xs = x # ys"
    by (auto split: sum.splits)
  show ?case
  proof (cases "x = (kind, v, b)")
    case True
    with indicator_may_leave [of d ref s kind v b] x have "may_leave d s [ref] kind v" by simp
    then show ?thesis by (rule may_leave_more) simp
  next
    case False
    with Cons.prems(2) ys Cons.IH [OF ys(1)] have "may_leave d s refs kind v" by auto
    then show ?thesis by (rule may_leave_more) auto
  qed
qed simp

lemma values_may_leave: "indicators_of d refs s = Inr xs \<Longrightarrow> list_all (may_leave d s refs kind) (ioc_values kind xs)"
  by (auto simp: list_all_iff ioc_values_def intro: indicators_may_leave)

lemma enriched: "enrich_threat_intel (Some c) d cid params s = (let refs = arg_strings params ''refs'' in
    if ic_maxBatchSize c < length refs then (Inl Invalid_argument, s)
    else case indicators_of d refs s of Inl e \<Rightarrow> (Inl e, s) | Inr xs \<Rightarrow> send_indicators c d cid refs xs s)"
  by (simp add: enrich_threat_intel_def Let_def seq_act_def bind_act_def gate_def require_def split: sum.split)

section \<open>The property\<close>


section \<open>A file whose digest is looked up\<close>

definition hashed_store :: db where
  "hashed_store = empty_db\<lparr>db_tasks := [sample_task], db_epochs := [sample_epoch ''E1''], db_objects := [example_object 1 NS_file],
     db_facts := [example_fact 1 NS_file [(''sha256'', Str ''AB'')]]\<rparr>"

definition quiet_client :: intel_client where
  "quiet_client = \<lparr>ic_ask = (\<lambda>_ _. Inr empty_reply), ic_elapsed = (\<lambda>_. 1), ic_maxBatchSize = 10\<rparr>"

definition nosy_client :: intel_client where
  "nosy_client = quiet_client\<lparr>ic_ask := (\<lambda>kind values. if kind = Ioc_hash \<and> list_ex (\<lambda>v. v \<noteq> ''ab'') values then Inl Plain_error else Inr empty_reply)\<rparr>"

definition one_ref :: js where
  "one_ref = Obj [(''refs'', Arr [Str ''OBJ-x''])]"


text \<open>A domain is sent as it was declared; nobody looks whether it is an address, which may be a private one.\<close>

lemma private_address_as_domain: "ioc_indicator [(''kind'', Str ''domain''), (''value'', Str ''10.0.0.1'')] b = Inr (Ioc_network, ''10.0.0.1'', b)
    \<and> \<not> isPublicThreatIntelIp ''10.0.0.1''"
proof -
  have "to_lower ''10.0.0.1'' = ''10.0.0.1''" "\<not> isPublicThreatIntelIp ''10.0.0.1''" by code_simp+
  then show ?thesis by (simp add: ioc_indicator_def get_prop_def)
qed

end
