(* ===== verification/Spec2Isabelle.thy ===== *)
theory Spec2Isabelle
  imports Budget Approvals Records ActionQueue Predicates Capability Normalizer FactBatch Projection Assessments Completion Cancelling FactQuery Resolver Executor Sanitizer Proposals WriteTool Reading Planning LocalQuery Intel
begin

text \<open>
  HuntWarden investigates Linux hosts with a language model. A controller, written in TypeScript, keeps the
  state of every investigation in one database, decides what a model may do, sends typed requests to a small
  helper on the host and turns its answers into facts. This development models that controller: its store, its
  gates, its planners and its loop. Paths below are relative to \<open>src/src/\<close> of the repository.

  \<^bold>\<open>How the parts interact.\<close> A task (\<open>Tasks\<close>) runs in epochs. A tool call (\<open>RemoteTool\<close>) passes the
  gates (\<open>Gates\<close>, \<open>Capability\<close>), reserves its cost (\<open>Budget\<close>), sends the request, normalizes the answer
  (\<open>Normalizer\<close>) and commits a batch (\<open>FactBatch\<close>), which also writes an event. The scheduler (\<open>Scheduler\<close>)
  reads the events behind a watermark, lets the rules judge the new facts (\<open>Rules\<close>), derives relations
  (\<open>Resolver\<close>), lets the planners queue further work (\<open>Discovery\<close>, \<open>Playbooks\<close>) and runs the queue
  (\<open>Investigation\<close>, \<open>Executor\<close>). The model adds its own actions (\<open>Proposals\<close>), asks the store (\<open>FactQuery\<close>) and sees
  only sanitized text (\<open>Sanitizer\<close>). A person decides on tickets (\<open>Approvals\<close>) that a writing tool consumes
  (\<open>WriteTool\<close>). The tools that only touch the store (\<open>LocalTools\<close>, \<open>InvestigationView\<close>) share one envelope. What rules, model and people state ends in a ledger (\<open>Assessments\<close>, \<open>Projection\<close>), and
  the end of an investigation is judged by \<open>Completion\<close>.

  \<^bold>\<open>Shared vocabulary.\<close>
  \<^item> \<open>Prelude\<close>: the errors of \<open>common/errors.ts\<close>; actions \<open>('s, 'a) act\<close>, state passing with errors as
    values (\<open>bind_act\<close>, \<open>throw_act\<close>, \<open>transaction\<close>, which restores the state on an error); the collections
    \<open>act_simps\<close>, \<open>keeps_intros\<close>, \<open>obeys_intros\<close>, \<open>succeeds_intros\<close> for invariants, relations and success of
    actions; the locales \<open>invariant_system\<close> and \<open>monotone_system\<close> of request systems.
  \<^item> \<open>JsValue\<close>, \<open>JsRegex\<close>, \<open>JsSort\<close>: values of type \<open>unknown\<close>, the regular expressions of the program as data
    with their matcher, and stable sorting with a comparison that may be inconsistent.
  \<^item> \<open>Domain\<close>, \<open>Protocol\<close>, \<open>InvestigationTypes\<close>, \<open>Manifest\<close>: the types of \<open>domain/types.ts\<close>,
    \<open>protocol-v2/types.ts\<close> and \<open>investigation/types.ts\<close>, the parser of \<open>protocol-v2/wire.ts\<close> and the tables of
    \<open>protocol-v2/manifest.ts\<close>.
  \<^item> \<open>Store\<close>: the tables of \<open>storage/runtime-store.ts\<close> as one record of lists, in three layers (\<open>control_db\<close>,
    \<open>fact_db\<close>, \<open>db\<close>), with positions of the clock and of the id generator.

  \<^bold>\<open>The store.\<close>
  \<^item> \<open>Budget\<close>: accounts, reservations, counters. Used and reserved amounts are the totals of the settled and open
    reservations and stay within the limit; a reservation is settled once.
  \<^item> \<open>Tasks\<close>, \<open>Approvals\<close>: tasks, epochs, grants, tickets, audit, \<open>agent/approval-service.ts\<close>. A consumed ticket was
    approved for exactly its arguments; it is consumed once; a new epoch ends the tickets of the old one.
  \<^item> \<open>Records\<close>: tool runs, messages, evidence, receipts, reports. A call id stays bound to its arguments.
  \<^item> \<open>FactStore\<close>, \<open>FactBatch\<close>: facts, versions, edges, gaps and the commit. A batch commits as a whole, the open
    version of an entity is its latest fact, no row of the fact graph dangles.
  \<^item> \<open>Investigation\<close>, \<open>ActionQueue\<close>: events, leads, hypotheses, obligations, the queue of actions as a state machine. Running
    actions and running attempts agree, keys are unique, dependencies have no cycle, an ended action is final,
    recovery repeats only what may be observed again.

  \<^bold>\<open>What leaves the controller.\<close>
  \<^item> \<open>Predicates\<close>, \<open>Capability\<close>, \<open>Gates\<close>: \<open>protocol-v2/predicate.ts\<close>, \<open>protocol-v2/capability.ts\<close>, \<open>investigation/version.ts\<close> and the
    checks of the eight forensic operations in \<open>tools/v2/tools.ts\<close>.
  \<^item> \<open>Frame\<close>, \<open>RemoteTool\<close>, \<open>WriteTool\<close>: the rest of \<open>tools/v2/tools.ts\<close> that sends requests. Every request is covered by a
    reservation settled on each path; a write happens only with a ticket that matches and is consumed first.
  \<^item> \<open>LocalTools\<close>, \<open>InvestigationView\<close>, \<open>LocalCalls\<close>, \<open>LocalQuery\<close>, \<open>Intel\<close>: \<open>localTool\<close> of \<open>tools/v2/tools.ts\<close> and the
    tools built with it: questions about facts and about the investigation, hypotheses, assessments, derived objects,
    requests of grants, the lookup of threat intelligence. A call is recorded on every path and leaves queue,
    budgets, tickets and receipts alone; \<open>query_facts\<close> pays for its rows and its text fits; only public addresses,
    domains and digests leave the controller.
  \<^item> \<open>NetworkIoc\<close>: \<open>threat-intel/network-ioc.ts\<close>. The public IPv4 addresses are the complement of blocks of 32 bit words.
  \<^item> \<open>Normalizer\<close>, \<open>Sanitizer\<close>: \<open>facts/normalizer.ts\<close>, \<open>agent/data-sanitizer.ts\<close>. No secret field reaches the model;
    the text of a tool result has no match of the secret patterns and fits the limit.

  \<^bold>\<open>What is known.\<close>
  \<^item> \<open>FactQuery\<close>: \<open>facts/query.ts\<close>. The pages of a query are one snapshot, the query pushed into the database is the
    query, and hidden fields do not influence it.
  \<^item> \<open>Resolver\<close>, \<open>Rules\<close>: \<open>investigation/derived-object-resolver.ts\<close>, \<open>investigation/java-relation-resolver.ts\<close>,
    \<open>investigation/java-class-identity.ts\<close>, \<open>rules/deterministic-rule-engine-v2.ts\<close>.
  \<^item> \<open>Assessments\<close>, \<open>Projection\<close>, \<open>Completion\<close>, \<open>Cancelling\<close>: \<open>assessments/validation.ts\<close>, \<open>assessments/projection.ts\<close>,
    \<open>investigation/completion-validator.ts\<close>.

  \<^bold>\<open>What is done next.\<close>
  \<^item> \<open>Executor\<close>, \<open>Proposals\<close>: \<open>investigation/action-executor.ts\<close> and \<open>propose_actions\<close> of \<open>tools/v2/tools.ts\<close>.
  \<^item> \<open>Discovery\<close>, \<open>Playbooks\<close>, \<open>Scheduler\<close>: \<open>discovery/volatile-discovery.ts\<close>, \<open>playbooks/registry.ts\<close>,
    \<open>investigation/scheduler.ts\<close>.
  \<^item> \<open>Growth\<close> states what planners and queue leave alone, in the locales \<open>planner_store\<close> and \<open>executor_store\<close>, one
    proof for several relations; \<open>Planning\<close> shows that planned work is in the queue and that the obligations on the
    scope are honest; \<open>Reading\<close> shows that no announced fact escapes the rules.

  \<^bold>\<open>Parameters.\<close> Code that is not in the repository is an argument of the definitions: \<open>digest\<close> (\<open>digestObject\<close>, a
  hash), \<open>collate\<close> (\<open>localeCompare\<close>), \<open>parse\<close> (\<open>Date.parse\<close>), \<open>to_iso\<close> (\<open>toISOString\<close>), \<open>url_path\<close> (the path of a URL),
  \<open>text\<close> (\<open>String\<close>), \<open>stringify\<close> and the parser of JSON, the check of arguments against a TypeBox schema, the answers
  of the host (a list of replies to come), the evidence store, and the tools of executor and scheduler, which are
  functions on the store. The theorems on executor and scheduler assume that tools only add to the store; a run of
  a remote tool is shown to keep the queue in \<open>RemoteTool\<close>. No law is assumed of the other parameters unless the
  theorem names it.

  \<^bold>\<open>Conventions.\<close> Timestamps are strings, ordered as the database orders them; \<open>ORDER BY\<close> breaks ties by the
  order of insertion; a JSON column is read back as it was written. The clock is read once for each call that the
  source reads it in. Sentences for people are replaced by codes. A string is a list of characters, so its length
  is that of a string of one-unit characters. An invalid time in the age of a relation is -1. A class name has no NUL. An
  assignment to \<open>__proto__\<close> makes no property. A call of a tool is one step of the store: the controller
  is single threaded and what else may run while it waits is not modelled. Event listeners and the test hook of the
  writing tools are left out, and so are the offset and the bound of a scan on the wire, which the source reads
  but does not use. Numbers are exact rationals; where the source relies on safe integers the model checks it.

  \<^bold>\<open>Bounds and fuel.\<close> The model follows the bounds of the source: 5000 events for one reading of the log, 100 actions and
  20 cycles for one run of the scheduler, 200 candidates for one plan of the playbooks, 100 for one of the discovery,
  pages of the queries and of remote calls. They are arguments of recursive functions, so each loop returns. A star
  of \<open>JsRegex\<close> has the rest of the text as fuel, which is enough because each round takes a character: \<open>rx_test_iff\<close>.
  \<open>executor_drains_the_queue\<close>
  and \<open>sanitized_text_returns\<close> state that the loops do return with their result.

  \<^bold>\<open>Not modelled.\<close> Entry points, desktop and user interface, configuration and credentials (glue around libraries, files
  and windows); the set-up of the model client and the runtime around it; SSH and timers of the executors; the evidence
  files; the fixed sequences of the presets; the text of reports; evaluation of releases; the HTTP client of the threat
  intelligence; the helper, which is written in Python, and the Java probe. Of \<open>tools/v2/tools.ts\<close>:
  \<open>describe_capabilities\<close>, the list of tools offered in each phase and the time limits of calls. Of the store: \<open>relocateEvidencePaths\<close> (paths of files), and
  \<open>putEntityVersion\<close> and \<open>putRelationProvenance\<close>, which the program does not call.
\<close>

end
